(* ===== verification/Prelude.thy ===== *)
theory Prelude
  imports Main "HOL-Library.Word" "HOL-Library.Sublist" "HOL-Library.Code_Target_Nat"
begin

unbundle bit_operations_syntax

text \<open>
  Shared vocabulary of the development.

  \<^item> Machine integers of the Rust code as \<open>w word\<close>, with Rust's \<open>checked_*\<close>,
    \<open>saturating_*\<close> and \<open>div_ceil\<close> operations; plain \<open>+\<close>, \<open>-\<close>, \<open>*\<close> on words wrap,
    as release builds do (the workspace sets no \<open>overflow-checks\<close>).
  \<^item> \<open>Result<T, E>\<close> as \<open>'e + 'a\<close>: \<open>Err\<close> is \<open>Inl\<close>, \<open>Ok\<close> is \<open>Inr\<close>; the \<open>?\<close> operator is
    \<open>and_then\<close>; \<open>collect::<Result<Vec<_>, _>>\<close> is \<open>traverse\<close>; \<open>try_fold\<close> is \<open>try_fold\<close>.
  \<^item> \<open>to_le_bytes\<close>, \<open>to_be_bytes\<close> and their inverses, as \<open>le_bytes\<close>, \<open>be_bytes\<close>,
    \<open>le_word\<close>, \<open>be_word\<close>.
  \<^item> Two interfaces that every wire format of the wallet is measured against:
    \<open>prefix_code\<close> (an encoder whose outputs can be concatenated and still be told apart)
    and \<open>codec\<close> (an encoder with a decoder that returns the value and the rest).
\<close>

section \<open>Machine integers\<close>

type_synonym u8 = "8 word"
type_synonym u16 = "16 word"
type_synonym u32 = "32 word"
type_synonym u64 = "64 word"
type_synonym u128 = "128 word"
type_synonym bytes = "u8 list"

named_theorems word_nat_simps
  \<open>facts that move a statement on machine words to the natural numbers\<close>
named_theorems result_simps
  \<open>inversion facts for the \<open>Result\<close> combinators\<close>

definition checked_add :: "'a::len word \<Rightarrow> 'a word \<Rightarrow> 'a word option" where
  "checked_add a b = (if unat a + unat b < 2 ^ LENGTH('a) then Some (a + b) else None)"

definition checked_sub :: "'a::len word \<Rightarrow> 'a word \<Rightarrow> 'a word option" where
  "checked_sub a b = (if b \<le> a then Some (a - b) else None)"

definition checked_mul :: "'a::len word \<Rightarrow> 'a word \<Rightarrow> 'a word option" where
  "checked_mul a b = (if unat a * unat b < 2 ^ LENGTH('a) then Some (a * b) else None)"

definition checked_div :: "'a::len word \<Rightarrow> 'a word \<Rightarrow> 'a word option" where
  "checked_div a b = (if b = 0 then None else Some (a div b))"

definition saturating_sub :: "'a::len word \<Rightarrow> 'a word \<Rightarrow> 'a word" where
  "saturating_sub a b = (if b \<le> a then a - b else 0)"

definition saturating_mul :: "'a::len word \<Rightarrow> 'a word \<Rightarrow> 'a word" where
  "saturating_mul a b = (if unat a * unat b < 2 ^ LENGTH('a) then a * b else - 1)"

definition div_ceil :: "nat \<Rightarrow> nat \<Rightarrow> nat" where
  "div_ceil a b = (a + b - 1) div b"

text \<open>Addition on a length or an index, \<open>usize::checked_add\<close> on a 64-bit target.\<close>

definition usize_checked_add :: "nat \<Rightarrow> nat \<Rightarrow> nat option" where
  "usize_checked_add a b = (if a + b < 2 ^ 64 then Some (a + b) else None)"

definition usize_checked_mul :: "nat \<Rightarrow> nat \<Rightarrow> nat option" where
  "usize_checked_mul a b = (if a * b < 2 ^ 64 then Some (a * b) else None)"

lemma unat_add_le: "unat (a::'a::len word) + unat b < 2 ^ LENGTH('a) \<Longrightarrow> unat (a + b) = unat a + unat b"
  by (simp add: unat_word_ariths)

lemma unat_drop_bit_div: "unat (drop_bit n w) = unat w div 2 ^ n"
  by (metis drop_bit_eq_div unat_drop_bit_eq)

lemma checked_add_SomeD [word_nat_simps]:
  "checked_add a b = Some c \<longleftrightarrow>
     unat a + unat b < 2 ^ LENGTH('a) \<and> c = a + b" for a b c :: "'a::len word"
  by (auto simp: checked_add_def)

lemma checked_sub_SomeD [word_nat_simps]:
  "checked_sub a b = Some c \<longleftrightarrow> unat b \<le> unat a \<and> c = a - b" for a b c :: "'a::len word"
  by (auto simp: checked_sub_def word_le_nat_alt)

lemma unat_saturating_sub [word_nat_simps]: "unat (saturating_sub a b) = unat a - unat b"
  by (auto simp: saturating_sub_def unat_sub word_le_nat_alt)

lemma unat_checked_add: "checked_add a b = Some c \<Longrightarrow> unat c = unat a + unat b"
  by (auto simp: checked_add_SomeD unat_add_le)

lemma unat_checked_sub: "checked_sub a b = Some c \<Longrightarrow> unat a = unat b + unat c"
  by (auto simp: checked_sub_SomeD unat_sub word_le_nat_alt)

lemma unat_checked_mul: "checked_mul a b = Some c \<Longrightarrow> unat c = unat a * unat b"
  by (auto simp: checked_mul_def unat_word_ariths split: if_splits)

lemma word_take_bit_self: "unat w < 2 ^ n \<Longrightarrow> take_bit n w = w" for w :: "'a::len word"
  by (simp add: word_unat_eq_iff unsigned_take_bit_eq take_bit_nat_eq_self)
lemma word_high_bit_clear: "unat w < 2 ^ n \<Longrightarrow> n \<le> k \<Longrightarrow> \<not> bit w k" for w :: "'a::len word"
  by (metis bit_take_bit_iff not_less word_take_bit_self)
lemma word_join_bits: "take_bit n w OR push_bit n (drop_bit n w) = w" for w :: "'a::len word"
  by (rule bit_word_eqI) (auto simp: bit_simps, metis le_add_diff_inverse not_less)

lemma unat_lt2p_u64: "unat (v :: u64) < 2 ^ 64"
  using unsigned_less [of v] by simp

lemma unat_of_nat_u64: "n < 2 ^ 64 \<Longrightarrow> unat (of_nat n :: u64) = n"
  by (simp add: unat_of_nat take_bit_nat_eq_self)

lemma usize_checked_add_fits: "a + b < 2 ^ 64 \<Longrightarrow> usize_checked_add a b = Some (a + b)"
  by (simp add: usize_checked_add_def)

lemma div_ceil_ge: "0 < b \<Longrightarrow> a \<le> b * div_ceil a b"
proof -
  assume b: "0 < b"
  have "(a + b - 1) mod b \<le> b - 1"
    using b by (simp add: less_Suc_eq_le [symmetric])
  moreover have "b * ((a + b - 1) div b) + (a + b - 1) mod b = a + b - 1"
    by simp
  ultimately show ?thesis
    using b unfolding div_ceil_def by linarith
qed

lemma div_ceil_mono: "a \<le> a' \<Longrightarrow> div_ceil a b \<le> div_ceil a' b"
  by (simp add: div_ceil_def div_le_mono)

section \<open>Results\<close>

abbreviation Ok :: "'a \<Rightarrow> 'e + 'a" where "Ok \<equiv> Inr"
abbreviation Err :: "'e \<Rightarrow> 'e + 'a" where "Err \<equiv> Inl"

fun and_then :: "'e + 'a \<Rightarrow> ('a \<Rightarrow> 'e + 'b) \<Rightarrow> 'e + 'b" where
  "and_then (Inl e) f = Inl e"
| "and_then (Inr x) f = f x"

fun ok_or :: "'a option \<Rightarrow> 'e \<Rightarrow> 'e + 'a" where
  "ok_or None e = Inl e"
| "ok_or (Some x) e = Inr x"

fun ok :: "'e + 'a \<Rightarrow> 'a option" where
  "ok (Inl e) = None"
| "ok (Inr x) = Some x"

fun is_ok :: "'e + 'a \<Rightarrow> bool" where
  "is_ok (Inl e) = False"
| "is_ok (Inr x) = True"

fun traverse :: "('a \<Rightarrow> 'e + 'b) \<Rightarrow> 'a list \<Rightarrow> 'e + 'b list" where
  "traverse f [] = Inr []"
| "traverse f (x # xs) = and_then (f x) (\<lambda>y. and_then (traverse f xs) (\<lambda>ys. Inr (y # ys)))"

fun try_fold :: "('s \<Rightarrow> 'a \<Rightarrow> 'e + 's) \<Rightarrow> 's \<Rightarrow> 'a list \<Rightarrow> 'e + 's" where
  "try_fold f s [] = Inr s"
| "try_fold f s (x # xs) = and_then (f s x) (\<lambda>s'. try_fold f s' xs)"

lemma and_then_cong [fundef_cong]:
  "r = r' \<Longrightarrow> (\<And>x. r' = Inr x \<Longrightarrow> f x = g x) \<Longrightarrow> and_then r f = and_then r' g"
  by (cases r') auto

lemma and_then_Inr_iff [result_simps]:
  "and_then r f = Inr y \<longleftrightarrow> (\<exists>x. r = Inr x \<and> f x = Inr y)"
  by (cases r) auto

lemma and_then_Inl_iff:
  "and_then r f = Inl e \<longleftrightarrow> r = Inl e \<or> (\<exists>x. r = Inr x \<and> f x = Inl e)"
  by (cases r) auto

lemma ok_or_Inr_iff [result_simps]: "ok_or o' e = Inr x \<longleftrightarrow> o' = Some x"
  by (cases o') auto

lemma ok_or_Inl_iff [result_simps]: "ok_or o' e = Inl e' \<longleftrightarrow> o' = None \<and> e' = e"
  by (cases o') auto

lemma is_ok_iff: "is_ok r \<longleftrightarrow> (\<exists>x. r = Ok x)"
  by (cases r) auto

lemma ok_Some_iff: "ok r = Some x \<longleftrightarrow> r = Ok x"
  by (cases r) auto

lemma if_result_iff:
  "(if c then Inl e else r) = Inr x \<longleftrightarrow> \<not> c \<and> r = Inr x"
  "(if c then r else Inl e) = Inr x \<longleftrightarrow> c \<and> r = Inr x"
  "(if c then ok_or v e else Inr b) = Inr x \<longleftrightarrow> (if c then v = Some x else x = b)"
  "(if c then Inr a else Inr b) = Inr x \<longleftrightarrow> x = (if c then a else b)"
  by (auto simp: ok_or_Inr_iff)

lemma traverse_Inr_iff: "traverse f xs = Inr ys \<longleftrightarrow> list_all2 (\<lambda>x y. f x = Inr y) xs ys"
proof (induction xs arbitrary: ys)
  case Nil
  then show ?case by auto
next
  case (Cons x xs)
  then show ?case by (auto simp: and_then_Inr_iff list_all2_Cons1)
qed

lemma traverse_length: "traverse f xs = Inr ys \<Longrightarrow> length ys = length xs"
  by (auto simp: traverse_Inr_iff dest: list_all2_lengthD)

lemma try_fold_append:
  "try_fold f s (xs @ ys) = and_then (try_fold f s xs) (\<lambda>s'. try_fold f s' ys)"
proof (induction xs arbitrary: s)
  case Nil
  then show ?case by simp
next
  case (Cons x xs)
  then show ?case by (cases "f s x") auto
qed

section \<open>Byte order\<close>

primrec le_bytes :: "nat \<Rightarrow> 'a::len word \<Rightarrow> bytes" where
  "le_bytes 0 w = []"
| "le_bytes (Suc n) w = ucast w # le_bytes n (drop_bit 8 w)"

definition be_bytes :: "nat \<Rightarrow> 'a::len word \<Rightarrow> bytes" where
  "be_bytes n w = rev (le_bytes n w)"

primrec le_word :: "bytes \<Rightarrow> 'a::len word" where
  "le_word [] = 0"
| "le_word (b # bs) = ucast b OR push_bit 8 (le_word bs)"

definition be_word :: "bytes \<Rightarrow> 'a::len word" where
  "be_word bs = le_word (rev bs)"

lemma length_le_bytes [simp]: "length (le_bytes n w) = n"
  by (induction n arbitrary: w) auto

lemma length_be_bytes [simp]: "length (be_bytes n w) = n"
  by (simp add: be_bytes_def)

lemma le_word_le_bytes: "le_word (le_bytes n w) = (take_bit (8 * n) w :: 'a::len word)"
proof (induction n arbitrary: w)
  case 0
  then show ?case by simp
next
  case (Suc n)
  show ?case
    by (rule bit_word_eqI)
      (auto simp: Suc.IH bit_simps take_bit_eq_mask)
qed

lemma le_word_le_bytes_id:
  fixes w :: "'a::len word"
  assumes "LENGTH('a) \<le> 8 * n"
  shows "le_word (le_bytes n w) = w"
  using assms by (simp add: le_word_le_bytes take_bit_word_eq_self)

lemma be_word_be_bytes_id:
  fixes w :: "'a::len word"
  assumes "LENGTH('a) \<le> 8 * n"
  shows "be_word (be_bytes n w) = w"
  using assms by (simp add: be_word_def be_bytes_def le_word_le_bytes_id)

lemma le_bytes_inj:
  fixes v w :: "'a::len word"
  assumes "LENGTH('a) \<le> 8 * n" and "le_bytes n v = le_bytes n w"
  shows "v = w"
  using assms by (metis le_word_le_bytes_id)

lemma be_bytes_inj:
  fixes v w :: "'a::len word"
  assumes "LENGTH('a) \<le> 8 * n" and "be_bytes n v = be_bytes n w"
  shows "v = w"
  using assms by (metis be_word_be_bytes_id)

lemma ucast_small: "unat (v :: u64) < 2 ^ 8 \<Longrightarrow> (ucast (ucast v :: u8) :: u64) = v"
proof -
  assume "unat v < 2 ^ 8"
  moreover have "(ucast (ucast v :: u8) :: u64) = take_bit 8 v"
    by (rule bit_word_eqI) (auto simp: bit_simps)
  ultimately show ?thesis by (simp add: word_take_bit_self)
qed

lemma le_bytes_cong:
  fixes v :: "'a::len word" and w :: "'b::len word"
  assumes "\<And>k. k < 8 * n \<Longrightarrow> bit v k = bit w k"
  shows "le_bytes n v = le_bytes n w"
  using assms
proof (induction n arbitrary: v w)
  case (Suc n)
  have "(ucast v :: u8) = ucast w"
    by (rule bit_word_eqI) (use Suc.prems in \<open>auto simp: bit_simps\<close>)
  moreover have "le_bytes n (drop_bit 8 v) = le_bytes n (drop_bit 8 w)"
    by (rule Suc.IH) (use Suc.prems in \<open>auto simp: bit_simps\<close>)
  ultimately show ?case by simp
qed simp

lemma le_word_le_bytes_ucast:
  fixes v :: u64
  assumes "8 * n \<le> LENGTH('b::len)" and "unat v < 2 ^ (8 * n)"
  shows "le_word (le_bytes n (ucast v :: 'b word)) = v"
proof -
  have "le_bytes n (ucast v :: 'b word) = le_bytes n v"
    by (rule le_bytes_cong) (use assms(1) in \<open>auto simp: bit_simps\<close>)
  then show ?thesis using assms(2) by (simp add: le_word_le_bytes word_take_bit_self)
qed

lemma be_word_be_bytes_ucast:
  fixes v :: u64
  assumes "8 * n \<le> LENGTH('b::len)" and "unat v < 2 ^ (8 * n)"
  shows "be_word (be_bytes n (ucast v :: 'b word)) = v"
  using assms by (simp add: be_word_def be_bytes_def le_word_le_bytes_ucast)

section \<open>Encoders and decoders\<close>

text \<open>
  A prefix code: no encoding of one value is a proper prefix of an encoding of another, and
  equal encodings have equal values. Sequences and pairs of such encodings can then be
  concatenated without losing information, which is what a signature over the bytes relies on.
\<close>

locale prefix_code =
  fixes enc :: "'a \<Rightarrow> bytes"
    and valid :: "'a \<Rightarrow> bool"
  assumes enc_inj: "valid x \<Longrightarrow> valid y \<Longrightarrow> enc x @ r = enc y @ s \<Longrightarrow> x = y \<and> r = s"
begin

lemma enc_eq_iff: "valid x \<Longrightarrow> valid y \<Longrightarrow> enc x = enc y \<longleftrightarrow> x = y"
  using enc_inj [of x y "[]" "[]"] by auto

lemma no_proper_prefix: "valid x \<Longrightarrow> valid y \<Longrightarrow> prefix (enc x) (enc y) \<Longrightarrow> x = y"
  using enc_inj [of x y _ "[]"] by (auto simp: prefix_def)

lemma seq_inj:
  assumes "list_all valid xs" and "list_all valid ys" and "length xs = length ys"
    and "concat (map enc xs) @ r = concat (map enc ys) @ s"
  shows "xs = ys \<and> r = s"
  using assms(3,1,2,4)
proof (induction xs ys rule: list_induct2)
  case Nil
  then show ?case by simp
next
  case (Cons x xs y ys)
  then have "x = y \<and> concat (map enc xs) @ r = concat (map enc ys) @ s"
    by (intro enc_inj) auto
  with Cons show ?case by auto
qed

end

context prefix_code
begin

lemma concat_inj:
  assumes "\<And>x. valid x \<Longrightarrow> enc x \<noteq> []" and "list_all valid xs" "list_all valid ys"
    and "concat (map enc xs) = concat (map enc ys)"
  shows "xs = ys"
  using assms(2-)
proof (induction xs arbitrary: ys)
  case Nil
  then show ?case using assms(1) by (cases ys) auto
next
  case (Cons x xs)
  then obtain y ys' where ys: "ys = y # ys'" using assms(1) by (cases ys) auto
  have "x = y \<and> concat (map enc xs) = concat (map enc ys')"
    using Cons.prems ys by (intro enc_inj) auto
  with Cons ys show ?case by simp
qed

end

locale codec =
  fixes enc :: "'a \<Rightarrow> bytes"
    and dec :: "bytes \<Rightarrow> ('a \<times> bytes) option"
    and valid :: "'a \<Rightarrow> bool"
  assumes dec_enc: "valid x \<Longrightarrow> dec (enc x @ rest) = Some (x, rest)"
begin

lemma code_inj: "valid x \<Longrightarrow> valid y \<Longrightarrow> enc x @ r = enc y @ s \<Longrightarrow> x = y \<and> r = s"
  by (metis Pair_inject dec_enc option.inject)

end

sublocale codec \<subseteq> prefix_code enc valid
  by unfold_locales (rule code_inj)

text \<open>The little-endian bytes of a word are a fixed-width prefix code.\<close>

lemma le_bytes_append_inj:
  fixes v w :: "'a::len word"
  assumes "LENGTH('a) \<le> 8 * n" and "le_bytes n v @ r = le_bytes n w @ s"
  shows "v = w \<and> r = s"
  using assms le_bytes_inj by (metis append_eq_append_conv length_le_bytes)

interpretation le_u32: prefix_code "le_bytes 4 :: u32 \<Rightarrow> bytes" "\<lambda>_. True"
  by unfold_locales (rule le_bytes_append_inj, simp_all)

interpretation le_u64: prefix_code "le_bytes 8 :: u64 \<Rightarrow> bytes" "\<lambda>_. True"
  by unfold_locales (rule le_bytes_append_inj, simp_all)

text \<open>Fixed-width encodings are prefix codes as soon as they are injective.\<close>

lemma fixed_width_append:
  "length (enc x) = n \<Longrightarrow> length (enc y) = n \<Longrightarrow> enc x @ r = enc y @ s \<Longrightarrow> enc x = enc y \<and> r = s"
  by simp

text \<open>Prefix codes compose: restrict, map injectively, and put two after another.\<close>

lemma prefix_code_weaken: "prefix_code enc valid \<Longrightarrow> (\<And>x. valid' x \<Longrightarrow> valid x) \<Longrightarrow> prefix_code enc valid'"
  unfolding prefix_code_def by blast

lemma prefix_code_comp:
  assumes "prefix_code enc valid" and "\<And>x y. valid' x \<Longrightarrow> valid' y \<Longrightarrow> f x = f y \<Longrightarrow> x = y" and "\<And>x. valid' x \<Longrightarrow> valid (f x)"
  shows "prefix_code (\<lambda>x. enc (f x)) valid'"
proof
  fix x y r s assume "valid' x" "valid' y" "enc (f x) @ r = enc (f y) @ s"
  then show "x = y \<and> r = s" using prefix_code.enc_inj [OF assms(1), of "f x" "f y" r s] assms(2,3) by blast
qed

lemma prefix_code_append:
  assumes "prefix_code enc1 valid1" and "prefix_code enc2 valid2"
    and "\<And>x y. valid x \<Longrightarrow> valid y \<Longrightarrow> f x = f y \<Longrightarrow> g x = g y \<Longrightarrow> x = y"
    and "\<And>x. valid x \<Longrightarrow> valid1 (f x) \<and> valid2 (g x)"
  shows "prefix_code (\<lambda>x. enc1 (f x) @ enc2 (g x)) valid"
proof
  fix x y r s assume v: "valid x" "valid y" and "(enc1 (f x) @ enc2 (g x)) @ r = (enc1 (f y) @ enc2 (g y)) @ s"
  then have "enc1 (f x) @ enc2 (g x) @ r = enc1 (f y) @ enc2 (g y) @ s" by simp
  then have "f x = f y \<and> enc2 (g x) @ r = enc2 (g y) @ s"
    using prefix_code.enc_inj [OF assms(1)] v assms(4) by blast
  moreover then have "g x = g y \<and> r = s"
    using prefix_code.enc_inj [OF assms(2)] v assms(4) by blast
  ultimately show "x = y \<and> r = s" using assms(3) v by blast
qed

lemma prefix_code_const:
  assumes "prefix_code enc valid"
  shows "prefix_code (\<lambda>x. c @ enc x) valid"
proof
  fix x y r s assume "valid x" "valid y" "(c @ enc x) @ r = (c @ enc y) @ s"
  then show "x = y \<and> r = s" using prefix_code.enc_inj [OF assms, of x y r s] by simp
qed

end
