(* ===== verification/Utf8.thy ===== *)
theory Utf8
  imports Prelude
begin

text \<open>
  The part of Rust's \<open>str\<close> that the code uses: the check of \<open>std::str::from_utf8\<close> (the byte
  sequences of the Unicode standard's table 3-7, which is the table the standard library
  documents) and the width of a character, read off its first byte, as \<open>char_indices\<close> and
  \<open>len_utf8\<close> give it on a valid string. A Rust \<open>String\<close> is its list of bytes.
\<close>

definition is_cont :: "u8 \<Rightarrow> bool" where
  "is_cont b \<longleftrightarrow> 0x80 \<le> b \<and> b \<le> 0xBF"

definition second_ok :: "u8 \<Rightarrow> u8 \<Rightarrow> bool" where
  "second_ok b0 b1 =
     (if b0 = 0xE0 then 0xA0 \<le> b1 \<and> b1 \<le> 0xBF
      else if b0 = 0xED then 0x80 \<le> b1 \<and> b1 \<le> 0x9F
      else if b0 = 0xF0 then 0x90 \<le> b1 \<and> b1 \<le> 0xBF
      else if b0 = 0xF4 then 0x80 \<le> b1 \<and> b1 \<le> 0x8F
      else is_cont b1)"

definition char_width :: "u8 \<Rightarrow> nat" where
  "char_width b =
     (if b < 0x80 then 1
      else if 0xC2 \<le> b \<and> b \<le> 0xDF then 2
      else if 0xE0 \<le> b \<and> b \<le> 0xEF then 3
      else if 0xF0 \<le> b \<and> b \<le> 0xF4 then 4
      else 0)"

fun valid_char :: "bytes \<Rightarrow> bool" where
  "valid_char [a] = (char_width a = 1)"
| "valid_char [a, b] = (char_width a = 2 \<and> is_cont b)"
| "valid_char [a, b, c] = (char_width a = 3 \<and> second_ok a b \<and> is_cont c)"
| "valid_char [a, b, c, d] = (char_width a = 4 \<and> second_ok a b \<and> is_cont c \<and> is_cont d)"
| "valid_char _ = False"

text \<open>The characters of a byte string: \<open>None\<close> where \<open>from_utf8\<close> rejects it.\<close>

function utf8_chars :: "bytes \<Rightarrow> bytes list option" where
  "utf8_chars [] = Some []"
| "utf8_chars (b # bs) =
     (let w = char_width b; c = take w (b # bs) in
      if 0 < w \<and> valid_char c
      then map_option ((#) c) (utf8_chars (drop w (b # bs)))
      else None)"
  by pat_completeness auto
termination
  by (relation "measure length") auto

declare utf8_chars.simps(2) [simp del]

definition valid_utf8 :: "bytes \<Rightarrow> bool" where
  "valid_utf8 bs \<longleftrightarrow> utf8_chars bs \<noteq> None"

lemma valid_char_cases:
  "valid_char c \<Longrightarrow> c \<noteq> [] \<and> length c = char_width (hd c) \<and> length c \<le> 4"
  by (cases c rule: valid_char.cases) auto

lemma utf8_chars_Cons:
  "utf8_chars (b # bs) = Some cs \<longleftrightarrow>
     (\<exists>c cs'. cs = c # cs' \<and> valid_char c \<and> c = take (char_width b) (b # bs)
        \<and> utf8_chars (drop (char_width b) (b # bs)) = Some cs')"
  by (auto simp: utf8_chars.simps(2) Let_def dest: valid_char_cases)

lemma utf8_chars_sound:
  "utf8_chars bs = Some cs \<Longrightarrow> concat cs = bs \<and> list_all valid_char cs"
proof (induction bs arbitrary: cs rule: utf8_chars.induct)
  case 1
  then show ?case by simp
next
  case (2 b bs)
  then obtain c cs' where cs: "cs = c # cs'" "valid_char c" "c = take (char_width b) (b # bs)"
    "utf8_chars (drop (char_width b) (b # bs)) = Some cs'"
    by (auto simp: utf8_chars_Cons)
  then have "0 < char_width b" using valid_char_cases [of c] by (cases "char_width b") auto
  with 2 cs have "concat cs' = drop (char_width b) (b # bs) \<and> list_all valid_char cs'"
    by simp
  with cs show ?case by simp
qed

lemma utf8_chars_append_char:
  assumes "valid_char c"
  shows "utf8_chars (c @ bs) = map_option ((#) c) (utf8_chars bs)"
proof -
  obtain b r where c: "c = b # r" using assms valid_char_cases by (cases c) auto
  moreover have "char_width b = length c" using valid_char_cases [OF assms] c by simp
  ultimately show ?thesis
    using assms by (simp add: utf8_chars.simps(2) Let_def)
qed

lemma utf8_chars_complete: "list_all valid_char cs \<Longrightarrow> utf8_chars (concat cs) = Some cs"
  by (induction cs) (auto simp: utf8_chars_append_char)

lemma valid_utf8_iff: "valid_utf8 bs \<longleftrightarrow> (\<exists>cs. bs = concat cs \<and> list_all valid_char cs)"
  unfolding valid_utf8_def
  using utf8_chars_sound utf8_chars_complete by (metis option.distinct(1) option.exhaust)

lemma valid_utf8_Nil [simp]: "valid_utf8 []"
  by (simp add: valid_utf8_def)

lemma valid_utf8_append: "valid_utf8 xs \<Longrightarrow> valid_utf8 ys \<Longrightarrow> valid_utf8 (xs @ ys)"
  by (metis valid_utf8_iff concat_append list_all_append)

end
