(* ===== verification/Protobuf.thy ===== *)
theory Protobuf
  imports Utf8
begin

unbundle bit_operations_syntax

text \<open>
  \<open>core/crates/gem_encoding/src/protobuf\<close>: the hand-written protobuf codec that the Tron
  signer and the Sui gRPC client use. \<open>encode.rs\<close> writes varints, tags and fields;
  \<open>decode.rs\<close> reads them (\<open>read_varint\<close>, \<open>visit_fields\<close>); \<open>field_codec.rs\<close> pairs an
  encoder and a decoder per field kind; \<open>grpc.rs\<close> frames a message.

  Positions are natural numbers bounded by the length of the data; a visitor is a state
  transformer that may fail; the \<open>proto_encode!\<close> and \<open>proto_decode!\<close> macros are the higher
  order functions \<open>proto_encode\<close> and \<open>proto_decode\<close>, applied to the list of fields the macro
  is given.
\<close>

section \<open>Wire types and errors\<close>

definition WIRE_VARINT :: u8 where "WIRE_VARINT = 0"
definition WIRE_FIXED64 :: u8 where "WIRE_FIXED64 = 1"
definition WIRE_LENGTH_DELIMITED :: u8 where "WIRE_LENGTH_DELIMITED = 2"
definition WIRE_FIXED32 :: u8 where "WIRE_FIXED32 = 5"

lemmas wire_defs = WIRE_VARINT_def WIRE_FIXED64_def WIRE_LENGTH_DELIMITED_def WIRE_FIXED32_def

datatype message_error =
    NotVarint u32
  | NotFixed64 u32
  | NotLengthDelimited u32
  | Utf8Error
  | InvalidLength
  | TruncatedBytes
  | UnsupportedWireType u8
  | VarintOverflow
  | VarintTooLong
  | VarintTruncated
  | InvalidFixed64Length
  | Fixed64Truncated
  | InvalidFixed32Length
  | Fixed32Truncated
  | GrpcMissingFrame
  | GrpcCompressed
  | GrpcInvalidLength
  | GrpcTruncated

type_synonym 'a message_result = "message_error + 'a"

section \<open>Encoding\<close>

function encode_varint :: "u64 \<Rightarrow> bytes" where
  "encode_varint value =
     (if value \<ge> 0x80 then ((ucast value :: u8) OR 0x80) # encode_varint (drop_bit 7 value)
      else [ucast value])"
  by pat_completeness auto
termination
proof (relation "measure unat")
  fix v :: u64
  assume "0x80 \<le> v"
  then have "128 \<le> unat v" by (simp add: word_le_nat_alt)
  then show "(drop_bit 7 v, v) \<in> measure unat"
    using unat_drop_bit_div [of 7 v] by simp
qed auto

declare encode_varint.simps [simp del]

definition field_tag :: "u32 \<Rightarrow> u8 \<Rightarrow> bytes" where
  "field_tag field_number wire_type =
     encode_varint (push_bit 3 (ucast field_number) OR ucast wire_type)"

definition encode_raw_varint_field :: "u32 \<Rightarrow> u64 \<Rightarrow> bytes" where
  "encode_raw_varint_field field_number value =
     field_tag field_number WIRE_VARINT @ encode_varint value"

definition encode_varint_field :: "u32 \<Rightarrow> u64 \<Rightarrow> bytes" where
  "encode_varint_field field_number value =
     (if value = 0 then [] else encode_raw_varint_field field_number value)"

definition encode_bytes_field :: "u32 \<Rightarrow> bytes \<Rightarrow> bytes" where
  "encode_bytes_field field_number data =
     (if data = [] then []
      else let tag = field_tag field_number WIRE_LENGTH_DELIMITED;
               len = encode_varint (of_nat (length data))
           in tag @ len @ data)"

definition encode_string_field :: "u32 \<Rightarrow> bytes \<Rightarrow> bytes" where
  "encode_string_field field_number value = encode_bytes_field field_number value"

definition encode_message_field :: "u32 \<Rightarrow> bytes \<Rightarrow> bytes" where
  "encode_message_field field_number message =
     (if message = [] then [] else encode_bytes_field field_number message)"

definition encode_optional_message_field :: "('m \<Rightarrow> bytes) \<Rightarrow> u32 \<Rightarrow> 'm option \<Rightarrow> bytes" where
  "encode_optional_message_field encode field_number value =
     (case value of None \<Rightarrow> [] | Some m \<Rightarrow> encode_message_field field_number (encode m))"

definition encode_optional_string_field :: "u32 \<Rightarrow> bytes option \<Rightarrow> bytes" where
  "encode_optional_string_field field_number value =
     (case value of None \<Rightarrow> [] | Some s \<Rightarrow> encode_string_field field_number s)"

definition encode_optional_bytes_field :: "u32 \<Rightarrow> bytes option \<Rightarrow> bytes" where
  "encode_optional_bytes_field field_number value =
     (case value of None \<Rightarrow> [] | Some b \<Rightarrow> encode_bytes_field field_number b)"

definition encode_optional_u64_field :: "u32 \<Rightarrow> u64 option \<Rightarrow> bytes" where
  "encode_optional_u64_field field_number value =
     (case value of None \<Rightarrow> [] | Some v \<Rightarrow> encode_raw_varint_field field_number v)"

definition encode_optional_bool_field :: "u32 \<Rightarrow> bool option \<Rightarrow> bytes" where
  "encode_optional_bool_field field_number value =
     (case value of None \<Rightarrow> [] | Some b \<Rightarrow> encode_raw_varint_field field_number (of_bool b))"

text \<open>The \<open>proto_encode!\<close> macro: the fields in the order they are listed.\<close>

definition proto_encode :: "('m \<Rightarrow> bytes) list \<Rightarrow> 'm \<Rightarrow> bytes" where
  "proto_encode fields value = concat (map (\<lambda>field. field value) fields)"

section \<open>Decoding\<close>

datatype field_value = Varint u64 | Fixed64 u64 | Bytes bytes | Fixed32

record field =
  number :: u32
  field_value :: field_value

definition field_varint :: "field \<Rightarrow> u64 message_result" where
  "field_varint f = (case field_value f of Varint v \<Rightarrow> Ok v | _ \<Rightarrow> Err (NotVarint (number f)))"

definition field_fixed64 :: "field \<Rightarrow> u64 message_result" where
  "field_fixed64 f = (case field_value f of Fixed64 v \<Rightarrow> Ok v | _ \<Rightarrow> Err (NotFixed64 (number f)))"

definition field_bytes :: "field \<Rightarrow> bytes message_result" where
  "field_bytes f = (case field_value f of Bytes b \<Rightarrow> Ok b | _ \<Rightarrow> Err (NotLengthDelimited (number f)))"

definition field_string :: "field \<Rightarrow> bytes message_result" where
  "field_string f =
     and_then (field_bytes f) (\<lambda>b. if valid_utf8 b then Ok b else Err Utf8Error)"

definition field_message :: "(bytes \<Rightarrow> 'm message_result) \<Rightarrow> field \<Rightarrow> 'm message_result" where
  "field_message decode f = and_then (field_bytes f) decode"

function read_varint_loop ::
  "bytes \<Rightarrow> nat \<Rightarrow> u64 \<Rightarrow> nat \<Rightarrow> (u64 \<times> nat) message_result" where
  "read_varint_loop data position result shift =
     (if position < length data then
        let byte = data ! position;
            position' = position + 1;
            value = (ucast (byte AND 0x7f) :: u64)
        in if shift = 63 \<and> value > 1 then Err VarintOverflow
           else let result' = result OR push_bit shift value
                in if byte AND 0x80 = 0 then Ok (result', position')
                   else let shift' = shift + 7
                        in if shift' \<ge> 64 then Err VarintTooLong
                           else read_varint_loop data position' result' shift'
      else Err VarintTruncated)"
  by pat_completeness auto
termination
  by (relation "measure (\<lambda>(data, position, result, shift). length data - position)") auto

declare read_varint_loop.simps [simp del]

definition read_varint :: "bytes \<Rightarrow> nat \<Rightarrow> (u64 \<times> nat) message_result" where
  "read_varint data position = read_varint_loop data position 0 0"

definition slice :: "bytes \<Rightarrow> nat \<Rightarrow> nat \<Rightarrow> bytes" where
  "slice data start end = take (end - start) (drop start data)"

definition read_fixed64 :: "bytes \<Rightarrow> nat \<Rightarrow> (u64 \<times> nat) message_result" where
  "read_fixed64 data position =
     and_then (ok_or (usize_checked_add position 8) InvalidFixed64Length) (\<lambda>end.
       if end > length data then Err Fixed64Truncated
       else Ok (le_word (slice data position end), end))"

definition skip_fixed32 :: "bytes \<Rightarrow> nat \<Rightarrow> nat message_result" where
  "skip_fixed32 data position =
     and_then (ok_or (usize_checked_add position 4) InvalidFixed32Length) (\<lambda>end.
       if end > length data then Err Fixed32Truncated else Ok end)"

text \<open>
  The body of the loop of \<open>visit_fields\<close>: \<open>read_value\<close> is the \<open>match wire_type\<close>, \<open>read_field\<close>
  the round up to the call of the visitor.
\<close>

definition read_value :: "bytes \<Rightarrow> u8 \<Rightarrow> nat \<Rightarrow> (field_value \<times> nat) message_result" where
  "read_value data wire_type position =
     (if wire_type = WIRE_VARINT then
        and_then (read_varint data position) (\<lambda>(v, position). Ok (Varint v, position))
      else if wire_type = WIRE_FIXED64 then
        and_then (read_fixed64 data position) (\<lambda>(v, position). Ok (Fixed64 v, position))
      else if wire_type = WIRE_LENGTH_DELIMITED then
        and_then (read_varint data position) (\<lambda>(len, position).
          and_then (ok_or (usize_checked_add position (unat len)) InvalidLength) (\<lambda>end.
            if end > length data then Err TruncatedBytes
            else Ok (Bytes (slice data position end), end)))
      else if wire_type = WIRE_FIXED32 then
        and_then (skip_fixed32 data position) (\<lambda>position. Ok (Fixed32, position))
      else Err (UnsupportedWireType wire_type))"

definition read_field :: "bytes \<Rightarrow> nat \<Rightarrow> (field \<times> nat) message_result" where
  "read_field data position =
     and_then (read_varint data position) (\<lambda>(tag, position).
       let num = (ucast (drop_bit 3 tag) :: u32);
           wire_type = (ucast (tag AND 0x07) :: u8)
       in and_then (read_value data wire_type position)
            (\<lambda>(v, position). Ok (\<lparr>number = num, field_value = v\<rparr>, position)))"

lemma read_varint_loop_pos:
  "read_varint_loop data position result shift = Ok (v, p) \<Longrightarrow> shift \<le> 63 \<Longrightarrow>
     position < p \<and> p \<le> length data \<and> p \<le> position + (63 - shift) div 7 + 1"
proof (induction data position result shift rule: read_varint_loop.induct)
  case (1 data position result shift)
  note eq = "1.prems"(1) [unfolded read_varint_loop.simps [of data position result shift] Let_def]
  show ?case
  proof (cases "data ! position AND 0x80 = 0")
    case True
    with eq show ?thesis by (auto split: if_splits)
  next
    case False
    with eq have rec: "position < length data" "shift + 7 < 64"
      "\<not> (shift = 63 \<and> (ucast (data ! position AND 0x7f) :: u64) > 1)"
      "read_varint_loop data (position + 1)
         (result OR push_bit shift (ucast (data ! position AND 0x7f))) (shift + 7) = Ok (v, p)"
      by (auto split: if_splits)
    have "position + 1 < p \<and> p \<le> length data \<and> p \<le> position + 1 + (63 - (shift + 7)) div 7 + 1"
      by (rule "1.IH" [OF rec(1) refl refl refl rec(3) refl False refl _ rec(4)]) (use rec in auto)
    moreover have "63 - shift = 63 - (shift + 7) + 7"
      using rec(2) by simp
    then have "(63 - shift) div 7 = (63 - (shift + 7)) div 7 + 1"
      by (metis div_add_self2 zero_neq_numeral)
    ultimately show ?thesis by simp
  qed
qed

lemma read_varint_pos:
  "read_varint data position = Ok (v, p) \<Longrightarrow> position < p \<and> p \<le> length data \<and> p \<le> position + 10"
  unfolding read_varint_def by (drule read_varint_loop_pos) auto

lemma read_field_pos:
  "read_field data position = Ok (f, p) \<Longrightarrow> position < p \<and> p \<le> length data"
  unfolding read_field_def read_value_def read_fixed64_def skip_fixed32_def
  by (fastforce simp: result_simps Let_def usize_checked_add_def
      dest!: read_varint_pos split: if_splits prod.splits)

function visit_fields_loop ::
  "bytes \<Rightarrow> ('s \<Rightarrow> field \<Rightarrow> 's message_result) \<Rightarrow> nat \<Rightarrow> 's \<Rightarrow> 's message_result" where
  "visit_fields_loop data visitor position state =
     (if position < length data then
        and_then (read_field data position) (\<lambda>(f, position').
          and_then (visitor state f) (\<lambda>state'. visit_fields_loop data visitor position' state'))
      else Ok state)"
  by pat_completeness auto
termination
  by (relation "measure (\<lambda>(data, visitor, position, state). length data - position)")
    (auto dest!: read_field_pos)

declare visit_fields_loop.simps [simp del]

definition visit_fields ::
  "bytes \<Rightarrow> ('s \<Rightarrow> field \<Rightarrow> 's message_result) \<Rightarrow> 's \<Rightarrow> 's message_result" where
  "visit_fields data visitor state = visit_fields_loop data visitor 0 state"

text \<open>
  The \<open>proto_decode!\<close> macro: start from the default value, pass each field to the entry of the
  table with its number, and skip the fields the table does not name.
\<close>

definition proto_decode ::
  "'m \<Rightarrow> (u32 \<times> ('m \<Rightarrow> field \<Rightarrow> 'm message_result)) list \<Rightarrow> bytes \<Rightarrow> 'm message_result" where
  "proto_decode dflt table data =
     visit_fields data (\<lambda>m f. case map_of table (number f) of None \<Rightarrow> Ok m | Some h \<Rightarrow> h m f) dflt"

section \<open>Field codecs\<close>

text \<open>
  \<open>field_codec.rs\<close>: a module per field kind. A decoder assigns through \<open>&mut\<close>: the model takes
  the old value and returns the new one. Signed 32-bit and 64-bit integers are their two's
  complement words, so that \<open>i32 as u64\<close> is the sign extension \<open>scast\<close> and \<open>u64 as i32\<close> the
  truncation \<open>ucast\<close>.
\<close>

definition optional_string_decode :: "bytes option \<Rightarrow> field \<Rightarrow> bytes option message_result" where
  "optional_string_decode old f = and_then (field_string f) (\<lambda>s. Ok (Some s))"

definition optional_string_encode :: "u32 \<Rightarrow> bytes option \<Rightarrow> bytes" where
  "optional_string_encode field_number value = encode_optional_string_field field_number value"

definition string_decode :: "bytes \<Rightarrow> field \<Rightarrow> bytes message_result" where
  "string_decode old f = field_string f"

definition optional_bytes_decode :: "bytes option \<Rightarrow> field \<Rightarrow> bytes option message_result" where
  "optional_bytes_decode old f = and_then (field_bytes f) (\<lambda>b. Ok (Some b))"

definition optional_bytes_encode :: "u32 \<Rightarrow> bytes option \<Rightarrow> bytes" where
  "optional_bytes_encode field_number value = encode_optional_bytes_field field_number value"

definition optional_bool_decode :: "bool option \<Rightarrow> field \<Rightarrow> bool option message_result" where
  "optional_bool_decode old f = and_then (field_varint f) (\<lambda>v. Ok (Some (v \<noteq> 0)))"

definition optional_bool_encode :: "u32 \<Rightarrow> bool option \<Rightarrow> bytes" where
  "optional_bool_encode field_number value = encode_optional_bool_field field_number value"

definition optional_varint_u32_decode :: "u32 option \<Rightarrow> field \<Rightarrow> u32 option message_result" where
  "optional_varint_u32_decode old f = and_then (field_varint f) (\<lambda>v. Ok (Some (ucast v)))"

definition optional_varint_u32_encode :: "u32 \<Rightarrow> u32 option \<Rightarrow> bytes" where
  "optional_varint_u32_encode field_number value =
     encode_optional_u64_field field_number (map_option ucast value)"

definition optional_varint_u64_decode :: "u64 option \<Rightarrow> field \<Rightarrow> u64 option message_result" where
  "optional_varint_u64_decode old f = and_then (field_varint f) (\<lambda>v. Ok (Some v))"

definition optional_varint_u64_encode :: "u32 \<Rightarrow> u64 option \<Rightarrow> bytes" where
  "optional_varint_u64_encode field_number value = encode_optional_u64_field field_number value"

definition varint_u64_decode :: "u64 \<Rightarrow> field \<Rightarrow> u64 message_result" where
  "varint_u64_decode old f = field_varint f"

definition optional_varint_i32_decode :: "32 word option \<Rightarrow> field \<Rightarrow> 32 word option message_result" where
  "optional_varint_i32_decode old f = and_then (field_varint f) (\<lambda>v. Ok (Some (ucast v)))"

definition optional_varint_i32_encode :: "u32 \<Rightarrow> 32 word option \<Rightarrow> bytes" where
  "optional_varint_i32_encode field_number value =
     encode_optional_u64_field field_number (map_option scast value)"

definition varint_i32_decode :: "32 word \<Rightarrow> field \<Rightarrow> 32 word message_result" where
  "varint_i32_decode old f = and_then (field_varint f) (\<lambda>v. Ok (ucast v))"

definition varint_i64_decode :: "64 word \<Rightarrow> field \<Rightarrow> 64 word message_result" where
  "varint_i64_decode old f = and_then (field_varint f) (\<lambda>v. Ok v)"

definition optional_enum_varint_encode :: "('e \<Rightarrow> u64) \<Rightarrow> u32 \<Rightarrow> 'e option \<Rightarrow> bytes" where
  "optional_enum_varint_encode into_u64 field_number value =
     encode_optional_u64_field field_number (map_option into_u64 value)"

definition optional_message_decode ::
  "(bytes \<Rightarrow> 'm message_result) \<Rightarrow> 'm option \<Rightarrow> field \<Rightarrow> 'm option message_result" where
  "optional_message_decode decode old f = and_then (field_message decode f) (\<lambda>m. Ok (Some m))"

definition optional_message_encode :: "('m \<Rightarrow> bytes) \<Rightarrow> u32 \<Rightarrow> 'm option \<Rightarrow> bytes" where
  "optional_message_encode encode field_number value =
     encode_optional_message_field encode field_number value"

definition repeated_message_decode ::
  "(bytes \<Rightarrow> 'm message_result) \<Rightarrow> 'm list \<Rightarrow> field \<Rightarrow> 'm list message_result" where
  "repeated_message_decode decode old f = and_then (field_message decode f) (\<lambda>m. Ok (old @ [m]))"

definition repeated_message_encode :: "('m \<Rightarrow> bytes) \<Rightarrow> u32 \<Rightarrow> 'm list \<Rightarrow> bytes" where
  "repeated_message_encode encode field_number value =
     concat (map (\<lambda>m. encode_message_field field_number (encode m)) value)"

definition repeated_string_encode :: "u32 \<Rightarrow> bytes list \<Rightarrow> bytes" where
  "repeated_string_encode field_number value = concat (map (encode_string_field field_number) value)"

definition repeated_bytes_encode :: "u32 \<Rightarrow> bytes list \<Rightarrow> bytes" where
  "repeated_bytes_encode field_number value = concat (map (encode_bytes_field field_number) value)"

section \<open>gRPC frames\<close>

definition encode_grpc_frame :: "bytes \<Rightarrow> bytes" where
  "encode_grpc_frame payload = 0 # be_bytes 4 (of_nat (length payload) :: u32) @ payload"

definition encode_grpc_message :: "('m \<Rightarrow> bytes) \<Rightarrow> 'm \<Rightarrow> bytes" where
  "encode_grpc_message encode message = encode_grpc_frame (encode message)"

definition decode_grpc_frame :: "bytes \<Rightarrow> bytes message_result" where
  "decode_grpc_frame body =
     (if length body < 5 then Err GrpcMissingFrame
      else if body ! 0 \<noteq> 0 then Err GrpcCompressed
      else let len = unat (be_word (slice body 1 5) :: u32)
           in and_then (ok_or (usize_checked_add 5 len) GrpcInvalidLength) (\<lambda>end.
                if length body < end then Err GrpcTruncated else Ok (slice body 5 end)))"

definition decode_grpc_message :: "(bytes \<Rightarrow> 'm message_result) \<Rightarrow> bytes \<Rightarrow> 'm message_result" where
  "decode_grpc_message decode body = and_then (decode_grpc_frame body) decode"

section \<open>Varints read back\<close>

lemma and_low7: "(b :: u8) AND 0x7f = take_bit 7 b"
  by (simp add: take_bit_eq_mask mask_eq_exp_minus_1)

lemma and_high_bit: "(b :: u8) AND 0x80 = 0 \<longleftrightarrow> \<not> bit b 7"
  using and_exp_eq_0_iff_not_bit [of b 7] by simp

lemma or_high_bit: "(b :: u8) OR 0x80 = set_bit 7 b"
  by (simp add: set_bit_eq_or)

lemma low7_of_continued: "(ucast (take_bit 7 (set_bit 7 (ucast v :: u8))) :: u64) = take_bit 7 v" for v :: u64
  by (rule bit_word_eqI) (auto simp: bit_simps)

lemma low7_of_last: "v < 0x80 \<Longrightarrow> (ucast (take_bit 7 (ucast v :: u8)) :: u64) = v" for v :: u64
proof -
  assume "v < 0x80"
  then have "take_bit 7 v = v"
    by (simp add: word_take_bit_self word_less_nat_alt)
  moreover have "(ucast (take_bit 7 (ucast v :: u8)) :: u64) = take_bit 7 v"
    by (rule bit_word_eqI) (auto simp: bit_simps)
  ultimately show ?thesis by simp
qed

lemma high_bit_of_last: "v < 0x80 \<Longrightarrow> \<not> bit (ucast v :: u8) 7" for v :: u64
  using word_high_bit_clear [of v 7 7] by (simp add: word_less_nat_alt bit_simps)

lemmas varint_bits = and_low7 and_high_bit or_high_bit low7_of_continued low7_of_last high_bit_of_last

lemma push_bit_join7:
  "push_bit s (take_bit 7 v) OR push_bit (s + 7) (drop_bit 7 v) = push_bit s (v :: u64)"
proof -
  have "push_bit s v = push_bit s (take_bit 7 v OR push_bit 7 (drop_bit 7 v))"
    by (simp only: word_join_bits)
  then show ?thesis
    by (simp only: push_bit_or push_bit_push_bit add.commute)
qed

lemma read_varint_loop_encode:
  assumes "unat v < 2 ^ (64 - shift)" and "shift < 64"
  shows "read_varint_loop (pre @ encode_varint v @ post) (length pre) result shift
           = Ok (result OR push_bit shift v, length pre + length (encode_varint v))"
  using assms
proof (induction v arbitrary: pre result shift rule: encode_varint.induct)
  case (1 v)
  show ?case
  proof (cases "0x80 \<le> v")
    case False
    then have last: "encode_varint v = [ucast v]" and small: "v < 0x80"
      by (simp_all add: encode_varint.simps)
    have "\<not> (shift = 63 \<and> 1 < v)"
      using "1.prems" by (auto simp: word_less_nat_alt)
    then show ?thesis
      by (subst read_varint_loop.simps)
        (simp add: last Let_def nth_append varint_bits small)
  next
    case True
    let ?b = "ucast v OR 0x80 :: u8"
    have enc: "encode_varint v = ?b # encode_varint (drop_bit 7 v)"
      using True by (simp add: encode_varint.simps [of v])
    have ge: "128 \<le> unat v" using True by (simp add: word_le_nat_alt)
    have room: "shift + 7 < 64"
    proof (rule ccontr)
      assume "\<not> ?thesis"
      then have "(2::nat) ^ (64 - shift) \<le> 2 ^ 7" by (intro power_increasing) auto
      with ge "1.prems" show False by simp
    qed
    then have "64 - shift = 64 - (shift + 7) + 7" by simp
    then have "(2::nat) ^ (64 - shift) = 2 ^ (64 - (shift + 7)) * 2 ^ 7"
      by (metis power_add)
    then have small: "unat (drop_bit 7 v) < 2 ^ (64 - (shift + 7))"
      using "1.prems"(1) by (simp add: unat_drop_bit_div less_mult_imp_div_less)
    have IH: "read_varint_loop ((pre @ [?b]) @ encode_varint (drop_bit 7 v) @ post) (length (pre @ [?b]))
          (result OR push_bit shift (take_bit 7 v)) (shift + 7)
        = Ok ((result OR push_bit shift (take_bit 7 v)) OR push_bit (shift + 7) (drop_bit 7 v),
              length (pre @ [?b]) + length (encode_varint (drop_bit 7 v)))"
      by (rule "1.IH" [OF True small room])
    have "bit (set_bit 7 (ucast v :: u8)) 7" by (simp add: bit_simps)
    with IH room show ?thesis
      by (subst read_varint_loop.simps)
        (simp add: enc Let_def nth_append varint_bits push_bit_join7 or.assoc)
  qed
qed

lemma read_varint_encode [simp]:
  "read_varint (pre @ encode_varint v @ post) (length pre)
     = Ok (v, length pre + length (encode_varint v))"
  unfolding read_varint_def by (subst read_varint_loop_encode) (simp_all add: unat_lt2p_u64 [simplified])

definition varint_prefix :: "bytes \<Rightarrow> (u64 \<times> bytes) option" where
  "varint_prefix data = map_option (\<lambda>(v, p). (v, drop p data)) (ok (read_varint data 0))"

interpretation varint: codec encode_varint varint_prefix "\<lambda>_. True"
  by unfold_locales
    (use read_varint_encode [of "[]"] in \<open>simp add: varint_prefix_def\<close>)

lemma encode_varint_length: "1 \<le> length (encode_varint v) \<and> length (encode_varint v) \<le> 10"
  using read_varint_pos [of "encode_varint v" 0 v "length (encode_varint v)"]
    read_varint_encode [of "[]" v "[]"] by (simp add: Suc_le_eq)

section \<open>Fields read back\<close>

definition encode_field :: "field \<Rightarrow> bytes" where
  "encode_field f = (case field_value f of
       Varint v \<Rightarrow> field_tag (number f) WIRE_VARINT @ encode_varint v
     | Fixed64 v \<Rightarrow> field_tag (number f) WIRE_FIXED64 @ le_bytes 8 v
     | Bytes b \<Rightarrow> field_tag (number f) WIRE_LENGTH_DELIMITED @ encode_varint (of_nat (length b)) @ b
     | Fixed32 \<Rightarrow> field_tag (number f) WIRE_FIXED32 @ replicate 4 0)"

lemma tag_number: "(ucast (drop_bit 3 (push_bit 3 (ucast n) OR ucast w :: u64)) :: u32) = n"
  if "w < 8" for n :: u32 and w :: u8
proof -
  have "\<not> bit w k" if "3 \<le> k" for k
    using word_high_bit_clear [of w 3 k] that \<open>w < 8\<close> by (simp add: word_less_nat_alt)
  then show ?thesis
    by (intro bit_word_eqI) (auto simp: bit_simps)
qed

lemma tag_wire_type: "(ucast ((push_bit 3 (ucast n) OR ucast w :: u64) AND 7) :: u8) = w"
  if "w < 8" for n :: u32 and w :: u8
proof -
  have "take_bit 3 w = w"
    using that by (intro word_take_bit_self) (simp add: word_less_nat_alt)
  moreover have "x AND 7 = take_bit 3 x" for x :: u64
    by (simp add: take_bit_eq_mask mask_eq_exp_minus_1)
  moreover have "(ucast (take_bit 3 (push_bit 3 (ucast n) OR ucast w :: u64)) :: u8) = take_bit 3 w"
    by (intro bit_word_eqI) (auto simp: bit_simps)
  ultimately show ?thesis by simp
qed

lemma slice_append [simp]: "slice (pre @ b @ post) (length pre) (length pre + length b) = b"
  by (simp add: slice_def)

lemma read_tag [simp]:
  "read_varint (pre @ field_tag n w @ post) (length pre)
     = Ok (push_bit 3 (ucast n) OR ucast w, length pre + length (field_tag n w))"
  by (simp add: field_tag_def)

lemma read_field_tag:
  assumes "w < 8"
  shows "read_field (pre @ field_tag n w @ post) (length pre) =
     and_then (read_value (pre @ field_tag n w @ post) w (length (pre @ field_tag n w)))
       (\<lambda>(v, p). Ok (\<lparr>number = n, field_value = v\<rparr>, p))"
  unfolding read_field_def using assms by (simp add: tag_number tag_wire_type del: drop_bit_or)

lemma read_value_varint:
  "read_value (pre @ encode_varint v @ post) WIRE_VARINT (length pre)
     = Ok (Varint v, length pre + length (encode_varint v))"
  by (simp add: read_value_def)

lemma read_value_fixed64:
  assumes "length (pre @ le_bytes 8 v @ post) < 2 ^ 64"
  shows "read_value (pre @ le_bytes 8 v @ post) WIRE_FIXED64 (length pre) = Ok (Fixed64 v, length pre + 8)"
  using assms slice_append [of pre "le_bytes 8 v" post]
  by (simp add: read_value_def read_fixed64_def wire_defs usize_checked_add_fits le_word_le_bytes_id)

lemma read_value_bytes:
  assumes "length (pre @ encode_varint (of_nat (length b)) @ b @ post) < 2 ^ 64"
  shows "read_value (pre @ encode_varint (of_nat (length b)) @ b @ post) WIRE_LENGTH_DELIMITED (length pre)
     = Ok (Bytes b, length pre + length (encode_varint (of_nat (length b))) + length b)"
  using assms slice_append [of "pre @ encode_varint (of_nat (length b))" b post]
  by (simp add: read_value_def wire_defs usize_checked_add_fits unat_of_nat_u64)

lemma read_value_fixed32:
  assumes "length (pre @ b @ post) < 2 ^ 64" and "length b = 4"
  shows "read_value (pre @ b @ post) WIRE_FIXED32 (length pre) = Ok (Fixed32, length pre + 4)"
  using assms by (simp add: read_value_def skip_fixed32_def wire_defs usize_checked_add_fits)

lemma read_field_encode:
  assumes "length (pre @ encode_field f @ post) < 2 ^ 64"
  shows "read_field (pre @ encode_field f @ post) (length pre)
           = Ok (f, length pre + length (encode_field f))"
proof -
  let ?p = "\<lambda>w. pre @ field_tag (number f) w"
  note reads = read_value_varint [of "?p WIRE_VARINT"] read_value_fixed64 [of "?p WIRE_FIXED64"]
    read_value_bytes [of "?p WIRE_LENGTH_DELIMITED"] read_value_fixed32 [of "?p WIRE_FIXED32"]
  have small: "WIRE_VARINT < 8" "WIRE_FIXED64 < 8" "WIRE_LENGTH_DELIMITED < 8" "WIRE_FIXED32 < 8"
    by (simp_all add: wire_defs)
  show ?thesis
    using assms reads
    by (cases "field_value f")
      (simp_all add: encode_field_def read_field_tag small add.assoc)
qed

lemma visit_fields_loop_encode:
  assumes "length (pre @ concat (map encode_field fs)) < 2 ^ 64"
  shows "visit_fields_loop (pre @ concat (map encode_field fs)) visitor (length pre) s = try_fold visitor s fs"
  using assms
proof (induction fs arbitrary: pre s)
  case Nil
  then show ?case by (simp add: visit_fields_loop.simps)
next
  case (Cons f fs)
  let ?data = "pre @ encode_field f @ concat (map encode_field fs)"
  have rd: "read_field ?data (length pre) = Ok (f, length (pre @ encode_field f))"
    using read_field_encode [of pre f "concat (map encode_field fs)"] Cons.prems by simp
  moreover have "length pre < length ?data"
    using read_field_pos [OF rd] by simp
  moreover have "visit_fields_loop ?data visitor (length (pre @ encode_field f)) s' = try_fold visitor s' fs" for s'
    using Cons.IH [of "pre @ encode_field f" s'] Cons.prems by simp
  ultimately show ?case
    by (subst visit_fields_loop.simps) (auto intro!: and_then_cong)
qed

lemma visit_fields_encode:
  assumes "length (concat (map encode_field fs)) < 2 ^ 64"
  shows "visit_fields (concat (map encode_field fs)) visitor s = try_fold visitor s fs"
  using visit_fields_loop_encode [of "[]"] assms by (simp add: visit_fields_def)

section \<open>The contract of a field codec\<close>

text \<open>
  What a module of \<open>field_codec.rs\<close> promises a message: what it writes is a sequence of fields
  with the number it was given, and reading these fields back, from the default value of the
  struct's field, gives the value. \<open>valid\<close> says for which values the promise is made: a present
  but empty string, byte string or message is written as nothing and read back as absent.
\<close>

definition lens :: "('m \<Rightarrow> 'v) \<Rightarrow> ('v \<Rightarrow> 'm \<Rightarrow> 'm) \<Rightarrow> bool" where
  "lens get put \<longleftrightarrow> (\<forall>v m. get (put v m) = v) \<and> (\<forall>v v' m. put v (put v' m) = put v m)
     \<and> (\<forall>m. put (get m) m = m)"

text \<open>An entry of the \<open>proto_decode!\<close> table: decode into one field of the struct.\<close>

definition into_field ::
  "('m \<Rightarrow> 'v) \<Rightarrow> ('v \<Rightarrow> 'm \<Rightarrow> 'm) \<Rightarrow> ('v \<Rightarrow> field \<Rightarrow> 'v message_result) \<Rightarrow>
     'm \<Rightarrow> field \<Rightarrow> 'm message_result" where
  "into_field get put dec m f = and_then (dec (get m) f) (\<lambda>v. Ok (put v m))"

definition table_visitor ::
  "(u32 \<times> ('m \<Rightarrow> field \<Rightarrow> 'm message_result)) list \<Rightarrow> 'm \<Rightarrow> field \<Rightarrow> 'm message_result" where
  "table_visitor table m f = (case map_of table (number f) of None \<Rightarrow> Ok m | Some h \<Rightarrow> h m f)"

lemma proto_decode_eq: "proto_decode dflt table data = visit_fields data (table_visitor table) dflt"
  unfolding proto_decode_def table_visitor_def ..

lemma try_fold_into_field:
  assumes "lens get put" and "map_of table n = Some (into_field get put dec)"
    and "\<forall>f \<in> set fs. number f = n"
  shows "try_fold (table_visitor table) m fs = and_then (try_fold dec (get m) fs) (\<lambda>v. Ok (put v m))"
  using assms(3)
proof (induction fs arbitrary: m)
  case Nil
  then show ?case using assms(1) by (simp add: lens_def)
next
  case (Cons f fs)
  then show ?case
    using assms(1,2) by (cases "dec (get m) f") (auto simp: table_visitor_def into_field_def lens_def)
qed

locale field_codec =
  fixes enc :: "u32 \<Rightarrow> 'v \<Rightarrow> bytes"
    and dec :: "'v \<Rightarrow> field \<Rightarrow> 'v message_result"
    and fields :: "u32 \<Rightarrow> 'v \<Rightarrow> field list"
    and dflt :: 'v
    and valid :: "'v \<Rightarrow> bool"
  assumes enc_fields: "valid v \<Longrightarrow> enc n v = concat (map encode_field (fields n v))"
    and fields_number: "f \<in> set (fields n v) \<Longrightarrow> number f = n"
    and dec_fields: "valid v \<Longrightarrow> try_fold dec dflt (fields n v) = Ok v"
begin

lemma field_roundtrip:
  assumes "valid v" and "length (enc n v) < 2 ^ 64"
  shows "visit_fields (enc n v) dec dflt = Ok v"
  using assms by (simp add: enc_fields visit_fields_encode dec_fields)

lemma message_step:
  assumes "valid v" and "lens get put" and "get m = dflt"
    and "map_of table n = Some (into_field get put dec)"
  shows "try_fold (table_visitor table) m (fields n v) = Ok (put v m)"
  using assms by (simp add: try_fold_into_field fields_number dec_fields)

end

locale message_codec =
  fixes encode :: "'m \<Rightarrow> bytes"
    and decode :: "bytes \<Rightarrow> 'm message_result"
    and mvalid :: "'m \<Rightarrow> bool"
  assumes decode_encode: "mvalid m \<Longrightarrow> decode (encode m) = Ok m"
begin

definition opt_fields :: "u32 \<Rightarrow> 'm option \<Rightarrow> field list" where
  "opt_fields n v = (case v of None \<Rightarrow> [] | Some m \<Rightarrow> [\<lparr>number = n, field_value = Bytes (encode m)\<rparr>])"

definition rep_fields :: "u32 \<Rightarrow> 'm list \<Rightarrow> field list" where
  "rep_fields n ms = map (\<lambda>m. \<lparr>number = n, field_value = Bytes (encode m)\<rparr>) ms"

lemma encode_inj: "encode m = encode m' \<Longrightarrow> mvalid m \<Longrightarrow> mvalid m' \<Longrightarrow> m = m'"
  by (metis decode_encode sum.inject(2))

lemma try_fold_repeated:
  "list_all mvalid ms \<Longrightarrow>
     try_fold (repeated_message_decode decode) acc (rep_fields n ms) = Ok (acc @ ms)"
  by (induction ms arbitrary: acc)
    (auto simp: rep_fields_def repeated_message_decode_def field_message_def field_bytes_def decode_encode)

end

lemma encode_field_bytes:
  "b \<noteq> [] \<Longrightarrow> encode_bytes_field n b = encode_field \<lparr>number = n, field_value = Bytes b\<rparr>"
  by (simp add: encode_bytes_field_def encode_field_def)

lemma encode_field_varint:
  "encode_raw_varint_field n v = encode_field \<lparr>number = n, field_value = Varint v\<rparr>"
  by (simp add: encode_raw_varint_field_def encode_field_def)

sublocale message_codec \<subseteq> opt: field_codec "optional_message_encode encode" "optional_message_decode decode"
    opt_fields None "\<lambda>v. case v of None \<Rightarrow> True | Some m \<Rightarrow> mvalid m \<and> encode m \<noteq> []"
  by unfold_locales
    (auto simp: opt_fields_def optional_message_encode_def encode_optional_message_field_def
      encode_message_field_def encode_field_bytes optional_message_decode_def field_message_def
      field_bytes_def decode_encode split: option.splits)

sublocale message_codec \<subseteq> rep: field_codec "repeated_message_encode encode" "repeated_message_decode decode"
    rep_fields "[]" "list_all (\<lambda>m. mvalid m \<and> encode m \<noteq> [])"
proof unfold_locales
  fix n v assume "list_all (\<lambda>m. mvalid m \<and> encode m \<noteq> []) v"
  then show "repeated_message_encode encode n v = concat (map encode_field (rep_fields n v))"
    by (induction v)
      (auto simp: repeated_message_encode_def rep_fields_def encode_message_field_def encode_field_bytes)
next
  fix n v assume "list_all (\<lambda>m. mvalid m \<and> encode m \<noteq> []) v"
  then have "list_all mvalid v" by (auto simp: list_all_iff)
  then show "try_fold (repeated_message_decode decode) [] (rep_fields n v) = Ok v"
    by (simp add: try_fold_repeated)
qed (auto simp: rep_fields_def)

definition varint_fields :: "('v \<Rightarrow> u64) \<Rightarrow> u32 \<Rightarrow> 'v option \<Rightarrow> field list" where
  "varint_fields to_u64 n v =
     (case v of None \<Rightarrow> [] | Some x \<Rightarrow> [\<lparr>number = n, field_value = Varint (to_u64 x)\<rparr>])"

definition bytes_fields :: "u32 \<Rightarrow> bytes option \<Rightarrow> field list" where
  "bytes_fields n v = (case v of None \<Rightarrow> [] | Some b \<Rightarrow> [\<lparr>number = n, field_value = Bytes b\<rparr>])"

definition present_bytes :: "bytes option \<Rightarrow> bool" where
  "present_bytes v \<longleftrightarrow> (case v of None \<Rightarrow> True | Some b \<Rightarrow> b \<noteq> [])"

definition present_string :: "bytes option \<Rightarrow> bool" where
  "present_string v \<longleftrightarrow> (case v of None \<Rightarrow> True | Some s \<Rightarrow> s \<noteq> [] \<and> valid_utf8 s)"

lemmas field_codec_defs =
  optional_string_encode_def optional_string_decode_def optional_bytes_encode_def optional_bytes_decode_def
  optional_bool_encode_def optional_bool_decode_def optional_varint_u32_encode_def
  optional_varint_u32_decode_def optional_varint_u64_encode_def optional_varint_u64_decode_def
  optional_varint_i32_encode_def optional_varint_i32_decode_def
  encode_optional_string_field_def encode_string_field_def encode_optional_bytes_field_def
  encode_optional_u64_field_def encode_optional_bool_field_def
  varint_fields_def bytes_fields_def present_bytes_def present_string_def
  field_varint_def field_bytes_def field_string_def encode_field_bytes encode_field_varint

interpretation opt_string: field_codec optional_string_encode optional_string_decode bytes_fields None present_string
  by unfold_locales (auto simp: field_codec_defs split: option.splits)

interpretation opt_bytes: field_codec optional_bytes_encode optional_bytes_decode bytes_fields None present_bytes
  by unfold_locales (auto simp: field_codec_defs split: option.splits)

interpretation opt_bool: field_codec optional_bool_encode optional_bool_decode "varint_fields of_bool" None "\<lambda>_. True"
  by unfold_locales (auto simp: field_codec_defs split: option.splits)

interpretation opt_u32: field_codec optional_varint_u32_encode optional_varint_u32_decode
    "varint_fields ucast" None "\<lambda>_. True"
  by unfold_locales (auto simp: field_codec_defs ucast_up_ucast_id is_up split: option.splits)

interpretation opt_u64: field_codec optional_varint_u64_encode optional_varint_u64_decode
    "varint_fields id" None "\<lambda>_. True"
  by unfold_locales (auto simp: field_codec_defs split: option.splits)

lemma ucast_scast_i32: "ucast (scast (w :: 32 word) :: u64) = w"
  by (rule bit_word_eqI) (auto simp: bit_simps)

interpretation opt_i32: field_codec optional_varint_i32_encode optional_varint_i32_decode
    "varint_fields scast" None "\<lambda>_. True"
  by unfold_locales (auto simp: field_codec_defs ucast_scast_i32 split: option.splits)

end
