(* ===== verification/Protobuf_Codec.thy ===== *)
theory Protobuf_Codec
  imports Protobuf
begin

text \<open>
  What the hand-written protobuf codec of \<open>gem_encoding\<close> promises its callers: variable-length
  integers read back, bounded and total reading, truncated input is reported, messages survive
  unknown fields, and each field codec and the gRPC frame are inverted by their decoders.
\<close>

section \<open>Truncated integers\<close>

lemma read_varint_loop_truncated:
  assumes "k < length (encode_varint v)" and "shift + 7 * k < 64"
  shows "read_varint_loop (pre @ take k (encode_varint v)) (length pre) result shift = Err VarintTruncated"
  using assms
proof (induction k arbitrary: v pre result shift)
  case 0
  then show ?case by (simp add: read_varint_loop.simps)
next
  case (Suc k)
  have big: "0x80 \<le> v"
    using Suc.prems(1) by (subst (asm) encode_varint.simps) (auto split: if_splits)
  let ?b = "(ucast v :: u8) OR 0x80" and ?w = "drop_bit 7 v"
  have enc: "take (Suc k) (encode_varint v) = ?b # take k (encode_varint ?w)"
    using big by (subst encode_varint.simps) simp
  have len: "k < length (encode_varint ?w)"
    using Suc.prems(1) big by (subst (asm) encode_varint.simps) simp
  have high: "?b AND 0x80 \<noteq> 0" by (simp add: varint_bits bit_simps)
  have rest: "read_varint_loop (pre @ ?b # take k (encode_varint ?w)) (Suc (length pre)) r (shift + 7) = Err VarintTruncated" for r
    using Suc.IH [of ?w "shift + 7" "pre @ [?b]" r] len Suc.prems(2) by simp
  have shifts: "shift \<noteq> 63" "\<not> 64 \<le> shift + 7" using Suc.prems(2) by auto
  show ?case
    unfolding enc using high rest shifts by (subst read_varint_loop.simps) (simp add: Let_def)
qed

lemma read_varint_error:
  "read_varint_loop data position result shift = Err e \<Longrightarrow> e \<in> {VarintOverflow, VarintTooLong, VarintTruncated}"
proof (induction data position result shift rule: read_varint_loop.induct)
  case (1 data position result shift)
  then show ?case
    by (subst (asm) (2) read_varint_loop.simps) (auto simp: Let_def split: if_splits)
qed

section \<open>Properties\<close>

text \<open>
  Every 64-bit integer is written as one to ten bytes that read back, wherever they stand in
  the input and whatever follows them, to the integer and to the position behind them.
\<close>

theorem varint_roundtrip:
  "1 \<le> length (encode_varint v) \<and> length (encode_varint v) \<le> 10
     \<and> read_varint (pre @ encode_varint v @ post) (length pre) = Ok (v, length pre + length (encode_varint v))"
  using encode_varint_length by simp

text \<open>
  Reading a variable-length integer ends on every input, without an access out of range: it
  moves forward by one to ten bytes within the input, or it reports an overflow, an integer of more
  than ten bytes, or the end of the input.
\<close>

theorem read_varint_total:
  "case read_varint data position of
     Inr (v, p) \<Rightarrow> position < p \<and> p \<le> length data \<and> p \<le> position + 10
   | Inl e \<Rightarrow> e \<in> {VarintOverflow, VarintTooLong, VarintTruncated}"
proof (cases "read_varint data position")
  case (Inl e)
  then show ?thesis using read_varint_error [of data position 0 0 e] by (simp add: read_varint_def)
next
  case (Inr r)
  then show ?thesis using read_varint_pos [of data position "fst r" "snd r"] by (auto split: prod.splits)
qed

text \<open>
  An integer that was cut off is never read as another one: every proper prefix of its bytes is
  reported as truncated.
\<close>

theorem varint_truncated:
  assumes "k < length (encode_varint v)"
  shows "read_varint (take k (encode_varint v)) 0 = Err VarintTruncated"
proof -
  have "7 * k < 64" using assms encode_varint_length [of v] by linarith
  then show ?thesis
    using read_varint_loop_truncated [of k v 0 "[]" 0] assms by (simp add: read_varint_def)
qed

theorem varint_truncated_witness:
  "encode_varint 300 = [0xac, 0x02] \<and> read_varint (take 1 (encode_varint 300)) 0 = Err VarintTruncated"
proof -
  have "encode_varint 300 = [0xac, 0x02]" by code_simp
  then show ?thesis using varint_truncated [of 1 300] by simp
qed

text \<open>
  A decoder made by \<open>proto_decode!\<close> reads the fields of a message in order and skips
  fields it does not know: reading the encoding of any fields is folding the table's entries over
  those with a known number.
\<close>

theorem proto_decode_skips_unknown:
  assumes "length (concat (map encode_field fs)) < 2 ^ 64"
  shows "proto_decode dflt table (concat (map encode_field fs)) =
     try_fold (\<lambda>m f. the (map_of table (number f)) m f) dflt (filter (\<lambda>f. map_of table (number f) \<noteq> None) fs)"
proof -
  have "try_fold (table_visitor table) m fs =
     try_fold (\<lambda>m f. the (map_of table (number f)) m f) m (filter (\<lambda>f. map_of table (number f) \<noteq> None) fs)" for m
    by (induction fs arbitrary: m) (auto simp: table_visitor_def split: option.splits)
  then show ?thesis using assms by (simp add: proto_decode_eq visit_fields_encode)
qed

theorem proto_decode_skips_unknown_witness:
  "proto_decode None [(1, optional_varint_u64_decode)]
     (concat (map encode_field [\<lparr>number = 1, field_value = Varint 300\<rparr>, \<lparr>number = 9, field_value = Bytes [1, 2]\<rparr>]))
   = Ok (Some 300)"
proof -
  have "length (concat (map encode_field [\<lparr>number = 1, field_value = Varint 300\<rparr>, \<lparr>number = 9, field_value = Bytes [1, 2]\<rparr>])) = 7"
    by code_simp
  then show ?thesis
    by (subst proto_decode_skips_unknown) (simp_all add: optional_varint_u64_decode_def field_varint_def)
qed

text \<open>
  Each field codec is inverted by its decoder: reading back what was written for a value, into
  a field that starts absent, gives the value. Strings and byte strings must not be present and
  empty, and strings must be valid UTF-8.
\<close>

theorem field_codecs_roundtrip:
  assumes "present_bytes bs" "length (optional_bytes_encode n bs) < 2 ^ 64"
    and "present_string str" "length (optional_string_encode n str) < 2 ^ 64"
  shows "visit_fields (optional_bytes_encode n bs) optional_bytes_decode None = Ok bs
     \<and> visit_fields (optional_string_encode n str) optional_string_decode None = Ok str
     \<and> visit_fields (optional_bool_encode n b) optional_bool_decode None = Ok b
     \<and> visit_fields (optional_varint_u32_encode n v32) optional_varint_u32_decode None = Ok v32
     \<and> visit_fields (optional_varint_u64_encode n v64) optional_varint_u64_decode None = Ok v64
     \<and> visit_fields (optional_varint_i32_encode n i32) optional_varint_i32_decode None = Ok i32"
proof -
  have "length (encode_raw_varint_field n v) < 2 ^ 64" for v
    using encode_varint_length [of v] encode_varint_length [of "push_bit 3 (ucast n) OR ucast WIRE_VARINT"]
    by (simp add: encode_raw_varint_field_def field_tag_def)
  then have small: "length (optional_bool_encode n b) < 2 ^ 64" "length (optional_varint_u32_encode n v32) < 2 ^ 64"
      "length (optional_varint_u64_encode n v64) < 2 ^ 64" "length (optional_varint_i32_encode n i32) < 2 ^ 64"
    by (auto simp: field_codec_defs(5,7,9,11,16,17) split: option.splits)
  show ?thesis
    using opt_bytes.field_roundtrip [OF assms(1,2)] opt_string.field_roundtrip [OF assms(3,4)] small
      opt_bool.field_roundtrip opt_u32.field_roundtrip opt_u64.field_roundtrip opt_i32.field_roundtrip by blast
qed

theorem field_codecs_roundtrip_witness:
  "visit_fields (optional_bytes_encode 3 (Some [1, 2])) optional_bytes_decode None = Ok (Some [1, 2])
     \<and> visit_fields (optional_varint_i32_encode 3 (Some (- 1))) optional_varint_i32_decode None = Ok (Some (- 1))"
proof -
  have "present_bytes (Some [1, 2])" "length (optional_bytes_encode 3 (Some [1, 2])) = 4"
      "present_string (Some [65])" "length (optional_string_encode 3 (Some [65])) = 3" by code_simp+
  then show ?thesis
    using field_codecs_roundtrip [of "Some [1, 2]" 3 "Some [65]" None None None "Some (- 1)"] by simp
qed

text \<open>
  The gRPC frame around a message is opened to exactly that message, whatever follows the frame
  in the response; a frame that was cut off anywhere is refused.
\<close>

theorem grpc_frame_roundtrip:
  assumes "length payload < 2 ^ 32"
  shows "decode_grpc_frame (encode_grpc_frame payload @ rest) = Ok payload
     \<and> (\<forall>k < length (encode_grpc_frame payload).
          decode_grpc_frame (take k (encode_grpc_frame payload)) \<in> {Err GrpcMissingFrame, Err GrpcTruncated})"
proof -
  let ?n = "be_bytes 4 (of_nat (length payload) :: u32)"
  have word: "unat (be_word ?n :: u32) = length payload"
    using assms by (simp add: be_word_be_bytes_id unat_of_nat take_bit_nat_eq_self)
  have fits: "usize_checked_add 5 (length payload) = Some (5 + length payload)"
    using assms by (intro usize_checked_add_fits) simp
  have frame: "encode_grpc_frame payload = [0] @ ?n @ payload" by (simp add: encode_grpc_frame_def)
  have "slice ([0] @ ?n @ payload @ rest) 1 5 = ?n" "slice (([0] @ ?n) @ payload @ rest) 5 (5 + length payload) = payload"
    by (simp_all add: slice_def)
  then have "decode_grpc_frame (encode_grpc_frame payload @ rest) = Ok payload"
    unfolding frame using word fits by (simp add: decode_grpc_frame_def)
  moreover have "decode_grpc_frame (take k (encode_grpc_frame payload)) \<in> {Err GrpcMissingFrame, Err GrpcTruncated}"
    if "k < length (encode_grpc_frame payload)" for k
  proof (cases "k < 5")
    case True
    then have "length (take k (encode_grpc_frame payload)) < 5" by simp
    then show ?thesis by (simp add: decode_grpc_frame_def del: length_take)
  next
    case False
    then have "slice (take k ([0] @ ?n @ payload)) 1 5 = ?n" "take k ([0] @ ?n @ payload) ! 0 = 0"
      by (simp_all add: slice_def take_Cons' min_def)
    then show ?thesis
      using that False word fits unfolding frame by (simp add: decode_grpc_frame_def)
  qed
  ultimately show ?thesis by blast
qed

theorem grpc_frame_roundtrip_witness:
  "decode_grpc_frame (encode_grpc_frame [1, 2, 3] @ [9]) = Ok [1, 2, 3]"
  using grpc_frame_roundtrip [of "[1, 2, 3]" "[9]"] by simp

section \<open>A present but empty value is lost\<close>

text \<open>
  The encoders write nothing for an empty byte string, also where the value is present, and the
  decoder then reads it as absent.
\<close>

theorem empty_bytes_dropped:
  "visit_fields (optional_bytes_encode n (Some [])) optional_bytes_decode None = Ok None"
  by (simp add: optional_bytes_encode_def encode_optional_bytes_field_def encode_bytes_field_def visit_fields_def
      visit_fields_loop.simps)

end
