(* ===== verification/Chains.thy ===== *)
theory Chains
  imports Prelude
begin

text \<open>
  The blockchains the wallet knows, as \<open>crates/primitives/src/chain.rs\<close> enumerates them, with the
  names \<open>strum\<close> derives (the variant in lower case), the order of \<open>Chain::iter\<close>, and the types of
  chain and asset. \<open>FromStr\<close> and \<open>AsRef<str>\<close> are inverse to each other.
\<close>

section \<open>The enumeration\<close>

datatype (plugins only: code size) chain =
    Bitcoin | BitcoinCash | Litecoin | Ethereum | SmartChain | Solana | Polygon | Thorchain |
    Mayachain | Cosmos | Osmosis | Arbitrum | Ton | Tron | Doge | Zcash | Optimism | Aptos |
    Base | AvalancheC | Sui | Xrp | OpBNB | Fantom | Gnosis | Celestia | Injective | Sei |
    SeiEvm | Manta | Blast | Noble | ZkSync | Linea | Mantle | Celo | Near | World | Stellar |
    Sonic | Algorand | Polkadot | Plasma | Cardano | Abstract | Berachain | Ink | Unichain |
    Hyperliquid | HyperCore | Monad | XLayer | Robinhood | Stable | Tempo

text \<open>\<open>Chain::iter\<close>: the variants in the order they are declared.\<close>

definition chain_iter :: "chain list" where
  "chain_iter =
    [Bitcoin, BitcoinCash, Litecoin, Ethereum, SmartChain, Solana, Polygon, Thorchain,
     Mayachain, Cosmos, Osmosis, Arbitrum, Ton, Tron, Doge, Zcash, Optimism, Aptos, Base,
     AvalancheC, Sui, Xrp, OpBNB, Fantom, Gnosis, Celestia, Injective, Sei, SeiEvm, Manta,
     Blast, Noble, ZkSync, Linea, Mantle, Celo, Near, World, Stellar, Sonic, Algorand,
     Polkadot, Plasma, Cardano, Abstract, Berachain, Ink, Unichain, Hyperliquid, HyperCore,
     Monad, XLayer, Robinhood, Stable, Tempo]"

text \<open>\<open>AsRef<str>\<close>, \<open>Display\<close> and \<open>Debug\<close> of a chain all print this name.\<close>

primrec chain_as_ref :: "chain \<Rightarrow> string" where
  "chain_as_ref Bitcoin = ''bitcoin''"
| "chain_as_ref BitcoinCash = ''bitcoincash''"
| "chain_as_ref Litecoin = ''litecoin''"
| "chain_as_ref Ethereum = ''ethereum''"
| "chain_as_ref SmartChain = ''smartchain''"
| "chain_as_ref Solana = ''solana''"
| "chain_as_ref Polygon = ''polygon''"
| "chain_as_ref Thorchain = ''thorchain''"
| "chain_as_ref Mayachain = ''mayachain''"
| "chain_as_ref Cosmos = ''cosmos''"
| "chain_as_ref Osmosis = ''osmosis''"
| "chain_as_ref Arbitrum = ''arbitrum''"
| "chain_as_ref Ton = ''ton''"
| "chain_as_ref Tron = ''tron''"
| "chain_as_ref Doge = ''doge''"
| "chain_as_ref Zcash = ''zcash''"
| "chain_as_ref Optimism = ''optimism''"
| "chain_as_ref Aptos = ''aptos''"
| "chain_as_ref Base = ''base''"
| "chain_as_ref AvalancheC = ''avalanchec''"
| "chain_as_ref Sui = ''sui''"
| "chain_as_ref Xrp = ''xrp''"
| "chain_as_ref OpBNB = ''opbnb''"
| "chain_as_ref Fantom = ''fantom''"
| "chain_as_ref Gnosis = ''gnosis''"
| "chain_as_ref Celestia = ''celestia''"
| "chain_as_ref Injective = ''injective''"
| "chain_as_ref Sei = ''sei''"
| "chain_as_ref SeiEvm = ''seievm''"
| "chain_as_ref Manta = ''manta''"
| "chain_as_ref Blast = ''blast''"
| "chain_as_ref Noble = ''noble''"
| "chain_as_ref ZkSync = ''zksync''"
| "chain_as_ref Linea = ''linea''"
| "chain_as_ref Mantle = ''mantle''"
| "chain_as_ref Celo = ''celo''"
| "chain_as_ref Near = ''near''"
| "chain_as_ref World = ''world''"
| "chain_as_ref Stellar = ''stellar''"
| "chain_as_ref Sonic = ''sonic''"
| "chain_as_ref Algorand = ''algorand''"
| "chain_as_ref Polkadot = ''polkadot''"
| "chain_as_ref Plasma = ''plasma''"
| "chain_as_ref Cardano = ''cardano''"
| "chain_as_ref Abstract = ''abstract''"
| "chain_as_ref Berachain = ''berachain''"
| "chain_as_ref Ink = ''ink''"
| "chain_as_ref Unichain = ''unichain''"
| "chain_as_ref Hyperliquid = ''hyperliquid''"
| "chain_as_ref HyperCore = ''hypercore''"
| "chain_as_ref Monad = ''monad''"
| "chain_as_ref XLayer = ''xlayer''"
| "chain_as_ref Robinhood = ''robinhood''"
| "chain_as_ref Stable = ''stable''"
| "chain_as_ref Tempo = ''tempo''"

text \<open>\<open>EnumString\<close>: the variant whose name is the string, an error otherwise.\<close>

definition chain_from_str :: "string \<Rightarrow> chain option" where
  "chain_from_str s = List.find (\<lambda>c. chain_as_ref c = s) chain_iter"

section \<open>Kinds of chains and assets\<close>

datatype chain_type =
    EthereumType | BitcoinType | SolanaType | CosmosType | TonType | TronType | AptosType | SuiType
  | XrpType | NearType | StellarType | AlgorandType | PolkadotType | CardanoType | HyperCoreType

datatype asset_type =
    NATIVE | ERC20 | BEP20 | SPL | SPL2022 | TRC20 | TIP20 | TOKEN | IBC | JETTON | SYNTH | ASA | PERPETUAL | SPOT

datatype fee_unit_type = SatVb | Gwei | NativeUnit

section \<open>Facts\<close>

lemma chain_iter_complete: "c \<in> set chain_iter"
  by (cases c) (simp_all add: chain_iter_def)

lemma chain_iter_distinct: "distinct chain_iter"
  by (simp add: chain_iter_def)

lemma chain_names_distinct: "distinct (map chain_as_ref chain_iter)"
  by code_simp

lemma chain_as_ref_inject [simp]: "chain_as_ref c = chain_as_ref d \<longleftrightarrow> c = d"
  using chain_names_distinct chain_iter_complete by (auto simp: distinct_map dest: inj_onD)

text \<open>\<open>List.find\<close> on an enumeration with an injective key finds the element with that key.\<close>

lemma find_key: "inj_on f (set xs) \<Longrightarrow> x \<in> set xs \<Longrightarrow> List.find (\<lambda>y. f y = f x) xs = Some x"
  by (induction xs) (auto dest: inj_onD)

lemma find_SomeD: "List.find P xs = Some x \<Longrightarrow> P x \<and> x \<in> set xs"
  by (induction xs) (auto split: if_splits)

lemma find_NoneD: "List.find P xs = None \<Longrightarrow> x \<in> set xs \<Longrightarrow> \<not> P x"
  by (auto simp: find_None_iff)

lemma chain_from_str_as_ref [simp]: "chain_from_str (chain_as_ref c) = Some c"
  unfolding chain_from_str_def by (rule find_key) (auto simp: inj_on_def chain_iter_complete)

lemma chain_from_str_SomeD: "chain_from_str s = Some c \<Longrightarrow> chain_as_ref c = s"
  unfolding chain_from_str_def by (auto dest: find_SomeD)

end
