(* ===== verification/Wallet_Types.thy ===== *)
theory Wallet_Types
  imports Utf8 Chains "HOL-Library.Char_ord"
begin

text \<open>
  The shared types of \<open>core/crates/primitives\<close> that the chain signers consume: errors, assets,
  swap and staking payloads, chain metadata, fees, and the \<open>SignerInput\<close> every signer is handed,
  with their accessors. A Rust \<open>String\<close> is a HOL \<open>string\<close> (its UTF-8 bytes as characters);
  \<open>BigUint\<close> is \<open>nat\<close> and \<open>BigInt\<close> is \<open>int\<close>. Payloads that no modelled operation reads
  (perpetual, earn, application metadata, delegations) are left out of the constructors that
  carry them; the constructors themselves are all here, so that every match is exhaustive as in
  the source.
\<close>

section \<open>Errors and text\<close>

datatype signer_error =
    InvalidInput string
  | SigningError string
  | DustThreshold
  | InsufficientFunds
  | SwapValueBelowMinimum

type_synonym 'a signer_result = "signer_error + 'a"

definition invalid_input_err :: "string \<Rightarrow> 'a signer_result" where
  "invalid_input_err message = Err (InvalidInput message)"

text \<open>\<open>map_err(SignerError::from_display)\<close> on the display form of an error.\<close>

definition from_display :: "string \<Rightarrow> 'a signer_result" where
  "from_display message = Err (InvalidInput message)"

fun map_err_display :: "string + 'a \<Rightarrow> 'a signer_result" where
  "map_err_display (Inl e) = from_display e"
| "map_err_display (Inr x) = Ok x"

text \<open>\<open>InvalidInput::invalid_input\<close> of the \<open>signer\<close> crate on a \<open>Result\<close>; on an \<open>Option\<close> it is \<open>ok_or\<close>.\<close>

fun invalid_input :: "'e + 'a \<Rightarrow> string \<Rightarrow> 'a signer_result" where
  "invalid_input (Inl e) msg = Err (InvalidInput msg)"
| "invalid_input (Inr x) msg = Ok x"

definition as_bytes :: "string \<Rightarrow> bytes" where
  "as_bytes s = map of_char s"

definition from_bytes :: "bytes \<Rightarrow> string" where
  "from_bytes bs = map (\<lambda>b. char_of (unat b)) bs"

lemma length_as_bytes [simp]: "length (as_bytes s) = length s"
  by (simp add: as_bytes_def)

lemma as_bytes_Nil_iff [simp]: "as_bytes s = [] \<longleftrightarrow> s = []"
  by (simp add: as_bytes_def)

lemma unat_of_char: "unat (of_char c :: u8) = of_char c"
proof -
  have "(of_char c :: u8) = of_nat (of_char c)"
    by (simp add: of_nat_of_char)
  then show ?thesis
    by (simp add: unat_of_nat take_bit_nat_eq_self)
qed

lemma from_bytes_as_bytes [simp]: "from_bytes (as_bytes s) = s"
  by (simp add: from_bytes_def as_bytes_def comp_def unat_of_char)

lemma as_bytes_from_bytes [simp]: "as_bytes (from_bytes bs) = bs"
proof -
  have "of_char (char_of (unat b) :: char) = b" for b :: u8
  proof -
    have "unat b < 256" using unsigned_less [of b] by simp
    then show ?thesis by (simp add: word_unat_eq_iff unat_of_char)
  qed
  then show ?thesis by (simp add: as_bytes_def from_bytes_def comp_def)
qed

lemma as_bytes_inj: "as_bytes s = as_bytes t \<longleftrightarrow> s = t"
  by (metis from_bytes_as_bytes)

text \<open>
  \<open>str::trim\<close>: strip the characters with the Unicode property \<open>White_Space\<close>, each given by its
  UTF-8 bytes.
\<close>

definition white_space :: "string list" where
  "white_space =
     [[CHR 0x09], [CHR 0x0A], [CHR 0x0B], [CHR 0x0C], [CHR 0x0D], [CHR 0x20],
      [CHR 0xC2, CHR 0x85], [CHR 0xC2, CHR 0xA0], [CHR 0xE1, CHR 0x9A, CHR 0x80],
      [CHR 0xE2, CHR 0x80, CHR 0x80], [CHR 0xE2, CHR 0x80, CHR 0x81], [CHR 0xE2, CHR 0x80, CHR 0x82],
      [CHR 0xE2, CHR 0x80, CHR 0x83], [CHR 0xE2, CHR 0x80, CHR 0x84], [CHR 0xE2, CHR 0x80, CHR 0x85],
      [CHR 0xE2, CHR 0x80, CHR 0x86], [CHR 0xE2, CHR 0x80, CHR 0x87], [CHR 0xE2, CHR 0x80, CHR 0x88],
      [CHR 0xE2, CHR 0x80, CHR 0x89], [CHR 0xE2, CHR 0x80, CHR 0x8A], [CHR 0xE2, CHR 0x80, CHR 0xA8],
      [CHR 0xE2, CHR 0x80, CHR 0xA9], [CHR 0xE2, CHR 0x80, CHR 0xAF], [CHR 0xE2, CHR 0x81, CHR 0x9F],
      [CHR 0xE3, CHR 0x80, CHR 0x80]]"

definition strip_prefix :: "string \<Rightarrow> string \<Rightarrow> string option" where
  "strip_prefix p s = (if prefix p s then Some (drop (length p) s) else None)"

definition strip_one :: "string list \<Rightarrow> string \<Rightarrow> string option" where
  "strip_one ps s = (case filter (\<lambda>p. p \<noteq> [] \<and> prefix p s) ps of [] \<Rightarrow> None | p # _ \<Rightarrow> strip_prefix p s)"

lemma strip_one_shorter: "strip_one ps s = Some t \<Longrightarrow> length t < length s"
proof -
  assume st: "strip_one ps s = Some t"
  then obtain p where p: "p \<noteq> []" "prefix p s" "strip_prefix p s = Some t"
    by (cases "filter (\<lambda>p. p \<noteq> [] \<and> prefix p s) ps")
      (auto simp: strip_one_def dest!: Cons_eq_filterD [OF sym])
  then have "t = drop (length p) s" "length p \<le> length s"
    by (auto simp: strip_prefix_def prefix_length_le)
  with p(1) show ?thesis by (cases p) auto
qed

function strip_all :: "string list \<Rightarrow> string \<Rightarrow> string" where
  "strip_all ps s = (case strip_one ps s of None \<Rightarrow> s | Some t \<Rightarrow> strip_all ps t)"
  by pat_completeness auto
termination
  by (relation "measure (\<lambda>(ps, s). length s)") (auto dest: strip_one_shorter)

declare strip_all.simps [simp del]

definition trim :: "string \<Rightarrow> string" where
  "trim s = rev (strip_all (map rev white_space) (rev (strip_all white_space s)))"

section \<open>Hexadecimal input\<close>

text \<open>
  \<open>primitives/src/hex.rs\<close>, over the decoder of the \<open>hex\<close> crate (an argument): surrounding white
  space and a \<open>0x\<close> prefix are dropped, an odd number of digits gets a leading zero.
\<close>

definition decode_hex :: "(string \<Rightarrow> bytes option) \<Rightarrow> string \<Rightarrow> bytes signer_result" where
  "decode_hex hex_decode s =
     (let stripped = (case strip_prefix ''0x'' (trim s) of Some r \<Rightarrow> r | None \<Rightarrow> trim s)
      in if stripped = [] then Ok []
         else let normalized = (if length stripped mod 2 = 1 then CHR ''0'' # stripped else stripped)
              in ok_or (hex_decode normalized) (InvalidInput ''invalid hex''))"

definition decode_hex_array :: "(string \<Rightarrow> bytes option) \<Rightarrow> nat \<Rightarrow> string \<Rightarrow> bytes signer_result" where
  "decode_hex_array hex_decode n s =
     and_then (decode_hex hex_decode s) (\<lambda>b.
       if length b = n then Ok b else invalid_input_err ''hex value must be N bytes'')"

section \<open>Assets\<close>

record asset_id =
  asset_chain :: chain
  token_id :: "string option"

definition is_native :: "asset_id \<Rightarrow> bool" where
  "is_native a \<longleftrightarrow> token_id a = None"

definition is_token :: "asset_id \<Rightarrow> bool" where
  "is_token a \<longleftrightarrow> token_id a \<noteq> None"

definition get_token_id :: "asset_id \<Rightarrow> string signer_result" where
  "get_token_id a = ok_or (token_id a) (InvalidInput ''Token ID required'')"

text \<open>\<open>AssetId::split_sub_token_parts\<close>: the token id at its first \<open>::\<close>.\<close>

fun split_once_str :: "string \<Rightarrow> string \<Rightarrow> (string \<times> string) option" where
  "split_once_str p [] = (if p = [] then Some ([], []) else None)"
| "split_once_str p (c # cs) =
     (case strip_prefix p (c # cs) of
        Some rest \<Rightarrow> Some ([], rest)
      | None \<Rightarrow> map_option (\<lambda>(a, b). (c # a, b)) (split_once_str p cs))"

definition TOKEN_ID_SEPARATOR :: string where "TOKEN_ID_SEPARATOR = ''::''"

definition split_sub_token_parts :: "asset_id \<Rightarrow> (string \<times> string) option" where
  "split_sub_token_parts a = Option.bind (token_id a) (split_once_str TOKEN_ID_SEPARATOR)"

text \<open>Of an asset the signers read the id, the symbol and the decimals, an \<open>i32\<close>.\<close>

record asset =
  asset_ident :: asset_id
  asset_symbol :: string
  asset_decimals :: int

record utxo =
  utxo_transaction_id :: string
  utxo_vout :: int
  utxo_value :: nat
  utxo_address :: string

text \<open>\<open>BigUint::to_u64\<close> and \<open>BigInt::to_u64\<close> of \<open>num_traits\<close>.\<close>

definition nat_to_u64 :: "nat \<Rightarrow> u64 option" where
  "nat_to_u64 n = (if n < 2 ^ 64 then Some (of_nat n) else None)"

definition int_to_u64 :: "int \<Rightarrow> u64 option" where
  "int_to_u64 n = (if 0 \<le> n \<and> n < 2 ^ 64 then Some (of_int n) else None)"

text \<open>\<open>u32::try_from\<close> on a \<open>u64\<close>, with the error it displays.\<close>

definition u32_try_from :: "u64 \<Rightarrow> u32 option" where
  "u32_try_from v = (if unat v < 2 ^ 32 then Some (ucast v) else None)"

definition u32_try_from_display :: "u64 \<Rightarrow> u32 signer_result" where
  "u32_try_from_display v = ok_or (u32_try_from v) (InvalidInput ''out of range integral type conversion attempted'')"

text \<open>\<open>BigUint::to_bytes_be\<close> (zero is one zero byte) and \<open>BigUint::from_bytes_be\<close>.\<close>

fun nat_digits :: "nat \<Rightarrow> bytes" where
  "nat_digits n = (if n = 0 then [] else nat_digits (n div 256) @ [of_nat (n mod 256)])"

declare nat_digits.simps [simp del]

definition nat_to_bytes_be :: "nat \<Rightarrow> bytes" where
  "nat_to_bytes_be n = (if n = 0 then [0] else nat_digits n)"

definition nat_from_bytes_be :: "bytes \<Rightarrow> nat" where
  "nat_from_bytes_be bs = foldl (\<lambda>acc b. acc * 256 + unat b) 0 bs"

text \<open>\<open>to_string\<close> of an unsigned integer, and \<open>str::parse::<u64>\<close> with its error messages.\<close>

fun to_decimal :: "nat \<Rightarrow> string" where
  "to_decimal n = (if n < 10 then [char_of (48 + n)] else to_decimal (n div 10) @ [char_of (48 + n mod 10)])"

declare to_decimal.simps [simp del]

definition digit_val :: "char \<Rightarrow> nat option" where
  "digit_val c = (let n = of_char c in if 48 \<le> n \<and> n \<le> (57 :: nat) then Some (n - 48) else None)"

fun parse_digits :: "nat \<Rightarrow> string \<Rightarrow> string + u64" where
  "parse_digits acc [] = Inr (of_nat acc)"
| "parse_digits acc (c # cs) =
     (case digit_val c of
        None \<Rightarrow> Inl ''invalid digit found in string''
      | Some d \<Rightarrow> if acc * 10 + d < 2 ^ 64 then parse_digits (acc * 10 + d) cs
                  else Inl ''number too large to fit in target type'')"

definition parse_u64 :: "string \<Rightarrow> string + u64" where
  "parse_u64 s =
     (if s = [] then Inl ''cannot parse integer from empty string''
      else if hd s = CHR ''+'' \<and> tl s \<noteq> [] then parse_digits 0 (tl s)
      else parse_digits 0 s)"

definition value_u64 :: "utxo \<Rightarrow> u64 signer_result" where
  "value_u64 u = ok_or (nat_to_u64 (utxo_value u)) (InvalidInput ''UTXO amount is too large'')"

section \<open>Transaction input\<close>

record approval_data =
  approval_token :: string
  approval_spender :: string
  approval_value :: nat
  is_unlimited :: bool

datatype swap_quote_data_type = SwapContract | SwapTransfer

record swap_quote_data =
  swap_to :: string
  data_type :: swap_quote_data_type
  swap_data_value :: nat
  swap_call_data :: string
  swap_memo :: "string option"
  approval :: "approval_data option"

record swap_quote =
  min_from_value :: "nat option"
  use_max_amount :: "bool option"

record swap_data =
  quote :: swap_quote
  quote_data :: swap_quote_data

datatype resource = Bandwidth | Energy

datatype stake_type = Stake | Unstake | Redelegate | Rewards | Withdraw | Freeze resource | Unfreeze resource

record tron_vote =
  validator :: string
  vote_count :: u64

record tron_unfreeze =
  unfreeze_resource :: resource
  unfreeze_amount :: u64

datatype tron_stake_data = Votes "tron_vote list" | Unfreezes "tron_unfreeze list"

datatype transfer_data_output_type = EncodedTransaction | Signature

record transfer_data_extra =
  extra_data :: "bytes option"
  output_type :: transfer_data_output_type

text \<open>Of an NFT the signers read the collection contract and the token id.\<close>

record nft_asset =
  nft_contract_address :: "string option"
  nft_token_id :: string

definition get_contract_address :: "nft_asset \<Rightarrow> string signer_result" where
  "get_contract_address n = ok_or (nft_contract_address n) (InvalidInput ''missing NFT contract address'')"

datatype transaction_input_type =
    TransferInput asset
  | DepositInput asset
  | SwapInput asset asset swap_data
  | StakeInput asset stake_type
  | TokenApproveInput asset approval_data
  | GenericInput asset transfer_data_extra
  | TransferNftInput asset nft_asset
  | AccountInput asset
  | PerpetualInput asset
  | EarnInput asset

fun get_asset :: "transaction_input_type \<Rightarrow> asset" where
  "get_asset (TransferInput asset) = asset"
| "get_asset (DepositInput asset) = asset"
| "get_asset (SwapInput asset _ _) = asset"
| "get_asset (StakeInput asset _) = asset"
| "get_asset (TokenApproveInput asset _) = asset"
| "get_asset (GenericInput asset _) = asset"
| "get_asset (TransferNftInput asset _) = asset"
| "get_asset (AccountInput asset) = asset"
| "get_asset (PerpetualInput asset) = asset"
| "get_asset (EarnInput asset) = asset"

fun get_swap_data :: "transaction_input_type \<Rightarrow> swap_data signer_result" where
  "get_swap_data (SwapInput _ _ swap) = Ok swap"
| "get_swap_data _ = invalid_input_err ''expected swap transaction''"

fun get_nft_asset :: "transaction_input_type \<Rightarrow> nft_asset signer_result" where
  "get_nft_asset (TransferNftInput _ nft) = Ok nft"
| "get_nft_asset _ = invalid_input_err ''expected NFT transfer transaction''"

fun get_generic_data :: "transaction_input_type \<Rightarrow> transfer_data_extra signer_result" where
  "get_generic_data (GenericInput _ extra) = Ok extra"
| "get_generic_data _ = invalid_input_err ''expected generic transaction''"

fun get_approval_data :: "transaction_input_type \<Rightarrow> approval_data signer_result" where
  "get_approval_data (TokenApproveInput _ appr) = Ok appr"
| "get_approval_data _ = invalid_input_err ''expected token approval transaction''"

fun get_stake_type :: "transaction_input_type \<Rightarrow> stake_type signer_result" where
  "get_stake_type (StakeInput _ st) = Ok st"
| "get_stake_type _ = invalid_input_err ''expected stake transaction''"

datatype solana_token_program_id = Token | Token2022

datatype solana_nft_standard =
    NonFungible
  | ProgrammableNonFungible "string option"
  | CoreNft "string option"

record contract_call_data =
  cc_contract_address :: string
  cc_call_data :: string
  cc_approval :: "approval_data option"
  cc_gas_limit :: "string option"

record hyperliquid_order =
  approve_agent_required :: bool
  approve_referral_required :: bool
  approve_builder_required :: bool
  builder_fee_bps :: u32
  agent_name :: string
  agent_address :: string
  agent_private_key :: string

datatype transaction_load_metadata =
    NoMeta
  | SolanaMeta "string option" "string option" "solana_token_program_id option" "solana_nft_standard option" string "string list"
  | TonMeta "string option" "string option" u64
  | CosmosMeta u64 u64 string
  | BitcoinMeta "utxo list"
  | ZcashMeta "utxo list" string
  | CardanoMeta "utxo list" u64
  | EvmMeta u64 u64 "contract_call_data option"
  | NearMeta u64 string
  | StellarMeta u64 bool
  | XrpMeta u64 u64
  | AlgorandMeta u64 string string
  | AptosMeta u64 "string option"
  | PolkadotMeta u64 string string u64 u64 u64 u64
  | TronMeta u64 u64 u64 string string string tron_stake_data
  | SuiMeta string
  | HyperliquidMeta "hyperliquid_order option"

text \<open>
  The accessors fail with a boxed message, which \<open>?\<close> turns into \<open>SignerError::InvalidInput\<close> in
  the signers.
\<close>

definition get_sequence :: "transaction_load_metadata \<Rightarrow> u64 signer_result" where
  "get_sequence m = (case m of
       TonMeta _ _ s \<Rightarrow> Ok s | CosmosMeta _ s _ \<Rightarrow> Ok s | NearMeta s _ \<Rightarrow> Ok s | StellarMeta s _ \<Rightarrow> Ok s
     | XrpMeta s _ \<Rightarrow> Ok s | AlgorandMeta s _ _ \<Rightarrow> Ok s | AptosMeta s _ \<Rightarrow> Ok s
     | PolkadotMeta s _ _ _ _ _ _ \<Rightarrow> Ok s | EvmMeta s _ _ \<Rightarrow> Ok s
     | _ \<Rightarrow> invalid_input_err ''Sequence not available for this metadata type'')"

definition get_block_number :: "transaction_load_metadata \<Rightarrow> u64 signer_result" where
  "get_block_number m = (case m of
       PolkadotMeta _ _ _ n _ _ _ \<Rightarrow> Ok n | TronMeta n _ _ _ _ _ _ \<Rightarrow> Ok n | XrpMeta _ n \<Rightarrow> Ok n
     | CardanoMeta _ n \<Rightarrow> Ok n
     | _ \<Rightarrow> invalid_input_err ''Block number not available for this metadata type'')"

definition get_block_hash :: "transaction_load_metadata \<Rightarrow> string signer_result" where
  "get_block_hash m = (case m of
       SolanaMeta _ _ _ _ h _ \<Rightarrow> Ok h | NearMeta _ h \<Rightarrow> Ok h | AlgorandMeta _ h _ \<Rightarrow> Ok h
     | PolkadotMeta _ _ h _ _ _ _ \<Rightarrow> Ok h
     | _ \<Rightarrow> invalid_input_err ''Block hash not available for this metadata type'')"

definition get_account_number :: "transaction_load_metadata \<Rightarrow> u64 signer_result" where
  "get_account_number m = (case m of CosmosMeta n _ _ \<Rightarrow> Ok n
     | _ \<Rightarrow> invalid_input_err ''Account number not available for this metadata type'')"

definition get_chain_id :: "transaction_load_metadata \<Rightarrow> string signer_result" where
  "get_chain_id m = (case m of
       CosmosMeta _ _ c \<Rightarrow> Ok c | AlgorandMeta _ _ c \<Rightarrow> Ok c | EvmMeta _ c _ \<Rightarrow> Ok (to_decimal (unat c))
     | _ \<Rightarrow> invalid_input_err ''Chain ID not available for this metadata type'')"

definition get_chain_id_u64 :: "transaction_load_metadata \<Rightarrow> u64 signer_result" where
  "get_chain_id_u64 m = and_then (get_chain_id m) (\<lambda>c. case parse_u64 c of Inl e \<Rightarrow> invalid_input_err e | Inr v \<Rightarrow> Ok v)"

definition get_is_destination_address_exist :: "transaction_load_metadata \<Rightarrow> bool signer_result" where
  "get_is_destination_address_exist m = (case m of StellarMeta _ b \<Rightarrow> Ok b
     | _ \<Rightarrow> invalid_input_err ''Destination existence flag not available for this metadata type'')"

definition get_recipient_token_address :: "transaction_load_metadata \<Rightarrow> string option signer_result" where
  "get_recipient_token_address m = (case m of SolanaMeta _ r _ _ _ _ \<Rightarrow> Ok r | TonMeta _ r _ \<Rightarrow> Ok r
     | _ \<Rightarrow> invalid_input_err ''Recipient token address not available for this metadata type'')"

definition get_sender_token_address :: "transaction_load_metadata \<Rightarrow> string option signer_result" where
  "get_sender_token_address m = (case m of SolanaMeta s _ _ _ _ _ \<Rightarrow> Ok s | TonMeta s _ _ \<Rightarrow> Ok s
     | _ \<Rightarrow> invalid_input_err ''Sender token address not available for this metadata type'')"

definition get_solana_token_program_id :: "transaction_load_metadata \<Rightarrow> solana_token_program_id option signer_result" where
  "get_solana_token_program_id m = (case m of SolanaMeta _ _ p _ _ _ \<Rightarrow> Ok p
     | _ \<Rightarrow> invalid_input_err ''Solana token program not available for this metadata type'')"

definition get_solana_references :: "transaction_load_metadata \<Rightarrow> string list signer_result" where
  "get_solana_references m = (case m of SolanaMeta _ _ _ _ _ rs \<Rightarrow> Ok rs
     | _ \<Rightarrow> invalid_input_err ''Solana references not available for this metadata type'')"

definition get_message_bytes :: "transaction_load_metadata \<Rightarrow> string signer_result" where
  "get_message_bytes m = (case m of SuiMeta b \<Rightarrow> Ok b
     | _ \<Rightarrow> invalid_input_err ''Message bytes not available for this metadata type'')"

definition get_contract_call :: "transaction_load_metadata \<Rightarrow> contract_call_data signer_result" where
  "get_contract_call m = (case m of EvmMeta _ _ (Some cc) \<Rightarrow> Ok cc
     | _ \<Rightarrow> invalid_input_err ''Contract call not available for this metadata type'')"

definition get_hyperliquid_order :: "transaction_load_metadata \<Rightarrow> hyperliquid_order signer_result" where
  "get_hyperliquid_order m = (case m of HyperliquidMeta (Some order) \<Rightarrow> Ok order
     | _ \<Rightarrow> invalid_input_err ''Hyperliquid order not available for this metadata type'')"

definition get_utxos :: "transaction_load_metadata \<Rightarrow> utxo list signer_result" where
  "get_utxos m = (case m of BitcoinMeta us \<Rightarrow> Ok us | ZcashMeta us _ \<Rightarrow> Ok us | CardanoMeta us _ \<Rightarrow> Ok us
     | _ \<Rightarrow> invalid_input_err ''UTXOs not available for this metadata type'')"

fun get_zcash_branch_id :: "(string \<Rightarrow> bytes option) \<Rightarrow> transaction_load_metadata \<Rightarrow> u32 option" where
  "get_zcash_branch_id hex_decode (ZcashMeta _ branch_id) =
     (case ok (decode_hex hex_decode branch_id) of
        None \<Rightarrow> None
      | Some b \<Rightarrow> if length b = 4 then Some (be_word b) else None)"
| "get_zcash_branch_id hex_decode _ = None"

datatype gas_price_type =
    Regular int
  | Eip1559 int int
  | SolanaGas int int int

fun gas_price :: "gas_price_type \<Rightarrow> int" where
  "gas_price (Regular p) = p"
| "gas_price (Eip1559 p _) = p"
| "gas_price (SolanaGas p _ _) = p"

fun total_fee :: "gas_price_type \<Rightarrow> int" where
  "total_fee (Regular p) = p"
| "total_fee (Eip1559 p q) = p + q"
| "total_fee (SolanaGas p q _) = p + q"

record transaction_load_input =
  input_type :: transaction_input_type
  sender_address :: string
  destination_address :: string
  input_value :: nat
  load_gas_price :: gas_price_type
  memo :: "string option"
  is_max_value :: bool
  metadata :: transaction_load_metadata

definition get_memo :: "('a transaction_load_input_scheme) \<Rightarrow> string option" where
  "get_memo input = (case memo input of None \<Rightarrow> None | Some m \<Rightarrow> if m = [] then None else Some m)"

definition value_as_u64 :: "('a transaction_load_input_scheme) \<Rightarrow> u64 signer_result" where
  "value_as_u64 input =
     ok_or (nat_to_u64 (input_value input)) (InvalidInput ''transaction amount is too large'')"

section \<open>Fees and signer input\<close>

datatype fee_option = TokenAccountCreation

record transaction_fee =
  fee_total :: int
  gas_price_type :: gas_price_type
  fee_gas_limit :: int
  fee_options :: "fee_option \<rightharpoonup> int"

definition fee_u64 :: "transaction_fee \<Rightarrow> u64 signer_result" where
  "fee_u64 f = ok_or (int_to_u64 (fee_total f)) (InvalidInput ''invalid fee'')"

definition gas_limit :: "transaction_fee \<Rightarrow> u64 signer_result" where
  "gas_limit f =
     and_then (ok_or (int_to_u64 (fee_gas_limit f)) (InvalidInput ''invalid gas limit'')) (\<lambda>limit.
       if limit = 0 then invalid_input_err ''missing gas limit'' else Ok limit)"

definition gas_price_u64 :: "transaction_fee \<Rightarrow> u64 signer_result" where
  "gas_price_u64 f = ok_or (int_to_u64 (gas_price (gas_price_type f))) (InvalidInput ''invalid gas price'')"

definition default_fee :: "('a transaction_load_input_scheme) \<Rightarrow> transaction_fee" where
  "default_fee input = \<lparr>fee_total = total_fee (load_gas_price input),
     gas_price_type = load_gas_price input, fee_gas_limit = 0, fee_options = Map.empty\<rparr>"

text \<open>\<open>SignerInput\<close> derefs to its \<open>TransactionLoadInput\<close>: the model extends that record.\<close>

record signer_input = transaction_load_input +
  input_fee :: transaction_fee

definition swap_value :: "signer_input \<Rightarrow> int signer_result" where
  "swap_value input =
     and_then (get_swap_data (input_type input)) (\<lambda>swap.
       let v = int (swap_data_value (quote_data swap));
           use_max = (case use_max_amount (quote swap) of Some b \<Rightarrow> b | None \<Rightarrow> is_max_value input)
       in if \<not> use_max \<or> \<not> is_native (asset_ident (get_asset (input_type input))) then Ok v
          else case data_type (quote_data swap) of
            SwapContract \<Rightarrow> Ok v
          | SwapTransfer \<Rightarrow>
              let v = v - fee_total (input_fee input) in
              if v < 0 then Err InsufficientFunds
              else (case min_from_value (quote swap) of
                      Some m \<Rightarrow> if v < int m then Err SwapValueBelowMinimum else Ok v
                    | None \<Rightarrow> Ok v))"

definition swap_value_u64 :: "signer_input \<Rightarrow> u64 signer_result" where
  "swap_value_u64 input =
     and_then (swap_value input) (\<lambda>v. ok_or (int_to_u64 v) (InvalidInput ''invalid transaction amount''))"

section \<open>Facts\<close>

lemma nat_to_u64_Some: "nat_to_u64 n = Some w \<longleftrightarrow> n < 2 ^ 64 \<and> w = of_nat n"
  by (auto simp: nat_to_u64_def)

lemma unat_nat_to_u64: "nat_to_u64 n = Some w \<Longrightarrow> unat w = n"
  by (auto simp: nat_to_u64_Some unat_of_nat_u64 [simplified])

lemma unat_int_to_u64: "int_to_u64 n = Some w \<Longrightarrow> int (unat w) = n"
  by (auto simp: int_to_u64_def unsigned_of_int take_bit_int_eq_self split: if_splits)

lemma nat_from_bytes_be_append:
  "nat_from_bytes_be (xs @ [b]) = nat_from_bytes_be xs * 256 + unat b"
  by (simp add: nat_from_bytes_be_def)

lemma nat_from_bytes_be_digits [simp]: "nat_from_bytes_be (nat_digits n) = n"
proof (induction n rule: nat_digits.induct)
  case (1 n)
  show ?case
  proof (cases "n = 0")
    case True
    then show ?thesis by (simp add: nat_digits.simps nat_from_bytes_be_def)
  next
    case False
    then have "nat_digits n = nat_digits (n div 256) @ [of_nat (n mod 256)]"
      by (simp add: nat_digits.simps [of n])
    moreover have "unat (of_nat (n mod 256) :: u8) = n mod 256"
      by (simp add: unat_of_nat take_bit_nat_eq_self)
    ultimately show ?thesis
      using 1 False by (simp add: nat_from_bytes_be_append div_mult_mod_eq)
  qed
qed

lemma nat_from_to_bytes_be [simp]: "nat_from_bytes_be (nat_to_bytes_be n) = n"
  by (simp add: nat_to_bytes_be_def) (simp add: nat_from_bytes_be_def)

lemma nat_from_bytes_be_bound: "nat_from_bytes_be bs < 256 ^ length bs"
proof (induction bs rule: rev_induct)
  case Nil
  then show ?case by (simp add: nat_from_bytes_be_def)
next
  case (snoc b bs)
  have "unat b < 256" using unsigned_less [of b] by simp
  with snoc show ?case by (simp add: nat_from_bytes_be_append)
qed

lemma nat_digits_length: "length (nat_digits n) \<le> k \<longleftrightarrow> n < 256 ^ k"
proof
  assume "length (nat_digits n) \<le> k"
  then have le: "(256::nat) ^ length (nat_digits n) \<le> 256 ^ k" by (simp add: power_increasing)
  have "n < 256 ^ length (nat_digits n)" using nat_from_bytes_be_bound [of "nat_digits n"] by simp
  then show "n < 256 ^ k" using le by (rule order_less_le_trans)
next
  assume "n < 256 ^ k"
  then show "length (nat_digits n) \<le> k"
  proof (induction k arbitrary: n)
    case 0
    then show ?case by (simp add: nat_digits.simps)
  next
    case (Suc k)
    then have "n div 256 < 256 ^ k" by (simp add: less_mult_imp_div_less mult.commute)
    then show ?case using Suc.IH by (subst nat_digits.simps) simp
  qed
qed

lemma nat_to_bytes_be_length: "0 < k \<Longrightarrow> length (nat_to_bytes_be n) \<le> k \<longleftrightarrow> n < 256 ^ k"
  by (auto simp: nat_to_bytes_be_def nat_digits_length)

lemma get_memo_nonempty: "get_memo input = Some m \<Longrightarrow> m \<noteq> []"
  by (auto simp: get_memo_def split: option.splits if_splits)

lemma digit_val_char_of [simp]: "d < 10 \<Longrightarrow> digit_val (char_of (48 + d)) = Some d"
  by (simp add: digit_val_def)

lemma parse_digits_to_decimal:
  "acc * 10 ^ length (to_decimal n) + n < 2 ^ 64 \<Longrightarrow>
     parse_digits acc (to_decimal n @ r) = parse_digits (acc * 10 ^ length (to_decimal n) + n) r"
proof (induction n arbitrary: acc r rule: to_decimal.induct)
  case (1 n)
  show ?case
  proof (cases "n < 10")
    case True
    then show ?thesis using "1.prems" by (simp add: to_decimal.simps [of n])
  next
    case False
    let ?p = "10 ^ length (to_decimal (n div 10)) :: nat"
    have dec: "to_decimal n = to_decimal (n div 10) @ [char_of (48 + n mod 10)]"
      using False by (simp add: to_decimal.simps [of n])
    have eq: "(acc * ?p + n div 10) * 10 + n mod 10 = acc * 10 ^ length (to_decimal n) + n"
      unfolding dec by (simp add: algebra_simps)
    have "acc * ?p + n div 10 \<le> (acc * ?p + n div 10) * 10 + n mod 10" by simp
    also have "\<dots> < 2 ^ 64" using "1.prems" unfolding eq .
    finally have "acc * ?p + n div 10 < 2 ^ 64" .
    then have "parse_digits acc (to_decimal (n div 10) @ char_of (48 + n mod 10) # r)
        = parse_digits (acc * ?p + n div 10) (char_of (48 + n mod 10) # r)"
      by (rule "1.IH" [OF False])
    then show ?thesis
      using "1.prems" digit_val_char_of [of "n mod 10"] unfolding eq [symmetric] by (simp add: dec)
  qed
qed

lemma to_decimal_nonempty [simp]: "to_decimal n \<noteq> []"
  by (simp add: to_decimal.simps [of n])

lemma to_decimal_hd: "\<exists>d < 10. hd (to_decimal n) = char_of (48 + d :: nat)"
proof (induction n rule: to_decimal.induct)
  case (1 n)
  then show ?case by (cases "n < 10") (auto simp: to_decimal.simps [of n] hd_append)
qed

lemma parse_u64_to_decimal [simp]: "parse_u64 (to_decimal (unat (v :: u64))) = Inr v"
proof -
  obtain d where d: "d < 10" "hd (to_decimal (unat v)) = char_of (48 + d :: nat)" using to_decimal_hd by blast
  have "char_of (48 + d) \<noteq> CHR ''+''"
  proof
    assume "char_of (48 + d) = CHR ''+''"
    then have "of_char (char_of (48 + d) :: char) = (43 :: nat)" by simp
    then show False using d(1) by simp
  qed
  then show ?thesis
    using parse_digits_to_decimal [of 0 "unat v" "[]"] unat_lt2p_u64 [of v] d(2)
    by (simp add: parse_u64_def)
qed

end
