(* ===== verification/Tron.thy ===== *)
theory Tron
  imports Protobuf Wallet_Types
begin

text \<open>
  \<open>core/crates/gem_tron\<close>: addresses, the TRC20 call data, the contracts a user can sign, their
  protobuf messages, the raw data of a transaction and the signing entry points, including the
  check that a dApp's JSON view of a transaction is the one that gets signed.

  Third-party code is the record \<open>tron_lib\<close>: base58check, hex, the two hash functions, the
  secp256k1 key and signature functions and serde's serialisation of the signed transaction.
\<close>

record tron_lib =
  bs58_check_decode :: "string \<Rightarrow> bytes option"
  hex_decode :: "string \<Rightarrow> bytes option"
  hex_encode :: "bytes \<Rightarrow> string"
  sha256 :: "bytes \<Rightarrow> bytes"
  keccak256 :: "bytes \<Rightarrow> bytes"
  secp256k1_uncompressed_public_key :: "bytes \<Rightarrow> bytes signer_result"
  sign_digest :: "bytes \<Rightarrow> bytes \<Rightarrow> bytes signer_result"

section \<open>Addresses\<close>

type_synonym tron_address = bytes

definition ADDRESS_PREFIX :: u8 where "ADDRESS_PREFIX = 0x41"
definition ADDRESS_LEN :: nat where "ADDRESS_LEN = 20"
definition PREFIXED_ADDRESS_LEN :: nat where "PREFIXED_ADDRESS_LEN = ADDRESS_LEN + 1"

lemmas address_consts = ADDRESS_PREFIX_def ADDRESS_LEN_def PREFIXED_ADDRESS_LEN_def

definition address_from_account_id :: "bytes \<Rightarrow> tron_address" where
  "address_from_account_id account_id = ADDRESS_PREFIX # account_id"

definition account_id :: "tron_address \<Rightarrow> bytes" where
  "account_id address = tl address"

definition try_parse :: "tron_lib \<Rightarrow> string \<Rightarrow> tron_address option" where
  "try_parse L address =
     (case bs58_check_decode L address of
        None \<Rightarrow> None
      | Some decoded \<Rightarrow>
          let payload = (case decoded of
                           p # rest \<Rightarrow> if p = ADDRESS_PREFIX then rest else decoded
                         | [] \<Rightarrow> decoded)
          in if length payload = ADDRESS_LEN then Some (address_from_account_id payload) else None)"

definition from_hex :: "tron_lib \<Rightarrow> string \<Rightarrow> tron_address option" where
  "from_hex L hex_value =
     (case ok (decode_hex (hex_decode L) hex_value) of
        None \<Rightarrow> None
      | Some bs \<Rightarrow>
          if length bs = PREFIXED_ADDRESS_LEN \<and> hd bs = ADDRESS_PREFIX then Some bs
          else if length bs = ADDRESS_LEN then Some (address_from_account_id bs)
          else None)"

definition from_hex_or_base58 :: "tron_lib \<Rightarrow> string \<Rightarrow> tron_address option" where
  "from_hex_or_base58 L v = (case try_parse L v of Some a \<Rightarrow> Some a | None \<Rightarrow> from_hex L v)"

definition parse_hex_or_base58 :: "tron_lib \<Rightarrow> string \<Rightarrow> tron_address signer_result" where
  "parse_hex_or_base58 L v = ok_or (from_hex_or_base58 L v) (InvalidInput (''invalid Tron address: '' @ v))"

definition parse_address :: "tron_lib \<Rightarrow> string \<Rightarrow> tron_address signer_result" where
  "parse_address L address = ok_or (try_parse L address) (InvalidInput (''invalid Tron address: '' @ address))"

definition from_abi_word :: "tron_lib \<Rightarrow> bytes \<Rightarrow> tron_address option" where
  "from_abi_word L word =
     (if length word \<noteq> 32 then None
      else let prefixed_offset = length word - PREFIXED_ADDRESS_LEN;
               account_id_offset = length word - ADDRESS_LEN
           in if list_all (\<lambda>v. v = 0) (take prefixed_offset word) \<and> word ! prefixed_offset = ADDRESS_PREFIX
              then from_hex L (hex_encode L (drop prefixed_offset word))
              else if list_all (\<lambda>v. v = 0) (take account_id_offset word)
              then from_hex L (hex_encode L (drop account_id_offset word))
              else None)"

definition from_private_key :: "tron_lib \<Rightarrow> bytes \<Rightarrow> tron_address signer_result" where
  "from_private_key L private_key =
     and_then (secp256k1_uncompressed_public_key L private_key) (\<lambda>public_key.
       if length public_key \<noteq> 65 \<or> hd public_key \<noteq> 0x04
       then invalid_input_err ''Invalid Secp256k1 public key''
       else let hash = keccak256 L (tl public_key);
                acc = drop (length hash - ADDRESS_LEN) hash
            in if length acc = ADDRESS_LEN then Ok (address_from_account_id acc)
               else invalid_input_err ''invalid Tron account id length'')"

section \<open>TRC20 call data\<close>

definition ABI_WORD_LEN :: nat where "ABI_WORD_LEN = 32"
definition TRC20_APPROVE_SELECTOR :: bytes where "TRC20_APPROVE_SELECTOR = [0x09, 0x5e, 0xa7, 0xb3]"
definition TRC20_TRANSFER_SELECTOR :: bytes where "TRC20_TRANSFER_SELECTOR = [0xa9, 0x05, 0x9c, 0xbb]"

lemmas trc20_consts = ABI_WORD_LEN_def TRC20_APPROVE_SELECTOR_def TRC20_TRANSFER_SELECTOR_def

record approval_call =
  spender :: tron_address
  approved_value :: nat

definition pad_left :: "bytes \<Rightarrow> nat \<Rightarrow> bytes signer_result" where
  "pad_left data len =
     (if length data > len then invalid_input_err ''value does not fit padded length''
      else Ok (replicate (len - length data) 0 @ data))"

definition encode_transfer :: "tron_address \<Rightarrow> nat \<Rightarrow> bytes signer_result" where
  "encode_transfer destination amount =
     and_then (pad_left destination ABI_WORD_LEN) (\<lambda>d.
     and_then (pad_left (nat_to_bytes_be amount) ABI_WORD_LEN) (\<lambda>a.
       Ok (TRC20_TRANSFER_SELECTOR @ d @ a)))"

definition encode_approval_max :: "tron_address \<Rightarrow> bytes signer_result" where
  "encode_approval_max spender_address =
     and_then (pad_left spender_address ABI_WORD_LEN) (\<lambda>d.
       Ok (TRC20_APPROVE_SELECTOR @ d @ replicate ABI_WORD_LEN 0xff))"

definition decode_approval :: "tron_lib \<Rightarrow> bytes \<Rightarrow> approval_call option" where
  "decode_approval L data =
     (if length data \<noteq> length TRC20_APPROVE_SELECTOR + ABI_WORD_LEN * 2
         \<or> \<not> prefix TRC20_APPROVE_SELECTOR data then None
      else case from_abi_word L (take ABI_WORD_LEN (drop (length TRC20_APPROVE_SELECTOR) data)) of
             None \<Rightarrow> None
           | Some s \<Rightarrow> Some \<lparr>spender = s,
               approved_value = nat_from_bytes_be (drop (length TRC20_APPROVE_SELECTOR + ABI_WORD_LEN) data)\<rparr>)"

section \<open>Contracts\<close>

datatype tron_contract_type =
    TransferType | TransferAssetType | VoteWitnessType | WithdrawBalanceType | TriggerSmartType
  | FreezeBalanceV2Type | UnfreezeBalanceV2Type | WithdrawExpireUnfreezeType
  | DelegateResourceType | UnDelegateResourceType

fun contract_type_id :: "tron_contract_type \<Rightarrow> u64" where
  "contract_type_id TransferType = 1"
| "contract_type_id TransferAssetType = 2"
| "contract_type_id VoteWitnessType = 4"
| "contract_type_id WithdrawBalanceType = 13"
| "contract_type_id TriggerSmartType = 31"
| "contract_type_id FreezeBalanceV2Type = 54"
| "contract_type_id UnfreezeBalanceV2Type = 55"
| "contract_type_id WithdrawExpireUnfreezeType = 56"
| "contract_type_id DelegateResourceType = 57"
| "contract_type_id UnDelegateResourceType = 58"

fun contract_type_name :: "tron_contract_type \<Rightarrow> string" where
  "contract_type_name TransferType = ''TransferContract''"
| "contract_type_name TransferAssetType = ''TransferAssetContract''"
| "contract_type_name VoteWitnessType = ''VoteWitnessContract''"
| "contract_type_name WithdrawBalanceType = ''WithdrawBalanceContract''"
| "contract_type_name TriggerSmartType = ''TriggerSmartContract''"
| "contract_type_name FreezeBalanceV2Type = ''FreezeBalanceV2Contract''"
| "contract_type_name UnfreezeBalanceV2Type = ''UnfreezeBalanceV2Contract''"
| "contract_type_name WithdrawExpireUnfreezeType = ''WithdrawExpireUnfreezeContract''"
| "contract_type_name DelegateResourceType = ''DelegateResourceContract''"
| "contract_type_name UnDelegateResourceType = ''UnDelegateResourceContract''"

definition type_url :: "tron_contract_type \<Rightarrow> string" where
  "type_url t = ''type.googleapis.com/protocol.'' @ contract_type_name t"

fun resource_to_u64 :: "resource \<Rightarrow> u64" where
  "resource_to_u64 Bandwidth = 0"
| "resource_to_u64 Energy = 1"

record tron_contract_vote =
  vote_address :: tron_address
  vote_amount :: u64

datatype tron_contract =
    Transfer tron_address tron_address u64
  | TriggerSmart tron_address tron_address bytes "u64 option" "u64 option" "u64 option"
  | VoteWitness tron_address "tron_contract_vote list" bool
  | FreezeBalanceV2 tron_address u64 resource
  | UnfreezeBalanceV2 tron_address u64 resource
  | WithdrawBalance tron_address
  | WithdrawExpireUnfreeze tron_address

definition vote_try_from :: "tron_lib \<Rightarrow> tron_vote \<Rightarrow> tron_contract_vote signer_result" where
  "vote_try_from L vote =
     and_then (parse_address L (validator vote)) (\<lambda>a.
       Ok \<lparr>vote_address = a, vote_amount = vote_count vote\<rparr>)"

definition vote_witness :: "tron_lib \<Rightarrow> tron_address \<Rightarrow> tron_vote list \<Rightarrow> tron_contract signer_result" where
  "vote_witness L owner votes =
     and_then (traverse (vote_try_from L) votes) (\<lambda>vs. Ok (VoteWitness owner vs True))"

fun contract_kind :: "tron_contract \<Rightarrow> tron_contract_type" where
  "contract_kind (Transfer _ _ _) = TransferType"
| "contract_kind (TriggerSmart _ _ _ _ _ _) = TriggerSmartType"
| "contract_kind (VoteWitness _ _ _) = VoteWitnessType"
| "contract_kind (FreezeBalanceV2 _ _ _) = FreezeBalanceV2Type"
| "contract_kind (UnfreezeBalanceV2 _ _ _) = UnfreezeBalanceV2Type"
| "contract_kind (WithdrawBalance _) = WithdrawBalanceType"
| "contract_kind (WithdrawExpireUnfreeze _) = WithdrawExpireUnfreezeType"

section \<open>Protobuf messages\<close>

text \<open>\<open>models/signing/protobuf.rs\<close>: the structs and their \<open>proto_encode!\<close> tables.\<close>

record any_parameter =
  any_type_url :: "bytes option"
  any_value :: "bytes option"

definition any_parameter_encode :: "any_parameter \<Rightarrow> bytes" where
  "any_parameter_encode = proto_encode
     [\<lambda>m. optional_string_encode 1 (any_type_url m),
      \<lambda>m. optional_bytes_encode 2 (any_value m)]"

record contract_envelope =
  contract_type :: "u64 option"
  parameter :: "any_parameter option"

definition contract_envelope_encode :: "contract_envelope \<Rightarrow> bytes" where
  "contract_envelope_encode = proto_encode
     [\<lambda>m. optional_varint_u64_encode 1 (contract_type m),
      \<lambda>m. optional_message_encode any_parameter_encode 2 (parameter m)]"

record raw_data =
  rd_ref_block_bytes :: "bytes option"
  rd_ref_block_hash :: "bytes option"
  rd_expiration :: "u64 option"
  rd_data :: "bytes option"
  rd_contracts :: "contract_envelope list"
  rd_timestamp :: "u64 option"
  rd_fee_limit :: "u64 option"

definition raw_data_encode :: "raw_data \<Rightarrow> bytes" where
  "raw_data_encode = proto_encode
     [\<lambda>m. optional_bytes_encode 1 (rd_ref_block_bytes m),
      \<lambda>m. optional_bytes_encode 4 (rd_ref_block_hash m),
      \<lambda>m. optional_varint_u64_encode 8 (rd_expiration m),
      \<lambda>m. optional_bytes_encode 10 (rd_data m),
      \<lambda>m. repeated_message_encode contract_envelope_encode 11 (rd_contracts m),
      \<lambda>m. optional_varint_u64_encode 14 (rd_timestamp m),
      \<lambda>m. optional_varint_u64_encode 18 (rd_fee_limit m)]"

record block_header_raw =
  bh_timestamp :: "u64 option"
  bh_tx_trie_root :: "bytes option"
  bh_parent_hash :: "bytes option"
  bh_number :: "u64 option"
  bh_witness_address :: "bytes option"
  bh_version :: "u64 option"

definition block_header_raw_encode :: "block_header_raw \<Rightarrow> bytes" where
  "block_header_raw_encode = proto_encode
     [\<lambda>m. optional_varint_u64_encode 1 (bh_timestamp m),
      \<lambda>m. optional_bytes_encode 2 (bh_tx_trie_root m),
      \<lambda>m. optional_bytes_encode 3 (bh_parent_hash m),
      \<lambda>m. optional_varint_u64_encode 7 (bh_number m),
      \<lambda>m. optional_bytes_encode 9 (bh_witness_address m),
      \<lambda>m. optional_varint_u64_encode 10 (bh_version m)]"

record transfer_contract =
  tc_owner_address :: "bytes option"
  tc_to_address :: "bytes option"
  tc_amount :: "u64 option"

definition transfer_contract_encode :: "transfer_contract \<Rightarrow> bytes" where
  "transfer_contract_encode = proto_encode
     [\<lambda>m. optional_bytes_encode 1 (tc_owner_address m),
      \<lambda>m. optional_bytes_encode 2 (tc_to_address m),
      \<lambda>m. optional_varint_u64_encode 3 (tc_amount m)]"

record trigger_smart_contract =
  ts_owner_address :: "bytes option"
  ts_contract_address :: "bytes option"
  ts_call_value :: "u64 option"
  ts_data :: "bytes option"
  ts_call_token_value :: "u64 option"
  ts_token_id :: "u64 option"

definition trigger_smart_contract_encode :: "trigger_smart_contract \<Rightarrow> bytes" where
  "trigger_smart_contract_encode = proto_encode
     [\<lambda>m. optional_bytes_encode 1 (ts_owner_address m),
      \<lambda>m. optional_bytes_encode 2 (ts_contract_address m),
      \<lambda>m. optional_varint_u64_encode 3 (ts_call_value m),
      \<lambda>m. optional_bytes_encode 4 (ts_data m),
      \<lambda>m. optional_varint_u64_encode 5 (ts_call_token_value m),
      \<lambda>m. optional_varint_u64_encode 6 (ts_token_id m)]"

record vote =
  v_vote_address :: "bytes option"
  v_vote_count :: "u64 option"

definition vote_encode :: "vote \<Rightarrow> bytes" where
  "vote_encode = proto_encode
     [\<lambda>m. optional_bytes_encode 1 (v_vote_address m),
      \<lambda>m. optional_varint_u64_encode 2 (v_vote_count m)]"

record vote_witness_contract =
  vw_owner_address :: "bytes option"
  vw_votes :: "vote list"
  vw_support :: "bool option"

definition vote_witness_contract_encode :: "vote_witness_contract \<Rightarrow> bytes" where
  "vote_witness_contract_encode = proto_encode
     [\<lambda>m. optional_bytes_encode 1 (vw_owner_address m),
      \<lambda>m. repeated_message_encode vote_encode 2 (vw_votes m),
      \<lambda>m. optional_bool_encode 3 (vw_support m)]"

record freeze_balance_v2_contract =
  fb_owner_address :: "bytes option"
  fb_frozen_balance :: "u64 option"
  fb_resource :: "u64 option"

definition freeze_balance_v2_contract_encode :: "freeze_balance_v2_contract \<Rightarrow> bytes" where
  "freeze_balance_v2_contract_encode = proto_encode
     [\<lambda>m. optional_bytes_encode 1 (fb_owner_address m),
      \<lambda>m. optional_varint_u64_encode 2 (fb_frozen_balance m),
      \<lambda>m. optional_varint_u64_encode 3 (fb_resource m)]"

record unfreeze_balance_v2_contract =
  ub_owner_address :: "bytes option"
  ub_unfreeze_balance :: "u64 option"
  ub_resource :: "u64 option"

definition unfreeze_balance_v2_contract_encode :: "unfreeze_balance_v2_contract \<Rightarrow> bytes" where
  "unfreeze_balance_v2_contract_encode = proto_encode
     [\<lambda>m. optional_bytes_encode 1 (ub_owner_address m),
      \<lambda>m. optional_varint_u64_encode 2 (ub_unfreeze_balance m),
      \<lambda>m. optional_varint_u64_encode 3 (ub_resource m)]"

record owner_contract =
  oc_owner_address :: "bytes option"

definition owner_contract_encode :: "owner_contract \<Rightarrow> bytes" where
  "owner_contract_encode = proto_encode [\<lambda>m. optional_bytes_encode 1 (oc_owner_address m)]"

text \<open>\<open>(value > 0).then_some(value)\<close> and \<open>value.filter(|value| *value > 0)\<close>.\<close>

definition then_some_pos :: "u64 \<Rightarrow> u64 option" where
  "then_some_pos v = (if v > 0 then Some v else None)"

definition filter_pos :: "u64 option \<Rightarrow> u64 option" where
  "filter_pos o' = (case o' of None \<Rightarrow> None | Some v \<Rightarrow> then_some_pos v)"

definition vote_from :: "tron_contract_vote \<Rightarrow> vote" where
  "vote_from v = \<lparr>v_vote_address = Some (vote_address v), v_vote_count = then_some_pos (vote_amount v)\<rparr>"

fun contract_value :: "tron_contract \<Rightarrow> bytes" where
  "contract_value (Transfer owner to amount) = transfer_contract_encode
     \<lparr>tc_owner_address = Some owner, tc_to_address = Some to, tc_amount = then_some_pos amount\<rparr>"
| "contract_value (TriggerSmart owner contract data call_value call_token_value tok) =
     trigger_smart_contract_encode
       \<lparr>ts_owner_address = Some owner, ts_contract_address = Some contract,
        ts_call_value = filter_pos call_value, ts_data = Some data,
        ts_call_token_value = filter_pos call_token_value, ts_token_id = filter_pos tok\<rparr>"
| "contract_value (VoteWitness owner votes support) = vote_witness_contract_encode
     \<lparr>vw_owner_address = Some owner, vw_votes = map vote_from votes,
      vw_support = (if support then Some True else None)\<rparr>"
| "contract_value (FreezeBalanceV2 owner frozen_balance resource) = freeze_balance_v2_contract_encode
     \<lparr>fb_owner_address = Some owner, fb_frozen_balance = then_some_pos frozen_balance,
      fb_resource = then_some_pos (resource_to_u64 resource)\<rparr>"
| "contract_value (UnfreezeBalanceV2 owner unfreeze_balance resource) = unfreeze_balance_v2_contract_encode
     \<lparr>ub_owner_address = Some owner, ub_unfreeze_balance = then_some_pos unfreeze_balance,
      ub_resource = then_some_pos (resource_to_u64 resource)\<rparr>"
| "contract_value (WithdrawBalance owner) = owner_contract_encode \<lparr>oc_owner_address = Some owner\<rparr>"
| "contract_value (WithdrawExpireUnfreeze owner) = owner_contract_encode \<lparr>oc_owner_address = Some owner\<rparr>"

definition contract_envelope_from :: "tron_contract \<Rightarrow> contract_envelope" where
  "contract_envelope_from contract =
     (let ct = contract_kind contract in
      \<lparr>contract_type = Some (contract_type_id ct),
       parameter = Some \<lparr>any_type_url = Some (as_bytes (type_url ct)),
                         any_value = Some (contract_value contract)\<rparr>\<rparr>)"

section \<open>Raw data of a transaction\<close>

definition EXPIRATION_DURATION_MS :: u64 where "EXPIRATION_DURATION_MS = 10 * 60 * 60 * 1000"

record tron_raw_data =
  ref_block_bytes :: bytes
  ref_block_hash :: bytes
  expiration :: u64
  extra :: "bytes option"
  contract :: tron_contract
  timestamp :: u64
  fee_limit :: u64

definition from_input_with_data ::
  "tron_lib \<Rightarrow> signer_input \<Rightarrow> tron_contract \<Rightarrow> u64 \<Rightarrow> bytes option \<Rightarrow> tron_raw_data signer_result" where
  "from_input_with_data L input c limit data =
     (case metadata input of
        TronMeta block_number block_version block_timestamp transaction_tree_root parent_hash witness_address _ \<Rightarrow>
          and_then (decode_hex_array (hex_decode L) 32 transaction_tree_root) (\<lambda>tree_root.
          and_then (decode_hex_array (hex_decode L) 32 parent_hash) (\<lambda>parent.
          and_then (ok_or (from_hex L witness_address) (InvalidInput ''invalid Tron witness address'')) (\<lambda>witness.
            let header = \<lparr>bh_timestamp = then_some_pos block_timestamp, bh_tx_trie_root = Some tree_root,
                          bh_parent_hash = Some parent, bh_number = then_some_pos block_number,
                          bh_witness_address = Some witness, bh_version = then_some_pos block_version\<rparr>;
                block_hash = sha256 L (block_header_raw_encode header);
                block_number_bytes = be_bytes 8 block_number
            in and_then (ok_or (checked_add block_timestamp EXPIRATION_DURATION_MS)
                          (InvalidInput ''Tron expiration overflow'')) (\<lambda>expires.
                 Ok \<lparr>ref_block_bytes = slice block_number_bytes 6 8,
                     ref_block_hash = slice block_hash 8 16,
                     expiration = expires,
                     extra = (case data of Some d \<Rightarrow> Some d | None \<Rightarrow> map_option as_bytes (get_memo input)),
                     contract = c,
                     timestamp = block_timestamp,
                     fee_limit = limit\<rparr>))))
      | _ \<Rightarrow> invalid_input_err ''Missing tron metadata'')"

definition tron_raw_data_encode :: "tron_raw_data \<Rightarrow> bytes" where
  "tron_raw_data_encode r = raw_data_encode
     \<lparr>rd_ref_block_bytes = Some (ref_block_bytes r), rd_ref_block_hash = Some (ref_block_hash r),
      rd_expiration = then_some_pos (expiration r), rd_data = extra r,
      rd_contracts = [contract_envelope_from (contract r)],
      rd_timestamp = then_some_pos (timestamp r), rd_fee_limit = then_some_pos (fee_limit r)\<rparr>"

section \<open>The JSON view of a contract\<close>

text \<open>
  \<open>TronContractValueJson\<close> and the value structs of \<open>contract.rs\<close>, as serde sees them once it has
  read or before it writes the JSON text.
\<close>

datatype contract_value_json =
    TransferJson u64 tron_address tron_address
  | TriggerSmartJson tron_address bytes tron_address "u64 option" "u64 option" "u64 option"
  | VoteWitnessJson tron_address bool "tron_contract_vote list"
  | FreezeBalanceV2Json u64 tron_address resource
  | UnfreezeBalanceV2Json tron_address resource u64
  | OwnerJson tron_address

fun value_json :: "tron_contract \<Rightarrow> contract_value_json" where
  "value_json (Transfer owner to amount) = TransferJson amount owner to"
| "value_json (TriggerSmart owner target data call_value call_token_value tok) =
     TriggerSmartJson target data owner (filter_pos call_value) (filter_pos call_token_value) (filter_pos tok)"
| "value_json (VoteWitness owner votes support) = VoteWitnessJson owner support votes"
| "value_json (FreezeBalanceV2 owner frozen_balance resource) = FreezeBalanceV2Json frozen_balance owner resource"
| "value_json (UnfreezeBalanceV2 owner unfreeze_balance resource) = UnfreezeBalanceV2Json owner resource unfreeze_balance"
| "value_json (WithdrawBalance owner) = OwnerJson owner"
| "value_json (WithdrawExpireUnfreeze owner) = OwnerJson owner"

record contract_json =
  json_type_url :: string
  json_value :: contract_value_json
  json_contract_type :: tron_contract_type

definition to_contract_json :: "tron_contract \<Rightarrow> contract_json" where
  "to_contract_json c = \<lparr>json_type_url = type_url (contract_kind c), json_value = value_json c,
     json_contract_type = contract_kind c\<rparr>"

record tron_raw_data_json =
  rj_contract :: "contract_json list"
  rj_expiration :: u64
  rj_fee_limit :: "u64 option"
  rj_ref_block_bytes :: string
  rj_ref_block_hash :: string
  rj_data :: "string option"
  rj_timestamp :: u64

definition raw_data_to_json :: "tron_lib \<Rightarrow> tron_raw_data \<Rightarrow> tron_raw_data_json" where
  "raw_data_to_json L r =
     \<lparr>rj_contract = [to_contract_json (contract r)], rj_expiration = expiration r,
      rj_fee_limit = then_some_pos (fee_limit r), rj_ref_block_bytes = hex_encode L (ref_block_bytes r),
      rj_ref_block_hash = hex_encode L (ref_block_hash r),
      rj_data = map_option (hex_encode L) (extra r), rj_timestamp = timestamp r\<rparr>"

record signed_transaction_json =
  st_raw_data :: tron_raw_data_json
  st_raw_data_hex :: string
  st_signature :: "string list"
  st_transaction_id :: string

definition signed_transaction_json_new ::
  "tron_lib \<Rightarrow> tron_raw_data_json \<Rightarrow> bytes \<Rightarrow> bytes \<Rightarrow> string \<Rightarrow> signed_transaction_json" where
  "signed_transaction_json_new L raw_data raw_data_bytes transaction_id signature =
     \<lparr>st_raw_data = raw_data, st_raw_data_hex = hex_encode L raw_data_bytes,
      st_signature = [signature], st_transaction_id = hex_encode L transaction_id\<rparr>"

text \<open>
  \<open>from_json_value\<close>: serde turns the JSON value into the struct of the contract type (an argument,
  \<open>parse_value\<close>), the match builds the contract. A struct of another type than the one asked for
  is a serde error.
\<close>

definition serde_error :: "'a signer_result" where
  "serde_error = invalid_input_err ''invalid json''"

definition contract_of_json :: "tron_contract_type \<Rightarrow> contract_value_json \<Rightarrow> tron_contract signer_result" where
  "contract_of_json ct v =
     (case v of
        TransferJson amount owner to \<Rightarrow>
          if ct = TransferType then Ok (Transfer owner to amount) else serde_error
      | TriggerSmartJson target data owner cv ctv tok \<Rightarrow>
          if ct = TriggerSmartType
          then Ok (TriggerSmart owner target data (filter_pos cv) (filter_pos ctv) (filter_pos tok))
          else serde_error
      | VoteWitnessJson owner support votes \<Rightarrow>
          if ct = VoteWitnessType then Ok (VoteWitness owner votes support) else serde_error
      | FreezeBalanceV2Json frozen owner resource \<Rightarrow>
          if ct = FreezeBalanceV2Type then Ok (FreezeBalanceV2 owner frozen resource) else serde_error
      | UnfreezeBalanceV2Json owner resource amount \<Rightarrow>
          if ct = UnfreezeBalanceV2Type then Ok (UnfreezeBalanceV2 owner amount resource) else serde_error
      | OwnerJson owner \<Rightarrow>
          if ct = WithdrawBalanceType then Ok (WithdrawBalance owner)
          else if ct = WithdrawExpireUnfreezeType then Ok (WithdrawExpireUnfreeze owner)
          else serde_error)"

definition from_json_value ::
  "(tron_contract_type \<Rightarrow> 'j \<Rightarrow> contract_value_json signer_result) \<Rightarrow> tron_contract_type \<Rightarrow> 'j
     \<Rightarrow> tron_contract signer_result" where
  "from_json_value parse_value ct v =
     (if ct \<in> {TransferAssetType, DelegateResourceType, UnDelegateResourceType}
      then invalid_input_err (''unsupported Tron contract type: '' @ contract_type_name ct)
      else and_then (parse_value ct v) (contract_of_json ct))"

record 'j raw_data_json =
  in_contract :: "(tron_contract_type \<times> 'j) list"
  in_expiration :: u64
  in_ref_block_bytes :: bytes
  in_ref_block_hash :: bytes
  in_timestamp :: u64
  in_fee_limit :: "u64 option"
  in_data :: "bytes option"

definition raw_data_json_encode ::
  "(tron_contract_type \<Rightarrow> 'j \<Rightarrow> contract_value_json signer_result) \<Rightarrow> 'j raw_data_json \<Rightarrow> bytes signer_result" where
  "raw_data_json_encode parse_value r =
     and_then (traverse (\<lambda>(ct, v). and_then (from_json_value parse_value ct v)
                                    (\<lambda>c. Ok (contract_envelope_from c))) (in_contract r)) (\<lambda>contracts.
       Ok (raw_data_encode
         \<lparr>rd_ref_block_bytes = Some (in_ref_block_bytes r), rd_ref_block_hash = Some (in_ref_block_hash r),
          rd_expiration = then_some_pos (in_expiration r), rd_data = in_data r, rd_contracts = contracts,
          rd_timestamp = then_some_pos (in_timestamp r), rd_fee_limit = filter_pos (in_fee_limit r)\<rparr>))"

section \<open>WalletConnect payloads\<close>

text \<open>serde's part of reading and writing a dApp request, for an arbitrary type of JSON values.\<close>

record 'j wallet_connect_transaction =
  wc_raw_data :: "'j option"
  wc_raw_data_hex :: bytes
  wc_transaction_id :: "string option"
  wc_signature :: "string list option"
  wc_extra :: "(string \<times> 'j) list"

record 'j tron_serde =
  parse_request :: "bytes \<Rightarrow> 'j wallet_connect_transaction signer_result"
  parse_raw_data :: "'j \<Rightarrow> 'j raw_data_json signer_result"
  parse_value :: "tron_contract_type \<Rightarrow> 'j \<Rightarrow> contract_value_json signer_result"
  write_transaction :: "'j wallet_connect_transaction \<Rightarrow> string signer_result"
  write_signed :: "signed_transaction_json \<Rightarrow> string signer_result"

definition ascii_lower :: "char \<Rightarrow> char" where
  "ascii_lower c = (if CHR ''A'' \<le> c \<and> c \<le> CHR ''Z'' then char_of ((of_char c :: nat) + 32) else c)"

definition eq_ignore_ascii_case :: "string \<Rightarrow> string \<Rightarrow> bool" where
  "eq_ignore_ascii_case s t \<longleftrightarrow> map ascii_lower s = map ascii_lower t"

definition wc_hash :: "tron_lib \<Rightarrow> 'j tron_serde \<Rightarrow> 'j wallet_connect_transaction \<Rightarrow> bytes signer_result" where
  "wc_hash L S t =
     (let raw = wc_raw_data_hex t;
          transaction_hash = sha256 L raw;
          transaction_id = hex_encode L transaction_hash
      in and_then (ok_or (wc_raw_data t) (InvalidInput ''Missing raw_data'')) (\<lambda>json.
           if (case wc_transaction_id t of
                 Some provided \<Rightarrow> \<not> eq_ignore_ascii_case provided transaction_id
               | None \<Rightarrow> False)
           then invalid_input_err ''transaction ID does not match hash of raw_data_hex''
           else and_then (and_then (parse_raw_data S json) (raw_data_json_encode (parse_value S))) (\<lambda>encoded.
                  if encoded \<noteq> raw then invalid_input_err ''raw_data does not match raw_data_hex''
                  else Ok transaction_hash)))"

definition into_signed_json ::
  "'j tron_serde \<Rightarrow> 'j wallet_connect_transaction \<Rightarrow> string \<Rightarrow> string \<Rightarrow> string signer_result" where
  "into_signed_json S t transaction_id signature_hex =
     write_transaction S (t\<lparr>wc_signature := Some [signature_hex], wc_transaction_id := Some transaction_id\<rparr>)"

section \<open>Signing\<close>

record contract_payload =
  payload_contract :: tron_contract
  payload_fee_limit :: u64
  payload_data :: "bytes option"

definition validate_sender :: "tron_lib \<Rightarrow> signer_input \<Rightarrow> bytes \<Rightarrow> tron_address signer_result" where
  "validate_sender L input private_key =
     and_then (parse_address L (sender_address input)) (\<lambda>sender.
     and_then (from_private_key L private_key) (\<lambda>own.
       if sender \<noteq> own then invalid_input_err ''Tron sender address does not match private key''
       else Ok sender))"

definition sign_raw_hash :: "tron_lib \<Rightarrow> bytes \<Rightarrow> bytes \<Rightarrow> string signer_result" where
  "sign_raw_hash L hash private_key =
     and_then (sign_digest L hash private_key) (\<lambda>s. Ok (hex_encode L s))"

definition sign_raw_data :: "tron_lib \<Rightarrow> 'j tron_serde \<Rightarrow> tron_raw_data \<Rightarrow> bytes \<Rightarrow> string signer_result" where
  "sign_raw_data L S raw private_key =
     (let raw_data_bytes = tron_raw_data_encode raw;
          transaction_id = sha256 L raw_data_bytes
      in and_then (sign_raw_hash L transaction_id private_key) (\<lambda>signature.
           write_signed S (signed_transaction_json_new L (raw_data_to_json L raw) raw_data_bytes
                             transaction_id signature)))"

definition sign_built_contract_payload ::
  "tron_lib \<Rightarrow> 'j tron_serde \<Rightarrow> signer_input \<Rightarrow> bytes \<Rightarrow> contract_payload \<Rightarrow> string signer_result" where
  "sign_built_contract_payload L S input private_key payload =
     and_then (from_input_with_data L input (payload_contract payload) (payload_fee_limit payload)
                 (payload_data payload)) (\<lambda>raw. sign_raw_data L S raw private_key)"

definition sign_contract_payload ::
  "tron_lib \<Rightarrow> 'j tron_serde \<Rightarrow> signer_input \<Rightarrow> bytes \<Rightarrow>
     (tron_address \<Rightarrow> contract_payload signer_result) \<Rightarrow> string signer_result" where
  "sign_contract_payload L S input private_key build_payload =
     and_then (validate_sender L input private_key) (\<lambda>owner.
     and_then (build_payload owner) (\<lambda>payload.
       sign_built_contract_payload L S input private_key payload))"

definition sign_contract_payloads ::
  "tron_lib \<Rightarrow> 'j tron_serde \<Rightarrow> signer_input \<Rightarrow> bytes \<Rightarrow>
     (tron_address \<Rightarrow> contract_payload list signer_result) \<Rightarrow> string list signer_result" where
  "sign_contract_payloads L S input private_key build_payloads =
     and_then (validate_sender L input private_key) (\<lambda>owner.
     and_then (build_payloads owner) (\<lambda>payloads.
       traverse (sign_built_contract_payload L S input private_key) payloads))"

definition build_native_transfer ::
  "tron_lib \<Rightarrow> signer_input \<Rightarrow> tron_address \<Rightarrow> string \<Rightarrow> u64 \<Rightarrow> contract_payload signer_result" where
  "build_native_transfer L input owner destination v =
     and_then (parse_address L destination) (\<lambda>to.
     and_then (fee_u64 (input_fee input)) (\<lambda>limit.
       Ok \<lparr>payload_contract = Transfer owner to v, payload_fee_limit = limit, payload_data = None\<rparr>))"

definition build_token_transfer ::
  "tron_lib \<Rightarrow> signer_input \<Rightarrow> tron_address \<Rightarrow> string \<Rightarrow> contract_payload signer_result" where
  "build_token_transfer L input owner destination =
     and_then (get_token_id (asset_ident (get_asset (input_type input)))) (\<lambda>tok.
     and_then (parse_address L destination) (\<lambda>to.
     and_then (parse_address L tok) (\<lambda>token_contract.
     and_then (encode_transfer to (input_value input)) (\<lambda>call.
     and_then (gas_limit (input_fee input)) (\<lambda>limit.
       Ok \<lparr>payload_contract = TriggerSmart owner token_contract call None None None,
           payload_fee_limit = limit, payload_data = None\<rparr>)))))"

definition build_token_approval ::
  "tron_lib \<Rightarrow> signer_input \<Rightarrow> tron_address \<Rightarrow> approval_data \<Rightarrow> contract_payload signer_result" where
  "build_token_approval L input owner appr =
     and_then (parse_hex_or_base58 L (approval_token appr)) (\<lambda>contract_address.
     and_then (parse_hex_or_base58 L (approval_spender appr)) (\<lambda>spender.
     and_then (encode_approval_max spender) (\<lambda>call.
     and_then (gas_limit (input_fee input)) (\<lambda>limit.
       Ok \<lparr>payload_contract = TriggerSmart owner contract_address call None None None,
           payload_fee_limit = limit, payload_data = None\<rparr>))))"

definition build_native_contract_transfer_swap ::
  "tron_lib \<Rightarrow> signer_input \<Rightarrow> tron_address \<Rightarrow> swap_quote_data \<Rightarrow> bytes option \<Rightarrow> contract_payload signer_result" where
  "build_native_contract_transfer_swap L input owner swap note =
     and_then (parse_hex_or_base58 L (swap_to swap)) (\<lambda>to.
     and_then (ok_or (nat_to_u64 (swap_data_value swap)) (InvalidInput ''Tron swap value is too large'')) (\<lambda>amount.
     and_then (fee_u64 (input_fee input)) (\<lambda>limit.
       Ok \<lparr>payload_contract = Transfer owner to amount, payload_fee_limit = limit, payload_data = note\<rparr>)))"

definition build_contract_call_swap ::
  "tron_lib \<Rightarrow> signer_input \<Rightarrow> tron_address \<Rightarrow> swap_quote_data \<Rightarrow> bytes \<Rightarrow> bytes option \<Rightarrow> contract_payload signer_result" where
  "build_contract_call_swap L input owner swap call_data note =
     (if call_data = [] then invalid_input_err ''Tron contract swap calldata is required''
      else and_then (parse_hex_or_base58 L (swap_to swap)) (\<lambda>contract_address.
           and_then (ok_or (nat_to_u64 (swap_data_value swap))
                       (InvalidInput ''Tron contract call value is too large'')) (\<lambda>call_value.
           and_then (gas_limit (input_fee input)) (\<lambda>limit.
             Ok \<lparr>payload_contract = TriggerSmart owner contract_address call_data
                   (if call_value \<noteq> 0 then Some call_value else None) None None,
                 payload_fee_limit = limit, payload_data = note\<rparr>))))"

definition build_contract_swap ::
  "tron_lib \<Rightarrow> signer_input \<Rightarrow> tron_address \<Rightarrow> swap_quote_data \<Rightarrow> contract_payload signer_result" where
  "build_contract_swap L input owner swap =
     and_then (if swap_call_data swap = [] then Ok [] else decode_hex (hex_decode L) (swap_call_data swap)) (\<lambda>call_data.
     and_then (case swap_memo swap of
                 None \<Rightarrow> Ok None
               | Some m \<Rightarrow> and_then (decode_hex (hex_decode L) m) (\<lambda>b. Ok (Some b))) (\<lambda>note.
       if is_token (asset_ident (get_asset (input_type input))) \<or> call_data \<noteq> []
       then build_contract_call_swap L input owner swap call_data note
       else build_native_contract_transfer_swap L input owner swap note))"

definition build_swap_payload ::
  "tron_lib \<Rightarrow> signer_input \<Rightarrow> tron_address \<Rightarrow> swap_quote_data \<Rightarrow> contract_payload signer_result" where
  "build_swap_payload L input owner swap =
     (case data_type swap of
        SwapTransfer \<Rightarrow>
          if is_token (asset_ident (get_asset (input_type input))) then build_token_transfer L input owner (swap_to swap)
          else and_then (swap_value_u64 input) (\<lambda>v. build_native_transfer L input owner (swap_to swap) v)
      | SwapContract \<Rightarrow> build_contract_swap L input owner swap)"

definition sign_transfer :: "tron_lib \<Rightarrow> 'j tron_serde \<Rightarrow> signer_input \<Rightarrow> bytes \<Rightarrow> string signer_result" where
  "sign_transfer L S input private_key = sign_contract_payload L S input private_key
     (\<lambda>owner. and_then (value_as_u64 input) (\<lambda>v.
        build_native_transfer L input owner (destination_address input) v))"

definition sign_token_transfer :: "tron_lib \<Rightarrow> 'j tron_serde \<Rightarrow> signer_input \<Rightarrow> bytes \<Rightarrow> string signer_result" where
  "sign_token_transfer L S input private_key = sign_contract_payload L S input private_key
     (\<lambda>owner. build_token_transfer L input owner (destination_address input))"

definition sign_token_approval :: "tron_lib \<Rightarrow> 'j tron_serde \<Rightarrow> signer_input \<Rightarrow> bytes \<Rightarrow> string signer_result" where
  "sign_token_approval L S input private_key = sign_contract_payload L S input private_key
     (\<lambda>owner. and_then (get_approval_data (input_type input)) (build_token_approval L input owner))"

definition swap_payloads ::
  "tron_lib \<Rightarrow> signer_input \<Rightarrow> swap_data \<Rightarrow> tron_address \<Rightarrow> contract_payload list signer_result" where
  "swap_payloads L input swap owner =
     and_then (build_swap_payload L input owner (quote_data swap)) (\<lambda>swap_payload.
       case (data_type (quote_data swap), approval (quote_data swap)) of
         (SwapContract, Some appr) \<Rightarrow>
           and_then (build_token_approval L input owner appr) (\<lambda>p. Ok [p, swap_payload])
       | _ \<Rightarrow> Ok [swap_payload])"

definition sign_swap :: "tron_lib \<Rightarrow> 'j tron_serde \<Rightarrow> signer_input \<Rightarrow> bytes \<Rightarrow> string list signer_result" where
  "sign_swap L S input private_key =
     and_then (get_swap_data (input_type input)) (\<lambda>swap.
       sign_contract_payloads L S input private_key (swap_payloads L input swap))"

definition stake_contracts ::
  "tron_lib \<Rightarrow> signer_input \<Rightarrow> stake_type \<Rightarrow> tron_stake_data \<Rightarrow> tron_address \<Rightarrow> tron_contract list signer_result" where
  "stake_contracts L input st stake_data owner =
     (case st of
        Stake \<Rightarrow> (case stake_data of
            Votes votes \<Rightarrow> and_then (vote_witness L owner votes) (\<lambda>c. Ok [c])
          | Unfreezes _ \<Rightarrow> invalid_input_err ''Expected Tron vote stake data'')
      | Redelegate \<Rightarrow> (case stake_data of
            Votes votes \<Rightarrow> and_then (vote_witness L owner votes) (\<lambda>c. Ok [c])
          | Unfreezes _ \<Rightarrow> invalid_input_err ''Expected Tron vote stake data'')
      | Unstake \<Rightarrow> (case stake_data of
            Votes votes \<Rightarrow> and_then (vote_witness L owner votes) (\<lambda>c. Ok [c])
          | Unfreezes us \<Rightarrow> Ok (map (\<lambda>u. UnfreezeBalanceV2 owner (unfreeze_amount u) (unfreeze_resource u)) us))
      | Rewards \<Rightarrow> Ok [WithdrawBalance owner]
      | Withdraw \<Rightarrow> Ok [WithdrawExpireUnfreeze owner]
      | Freeze res \<Rightarrow> and_then (value_as_u64 input) (\<lambda>v. Ok [FreezeBalanceV2 owner v res])
      | Unfreeze res \<Rightarrow> and_then (value_as_u64 input) (\<lambda>v. Ok [UnfreezeBalanceV2 owner v res]))"

definition sign_stake :: "tron_lib \<Rightarrow> 'j tron_serde \<Rightarrow> signer_input \<Rightarrow> bytes \<Rightarrow> string list signer_result" where
  "sign_stake L S input private_key =
     and_then (get_stake_type (input_type input)) (\<lambda>st.
     and_then (fee_u64 (input_fee input)) (\<lambda>limit.
       case metadata input of
         TronMeta _ _ _ _ _ _ stake_data \<Rightarrow>
           sign_contract_payloads L S input private_key (\<lambda>owner.
             and_then (stake_contracts L input st stake_data owner) (\<lambda>cs.
               Ok (map (\<lambda>c. \<lparr>payload_contract = c, payload_fee_limit = limit, payload_data = None\<rparr>) cs)))
       | _ \<Rightarrow> invalid_input_err ''Missing tron metadata''))"

definition sign_data :: "tron_lib \<Rightarrow> 'j tron_serde \<Rightarrow> signer_input \<Rightarrow> bytes \<Rightarrow> string signer_result" where
  "sign_data L S input private_key =
     and_then (validate_sender L input private_key) (\<lambda>_.
     and_then (get_generic_data (input_type input)) (\<lambda>ext.
     and_then (ok_or (extra_data ext) (InvalidInput ''Missing transaction data'')) (\<lambda>data.
     and_then (parse_request S data) (\<lambda>t.
     and_then (wc_hash L S t) (\<lambda>transaction_hash.
     and_then (sign_raw_hash L transaction_hash private_key) (\<lambda>signature.
       case output_type ext of
         Signature \<Rightarrow> Ok signature
       | EncodedTransaction \<Rightarrow> into_signed_json S t (hex_encode L transaction_hash) signature))))))"

end
