(* ===== verification/Tron_Binding.thy ===== *)
theory Tron_Binding
  imports Tron
begin

text \<open>
  What a Tron signature commits to. Each message of \<open>protobuf.rs\<close> gets the decoder a node would
  use (\<open>proto_decode\<close> on the same field numbers); the two are shown inverse to each other, message
  by message, as interpretations of \<open>message_codec\<close>. The bytes that are hashed and signed
  therefore determine the contract and every other field of the transaction.
\<close>

section \<open>Reference decoders\<close>

abbreviation slot ::
  "('m \<Rightarrow> 'v) \<Rightarrow> (('v \<Rightarrow> 'v) \<Rightarrow> 'm \<Rightarrow> 'm) \<Rightarrow> ('v \<Rightarrow> field \<Rightarrow> 'v message_result) \<Rightarrow> 'm \<Rightarrow> field \<Rightarrow> 'm message_result" where
  "slot get upd dec \<equiv> into_field get (\<lambda>v. upd (\<lambda>_. v)) dec"

definition any_parameter_decode :: "bytes \<Rightarrow> any_parameter message_result" where
  "any_parameter_decode = proto_decode \<lparr>any_type_url = None, any_value = None\<rparr>
     [(1, slot any_type_url any_type_url_update optional_string_decode),
      (2, slot any_value any_value_update optional_bytes_decode)]"

definition any_parameter_valid :: "any_parameter \<Rightarrow> bool" where
  "any_parameter_valid m \<longleftrightarrow> present_string (any_type_url m) \<and> present_bytes (any_value m)
     \<and> length (any_parameter_encode m) < 2 ^ 64"

lemma lens_record: "(\<And>v m. get (upd (\<lambda>_. v) m) = v) \<Longrightarrow> (\<And>v v' m. upd (\<lambda>_. v) (upd (\<lambda>_. v') m) = upd (\<lambda>_. v) m)
   \<Longrightarrow> (\<And>m. upd (\<lambda>_. get m) m = m) \<Longrightarrow> lens get (\<lambda>v. upd (\<lambda>_. v))"
  by (simp add: lens_def)

lemmas message_codec_simps = proto_encode_def proto_decode_eq opt_bytes.enc_fields opt_string.enc_fields
  opt_u64.enc_fields opt_bool.enc_fields concat_append [symmetric] map_append [symmetric]

interpretation any_parameter: message_codec any_parameter_encode any_parameter_decode any_parameter_valid
proof
  fix m assume v: "any_parameter_valid m"
  have enc: "any_parameter_encode m = concat (map encode_field (bytes_fields 1 (any_type_url m) @ bytes_fields 2 (any_value m)))"
    using v by (simp add: any_parameter_encode_def any_parameter_valid_def proto_encode_def
        opt_bytes.enc_fields opt_string.enc_fields)
  show "any_parameter_decode (any_parameter_encode m) = Ok m"
    using v unfolding any_parameter_decode_def proto_decode_eq any_parameter_valid_def enc
    by (subst visit_fields_encode)
      (simp_all add: try_fold_append lens_record
        opt_string.message_step [where get = any_type_url and put = "\<lambda>v. any_type_url_update (\<lambda>_. v)"]
        opt_bytes.message_step [where get = any_value and put = "\<lambda>v. any_value_update (\<lambda>_. v)"])
qed

definition contract_envelope_decode :: "bytes \<Rightarrow> contract_envelope message_result" where
  "contract_envelope_decode = proto_decode \<lparr>contract_type = None, parameter = None\<rparr>
     [(1, slot contract_type contract_type_update optional_varint_u64_decode),
      (2, slot parameter parameter_update (optional_message_decode any_parameter_decode))]"

definition contract_envelope_valid :: "contract_envelope \<Rightarrow> bool" where
  "contract_envelope_valid m \<longleftrightarrow> (case parameter m of None \<Rightarrow> True | Some q \<Rightarrow> any_parameter_valid q \<and> any_parameter_encode q \<noteq> [])
     \<and> length (contract_envelope_encode m) < 2 ^ 64"

interpretation contract_envelope: message_codec contract_envelope_encode contract_envelope_decode contract_envelope_valid
proof
  fix m assume v: "contract_envelope_valid m"
  have enc: "contract_envelope_encode m = concat (map encode_field
     (varint_fields id 1 (contract_type m)
      @ any_parameter.opt_fields 2 (parameter m)))"
    using v by (simp add: contract_envelope_encode_def contract_envelope_valid_def proto_encode_def
        any_parameter.opt.enc_fields opt_u64.enc_fields)
  show "contract_envelope_decode (contract_envelope_encode m) = Ok m"
    using v unfolding contract_envelope_decode_def proto_decode_eq contract_envelope_valid_def enc
    by (subst visit_fields_encode)
      (simp_all add: try_fold_append lens_record
        opt_u64.message_step [where get = contract_type and put = "\<lambda>v. contract_type_update (\<lambda>_. v)"]
        any_parameter.opt.message_step [where get = parameter and put = "\<lambda>v. parameter_update (\<lambda>_. v)"])
qed

definition raw_data_decode :: "bytes \<Rightarrow> raw_data message_result" where
  "raw_data_decode = proto_decode \<lparr>rd_ref_block_bytes = None, rd_ref_block_hash = None, rd_expiration = None, rd_data = None, rd_contracts = [], rd_timestamp = None, rd_fee_limit = None\<rparr>
     [(1, slot rd_ref_block_bytes rd_ref_block_bytes_update optional_bytes_decode),
      (4, slot rd_ref_block_hash rd_ref_block_hash_update optional_bytes_decode),
      (8, slot rd_expiration rd_expiration_update optional_varint_u64_decode),
      (10, slot rd_data rd_data_update optional_bytes_decode),
      (11, slot rd_contracts rd_contracts_update (repeated_message_decode contract_envelope_decode)),
      (14, slot rd_timestamp rd_timestamp_update optional_varint_u64_decode),
      (18, slot rd_fee_limit rd_fee_limit_update optional_varint_u64_decode)]"

definition raw_data_valid :: "raw_data \<Rightarrow> bool" where
  "raw_data_valid m \<longleftrightarrow> present_bytes (rd_ref_block_bytes m)
     \<and> present_bytes (rd_ref_block_hash m)
     \<and> present_bytes (rd_data m)
     \<and> list_all (\<lambda>q. contract_envelope_valid q \<and> contract_envelope_encode q \<noteq> []) (rd_contracts m)
     \<and> length (raw_data_encode m) < 2 ^ 64"

interpretation raw_data: message_codec raw_data_encode raw_data_decode raw_data_valid
proof
  fix m assume v: "raw_data_valid m"
  have enc: "raw_data_encode m = concat (map encode_field
     (bytes_fields 1 (rd_ref_block_bytes m)
      @ bytes_fields 4 (rd_ref_block_hash m)
      @ varint_fields id 8 (rd_expiration m)
      @ bytes_fields 10 (rd_data m)
      @ contract_envelope.rep_fields 11 (rd_contracts m)
      @ varint_fields id 14 (rd_timestamp m)
      @ varint_fields id 18 (rd_fee_limit m)))"
    using v by (simp add: raw_data_encode_def raw_data_valid_def proto_encode_def
        contract_envelope.rep.enc_fields opt_bytes.enc_fields opt_u64.enc_fields)
  show "raw_data_decode (raw_data_encode m) = Ok m"
    using v unfolding raw_data_decode_def proto_decode_eq raw_data_valid_def enc
    by (subst visit_fields_encode)
      (simp_all add: try_fold_append lens_record
        opt_bytes.message_step [where get = rd_ref_block_bytes and put = "\<lambda>v. rd_ref_block_bytes_update (\<lambda>_. v)"]
        opt_bytes.message_step [where get = rd_ref_block_hash and put = "\<lambda>v. rd_ref_block_hash_update (\<lambda>_. v)"]
        opt_u64.message_step [where get = rd_expiration and put = "\<lambda>v. rd_expiration_update (\<lambda>_. v)"]
        opt_bytes.message_step [where get = rd_data and put = "\<lambda>v. rd_data_update (\<lambda>_. v)"]
        contract_envelope.rep.message_step [where get = rd_contracts and put = "\<lambda>v. rd_contracts_update (\<lambda>_. v)"]
        opt_u64.message_step [where get = rd_timestamp and put = "\<lambda>v. rd_timestamp_update (\<lambda>_. v)"]
        opt_u64.message_step [where get = rd_fee_limit and put = "\<lambda>v. rd_fee_limit_update (\<lambda>_. v)"])
qed

definition transfer_contract_decode :: "bytes \<Rightarrow> transfer_contract message_result" where
  "transfer_contract_decode = proto_decode \<lparr>tc_owner_address = None, tc_to_address = None, tc_amount = None\<rparr>
     [(1, slot tc_owner_address tc_owner_address_update optional_bytes_decode),
      (2, slot tc_to_address tc_to_address_update optional_bytes_decode),
      (3, slot tc_amount tc_amount_update optional_varint_u64_decode)]"

definition transfer_contract_valid :: "transfer_contract \<Rightarrow> bool" where
  "transfer_contract_valid m \<longleftrightarrow> present_bytes (tc_owner_address m)
     \<and> present_bytes (tc_to_address m)
     \<and> length (transfer_contract_encode m) < 2 ^ 64"

interpretation transfer_contract: message_codec transfer_contract_encode transfer_contract_decode transfer_contract_valid
proof
  fix m assume v: "transfer_contract_valid m"
  have enc: "transfer_contract_encode m = concat (map encode_field
     (bytes_fields 1 (tc_owner_address m)
      @ bytes_fields 2 (tc_to_address m)
      @ varint_fields id 3 (tc_amount m)))"
    using v by (simp add: transfer_contract_encode_def transfer_contract_valid_def proto_encode_def
        opt_bytes.enc_fields opt_u64.enc_fields)
  show "transfer_contract_decode (transfer_contract_encode m) = Ok m"
    using v unfolding transfer_contract_decode_def proto_decode_eq transfer_contract_valid_def enc
    by (subst visit_fields_encode)
      (simp_all add: try_fold_append lens_record
        opt_bytes.message_step [where get = tc_owner_address and put = "\<lambda>v. tc_owner_address_update (\<lambda>_. v)"]
        opt_bytes.message_step [where get = tc_to_address and put = "\<lambda>v. tc_to_address_update (\<lambda>_. v)"]
        opt_u64.message_step [where get = tc_amount and put = "\<lambda>v. tc_amount_update (\<lambda>_. v)"])
qed

definition trigger_smart_contract_decode :: "bytes \<Rightarrow> trigger_smart_contract message_result" where
  "trigger_smart_contract_decode = proto_decode \<lparr>ts_owner_address = None, ts_contract_address = None, ts_call_value = None, ts_data = None, ts_call_token_value = None, ts_token_id = None\<rparr>
     [(1, slot ts_owner_address ts_owner_address_update optional_bytes_decode),
      (2, slot ts_contract_address ts_contract_address_update optional_bytes_decode),
      (3, slot ts_call_value ts_call_value_update optional_varint_u64_decode),
      (4, slot ts_data ts_data_update optional_bytes_decode),
      (5, slot ts_call_token_value ts_call_token_value_update optional_varint_u64_decode),
      (6, slot ts_token_id ts_token_id_update optional_varint_u64_decode)]"

definition trigger_smart_contract_valid :: "trigger_smart_contract \<Rightarrow> bool" where
  "trigger_smart_contract_valid m \<longleftrightarrow> present_bytes (ts_owner_address m)
     \<and> present_bytes (ts_contract_address m)
     \<and> present_bytes (ts_data m)
     \<and> length (trigger_smart_contract_encode m) < 2 ^ 64"

interpretation trigger_smart_contract: message_codec trigger_smart_contract_encode trigger_smart_contract_decode trigger_smart_contract_valid
proof
  fix m assume v: "trigger_smart_contract_valid m"
  have enc: "trigger_smart_contract_encode m = concat (map encode_field
     (bytes_fields 1 (ts_owner_address m)
      @ bytes_fields 2 (ts_contract_address m)
      @ varint_fields id 3 (ts_call_value m)
      @ bytes_fields 4 (ts_data m)
      @ varint_fields id 5 (ts_call_token_value m)
      @ varint_fields id 6 (ts_token_id m)))"
    using v by (simp add: trigger_smart_contract_encode_def trigger_smart_contract_valid_def proto_encode_def
        opt_bytes.enc_fields opt_u64.enc_fields)
  show "trigger_smart_contract_decode (trigger_smart_contract_encode m) = Ok m"
    using v unfolding trigger_smart_contract_decode_def proto_decode_eq trigger_smart_contract_valid_def enc
    by (subst visit_fields_encode)
      (simp_all add: try_fold_append lens_record
        opt_bytes.message_step [where get = ts_owner_address and put = "\<lambda>v. ts_owner_address_update (\<lambda>_. v)"]
        opt_bytes.message_step [where get = ts_contract_address and put = "\<lambda>v. ts_contract_address_update (\<lambda>_. v)"]
        opt_u64.message_step [where get = ts_call_value and put = "\<lambda>v. ts_call_value_update (\<lambda>_. v)"]
        opt_bytes.message_step [where get = ts_data and put = "\<lambda>v. ts_data_update (\<lambda>_. v)"]
        opt_u64.message_step [where get = ts_call_token_value and put = "\<lambda>v. ts_call_token_value_update (\<lambda>_. v)"]
        opt_u64.message_step [where get = ts_token_id and put = "\<lambda>v. ts_token_id_update (\<lambda>_. v)"])
qed

definition vote_decode :: "bytes \<Rightarrow> vote message_result" where
  "vote_decode = proto_decode \<lparr>v_vote_address = None, v_vote_count = None\<rparr>
     [(1, slot v_vote_address v_vote_address_update optional_bytes_decode),
      (2, slot v_vote_count v_vote_count_update optional_varint_u64_decode)]"

definition vote_valid :: "vote \<Rightarrow> bool" where
  "vote_valid m \<longleftrightarrow> present_bytes (v_vote_address m)
     \<and> length (vote_encode m) < 2 ^ 64"

interpretation vote: message_codec vote_encode vote_decode vote_valid
proof
  fix m assume v: "vote_valid m"
  have enc: "vote_encode m = concat (map encode_field
     (bytes_fields 1 (v_vote_address m)
      @ varint_fields id 2 (v_vote_count m)))"
    using v by (simp add: vote_encode_def vote_valid_def proto_encode_def
        opt_bytes.enc_fields opt_u64.enc_fields)
  show "vote_decode (vote_encode m) = Ok m"
    using v unfolding vote_decode_def proto_decode_eq vote_valid_def enc
    by (subst visit_fields_encode)
      (simp_all add: try_fold_append lens_record
        opt_bytes.message_step [where get = v_vote_address and put = "\<lambda>v. v_vote_address_update (\<lambda>_. v)"]
        opt_u64.message_step [where get = v_vote_count and put = "\<lambda>v. v_vote_count_update (\<lambda>_. v)"])
qed

definition vote_witness_contract_decode :: "bytes \<Rightarrow> vote_witness_contract message_result" where
  "vote_witness_contract_decode = proto_decode \<lparr>vw_owner_address = None, vw_votes = [], vw_support = None\<rparr>
     [(1, slot vw_owner_address vw_owner_address_update optional_bytes_decode),
      (2, slot vw_votes vw_votes_update (repeated_message_decode vote_decode)),
      (3, slot vw_support vw_support_update optional_bool_decode)]"

definition vote_witness_contract_valid :: "vote_witness_contract \<Rightarrow> bool" where
  "vote_witness_contract_valid m \<longleftrightarrow> present_bytes (vw_owner_address m)
     \<and> list_all (\<lambda>q. vote_valid q \<and> vote_encode q \<noteq> []) (vw_votes m)
     \<and> length (vote_witness_contract_encode m) < 2 ^ 64"

interpretation vote_witness_contract: message_codec vote_witness_contract_encode vote_witness_contract_decode vote_witness_contract_valid
proof
  fix m assume v: "vote_witness_contract_valid m"
  have enc: "vote_witness_contract_encode m = concat (map encode_field
     (bytes_fields 1 (vw_owner_address m)
      @ vote.rep_fields 2 (vw_votes m)
      @ varint_fields of_bool 3 (vw_support m)))"
    using v by (simp add: vote_witness_contract_encode_def vote_witness_contract_valid_def proto_encode_def
        opt_bool.enc_fields opt_bytes.enc_fields vote.rep.enc_fields)
  show "vote_witness_contract_decode (vote_witness_contract_encode m) = Ok m"
    using v unfolding vote_witness_contract_decode_def proto_decode_eq vote_witness_contract_valid_def enc
    by (subst visit_fields_encode)
      (simp_all add: try_fold_append lens_record
        opt_bytes.message_step [where get = vw_owner_address and put = "\<lambda>v. vw_owner_address_update (\<lambda>_. v)"]
        vote.rep.message_step [where get = vw_votes and put = "\<lambda>v. vw_votes_update (\<lambda>_. v)"]
        opt_bool.message_step [where get = vw_support and put = "\<lambda>v. vw_support_update (\<lambda>_. v)"])
qed

definition freeze_balance_v2_contract_decode :: "bytes \<Rightarrow> freeze_balance_v2_contract message_result" where
  "freeze_balance_v2_contract_decode = proto_decode \<lparr>fb_owner_address = None, fb_frozen_balance = None, fb_resource = None\<rparr>
     [(1, slot fb_owner_address fb_owner_address_update optional_bytes_decode),
      (2, slot fb_frozen_balance fb_frozen_balance_update optional_varint_u64_decode),
      (3, slot fb_resource fb_resource_update optional_varint_u64_decode)]"

definition freeze_balance_v2_contract_valid :: "freeze_balance_v2_contract \<Rightarrow> bool" where
  "freeze_balance_v2_contract_valid m \<longleftrightarrow> present_bytes (fb_owner_address m)
     \<and> length (freeze_balance_v2_contract_encode m) < 2 ^ 64"

interpretation freeze_balance_v2_contract: message_codec freeze_balance_v2_contract_encode freeze_balance_v2_contract_decode freeze_balance_v2_contract_valid
proof
  fix m assume v: "freeze_balance_v2_contract_valid m"
  have enc: "freeze_balance_v2_contract_encode m = concat (map encode_field
     (bytes_fields 1 (fb_owner_address m)
      @ varint_fields id 2 (fb_frozen_balance m)
      @ varint_fields id 3 (fb_resource m)))"
    using v by (simp add: freeze_balance_v2_contract_encode_def freeze_balance_v2_contract_valid_def proto_encode_def
        opt_bytes.enc_fields opt_u64.enc_fields)
  show "freeze_balance_v2_contract_decode (freeze_balance_v2_contract_encode m) = Ok m"
    using v unfolding freeze_balance_v2_contract_decode_def proto_decode_eq freeze_balance_v2_contract_valid_def enc
    by (subst visit_fields_encode)
      (simp_all add: try_fold_append lens_record
        opt_bytes.message_step [where get = fb_owner_address and put = "\<lambda>v. fb_owner_address_update (\<lambda>_. v)"]
        opt_u64.message_step [where get = fb_frozen_balance and put = "\<lambda>v. fb_frozen_balance_update (\<lambda>_. v)"]
        opt_u64.message_step [where get = fb_resource and put = "\<lambda>v. fb_resource_update (\<lambda>_. v)"])
qed

definition unfreeze_balance_v2_contract_decode :: "bytes \<Rightarrow> unfreeze_balance_v2_contract message_result" where
  "unfreeze_balance_v2_contract_decode = proto_decode \<lparr>ub_owner_address = None, ub_unfreeze_balance = None, ub_resource = None\<rparr>
     [(1, slot ub_owner_address ub_owner_address_update optional_bytes_decode),
      (2, slot ub_unfreeze_balance ub_unfreeze_balance_update optional_varint_u64_decode),
      (3, slot ub_resource ub_resource_update optional_varint_u64_decode)]"

definition unfreeze_balance_v2_contract_valid :: "unfreeze_balance_v2_contract \<Rightarrow> bool" where
  "unfreeze_balance_v2_contract_valid m \<longleftrightarrow> present_bytes (ub_owner_address m)
     \<and> length (unfreeze_balance_v2_contract_encode m) < 2 ^ 64"

interpretation unfreeze_balance_v2_contract: message_codec unfreeze_balance_v2_contract_encode unfreeze_balance_v2_contract_decode unfreeze_balance_v2_contract_valid
proof
  fix m assume v: "unfreeze_balance_v2_contract_valid m"
  have enc: "unfreeze_balance_v2_contract_encode m = concat (map encode_field
     (bytes_fields 1 (ub_owner_address m)
      @ varint_fields id 2 (ub_unfreeze_balance m)
      @ varint_fields id 3 (ub_resource m)))"
    using v by (simp add: unfreeze_balance_v2_contract_encode_def unfreeze_balance_v2_contract_valid_def proto_encode_def
        opt_bytes.enc_fields opt_u64.enc_fields)
  show "unfreeze_balance_v2_contract_decode (unfreeze_balance_v2_contract_encode m) = Ok m"
    using v unfolding unfreeze_balance_v2_contract_decode_def proto_decode_eq unfreeze_balance_v2_contract_valid_def enc
    by (subst visit_fields_encode)
      (simp_all add: try_fold_append lens_record
        opt_bytes.message_step [where get = ub_owner_address and put = "\<lambda>v. ub_owner_address_update (\<lambda>_. v)"]
        opt_u64.message_step [where get = ub_unfreeze_balance and put = "\<lambda>v. ub_unfreeze_balance_update (\<lambda>_. v)"]
        opt_u64.message_step [where get = ub_resource and put = "\<lambda>v. ub_resource_update (\<lambda>_. v)"])
qed

definition owner_contract_decode :: "bytes \<Rightarrow> owner_contract message_result" where
  "owner_contract_decode = proto_decode \<lparr>oc_owner_address = None\<rparr>
     [(1, slot oc_owner_address oc_owner_address_update optional_bytes_decode)]"

definition owner_contract_valid :: "owner_contract \<Rightarrow> bool" where
  "owner_contract_valid m \<longleftrightarrow> present_bytes (oc_owner_address m)
     \<and> length (owner_contract_encode m) < 2 ^ 64"

interpretation owner_contract: message_codec owner_contract_encode owner_contract_decode owner_contract_valid
proof
  fix m assume v: "owner_contract_valid m"
  have enc: "owner_contract_encode m = concat (map encode_field
     (bytes_fields 1 (oc_owner_address m)))"
    using v by (simp add: owner_contract_encode_def owner_contract_valid_def proto_encode_def
        opt_bytes.enc_fields)
  show "owner_contract_decode (owner_contract_encode m) = Ok m"
    using v unfolding owner_contract_decode_def proto_decode_eq owner_contract_valid_def enc
    by (subst visit_fields_encode)
      (simp_all add: try_fold_append lens_record
        opt_bytes.message_step [where get = oc_owner_address and put = "\<lambda>v. oc_owner_address_update (\<lambda>_. v)"])
qed

section \<open>What the signed bytes determine\<close>

text \<open>
  Two values that the encoder writes the same way: an absent and a zero amount (the code filters
  both), an absent and an empty note. \<open>normal_contract\<close> and \<open>normal_raw_data\<close> choose the absent one.
\<close>

definition filter_bytes :: "bytes option \<Rightarrow> bytes option" where
  "filter_bytes v = (case v of None \<Rightarrow> None | Some b \<Rightarrow> if b = [] then None else Some b)"

fun normal_contract :: "tron_contract \<Rightarrow> tron_contract" where
  "normal_contract (TriggerSmart owner target data call_value call_token_value tok) =
     TriggerSmart owner target data (filter_pos call_value) (filter_pos call_token_value) (filter_pos tok)"
| "normal_contract c = c"

definition normal_raw_data :: "tron_raw_data \<Rightarrow> tron_raw_data" where
  "normal_raw_data r = r\<lparr>extra := filter_bytes (extra r), contract := normal_contract (contract r)\<rparr>"

text \<open>\<open>TronAddress\<close> wraps \<open>[u8; 21]\<close>.\<close>

definition address_wf :: "tron_address \<Rightarrow> bool" where
  "address_wf a \<longleftrightarrow> length a = PREFIXED_ADDRESS_LEN"

fun contract_owner :: "tron_contract \<Rightarrow> tron_address" where
  "contract_owner (Transfer owner _ _) = owner"
| "contract_owner (TriggerSmart owner _ _ _ _ _) = owner"
| "contract_owner (VoteWitness owner _ _) = owner"
| "contract_owner (FreezeBalanceV2 owner _ _) = owner"
| "contract_owner (UnfreezeBalanceV2 owner _ _) = owner"
| "contract_owner (WithdrawBalance owner) = owner"
| "contract_owner (WithdrawExpireUnfreeze owner) = owner"

fun contract_wf :: "tron_contract \<Rightarrow> bool" where
  "contract_wf (Transfer owner to _) = (address_wf owner \<and> address_wf to)"
| "contract_wf (TriggerSmart owner target _ _ _ _) = (address_wf owner \<and> address_wf target)"
| "contract_wf (VoteWitness owner votes _) = (address_wf owner \<and> list_all (\<lambda>v. address_wf (vote_address v)) votes)"
| "contract_wf c = address_wf (contract_owner c)"

lemma optional_bytes_filter: "optional_bytes_encode n (filter_bytes v) = optional_bytes_encode n v"
  by (auto simp: filter_bytes_def optional_bytes_encode_def encode_optional_bytes_field_def
      encode_bytes_field_def split: option.splits)

lemma present_filter_bytes [simp]: "present_bytes (filter_bytes v)"
  by (auto simp: filter_bytes_def present_bytes_def split: option.splits)

lemma filter_bytes_Some_eq: "filter_bytes (Some a) = filter_bytes (Some b) \<longleftrightarrow> a = b"
  by (auto simp: filter_bytes_def split: if_splits)

lemma present_address [simp]: "address_wf a \<Longrightarrow> present_bytes (Some a)"
  by (auto simp: address_wf_def present_bytes_def address_consts)

lemma then_some_pos_eq: "then_some_pos a = then_some_pos b \<longleftrightarrow> a = b"
  by (auto simp: then_some_pos_def word_gt_0 split: if_splits)

lemma resource_to_u64_inj: "resource_to_u64 a = resource_to_u64 b \<longleftrightarrow> a = b"
  by (cases a; cases b) auto

lemma length_encode_bytes_field: "length b \<le> length (encode_bytes_field n b)"
  by (auto simp: encode_bytes_field_def Let_def)

lemma encode_bytes_field_Nil_iff: "encode_bytes_field n b = [] \<longleftrightarrow> b = []"
  using encode_varint_length [of "of_nat (length b)"] by (auto simp: encode_bytes_field_def Let_def)

lemma vote_from_inj: "vote_from v = vote_from w \<longleftrightarrow> v = w"
  by (auto simp: vote_from_def then_some_pos_eq)

lemma vote_from_codec:
  assumes "address_wf (vote_address v)" and "length (vote_encode (vote_from v)) < 2 ^ 64"
  shows "vote_valid (vote_from v) \<and> vote_encode (vote_from v) \<noteq> []"
  using assms by (auto simp: vote_valid_def vote_from_def vote_encode_def proto_encode_def
      optional_bytes_encode_def encode_optional_bytes_field_def encode_bytes_field_Nil_iff
      address_wf_def address_consts)

lemma length_repeated_message:
  "m \<in> set ms \<Longrightarrow> length (enc m) \<le> length (repeated_message_encode enc n ms)"
proof (induction ms)
  case Nil
  then show ?case by simp
next
  case (Cons a ms)
  have "length (enc a) \<le> length (encode_message_field n (enc a))"
    by (auto simp: encode_message_field_def length_encode_bytes_field)
  with Cons show ?case by (auto simp: repeated_message_encode_def intro: trans_le_add1 trans_le_add2)
qed

lemma trigger_normal:
  "trigger_smart_contract_encode (m\<lparr>ts_data := filter_bytes (ts_data m)\<rparr>) = trigger_smart_contract_encode m"
  by (simp add: trigger_smart_contract_encode_def proto_encode_def optional_bytes_filter)

lemma trigger_value_inj:
  assumes "contract_value (TriggerSmart o1 t1 d1 a1 b1 c1) = contract_value (TriggerSmart o2 t2 d2 a2 b2 c2)"
    and "contract_wf (TriggerSmart o1 t1 d1 a1 b1 c1)" "contract_wf (TriggerSmart o2 t2 d2 a2 b2 c2)"
    and "length (contract_value (TriggerSmart o1 t1 d1 a1 b1 c1)) < 2 ^ 64"
  shows "normal_contract (TriggerSmart o1 t1 d1 a1 b1 c1) = normal_contract (TriggerSmart o2 t2 d2 a2 b2 c2)"
proof -
  let ?m = "\<lambda>own t d a b c. \<lparr>ts_owner_address = Some own, ts_contract_address = Some t,
        ts_call_value = filter_pos a, ts_data = filter_bytes (Some d),
        ts_call_token_value = filter_pos b, ts_token_id = filter_pos c\<rparr>"
  have enc: "contract_value (TriggerSmart own t d a b c) = trigger_smart_contract_encode (?m own t d a b c)"
    for own t d a b c
    using trigger_normal [of "\<lparr>ts_owner_address = Some own, ts_contract_address = Some t,
        ts_call_value = filter_pos a, ts_data = Some d,
        ts_call_token_value = filter_pos b, ts_token_id = filter_pos c\<rparr>"] by simp
  have "?m o1 t1 d1 a1 b1 c1 = ?m o2 t2 d2 a2 b2 c2"
    by (rule trigger_smart_contract.encode_inj)
      (use assms in \<open>simp_all add: enc trigger_smart_contract_valid_def del: contract_value.simps\<close>)
  then show ?thesis by (simp add: filter_bytes_Some_eq)
qed

lemma vote_value_inj:
  assumes "contract_value (VoteWitness o1 v1 s1) = contract_value (VoteWitness o2 v2 s2)"
    and "contract_wf (VoteWitness o1 v1 s1)" "contract_wf (VoteWitness o2 v2 s2)"
    and "length (contract_value (VoteWitness o1 v1 s1)) < 2 ^ 64"
  shows "VoteWitness o1 v1 s1 = VoteWitness o2 v2 s2"
proof -
  let ?m = "\<lambda>own vs s. \<lparr>vw_owner_address = Some own, vw_votes = map vote_from vs,
      vw_support = (if s then Some True else None)\<rparr>"
  have valid: "vote_witness_contract_valid (?m own vs s)"
    if "contract_wf (VoteWitness own vs s)" "length (vote_witness_contract_encode (?m own vs s)) < 2 ^ 64"
    for own vs s
  proof -
    have "length (vote_encode (vote_from v)) < 2 ^ 64" if "v \<in> set vs" for v
      using length_repeated_message [of "vote_from v" "map vote_from vs" vote_encode 2] that
        \<open>length (vote_witness_contract_encode (?m own vs s)) < 2 ^ 64\<close>
      by (simp add: vote_witness_contract_encode_def proto_encode_def)
    with that show ?thesis
      by (auto simp: vote_witness_contract_valid_def list_all_iff dest!: vote_from_codec)
  qed
  have "?m o1 v1 s1 = ?m o2 v2 s2"
    by (rule vote_witness_contract.encode_inj) (use assms in \<open>simp_all add: valid\<close>)
  then show ?thesis
    by (auto simp: vote_from_inj inj_def dest!: map_injective split: if_splits)
qed

lemma contract_value_inj:
  assumes "contract_value c = contract_value d" and "contract_kind c = contract_kind d"
    and "contract_wf c" "contract_wf d" and "length (contract_value c) < 2 ^ 64"
  shows "normal_contract c = normal_contract d"
proof -
  have fits: "length (contract_value d) < 2 ^ 64" using assms(1,5) by simp
  show ?thesis
  proof (cases c)
    case (Transfer own1 to1 amount1)
    then obtain own2 to2 amount2 where d: "d = Transfer own2 to2 amount2" using assms(2) by (cases d) auto
    note eq = assms(1) [unfolded Transfer d contract_value.simps]
    show ?thesis
      using transfer_contract.encode_inj [OF eq] assms(3-5) fits by (simp add: Transfer d transfer_contract_valid_def then_some_pos_eq)
  next
    case (TriggerSmart own1 target1 data1 cv1 ctv1 tok1)
    with assms show ?thesis
      by (cases d) (auto simp del: contract_value.simps normal_contract.simps contract_wf.simps intro: trigger_value_inj)
  next
    case (VoteWitness own1 votes1 support1)
    then obtain own2 votes2 support2 where d: "d = VoteWitness own2 votes2 support2"
      using assms(2) by (cases d) auto
    show ?thesis
      using vote_value_inj [OF assms(1,3,4,5) [unfolded VoteWitness d]] by (simp add: VoteWitness d)
  next
    case (FreezeBalanceV2 own1 amount1 res1)
    then obtain own2 amount2 res2 where d: "d = FreezeBalanceV2 own2 amount2 res2" using assms(2) by (cases d) auto
    note eq = assms(1) [unfolded FreezeBalanceV2 d contract_value.simps]
    show ?thesis
      using freeze_balance_v2_contract.encode_inj [OF eq] assms(3-5) fits by (simp add: FreezeBalanceV2 d freeze_balance_v2_contract_valid_def then_some_pos_eq resource_to_u64_inj)
  next
    case (UnfreezeBalanceV2 own1 amount1 res1)
    then obtain own2 amount2 res2 where d: "d = UnfreezeBalanceV2 own2 amount2 res2" using assms(2) by (cases d) auto
    note eq = assms(1) [unfolded UnfreezeBalanceV2 d contract_value.simps]
    show ?thesis
      using unfreeze_balance_v2_contract.encode_inj [OF eq] assms(3-5) fits by (simp add: UnfreezeBalanceV2 d unfreeze_balance_v2_contract_valid_def then_some_pos_eq resource_to_u64_inj)
  next
    case (WithdrawBalance own1)
    then obtain own2 where d: "d = WithdrawBalance own2" using assms(2) by (cases d) auto
    note eq = assms(1) [unfolded WithdrawBalance d contract_value.simps]
    show ?thesis
      using owner_contract.encode_inj [OF eq] assms(3-5) fits by (simp add: WithdrawBalance d owner_contract_valid_def)
  next
    case (WithdrawExpireUnfreeze own1)
    then obtain own2 where d: "d = WithdrawExpireUnfreeze own2" using assms(2) by (cases d) auto
    note eq = assms(1) [unfolded WithdrawExpireUnfreeze d contract_value.simps]
    show ?thesis
      using owner_contract.encode_inj [OF eq] assms(3-5) fits by (simp add: WithdrawExpireUnfreeze d owner_contract_valid_def)
  qed
qed

lemma contract_type_id_inj: "contract_type_id s = contract_type_id t \<longleftrightarrow> s = t"
  by (cases s; cases t) simp_all

lemma ascii_valid_utf8: "list_all (\<lambda>c. (of_char c :: u8) < 0x80) s \<Longrightarrow> valid_utf8 (as_bytes s)"
proof (induction s)
  case (Cons c s)
  then show ?case
    using utf8_chars_append_char [of "[of_char c]" "as_bytes s"]
    by (simp add: valid_utf8_def as_bytes_def char_width_def)
qed (simp add: as_bytes_def)

lemma type_url_utf8 [simp]: "valid_utf8 (as_bytes (type_url t))"
  by (rule ascii_valid_utf8) (cases t; simp add: type_url_def)

lemma contract_value_nonempty: "contract_wf c \<Longrightarrow> contract_value c \<noteq> []"
  by (cases c) (auto simp: transfer_contract_encode_def trigger_smart_contract_encode_def
      vote_witness_contract_encode_def freeze_balance_v2_contract_encode_def
      unfreeze_balance_v2_contract_encode_def owner_contract_encode_def proto_encode_def
      optional_bytes_encode_def encode_optional_bytes_field_def encode_bytes_field_Nil_iff
      address_wf_def address_consts)

lemma any_parameter_fits:
  "length (contract_value c) \<le> length (any_parameter_encode \<lparr>any_type_url = u, any_value = Some (contract_value c)\<rparr>)"
  using length_encode_bytes_field [of "contract_value c" 2]
  by (simp add: any_parameter_encode_def proto_encode_def optional_bytes_encode_def
      encode_optional_bytes_field_def trans_le_add2)

lemma parameter_fits:
  "parameter e = Some p \<Longrightarrow> length (any_parameter_encode p) \<le> length (contract_envelope_encode e)"
  using length_encode_bytes_field [of "any_parameter_encode p" 2]
  by (auto simp: contract_envelope_encode_def proto_encode_def optional_message_encode_def
      encode_optional_message_field_def encode_message_field_def trans_le_add2)

lemma contract_envelope_from_codec:
  assumes "contract_wf c" and "length (contract_envelope_encode (contract_envelope_from c)) < 2 ^ 64"
  shows "contract_envelope_valid (contract_envelope_from c)"
    and "contract_envelope_encode (contract_envelope_from c) \<noteq> []"
    and "length (contract_value c) < 2 ^ 64"
proof -
  let ?p = "\<lparr>any_type_url = Some (as_bytes (type_url (contract_kind c))), any_value = Some (contract_value c)\<rparr>"
  have p: "parameter (contract_envelope_from c) = Some ?p"
    by (simp add: contract_envelope_from_def Let_def)
  have le: "length (contract_value c) \<le> length (any_parameter_encode ?p)"
      "length (any_parameter_encode ?p) \<le> length (contract_envelope_encode (contract_envelope_from c))"
    by (rule any_parameter_fits, rule parameter_fits [OF p])
  then show "length (contract_value c) < 2 ^ 64" using assms(2) by linarith
  have ne: "any_parameter_encode ?p \<noteq> []"
    using le(1) contract_value_nonempty [OF assms(1)] by auto
  have "type_url (contract_kind c) \<noteq> []" by (simp add: type_url_def)
  then show "contract_envelope_valid (contract_envelope_from c)"
    using assms le ne contract_value_nonempty [OF assms(1)]
    by (simp add: contract_envelope_valid_def any_parameter_valid_def p present_string_def present_bytes_def)
  show "contract_envelope_encode (contract_envelope_from c) \<noteq> []"
    using le(2) ne by auto
qed

lemma contract_envelope_from_inj:
  assumes "contract_envelope_from c = contract_envelope_from d"
    and "contract_wf c" "contract_wf d" and "length (contract_value c) < 2 ^ 64"
  shows "normal_contract c = normal_contract d"
  by (rule contract_value_inj)
    (use assms in \<open>auto simp: contract_envelope_from_def Let_def contract_type_id_inj\<close>)

lemma contracts_fit:
  "e \<in> set (rd_contracts m) \<Longrightarrow> length (contract_envelope_encode e) \<le> length (raw_data_encode m)"
  using length_repeated_message [of e "rd_contracts m" contract_envelope_encode 11]
  by (simp add: raw_data_encode_def proto_encode_def)

text \<open>The message \<open>tron_raw_data_encode\<close> builds, with the empty byte strings read back as absent.\<close>

definition raw_data_message :: "tron_raw_data \<Rightarrow> raw_data" where
  "raw_data_message r =
     \<lparr>rd_ref_block_bytes = filter_bytes (Some (ref_block_bytes r)),
      rd_ref_block_hash = filter_bytes (Some (ref_block_hash r)),
      rd_expiration = then_some_pos (expiration r), rd_data = filter_bytes (extra r),
      rd_contracts = [contract_envelope_from (contract r)],
      rd_timestamp = then_some_pos (timestamp r), rd_fee_limit = then_some_pos (fee_limit r)\<rparr>"

lemma tron_raw_data_encode_message: "tron_raw_data_encode r = raw_data_encode (raw_data_message r)"
  by (simp add: tron_raw_data_encode_def raw_data_message_def raw_data_encode_def proto_encode_def
      optional_bytes_filter)

lemma raw_data_message_valid:
  assumes "contract_wf (contract r)" and "length (tron_raw_data_encode r) < 2 ^ 64"
  shows "raw_data_valid (raw_data_message r)" and "length (contract_value (contract r)) < 2 ^ 64"
proof -
  have "length (contract_envelope_encode (contract_envelope_from (contract r))) < 2 ^ 64"
    using contracts_fit [of "contract_envelope_from (contract r)" "raw_data_message r"] assms(2)
    by (simp add: raw_data_message_def tron_raw_data_encode_message)
  note env = contract_envelope_from_codec [OF assms(1) this]
  show "length (contract_value (contract r)) < 2 ^ 64" by (rule env(3))
  show "raw_data_valid (raw_data_message r)"
    using env(1,2) assms(2) by (simp add: raw_data_valid_def tron_raw_data_encode_message)
      (simp add: raw_data_message_def)
qed

lemma raw_data_message_inj:
  assumes "raw_data_message r = raw_data_message s"
    and "contract_wf (contract r)" "contract_wf (contract s)" and "length (contract_value (contract r)) < 2 ^ 64"
  shows "normal_raw_data r = normal_raw_data s"
proof -
  have "normal_contract (contract r) = normal_contract (contract s)"
    by (rule contract_envelope_from_inj) (use assms in \<open>simp_all add: raw_data_message_def\<close>)
  then show ?thesis
    using assms(1) by (cases r; cases s)
      (simp add: raw_data_message_def normal_raw_data_def filter_bytes_Some_eq then_some_pos_eq)
qed

lemma filter_pos_idem [simp]: "filter_pos (filter_pos v) = filter_pos v"
  by (auto simp: filter_pos_def then_some_pos_def split: option.splits)

lemma contract_envelope_from_normal: "contract_envelope_from (normal_contract c) = contract_envelope_from c"
  by (cases c) (simp_all add: contract_envelope_from_def)

lemma tron_raw_data_encode_normal: "tron_raw_data_encode (normal_raw_data r) = tron_raw_data_encode r"
  by (simp add: tron_raw_data_encode_def normal_raw_data_def contract_envelope_from_normal
      raw_data_encode_def proto_encode_def optional_bytes_filter)

end
