(* ===== verification/Tron_Signing.thy ===== *)
theory Tron_Signing
  imports Tron_Binding
begin

text \<open>
  What the Tron signer signs: only contracts owned by the account of the private key and of the
  sender the request names, with well-formed addresses, fee limits taken from the request, an
  expiry that does not wrap; for dApp requests only bytes that the shown JSON encodes to.
\<close>

section \<open>Addresses\<close>

definition canonical_address :: "tron_address \<Rightarrow> bool" where
  "canonical_address a \<longleftrightarrow> length a = PREFIXED_ADDRESS_LEN \<and> hd a = ADDRESS_PREFIX"

lemma canonical_wf [simp, intro]: "canonical_address a \<Longrightarrow> address_wf a"
  by (simp add: canonical_address_def address_wf_def)

lemma canonical_account [simp]: "length i = ADDRESS_LEN \<Longrightarrow> canonical_address (address_from_account_id i)"
  by (simp add: canonical_address_def address_from_account_id_def address_consts)

lemma try_parse_canonical: "try_parse L s = Some a \<Longrightarrow> canonical_address a"
  by (auto simp: try_parse_def Let_def split: option.splits if_splits)

lemma from_hex_canonical: "from_hex L s = Some a \<Longrightarrow> canonical_address a"
  by (auto simp: from_hex_def canonical_address_def split: option.splits if_splits)
    (auto simp: address_from_account_id_def address_consts)

lemma from_private_key_canonical: "from_private_key L k = Ok a \<Longrightarrow> canonical_address a"
  by (auto simp: from_private_key_def result_simps Let_def invalid_input_err_def split: if_splits)

lemma parse_address_canonical: "parse_address L s = Ok a \<Longrightarrow> canonical_address a"
  by (auto simp: parse_address_def result_simps try_parse_canonical)

lemma parse_hex_or_base58_canonical: "parse_hex_or_base58 L s = Ok a \<Longrightarrow> canonical_address a"
  by (auto simp: parse_hex_or_base58_def from_hex_or_base58_def result_simps try_parse_canonical
      from_hex_canonical split: option.splits)

lemma from_abi_word_canonical: "from_abi_word L w = Some a \<Longrightarrow> canonical_address a"
  by (auto simp: from_abi_word_def Let_def from_hex_canonical split: if_splits)

lemmas address_results = parse_address_canonical parse_hex_or_base58_canonical from_private_key_canonical

section \<open>Payloads\<close>

text \<open>What every payload builder promises, given the owner the payload is built for.\<close>

definition payload_ok :: "tron_address \<Rightarrow> contract_payload \<Rightarrow> bool" where
  "payload_ok owner p \<longleftrightarrow>
     contract_owner (payload_contract p) = owner \<and> contract_wf (payload_contract p)"

lemmas builder_simps = result_simps invalid_input_err_def payload_ok_def

lemma validate_sender_Ok:
  "validate_sender L input k = Ok a \<longleftrightarrow>
     from_private_key L k = Ok a \<and> parse_address L (sender_address input) = Ok a"
  by (auto simp: validate_sender_def builder_simps split: if_splits)

lemma build_native_transfer_ok:
  "build_native_transfer L input owner to v = Ok p \<Longrightarrow> canonical_address owner \<Longrightarrow> payload_ok owner p"
  by (auto simp: build_native_transfer_def builder_simps dest: address_results)

lemma build_token_transfer_ok:
  "build_token_transfer L input owner to = Ok p \<Longrightarrow> canonical_address owner \<Longrightarrow> payload_ok owner p"
  by (auto simp: build_token_transfer_def builder_simps dest: address_results)

lemma build_token_approval_ok:
  "build_token_approval L input owner appr = Ok p \<Longrightarrow> canonical_address owner \<Longrightarrow> payload_ok owner p"
  by (auto simp: build_token_approval_def builder_simps dest: address_results)

lemma build_swap_payload_ok:
  assumes "build_swap_payload L input owner swap = Ok p" and "canonical_address owner"
  shows "payload_ok owner p"
proof (cases "data_type swap")
  case SwapTransfer
  with assms show ?thesis
    by (auto simp: build_swap_payload_def result_simps split: if_splits
        dest: build_token_transfer_ok build_native_transfer_ok)
next
  case SwapContract
  with assms show ?thesis
    by (auto simp: build_swap_payload_def build_contract_swap_def build_contract_call_swap_def
        build_native_contract_transfer_swap_def builder_simps dest: address_results split: if_splits)
qed

lemma swap_payloads_ok:
  assumes "swap_payloads L input swap owner = Ok ps" and "canonical_address owner"
  shows "\<forall>p \<in> set ps. payload_ok owner p"
  using assms
  by (cases "data_type (quote_data swap)"; cases "approval (quote_data swap)")
    (auto simp: swap_payloads_def result_simps dest: build_swap_payload_ok build_token_approval_ok)

lemma vote_witness_ok:
  assumes "vote_witness L owner votes = Ok c" and "canonical_address owner"
  shows "contract_owner c = owner \<and> contract_wf c"
proof -
  obtain vs where vs: "list_all2 (\<lambda>x y. vote_try_from L x = Ok y) votes vs" "c = VoteWitness owner vs True"
    using assms(1) by (auto simp: vote_witness_def result_simps traverse_Inr_iff)
  have "list_all (\<lambda>v. address_wf (vote_address v)) vs"
    using vs(1) by (induction rule: list_all2_induct)
      (auto simp: vote_try_from_def result_simps dest: address_results)
  with vs(2) assms(2) show ?thesis by simp
qed

lemma stake_contracts_ok:
  assumes "stake_contracts L input st sd owner = Ok cs" and "canonical_address owner" and "c \<in> set cs"
  shows "contract_owner c = owner \<and> contract_wf c"
  using assms
  by (auto simp: stake_contracts_def builder_simps dest: vote_witness_ok
      split: stake_type.splits tron_stake_data.splits)

section \<open>The signing entry points\<close>

text \<open>
  The interface between the builders and \<open>sign_contract_payload\<close>/\<open>sign_contract_payloads\<close>: the
  builder is handed the validated owner and promises payloads of that owner.
\<close>

definition signed_for :: "tron_lib \<Rightarrow> 'j tron_serde \<Rightarrow> signer_input \<Rightarrow> bytes \<Rightarrow> tron_raw_data \<Rightarrow> string \<Rightarrow> bool" where
  "signed_for L S input k raw out \<longleftrightarrow>
     from_private_key L k = Ok (contract_owner (contract raw))
     \<and> parse_address L (sender_address input) = Ok (contract_owner (contract raw))
     \<and> contract_wf (contract raw) \<and> sign_raw_data L S raw k = Ok out"

locale payload_builder =
  fixes build :: "tron_address \<Rightarrow> contract_payload list signer_result"
  assumes build_ok: "canonical_address owner \<Longrightarrow> build owner = Ok ps \<Longrightarrow> \<forall>p \<in> set ps. payload_ok owner p"
begin

lemma signed_payloads:
  assumes "sign_contract_payloads L S input k build = Ok outs"
  shows "\<exists>raws. list_all2 (signed_for L S input k) raws outs"
proof -
  obtain owner ps where b: "validate_sender L input k = Ok owner" "build owner = Ok ps"
      and outs: "list_all2 (\<lambda>p out. sign_built_contract_payload L S input k p = Ok out) ps outs"
    using assms by (auto simp: sign_contract_payloads_def result_simps traverse_Inr_iff)
  have own: "from_private_key L k = Ok owner" "parse_address L (sender_address input) = Ok owner"
    using b(1) by (simp_all add: validate_sender_Ok)
  have "\<forall>p \<in> set ps. payload_ok owner p"
    by (rule build_ok [OF from_private_key_canonical [OF own(1)] b(2)])
  with outs show ?thesis
  proof (induction rule: list_all2_induct)
    case (Cons p ps out outs)
    then obtain raws where raws: "list_all2 (signed_for L S input k) raws outs" by auto
    obtain raw where "from_input_with_data L input (payload_contract p) (payload_fee_limit p) (payload_data p) = Ok raw"
        and "sign_raw_data L S raw k = Ok out"
      using Cons.hyps(1) by (auto simp: sign_built_contract_payload_def result_simps)
    moreover from this have "contract raw = payload_contract p"
      by (auto simp: from_input_with_data_def builder_simps Let_def split: transaction_load_metadata.splits)
    ultimately have "signed_for L S input k raw out"
      using own Cons.prems by (simp add: signed_for_def payload_ok_def)
    with raws show ?case by (metis list_all2_Cons)
  qed auto
qed

end

text \<open>A single payload is signed as a list of one.\<close>

definition single :: "('o \<Rightarrow> 'p signer_result) \<Rightarrow> 'o \<Rightarrow> 'p list signer_result" where
  "single build owner = and_then (build owner) (\<lambda>p. Ok [p])"

lemma sign_contract_payload_single:
  "sign_contract_payload L S input k build = Ok out \<longleftrightarrow>
     sign_contract_payloads L S input k (single build) = Ok [out]"
  by (auto simp: sign_contract_payload_def sign_contract_payloads_def single_def result_simps)

interpretation transfer_builder: payload_builder
    "single (\<lambda>owner. and_then (value_as_u64 input) (\<lambda>v. build_native_transfer L input owner to v))" for L input to
  by unfold_locales (auto simp: single_def result_simps dest: build_native_transfer_ok)

interpretation token_transfer_builder: payload_builder
    "single (\<lambda>owner. build_token_transfer L input owner to)" for L input to
  by unfold_locales (auto simp: single_def result_simps dest: build_token_transfer_ok)

interpretation approval_builder: payload_builder
    "single (\<lambda>owner. and_then (get_approval_data ty) (build_token_approval L input owner))" for L input ty
  by unfold_locales (auto simp: single_def result_simps dest: build_token_approval_ok)

interpretation swap_builder: payload_builder "swap_payloads L input swap" for L input swap
  by unfold_locales (rule swap_payloads_ok)

interpretation stake_builder: payload_builder
    "\<lambda>owner. and_then (stake_contracts L input st stake_data owner) (\<lambda>cs.
       Ok (map (\<lambda>c. \<lparr>payload_contract = c, payload_fee_limit = limit, payload_data = None\<rparr>) cs))"
    for L input st stake_data limit
proof
  fix owner ps assume "canonical_address owner" and "and_then (stake_contracts L input st stake_data owner) (\<lambda>cs.
    Ok (map (\<lambda>c. \<lparr>payload_contract = c, payload_fee_limit = limit, payload_data = None\<rparr>) cs)) = Ok ps"
  then show "\<forall>p \<in> set ps. payload_ok owner p"
    using stake_contracts_ok [of L input st stake_data owner] by (auto simp: result_simps payload_ok_def)
qed

section \<open>Call data\<close>

lemma pad_left_Ok: "pad_left data n = Ok r \<longleftrightarrow> length data \<le> n \<and> r = replicate (n - length data) 0 @ data"
  by (auto simp: pad_left_def invalid_input_err_def)

lemma nat_from_bytes_be_zeros: "nat_from_bytes_be (replicate n 0 @ bs) = nat_from_bytes_be bs"
  by (induction n) (simp_all add: nat_from_bytes_be_def)

lemma address_word_drop:
  "length a = PREFIXED_ADDRESS_LEN \<Longrightarrow> drop 11 (replicate (ABI_WORD_LEN - length a) 0 @ a) = a"
  by (simp add: address_consts trc20_consts)

text \<open>
  What the code relies on from the \<open>hex\<close> crate: \<open>encode\<close> writes two digits per byte and
  \<open>decode\<close> reads them back.
\<close>

definition hex_digits :: string where "hex_digits = ''0123456789abcdef''"

definition hex_crate :: "tron_lib \<Rightarrow> bool" where
  "hex_crate L \<longleftrightarrow> (\<forall>b. hex_decode L (hex_encode L b) = Some b \<and> set (hex_encode L b) \<subseteq> set hex_digits
     \<and> length (hex_encode L b) = 2 * length b)"

lemma strip_one_None: "(\<And>p. p \<in> set ps \<Longrightarrow> p = [] \<or> \<not> prefix p s) \<Longrightarrow> strip_one ps s = None"
  by (auto simp: strip_one_def filter_empty_conv split: list.splits)

lemma strip_all_no_head:
  assumes "\<forall>p \<in> set ps. p \<noteq> [] \<and> hd p \<notin> D" and "set s \<subseteq> D"
  shows "strip_all ps s = s"
proof -
  have "strip_one ps s = None"
    using assms by (intro strip_one_None) (fastforce simp: prefix_def neq_Nil_conv)
  then show ?thesis by (simp add: strip_all.simps)
qed

lemma trim_hex: "set s \<subseteq> set hex_digits \<Longrightarrow> trim s = s"
  unfolding trim_def
  by (subst strip_all_no_head [where D = "set hex_digits"], simp add: white_space_def hex_digits_def, simp,
      subst strip_all_no_head [where D = "set hex_digits"], simp_all add: white_space_def hex_digits_def)

lemma strip_0x_hex: "set s \<subseteq> set hex_digits \<Longrightarrow> strip_prefix ''0x'' s = None"
  by (auto simp: strip_prefix_def prefix_def hex_digits_def)

lemma decode_hex_encode:
  assumes "hex_crate L"
  shows "decode_hex (hex_decode L) (hex_encode L b) = Ok b"
proof -
  have h: "hex_decode L (hex_encode L b) = Some b" "set (hex_encode L b) \<subseteq> set hex_digits"
      "length (hex_encode L b) = 2 * length b"
    using assms by (auto simp: hex_crate_def)
  show ?thesis
    using h by (auto simp: decode_hex_def trim_hex strip_0x_hex Let_def)
qed

section \<open>A concrete library\<close>

text \<open>
  Concrete functions for the arguments, used to evaluate the properties on an example: real
  hexadecimal conversion, and stand-ins of the right shape for the hashes, the key functions,
  base58check and serde.
\<close>

definition hex_char :: "nat \<Rightarrow> char" where "hex_char n = hex_digits ! n"

definition hex_val :: "char \<Rightarrow> nat option" where
  "hex_val c = (case filter (\<lambda>n. hex_char n = c) [0..<16] of [] \<Rightarrow> None | n # _ \<Rightarrow> Some n)"

definition hex_of :: "bytes \<Rightarrow> string" where
  "hex_of bs = concat (map (\<lambda>b. [hex_char (unat b div 16), hex_char (unat b mod 16)]) bs)"

fun of_hex :: "string \<Rightarrow> bytes option" where
  "of_hex [] = Some []"
| "of_hex [c] = None"
| "of_hex (c # d # cs) =
     (case (hex_val c, hex_val d, of_hex cs) of
        (Some a, Some b, Some bs) \<Rightarrow> Some (of_nat (a * 16 + b) # bs)
      | _ \<Rightarrow> None)"

definition ex_address :: tron_address where "ex_address = 0x41 # replicate 20 7"

definition ex_lib :: tron_lib where
  "ex_lib = \<lparr>bs58_check_decode = (\<lambda>s. if s = ''owner'' then Some ex_address
        else if s = ''to'' then Some (0x41 # replicate 20 9) else None),
     hex_decode = of_hex, hex_encode = hex_of,
     sha256 = (\<lambda>b. take 32 (b @ replicate 32 0)), keccak256 = (\<lambda>_. replicate 32 7),
     secp256k1_uncompressed_public_key = (\<lambda>_. Ok (4 # replicate 64 0)), sign_digest = (\<lambda>h k. Ok (k @ h))\<rparr>"

lemma hex_val_char: "n < 16 \<Longrightarrow> hex_val (hex_char n) = Some n"
proof -
  have "list_all (\<lambda>n. hex_val (hex_char n) = Some n) [0..<16]" by code_simp
  then show "n < 16 \<Longrightarrow> ?thesis" by (auto simp: list_all_iff)
qed

lemma hex_char_digit: "n < 16 \<Longrightarrow> hex_char n \<in> set hex_digits"
  unfolding hex_char_def by (rule nth_mem) (simp add: hex_digits_def)

lemma unat_u8: "unat (b :: u8) < 256"
  using unsigned_less [of b] by simp

lemma of_hex_hex_of: "of_hex (hex_of b) = Some b"
proof (induction b)
  case Nil
  then show ?case by (simp add: hex_of_def)
next
  case (Cons x b)
  have "unat x div 16 < 16" "unat x mod 16 < 16" using unat_u8 [of x] by auto
  with Cons show ?case by (simp add: hex_of_def hex_val_char)
qed

lemma ex_lib_hex_crate: "hex_crate ex_lib"
proof -
  have "set (hex_of b) \<subseteq> set hex_digits" for b
    using hex_char_digit unat_u8 by (fastforce simp: hex_of_def less_mult_imp_div_less)
  moreover have "length (hex_of b) = 2 * length b" for b
    by (induction b) (simp_all add: hex_of_def)
  ultimately show ?thesis by (simp add: hex_crate_def ex_lib_def of_hex_hex_of)
qed

definition ex_stub_lib :: tron_lib where
  "ex_stub_lib = ex_lib\<lparr>hex_decode := (\<lambda>s. if s = ''aa'' then Some (replicate 32 1) else Some ex_address),
     hex_encode := (\<lambda>b. ''00'')\<rparr>"

definition ex_serde :: "unit tron_serde" where
  "ex_serde = \<lparr>parse_request = (\<lambda>b. Ok \<lparr>wc_raw_data = Some (), wc_raw_data_hex = b,
       wc_transaction_id = None, wc_signature = None, wc_extra = []\<rparr>),
     parse_raw_data = (\<lambda>_. Ok \<lparr>in_contract = [(WithdrawBalanceType, ())], in_expiration = 5,
       in_ref_block_bytes = [1, 2], in_ref_block_hash = [3], in_timestamp = 4, in_fee_limit = None,
       in_data = None\<rparr>),
     parse_value = (\<lambda>_ _. Ok (OwnerJson ex_address)),
     write_transaction = (\<lambda>t. Ok (hex_of (wc_raw_data_hex t))),
     write_signed = (\<lambda>t. Ok (st_raw_data_hex t))\<rparr>"

definition ex_input :: "transaction_input_type \<Rightarrow> signer_input" where
  "ex_input ty = \<lparr>input_type = ty, sender_address = ''owner'', destination_address = ''to'',
     input_value = 25, load_gas_price = Regular 1, memo = None, is_max_value = False,
     metadata = TronMeta 7 1 1000 ''aa'' ''aa'' ''bb''
       (Votes [\<lparr>validator = ''to'', vote_count = 3\<rparr>]),
     input_fee = \<lparr>fee_total = 10, gas_price_type = Regular 1, fee_gas_limit = 20, fee_options = Map.empty\<rparr>\<rparr>"

definition ex_asset :: asset where "ex_asset = \<lparr>asset_ident = \<lparr>asset_chain = Tron, token_id = None\<rparr>, asset_symbol = ''TRX'', asset_decimals = 6\<rparr>"

definition ex_raw :: tron_raw_data where
  "ex_raw = \<lparr>ref_block_bytes = [0, 7], ref_block_hash = [1, 2, 3, 4, 5, 6, 7, 8], expiration = 9,
     extra = Some [], contract = TriggerSmart ex_address ex_address [1, 2] (Some 0) None (Some 3),
     timestamp = 1, fee_limit = 2\<rparr>"

definition ex_wc_raw :: bytes where
  "ex_wc_raw = raw_data_encode \<lparr>rd_ref_block_bytes = Some [1, 2], rd_ref_block_hash = Some [3],
     rd_expiration = Some 5, rd_data = None, rd_contracts = [contract_envelope_from (WithdrawBalance ex_address)],
     rd_timestamp = Some 4, rd_fee_limit = None\<rparr>"

lemmas message_encode_simps = tron_raw_data_encode_def raw_data_encode_def proto_encode_def
  optional_bytes_encode_def encode_optional_bytes_field_def encode_bytes_field_def
  optional_varint_u64_encode_def encode_optional_u64_field_def encode_raw_varint_field_def
  repeated_message_encode_def encode_message_field_def field_tag_def contract_envelope_encode_def
  contract_envelope_from_def optional_message_encode_def encode_optional_message_field_def
  any_parameter_encode_def optional_string_encode_def encode_optional_string_field_def
  encode_string_field_def trigger_smart_contract_encode_def filter_pos_def then_some_pos_def
  wire_defs type_url_def encode_varint.simps Let_def

lemma ex_validate: "validate_sender ex_stub_lib (ex_input ty) [1] = Ok ex_address"
proof -
  have "from_private_key ex_stub_lib [1] = Ok ex_address" "parse_address ex_stub_lib ''owner'' = Ok ex_address"
    by code_simp+
  then show ?thesis by (simp add: validate_sender_Ok ex_input_def)
qed

lemma ex_sign_payload: "\<exists>out. sign_built_contract_payload ex_stub_lib ex_serde (ex_input ty) [1] p = Ok out"
proof -
  have "decode_hex_array (hex_decode ex_stub_lib) 32 ''aa'' = Ok (replicate 32 1)"
      "from_hex ex_stub_lib ''bb'' = Some ex_address" "checked_add 1000 EXPIRATION_DURATION_MS = Some 36001000"
    by code_simp+
  then show ?thesis
    by (simp add: sign_built_contract_payload_def from_input_with_data_def ex_input_def Let_def sign_raw_data_def sign_raw_hash_def)
      (simp add: ex_stub_lib_def ex_lib_def ex_serde_def)
qed
lemma ex_sign_payloads:
  assumes "build ex_address = Ok ps"
  shows "\<exists>outs. sign_contract_payloads ex_stub_lib ex_serde (ex_input ty) [1] build = Ok outs \<and> length outs = length ps"
proof -
  have "\<exists>outs. traverse (sign_built_contract_payload ex_stub_lib ex_serde (ex_input ty) [1]) ps = Ok outs"
  proof (induction ps)
    case (Cons p ps)
    then show ?case using ex_sign_payload [of ty p] by auto
  qed simp
  then show ?thesis
    using assms by (auto simp: sign_contract_payloads_def ex_validate dest: traverse_length)
qed
section \<open>Properties\<close>

text \<open>
  Transactions signed for staking and swapping are the key's own. If the staking or the swap entry point
  returns signed transactions, each of them is the signature of a raw transaction whose contract
  is owned by the account of the private key, which is the sender the request names, and all of
  whose addresses are well formed; there is one output per raw transaction, in order.
\<close>

theorem sign_stake_swap_owner:
  assumes "sign_stake L S input k = Ok outs \<or> sign_swap L S input k = Ok outs"
  shows "\<exists>raws. list_all2 (signed_for L S input k) raws outs"
  using assms
proof
  assume "sign_swap L S input k = Ok outs"
  then show ?thesis
    by (auto simp: sign_swap_def result_simps intro: swap_builder.signed_payloads)
next
  assume "sign_stake L S input k = Ok outs"
  then show ?thesis
    by (cases "metadata input")
      (auto simp: sign_stake_def result_simps invalid_input_err_def intro: stake_builder.signed_payloads)
qed

theorem sign_stake_swap_owner_witness:
  "\<exists>out raw. sign_stake ex_stub_lib ex_serde (ex_input (StakeInput ex_asset Stake)) [1] = Ok [out]
     \<and> signed_for ex_stub_lib ex_serde (ex_input (StakeInput ex_asset Stake)) [1] raw out"
proof -
  let ?in = "ex_input (StakeInput ex_asset Stake)"
  have "is_ok (vote_witness ex_stub_lib ex_address [\<lparr>validator = ''to'', vote_count = 3\<rparr>])" by code_simp
  then obtain c where "vote_witness ex_stub_lib ex_address [\<lparr>validator = ''to'', vote_count = 3\<rparr>] = Ok c"
    by (cases "vote_witness ex_stub_lib ex_address [\<lparr>validator = ''to'', vote_count = 3\<rparr>]") auto
  then obtain out where "sign_stake ex_stub_lib ex_serde ?in [1] = Ok [out]"
    using ex_sign_payloads [of "\<lambda>owner. and_then (stake_contracts ex_stub_lib ?in Stake (Votes [\<lparr>validator = ''to'', vote_count = 3\<rparr>]) owner)
        (\<lambda>cs. Ok (map (\<lambda>c. \<lparr>payload_contract = c, payload_fee_limit = 10, payload_data = None\<rparr>) cs))" "[_]" "StakeInput ex_asset Stake"]
    by (auto simp: sign_stake_def fee_u64_def int_to_u64_def stake_contracts_def ex_input_def length_Suc_conv)
  then show ?thesis
    using sign_stake_swap_owner [of ex_stub_lib ex_serde ?in "[1]" "[out]"] by (auto simp: list_all2_Cons2)
qed

text \<open>
  The same for the single-transaction entry points: transfer, token transfer, token approval.
\<close>

theorem sign_single_owner:
  assumes "sign_transfer L S input k = Ok out \<or> sign_token_transfer L S input k = Ok out
     \<or> sign_token_approval L S input k = Ok out"
  shows "\<exists>raw. signed_for L S input k raw out"
proof -
  obtain raws where "list_all2 (signed_for L S input k) raws [out]"
    using assms unfolding sign_transfer_def sign_token_transfer_def sign_token_approval_def
      sign_contract_payload_single
    by (blast dest: transfer_builder.signed_payloads token_transfer_builder.signed_payloads
        approval_builder.signed_payloads)
  then show ?thesis by (auto simp: list_all2_Cons2)
qed

theorem sign_single_owner_witness:
  "\<exists>out raw. sign_transfer ex_stub_lib ex_serde (ex_input (TransferInput ex_asset)) [1] = Ok out
     \<and> signed_for ex_stub_lib ex_serde (ex_input (TransferInput ex_asset)) [1] raw out"
proof -
  let ?in = "ex_input (TransferInput ex_asset)"
  have "is_ok (build_native_transfer ex_stub_lib ?in ex_address ''to'' 25)" by code_simp
  then obtain p where p: "build_native_transfer ex_stub_lib ?in ex_address ''to'' 25 = Ok p"
    by (cases "build_native_transfer ex_stub_lib ?in ex_address ''to'' 25") auto
  obtain out where "sign_built_contract_payload ex_stub_lib ex_serde ?in [1] p = Ok out"
    using ex_sign_payload by blast
  moreover have "value_as_u64 ?in = Ok 25" "destination_address ?in = ''to''"
    by (simp_all add: value_as_u64_def nat_to_u64_def ex_input_def)
  ultimately have "sign_transfer ex_stub_lib ex_serde ?in [1] = Ok out"
    using p by (simp add: sign_transfer_def sign_contract_payload_def ex_validate)
  then show ?thesis
    using sign_single_owner [of ex_stub_lib ex_serde ?in "[1]" out] by blast
qed

text \<open>
  C20: The bytes that are hashed and signed determine the transaction. Two raw transactions with
  well-formed addresses encode to the same bytes exactly when they agree on the contract and on
  every other field, up to the choice between an absent and an empty note and between an absent
  and a zero call value, which the encoding does not distinguish.
\<close>

theorem tron_raw_data_encode_binding:
  assumes "contract_wf (contract r)" "contract_wf (contract s)"
    and "length (tron_raw_data_encode r) < 2 ^ 64"
  shows "tron_raw_data_encode r = tron_raw_data_encode s \<longleftrightarrow> normal_raw_data r = normal_raw_data s"
proof
  assume eq: "tron_raw_data_encode r = tron_raw_data_encode s"
  then have "length (tron_raw_data_encode s) < 2 ^ 64" using assms(3) by simp
  note valid = raw_data_message_valid [OF assms(1,3)] raw_data_message_valid [OF assms(2) this]
  have "raw_data_message r = raw_data_message s"
    by (rule raw_data.encode_inj) (use eq valid in \<open>simp_all add: tron_raw_data_encode_message\<close>)
  then show "normal_raw_data r = normal_raw_data s"
    by (rule raw_data_message_inj) (use assms(1,2) valid in simp_all)
next
  assume "normal_raw_data r = normal_raw_data s"
  then show "tron_raw_data_encode r = tron_raw_data_encode s"
    by (metis tron_raw_data_encode_normal)
qed

theorem tron_raw_data_encode_binding_witness:
  "tron_raw_data_encode ex_raw = tron_raw_data_encode (ex_raw\<lparr>extra := None\<rparr>)
     \<and> tron_raw_data_encode ex_raw \<noteq> tron_raw_data_encode (ex_raw\<lparr>fee_limit := 3\<rparr>)"
proof -
  have wf: "contract_wf (contract ex_raw)" by code_simp
  have "length (tron_raw_data_encode ex_raw) < 2 ^ 64"
    by (simp add: message_encode_simps ex_raw_def ex_address_def)
  then show ?thesis
    using wf tron_raw_data_encode_binding [of ex_raw "ex_raw\<lparr>extra := None\<rparr>"]
      tron_raw_data_encode_binding [of ex_raw "ex_raw\<lparr>fee_limit := 3\<rparr>"]
    by (simp add: ex_raw_def normal_raw_data_def filter_bytes_def)
qed

text \<open>
  C21: A dApp request is signed only for what its JSON shows. If \<open>sign_data\<close> succeeds, the signature
  is over the SHA-256 hash of exactly the bytes that the request's JSON contracts, block
  references, times, note and fee limit encode to; a transaction id sent along is the id of those
  bytes; and the key belongs to the sender.
\<close>

theorem sign_data_signs_shown_transaction:
  assumes "sign_data L S input k = Ok out"
  shows "\<exists>ext data t json rd raw sig.
     get_generic_data (input_type input) = Ok ext \<and> extra_data ext = Some data
     \<and> parse_request S data = Ok t \<and> wc_raw_data t = Some json \<and> parse_raw_data S json = Ok rd
     \<and> raw_data_json_encode (parse_value S) rd = Ok raw \<and> wc_raw_data_hex t = raw
     \<and> sign_digest L (sha256 L raw) k = Ok sig
     \<and> (case wc_transaction_id t of None \<Rightarrow> True
        | Some i \<Rightarrow> eq_ignore_ascii_case i (hex_encode L (sha256 L raw)))
     \<and> from_private_key L k = parse_address L (sender_address input) \<and> is_ok (from_private_key L k)
     \<and> (case output_type ext of Signature \<Rightarrow> out = hex_encode L sig
        | EncodedTransaction \<Rightarrow> into_signed_json S t (hex_encode L (sha256 L raw)) (hex_encode L sig) = Ok out)"
proof -
  obtain own ext data t h sig where ok:
      "validate_sender L input k = Ok own" "get_generic_data (input_type input) = Ok ext"
      "extra_data ext = Some data" "parse_request S data = Ok t" "wc_hash L S t = Ok h"
      "sign_digest L h k = Ok sig"
      and out: "(case output_type ext of Signature \<Rightarrow> Ok (hex_encode L sig)
         | EncodedTransaction \<Rightarrow> into_signed_json S t (hex_encode L h) (hex_encode L sig)) = Ok out"
    using assms by (auto simp: sign_data_def sign_raw_hash_def result_simps)
  obtain json rd where wc: "wc_raw_data t = Some json" "parse_raw_data S json = Ok rd"
      "raw_data_json_encode (parse_value S) rd = Ok (wc_raw_data_hex t)" "h = sha256 L (wc_raw_data_hex t)"
      "case wc_transaction_id t of None \<Rightarrow> True
         | Some i \<Rightarrow> eq_ignore_ascii_case i (hex_encode L (sha256 L (wc_raw_data_hex t)))"
    using ok(5) by (auto simp: wc_hash_def Let_def result_simps invalid_input_err_def
        split: if_splits option.splits)
  show ?thesis
    using ok wc out by (intro exI conjI) (auto simp: validate_sender_Ok split: transfer_data_output_type.splits)
qed

theorem sign_data_signs_shown_transaction_witness:
  "\<exists>out sig raw. sign_data ex_stub_lib ex_serde (ex_input (GenericInput ex_asset \<lparr>extra_data = Some ex_wc_raw, output_type = Signature\<rparr>)) [1] = Ok out
     \<and> sign_digest ex_stub_lib (sha256 ex_stub_lib raw) [1] = Ok sig \<and> out = hex_encode ex_stub_lib sig
     \<and> raw = ex_wc_raw"
proof -
  let ?ext = "\<lparr>extra_data = Some ex_wc_raw, output_type = Signature\<rparr>"
  let ?in = "ex_input (GenericInput ex_asset ?ext)"
  have "wc_hash ex_stub_lib ex_serde \<lparr>wc_raw_data = Some (), wc_raw_data_hex = ex_wc_raw,
       wc_transaction_id = None, wc_signature = None, wc_extra = []\<rparr> = Ok (sha256 ex_stub_lib ex_wc_raw)"
    by (simp add: wc_hash_def Let_def ex_serde_def raw_data_json_encode_def from_json_value_def
        contract_of_json_def then_some_pos_def filter_pos_def ex_wc_raw_def)
  then obtain out where out: "sign_data ex_stub_lib ex_serde ?in [1] = Ok out"
    by (simp add: sign_data_def ex_validate) (simp add: ex_input_def ex_serde_def sign_raw_hash_def ex_stub_lib_def ex_lib_def)
  show ?thesis
    using sign_data_signs_shown_transaction [OF out] out
    by (auto simp: ex_input_def ex_serde_def)
qed

text \<open>
  An approval is for the spender it names. Decoding the call data of an unlimited approval, as
  the wallet does for a dApp's transaction, gives back the spender's address and the largest
  256-bit value. The call data of every token approval the signer builds is of this form.
\<close>

theorem approval_roundtrip:
  assumes "hex_crate L" and "canonical_address s" and "encode_approval_max s = Ok call"
  shows "decode_approval L call = Some \<lparr>spender = s, approved_value = 2 ^ 256 - 1\<rparr>"
proof -
  have len: "length s = 21" "hd s = 0x41"
    using assms(2) by (simp_all add: canonical_address_def address_consts)
  let ?w = "replicate 11 0 @ s"
  have call: "call = TRC20_APPROVE_SELECTOR @ ?w @ replicate 32 0xff"
    using assms(3) len by (auto simp: encode_approval_max_def result_simps pad_left_Ok trc20_consts)
  have "?w ! 11 = 0x41" using len by (cases s) (auto simp: nth_append)
  then have word: "from_abi_word L ?w = Some s"
    using len by (simp add: from_abi_word_def from_hex_def decode_hex_encode [OF assms(1)] address_consts list_all_iff)
  have "nat_from_bytes_be (replicate 32 (0xff :: u8)) = 2 ^ 256 - 1" by code_simp
  then show ?thesis
    unfolding call decode_approval_def using word len by (simp add: trc20_consts)
qed

theorem approval_roundtrip_witness:
  "\<exists>call. encode_approval_max ex_address = Ok call
     \<and> decode_approval ex_lib call = Some \<lparr>spender = ex_address, approved_value = 2 ^ 256 - 1\<rparr>"
proof -
  have "is_ok (encode_approval_max ex_address)" "canonical_address ex_address" by code_simp+
  then show ?thesis
    using approval_roundtrip [OF ex_lib_hex_crate, of ex_address]
    by (cases "encode_approval_max ex_address") auto
qed

text \<open>
  The call data of a token transfer carries the recipient and the exact amount, and it is
  refused exactly for the amounts that do not fit a 256-bit word.
\<close>

theorem encode_transfer_correct:
  assumes "address_wf to"
  shows "if amount < 2 ^ 256
     then \<exists>call. encode_transfer to amount = Ok call \<and> length call = 68 \<and> take 4 call = TRC20_TRANSFER_SELECTOR
       \<and> take 21 (drop 15 call) = to \<and> nat_from_bytes_be (drop 36 call) = amount
     else encode_transfer to amount = Err (InvalidInput ''value does not fit padded length'')"
proof -
  have len: "length to = 21" using assms by (simp add: address_wf_def address_consts)
  have fits: "length (nat_to_bytes_be amount) \<le> 32 \<longleftrightarrow> amount < 2 ^ 256"
    using nat_to_bytes_be_length [of 32 amount] by simp
  have "encode_transfer to amount =
     (if amount < 2 ^ 256
      then Ok (TRC20_TRANSFER_SELECTOR @ replicate 11 0 @ to @
               replicate (32 - length (nat_to_bytes_be amount)) 0 @ nat_to_bytes_be amount)
      else Err (InvalidInput ''value does not fit padded length''))"
    using fits len by (auto simp: encode_transfer_def pad_left_def ABI_WORD_LEN_def invalid_input_err_def)
  then show ?thesis
    using fits len by (auto simp: TRC20_TRANSFER_SELECTOR_def nat_from_bytes_be_zeros split: if_splits)
qed

theorem encode_transfer_correct_witness:
  "\<exists>call. encode_transfer ex_address 1000000 = Ok call \<and> nat_from_bytes_be (drop 36 call) = 1000000
     \<and> take 21 (drop 15 call) = ex_address"
proof -
  have "address_wf ex_address" by code_simp
  then show ?thesis using encode_transfer_correct [of ex_address 1000000] by auto
qed

end
