(* ===== verification/Bitcoin_Script.thy ===== *)
theory Bitcoin_Script
  imports Wallet_Types
begin

text \<open>
  \<open>core/crates/gem_bitcoin\<close>, first part: the compact-size integers of \<open>signer/encoding.rs\<close>, the
  chain table of \<open>primitives/src/chain_bitcoin.rs\<close>, and the address parsers of
  \<open>signer/address\<close>, which turn an address of one of the five chains into its locking script.

  The crates \<open>bitcoin\<close>, \<open>bech32\<close>, \<open>bs58\<close> and \<open>bitcoincash_addr\<close> are arguments: \<open>script_lib\<close> has
  the script builder and the script predicates, \<open>address_lib\<close> the decoders.
\<close>

section \<open>Compact-size integers\<close>

definition compact_size :: "u64 \<Rightarrow> bytes" where
  "compact_size v =
     (if v < 0xfd then [ucast v]
      else if v \<le> 0xffff then 0xfd # le_bytes 2 (ucast v :: u16)
      else if v \<le> 0xffffffff then 0xfe # le_bytes 4 (ucast v :: u32)
      else 0xff # le_bytes 8 v)"

definition varint_len :: "nat \<Rightarrow> nat" where
  "varint_len v =
     (if v \<le> 0xfc then 1 else if v \<le> 0xffff then 3 else if v \<le> 0xffffffff then 5 else 9)"

definition compact_size_prefix :: "bytes \<Rightarrow> (u64 \<times> bytes) option" where
  "compact_size_prefix bs =
     (case bs of
        [] \<Rightarrow> None
      | b # r \<Rightarrow>
          if b < 0xfd then Some (ucast b, r)
          else let n = (if b = 0xfd then 2 else if b = 0xfe then 4 else 8)
               in if length r < n then None else Some (le_word (take n r), drop n r))"

section \<open>Chains\<close>

datatype bitcoin_chain = BtcBitcoin | BtcBitcoinCash | BtcLitecoin | BtcDoge | BtcZcash

fun get_chain :: "bitcoin_chain \<Rightarrow> chain" where
  "get_chain BtcBitcoin = Bitcoin"
| "get_chain BtcBitcoinCash = BitcoinCash"
| "get_chain BtcLitecoin = Litecoin"
| "get_chain BtcDoge = Doge"
| "get_chain BtcZcash = Zcash"

fun chain_name :: "bitcoin_chain \<Rightarrow> string" where
  "chain_name BtcBitcoin = ''bitcoin''"
| "chain_name BtcBitcoinCash = ''bitcoincash''"
| "chain_name BtcLitecoin = ''litecoin''"
| "chain_name BtcDoge = ''doge''"
| "chain_name BtcZcash = ''zcash''"

fun minimum_byte_fee :: "bitcoin_chain \<Rightarrow> u64" where
  "minimum_byte_fee BtcBitcoin = 1"
| "minimum_byte_fee BtcBitcoinCash = 5"
| "minimum_byte_fee BtcLitecoin = 5"
| "minimum_byte_fee BtcDoge = 1000"
| "minimum_byte_fee BtcZcash = 1"

fun minimum_custom_fee_rate :: "bitcoin_chain \<Rightarrow> u64" where
  "minimum_custom_fee_rate BtcBitcoin = 1"
| "minimum_custom_fee_rate BtcBitcoinCash = 50"
| "minimum_custom_fee_rate BtcLitecoin = 50"
| "minimum_custom_fee_rate BtcDoge = 10000"
| "minimum_custom_fee_rate BtcZcash = 10"

section \<open>Scripts\<close>

datatype locking_script = LockP2pkh | LockP2sh | LockP2wpkh | LockP2wsh | LockP2tr

datatype unlocking_script = P2pkh | P2wpkh

record address_script =
  script_pubkey :: bytes
  locking_script :: locking_script

text \<open>
  The script builder of the \<open>bitcoin\<close> crate: its opcodes, \<open>push_slice\<close>, and the predicates on a
  finished script.
\<close>

record script_lib =
  op_dup :: u8
  op_hash160 :: u8
  op_equalverify :: u8
  op_checksig :: u8
  op_equal :: u8
  op_pushbytes_0 :: u8
  op_pushnum_1 :: u8
  op_return :: u8
  push_slice :: "bytes \<Rightarrow> bytes"
  is_p2pkh :: "bytes \<Rightarrow> bool"
  is_p2wpkh :: "bytes \<Rightarrow> bool"
  is_op_return :: "bytes \<Rightarrow> bool"
  minimal_non_dust :: "bytes \<Rightarrow> u64"
  push_bytes_try_from :: "bytes \<Rightarrow> string + bytes"

definition HASH160_LEN :: nat where "HASH160_LEN = 20"
definition WITNESS_PROGRAM_LEN :: nat where "WITNESS_PROGRAM_LEN = 32"
definition P2PKH_HASH_OFFSET :: nat where "P2PKH_HASH_OFFSET = 3"
definition P2WPKH_HASH_OFFSET :: nat where "P2WPKH_HASH_OFFSET = 2"

lemmas script_consts = HASH160_LEN_def WITNESS_PROGRAM_LEN_def P2PKH_HASH_OFFSET_def P2WPKH_HASH_OFFSET_def

definition hash20 :: "bytes \<Rightarrow> bytes signer_result" where
  "hash20 bs = (if length bs = HASH160_LEN then Ok bs
     else from_display ''could not convert slice to array'')"

definition hash32 :: "bytes \<Rightarrow> bytes signer_result" where
  "hash32 bs = (if length bs = WITNESS_PROGRAM_LEN then Ok bs
     else from_display ''could not convert slice to array'')"

definition p2pkh_script :: "script_lib \<Rightarrow> bytes \<Rightarrow> bytes" where
  "p2pkh_script B hash = [op_dup B, op_hash160 B] @ push_slice B hash @ [op_equalverify B, op_checksig B]"

definition p2sh_script :: "script_lib \<Rightarrow> bytes \<Rightarrow> bytes" where
  "p2sh_script B hash = [op_hash160 B] @ push_slice B hash @ [op_equal B]"

definition p2wpkh_script :: "script_lib \<Rightarrow> bytes \<Rightarrow> bytes" where
  "p2wpkh_script B hash = [op_pushbytes_0 B] @ push_slice B hash"

definition p2wsh_script :: "script_lib \<Rightarrow> bytes \<Rightarrow> bytes" where
  "p2wsh_script B hash = [op_pushbytes_0 B] @ push_slice B hash"

definition p2tr_script :: "script_lib \<Rightarrow> bytes \<Rightarrow> bytes" where
  "p2tr_script B output_key = [op_pushnum_1 B] @ push_slice B output_key"

fun script_for_public_key_hash :: "script_lib \<Rightarrow> unlocking_script \<Rightarrow> bytes \<Rightarrow> bytes" where
  "script_for_public_key_hash B P2pkh hash = p2pkh_script B hash"
| "script_for_public_key_hash B P2wpkh hash = p2wpkh_script B hash"

text \<open>\<open>get(offset..offset + n)\<close> on a slice.\<close>

definition get_range :: "bytes \<Rightarrow> nat \<Rightarrow> nat \<Rightarrow> bytes option" where
  "get_range bs start n = (if start + n \<le> length bs then Some (take n (drop start bs)) else None)"

definition public_key_hash_of :: "script_lib \<Rightarrow> address_script \<Rightarrow> bytes option" where
  "public_key_hash_of B a =
     (case locking_script a of
        LockP2pkh \<Rightarrow> if is_p2pkh B (script_pubkey a)
          then get_range (script_pubkey a) P2PKH_HASH_OFFSET HASH160_LEN else None
      | LockP2wpkh \<Rightarrow> if is_p2wpkh B (script_pubkey a)
          then get_range (script_pubkey a) P2WPKH_HASH_OFFSET HASH160_LEN else None
      | _ \<Rightarrow> None)"

definition unlocking_script_of :: "script_lib \<Rightarrow> address_script \<Rightarrow> unlocking_script option" where
  "unlocking_script_of B a =
     (case (locking_script a, public_key_hash_of B a) of
        (LockP2pkh, Some _) \<Rightarrow> Some P2pkh
      | (LockP2wpkh, Some _) \<Rightarrow> Some P2wpkh
      | _ \<Rightarrow> None)"

section \<open>Addresses\<close>

datatype address_data = DataP2pkh | DataP2sh | DataSegwit | DataOther
datatype address_type = TypeP2wpkh | TypeP2wsh | TypeP2tr | TypeOther

record native_address =
  native_script_pubkey :: bytes
  native_data :: address_data
  native_type :: "address_type option"

datatype cash_hash_type = CashKey | CashScript

record cash_address =
  cash_is_main :: bool
  cash_hash_type :: cash_hash_type
  cash_body :: bytes

record address_lib =
  bs58_with_check :: "string \<Rightarrow> string + bytes"
  segwit_decode :: "string \<Rightarrow> (string \<times> u8 \<times> bytes) option"
  native_from_str :: "string \<Rightarrow> string + native_address"
  require_mainnet :: "native_address \<Rightarrow> string + native_address"
  cash_decode :: "string \<Rightarrow> string + cash_address"

definition from_segwit :: "script_lib \<Rightarrow> u8 \<Rightarrow> bytes \<Rightarrow> address_script signer_result" where
  "from_segwit B version program =
     (if version = 0 \<and> length program = HASH160_LEN then
        and_then (hash20 program) (\<lambda>h. Ok \<lparr>script_pubkey = p2wpkh_script B h, locking_script = LockP2wpkh\<rparr>)
      else if version = 0 \<and> length program = WITNESS_PROGRAM_LEN then
        and_then (hash32 program) (\<lambda>h. Ok \<lparr>script_pubkey = p2wsh_script B h, locking_script = LockP2wsh\<rparr>)
      else if version = 1 \<and> length program = WITNESS_PROGRAM_LEN then
        and_then (hash32 program) (\<lambda>h. Ok \<lparr>script_pubkey = p2tr_script B h, locking_script = LockP2tr\<rparr>)
      else from_display ''unsupported segwit address type'')"

definition from_base58_address ::
  "script_lib \<Rightarrow> address_lib \<Rightarrow> string \<Rightarrow> u8 list \<Rightarrow> u8 list \<Rightarrow> address_script signer_result" where
  "from_base58_address B A address p2pkh_versions p2sh_versions =
     and_then (map_err_display (bs58_with_check A address)) (\<lambda>payload.
       case payload of
         [] \<Rightarrow> from_display ''invalid base58 address''
       | version # rest \<Rightarrow>
           and_then (hash20 rest) (\<lambda>hash.
             if version \<in> set p2pkh_versions
             then Ok \<lparr>script_pubkey = p2pkh_script B hash, locking_script = LockP2pkh\<rparr>
             else if version \<in> set p2sh_versions
             then Ok \<lparr>script_pubkey = p2sh_script B hash, locking_script = LockP2sh\<rparr>
             else from_display ''unsupported address version''))"

definition from_prefixed_address ::
  "script_lib \<Rightarrow> address_lib \<Rightarrow> string \<Rightarrow> u8 list \<Rightarrow> u8 list \<Rightarrow> string option \<Rightarrow> address_script signer_result" where
  "from_prefixed_address B A address p2pkh_versions p2sh_versions hrp =
     (case (hrp, segwit_decode A address) of
        (Some expected, Some (address_hrp, version, program)) \<Rightarrow>
          if address_hrp = expected then from_segwit B version program
          else from_base58_address B A address p2pkh_versions p2sh_versions
      | _ \<Rightarrow> from_base58_address B A address p2pkh_versions p2sh_versions)"

definition bitcoin_script :: "address_lib \<Rightarrow> string \<Rightarrow> address_script signer_result" where
  "bitcoin_script A address =
     and_then (map_err_display (native_from_str A address)) (\<lambda>unchecked.
     and_then (map_err_display (require_mainnet A unchecked)) (\<lambda>a.
       let spk = native_script_pubkey a;
           result = (\<lambda>l. Ok \<lparr>script_pubkey = spk, locking_script = l\<rparr>);
           unsupported = from_display ''unsupported Bitcoin address type''
       in case native_data a of
            DataP2pkh \<Rightarrow> result LockP2pkh
          | DataP2sh \<Rightarrow> result LockP2sh
          | DataSegwit \<Rightarrow> (case native_type a of
                Some TypeP2wpkh \<Rightarrow> result LockP2wpkh
              | Some TypeP2wsh \<Rightarrow> result LockP2wsh
              | Some TypeP2tr \<Rightarrow> result LockP2tr
              | _ \<Rightarrow> unsupported)
          | DataOther \<Rightarrow> unsupported))"

definition BITCOINCASH_PREFIX :: string where "BITCOINCASH_PREFIX = ''bitcoincash:''"

definition decode_cash_address :: "address_lib \<Rightarrow> string \<Rightarrow> string + cash_address" where
  "decode_cash_address A address =
     (case cash_decode A address of
        Inr a \<Rightarrow> Inr a
      | Inl error \<Rightarrow>
          if CHR '':'' \<in> set address then Inl error
          else (case cash_decode A (BITCOINCASH_PREFIX @ address) of Inr a \<Rightarrow> Inr a | Inl _ \<Rightarrow> Inl error))"

definition bitcoin_cash_script :: "script_lib \<Rightarrow> address_lib \<Rightarrow> string \<Rightarrow> address_script signer_result" where
  "bitcoin_cash_script B A address =
     and_then (map_err_display (decode_cash_address A address)) (\<lambda>a.
       if \<not> cash_is_main a then from_display ''unsupported Bitcoin Cash address network''
       else and_then (hash20 (cash_body a)) (\<lambda>hash.
         case cash_hash_type a of
           CashKey \<Rightarrow> Ok \<lparr>script_pubkey = p2pkh_script B hash, locking_script = LockP2pkh\<rparr>
         | CashScript \<Rightarrow> Ok \<lparr>script_pubkey = p2sh_script B hash, locking_script = LockP2sh\<rparr>))"

definition litecoin_script :: "script_lib \<Rightarrow> address_lib \<Rightarrow> string \<Rightarrow> address_script signer_result" where
  "litecoin_script B A address = from_prefixed_address B A address [48] [50] (Some ''ltc'')"

definition doge_script :: "script_lib \<Rightarrow> address_lib \<Rightarrow> string \<Rightarrow> address_script signer_result" where
  "doge_script B A address = from_prefixed_address B A address [30] [22] None"

definition TRANSPARENT_P2PKH_PREFIX :: bytes where "TRANSPARENT_P2PKH_PREFIX = [0x1c, 0xb8]"
definition TRANSPARENT_P2SH_PREFIX :: bytes where "TRANSPARENT_P2SH_PREFIX = [0x1c, 0xbd]"

definition zcash_script :: "script_lib \<Rightarrow> address_lib \<Rightarrow> string \<Rightarrow> address_script signer_result" where
  "zcash_script B A address =
     and_then (map_err_display (bs58_with_check A address)) (\<lambda>payload.
       if length payload \<noteq> 22 then from_display ''invalid Zcash address''
       else and_then (hash20 (drop 2 payload)) (\<lambda>hash.
         if take 2 payload = TRANSPARENT_P2PKH_PREFIX
         then Ok \<lparr>script_pubkey = p2pkh_script B hash, locking_script = LockP2pkh\<rparr>
         else if take 2 payload = TRANSPARENT_P2SH_PREFIX
         then Ok \<lparr>script_pubkey = p2sh_script B hash, locking_script = LockP2sh\<rparr>
         else from_display ''unsupported Zcash address version''))"

fun script_for_address ::
  "script_lib \<Rightarrow> address_lib \<Rightarrow> bitcoin_chain \<Rightarrow> string \<Rightarrow> address_script signer_result" where
  "script_for_address B A BtcBitcoin address = bitcoin_script A address"
| "script_for_address B A BtcLitecoin address = litecoin_script B A address"
| "script_for_address B A BtcDoge address = doge_script B A address"
| "script_for_address B A BtcBitcoinCash address = bitcoin_cash_script B A address"
| "script_for_address B A BtcZcash address = zcash_script B A address"

end
