(* ===== verification/Bitcoin_Planner.thy ===== *)
theory Bitcoin_Planner
  imports Bitcoin_Script "HOL-Library.Product_Lexorder" "HOL-Library.Multiset"
begin

text \<open>
  \<open>gem_bitcoin/src/signer/planner\<close>: which coins a payment spends, what fee it pays and what change
  it returns. Amounts are 64-bit words, as \<open>bitcoin::Amount\<close> is; the 128-bit intermediate values
  of \<open>fee.rs\<close> are natural numbers, cut to 64 bits where the code says \<open>as u64\<close>.
\<close>

section \<open>Data\<close>

record outpoint =
  txid :: bytes
  vout :: u32

record plan_input =
  previous_output :: outpoint
  in_value :: u64
  in_script_pubkey :: bytes
  in_unlocking_script :: unlocking_script
  in_sequence :: u32

record plan_output =
  out_value :: u64
  out_script_pubkey :: bytes

record spend_plan =
  plan_inputs :: "plan_input list"
  plan_outputs :: "plan_output list"
  plan_fee :: u64

record spend_request =
  req_chain :: bitcoin_chain
  req_sender_address :: string
  req_destination_address :: string
  req_amount :: u64
  req_is_max :: bool
  req_fee_rate :: u64
  req_memo :: "bytes option"
  req_utxos :: "utxo list"

datatype spend_target = Exact u64 | Max

text \<open>
  Of the \<open>bitcoin\<close> crate: \<open>Txid::from_str\<close>, and the order of \<open>OutPoint\<close> as a rank.
\<close>

record tx_lib =
  txid_from_str :: "string \<Rightarrow> bytes option"
  outpoint_rank :: "outpoint \<Rightarrow> nat"

definition serialized_len :: "plan_output \<Rightarrow> nat" where
  "serialized_len out = 8 + varint_len (length (out_script_pubkey out)) + length (out_script_pubkey out)"

section \<open>Fee estimate\<close>

definition WITNESS_SCALE_FACTOR :: nat where "WITNESS_SCALE_FACTOR = 4"
definition TRANSACTION_FIXED_BYTES :: nat where "TRANSACTION_FIXED_BYTES = 8"
definition SEGWIT_MARKER_FLAG_WEIGHT :: nat where "SEGWIT_MARKER_FLAG_WEIGHT = 2"
definition P2PKH_INPUT_BYTES :: nat where "P2PKH_INPUT_BYTES = 148"
definition P2WPKH_INPUT_BASE_BYTES :: nat where "P2WPKH_INPUT_BASE_BYTES = 41"
definition P2WPKH_INPUT_WITNESS_BYTES :: nat where "P2WPKH_INPUT_WITNESS_BYTES = 108"
definition ZCASH_MARGINAL_FEE :: nat where "ZCASH_MARGINAL_FEE = 5000"
definition ZCASH_GRACE_ACTIONS :: nat where "ZCASH_GRACE_ACTIONS = 2"
definition ZCASH_P2PKH_INPUT_SIZE :: nat where "ZCASH_P2PKH_INPUT_SIZE = 150"
definition ZCASH_P2PKH_OUTPUT_SIZE :: nat where "ZCASH_P2PKH_OUTPUT_SIZE = 34"

lemmas fee_consts = WITNESS_SCALE_FACTOR_def TRANSACTION_FIXED_BYTES_def SEGWIT_MARKER_FLAG_WEIGHT_def
  P2PKH_INPUT_BYTES_def P2WPKH_INPUT_BASE_BYTES_def P2WPKH_INPUT_WITNESS_BYTES_def
  ZCASH_MARGINAL_FEE_def ZCASH_GRACE_ACTIONS_def ZCASH_P2PKH_INPUT_SIZE_def ZCASH_P2PKH_OUTPUT_SIZE_def

text \<open>\<open>FeeUnitType::SatVb.scale_factor()\<close> is \<open>10.pow(1)\<close>.\<close>

definition sat_vb_scale_factor :: nat where "sat_vb_scale_factor = 10 ^ 1"

fun input_weight :: "unlocking_script \<Rightarrow> nat" where
  "input_weight P2pkh = P2PKH_INPUT_BYTES * WITNESS_SCALE_FACTOR"
| "input_weight P2wpkh = P2WPKH_INPUT_BASE_BYTES * WITNESS_SCALE_FACTOR + P2WPKH_INPUT_WITNESS_BYTES"

definition transaction_base_weight :: "nat \<Rightarrow> nat \<Rightarrow> bool \<Rightarrow> nat" where
  "transaction_base_weight input_count output_count has_witness =
     (TRANSACTION_FIXED_BYTES + varint_len input_count + varint_len output_count) * WITNESS_SCALE_FACTOR
     + (if has_witness then SEGWIT_MARKER_FLAG_WEIGHT else 0)"

definition estimate_bitcoin_fee :: "plan_input list \<Rightarrow> plan_output list \<Rightarrow> u64 \<Rightarrow> nat" where
  "estimate_bitcoin_fee inputs outputs fee_rate =
     (let has_witness = list_ex (\<lambda>i. in_unlocking_script i = P2wpkh) inputs;
          inputs_weight = sum_list (map (\<lambda>i. input_weight (in_unlocking_script i)) inputs);
          outputs_weight = sum_list (map (\<lambda>out. serialized_len out * WITNESS_SCALE_FACTOR) outputs);
          weight = transaction_base_weight (length inputs) (length outputs) has_witness
                     + inputs_weight + outputs_weight
      in div_ceil (div_ceil weight WITNESS_SCALE_FACTOR * unat fee_rate) sat_vb_scale_factor)"

definition estimate_zcash_fee :: "plan_input list \<Rightarrow> plan_output list \<Rightarrow> nat" where
  "estimate_zcash_fee inputs outputs =
     (let input_total_size = length inputs * ZCASH_P2PKH_INPUT_SIZE;
          output_total_size = sum_list (map serialized_len outputs);
          input_actions = div_ceil input_total_size ZCASH_P2PKH_INPUT_SIZE;
          output_actions = div_ceil output_total_size ZCASH_P2PKH_OUTPUT_SIZE;
          logical_actions = max input_actions output_actions
      in ZCASH_MARGINAL_FEE * max ZCASH_GRACE_ACTIONS logical_actions)"

definition exact_fee :: "bitcoin_chain \<Rightarrow> plan_input list \<Rightarrow> plan_output list \<Rightarrow> u64 \<Rightarrow> nat" where
  "exact_fee chain inputs outputs fee_rate =
     (case chain of BtcZcash \<Rightarrow> estimate_zcash_fee inputs outputs
                  | _ \<Rightarrow> estimate_bitcoin_fee inputs outputs fee_rate)"

definition estimate_fee :: "bitcoin_chain \<Rightarrow> plan_input list \<Rightarrow> plan_output list \<Rightarrow> u64 \<Rightarrow> u64" where
  "estimate_fee chain inputs outputs fee_rate = of_nat (exact_fee chain inputs outputs fee_rate)"

section \<open>Outputs\<close>

definition MAX_OP_RETURN_BYTES :: nat where "MAX_OP_RETURN_BYTES = 80"

definition spend_outputs :: "u64 \<Rightarrow> bytes \<Rightarrow> plan_output option \<Rightarrow> plan_output list" where
  "spend_outputs amount payment_script memo_output =
     \<lparr>out_value = amount, out_script_pubkey = payment_script\<rparr> # (case memo_output of None \<Rightarrow> [] | Some m \<Rightarrow> [m])"

definition op_return_output :: "script_lib \<Rightarrow> bytes \<Rightarrow> plan_output signer_result" where
  "op_return_output B data =
     (if length data > MAX_OP_RETURN_BYTES then invalid_input_err ''Bitcoin memo is too large''
      else and_then (map_err_display (push_bytes_try_from B data)) (\<lambda>push.
             Ok \<lparr>out_value = 0, out_script_pubkey = [op_return B] @ push_slice B push\<rparr>))"

definition dust_threshold :: "script_lib \<Rightarrow> bitcoin_chain \<Rightarrow> bytes \<Rightarrow> u64" where
  "dust_threshold B chain spk =
     (if is_op_return B spk then 0
      else let threshold = minimal_non_dust B spk
           in case chain of BtcDoge \<Rightarrow> saturating_mul threshold (minimum_byte_fee chain) | _ \<Rightarrow> threshold)"

section \<open>Inputs\<close>

definition FINAL_SEQUENCE :: u32 where "FINAL_SEQUENCE = 0xffffffff"
definition RBF_SEQUENCE :: u32 where "RBF_SEQUENCE = 0xfffffffd"

definition chain_message :: "bitcoin_chain \<Rightarrow> string \<Rightarrow> string" where
  "chain_message chain reason = chain_name chain @ '' '' @ reason"

definition zip_option :: "'a option \<Rightarrow> 'b option \<Rightarrow> ('a \<times> 'b) option" where
  "zip_option a b = (case (a, b) of (Some x, Some y) \<Rightarrow> Some (x, y) | _ \<Rightarrow> None)"

definition spendable_input ::
  "script_lib \<Rightarrow> address_lib \<Rightarrow> tx_lib \<Rightarrow> bitcoin_chain \<Rightarrow> bytes \<Rightarrow> u32 \<Rightarrow> utxo \<Rightarrow> plan_input signer_result" where
  "spendable_input B A X chain sender_hash sequence u =
     and_then (script_for_address B A chain (utxo_address u)) (\<lambda>address.
     and_then (ok_or (zip_option (unlocking_script_of B address) (public_key_hash_of B address))
                (InvalidInput (chain_message chain ''UTXO address type is unsupported''))) (\<lambda>(unlocking, pkh).
       if pkh \<noteq> sender_hash
       then invalid_input_err (chain_message chain ''UTXO address does not match sender address'')
       else and_then (value_u64 u) (\<lambda>v.
         if v = 0 then invalid_input_err (chain_message chain ''UTXO amount is zero'')
         else and_then (if 0 \<le> utxo_vout u then Ok (of_int (utxo_vout u))
                        else invalid_input_err (chain_message chain ''UTXO output index is invalid'')) (\<lambda>index.
         and_then (ok_or (txid_from_str X (utxo_transaction_id u))
                    (InvalidInput (chain_message chain ''UTXO transaction id is invalid''))) (\<lambda>id.
           Ok \<lparr>previous_output = \<lparr>txid = id, vout = index\<rparr>, in_value = v,
               in_script_pubkey = script_pubkey address, in_unlocking_script = unlocking,
               in_sequence = sequence\<rparr>)))))"

definition spendable_inputs ::
  "script_lib \<Rightarrow> address_lib \<Rightarrow> tx_lib \<Rightarrow> bitcoin_chain \<Rightarrow> string \<Rightarrow> utxo list \<Rightarrow> plan_input list signer_result" where
  "spendable_inputs B A X chain sender utxos =
     and_then (script_for_address B A chain sender) (\<lambda>sender_script.
     and_then (ok_or (map_option snd (zip_option (unlocking_script_of B sender_script) (public_key_hash_of B sender_script)))
                (InvalidInput (chain_message chain ''sender address type is unsupported''))) (\<lambda>sender_hash.
       let sequence = (case chain of BtcZcash \<Rightarrow> FINAL_SEQUENCE | _ \<Rightarrow> RBF_SEQUENCE)
       in traverse (spendable_input B A X chain sender_hash sequence) utxos))"

section \<open>Requests\<close>

definition validate_native_chain_asset :: "bitcoin_chain \<Rightarrow> asset \<Rightarrow> string \<Rightarrow> unit signer_result" where
  "validate_native_chain_asset chain asset message =
     (if asset_chain (asset_ident asset) = get_chain chain \<and> is_native (asset_ident asset) then Ok () else invalid_input_err message)"

definition spend_fee_rate :: "bitcoin_chain \<Rightarrow> signer_input \<Rightarrow> u64 signer_result" where
  "spend_fee_rate chain input =
     and_then (gas_price_u64 (input_fee input)) (\<lambda>p. Ok (max p (minimum_custom_fee_rate chain)))"

definition request_transfer :: "bitcoin_chain \<Rightarrow> signer_input \<Rightarrow> spend_request signer_result" where
  "request_transfer chain input =
     and_then (validate_native_chain_asset chain (get_asset (input_type input))
                 ''unsupported Bitcoin asset transfer'') (\<lambda>_.
     and_then (value_as_u64 input) (\<lambda>amount.
     and_then (spend_fee_rate chain input) (\<lambda>rate.
     and_then (get_utxos (metadata input)) (\<lambda>us.
       Ok \<lparr>req_chain = chain, req_sender_address = sender_address input,
           req_destination_address = destination_address input, req_amount = amount,
           req_is_max = is_max_value input, req_fee_rate = rate,
           req_memo = map_option as_bytes (get_memo input), req_utxos = us\<rparr>))))"

definition request_swap :: "bitcoin_chain \<Rightarrow> signer_input \<Rightarrow> spend_request signer_result" where
  "request_swap chain input =
     (case get_swap_data (input_type input) of
        Inl _ \<Rightarrow> invalid_input_err ''unsupported Bitcoin transaction type''
      | Inr swap \<Rightarrow>
          and_then (validate_native_chain_asset chain (get_asset (input_type input))
                      ''unsupported Bitcoin swap asset'') (\<lambda>_.
          and_then (case data_type (quote_data swap) of
                      SwapTransfer \<Rightarrow> Ok (map_option as_bytes (swap_memo (quote_data swap)))
                    | SwapContract \<Rightarrow> invalid_input_err ''unsupported Bitcoin contract swap'') (\<lambda>note.
          and_then (ok_or (nat_to_u64 (swap_data_value (quote_data swap)))
                      (InvalidInput (chain_message chain ''swap amount is too large''))) (\<lambda>amount.
          and_then (spend_fee_rate chain input) (\<lambda>rate.
          and_then (get_utxos (metadata input)) (\<lambda>us.
            Ok \<lparr>req_chain = chain, req_sender_address = sender_address input,
                req_destination_address = swap_to (quote_data swap), req_amount = amount,
                req_is_max = (case use_max_amount (quote swap) of Some b \<Rightarrow> b | None \<Rightarrow> is_max_value input),
                req_fee_rate = rate, req_memo = note, req_utxos = us\<rparr>))))))"

section \<open>Selection\<close>

definition build_max_plan ::
  "script_lib \<Rightarrow> bitcoin_chain \<Rightarrow> u64 \<Rightarrow> bytes \<Rightarrow> plan_output option \<Rightarrow> plan_input list \<Rightarrow> u64 \<Rightarrow> spend_plan signer_result" where
  "build_max_plan B chain fee_rate payment_script memo_output selected selected_amount =
     (let outputs = spend_outputs 0 payment_script memo_output;
          fee = estimate_fee chain selected outputs fee_rate
      in and_then (ok_or (checked_sub selected_amount fee) InsufficientFunds) (\<lambda>v.
           if v = 0 \<or> v < dust_threshold B chain payment_script then Err InsufficientFunds
           else Ok \<lparr>plan_inputs = selected, plan_outputs = outputs[0 := (outputs ! 0)\<lparr>out_value := v\<rparr>], plan_fee = fee\<rparr>))"

definition build_exact_plan ::
  "script_lib \<Rightarrow> bitcoin_chain \<Rightarrow> u64 \<Rightarrow> u64 \<Rightarrow> bytes \<Rightarrow> bytes \<Rightarrow> plan_output option \<Rightarrow> plan_input list \<Rightarrow> u64
     \<Rightarrow> spend_plan option" where
  "build_exact_plan B chain v fee_rate payment_script change_script memo_output selected selected_amount =
     (let outputs = spend_outputs v payment_script memo_output;
          outputs_with_change = outputs @ [\<lparr>out_value = 0, out_script_pubkey = change_script\<rparr>];
          fee_with_change = estimate_fee chain selected outputs_with_change fee_rate
      in case Option.bind (checked_sub selected_amount v) (\<lambda>r. checked_sub r fee_with_change) of
           None \<Rightarrow> None
         | Some remainder \<Rightarrow>
             if remainder \<ge> dust_threshold B chain change_script
             then Some \<lparr>plan_inputs = selected,
                        plan_outputs = outputs @ [\<lparr>out_value = remainder, out_script_pubkey = change_script\<rparr>],
                        plan_fee = fee_with_change\<rparr>
             else (let fee_without_change = estimate_fee chain selected outputs fee_rate
                   in case Option.bind (checked_sub selected_amount v) (\<lambda>r. checked_sub r fee_without_change) of
                        None \<Rightarrow> None
                      | Some remainder \<Rightarrow>
                          Some \<lparr>plan_inputs = selected, plan_outputs = outputs,
                                plan_fee = fee_without_change + remainder\<rparr>))"

text \<open>
  The loop over the sorted inputs: \<open>selected\<close> and \<open>amount\<close> are its variables, the list is what is
  left of the iterator, so that \<open>index + 1 < input_count\<close> is \<open>rest \<noteq> []\<close>.
\<close>

fun select_loop ::
  "script_lib \<Rightarrow> bitcoin_chain \<Rightarrow> spend_target \<Rightarrow> u64 \<Rightarrow> bytes \<Rightarrow> bytes \<Rightarrow> plan_output option
     \<Rightarrow> plan_input list \<Rightarrow> u64 \<Rightarrow> plan_input list \<Rightarrow> spend_plan signer_result" where
  "select_loop B chain target fee_rate payment_script change_script memo_output selected amount [] =
     Err InsufficientFunds"
| "select_loop B chain target fee_rate payment_script change_script memo_output selected amount (candidate # rest) =
     (let amount' = amount + in_value candidate;
          selected' = selected @ [candidate]
      in case target of
           Max \<Rightarrow>
             if rest \<noteq> []
             then select_loop B chain target fee_rate payment_script change_script memo_output selected' amount' rest
             else build_max_plan B chain fee_rate payment_script memo_output selected' amount'
         | Exact v \<Rightarrow>
             (case build_exact_plan B chain v fee_rate payment_script change_script memo_output selected' amount' of
                Some plan \<Rightarrow> Ok plan
              | None \<Rightarrow> select_loop B chain target fee_rate payment_script change_script memo_output selected' amount' rest))"

definition input_order :: "tx_lib \<Rightarrow> plan_input \<Rightarrow> nat \<times> nat" where
  "input_order X i = (unat (in_value i), outpoint_rank X (previous_output i))"

definition select_inputs_and_build_plan ::
  "script_lib \<Rightarrow> tx_lib \<Rightarrow> bitcoin_chain \<Rightarrow> spend_target \<Rightarrow> u64 \<Rightarrow> bytes \<Rightarrow> bytes \<Rightarrow> plan_output option
     \<Rightarrow> plan_input list \<Rightarrow> spend_plan signer_result" where
  "select_inputs_and_build_plan B X chain target fee_rate payment_script change_script memo_output spendable =
     (let inputs = sort_key (input_order X) spendable;
          total = sum_list (map (\<lambda>i. unat (in_value i)) inputs)
      in if total > 2 ^ 64 - 1 then invalid_input_err ''Bitcoin amount overflow''
         else select_loop B chain target fee_rate payment_script change_script memo_output [] 0 inputs)"

definition plan ::
  "script_lib \<Rightarrow> address_lib \<Rightarrow> tx_lib \<Rightarrow> spend_request \<Rightarrow> spend_plan signer_result" where
  "plan B A X request =
     (if req_utxos request = [] then invalid_input_err ''missing input UTXOs''
      else if \<not> req_is_max request \<and> req_amount request = 0
      then invalid_input_err ''invalid transaction amount''
      else and_then (script_for_address B A (req_chain request) (req_destination_address request)) (\<lambda>payment.
        if \<not> req_is_max request \<and> req_amount request < dust_threshold B (req_chain request) (script_pubkey payment)
        then Err DustThreshold
        else and_then (script_for_address B A (req_chain request) (req_sender_address request)) (\<lambda>change.
             and_then (case req_memo request of
                         None \<Rightarrow> Ok None
                       | Some m \<Rightarrow> and_then (op_return_output B m) (\<lambda>out. Ok (Some out))) (\<lambda>memo_output.
             and_then (spendable_inputs B A X (req_chain request) (req_sender_address request) (req_utxos request)) (\<lambda>inputs.
               select_inputs_and_build_plan B X (req_chain request)
                 (if req_is_max request then Max else Exact (req_amount request)) (req_fee_rate request)
                 (script_pubkey payment) (script_pubkey change) memo_output inputs)))))"

definition estimate_transaction_fee ::
  "script_lib \<Rightarrow> address_lib \<Rightarrow> tx_lib \<Rightarrow> bitcoin_chain \<Rightarrow> transaction_load_input \<Rightarrow> transaction_fee signer_result" where
  "estimate_transaction_fee B A X chain input =
     (let si = transaction_load_input.extend input (signer_input.fields (default_fee input))
      in and_then (case input_type input of
                     TransferInput _ \<Rightarrow> request_transfer chain si
                   | SwapInput _ _ _ \<Rightarrow> request_swap chain si
                   | _ \<Rightarrow> invalid_input_err ''unsupported Bitcoin transaction type'') (\<lambda>request.
         and_then (plan B A X request) (\<lambda>p.
           Ok \<lparr>fee_total = int (unat (plan_fee p)), gas_price_type = load_gas_price input, fee_gas_limit = 1, fee_options = Map.empty\<rparr>)))"

end
