(* ===== verification/Bitcoin_Plans.thy ===== *)
theory Bitcoin_Plans
  imports Bitcoin_Planner
begin

text \<open>
  What the Bitcoin planner promises: money is conserved, the recipient gets the exact amount at
  the first output, change and dust are handled as documented, the fee covers the estimate for the
  transaction that is built, and the selection is the shortest affordable prefix of the coins in
  order of value.
\<close>

section \<open>Amounts\<close>

definition coins :: "plan_input list \<Rightarrow> nat" where
  "coins is = sum_list (map (\<lambda>i. unat (in_value i)) is)"

definition paid :: "plan_output list \<Rightarrow> nat" where
  "paid os = sum_list (map (\<lambda>out. unat (out_value out)) os)"

lemma coins_simps [simp]: "coins [] = 0" "coins (i # is) = unat (in_value i) + coins is"
    "coins (xs @ ys) = coins xs + coins ys"
  by (simp_all add: coins_def)

lemma paid_simps [simp]: "paid [] = 0" "paid (out # os) = unat (out_value out) + paid os"
    "paid (xs @ ys) = paid xs + paid ys"
  by (simp_all add: paid_def)

lemma coins_mset: "mset xs = mset ys \<Longrightarrow> coins xs = coins ys"
  unfolding coins_def by (metis mset_map sum_mset_sum_list)

lemma coins_take_mono: "j \<le> k \<Longrightarrow> coins (take j xs) \<le> coins (take k xs)"
  by (metis coins_simps(3) le_add1 le_add_diff_inverse take_add)

text \<open>A fee depends on the scripts of the outputs only, not on their values.\<close>

lemma serialized_len_script: "out_script_pubkey a = out_script_pubkey b \<Longrightarrow> serialized_len a = serialized_len b"
  by (simp add: serialized_len_def)

lemma exact_fee_scripts:
  assumes "map out_script_pubkey xs = map out_script_pubkey ys"
  shows "exact_fee chain is xs rate = exact_fee chain is ys rate"
proof -
  have len: "length xs = length ys" using assms map_eq_imp_length_eq by blast
  have "map serialized_len xs = map serialized_len ys"
    using len assms by (induction xs ys rule: list_induct2) (auto intro: serialized_len_script)
  then have sum: "sum_list (map serialized_len xs) = sum_list (map serialized_len ys)" by (rule arg_cong)
  show ?thesis
    using len sum by (cases chain) (simp_all add: exact_fee_def estimate_bitcoin_fee_def estimate_zcash_fee_def
        sum_list_mult_const)
qed

lemma estimate_fee_scripts:
  "map out_script_pubkey xs = map out_script_pubkey ys \<Longrightarrow> estimate_fee chain is xs rate = estimate_fee chain is ys rate"
  unfolding estimate_fee_def by (rule arg_cong, rule exact_fee_scripts)

section \<open>Building a plan\<close>

definition memo_outputs :: "plan_output option \<Rightarrow> plan_output list" where
  "memo_outputs m = (case m of None \<Rightarrow> [] | Some out \<Rightarrow> [out])"

definition memo_free :: "plan_output option \<Rightarrow> bool" where
  "memo_free m \<longleftrightarrow> (case m of None \<Rightarrow> True | Some out \<Rightarrow> out_value out = 0)"

definition payment :: "u64 \<Rightarrow> bytes \<Rightarrow> plan_output" where
  "payment v spk = \<lparr>out_value = v, out_script_pubkey = spk\<rparr>"

lemma spend_outputs_eq: "spend_outputs v spk m = payment v spk # memo_outputs m"
  by (simp add: spend_outputs_def payment_def memo_outputs_def)

lemma paid_memo [simp]: "memo_free m \<Longrightarrow> paid (memo_outputs m) = 0"
  by (auto simp: memo_free_def memo_outputs_def split: option.splits)

lemma payment_simps [simp]: "out_value (payment v spk) = v" "out_script_pubkey (payment v spk) = spk"
  by (simp_all add: payment_def)

text \<open>
  \<open>well_planned\<close> is the contract of the two plan builders, for a given list of selected inputs: the
  payment first, then the memo, then at most one change output that is not dust; the fee covers the
  estimate for the transaction and, when there is change, is the estimate; nothing is lost.
\<close>

definition well_planned ::
  "script_lib \<Rightarrow> bitcoin_chain \<Rightarrow> u64 \<Rightarrow> bytes \<Rightarrow> bytes \<Rightarrow> plan_output option \<Rightarrow> spend_plan \<Rightarrow> bool" where
  "well_planned B chain rate pay_spk change_spk m p \<longleftrightarrow>
     (\<exists>v change.
        plan_outputs p = payment v pay_spk # memo_outputs m @ change
        \<and> (change = [] \<or> (\<exists>r. change = [payment r change_spk] \<and> dust_threshold B chain change_spk \<le> r
              \<and> plan_fee p = estimate_fee chain (plan_inputs p) (plan_outputs p) rate)))
     \<and> estimate_fee chain (plan_inputs p) (plan_outputs p) rate \<le> plan_fee p
     \<and> coins (plan_inputs p) = paid (plan_outputs p) + unat (plan_fee p)"

lemma build_max_plan_Ok:
  assumes "build_max_plan B chain rate spk m selected amount = Ok p"
    and "unat amount = coins selected" and "memo_free m"
  shows "plan_inputs p = selected"
    and "\<exists>v. plan_outputs p = payment v spk # memo_outputs m \<and> v \<noteq> 0 \<and> dust_threshold B chain spk \<le> v"
    and "plan_fee p = estimate_fee chain selected (plan_outputs p) rate"
    and "coins selected = paid (plan_outputs p) + unat (plan_fee p)"
proof -
  let ?outs = "payment 0 spk # memo_outputs m"
  let ?fee = "estimate_fee chain selected ?outs rate"
  obtain v where v: "checked_sub amount ?fee = Some v" "v \<noteq> 0" "dust_threshold B chain spk \<le> v"
      and p: "p = \<lparr>plan_inputs = selected, plan_outputs = payment v spk # memo_outputs m, plan_fee = ?fee\<rparr>"
    using assms(1) by (auto simp: build_max_plan_def Let_def result_simps spend_outputs_eq payment_def
        not_less split: if_splits)
  show "plan_inputs p = selected" using p by simp
  show "\<exists>v. plan_outputs p = payment v spk # memo_outputs m \<and> v \<noteq> 0 \<and> dust_threshold B chain spk \<le> v"
    using p v by auto
  show "plan_fee p = estimate_fee chain selected (plan_outputs p) rate"
    unfolding p using estimate_fee_scripts [of ?outs "payment v spk # memo_outputs m"] by simp
  show "coins selected = paid (plan_outputs p) + unat (plan_fee p)"
    using unat_checked_sub [OF v(1)] assms(2,3) p by simp
qed

lemma build_exact_plan_Some:
  assumes "build_exact_plan B chain v rate spk change_spk m selected amount = Some p"
    and "unat amount = coins selected" and "memo_free m"
  shows "plan_inputs p = selected" and "hd (plan_outputs p) = payment v spk"
    and "well_planned B chain rate spk change_spk m p"
    and "unat v + unat (estimate_fee chain selected (payment v spk # memo_outputs m @ [payment 0 change_spk]) rate) \<le> coins selected"
proof -
  let ?outs = "payment v spk # memo_outputs m"
  let ?fee = "\<lambda>outs. estimate_fee chain selected outs rate"
  note def = assms(1) [unfolded build_exact_plan_def spend_outputs_eq payment_def [symmetric] Let_def]
  obtain r1 r where r: "checked_sub amount v = Some r1" "checked_sub r1 (?fee (?outs @ [payment 0 change_spk])) = Some r"
    using def by (auto split: option.splits bind_splits)
  have fits: "coins selected = unat v + unat (?fee (?outs @ [payment 0 change_spk])) + unat r"
    using unat_checked_sub [OF r(1)] unat_checked_sub [OF r(2)] assms(2) by simp
  then show "unat v + unat (?fee (payment v spk # memo_outputs m @ [payment 0 change_spk])) \<le> coins selected"
    by simp
  consider (change) "dust_threshold B chain change_spk \<le> r"
      "p = \<lparr>plan_inputs = selected, plan_outputs = ?outs @ [payment r change_spk], plan_fee = ?fee (?outs @ [payment 0 change_spk])\<rparr>"
    | (nochange) q where "checked_sub r1 (?fee ?outs) = Some q"
      "p = \<lparr>plan_inputs = selected, plan_outputs = ?outs, plan_fee = ?fee ?outs + q\<rparr>"
    using def r by (auto split: option.splits if_splits)
  then show "plan_inputs p = selected" "hd (plan_outputs p) = payment v spk"
      "well_planned B chain rate spk change_spk m p"
  proof (atomize (full), cases)
    case change
    have "?fee (?outs @ [payment 0 change_spk]) = ?fee (?outs @ [payment r change_spk])"
      by (rule estimate_fee_scripts) simp
    then show "plan_inputs p = selected \<and> hd (plan_outputs p) = payment v spk \<and> well_planned B chain rate spk change_spk m p"
      using change fits assms(3) by (auto simp: well_planned_def)
  next
    case nochange
    have le: "unat r1 = unat (?fee ?outs) + unat q" by (rule unat_checked_sub [OF nochange(1)])
    then have "unat (?fee ?outs + q) = unat (?fee ?outs) + unat q"
      by (metis unat_add_le unsigned_less)
    then show "plan_inputs p = selected \<and> hd (plan_outputs p) = payment v spk \<and> well_planned B chain rate spk change_spk m p"
      using nochange le unat_checked_sub [OF r(1)] assms(2,3)
      by (auto simp: well_planned_def word_le_nat_alt intro!: exI [of _ v] exI [of _ "[]"])
  qed
qed

section \<open>Fees grow with the transaction\<close>

lemma varint_len_mono: "m \<le> n \<Longrightarrow> varint_len m \<le> varint_len n"
  by (auto simp: varint_len_def)

lemma exact_fee_mono:
  "exact_fee chain is os rate \<le> exact_fee chain (is @ is') (os @ os') rate"
proof -
  have base: "transaction_base_weight (length is) (length os) w \<le> transaction_base_weight (length (is @ is')) (length (os @ os')) w'"
    if "w \<longrightarrow> w'" for w w'
    using that varint_len_mono [of "length is" "length (is @ is')"] varint_len_mono [of "length os" "length (os @ os')"]
    by (auto simp: transaction_base_weight_def WITNESS_SCALE_FACTOR_def)
  have "estimate_bitcoin_fee is os rate \<le> estimate_bitcoin_fee (is @ is') (os @ os') rate"
    unfolding estimate_bitcoin_fee_def Let_def
    by (intro div_ceil_mono mult_le_mono add_mono base) (auto simp: list_ex_iff)
  moreover have "estimate_zcash_fee is os \<le> estimate_zcash_fee (is @ is') (os @ os')"
    unfolding estimate_zcash_fee_def Let_def
    by (intro mult_le_mono max.mono div_ceil_mono) (auto simp: ZCASH_P2PKH_INPUT_SIZE_def)
  ultimately show ?thesis by (cases chain) (simp_all add: exact_fee_def)
qed

lemma unat_estimate_fee: "exact_fee chain is os rate < 2 ^ 64 \<Longrightarrow> unat (estimate_fee chain is os rate) = exact_fee chain is os rate"
  by (simp add: estimate_fee_def unat_of_nat_u64 [simplified])

text \<open>
  The coins \<open>is\<close> can pay \<open>v\<close> and the fee of a transaction with a change output.
\<close>

definition affordable ::
  "bitcoin_chain \<Rightarrow> u64 \<Rightarrow> bytes \<Rightarrow> bytes \<Rightarrow> plan_output option \<Rightarrow> u64 \<Rightarrow> plan_input list \<Rightarrow> bool" where
  "affordable chain rate spk change_spk m v is \<longleftrightarrow>
     unat v + exact_fee chain is (spend_outputs v spk m @ [payment 0 change_spk]) rate \<le> coins is"

lemma build_exact_plan_None:
  assumes "exact_fee chain selected (spend_outputs v spk m @ [payment 0 change_spk]) rate < 2 ^ 64"
    and "unat amount = coins selected"
  shows "build_exact_plan B chain v rate spk change_spk m selected amount = None
    \<longleftrightarrow> \<not> affordable chain rate spk change_spk m v selected"
proof -
  let ?outs = "spend_outputs v spk m"
  have le: "exact_fee chain selected ?outs rate \<le> exact_fee chain selected (?outs @ [payment 0 change_spk]) rate"
    using exact_fee_mono [of chain selected ?outs rate "[]"] by simp
  have fees: "unat (estimate_fee chain selected (?outs @ [payment 0 change_spk]) rate) = exact_fee chain selected (?outs @ [payment 0 change_spk]) rate"
      "unat (estimate_fee chain selected ?outs rate) = exact_fee chain selected ?outs rate"
    using assms(1) le by (simp_all add: unat_estimate_fee [simplified])
  show ?thesis
  proof (cases "v \<le> amount")
    case False
    then show ?thesis using assms(2)
      by (simp add: build_exact_plan_def checked_sub_def affordable_def word_le_nat_alt)
  next
    case True
    then have sub: "checked_sub amount v = Some (amount - v)" "unat (amount - v) = coins selected - unat v"
        "unat v \<le> coins selected"
      using assms(2) by (simp_all add: checked_sub_def unat_sub word_le_nat_alt)
    then show ?thesis
      using fees le
      by (auto simp: build_exact_plan_def Let_def payment_def [symmetric] checked_sub_def affordable_def word_le_nat_alt
          split: option.splits if_splits)
  qed
qed

section \<open>Selection\<close>

lemma unat_add_coins:
  assumes "unat amount = coins selected" and "coins selected + (unat (in_value c) + n) < 2 ^ 64"
  shows "unat (amount + in_value c) = coins (selected @ [c])"
  using assms by (simp add: unat_add_le)

lemma select_max:
  assumes "unat amount = coins selected" and "coins selected + coins rest < 2 ^ 64" and "rest \<noteq> []"
  shows "\<exists>amount'. unat amount' = coins (selected @ rest)
     \<and> select_loop B chain Max rate spk change_spk m selected amount rest
        = build_max_plan B chain rate spk m (selected @ rest) amount'"
  using assms
proof (induction rest arbitrary: selected amount)
  case (Cons c rest)
  have a: "unat (amount + in_value c) = coins (selected @ [c])"
    using unat_add_coins [of amount selected c "coins rest"] Cons.prems by simp
  show ?case
  proof (cases "rest = []")
    case True
    then show ?thesis using a by (auto simp: Let_def)
  next
    case False
    then show ?thesis
      using Cons.IH [OF a] Cons.prems by (simp add: Let_def)
  qed
qed simp

lemma select_exact:
  assumes "unat amount = coins selected" and "coins selected + coins rest < 2 ^ 64"
    and "select_loop B chain (Exact v) rate spk change_spk m selected amount rest = Ok p"
  shows "\<exists>k amount'. 0 < k \<and> k \<le> length rest \<and> unat amount' = coins (selected @ take k rest)
     \<and> build_exact_plan B chain v rate spk change_spk m (selected @ take k rest) amount' = Some p
     \<and> (\<forall>j. 0 < j \<and> j < k \<longrightarrow> (\<exists>a. unat a = coins (selected @ take j rest) \<and>
           build_exact_plan B chain v rate spk change_spk m (selected @ take j rest) a = None))"
  using assms
proof (induction rest arbitrary: selected amount)
  case (Cons c rest)
  have a: "unat (amount + in_value c) = coins (selected @ [c])"
    using unat_add_coins [of amount selected c "coins rest"] Cons.prems by simp
  show ?case
  proof (cases "build_exact_plan B chain v rate spk change_spk m (selected @ [c]) (amount + in_value c)")
    case (Some q)
    with Cons.prems a show ?thesis
      by (intro exI [of _ 1] exI [of _ "amount + in_value c"]) (simp add: Let_def)
  next
    case None
    then have rec: "select_loop B chain (Exact v) rate spk change_spk m (selected @ [c]) (amount + in_value c) rest = Ok p"
      using Cons.prems(3) by (simp add: Let_def)
    obtain k amount' where k: "0 < k" "k \<le> length rest" "unat amount' = coins ((selected @ [c]) @ take k rest)"
        "build_exact_plan B chain v rate spk change_spk m ((selected @ [c]) @ take k rest) amount' = Some p"
        and small: "\<And>j. 0 < j \<Longrightarrow> j < k \<Longrightarrow> \<exists>a. unat a = coins ((selected @ [c]) @ take j rest) \<and>
           build_exact_plan B chain v rate spk change_spk m ((selected @ [c]) @ take j rest) a = None"
      using Cons.IH [OF a _ rec] Cons.prems by auto
    have "\<exists>a. unat a = coins (selected @ take j (c # rest)) \<and>
           build_exact_plan B chain v rate spk change_spk m (selected @ take j (c # rest)) a = None"
      if "0 < j" "j < Suc k" for j
    proof (cases "j = 1")
      case True
      then show ?thesis using a None by auto
    next
      case False
      then show ?thesis using small [of "j - 1"] that by (cases j) auto
    qed
    then show ?thesis
      using k by (intro exI [of _ "Suc k"] exI [of _ amount']) auto
  qed
qed simp

lemma select_exact_Err:
  assumes "unat amount = coins selected" and "coins selected + coins rest < 2 ^ 64"
    and "select_loop B chain (Exact v) rate spk change_spk m selected amount rest = Err e"
  shows "e = InsufficientFunds \<and> (\<forall>j. 0 < j \<and> j \<le> length rest \<longrightarrow> (\<exists>a. unat a = coins (selected @ take j rest) \<and>
           build_exact_plan B chain v rate spk change_spk m (selected @ take j rest) a = None))"
  using assms
proof (induction rest arbitrary: selected amount)
  case (Cons c rest)
  have a: "unat (amount + in_value c) = coins (selected @ [c])"
    using unat_add_coins [of amount selected c "coins rest"] Cons.prems by simp
  have none: "build_exact_plan B chain v rate spk change_spk m (selected @ [c]) (amount + in_value c) = None"
      and rec: "select_loop B chain (Exact v) rate spk change_spk m (selected @ [c]) (amount + in_value c) rest = Err e"
    using Cons.prems(3) by (auto simp: Let_def split: option.splits)
  have IH: "e = InsufficientFunds \<and> (\<forall>j. 0 < j \<and> j \<le> length rest \<longrightarrow> (\<exists>a. unat a = coins ((selected @ [c]) @ take j rest) \<and>
           build_exact_plan B chain v rate spk change_spk m ((selected @ [c]) @ take j rest) a = None))"
    using Cons.IH [OF a _ rec] Cons.prems by simp
  have "\<exists>a. unat a = coins (selected @ take j (c # rest)) \<and>
           build_exact_plan B chain v rate spk change_spk m (selected @ take j (c # rest)) a = None"
    if "0 < j" "j \<le> Suc (length rest)" for j
    using that IH a none by (cases j; cases "j = 1") auto
  then show ?case using IH by auto
qed simp

section \<open>Plans of a request\<close>

definition memo_output_of :: "script_lib \<Rightarrow> bytes option \<Rightarrow> plan_output option signer_result" where
  "memo_output_of B note = (case note of None \<Rightarrow> Ok None | Some m \<Rightarrow> and_then (op_return_output B m) (\<lambda>out. Ok (Some out)))"

lemma op_return_output_value: "op_return_output B data = Ok out \<Longrightarrow> out_value out = 0"
  by (auto simp: op_return_output_def result_simps invalid_input_err_def split: if_splits)

lemma memo_output_free: "memo_output_of B note = Ok m \<Longrightarrow> memo_free m"
  by (auto simp: memo_output_of_def memo_free_def result_simps dest: op_return_output_value split: option.splits)

definition req_target :: "spend_request \<Rightarrow> spend_target" where
  "req_target req = (if req_is_max req then Max else Exact (req_amount req))"

text \<open>The pieces of a successful run of the planner.\<close>

lemma plan_OkE:
  assumes "plan B A X req = Ok p"
  obtains pay change m inputs where
    "script_for_address B A (req_chain req) (req_destination_address req) = Ok pay"
    "script_for_address B A (req_chain req) (req_sender_address req) = Ok change"
    "memo_output_of B (req_memo req) = Ok m" "memo_free m"
    "spendable_inputs B A X (req_chain req) (req_sender_address req) (req_utxos req) = Ok inputs"
    "req_utxos req \<noteq> []"
    "\<not> req_is_max req \<Longrightarrow> req_amount req \<noteq> 0 \<and> dust_threshold B (req_chain req) (script_pubkey pay) \<le> req_amount req"
    "coins (sort_key (input_order X) inputs) < 2 ^ 64"
    "select_loop B (req_chain req) (req_target req) (req_fee_rate req) (script_pubkey pay) (script_pubkey change) m
       [] 0 (sort_key (input_order X) inputs) = Ok p"
proof -
  obtain pay change m inputs where ok:
      "script_for_address B A (req_chain req) (req_destination_address req) = Ok pay"
      "script_for_address B A (req_chain req) (req_sender_address req) = Ok change"
      "memo_output_of B (req_memo req) = Ok m"
      "spendable_inputs B A X (req_chain req) (req_sender_address req) (req_utxos req) = Ok inputs"
      "req_utxos req \<noteq> []"
      "\<not> req_is_max req \<longrightarrow> req_amount req \<noteq> 0 \<and> dust_threshold B (req_chain req) (script_pubkey pay) \<le> req_amount req"
      and sel: "select_inputs_and_build_plan B X (req_chain req) (req_target req) (req_fee_rate req)
        (script_pubkey pay) (script_pubkey change) m inputs = Ok p"
    using assms by (auto simp: plan_def result_simps invalid_input_err_def memo_output_of_def req_target_def
        not_less split: if_splits)
  have "coins (sort_key (input_order X) inputs) < 2 ^ 64"
      "select_loop B (req_chain req) (req_target req) (req_fee_rate req) (script_pubkey pay) (script_pubkey change) m
       [] 0 (sort_key (input_order X) inputs) = Ok p"
    using sel by (auto simp: select_inputs_and_build_plan_def Let_def invalid_input_err_def coins_def
        not_less less_Suc_eq_le split: if_splits)
  then show thesis using ok memo_output_free that by blast
qed

lemma spendable_inputs_length:
  "spendable_inputs B A X chain sender us = Ok inputs \<Longrightarrow> length inputs = length us"
  by (auto simp: spendable_inputs_def Let_def result_simps dest: traverse_length)

text \<open>Selecting always takes a non-empty prefix of the sorted coins, and builds a plan on it.\<close>

lemma plan_selects_prefix:
  assumes "unat amount = coins selected" and "coins selected + coins rest < 2 ^ 64" and "rest \<noteq> []"
    and "memo_free m" and "select_loop B chain target rate spk change_spk m selected amount rest = Ok p"
  shows "well_planned B chain rate spk change_spk m p
     \<and> (\<exists>k. 0 < k \<and> k \<le> length rest \<and> plan_inputs p = selected @ take k rest)"
proof (cases target)
  case (Exact v)
  note sel = select_exact [OF assms(1,2) assms(5) [unfolded Exact]]
  obtain k amount' where k: "0 < k" "k \<le> length rest" "unat amount' = coins (selected @ take k rest)"
      "build_exact_plan B chain v rate spk change_spk m (selected @ take k rest) amount' = Some p"
    using sel by auto
  show ?thesis
    using build_exact_plan_Some(1,3) [OF k(4,3) assms(4)] k(1,2) by blast
next
  case Max
  then obtain amount' where a: "unat amount' = coins (selected @ rest)"
      "build_max_plan B chain rate spk m (selected @ rest) amount' = Ok p"
    using select_max [OF assms(1,2,3), of B chain rate spk change_spk m] assms(5) by auto
  note b = build_max_plan_Ok [OF a(2,1) assms(4)]
  have "well_planned B chain rate spk change_spk m p"
    using b by (auto simp: well_planned_def)
  then show ?thesis
    using b(1) assms(3) by (intro conjI exI [of _ "length rest"]) auto
qed

lemma plan_well_planned:
  assumes "plan B A X req = Ok p"
  shows "\<exists>pay change m inputs k.
    script_for_address B A (req_chain req) (req_destination_address req) = Ok pay
    \<and> script_for_address B A (req_chain req) (req_sender_address req) = Ok change
    \<and> memo_output_of B (req_memo req) = Ok m
    \<and> spendable_inputs B A X (req_chain req) (req_sender_address req) (req_utxos req) = Ok inputs
    \<and> 0 < k \<and> plan_inputs p = take k (sort_key (input_order X) inputs)
    \<and> well_planned B (req_chain req) (req_fee_rate req) (script_pubkey pay) (script_pubkey change) m p"
  using assms
proof (rule plan_OkE)
  fix pay change m inputs
  assume ok: "script_for_address B A (req_chain req) (req_destination_address req) = Ok pay"
    "script_for_address B A (req_chain req) (req_sender_address req) = Ok change"
    "memo_output_of B (req_memo req) = Ok m" "memo_free m"
    "spendable_inputs B A X (req_chain req) (req_sender_address req) (req_utxos req) = Ok inputs"
    "req_utxos req \<noteq> []" "coins (sort_key (input_order X) inputs) < 2 ^ 64"
    "select_loop B (req_chain req) (req_target req) (req_fee_rate req) (script_pubkey pay) (script_pubkey change) m
       [] 0 (sort_key (input_order X) inputs) = Ok p"
  have "sort_key (input_order X) inputs \<noteq> []"
    using ok(6) spendable_inputs_length [OF ok(5)] by (metis length_0_conv length_sort)
  then show ?thesis
    using ok plan_selects_prefix [of 0 "[]" "sort_key (input_order X) inputs" m B "req_chain req" "req_target req"]
    by fastforce
qed

lemma plan_sorted_nonempty:
  "spendable_inputs B A X chain sender us = Ok inputs \<Longrightarrow> us \<noteq> [] \<Longrightarrow> sort_key (input_order X) inputs \<noteq> []"
  using spendable_inputs_length by (metis length_0_conv length_sort)

text \<open>The two kinds of plan, traced back to the builder that made them.\<close>

lemma plan_maxE:
  assumes "plan B A X req = Ok p" and "req_is_max req"
  obtains pay change m inputs a where
    "script_for_address B A (req_chain req) (req_destination_address req) = Ok pay"
    "script_for_address B A (req_chain req) (req_sender_address req) = Ok change"
    "memo_output_of B (req_memo req) = Ok m" "memo_free m"
    "spendable_inputs B A X (req_chain req) (req_sender_address req) (req_utxos req) = Ok inputs"
    "unat a = coins (sort_key (input_order X) inputs)"
    "build_max_plan B (req_chain req) (req_fee_rate req) (script_pubkey pay) m (sort_key (input_order X) inputs) a = Ok p"
  using assms(1)
proof (rule plan_OkE)
  fix pay change m inputs
  let ?sorted = "sort_key (input_order X) inputs"
  assume ok: "script_for_address B A (req_chain req) (req_destination_address req) = Ok pay"
    "script_for_address B A (req_chain req) (req_sender_address req) = Ok change"
    "memo_output_of B (req_memo req) = Ok m" "memo_free m"
    "spendable_inputs B A X (req_chain req) (req_sender_address req) (req_utxos req) = Ok inputs"
    and ne: "req_utxos req \<noteq> []" and small: "coins ?sorted < 2 ^ 64"
    and sel: "select_loop B (req_chain req) (req_target req) (req_fee_rate req) (script_pubkey pay)
       (script_pubkey change) m [] 0 ?sorted = Ok p"
  obtain a where "unat a = coins ?sorted"
      "build_max_plan B (req_chain req) (req_fee_rate req) (script_pubkey pay) m ?sorted a = Ok p"
    using select_max [of 0 "[]" ?sorted B "req_chain req" "req_fee_rate req" "script_pubkey pay" "script_pubkey change" m]
      sel small plan_sorted_nonempty [OF ok(5) ne] assms(2) by (auto simp: req_target_def)
  then show thesis by (rule that [OF ok])
qed

lemma plan_exactE:
  assumes "plan B A X req = Ok p" and "\<not> req_is_max req"
  obtains pay change m inputs k a where
    "script_for_address B A (req_chain req) (req_destination_address req) = Ok pay"
    "script_for_address B A (req_chain req) (req_sender_address req) = Ok change"
    "memo_output_of B (req_memo req) = Ok m" "memo_free m"
    "spendable_inputs B A X (req_chain req) (req_sender_address req) (req_utxos req) = Ok inputs"
    "req_amount req \<noteq> 0" "dust_threshold B (req_chain req) (script_pubkey pay) \<le> req_amount req"
    "0 < k" "k \<le> length inputs" "unat a = coins (take k (sort_key (input_order X) inputs))"
    "build_exact_plan B (req_chain req) (req_amount req) (req_fee_rate req) (script_pubkey pay) (script_pubkey change) m
       (take k (sort_key (input_order X) inputs)) a = Some p"
    "\<And>j. 0 < j \<Longrightarrow> j < k \<Longrightarrow> \<exists>a. unat a = coins (take j (sort_key (input_order X) inputs)) \<and>
       build_exact_plan B (req_chain req) (req_amount req) (req_fee_rate req) (script_pubkey pay) (script_pubkey change) m
         (take j (sort_key (input_order X) inputs)) a = None"
  using assms(1)
proof (rule plan_OkE)
  fix pay change m inputs
  let ?sorted = "sort_key (input_order X) inputs"
  assume ok: "script_for_address B A (req_chain req) (req_destination_address req) = Ok pay"
    "script_for_address B A (req_chain req) (req_sender_address req) = Ok change"
    "memo_output_of B (req_memo req) = Ok m" "memo_free m"
    "spendable_inputs B A X (req_chain req) (req_sender_address req) (req_utxos req) = Ok inputs"
    and amount: "\<not> req_is_max req \<Longrightarrow> req_amount req \<noteq> 0 \<and> dust_threshold B (req_chain req) (script_pubkey pay) \<le> req_amount req"
    and small: "coins ?sorted < 2 ^ 64"
    and sel: "select_loop B (req_chain req) (req_target req) (req_fee_rate req) (script_pubkey pay)
       (script_pubkey change) m [] 0 ?sorted = Ok p"
  obtain k a where k: "0 < k" "k \<le> length ?sorted" "unat a = coins (take k ?sorted)"
      "build_exact_plan B (req_chain req) (req_amount req) (req_fee_rate req) (script_pubkey pay) (script_pubkey change) m
           (take k ?sorted) a = Some p"
      "\<forall>j. 0 < j \<and> j < k \<longrightarrow> (\<exists>a. unat a = coins (take j ?sorted) \<and>
           build_exact_plan B (req_chain req) (req_amount req) (req_fee_rate req) (script_pubkey pay) (script_pubkey change) m
             (take j ?sorted) a = None)"
    using select_exact [of 0 "[]" ?sorted B "req_chain req" "req_amount req" "req_fee_rate req" "script_pubkey pay"
        "script_pubkey change" m p] sel small assms(2) by (auto simp: req_target_def)
  show thesis
    by (rule that [OF ok]) (use amount [OF assms(2)] k in auto)
qed

text \<open>Once the guards of \<open>plan\<close> are passed, the outcome is that of the selection loop.\<close>

definition guards_passed ::
  "script_lib \<Rightarrow> address_lib \<Rightarrow> tx_lib \<Rightarrow> spend_request \<Rightarrow> address_script \<Rightarrow> address_script \<Rightarrow> plan_output option
     \<Rightarrow> plan_input list \<Rightarrow> bool" where
  "guards_passed B A X req pay change m inputs \<longleftrightarrow>
     req_utxos req \<noteq> []
     \<and> script_for_address B A (req_chain req) (req_destination_address req) = Ok pay
     \<and> script_for_address B A (req_chain req) (req_sender_address req) = Ok change
     \<and> memo_output_of B (req_memo req) = Ok m
     \<and> spendable_inputs B A X (req_chain req) (req_sender_address req) (req_utxos req) = Ok inputs
     \<and> (req_is_max req \<or> req_amount req \<noteq> 0 \<and> dust_threshold B (req_chain req) (script_pubkey pay) \<le> req_amount req)
     \<and> coins inputs < 2 ^ 64"

lemma coins_sorted [simp]: "coins (sort_key f inputs) = coins inputs"
  by (rule coins_mset) simp

lemma plan_eq_select:
  assumes "guards_passed B A X req pay change m inputs"
  shows "plan B A X req = select_loop B (req_chain req) (req_target req) (req_fee_rate req) (script_pubkey pay)
     (script_pubkey change) m [] 0 (sort_key (input_order X) inputs)"
proof -
  have "sum_list (map (\<lambda>i. unat (in_value i)) (sort_key (input_order X) inputs)) = coins inputs"
    using coins_sorted [of "input_order X" inputs] by (simp only: coins_def)
  moreover have "(case req_memo req of None \<Rightarrow> Ok None
      | Some m \<Rightarrow> and_then (op_return_output B m) (\<lambda>out. Ok (Some out))) = Ok m"
    using assms by (simp add: guards_passed_def memo_output_of_def)
  ultimately show ?thesis
    using assms by (auto simp: plan_def guards_passed_def select_inputs_and_build_plan_def Let_def req_target_def)
qed

text \<open>The coin \<open>u\<close> of the request, spent by the input \<open>i\<close> on behalf of \<open>sender\<close>.\<close>

definition spends_coin ::
  "script_lib \<Rightarrow> address_lib \<Rightarrow> tx_lib \<Rightarrow> bitcoin_chain \<Rightarrow> string \<Rightarrow> utxo \<Rightarrow> plan_input \<Rightarrow> bool" where
  "spends_coin B A X chain sender u i \<longleftrightarrow>
     unat (in_value i) = utxo_value u \<and> 0 < utxo_value u
     \<and> txid_from_str X (utxo_transaction_id u) = Some (txid (previous_output i))
     \<and> 0 \<le> utxo_vout u \<and> vout (previous_output i) = of_int (utxo_vout u)
     \<and> (\<exists>s a h. script_for_address B A chain sender = Ok s \<and> public_key_hash_of B s = Some h
          \<and> script_for_address B A chain (utxo_address u) = Ok a \<and> public_key_hash_of B a = Some h
          \<and> in_script_pubkey i = script_pubkey a \<and> unlocking_script_of B a = Some (in_unlocking_script i))"

lemma zip_option_Some [simp]: "zip_option a b = Some (x, y) \<longleftrightarrow> a = Some x \<and> b = Some y"
  by (auto simp: zip_option_def split: option.splits)

lemma spendable_input_spends:
  assumes "spendable_input B A X chain h seq u = Ok i"
    and "script_for_address B A chain sender = Ok s" and "public_key_hash_of B s = Some h"
  shows "spends_coin B A X chain sender u i"
proof -
  obtain a unl v where a: "script_for_address B A chain (utxo_address u) = Ok a"
      "unlocking_script_of B a = Some unl" "public_key_hash_of B a = Some h"
      and v: "value_u64 u = Ok v" "v \<noteq> 0"
      and i: "txid_from_str X (utxo_transaction_id u) = Some (txid (previous_output i))" "in_value i = v"
        "0 \<le> utxo_vout u" "vout (previous_output i) = of_int (utxo_vout u)"
        "in_script_pubkey i = script_pubkey a" "in_unlocking_script i = unl"
    using assms(1) by (auto simp: spendable_input_def result_simps invalid_input_err_def
        split: if_splits prod.splits)
  have val: "unat v = utxo_value u" using v(1) by (auto simp: value_u64_def result_simps unat_nat_to_u64)
  moreover have "0 < unat v" using v(2) by (simp add: unat_gt_0)
  ultimately show ?thesis
    using a i assms(2,3) by (auto simp: spends_coin_def)
qed

lemma plan_coins:
  assumes "plan B A X req = Ok p"
  shows "\<exists>inputs. list_all2 (spends_coin B A X (req_chain req) (req_sender_address req)) (req_utxos req) inputs
     \<and> mset (plan_inputs p) \<subseteq># mset inputs"
proof -
  obtain inputs k where ok: "spendable_inputs B A X (req_chain req) (req_sender_address req) (req_utxos req) = Ok inputs"
      "plan_inputs p = take k (sort_key (input_order X) inputs)"
    using plan_well_planned [OF assms] by blast
  obtain s h seq where s: "script_for_address B A (req_chain req) (req_sender_address req) = Ok s"
      "public_key_hash_of B s = Some h"
      and t: "traverse (spendable_input B A X (req_chain req) h seq) (req_utxos req) = Ok inputs"
    using ok(1) by (auto simp: spendable_inputs_def result_simps Let_def)
  have "list_all2 (spends_coin B A X (req_chain req) (req_sender_address req)) (req_utxos req) inputs"
    using t s by (auto simp: traverse_Inr_iff elim!: list_all2_mono intro: spendable_input_spends)
  moreover have "mset (plan_inputs p) \<subseteq># mset inputs"
    unfolding ok(2) by (metis append_take_drop_id mset_append mset_sort mset_subset_eq_add_left)
  ultimately show ?thesis by blast
qed

section \<open>A concrete library\<close>

definition ex_scripts :: script_lib where
  "ex_scripts = \<lparr>op_dup = 0x76, op_hash160 = 0xa9, op_equalverify = 0x88, op_checksig = 0xac,
     op_equal = 0x87, op_pushbytes_0 = 0, op_pushnum_1 = 0x51, op_return = 0x6a,
     push_slice = (\<lambda>b. of_nat (length b) # b),
     is_p2pkh = (\<lambda>s. length s = 25 \<and> take 3 s = [0x76, 0xa9, 20] \<and> drop 23 s = [0x88, 0xac]),
     is_p2wpkh = (\<lambda>s. length s = 22 \<and> take 2 s = [0, 20]),
     is_op_return = (\<lambda>s. take 1 s = [0x6a]), minimal_non_dust = (\<lambda>_. 294),
     push_bytes_try_from = Inr\<rparr>"

definition ex_p2wpkh :: "u8 \<Rightarrow> native_address" where
  "ex_p2wpkh n = \<lparr>native_script_pubkey = [0, 20] @ replicate 20 n, native_data = DataSegwit,
     native_type = Some TypeP2wpkh\<rparr>"

definition ex_addresses :: address_lib where
  "ex_addresses = \<lparr>bs58_with_check = (\<lambda>_. Inl ''base58''), segwit_decode = (\<lambda>_. None),
     native_from_str = (\<lambda>s. if s = ''me'' then Inr (ex_p2wpkh 1) else if s = ''you'' then Inr (ex_p2wpkh 2)
        else Inl ''address''),
     require_mainnet = Inr, cash_decode = (\<lambda>_. Inl ''cash'')\<rparr>"

definition ex_txs :: tx_lib where
  "ex_txs = \<lparr>txid_from_str = (\<lambda>s. Some (as_bytes s)), outpoint_rank = (\<lambda>op. unat (vout op))\<rparr>"

definition ex_utxo :: "int \<Rightarrow> nat \<Rightarrow> utxo" where
  "ex_utxo i v = \<lparr>utxo_transaction_id = ''t'', utxo_vout = i, utxo_value = v, utxo_address = ''me''\<rparr>"

definition ex_request :: "bool \<Rightarrow> nat list \<Rightarrow> spend_request" where
  "ex_request is_max values = \<lparr>req_chain = BtcBitcoin, req_sender_address = ''me'', req_destination_address = ''you'',
     req_amount = 10000, req_is_max = is_max, req_fee_rate = 10, req_memo = Some [1, 2],
     req_utxos = map (\<lambda>(i, v). ex_utxo i v) (zip [0, 1, 2, 3] values)\<rparr>"

abbreviation ex_plan :: "bool \<Rightarrow> nat list \<Rightarrow> spend_plan signer_result" where
  "ex_plan is_max values \<equiv> plan ex_scripts ex_addresses ex_txs (ex_request is_max values)"

lemma ex_plan_shape:
  "map_option (\<lambda>p. (length (plan_inputs p), length (plan_outputs p))) (ok (ex_plan False [9000, 5000, 20000])) = Some (2, 3)"
  by code_simp

lemma ex_plan_Ok: "\<exists>p. ex_plan False [9000, 5000, 20000] = Ok p"
  using ex_plan_shape by (cases "ex_plan False [9000, 5000, 20000]") simp_all

lemma ex_plan_max_Ok: "\<exists>p. ex_plan True [9000, 5000] = Ok p"
  unfolding is_ok_iff [symmetric] by code_simp

section \<open>Properties\<close>

text \<open>
  C1: A Bitcoin plan neither creates nor loses money: as natural numbers, the values of its inputs
  add up to the values of its outputs plus the fee, so no 64-bit addition along the way wrapped.
\<close>

theorem plan_conserves_value:
  assumes "plan B A X req = Ok p"
  shows "coins (plan_inputs p) = paid (plan_outputs p) + unat (plan_fee p)"
  using plan_well_planned [OF assms] by (auto simp: well_planned_def)

theorem plan_conserves_value_witness:
  "\<exists>p. ex_plan False [9000, 5000, 20000] = Ok p \<and> coins (plan_inputs p) = paid (plan_outputs p) + unat (plan_fee p)"
  using ex_plan_Ok plan_conserves_value by metis

text \<open>
  C5: The first output of a plan pays the destination's script: exactly the requested amount, which
  is not dust, or, when everything is to be sent, a non-zero amount that is not dust. A memo follows
  at index 1 with value zero; after it comes at most one output, the change, to the sender's own
  script and never below the dust threshold; sending everything leaves no change.
\<close>

theorem plan_outputs_shape:
  assumes "plan B A X req = Ok p"
  shows "\<exists>pay change m v ch.
     script_for_address B A (req_chain req) (req_destination_address req) = Ok pay
     \<and> script_for_address B A (req_chain req) (req_sender_address req) = Ok change
     \<and> memo_output_of B (req_memo req) = Ok m \<and> memo_free m
     \<and> plan_outputs p = payment v (script_pubkey pay) # memo_outputs m @ ch
     \<and> v \<noteq> 0 \<and> dust_threshold B (req_chain req) (script_pubkey pay) \<le> v
     \<and> (if req_is_max req then ch = [] else v = req_amount req)
     \<and> (ch = [] \<or> (\<exists>r. ch = [payment r (script_pubkey change)]
            \<and> dust_threshold B (req_chain req) (script_pubkey change) \<le> r))"
proof (cases "req_is_max req")
  case True
  with assms show ?thesis
  proof (rule plan_maxE)
    fix pay change m inputs a
    assume ok: "script_for_address B A (req_chain req) (req_destination_address req) = Ok pay"
      "script_for_address B A (req_chain req) (req_sender_address req) = Ok change"
      "memo_output_of B (req_memo req) = Ok m" and m: "memo_free m"
      and a: "unat a = coins (sort_key (input_order X) inputs)"
      and b: "build_max_plan B (req_chain req) (req_fee_rate req) (script_pubkey pay) m (sort_key (input_order X) inputs) a = Ok p"
    show ?thesis
      using ok m True build_max_plan_Ok(2) [OF b a m] by fastforce
  qed
next
  case False
  with assms show ?thesis
  proof (rule plan_exactE)
    fix pay change m inputs k a
    assume ok: "script_for_address B A (req_chain req) (req_destination_address req) = Ok pay"
      "script_for_address B A (req_chain req) (req_sender_address req) = Ok change"
      "memo_output_of B (req_memo req) = Ok m"
      "req_amount req \<noteq> 0" "dust_threshold B (req_chain req) (script_pubkey pay) \<le> req_amount req"
      and m: "memo_free m" and a: "unat a = coins (take k (sort_key (input_order X) inputs))"
      and b: "build_exact_plan B (req_chain req) (req_amount req) (req_fee_rate req) (script_pubkey pay)
         (script_pubkey change) m (take k (sort_key (input_order X) inputs)) a = Some p"
    note w = build_exact_plan_Some(2,3) [OF b a m]
    obtain v ch where out: "plan_outputs p = payment v (script_pubkey pay) # memo_outputs m @ ch"
        "ch = [] \<or> (\<exists>r. ch = [payment r (script_pubkey change)] \<and> dust_threshold B (req_chain req) (script_pubkey change) \<le> r)"
      using w(2) by (auto simp: well_planned_def)
    moreover have "v = req_amount req" using w(1) out(1) by (simp add: payment_def)
    ultimately show ?thesis using ok m False
      by (intro exI [of _ pay] exI [of _ change] exI [of _ m] exI [of _ v] exI [of _ ch]) simp
  qed
qed

theorem plan_outputs_shape_witness:
  "\<exists>p v ch. ex_plan False [9000, 5000, 20000] = Ok p \<and> v = 10000
     \<and> plan_outputs p = payment v ([0, 20] @ replicate 20 2) # \<lparr>out_value = 0, out_script_pubkey = [0x6a, 2, 1, 2]\<rparr> # ch"
proof -
  obtain p where p: "ex_plan False [9000, 5000, 20000] = Ok p" using ex_plan_Ok by blast
  then show ?thesis
    using plan_outputs_shape [OF p]
    by (auto simp: ex_request_def ex_addresses_def ex_p2wpkh_def bitcoin_script_def Let_def memo_output_of_def
        op_return_output_def MAX_OP_RETURN_BYTES_def ex_scripts_def memo_outputs_def)
qed

text \<open>
  The fee of a plan is at least the wallet's estimate for exactly the transaction that is
  planned, and it equals the estimate whenever there is a change output to absorb the rest.
\<close>

theorem plan_fee_covers_estimate:
  assumes "plan B A X req = Ok p"
  shows "estimate_fee (req_chain req) (plan_inputs p) (plan_outputs p) (req_fee_rate req) \<le> plan_fee p
     \<and> (length (plan_outputs p) = (if req_memo req = None then 2 else 3) \<longrightarrow>
       plan_fee p = estimate_fee (req_chain req) (plan_inputs p) (plan_outputs p) (req_fee_rate req))"
proof -
  obtain pay change :: address_script and m where m: "memo_output_of B (req_memo req) = Ok m"
      and w: "well_planned B (req_chain req) (req_fee_rate req) (script_pubkey pay) (script_pubkey change) m p"
    using plan_well_planned [OF assms] by blast
  have "length (memo_outputs m) = (if req_memo req = None then 0 else 1)"
    using m by (auto simp: memo_output_of_def memo_outputs_def result_simps split: option.splits)
  then show ?thesis
    using w by (auto simp: well_planned_def split: if_splits)
qed

theorem plan_fee_covers_estimate_witness:
  "\<exists>p. ex_plan False [9000, 5000, 20000] = Ok p
     \<and> estimate_fee BtcBitcoin (plan_inputs p) (plan_outputs p) 10 \<le> plan_fee p
     \<and> plan_fee p = estimate_fee BtcBitcoin (plan_inputs p) (plan_outputs p) 10"
proof -
  obtain p where p: "ex_plan False [9000, 5000, 20000] = Ok p" using ex_plan_Ok by blast
  have "length (plan_outputs p) = 3" using p ex_plan_shape by simp
  then show ?thesis
    using p plan_fee_covers_estimate [OF p] by (simp add: ex_request_def)
qed

text \<open>
  C22: Coin selection is the shortest affordable prefix, and it is complete for it. With the coins in
  ascending order of value, an exact payment succeeds exactly when some non-empty prefix covers the
  amount and the fee of a transaction with change; the plan then spends the shortest such prefix,
  and otherwise the planner reports insufficient funds. (Fees are assumed to fit 64 bits.)
\<close>

theorem plan_selects_shortest_prefix:
  assumes "guards_passed B A X req pay change m inputs" and "\<not> req_is_max req"
    and ordered: "queue = sort_key (input_order X) inputs"
    and afford: "afford = affordable (req_chain req) (req_fee_rate req) (script_pubkey pay) (script_pubkey change) m (req_amount req)"
    and fits: "exact_fee (req_chain req) queue (spend_outputs (req_amount req) (script_pubkey pay) m
        @ [payment 0 (script_pubkey change)]) (req_fee_rate req) < 2 ^ 64"
  shows "if \<exists>k. 0 < k \<and> k \<le> length queue \<and> afford (take k queue)
     then \<exists>p. plan B A X req = Ok p \<and> plan_inputs p = take (LEAST k. 0 < k \<and> k \<le> length queue \<and> afford (take k queue)) queue
     else plan B A X req = Err InsufficientFunds"
proof -
  let ?loop = "select_loop B (req_chain req) (Exact (req_amount req)) (req_fee_rate req) (script_pubkey pay) (script_pubkey change) m"
  let ?build = "build_exact_plan B (req_chain req) (req_amount req) (req_fee_rate req) (script_pubkey pay) (script_pubkey change) m"
  have plan: "plan B A X req = ?loop [] 0 queue"
    using plan_eq_select [OF assms(1)] assms(2) by (simp add: req_target_def ordered)
  have small: "coins [] + coins queue < 2 ^ 64"
    using assms(1) by (simp add: ordered guards_passed_def)
  have none: "?build (take k queue) a = None \<longleftrightarrow> \<not> afford (take k queue)" if "unat a = coins (take k queue)" for k a
  proof -
    have "exact_fee (req_chain req) (take k queue) os rate \<le> exact_fee (req_chain req) queue os rate" for os rate
      using exact_fee_mono [of "req_chain req" "take k queue" os rate "drop k queue" "[]"] by simp
    then show ?thesis
      unfolding afford by (intro build_exact_plan_None) (use fits that le_less_trans in blast)+
  qed
  show ?thesis
  proof (cases "?loop [] 0 queue")
    case (Inl e)
    note err = select_exact_Err [OF _ small Inl, simplified]
    then have "\<not> afford (take k queue)" if "0 < k" "k \<le> length queue" for k
      using that none by blast
    then show ?thesis using err plan Inl by auto
  next
    case (Inr p)
    obtain k a where k: "0 < k" "k \<le> length queue" "unat a = coins (take k queue)" "?build (take k queue) a = Some p"
        and least: "\<forall>j. 0 < j \<and> j < k \<longrightarrow> (\<exists>a. unat a = coins (take j queue) \<and> ?build (take j queue) a = None)"
      using select_exact [OF _ small Inr] by auto
    have "afford (take k queue)" using none [OF k(3)] k(4) by auto
    moreover have "\<not> afford (take j queue)" if "0 < j" "j < k" for j using least none that by blast
    ultimately have "(LEAST k. 0 < k \<and> k \<le> length queue \<and> afford (take k queue)) = k"
      using k by (intro Least_equality) (auto simp: not_less [symmetric])
    moreover have "memo_free m" using assms(1) memo_output_free by (auto simp: guards_passed_def)
    then have "plan_inputs p = take k queue" by (rule build_exact_plan_Some(1) [OF k(4,3)])
    ultimately show ?thesis using plan Inr k \<open>afford (take k queue)\<close> by auto
  qed
qed

theorem plan_selects_shortest_prefix_witness:
  "\<exists>pay change m inputs p. guards_passed ex_scripts ex_addresses ex_txs (ex_request False [9000, 5000, 20000]) pay change m inputs
     \<and> ex_plan False [9000, 5000, 20000] = Ok p
     \<and> plan_inputs p = take (LEAST k. 0 < k \<and> k \<le> 3 \<and> affordable BtcBitcoin 10 (script_pubkey pay) (script_pubkey change) m 10000
          (take k (sort_key (input_order ex_txs) inputs))) (sort_key (input_order ex_txs) inputs)"
proof -
  let ?req = "ex_request False [9000, 5000, 20000]"
  obtain p where p: "ex_plan False [9000, 5000, 20000] = Ok p" using ex_plan_Ok by blast
  obtain pay change m inputs where g: "guards_passed ex_scripts ex_addresses ex_txs ?req pay change m inputs"
    using p by (rule plan_OkE) (auto simp: guards_passed_def)
  then have len: "length inputs = 3"
    using spendable_inputs_length by (fastforce simp: guards_passed_def ex_request_def)
  let ?os = "spend_outputs 10000 (script_pubkey pay) m @ [payment 0 (script_pubkey change)]"
  have os: "map out_script_pubkey ?os = [[0, 20] @ replicate 20 2, [0x6a, 2, 1, 2], [0, 20] @ replicate 20 1]"
    using g by (auto simp: guards_passed_def ex_request_def ex_addresses_def ex_p2wpkh_def bitcoin_script_def Let_def
        memo_output_of_def op_return_output_def MAX_OP_RETURN_BYTES_def ex_scripts_def spend_outputs_def payment_def)
  let ?ref = "map (payment 0) [[0, 20] @ replicate 20 2, [0x6a, 2, 1, 2], [0, 20] @ replicate 20 1]"
  have "input_weight u \<le> 592" for u by (cases u) (simp_all add: fee_consts)
  then have "sum_list (map (\<lambda>i. input_weight (in_unlocking_script i)) (sort_key (input_order ex_txs) inputs)) \<le> 592 * 3"
    using sum_list_mono [of "sort_key (input_order ex_txs) inputs" "\<lambda>i. input_weight (in_unlocking_script i)" "\<lambda>_. 592"] len
    by (simp add: sum_list_triv)
  then have "exact_fee BtcBitcoin (sort_key (input_order ex_txs) inputs) ?ref 10 < 2 ^ 64"
    using len by (auto simp: exact_fee_def estimate_bitcoin_fee_def transaction_base_weight_def fee_consts varint_len_def
        serialized_len_def sat_vb_scale_factor_def div_ceil_def Let_def)
  then have "exact_fee BtcBitcoin (sort_key (input_order ex_txs) inputs) ?os 10 < 2 ^ 64"
    using exact_fee_scripts [of ?os ?ref] os by simp
  then show ?thesis
    using plan_selects_shortest_prefix [OF g _ refl refl] p len g
    by (intro exI [of _ pay] exI [of _ change] exI [of _ m] exI [of _ inputs] exI [of _ p])
      (auto simp: ex_request_def split: if_splits)
qed

text \<open>
  Sending everything spends every coin of the request, and pays the destination the total minus
  the estimated fee.
\<close>

theorem plan_max_spends_all:
  assumes "plan B A X req = Ok p" and "req_is_max req"
  shows "\<exists>inputs. spendable_inputs B A X (req_chain req) (req_sender_address req) (req_utxos req) = Ok inputs
     \<and> mset (plan_inputs p) = mset inputs
     \<and> unat (out_value (hd (plan_outputs p))) = coins inputs
         - unat (estimate_fee (req_chain req) (plan_inputs p) (plan_outputs p) (req_fee_rate req))"
  using assms
proof (rule plan_maxE)
  fix pay change :: address_script and m inputs a
  assume ok: "spendable_inputs B A X (req_chain req) (req_sender_address req) (req_utxos req) = Ok inputs"
    and m: "memo_free m" and a: "unat a = coins (sort_key (input_order X) inputs)"
    and b: "build_max_plan B (req_chain req) (req_fee_rate req) (script_pubkey pay) m (sort_key (input_order X) inputs) a = Ok p"
  note w = build_max_plan_Ok [OF b a m]
  obtain v where v: "plan_outputs p = payment v (script_pubkey pay) # memo_outputs m" using w(2) by blast
  have "unat v = coins inputs - unat (plan_fee p)" using w(4) v m by simp
  then show ?thesis using ok w(1,3) v by simp
qed

theorem plan_max_spends_all_witness:
  "\<exists>p inputs. ex_plan True [9000, 5000] = Ok p \<and> mset (plan_inputs p) = mset inputs
     \<and> spendable_inputs ex_scripts ex_addresses ex_txs BtcBitcoin ''me'' (req_utxos (ex_request True [9000, 5000])) = Ok inputs"
proof -
  obtain p where p: "ex_plan True [9000, 5000] = Ok p" using ex_plan_max_Ok by blast
  show ?thesis
    using plan_max_spends_all [OF p] p by (auto simp: ex_request_def)
qed

text \<open>
  C26: A plan spends only coins of the request, each at most once and at its full value, and only
  coins whose address holds the public key hash of the sender's address; when the coins have
  different outpoints, no outpoint is spent twice.
\<close>

theorem plan_spends_own_coins:
  assumes "plan B A X req = Ok p"
  shows "\<exists>inputs. list_all2 (spends_coin B A X (req_chain req) (req_sender_address req)) (req_utxos req) inputs
     \<and> mset (plan_inputs p) \<subseteq># mset inputs
     \<and> (distinct (map previous_output inputs) \<longrightarrow> distinct (map previous_output (plan_inputs p)))"
proof -
  obtain inputs where i: "list_all2 (spends_coin B A X (req_chain req) (req_sender_address req)) (req_utxos req) inputs"
      "mset (plan_inputs p) \<subseteq># mset inputs"
    using plan_coins [OF assms] by blast
  moreover have "distinct (map previous_output (plan_inputs p))" if d: "distinct (map previous_output inputs)"
  proof -
    obtain M where "mset inputs = mset (plan_inputs p) + M" using i(2) by (auto simp: mset_subset_eq_exists_conv)
    moreover obtain zs where "mset zs = M" using ex_mset by blast
    ultimately have "mset (map previous_output inputs) = mset (map previous_output (plan_inputs p @ zs))" by simp
    then have "distinct (map previous_output (plan_inputs p @ zs))" using d mset_eq_imp_distinct_iff by blast
    then show ?thesis by simp
  qed
  ultimately show ?thesis by blast
qed

theorem plan_spends_own_coins_witness:
  "\<exists>p inputs. ex_plan False [9000, 5000, 20000] = Ok p
     \<and> list_all2 (spends_coin ex_scripts ex_addresses ex_txs BtcBitcoin ''me'') [ex_utxo 0 9000, ex_utxo 1 5000, ex_utxo 2 20000] inputs
     \<and> mset (plan_inputs p) \<subseteq># mset inputs"
proof -
  obtain p where p: "ex_plan False [9000, 5000, 20000] = Ok p" using ex_plan_Ok by blast
  show ?thesis
    using plan_spends_own_coins [OF p] p by (auto simp: ex_request_def)
qed

section \<open>What the code does in three corner cases\<close>

text \<open>An exact payment is refused when no prefix of the ordered coins is affordable.\<close>

lemma plan_exact_unaffordable:
  assumes "guards_passed B A X req pay change m inputs" and "\<not> req_is_max req"
    and ordered: "queue = sort_key (input_order X) inputs"
    and none: "\<And>k. 0 < k \<Longrightarrow> k \<le> length queue \<Longrightarrow>
      \<not> affordable (req_chain req) (req_fee_rate req) (script_pubkey pay) (script_pubkey change) m (req_amount req) (take k queue)"
    and fits: "exact_fee (req_chain req) queue (spend_outputs (req_amount req) (script_pubkey pay) m
        @ [payment 0 (script_pubkey change)]) (req_fee_rate req) < 2 ^ 64"
  shows "plan B A X req = Err InsufficientFunds"
proof -
  let ?loop = "select_loop B (req_chain req) (Exact (req_amount req)) (req_fee_rate req) (script_pubkey pay) (script_pubkey change) m"
  let ?build = "build_exact_plan B (req_chain req) (req_amount req) (req_fee_rate req) (script_pubkey pay) (script_pubkey change) m"
  have plan: "plan B A X req = ?loop [] 0 queue"
    using plan_eq_select [OF assms(1)] assms(2) by (simp add: req_target_def ordered)
  have small: "coins [] + coins queue < 2 ^ 64"
    using assms(1) by (simp add: ordered guards_passed_def)
  have "?build (take k queue) a = None" if "0 < k" "k \<le> length queue" "unat a = coins (take k queue)" for k a
  proof -
    have "exact_fee (req_chain req) (take k queue) os rate \<le> exact_fee (req_chain req) queue os rate" for os rate
      using exact_fee_mono [of "req_chain req" "take k queue" os rate "drop k queue" "[]"] by simp
    then show ?thesis
      using build_exact_plan_None [of "req_chain req" "take k queue"] none that fits le_less_trans by blast
  qed
  then have "\<nexists>p. ?loop [] 0 queue = Ok p"
    using select_exact [of 0 "[]" queue] small by force
  then obtain e where e: "?loop [] 0 queue = Err e" by (cases "?loop [] 0 queue") auto
  show ?thesis using select_exact_Err [OF _ small e] e plan by simp
qed

text \<open>
  C31: A payment that the coins cover without change can be refused. Let every coin bring at least
  what it adds to the fee, and let all coins together cover the amount and the fee of a transaction
  without change, but not the larger fee of one with a change output. Then the planner reports
  insufficient funds, although spending all coins without change satisfies the whole contract of a
  plan: it pays the amount, its fee is at least the estimate and nothing is lost. (Fees are assumed to
  fit 64 bits.)
\<close>

theorem exact_cover_refused:
  assumes "guards_passed B A X req pay change m inputs" and "\<not> req_is_max req"
    and ordered: "queue = sort_key (input_order X) inputs"
    and outs: "outs = spend_outputs (req_amount req) (script_pubkey pay) m"
    and fee: "fee = (\<lambda>is os. exact_fee (req_chain req) is os (req_fee_rate req))"
    and worth: "\<And>k. 0 < k \<Longrightarrow> k < length queue \<Longrightarrow>
      fee queue (outs @ [payment 0 (script_pubkey change)])
        \<le> fee (take k queue) (outs @ [payment 0 (script_pubkey change)]) + coins (drop k queue)"
    and cover: "unat (req_amount req) + fee queue outs \<le> coins queue"
    and short: "coins queue < unat (req_amount req) + fee queue (outs @ [payment 0 (script_pubkey change)])"
    and fits: "fee queue (outs @ [payment 0 (script_pubkey change)]) < 2 ^ 64"
  shows "plan B A X req = Err InsufficientFunds
     \<and> (\<exists>p. plan_inputs p = queue \<and> plan_outputs p = outs \<and> hd outs = payment (req_amount req) (script_pubkey pay)
          \<and> well_planned B (req_chain req) (req_fee_rate req) (script_pubkey pay) (script_pubkey change) m p)"
proof
  show "plan B A X req = Err InsufficientFunds"
  proof (rule plan_exact_unaffordable [OF assms(1,2) ordered _ fits [unfolded fee outs]])
    fix k assume k: "0 < k" "k \<le> length queue"
    have "coins queue = coins (take k queue) + coins (drop k queue)"
      by (simp flip: sum_list_append map_append add: coins_def)
    then show "\<not> affordable (req_chain req) (req_fee_rate req) (script_pubkey pay) (script_pubkey change) m (req_amount req) (take k queue)"
      using worth [OF k(1)] short k(2) by (cases "k = length queue") (auto simp: affordable_def fee outs)
  qed
next
  let ?p = "\<lparr>plan_inputs = queue, plan_outputs = outs, plan_fee = of_nat (coins queue - unat (req_amount req))\<rparr>"
  have small: "coins queue < 2 ^ 64" and free: "memo_free m"
    using assms(1) memo_output_free by (auto simp: ordered guards_passed_def)
  have "fee queue outs < 2 ^ 64" using cover small by simp
  then have est: "unat (estimate_fee (req_chain req) queue outs (req_fee_rate req)) = fee queue outs"
    by (simp add: fee unat_estimate_fee)
  have "unat (of_nat (coins queue - unat (req_amount req)) :: u64) = coins queue - unat (req_amount req)"
    using small by (intro unat_of_nat_u64) simp
  then have "well_planned B (req_chain req) (req_fee_rate req) (script_pubkey pay) (script_pubkey change) m ?p"
    using est cover free by (auto simp: well_planned_def word_le_nat_alt outs spend_outputs_eq)
  then show "\<exists>p. plan_inputs p = queue \<and> plan_outputs p = outs \<and> hd outs = payment (req_amount req) (script_pubkey pay)
      \<and> well_planned B (req_chain req) (req_fee_rate req) (script_pubkey pay) (script_pubkey change) m p"
    by (intro exI [of _ ?p]) (simp add: outs spend_outputs_eq)
qed

text \<open>Two coins of 4000 and 6200 satoshis for a payment of 10000: the fee is 191 without change and 222 with it.\<close>

definition ex_input :: "int \<Rightarrow> nat \<Rightarrow> plan_input" where
  "ex_input i v = \<lparr>previous_output = \<lparr>txid = as_bytes ''t'', vout = of_int i\<rparr>, in_value = of_nat v,
     in_script_pubkey = [0, 20] @ replicate 20 1, in_unlocking_script = P2wpkh, in_sequence = RBF_SEQUENCE\<rparr>"

definition ex_outputs :: "plan_output list" where
  "ex_outputs = [payment 10000 ([0, 20] @ replicate 20 2), payment 0 [0x6a, 2, 1, 2]]"

definition ex_change :: plan_output where
  "ex_change = payment 0 ([0, 20] @ replicate 20 1)"

lemma ex_guards:
  "\<exists>pay change m. guards_passed ex_scripts ex_addresses ex_txs (ex_request False [4000, 6200]) pay change m [ex_input 0 4000, ex_input 1 6200]
     \<and> spend_outputs 10000 (script_pubkey pay) m = ex_outputs \<and> payment 0 (script_pubkey change) = ex_change"
proof -
  let ?r = "ex_request False [4000, 6200]"
  have s: "\<exists>pay. script_for_address ex_scripts ex_addresses BtcBitcoin ''you'' = Ok pay \<and> script_pubkey pay = [0, 20] @ replicate 20 2"
      "\<exists>change. script_for_address ex_scripts ex_addresses BtcBitcoin ''me'' = Ok change \<and> script_pubkey change = [0, 20] @ replicate 20 1"
    by (simp_all add: ex_addresses_def ex_p2wpkh_def bitcoin_script_def Let_def)
  have m: "memo_output_of ex_scripts (req_memo ?r) = Ok (Some (payment 0 [0x6a, 2, 1, 2]))"
    by (simp add: ex_request_def memo_output_of_def op_return_output_def MAX_OP_RETURN_BYTES_def ex_scripts_def payment_def)
  have i: "spendable_inputs ex_scripts ex_addresses ex_txs BtcBitcoin ''me'' (req_utxos ?r) = Ok [ex_input 0 4000, ex_input 1 6200]"
    by code_simp
  have d: "dust_threshold ex_scripts BtcBitcoin ([0, 20] @ replicate 20 2) \<le> 10000"
    by (simp add: dust_threshold_def ex_scripts_def Let_def)
  have c: "coins [ex_input 0 4000, ex_input 1 6200] < 2 ^ 64" by (simp add: ex_input_def)
  show ?thesis
    using s m i d c by (auto simp: guards_passed_def ex_request_def spend_outputs_eq memo_outputs_def ex_outputs_def ex_change_def)
qed

lemma ex_fees:
  "exact_fee BtcBitcoin [ex_input 0 4000, ex_input 1 6200] ex_outputs 10 = 191"
  "exact_fee BtcBitcoin [ex_input 0 4000, ex_input 1 6200] (ex_outputs @ [ex_change]) 10 = 222"
  by (simp_all add: exact_fee_def estimate_bitcoin_fee_def transaction_base_weight_def fee_consts varint_len_def
        serialized_len_def sat_vb_scale_factor_def div_ceil_def Let_def ex_input_def ex_outputs_def ex_change_def)

lemma ex_sorted: "[ex_input 0 4000, ex_input 1 6200] = sort_key (input_order ex_txs) [ex_input 0 4000, ex_input 1 6200]"
  by (simp add: input_order_def ex_input_def ex_txs_def)

theorem exact_cover_refused_witness:
  "ex_plan False [4000, 6200] = Err InsufficientFunds
     \<and> exact_fee BtcBitcoin [ex_input 0 4000, ex_input 1 6200] ex_outputs 10 + 10000 \<le> coins [ex_input 0 4000, ex_input 1 6200]"
proof -
  let ?q = "[ex_input 0 4000, ex_input 1 6200]"
  let ?r = "ex_request False [4000, 6200]"
  obtain pay change m where g: "guards_passed ex_scripts ex_addresses ex_txs ?r pay change m ?q"
      and out: "ex_outputs = spend_outputs 10000 (script_pubkey pay) m" "payment 0 (script_pubkey change) = ex_change"
    using ex_guards by metis
  have r: "\<not> req_is_max ?r" "req_amount ?r = 10000" "req_chain ?r = BtcBitcoin" "req_fee_rate ?r = 10"
    by (simp_all add: ex_request_def)
  have c: "coins ?q = 10200" "coins (drop 1 ?q) = 6200" by (simp_all add: ex_input_def)
  note refused = exact_cover_refused [OF g r(1) ex_sorted _ refl, of ex_outputs, unfolded r out(2) ex_fees c]
  have "ex_plan False [4000, 6200] = Err InsufficientFunds"
  proof (rule refused [THEN conjunct1])
    fix k :: nat assume "0 < k" "k < length ?q"
    then have "k = 1" by simp
    then show "222 \<le> exact_fee BtcBitcoin (take k ?q) (ex_outputs @ [ex_change]) 10 + coins (drop k ?q)" using c by simp
  qed (simp_all add: out(1))
  then show ?thesis unfolding ex_fees c by simp
qed

text \<open>
  Smallest-first selection does not select the fewest inputs: here two coins are spent although the
  largest one alone would do.
\<close>

theorem smallest_first_not_fewest:
  "map_option (\<lambda>p. length (plan_inputs p)) (ok (ex_plan False [9000, 5000, 20000])) = Some 2"
  "map_option (\<lambda>p. length (plan_inputs p)) (ok (ex_plan False [20000])) = Some 1"
proof -
  show "map_option (\<lambda>p. length (plan_inputs p)) (ok (ex_plan False [9000, 5000, 20000])) = Some 2"
    using ex_plan_shape by (auto simp: map_option_case split: option.splits)
qed code_simp

text \<open>
  The estimate is cut to 64 bits: at an absurd fee rate the fee wraps around to a few satoshis.
\<close>

theorem estimate_fee_wraps:
  "estimate_fee BtcBitcoin [\<lparr>previous_output = \<lparr>txid = [], vout = 0\<rparr>, in_value = 0, in_script_pubkey = [],
      in_unlocking_script = P2wpkh, in_sequence = 0\<rparr>]
    [payment 0 (replicate 22 0), payment 0 (replicate 4 0), payment 0 (replicate 22 0)] 1197840524266854002 = 15"
  by code_simp

end
