(* ===== verification/Bitcoin_Signer.thy ===== *)
theory Bitcoin_Signer
  imports Bitcoin_Planner
begin

text \<open>
  \<open>gem_bitcoin/src/signer\<close>: from a plan to a signed transaction. \<open>transaction.rs\<close> checks the plan
  and signs Bitcoin, Litecoin and Dogecoin inputs; \<open>bitcoin_cash.rs\<close> and \<open>zcash.rs\<close> build their own
  signature digests (BIP143 with fork id, ZIP-244); \<open>chain_signer.rs\<close> is the entry point;
  \<open>signature.rs\<close> and \<open>types.rs\<close> sign messages.

  Arguments: \<open>consensus_lib\<close> is the consensus serialisation and the signature hashes of the
  \<open>bitcoin\<close> crate, \<open>key_lib\<close> secp256k1, the hash functions and hex. Only \<open>serialize\<close> of an outpoint,
  a script, an output and an input, and of a whole transaction, are used.
\<close>

section \<open>Transactions\<close>

record tx_in =
  txin_previous_output :: outpoint
  txin_script_sig :: bytes
  txin_sequence :: u32
  txin_witness :: "bytes list"

record tx_out =
  txout_value :: u64
  txout_script_pubkey :: bytes

record transaction =
  tx_version :: u32
  tx_lock_time :: u32
  tx_input :: "tx_in list"
  tx_output :: "tx_out list"

record consensus_lib =
  ser_outpoint :: "outpoint \<Rightarrow> bytes"
  ser_script :: "bytes \<Rightarrow> bytes"
  ser_txout :: "tx_out \<Rightarrow> bytes"
  ser_txin :: "tx_in \<Rightarrow> bytes"
  ser_transaction :: "transaction \<Rightarrow> bytes"
  legacy_signature_hash :: "transaction \<Rightarrow> nat \<Rightarrow> bytes \<Rightarrow> u32 \<Rightarrow> string + bytes"
  p2wpkh_signature_hash :: "transaction \<Rightarrow> nat \<Rightarrow> bytes \<Rightarrow> u64 \<Rightarrow> string + bytes"
  push_key :: "bytes \<Rightarrow> bytes"

record key_lib =
  secret_key_from_slice :: "bytes \<Rightarrow> bytes option"
  public_key_bytes :: "bytes \<Rightarrow> bytes"
  sign_ecdsa_der :: "bytes \<Rightarrow> bytes \<Rightarrow> bytes"
  sign_recoverable :: "bytes \<Rightarrow> bytes \<Rightarrow> bytes signer_result"
  hash160 :: "bytes \<Rightarrow> bytes"
  sha256_hash :: "bytes \<Rightarrow> bytes"
  double_sha256 :: "bytes \<Rightarrow> bytes"
  blake2b_256_personal :: "bytes \<Rightarrow> bytes \<Rightarrow> bytes"
  to_hex :: "bytes \<Rightarrow> string"

definition SIGHASH_ALL :: u32 where "SIGHASH_ALL = 1"

definition unsigned_input :: "plan_input \<Rightarrow> tx_in" where
  "unsigned_input i = \<lparr>txin_previous_output = previous_output i, txin_script_sig = [],
     txin_sequence = in_sequence i, txin_witness = []\<rparr>"

definition output_of :: "plan_output \<Rightarrow> tx_out" where
  "output_of out = \<lparr>txout_value = out_value out, txout_script_pubkey = out_script_pubkey out\<rparr>"

definition build_unsigned_transaction :: "spend_plan \<Rightarrow> transaction" where
  "build_unsigned_transaction p =
     \<lparr>tx_version = 2, tx_lock_time = 0, tx_input = map unsigned_input (plan_inputs p),
      tx_output = map output_of (plan_outputs p)\<rparr>"

definition der_signature :: "key_lib \<Rightarrow> bytes \<Rightarrow> bytes \<Rightarrow> u8 \<Rightarrow> bytes" where
  "der_signature K secret_key digest sighash_byte = sign_ecdsa_der K secret_key digest @ [sighash_byte]"

definition signature_push_bytes :: "script_lib \<Rightarrow> bytes \<Rightarrow> bytes signer_result" where
  "signature_push_bytes B signature =
     (case push_bytes_try_from B signature of
        Inr b \<Rightarrow> Ok b | Inl _ \<Rightarrow> Err (SigningError ''invalid Bitcoin script push''))"

fun signing_result :: "string + 'a \<Rightarrow> 'a signer_result" where
  "signing_result (Inl e) = Err (SigningError e)"
| "signing_result (Inr x) = Ok x"

definition script_sig_of ::
  "script_lib \<Rightarrow> consensus_lib \<Rightarrow> bytes \<Rightarrow> bytes \<Rightarrow> bytes signer_result" where
  "script_sig_of B N signature public_key =
     and_then (signature_push_bytes B signature) (\<lambda>s. Ok (push_slice B s @ push_key N public_key))"

section \<open>Checks on the plan\<close>

definition validate_chain_input_types :: "bitcoin_chain \<Rightarrow> spend_plan \<Rightarrow> unit signer_result" where
  "validate_chain_input_types chain p =
     try_fold (\<lambda>_ i. case chain of
         BtcBitcoin \<Rightarrow> Ok ()
       | BtcLitecoin \<Rightarrow> Ok ()
       | BtcDoge \<Rightarrow> Ok ()
       | _ \<Rightarrow> if in_unlocking_script i = P2pkh then Ok ()
              else invalid_input_err (chain_message chain ''UTXO address type is unsupported''))
       () (plan_inputs p)"

definition validate_public_key ::
  "script_lib \<Rightarrow> key_lib \<Rightarrow> bitcoin_chain \<Rightarrow> spend_plan \<Rightarrow> bytes \<Rightarrow> unit signer_result" where
  "validate_public_key B K chain p public_key =
     (let key_hash = hash160 K public_key
      in try_fold (\<lambda>_ i.
           if script_for_public_key_hash B (in_unlocking_script i) key_hash = in_script_pubkey i then Ok ()
           else invalid_input_err (chain_message chain ''private key does not match sender address''))
         () (plan_inputs p))"

definition validate_plan_amounts :: "bitcoin_chain \<Rightarrow> spend_plan \<Rightarrow> unit signer_result" where
  "validate_plan_amounts chain p =
     (let input_total = sum_list (map (\<lambda>i. unat (in_value i)) (plan_inputs p));
          output_total = sum_list (map (\<lambda>out. unat (out_value out)) (plan_outputs p));
          spent_total = output_total + unat (plan_fee p)
      in if input_total = spent_total then Ok ()
         else invalid_input_err (chain_message chain ''plan amount mismatch''))"

section \<open>Bitcoin, Litecoin, Dogecoin\<close>

definition sign_standard_input ::
  "script_lib \<Rightarrow> consensus_lib \<Rightarrow> key_lib \<Rightarrow> transaction \<Rightarrow> bytes \<Rightarrow> bytes \<Rightarrow> nat \<times> plan_input
     \<Rightarrow> (bytes \<times> bytes list) signer_result" where
  "sign_standard_input B N K tx secret_key public_key = (\<lambda>(index, i).
     case in_unlocking_script i of
       P2pkh \<Rightarrow>
         and_then (signing_result (legacy_signature_hash N tx index (in_script_pubkey i) SIGHASH_ALL)) (\<lambda>sighash.
         and_then (script_sig_of B N (der_signature K secret_key sighash (ucast SIGHASH_ALL)) public_key) (\<lambda>script_sig.
           Ok (script_sig, [])))
     | P2wpkh \<Rightarrow>
         and_then (signing_result (p2wpkh_signature_hash N tx index (in_script_pubkey i) (in_value i))) (\<lambda>sighash.
           Ok ([], [der_signature K secret_key sighash (ucast SIGHASH_ALL), public_key])))"

definition sign_standard ::
  "script_lib \<Rightarrow> consensus_lib \<Rightarrow> key_lib \<Rightarrow> spend_plan \<Rightarrow> bytes \<Rightarrow> bytes \<Rightarrow> transaction signer_result" where
  "sign_standard B N K p secret_key public_key =
     (let tx = build_unsigned_transaction p
      in and_then (traverse (sign_standard_input B N K tx secret_key public_key)
                     (zip [0..<length (plan_inputs p)] (plan_inputs p))) (\<lambda>signed_inputs.
           Ok (tx\<lparr>tx_input := map (\<lambda>(i, script_sig, witness). i\<lparr>txin_script_sig := script_sig, txin_witness := witness\<rparr>)
                                (zip (tx_input tx) signed_inputs)\<rparr>)))"

section \<open>Bitcoin Cash\<close>

definition SIGHASH_ALL_FORKID :: u32 where "SIGHASH_ALL_FORKID = 0x41"

record sighash_components =
  hash_prevouts :: bytes
  hash_sequence :: bytes
  hash_outputs :: bytes

definition sighash_components_new ::
  "consensus_lib \<Rightarrow> key_lib \<Rightarrow> transaction \<Rightarrow> spend_plan \<Rightarrow> sighash_components" where
  "sighash_components_new N K tx p =
     \<lparr>hash_prevouts = double_sha256 K (concat (map (\<lambda>i. ser_outpoint N (previous_output i)) (plan_inputs p))),
      hash_sequence = double_sha256 K (concat (map (\<lambda>i. le_bytes 4 (in_sequence i)) (plan_inputs p))),
      hash_outputs = double_sha256 K (concat (map (ser_txout N) (tx_output tx)))\<rparr>"

definition bch_preimage ::
  "consensus_lib \<Rightarrow> transaction \<Rightarrow> sighash_components \<Rightarrow> plan_input \<Rightarrow> bytes" where
  "bch_preimage N tx components i =
     le_bytes 4 (tx_version tx) @ hash_prevouts components @ hash_sequence components
     @ ser_outpoint N (previous_output i) @ ser_script N (in_script_pubkey i) @ le_bytes 8 (in_value i)
     @ le_bytes 4 (in_sequence i) @ hash_outputs components @ le_bytes 4 (tx_lock_time tx)
     @ le_bytes 4 SIGHASH_ALL_FORKID"

definition bch_signature_hash ::
  "consensus_lib \<Rightarrow> key_lib \<Rightarrow> transaction \<Rightarrow> spend_plan \<Rightarrow> sighash_components \<Rightarrow> nat \<Rightarrow> bytes signer_result" where
  "bch_signature_hash N K tx p components input_index =
     (if input_index < length (plan_inputs p)
      then Ok (double_sha256 K (bch_preimage N tx components (plan_inputs p ! input_index)))
      else Err (SigningError ''Bitcoin Cash input index out of bounds''))"

definition set_script_sig :: "transaction \<Rightarrow> nat \<Rightarrow> bytes \<Rightarrow> transaction" where
  "set_script_sig tx index script_sig =
     tx\<lparr>tx_input := (tx_input tx)[index := (tx_input tx ! index)\<lparr>txin_script_sig := script_sig\<rparr>]\<rparr>"

definition sign_bitcoin_cash ::
  "script_lib \<Rightarrow> consensus_lib \<Rightarrow> key_lib \<Rightarrow> spend_plan \<Rightarrow> bytes \<Rightarrow> bytes \<Rightarrow> transaction signer_result" where
  "sign_bitcoin_cash B N K p secret_key public_key =
     (let tx = build_unsigned_transaction p;
          components = sighash_components_new N K tx p
      in try_fold (\<lambda>tx index.
           and_then (bch_signature_hash N K tx p components index) (\<lambda>sighash.
           and_then (script_sig_of B N (der_signature K secret_key sighash (ucast SIGHASH_ALL_FORKID)) public_key)
             (\<lambda>script_sig. Ok (set_script_sig tx index script_sig))))
         tx [0..<length (plan_inputs p)])"

section \<open>Zcash\<close>

definition ZCASH_TXID_HEADERS_HASH_PERSONALIZATION :: bytes where
  "ZCASH_TXID_HEADERS_HASH_PERSONALIZATION = as_bytes ''ZTxIdHeadersHash''"
definition ZCASH_TXID_PREVOUTS_HASH_PERSONALIZATION :: bytes where
  "ZCASH_TXID_PREVOUTS_HASH_PERSONALIZATION = as_bytes ''ZTxIdPrevoutHash''"
definition ZCASH_TXID_SEQUENCES_HASH_PERSONALIZATION :: bytes where
  "ZCASH_TXID_SEQUENCES_HASH_PERSONALIZATION = as_bytes ''ZTxIdSequencHash''"
definition ZCASH_TXID_OUTPUTS_HASH_PERSONALIZATION :: bytes where
  "ZCASH_TXID_OUTPUTS_HASH_PERSONALIZATION = as_bytes ''ZTxIdOutputsHash''"
definition ZCASH_TXID_SAPLING_HASH_PERSONALIZATION :: bytes where
  "ZCASH_TXID_SAPLING_HASH_PERSONALIZATION = as_bytes ''ZTxIdSaplingHash''"
definition ZCASH_TXID_ORCHARD_HASH_PERSONALIZATION :: bytes where
  "ZCASH_TXID_ORCHARD_HASH_PERSONALIZATION = as_bytes ''ZTxIdOrchardHash''"
definition ZCASH_TXID_TRANSPARENT_HASH_PERSONALIZATION :: bytes where
  "ZCASH_TXID_TRANSPARENT_HASH_PERSONALIZATION = as_bytes ''ZTxIdTranspaHash''"
definition ZCASH_TRANSPARENT_AMOUNTS_HASH_PERSONALIZATION :: bytes where
  "ZCASH_TRANSPARENT_AMOUNTS_HASH_PERSONALIZATION = as_bytes ''ZTxTrAmountsHash''"
definition ZCASH_TRANSPARENT_SCRIPTS_HASH_PERSONALIZATION :: bytes where
  "ZCASH_TRANSPARENT_SCRIPTS_HASH_PERSONALIZATION = as_bytes ''ZTxTrScriptsHash''"
definition ZCASH_TXIN_HASH_PERSONALIZATION :: bytes where
  "ZCASH_TXIN_HASH_PERSONALIZATION = as_bytes ''Zcash___TxInHash''"
definition ZCASH_TX_HASH_PERSONALIZATION_PREFIX :: bytes where
  "ZCASH_TX_HASH_PERSONALIZATION_PREFIX = as_bytes ''ZcashTxHash_''"

definition OVERWINTERED_VERSION_5 :: u32 where "OVERWINTERED_VERSION_5 = 0x80000005"
definition VERSION_GROUP_ID_V5 :: u32 where "VERSION_GROUP_ID_V5 = 0x26a7270a"
definition LOCK_TIME :: u32 where "LOCK_TIME = 0"
definition EXPIRY_HEIGHT_DISABLED :: u32 where "EXPIRY_HEIGHT_DISABLED = 0"
definition ZCASH_SIGHASH_ALL :: u8 where "ZCASH_SIGHASH_ALL = 1"

record zcash_transaction =
  zc_branch_id :: u32
  zc_inputs :: "tx_in list"
  zc_outputs :: "tx_out list"

record zcash_digests =
  zd_header :: bytes
  zd_prevouts :: bytes
  zd_amounts :: bytes
  zd_script_pubkeys :: bytes
  zd_sequences :: bytes
  zd_outputs :: bytes
  zd_sapling :: bytes
  zd_orchard :: bytes

text \<open>\<open>i64::try_from\<close> of the amount, then its little-endian bytes.\<close>

definition signed_value_bytes :: "plan_input \<Rightarrow> bytes signer_result" where
  "signed_value_bytes i =
     (if unat (in_value i) < 2 ^ 63 then Ok (le_bytes 8 (in_value i))
      else invalid_input_err ''invalid Zcash UTXO amount'')"

definition header_bytes :: "u32 \<Rightarrow> bytes" where
  "header_bytes branch_id = le_bytes 4 OVERWINTERED_VERSION_5 @ le_bytes 4 VERSION_GROUP_ID_V5
     @ le_bytes 4 branch_id @ le_bytes 4 LOCK_TIME @ le_bytes 4 EXPIRY_HEIGHT_DISABLED"

definition header_digest :: "key_lib \<Rightarrow> u32 \<Rightarrow> bytes" where
  "header_digest K branch_id = blake2b_256_personal K (header_bytes branch_id) ZCASH_TXID_HEADERS_HASH_PERSONALIZATION"

definition zcash_unsigned :: "spend_plan \<Rightarrow> u32 \<Rightarrow> zcash_transaction" where
  "zcash_unsigned p branch_id = \<lparr>zc_branch_id = branch_id, zc_inputs = map unsigned_input (plan_inputs p),
     zc_outputs = map output_of (plan_outputs p)\<rparr>"

definition zcash_digests_new ::
  "consensus_lib \<Rightarrow> key_lib \<Rightarrow> zcash_transaction \<Rightarrow> spend_plan \<Rightarrow> zcash_digests signer_result" where
  "zcash_digests_new N K tx p =
     (let prevouts = concat (map (\<lambda>i. ser_outpoint N (previous_output i)) (plan_inputs p))
      in and_then (traverse signed_value_bytes (plan_inputs p)) (\<lambda>amounts.
           let script_pubkeys = concat (map (\<lambda>i. ser_script N (in_script_pubkey i)) (plan_inputs p));
               sequences = concat (map (\<lambda>i. le_bytes 4 (in_sequence i)) (plan_inputs p));
               outputs = concat (map (ser_txout N) (zc_outputs tx))
           in Ok \<lparr>zd_header = header_digest K (zc_branch_id tx),
                  zd_prevouts = blake2b_256_personal K prevouts ZCASH_TXID_PREVOUTS_HASH_PERSONALIZATION,
                  zd_amounts = blake2b_256_personal K (concat amounts) ZCASH_TRANSPARENT_AMOUNTS_HASH_PERSONALIZATION,
                  zd_script_pubkeys = blake2b_256_personal K script_pubkeys ZCASH_TRANSPARENT_SCRIPTS_HASH_PERSONALIZATION,
                  zd_sequences = blake2b_256_personal K sequences ZCASH_TXID_SEQUENCES_HASH_PERSONALIZATION,
                  zd_outputs = blake2b_256_personal K outputs ZCASH_TXID_OUTPUTS_HASH_PERSONALIZATION,
                  zd_sapling = blake2b_256_personal K [] ZCASH_TXID_SAPLING_HASH_PERSONALIZATION,
                  zd_orchard = blake2b_256_personal K [] ZCASH_TXID_ORCHARD_HASH_PERSONALIZATION\<rparr>))"

definition zcash_encode :: "consensus_lib \<Rightarrow> zcash_transaction \<Rightarrow> bytes" where
  "zcash_encode N tx =
     header_bytes (zc_branch_id tx)
     @ compact_size (of_nat (length (zc_inputs tx))) @ concat (map (ser_txin N) (zc_inputs tx))
     @ compact_size (of_nat (length (zc_outputs tx))) @ concat (map (ser_txout N) (zc_outputs tx))
     @ compact_size 0 @ compact_size 0 @ compact_size 0"

definition txin_sig_digest :: "consensus_lib \<Rightarrow> key_lib \<Rightarrow> spend_plan \<Rightarrow> nat \<Rightarrow> bytes signer_result" where
  "txin_sig_digest N K p input_index =
     (if input_index < length (plan_inputs p)
      then let i = plan_inputs p ! input_index
           in and_then (signed_value_bytes i) (\<lambda>v.
                Ok (blake2b_256_personal K
                  (ser_outpoint N (previous_output i) @ v @ ser_script N (in_script_pubkey i) @ le_bytes 4 (in_sequence i))
                  ZCASH_TXIN_HASH_PERSONALIZATION))
      else Err (SigningError ''Zcash input index out of bounds''))"

definition transparent_sig_digest ::
  "consensus_lib \<Rightarrow> key_lib \<Rightarrow> zcash_digests \<Rightarrow> spend_plan \<Rightarrow> nat \<Rightarrow> bytes signer_result" where
  "transparent_sig_digest N K digests p input_index =
     and_then (txin_sig_digest N K p input_index) (\<lambda>d.
       Ok (blake2b_256_personal K
         ([ZCASH_SIGHASH_ALL] @ zd_prevouts digests @ zd_amounts digests @ zd_script_pubkeys digests
          @ zd_sequences digests @ zd_outputs digests @ d) ZCASH_TXID_TRANSPARENT_HASH_PERSONALIZATION))"

definition branch_personalization :: "bytes \<Rightarrow> u32 \<Rightarrow> bytes" where
  "branch_personalization pre branch_id = pre @ le_bytes 4 branch_id"

definition signature_digest ::
  "consensus_lib \<Rightarrow> key_lib \<Rightarrow> u32 \<Rightarrow> zcash_digests \<Rightarrow> spend_plan \<Rightarrow> nat \<Rightarrow> bytes signer_result" where
  "signature_digest N K branch_id digests p input_index =
     and_then (transparent_sig_digest N K digests p input_index) (\<lambda>d.
       Ok (blake2b_256_personal K (zd_header digests @ d @ zd_sapling digests @ zd_orchard digests)
             (branch_personalization ZCASH_TX_HASH_PERSONALIZATION_PREFIX branch_id)))"

definition set_zc_script_sig :: "zcash_transaction \<Rightarrow> nat \<Rightarrow> bytes \<Rightarrow> zcash_transaction" where
  "set_zc_script_sig tx index script_sig =
     tx\<lparr>zc_inputs := (zc_inputs tx)[index := (zc_inputs tx ! index)\<lparr>txin_script_sig := script_sig\<rparr>]\<rparr>"

definition sign_transparent_inputs ::
  "script_lib \<Rightarrow> consensus_lib \<Rightarrow> key_lib \<Rightarrow> spend_plan \<Rightarrow> u32 \<Rightarrow> bytes \<Rightarrow> bytes \<Rightarrow> zcash_transaction signer_result" where
  "sign_transparent_inputs B N K p branch_id secret_key public_key =
     (let tx = zcash_unsigned p branch_id
      in and_then (zcash_digests_new N K tx p) (\<lambda>digests.
         try_fold (\<lambda>tx index.
           and_then (signature_digest N K (zc_branch_id tx) digests p index) (\<lambda>sighash.
           and_then (script_sig_of B N (der_signature K secret_key sighash ZCASH_SIGHASH_ALL) public_key)
             (\<lambda>script_sig. Ok (set_zc_script_sig tx index script_sig))))
         tx [0..<length (plan_inputs p)]))"

definition sign_transparent ::
  "script_lib \<Rightarrow> consensus_lib \<Rightarrow> key_lib \<Rightarrow> spend_plan \<Rightarrow> u32 \<Rightarrow> bytes \<Rightarrow> bytes \<Rightarrow> string signer_result" where
  "sign_transparent B N K p branch_id secret_key public_key =
     and_then (sign_transparent_inputs B N K p branch_id secret_key public_key)
       (\<lambda>tx. Ok (to_hex K (zcash_encode N tx)))"

section \<open>Entry points\<close>

definition sign_plan ::
  "script_lib \<Rightarrow> consensus_lib \<Rightarrow> key_lib \<Rightarrow> bitcoin_chain \<Rightarrow> spend_plan \<Rightarrow> bytes \<Rightarrow> u32 option \<Rightarrow> string signer_result" where
  "sign_plan B N K chain p private_key zcash_branch_id =
     and_then (ok_or (secret_key_from_slice K private_key)
                (InvalidInput (''invalid '' @ chain_name chain @ '' private key''))) (\<lambda>secret_key.
       let public_key = public_key_bytes K secret_key
       in and_then (validate_chain_input_types chain p) (\<lambda>_.
          and_then (validate_public_key B K chain p public_key) (\<lambda>_.
          and_then (validate_plan_amounts chain p) (\<lambda>_.
            case chain of
              BtcBitcoinCash \<Rightarrow> and_then (sign_bitcoin_cash B N K p secret_key public_key)
                                 (\<lambda>tx. Ok (to_hex K (ser_transaction N tx)))
            | BtcZcash \<Rightarrow>
                and_then (ok_or zcash_branch_id (InvalidInput ''missing Zcash branch id'')) (\<lambda>branch_id.
                  sign_transparent B N K p branch_id secret_key public_key)
            | _ \<Rightarrow> and_then (sign_standard B N K p secret_key public_key)
                     (\<lambda>tx. Ok (to_hex K (ser_transaction N tx)))))))"

definition sign_request ::
  "script_lib \<Rightarrow> address_lib \<Rightarrow> tx_lib \<Rightarrow> consensus_lib \<Rightarrow> key_lib \<Rightarrow> bitcoin_chain \<Rightarrow> spend_request \<Rightarrow> bytes
     \<Rightarrow> u32 option \<Rightarrow> string signer_result" where
  "sign_request B A X N K chain request private_key zcash_branch_id =
     and_then (plan B A X request) (\<lambda>p. sign_plan B N K chain p private_key zcash_branch_id)"

definition btc_sign_transfer ::
  "(string \<Rightarrow> bytes option) \<Rightarrow> script_lib \<Rightarrow> address_lib \<Rightarrow> tx_lib \<Rightarrow> consensus_lib \<Rightarrow> key_lib \<Rightarrow> bitcoin_chain
     \<Rightarrow> signer_input \<Rightarrow> bytes \<Rightarrow> string signer_result" where
  "btc_sign_transfer hex_decode B A X N K chain input private_key =
     and_then (request_transfer chain input) (\<lambda>request.
       sign_request B A X N K chain request private_key (get_zcash_branch_id hex_decode (metadata input)))"

definition btc_sign_swap ::
  "(string \<Rightarrow> bytes option) \<Rightarrow> script_lib \<Rightarrow> address_lib \<Rightarrow> tx_lib \<Rightarrow> consensus_lib \<Rightarrow> key_lib \<Rightarrow> bitcoin_chain
     \<Rightarrow> signer_input \<Rightarrow> bytes \<Rightarrow> string list signer_result" where
  "btc_sign_swap hex_decode B A X N K chain input private_key =
     and_then (request_swap chain input) (\<lambda>request.
     and_then (sign_request B A X N K chain request private_key (get_zcash_branch_id hex_decode (metadata input)))
       (\<lambda>out. Ok [out]))"

section \<open>Messages\<close>

definition BITCOIN_MESSAGE_PREFIX :: bytes where
  "BITCOIN_MESSAGE_PREFIX = 0x18 # as_bytes ''Bitcoin Signed Message:'' @ [0x0a]"

record sign_message_data =
  msg_message :: string
  msg_address :: string

definition message_preimage :: "string \<Rightarrow> bytes" where
  "message_preimage message =
     BITCOIN_MESSAGE_PREFIX @ compact_size (of_nat (length (as_bytes message))) @ as_bytes message"

definition message_hash :: "key_lib \<Rightarrow> sign_message_data \<Rightarrow> bytes" where
  "message_hash K data = sha256_hash K (sha256_hash K (message_preimage (msg_message data)))"

definition BIP137_P2WPKH_BASE :: u8 where "BIP137_P2WPKH_BASE = 39"
definition RECOVERY_ID_INDEX :: nat where "RECOVERY_ID_INDEX = 64"

definition sign_personal ::
  "key_lib \<Rightarrow> (bytes \<Rightarrow> sign_message_data signer_result) \<Rightarrow> bytes \<Rightarrow> bytes \<Rightarrow> (string \<times> string) signer_result" where
  "sign_personal K from_json data private_key =
     and_then (from_json data) (\<lambda>message.
     and_then (sign_recoverable K (message_hash K message) private_key) (\<lambda>signed.
       let recovery_id = signed ! RECOVERY_ID_INDEX;
           header = BIP137_P2WPKH_BASE + recovery_id
       in Ok (msg_address message, to_hex K (header # take RECOVERY_ID_INDEX signed))))"

end
