(* ===== verification/Bitcoin_Signing.thy ===== *)
theory Bitcoin_Signing
  imports Bitcoin_Plans Bitcoin_Signer
begin

text \<open>
  What the Bitcoin signer signs. The signer accepts every plan the planner makes for the key's own
  coins; a signed transaction has exactly the inputs and outputs of the plan; and the digests that
  Bitcoin Cash and Zcash signatures are made over determine the whole plan, unless the hash function
  collides on the strings that were hashed.
\<close>

section \<open>Compact-size integers read back\<close>

lemma compact_size_prefix_compact_size:
  "compact_size_prefix (compact_size v @ rest) = Some (v, rest)"
proof -
  consider "v < 0xfd" | "\<not> v < 0xfd" "v \<le> 0xffff" | "\<not> v \<le> 0xffff" "v \<le> 0xffffffff" | "\<not> v \<le> 0xffffffff"
    by fastforce
  then show ?thesis
  proof cases
    case 1
    then have small: "unat v < 2 ^ 8" by (simp add: word_less_nat_alt)
    then have "unat (ucast v :: u8) = unat v" by (simp add: unsigned_ucast_eq take_bit_nat_eq_self)
    then have "(ucast v :: u8) < 0xfd" using 1 by (simp add: word_less_nat_alt)
    then show ?thesis using 1 small by (simp add: compact_size_def compact_size_prefix_def ucast_small)
  next
    case 2
    then have "unat v < 2 ^ 16" by (simp add: word_le_nat_alt)
    then show ?thesis using 2 by (simp add: compact_size_def compact_size_prefix_def le_word_le_bytes_ucast)
  next
    case 3
    then have "\<not> v < 0xfd" "unat v < 2 ^ 32" by (auto simp: word_le_nat_alt word_less_nat_alt)
    then show ?thesis using 3 by (simp add: compact_size_def compact_size_prefix_def le_word_le_bytes_ucast)
  next
    case 4
    then have "\<not> v < 0xfd" "\<not> v \<le> 0xffff" by (auto simp: word_le_nat_alt word_less_nat_alt)
    then show ?thesis using 4 by (simp add: compact_size_def compact_size_prefix_def le_word_le_bytes_id)
  qed
qed

interpretation compact_size: codec compact_size compact_size_prefix "\<lambda>_. True"
  by unfold_locales (rule compact_size_prefix_compact_size)

lemma length_compact_size: "length (compact_size v) = varint_len (unat v)"
  by (auto simp: compact_size_def varint_len_def word_less_nat_alt word_le_nat_alt)

lemma length_prefixed_inj:
  assumes "length a < 2 ^ 64" "length b < 2 ^ 64"
    and "compact_size (of_nat (length a)) @ a @ r = compact_size (of_nat (length b)) @ b @ s"
  shows "a = b \<and> r = s"
proof -
  have eq: "of_nat (length a) = (of_nat (length b) :: u64) \<and> a @ r = b @ s"
    using assms(3) by (intro compact_size.enc_inj) auto
  then have "length a = length b"
    using assms(1,2) by (metis unat_of_nat_u64)
  then show ?thesis using eq by simp
qed

section \<open>Plans the signer accepts\<close>

lemma try_fold_unit_all: "(\<And>x. x \<in> set xs \<Longrightarrow> f () x = Ok ()) \<Longrightarrow> try_fold f () xs = Ok ()"
  by (induction xs) auto

lemma try_fold_unit_Ok [simp]:
  "try_fold (\<lambda>_ x. if P x then Ok () else f x) () xs = Ok () \<longleftrightarrow> list_all (\<lambda>x. P x \<or> f x = Ok ()) xs"
  by (induction xs) (auto simp: result_simps)

text \<open>
  What the code relies on from the script predicates of the \<open>bitcoin\<close> crate: a script that is
  recognised as one of the two templates is the template with the hash found at its offset.
\<close>

definition script_templates :: "script_lib \<Rightarrow> bool" where
  "script_templates B \<longleftrightarrow>
     (\<forall>s h. is_p2pkh B s \<and> get_range s P2PKH_HASH_OFFSET HASH160_LEN = Some h \<longrightarrow> s = p2pkh_script B h)
     \<and> (\<forall>s h. is_p2wpkh B s \<and> get_range s P2WPKH_HASH_OFFSET HASH160_LEN = Some h \<longrightarrow> s = p2wpkh_script B h)"

lemma unlocking_script_template:
  assumes "script_templates B" and "unlocking_script_of B a = Some u" and "public_key_hash_of B a = Some h"
  shows "script_for_public_key_hash B u h = script_pubkey a"
  using assms by (cases "locking_script a")
    (auto simp: script_templates_def unlocking_script_of_def public_key_hash_of_def split: if_splits option.splits)

lemma legacy_chain_unlocking:
  assumes "chain = BtcBitcoinCash \<or> chain = BtcZcash"
    and "script_for_address B A chain addr = Ok a" and "unlocking_script_of B a = Some u"
  shows "u = P2pkh"
proof -
  have "locking_script a = LockP2pkh \<or> locking_script a = LockP2sh"
    using assms(1,2) by (auto simp: bitcoin_cash_script_def zcash_script_def result_simps from_display_def
        split: if_splits cash_hash_type.splits) (metis cash_hash_type.exhaust)
  then show ?thesis
    using assms(3) by (auto simp: unlocking_script_of_def split: option.splits)
qed

lemma spends_coin_signable:
  assumes "spends_coin B A X chain sender u i"
  shows "chain = BtcBitcoinCash \<or> chain = BtcZcash \<Longrightarrow> in_unlocking_script i = P2pkh"
    and "script_templates B \<Longrightarrow> script_for_address B A chain sender = Ok s \<Longrightarrow> public_key_hash_of B s = Some h \<Longrightarrow>
       script_for_public_key_hash B (in_unlocking_script i) h = in_script_pubkey i"
proof -
  obtain s' a h' where a: "script_for_address B A chain sender = Ok s'" "public_key_hash_of B s' = Some h'"
      "script_for_address B A chain (utxo_address u) = Ok a" "public_key_hash_of B a = Some h'"
      "in_script_pubkey i = script_pubkey a" "unlocking_script_of B a = Some (in_unlocking_script i)"
    using assms by (auto simp: spends_coin_def)
  show "chain = BtcBitcoinCash \<or> chain = BtcZcash \<Longrightarrow> in_unlocking_script i = P2pkh"
    by (rule legacy_chain_unlocking [OF _ a(3,6)])
  show "script_templates B \<Longrightarrow> script_for_address B A chain sender = Ok s \<Longrightarrow> public_key_hash_of B s = Some h \<Longrightarrow>
       script_for_public_key_hash B (in_unlocking_script i) h = in_script_pubkey i"
    using a unlocking_script_template by (metis sum.inject(2))
qed

section \<open>The signed transaction\<close>

text \<open>Signing changes nothing but the unlocking data of the inputs.\<close>

definition same_spend :: "tx_in \<Rightarrow> plan_input \<Rightarrow> bool" where
  "same_spend t i \<longleftrightarrow> txin_previous_output t = previous_output i \<and> txin_sequence t = in_sequence i"

lemma sign_standard_transaction:
  assumes "sign_standard B N K p sk pk = Ok tx"
  shows "tx_version tx = 2 \<and> tx_lock_time tx = 0 \<and> list_all2 same_spend (tx_input tx) (plan_inputs p)
     \<and> tx_output tx = map output_of (plan_outputs p)"
proof -
  let ?zip = "zip [0..<length (plan_inputs p)] (plan_inputs p)"
  obtain signed where "traverse (sign_standard_input B N K (build_unsigned_transaction p) sk pk) ?zip = Ok signed"
      and tx: "tx = (build_unsigned_transaction p)\<lparr>tx_input := map (\<lambda>(i, s, w). i\<lparr>txin_script_sig := s, txin_witness := w\<rparr>)
          (zip (map unsigned_input (plan_inputs p)) signed)\<rparr>"
    using assms by (auto simp: sign_standard_def Let_def result_simps build_unsigned_transaction_def)
  then have "length signed = length (plan_inputs p)" using traverse_length by fastforce
  then show ?thesis
    using tx by (auto simp: build_unsigned_transaction_def list_all2_conv_all_nth same_spend_def unsigned_input_def
        split: prod.splits)
qed

lemma set_script_sig_simps [simp]:
  "tx_version (set_script_sig tx k s) = tx_version tx" "tx_lock_time (set_script_sig tx k s) = tx_lock_time tx"
  "tx_output (set_script_sig tx k s) = tx_output tx"
  by (simp_all add: set_script_sig_def)

lemma list_all2_update_sig:
  assumes "list_all2 same_spend ts is"
  shows "list_all2 same_spend (ts[k := (ts ! k)\<lparr>txin_script_sig := s\<rparr>]) is"
proof (cases "k < length ts")
  case True
  then show ?thesis using assms by (auto simp: list_all2_conv_all_nth same_spend_def nth_list_update)
qed (use assms in \<open>simp add: list_update_beyond\<close>)

lemma try_fold_invariant:
  assumes "I s" and "\<And>s x s'. I s \<Longrightarrow> f s x = Ok s' \<Longrightarrow> I s'" and "try_fold f s xs = Ok t"
  shows "I t"
  using assms(1,3) by (induction xs arbitrary: s) (auto simp: result_simps intro: assms(2))

lemma unsigned_same_spend: "list_all2 same_spend (map unsigned_input is) is"
  by (simp add: list_all2_conv_all_nth same_spend_def unsigned_input_def)

lemma sign_bitcoin_cash_transaction:
  assumes "sign_bitcoin_cash B N K p sk pk = Ok tx"
  shows "tx_version tx = 2 \<and> tx_lock_time tx = 0 \<and> list_all2 same_spend (tx_input tx) (plan_inputs p)
     \<and> tx_output tx = map output_of (plan_outputs p)"
  using assms unfolding sign_bitcoin_cash_def Let_def
  by (elim try_fold_invariant [rotated 2])
    (auto simp: build_unsigned_transaction_def unsigned_same_spend result_simps set_script_sig_def list_all2_update_sig)

lemma sign_transparent_transaction:
  assumes "sign_transparent_inputs B N K p branch sk pk = Ok tx"
  shows "zc_branch_id tx = branch \<and> list_all2 same_spend (zc_inputs tx) (plan_inputs p)
     \<and> zc_outputs tx = map output_of (plan_outputs p)"
proof -
  obtain digests where "try_fold (\<lambda>tx index.
           and_then (signature_digest N K (zc_branch_id tx) digests p index) (\<lambda>sighash.
           and_then (script_sig_of B N (der_signature K sk sighash ZCASH_SIGHASH_ALL) pk)
             (\<lambda>script_sig. Ok (set_zc_script_sig tx index script_sig))))
         (zcash_unsigned p branch) [0..<length (plan_inputs p)] = Ok tx"
    using assms by (auto simp: sign_transparent_inputs_def Let_def result_simps)
  then show ?thesis
    by (elim try_fold_invariant [rotated 2])
      (auto simp: zcash_unsigned_def unsigned_same_spend result_simps set_zc_script_sig_def list_all2_update_sig)
qed

section \<open>What a signature digest determines\<close>

text \<open>
  What the code relies on from consensus serialisation: outpoints, scripts and outputs are written
  self-delimiting, so that equal concatenations have equal parts.
\<close>

definition outpoint_wf :: "outpoint \<Rightarrow> bool" where
  "outpoint_wf op \<longleftrightarrow> length (txid op) = 32"

definition script_wf :: "bytes \<Rightarrow> bool" where
  "script_wf s \<longleftrightarrow> length s < 2 ^ 64"

definition txout_wf :: "tx_out \<Rightarrow> bool" where
  "txout_wf t \<longleftrightarrow> script_wf (txout_script_pubkey t)"

definition consensus_codec :: "consensus_lib \<Rightarrow> bool" where
  "consensus_codec N \<longleftrightarrow>
     prefix_code (ser_outpoint N) outpoint_wf \<and> prefix_code (ser_script N) script_wf
     \<and> prefix_code (ser_txout N) txout_wf
     \<and> (\<forall>op. ser_outpoint N op \<noteq> []) \<and> (\<forall>s. ser_script N s \<noteq> []) \<and> (\<forall>t. ser_txout N t \<noteq> [])"

definition plan_wf :: "spend_plan \<Rightarrow> bool" where
  "plan_wf p \<longleftrightarrow> list_all (\<lambda>i. outpoint_wf (previous_output i) \<and> script_wf (in_script_pubkey i)) (plan_inputs p)
     \<and> list_all (\<lambda>out. script_wf (out_script_pubkey out)) (plan_outputs p)"

definition prevouts_bytes :: "consensus_lib \<Rightarrow> spend_plan \<Rightarrow> bytes" where
  "prevouts_bytes N p = concat (map (ser_outpoint N) (map previous_output (plan_inputs p)))"

definition sequences_bytes :: "spend_plan \<Rightarrow> bytes" where
  "sequences_bytes p = concat (map (le_bytes 4) (map in_sequence (plan_inputs p)))"

definition scripts_bytes :: "consensus_lib \<Rightarrow> spend_plan \<Rightarrow> bytes" where
  "scripts_bytes N p = concat (map (ser_script N) (map in_script_pubkey (plan_inputs p)))"

definition outputs_bytes :: "consensus_lib \<Rightarrow> spend_plan \<Rightarrow> bytes" where
  "outputs_bytes N p = concat (map (ser_txout N) (map output_of (plan_outputs p)))"

lemma prevouts_bytes_inj:
  assumes "consensus_codec N" "plan_wf p" "plan_wf q" and "prevouts_bytes N p = prevouts_bytes N q"
  shows "map previous_output (plan_inputs p) = map previous_output (plan_inputs q)"
  using assms unfolding prevouts_bytes_def
  by (intro prefix_code.concat_inj [of "ser_outpoint N" outpoint_wf])
    (auto simp: consensus_codec_def plan_wf_def list_all_iff)

lemma scripts_bytes_inj:
  assumes "consensus_codec N" "plan_wf p" "plan_wf q" and "scripts_bytes N p = scripts_bytes N q"
  shows "map in_script_pubkey (plan_inputs p) = map in_script_pubkey (plan_inputs q)"
  using assms unfolding scripts_bytes_def
  by (intro prefix_code.concat_inj [of "ser_script N" script_wf])
    (auto simp: consensus_codec_def plan_wf_def list_all_iff)

lemma sequences_bytes_inj:
  assumes "sequences_bytes p = sequences_bytes q"
  shows "map in_sequence (plan_inputs p) = map in_sequence (plan_inputs q)"
  using assms unfolding sequences_bytes_def
  by (intro le_u32.concat_inj) (auto simp: list_all_iff numeral_eq_Suc)

lemma outputs_bytes_inj:
  assumes "consensus_codec N" "plan_wf p" "plan_wf q" and "outputs_bytes N p = outputs_bytes N q"
  shows "plan_outputs p = plan_outputs q"
proof -
  have "map output_of (plan_outputs p) = map output_of (plan_outputs q)"
    using assms unfolding outputs_bytes_def
    by (intro prefix_code.concat_inj [of "ser_txout N" txout_wf])
      (auto simp: consensus_codec_def plan_wf_def list_all_iff txout_wf_def output_of_def)
  moreover have "inj output_of"
    by (auto simp: inj_def output_of_def)
  ultimately show ?thesis by simp
qed

subsection \<open>Bitcoin Cash\<close>

definition bch_components :: "consensus_lib \<Rightarrow> key_lib \<Rightarrow> spend_plan \<Rightarrow> sighash_components" where
  "bch_components N K p = sighash_components_new N K (build_unsigned_transaction p) p"

definition bch_digest :: "consensus_lib \<Rightarrow> key_lib \<Rightarrow> spend_plan \<Rightarrow> nat \<Rightarrow> bytes signer_result" where
  "bch_digest N K p k = bch_signature_hash N K (build_unsigned_transaction p) p (bch_components N K p) k"

text \<open>The strings that are hashed on the way to the digest of input \<open>k\<close>.\<close>

definition bch_hashed :: "consensus_lib \<Rightarrow> key_lib \<Rightarrow> spend_plan \<Rightarrow> nat \<Rightarrow> bytes set" where
  "bch_hashed N K p k = {prevouts_bytes N p, sequences_bytes p, outputs_bytes N p,
     bch_preimage N (build_unsigned_transaction p) (bch_components N K p) (plan_inputs p ! k)}"

lemma bch_components_eq:
  "hash_prevouts (bch_components N K p) = double_sha256 K (prevouts_bytes N p)"
  "hash_sequence (bch_components N K p) = double_sha256 K (sequences_bytes p)"
  "hash_outputs (bch_components N K p) = double_sha256 K (outputs_bytes N p)"
  by (simp_all add: bch_components_def sighash_components_new_def prevouts_bytes_def sequences_bytes_def
      outputs_bytes_def build_unsigned_transaction_def comp_def)

text \<open>What the signature of an input says about that input.\<close>

definition same_coin :: "plan_input \<Rightarrow> plan_input \<Rightarrow> bool" where
  "same_coin i j \<longleftrightarrow> previous_output i = previous_output j \<and> in_script_pubkey i = in_script_pubkey j
     \<and> in_value i = in_value j \<and> in_sequence i = in_sequence j"

lemma bch_preimage_inj:
  assumes "consensus_codec N" and "outpoint_wf (previous_output i)" "outpoint_wf (previous_output j)"
    and "script_wf (in_script_pubkey i)" "script_wf (in_script_pubkey j)"
    and len: "\<And>x. length (double_sha256 K x) = 32"
    and eq: "bch_preimage N (build_unsigned_transaction p) (bch_components N K p) i
           = bch_preimage N (build_unsigned_transaction q) (bch_components N K q) j"
  shows "same_coin i j \<and> double_sha256 K (prevouts_bytes N p) = double_sha256 K (prevouts_bytes N q)
     \<and> double_sha256 K (sequences_bytes p) = double_sha256 K (sequences_bytes q)
     \<and> double_sha256 K (outputs_bytes N p) = double_sha256 K (outputs_bytes N q)"
proof -
  let ?tail = "\<lambda>i p. le_bytes 8 (in_value i) @ le_bytes 4 (in_sequence i) @ double_sha256 K (outputs_bytes N p)
     @ le_bytes 4 (0 :: u32) @ le_bytes 4 SIGHASH_ALL_FORKID"
  have 1: "double_sha256 K (prevouts_bytes N p) = double_sha256 K (prevouts_bytes N q)"
      "double_sha256 K (sequences_bytes p) = double_sha256 K (sequences_bytes q)"
      "ser_outpoint N (previous_output i) @ ser_script N (in_script_pubkey i) @ ?tail i p
       = ser_outpoint N (previous_output j) @ ser_script N (in_script_pubkey j) @ ?tail j q"
    using eq by (simp_all add: bch_preimage_def bch_components_eq build_unsigned_transaction_def len)
  have 2: "previous_output i = previous_output j
      \<and> ser_script N (in_script_pubkey i) @ ?tail i p = ser_script N (in_script_pubkey j) @ ?tail j q"
    using assms(1-3) 1(3) by (intro prefix_code.enc_inj [of "ser_outpoint N" outpoint_wf]) (auto simp: consensus_codec_def)
  have 3: "in_script_pubkey i = in_script_pubkey j \<and> ?tail i p = ?tail j q"
    using assms(1,4,5) 2 by (intro prefix_code.enc_inj [of "ser_script N" script_wf]) (auto simp: consensus_codec_def)
  then have "in_value i = in_value j" "in_sequence i = in_sequence j"
      "double_sha256 K (outputs_bytes N p) = double_sha256 K (outputs_bytes N q)"
    by (auto simp: len dest: le_bytes_inj [rotated])
  then show ?thesis using 1 2 3 by (simp add: same_coin_def)
qed

subsection \<open>Zcash\<close>

definition amounts_bytes :: "spend_plan \<Rightarrow> bytes" where
  "amounts_bytes p = concat (map (le_bytes 8) (map in_value (plan_inputs p)))"

lemma amounts_bytes_inj:
  "amounts_bytes p = amounts_bytes q \<Longrightarrow> map in_value (plan_inputs p) = map in_value (plan_inputs q)"
  unfolding amounts_bytes_def by (intro le_u64.concat_inj) (auto simp: list_all_iff numeral_eq_Suc)

definition txin_bytes :: "consensus_lib \<Rightarrow> plan_input \<Rightarrow> bytes" where
  "txin_bytes N i = ser_outpoint N (previous_output i) @ le_bytes 8 (in_value i) @ ser_script N (in_script_pubkey i)
     @ le_bytes 4 (in_sequence i)"

definition transparent_bytes :: "consensus_lib \<Rightarrow> key_lib \<Rightarrow> spend_plan \<Rightarrow> nat \<Rightarrow> bytes" where
  "transparent_bytes N K p k = [ZCASH_SIGHASH_ALL]
     @ blake2b_256_personal K (prevouts_bytes N p) ZCASH_TXID_PREVOUTS_HASH_PERSONALIZATION
     @ blake2b_256_personal K (amounts_bytes p) ZCASH_TRANSPARENT_AMOUNTS_HASH_PERSONALIZATION
     @ blake2b_256_personal K (scripts_bytes N p) ZCASH_TRANSPARENT_SCRIPTS_HASH_PERSONALIZATION
     @ blake2b_256_personal K (sequences_bytes p) ZCASH_TXID_SEQUENCES_HASH_PERSONALIZATION
     @ blake2b_256_personal K (outputs_bytes N p) ZCASH_TXID_OUTPUTS_HASH_PERSONALIZATION
     @ blake2b_256_personal K (txin_bytes N (plan_inputs p ! k)) ZCASH_TXIN_HASH_PERSONALIZATION"

definition sighash_bytes :: "consensus_lib \<Rightarrow> key_lib \<Rightarrow> spend_plan \<Rightarrow> u32 \<Rightarrow> nat \<Rightarrow> bytes" where
  "sighash_bytes N K p branch k = header_digest K branch
     @ blake2b_256_personal K (transparent_bytes N K p k) ZCASH_TXID_TRANSPARENT_HASH_PERSONALIZATION
     @ blake2b_256_personal K [] ZCASH_TXID_SAPLING_HASH_PERSONALIZATION
     @ blake2b_256_personal K [] ZCASH_TXID_ORCHARD_HASH_PERSONALIZATION"

definition zcash_digest :: "consensus_lib \<Rightarrow> key_lib \<Rightarrow> spend_plan \<Rightarrow> u32 \<Rightarrow> nat \<Rightarrow> bytes signer_result" where
  "zcash_digest N K p branch k =
     and_then (zcash_digests_new N K (zcash_unsigned p branch) p) (\<lambda>d. signature_digest N K branch d p k)"

definition zcash_hashed :: "consensus_lib \<Rightarrow> key_lib \<Rightarrow> spend_plan \<Rightarrow> u32 \<Rightarrow> nat \<Rightarrow> (bytes \<times> bytes) set" where
  "zcash_hashed N K p branch k =
     {(header_bytes branch, ZCASH_TXID_HEADERS_HASH_PERSONALIZATION),
      (prevouts_bytes N p, ZCASH_TXID_PREVOUTS_HASH_PERSONALIZATION),
      (amounts_bytes p, ZCASH_TRANSPARENT_AMOUNTS_HASH_PERSONALIZATION),
      (scripts_bytes N p, ZCASH_TRANSPARENT_SCRIPTS_HASH_PERSONALIZATION),
      (sequences_bytes p, ZCASH_TXID_SEQUENCES_HASH_PERSONALIZATION),
      (outputs_bytes N p, ZCASH_TXID_OUTPUTS_HASH_PERSONALIZATION),
      (txin_bytes N (plan_inputs p ! k), ZCASH_TXIN_HASH_PERSONALIZATION),
      (transparent_bytes N K p k, ZCASH_TXID_TRANSPARENT_HASH_PERSONALIZATION),
      (sighash_bytes N K p branch k, branch_personalization ZCASH_TX_HASH_PERSONALIZATION_PREFIX branch)}"

lemma traverse_signed_values:
  "traverse signed_value_bytes is = Ok vs \<Longrightarrow> vs = map (\<lambda>i. le_bytes 8 (in_value i)) is"
  by (induction "is" arbitrary: vs) (auto simp: result_simps signed_value_bytes_def invalid_input_err_def split: if_splits)

lemma zcash_digest_Ok:
  assumes "zcash_digest N K p branch k = Ok h"
  shows "k < length (plan_inputs p)"
    and "h = blake2b_256_personal K (sighash_bytes N K p branch k)
        (branch_personalization ZCASH_TX_HASH_PERSONALIZATION_PREFIX branch)"
proof -
  show k: "k < length (plan_inputs p)"
    using assms by (auto simp: zcash_digest_def signature_digest_def transparent_sig_digest_def txin_sig_digest_def
        result_simps split: if_splits)
  obtain vs v where "traverse signed_value_bytes (plan_inputs p) = Ok vs"
      "signed_value_bytes (plan_inputs p ! k) = Ok v"
    using assms k by (auto simp: zcash_digest_def zcash_digests_new_def signature_digest_def transparent_sig_digest_def
        txin_sig_digest_def result_simps Let_def)
  moreover from this have "vs = map (\<lambda>i. le_bytes 8 (in_value i)) (plan_inputs p)"
      "v = le_bytes 8 (in_value (plan_inputs p ! k))"
    by (auto simp: traverse_signed_values signed_value_bytes_def invalid_input_err_def split: if_splits)
  ultimately show "h = blake2b_256_personal K (sighash_bytes N K p branch k)
        (branch_personalization ZCASH_TX_HASH_PERSONALIZATION_PREFIX branch)"
    using assms k
    by (simp add: zcash_digest_def zcash_digests_new_def signature_digest_def transparent_sig_digest_def txin_sig_digest_def
        Let_def sighash_bytes_def transparent_bytes_def txin_bytes_def prevouts_bytes_def amounts_bytes_def
        scripts_bytes_def sequences_bytes_def outputs_bytes_def zcash_unsigned_def comp_def)
qed

lemma txin_bytes_inj:
  assumes "consensus_codec N" "outpoint_wf (previous_output i)" "outpoint_wf (previous_output j)"
    and "script_wf (in_script_pubkey i)" "script_wf (in_script_pubkey j)"
    and "txin_bytes N i = txin_bytes N j"
  shows "same_coin i j"
proof -
  have 1: "previous_output i = previous_output j
      \<and> le_bytes 8 (in_value i) @ ser_script N (in_script_pubkey i) @ le_bytes 4 (in_sequence i)
      = le_bytes 8 (in_value j) @ ser_script N (in_script_pubkey j) @ le_bytes 4 (in_sequence j)"
    using assms by (intro prefix_code.enc_inj [of "ser_outpoint N" outpoint_wf])
      (auto simp: consensus_codec_def txin_bytes_def)
  then have "in_value i = in_value j" and 2: "ser_script N (in_script_pubkey i) @ le_bytes 4 (in_sequence i)
      = ser_script N (in_script_pubkey j) @ le_bytes 4 (in_sequence j)"
    by (auto dest: le_bytes_inj [rotated])
  have "in_script_pubkey i = in_script_pubkey j \<and> le_bytes 4 (in_sequence i) = le_bytes 4 (in_sequence j)"
    using assms(1,4,5) 2 by (intro prefix_code.enc_inj [of "ser_script N" script_wf]) (auto simp: consensus_codec_def)
  then show ?thesis
    using 1 \<open>in_value i = in_value j\<close> by (auto simp: same_coin_def dest: le_bytes_inj [rotated])
qed

lemma branch_personalization_inj:
  "branch_personalization pre b = branch_personalization pre c \<longleftrightarrow> b = c"
  by (auto simp: branch_personalization_def dest: le_bytes_inj [rotated])

lemma sighash_bytes_inj:
  assumes "\<And>x y. length (blake2b_256_personal K x y) = 32"
    and "sighash_bytes N K p b k = sighash_bytes N K q c l"
  shows "blake2b_256_personal K (transparent_bytes N K p k) ZCASH_TXID_TRANSPARENT_HASH_PERSONALIZATION
       = blake2b_256_personal K (transparent_bytes N K q l) ZCASH_TXID_TRANSPARENT_HASH_PERSONALIZATION"
  using assms by (simp add: sighash_bytes_def header_digest_def)

section \<open>A concrete library\<close>

definition ex_ser_script :: "bytes \<Rightarrow> bytes" where
  "ex_ser_script s = compact_size (of_nat (length s)) @ s"

definition ex_consensus :: consensus_lib where
  "ex_consensus = \<lparr>ser_outpoint = (\<lambda>op. txid op @ le_bytes 4 (vout op)), ser_script = ex_ser_script,
     ser_txout = (\<lambda>t. le_bytes 8 (txout_value t) @ ex_ser_script (txout_script_pubkey t)),
     ser_txin = (\<lambda>_. []), ser_transaction = (\<lambda>_. []),
     legacy_signature_hash = (\<lambda>_ _ _ _. Inr []), p2wpkh_signature_hash = (\<lambda>_ _ _ _. Inr []), push_key = id\<rparr>"

definition ex_keys :: key_lib where
  "ex_keys = \<lparr>secret_key_from_slice = Some, public_key_bytes = id, sign_ecdsa_der = (\<lambda>_ d. d),
     sign_recoverable = (\<lambda>d k. Ok (replicate 65 1)), hash160 = (\<lambda>_. replicate 20 1), sha256_hash = id,
     double_sha256 = (\<lambda>x. of_nat (length x) # replicate 31 0),
     blake2b_256_personal = (\<lambda>x y. take 32 (y @ replicate 32 0)), to_hex = (\<lambda>_. ''00'')\<rparr>"

lemma compact_size_nonempty [simp]: "compact_size v \<noteq> []"
  by (simp add: compact_size_def)

lemma ex_consensus_codec: "consensus_codec ex_consensus"
proof -
  have "prefix_code (\<lambda>op. txid op @ le_bytes 4 (vout op)) outpoint_wf"
    by unfold_locales (auto simp: outpoint_wf_def dest: le_bytes_inj [rotated])
  moreover have "prefix_code ex_ser_script script_wf"
  proof
    fix x y r s assume "script_wf x" "script_wf y" "ex_ser_script x @ r = ex_ser_script y @ s"
    then show "x = y \<and> r = s" using length_prefixed_inj [of x y r s] by (simp add: ex_ser_script_def script_wf_def)
  qed
  moreover have "prefix_code (\<lambda>t. le_bytes 8 (txout_value t) @ ex_ser_script (txout_script_pubkey t)) txout_wf"
  proof
    fix x y :: tx_out and r s assume w: "txout_wf x" "txout_wf y"
      and eq: "(le_bytes 8 (txout_value x) @ ex_ser_script (txout_script_pubkey x)) @ r
         = (le_bytes 8 (txout_value y) @ ex_ser_script (txout_script_pubkey y)) @ s"
    then have "le_bytes 8 (txout_value x) = le_bytes 8 (txout_value y)"
        "ex_ser_script (txout_script_pubkey x) @ r = ex_ser_script (txout_script_pubkey y) @ s" by simp_all
    then have "txout_value x = txout_value y" "txout_script_pubkey x = txout_script_pubkey y \<and> r = s"
      using w length_prefixed_inj [of "txout_script_pubkey x" "txout_script_pubkey y" r s]
      by (auto simp: ex_ser_script_def txout_wf_def script_wf_def dest: le_bytes_inj [rotated])
    then show "x = y \<and> r = s" by simp
  qed
  ultimately show ?thesis
    by (simp add: consensus_codec_def ex_consensus_def) (simp add: ex_ser_script_def numeral_eq_Suc)
qed

lemma ex_script_templates: "script_templates ex_scripts"
proof -
  have split: "s = take n s @ take 20 (drop n s) @ drop (n + 20) s" for s :: bytes and n
    by (metis append_take_drop_id drop_drop add.commute)
  have pkh: "s = 0x76 # 0xa9 # 20 # take 20 (drop 3 s) @ [0x88, 0xac]"
    if "take 3 s = [0x76, 0xa9, 20]" "drop 23 s = [0x88, 0xac]" for s :: bytes
  proof -
    have "s = take 3 s @ take 20 (drop 3 s) @ drop 23 s" using split [of s 3] by simp
    also have "\<dots> = 0x76 # 0xa9 # 20 # take 20 (drop 3 s) @ [0x88, 0xac]" by (simp only: that append.simps)
    finally show ?thesis .
  qed
  have wpkh: "s = 0 # 20 # drop 2 s" if "take 2 s = [0, 20]" for s :: bytes
    using append_take_drop_id [of 2 s] that by (metis append_Cons append_Nil)
  show ?thesis
    unfolding script_templates_def
    by (auto simp: ex_scripts_def get_range_def p2pkh_script_def p2wpkh_script_def script_consts
        intro: pkh wpkh split: if_splits)
qed

definition ex_spend :: spend_plan where
  "ex_spend = \<lparr>plan_inputs = [\<lparr>previous_output = \<lparr>txid = replicate 32 5, vout = 1\<rparr>, in_value = 700,
       in_script_pubkey = p2pkh_script ex_scripts (replicate 20 1), in_unlocking_script = P2pkh, in_sequence = 3\<rparr>],
     plan_outputs = [payment 600 [1, 2, 3]], plan_fee = 100\<rparr>"

lemma ex_spend_wf: "plan_wf ex_spend"
  by (simp add: plan_wf_def ex_spend_def outpoint_wf_def script_wf_def p2pkh_script_def ex_scripts_def)

section \<open>Properties\<close>

text \<open>
  C25: The signer accepts what the planner plans. For a key whose public key hash is the one of the
  sender's address, a plan for the sender's coins passes all three checks of the signer: the input
  types of the chain, the key against every input's script, and the amounts.
\<close>

theorem planned_spend_accepted:
  assumes "plan B A X req = Ok p" and "script_templates B"
    and "script_for_address B A (req_chain req) (req_sender_address req) = Ok s"
    and "public_key_hash_of B s = Some (hash160 K pk)"
  shows "validate_chain_input_types (req_chain req) p = Ok ()
     \<and> validate_public_key B K (req_chain req) p pk = Ok () \<and> validate_plan_amounts (req_chain req) p = Ok ()"
proof -
  have spends: "\<exists>u. spends_coin B A X (req_chain req) (req_sender_address req) u i" if "i \<in> set (plan_inputs p)" for i
  proof -
    obtain inputs where i: "list_all2 (spends_coin B A X (req_chain req) (req_sender_address req)) (req_utxos req) inputs"
        "mset (plan_inputs p) \<subseteq># mset inputs"
      using plan_coins [OF assms(1)] by blast
    then have "i \<in> set inputs" using that by (metis mset_subset_eqD set_mset_mset)
    then show ?thesis using i(1) by (metis in_set_conv_nth list_all2_conv_all_nth)
  qed
  have "validate_chain_input_types (req_chain req) p = Ok ()"
    unfolding validate_chain_input_types_def
  proof (rule try_fold_unit_all)
    fix i assume "i \<in> set (plan_inputs p)"
    then obtain u where u: "spends_coin B A X (req_chain req) (req_sender_address req) u i" using spends by blast
    show "(case req_chain req of BtcBitcoin \<Rightarrow> Ok () | BtcLitecoin \<Rightarrow> Ok () | BtcDoge \<Rightarrow> Ok ()
       | _ \<Rightarrow> if in_unlocking_script i = P2pkh then Ok ()
              else invalid_input_err (chain_message (req_chain req) ''UTXO address type is unsupported'')) = Ok ()"
      using spends_coin_signable(1) [OF u] by (auto split: bitcoin_chain.splits)
  qed
  moreover have "validate_public_key B K (req_chain req) p pk = Ok ()"
    unfolding validate_public_key_def Let_def
  proof (rule try_fold_unit_all)
    fix i assume "i \<in> set (plan_inputs p)"
    then obtain u where u: "spends_coin B A X (req_chain req) (req_sender_address req) u i" using spends by blast
    show "(if script_for_public_key_hash B (in_unlocking_script i) (hash160 K pk) = in_script_pubkey i then Ok ()
       else invalid_input_err (chain_message (req_chain req) ''private key does not match sender address'')) = Ok ()"
      using spends_coin_signable(2) [OF u assms(2-4)] by simp
  qed
  moreover have "coins (plan_inputs p) = paid (plan_outputs p) + unat (plan_fee p)"
    using plan_well_planned [OF assms(1)] by (auto simp: well_planned_def)
  then have "validate_plan_amounts (req_chain req) p = Ok ()"
    by (simp add: validate_plan_amounts_def coins_def paid_def)
  ultimately show ?thesis by simp
qed

theorem planned_spend_accepted_witness:
  "\<exists>p. ex_plan False [9000, 5000, 20000] = Ok p \<and> validate_public_key ex_scripts ex_keys BtcBitcoin p [7] = Ok ()
     \<and> validate_plan_amounts BtcBitcoin p = Ok ()"
proof -
  obtain p where p: "ex_plan False [9000, 5000, 20000] = Ok p" using ex_plan_Ok by blast
  have "public_key_hash_of ex_scripts \<lparr>script_pubkey = [0, 20] @ replicate 20 1, locking_script = LockP2wpkh\<rparr>
      = Some (hash160 ex_keys [7])" by code_simp
  moreover have "script_for_address ex_scripts ex_addresses BtcBitcoin ''me''
      = Ok \<lparr>script_pubkey = [0, 20] @ replicate 20 1, locking_script = LockP2wpkh\<rparr>" by code_simp
  ultimately show ?thesis
    using planned_spend_accepted [OF p ex_script_templates] p by (auto simp: ex_request_def)
qed

text \<open>
  C2: The signer signs nothing but the plan, and only with the key it belongs to. If signing a plan
  succeeds, the amounts of the plan balance, every input's script is the script of the key, and the
  transaction that is serialised has the plan's inputs, with the plan's outpoints and sequence
  numbers in order, and exactly the plan's outputs.
\<close>

theorem sign_plan_signs_the_plan:
  assumes "sign_plan B N K chain p private_key branch = Ok out"
  shows "\<exists>sk. secret_key_from_slice K private_key = Some sk
     \<and> coins (plan_inputs p) = paid (plan_outputs p) + unat (plan_fee p)
     \<and> list_all (\<lambda>i. script_for_public_key_hash B (in_unlocking_script i) (hash160 K (public_key_bytes K sk))
          = in_script_pubkey i) (plan_inputs p)
     \<and> (if chain = BtcZcash
        then \<exists>b tx. branch = Some b \<and> out = to_hex K (zcash_encode N tx) \<and> zc_branch_id tx = b
          \<and> list_all2 same_spend (zc_inputs tx) (plan_inputs p) \<and> zc_outputs tx = map output_of (plan_outputs p)
        else \<exists>tx. out = to_hex K (ser_transaction N tx) \<and> tx_version tx = 2 \<and> tx_lock_time tx = 0
          \<and> list_all2 same_spend (tx_input tx) (plan_inputs p) \<and> tx_output tx = map output_of (plan_outputs p))"
proof -
  obtain sk where sk: "secret_key_from_slice K private_key = Some sk"
      and key: "validate_public_key B K chain p (public_key_bytes K sk) = Ok ()"
      and amounts: "validate_plan_amounts chain p = Ok ()"
    using assms by (auto simp: sign_plan_def result_simps Let_def)
  have "coins (plan_inputs p) = paid (plan_outputs p) + unat (plan_fee p)"
    using amounts by (auto simp: validate_plan_amounts_def Let_def coins_def paid_def invalid_input_err_def split: if_splits)
  moreover have "list_all (\<lambda>i. script_for_public_key_hash B (in_unlocking_script i) (hash160 K (public_key_bytes K sk))
          = in_script_pubkey i) (plan_inputs p)"
    using key by (simp add: validate_public_key_def Let_def invalid_input_err_def)
  moreover have "if chain = BtcZcash
        then \<exists>b tx. branch = Some b \<and> out = to_hex K (zcash_encode N tx) \<and> zc_branch_id tx = b
          \<and> list_all2 same_spend (zc_inputs tx) (plan_inputs p) \<and> zc_outputs tx = map output_of (plan_outputs p)
        else \<exists>tx. out = to_hex K (ser_transaction N tx) \<and> tx_version tx = 2 \<and> tx_lock_time tx = 0
          \<and> list_all2 same_spend (tx_input tx) (plan_inputs p) \<and> tx_output tx = map output_of (plan_outputs p)"
    using assms sk by (cases chain) (auto simp: sign_plan_def sign_transparent_def result_simps Let_def
        dest!: sign_standard_transaction sign_bitcoin_cash_transaction sign_transparent_transaction)
  ultimately show ?thesis using sk by blast
qed

theorem sign_plan_signs_the_plan_witness:
  "\<exists>out (tx :: zcash_transaction). sign_plan ex_scripts ex_consensus ex_keys BtcZcash ex_spend [7] (Some 9) = Ok out
     \<and> list_all2 same_spend (zc_inputs tx) (plan_inputs ex_spend) \<and> zc_branch_id tx = 9
     \<and> zc_outputs tx = map output_of (plan_outputs ex_spend)"
proof -
  have "is_ok (sign_plan ex_scripts ex_consensus ex_keys BtcZcash ex_spend [7] (Some 9))" by code_simp
  then obtain out where out: "sign_plan ex_scripts ex_consensus ex_keys BtcZcash ex_spend [7] (Some 9) = Ok out"
    by (auto simp: is_ok_iff)
  obtain tx :: zcash_transaction where "zc_branch_id tx = 9" "list_all2 same_spend (zc_inputs tx) (plan_inputs ex_spend)"
      "zc_outputs tx = map output_of (plan_outputs ex_spend)"
    using sign_plan_signs_the_plan [OF out] by auto
  then show ?thesis using out by blast
qed

text \<open>
  A Bitcoin Cash signature commits to the whole plan. If the digests signed for input \<open>k\<close> of one
  plan and input \<open>l\<close> of another are equal, and the hash function does not collide on the strings that
  were hashed, then the two plans spend the same outpoints with the same sequence numbers, have the
  same outputs, and the two inputs agree on outpoint, script, amount and sequence number.
\<close>

theorem bch_digest_binds_plan:
  assumes "bch_digest N K p k = Ok h" and "bch_digest N K q l = Ok h"
    and "consensus_codec N" "plan_wf p" "plan_wf q" and "\<forall>x. length (double_sha256 K x) = 32"
    and "inj_on (double_sha256 K) (bch_hashed N K p k \<union> bch_hashed N K q l)"
  shows "map previous_output (plan_inputs p) = map previous_output (plan_inputs q)
     \<and> map in_sequence (plan_inputs p) = map in_sequence (plan_inputs q)
     \<and> plan_outputs p = plan_outputs q \<and> same_coin (plan_inputs p ! k) (plan_inputs q ! l)"
proof -
  let ?pre = "\<lambda>p k. bch_preimage N (build_unsigned_transaction p) (bch_components N K p) (plan_inputs p ! k)"
  have free: "x = y" if "double_sha256 K x = double_sha256 K y" "x \<in> bch_hashed N K p k" "y \<in> bch_hashed N K q l" for x y
    using inj_onD [OF assms(7) that(1)] that(2,3) by blast
  have kl: "k < length (plan_inputs p)" "l < length (plan_inputs q)"
      and eq: "double_sha256 K (?pre p k) = double_sha256 K (?pre q l)"
    using assms(1,2) by (auto simp: bch_digest_def bch_signature_hash_def split: if_splits)
  have pre: "?pre p k = ?pre q l"
    by (rule free [OF eq]) (simp_all add: bch_hashed_def)
  have wf: "outpoint_wf (previous_output (plan_inputs p ! k))" "outpoint_wf (previous_output (plan_inputs q ! l))"
      "script_wf (in_script_pubkey (plan_inputs p ! k))" "script_wf (in_script_pubkey (plan_inputs q ! l))"
    using assms(4,5) kl by (auto simp: plan_wf_def list_all_length)
  note inj = bch_preimage_inj [OF assms(3) wf _ pre, OF assms(6) [rule_format]]
  have "prevouts_bytes N p = prevouts_bytes N q" by (rule free) (use inj in \<open>simp_all add: bch_hashed_def\<close>)
  moreover have "sequences_bytes p = sequences_bytes q" by (rule free) (use inj in \<open>simp_all add: bch_hashed_def\<close>)
  moreover have "outputs_bytes N p = outputs_bytes N q" by (rule free) (use inj in \<open>simp_all add: bch_hashed_def\<close>)
  ultimately show ?thesis
    using inj prevouts_bytes_inj [OF assms(3-5)] sequences_bytes_inj outputs_bytes_inj [OF assms(3-5)] by blast
qed

theorem bch_digest_binds_plan_witness:
  "\<exists>h. bch_digest ex_consensus ex_keys ex_spend 0 = Ok h
     \<and> same_coin (plan_inputs ex_spend ! 0) (plan_inputs ex_spend ! 0)
     \<and> inj_on (double_sha256 ex_keys) (bch_hashed ex_consensus ex_keys ex_spend 0)"
proof -
  have len: "\<forall>x. length (double_sha256 ex_keys x) = 32" by (simp add: ex_keys_def)
  have "map (\<lambda>x. length x) [prevouts_bytes ex_consensus ex_spend, sequences_bytes ex_spend, outputs_bytes ex_consensus ex_spend,
      bch_preimage ex_consensus (build_unsigned_transaction ex_spend) (bch_components ex_consensus ex_keys ex_spend)
        (plan_inputs ex_spend ! 0)] = [36, 4, 12, 182]"
    by code_simp
  then have inj: "inj_on (double_sha256 ex_keys) (bch_hashed ex_consensus ex_keys ex_spend 0)"
    by (auto simp: inj_on_def bch_hashed_def ex_keys_def)
  have "\<exists>h. bch_digest ex_consensus ex_keys ex_spend 0 = Ok h"
    by (simp add: bch_digest_def bch_signature_hash_def ex_spend_def)
  then show ?thesis
    using bch_digest_binds_plan [of ex_consensus ex_keys ex_spend 0 _ ex_spend 0] ex_consensus_codec ex_spend_wf len inj
    by auto
qed

text \<open>
  C24: A Zcash signature commits to the whole plan and to the consensus branch. Equal signature
  digests, with no collision of the personalised hash on the strings that were hashed, come from the
  same branch id, the same outpoints, amounts, scripts, sequence numbers and outputs, and the same
  signed input.
\<close>

theorem zcash_digest_binds_plan:
  assumes "zcash_digest N K p b k = Ok h" and "zcash_digest N K q c l = Ok h"
    and "consensus_codec N" "plan_wf p" "plan_wf q" and "\<forall>x y. length (blake2b_256_personal K x y) = 32"
    and "inj_on (\<lambda>(x, y). blake2b_256_personal K x y) (zcash_hashed N K p b k \<union> zcash_hashed N K q c l)"
  shows "b = c \<and> map previous_output (plan_inputs p) = map previous_output (plan_inputs q)
     \<and> map in_value (plan_inputs p) = map in_value (plan_inputs q)
     \<and> map in_script_pubkey (plan_inputs p) = map in_script_pubkey (plan_inputs q)
     \<and> map in_sequence (plan_inputs p) = map in_sequence (plan_inputs q)
     \<and> plan_outputs p = plan_outputs q \<and> same_coin (plan_inputs p ! k) (plan_inputs q ! l)"
proof -
  have free: "(x, y) = (x', y')"
    if "blake2b_256_personal K x y = blake2b_256_personal K x' y'"
      "(x, y) \<in> zcash_hashed N K p b k" "(x', y') \<in> zcash_hashed N K q c l" for x y x' y'
    using inj_onD [OF assms(7), of "(x, y)" "(x', y')"] that by simp
  have kl: "k < length (plan_inputs p)" "l < length (plan_inputs q)"
    using zcash_digest_Ok(1) assms(1,2) by blast+
  have "(sighash_bytes N K p b k, branch_personalization ZCASH_TX_HASH_PERSONALIZATION_PREFIX b)
      = (sighash_bytes N K q c l, branch_personalization ZCASH_TX_HASH_PERSONALIZATION_PREFIX c)"
    using zcash_digest_Ok(2) [OF assms(1)] zcash_digest_Ok(2) [OF assms(2)] by (intro free) (auto simp: zcash_hashed_def)
  then have "b = c" and sig: "sighash_bytes N K p b k = sighash_bytes N K q c l"
    by (auto simp: branch_personalization_inj)
  have "transparent_bytes N K p k = transparent_bytes N K q l"
    using free [OF sighash_bytes_inj [OF assms(6) [rule_format] sig]] by (auto simp: zcash_hashed_def)
  then have "prevouts_bytes N p = prevouts_bytes N q" "amounts_bytes p = amounts_bytes q"
      "scripts_bytes N p = scripts_bytes N q" "sequences_bytes p = sequences_bytes q"
      "outputs_bytes N p = outputs_bytes N q" "txin_bytes N (plan_inputs p ! k) = txin_bytes N (plan_inputs q ! l)"
    using assms(6) by (auto simp: transparent_bytes_def zcash_hashed_def dest: free)
  moreover have "outpoint_wf (previous_output (plan_inputs p ! k))" "outpoint_wf (previous_output (plan_inputs q ! l))"
      "script_wf (in_script_pubkey (plan_inputs p ! k))" "script_wf (in_script_pubkey (plan_inputs q ! l))"
    using assms(4,5) kl by (auto simp: plan_wf_def list_all_length)
  ultimately show ?thesis
    using \<open>b = c\<close> prevouts_bytes_inj [OF assms(3-5)] amounts_bytes_inj scripts_bytes_inj [OF assms(3-5)]
      sequences_bytes_inj outputs_bytes_inj [OF assms(3-5)] txin_bytes_inj [OF assms(3)] by blast
qed

theorem zcash_digest_binds_plan_witness:
  "\<exists>h. zcash_digest ex_consensus ex_keys ex_spend 9 0 = Ok h
     \<and> same_coin (plan_inputs ex_spend ! 0) (plan_inputs ex_spend ! 0)
     \<and> inj_on (\<lambda>(x, y). blake2b_256_personal ex_keys x y) (zcash_hashed ex_consensus ex_keys ex_spend 9 0)"
proof -
  have len: "\<forall>x y. length (blake2b_256_personal ex_keys x y) = 32" by (auto simp: ex_keys_def min_def)
  have inj: "inj_on (\<lambda>(x, y). blake2b_256_personal ex_keys x y) (zcash_hashed ex_consensus ex_keys ex_spend 9 0)"
    by (auto simp: inj_on_def zcash_hashed_def ex_keys_def branch_personalization_def as_bytes_def
        ZCASH_TXID_HEADERS_HASH_PERSONALIZATION_def ZCASH_TXID_PREVOUTS_HASH_PERSONALIZATION_def
        ZCASH_TRANSPARENT_AMOUNTS_HASH_PERSONALIZATION_def ZCASH_TRANSPARENT_SCRIPTS_HASH_PERSONALIZATION_def
        ZCASH_TXID_SEQUENCES_HASH_PERSONALIZATION_def ZCASH_TXID_OUTPUTS_HASH_PERSONALIZATION_def
        ZCASH_TXIN_HASH_PERSONALIZATION_def ZCASH_TXID_TRANSPARENT_HASH_PERSONALIZATION_def
        ZCASH_TX_HASH_PERSONALIZATION_PREFIX_def)
  have "is_ok (zcash_digest ex_consensus ex_keys ex_spend 9 0)" by code_simp
  then show ?thesis
    using zcash_digest_binds_plan [of ex_consensus ex_keys ex_spend 9 0 _ ex_spend 9 0] ex_consensus_codec ex_spend_wf len inj
    by (auto simp: is_ok_iff)
qed

end
