(* ===== verification/Bitcoin_Wallet.thy ===== *)
theory Bitcoin_Wallet
  imports Bitcoin_Signing
begin

text \<open>
  The Bitcoin signer as the wallet uses it: the fee shown before signing is the fee of the signed
  transaction, signed messages are told apart, and the length prefixes of the encodings are
  prefix-free and as long as the fee estimate assumes.
\<close>

section \<open>Requests depend on the fee only through its gas price\<close>

lemma request_same_price:
  assumes "gas_price_type fee = gas_price_type fee'"
  shows "request_transfer chain (transaction_load_input.extend input (signer_input.fields fee))
       = request_transfer chain (transaction_load_input.extend input (signer_input.fields fee'))"
    and "request_swap chain (transaction_load_input.extend input (signer_input.fields fee))
       = request_swap chain (transaction_load_input.extend input (signer_input.fields fee'))"
proof -
  have rate: "spend_fee_rate chain (transaction_load_input.extend input (signer_input.fields fee))
      = spend_fee_rate chain (transaction_load_input.extend input (signer_input.fields fee'))"
    using assms by (simp add: spend_fee_rate_def gas_price_u64_def transaction_load_input.defs signer_input.defs)
  note fields = transaction_load_input.defs signer_input.defs
  show "request_transfer chain (transaction_load_input.extend input (signer_input.fields fee))
       = request_transfer chain (transaction_load_input.extend input (signer_input.fields fee'))"
    using rate by (simp add: request_transfer_def value_as_u64_def get_memo_def fields)
  show "request_swap chain (transaction_load_input.extend input (signer_input.fields fee))
       = request_swap chain (transaction_load_input.extend input (signer_input.fields fee'))"
    using rate by (cases "get_swap_data (input_type input)")
      (simp_all add: request_swap_def fields split: option.split)
qed

lemma sign_request_Ok:
  assumes "sign_request B A X N K chain request private_key branch = Ok out"
  shows "\<exists>p. plan B A X request = Ok p \<and> sign_plan B N K chain p private_key branch = Ok out
     \<and> coins (plan_inputs p) = paid (plan_outputs p) + unat (plan_fee p)"
proof -
  obtain p where p: "plan B A X request = Ok p" "sign_plan B N K chain p private_key branch = Ok out"
    using assms by (auto simp: sign_request_def result_simps)
  then show ?thesis using plan_well_planned [OF p(1)] by (auto simp: well_planned_def)
qed

lemma estimate_transaction_fee_Ok:
  assumes "estimate_transaction_fee B A X chain input = Ok fee"
  defines "si \<equiv> transaction_load_input.extend input (signer_input.fields (default_fee input))"
  shows "gas_price_type fee = gas_price_type (default_fee input)
    \<and> (\<exists>request p. (case input_type input of TransferInput _ \<Rightarrow> request_transfer chain si
         | _ \<Rightarrow> request_swap chain si) = Ok request
       \<and> plan B A X request = Ok p \<and> fee_total fee = int (unat (plan_fee p)))"
  using assms(1) unfolding si_def
  by (auto simp: estimate_transaction_fee_def result_simps Let_def default_fee_def invalid_input_err_def
      split: transaction_input_type.splits)

lemma le_bytes_hd: "hd (le_bytes 4 (w :: u32)) = ucast w"
  by (simp add: numeral_eq_Suc)

definition ex_load :: transaction_load_input where
  "ex_load = \<lparr>input_type = TransferInput \<lparr>asset_ident = \<lparr>asset_chain = get_chain BtcBitcoin, token_id = None\<rparr>, asset_symbol = ''BTC'', asset_decimals = 8\<rparr>,
     sender_address = ''me'',
     destination_address = ''you'', input_value = 1000, load_gas_price = Regular 1, memo = None, is_max_value = False,
     metadata = BitcoinMeta [ex_utxo 0 4000]\<rparr>"

section \<open>Properties\<close>

text \<open>
  C23: The fee the wallet shows is the fee it pays. If the preview of a transfer or a swap gives a
  fee, and the transaction is then signed from the same input with that fee, the signed plan pays
  exactly this fee: it is the difference between the coins it spends and its outputs.
\<close>

theorem preview_fee_is_paid:
  assumes "estimate_transaction_fee B A X chain input = Ok fee"
    and "si = transaction_load_input.extend input (signer_input.fields fee)"
    and "case input_type input of
       TransferInput _ \<Rightarrow> btc_sign_transfer hx B A X N K chain si private_key = Ok out
     | _ \<Rightarrow> btc_sign_swap hx B A X N K chain si private_key = Ok [out]"
  shows "\<exists>p. sign_plan B N K chain p private_key (get_zcash_branch_id hx (metadata input)) = Ok out
     \<and> int (coins (plan_inputs p)) = int (paid (plan_outputs p)) + fee_total fee"
proof -
  obtain request p where price: "gas_price_type fee = gas_price_type (default_fee input)"
      and r: "(case input_type input of
           TransferInput _ \<Rightarrow> request_transfer chain (transaction_load_input.extend input (signer_input.fields (default_fee input)))
         | _ \<Rightarrow> request_swap chain (transaction_load_input.extend input (signer_input.fields (default_fee input)))) = Ok request"
      and p: "plan B A X request = Ok p" "fee_total fee = int (unat (plan_fee p))"
    using estimate_transaction_fee_Ok [OF assms(1)] by blast
  have meta: "metadata si = metadata input" unfolding assms(2) by (simp add: transaction_load_input.defs)
  have "sign_request B A X N K chain request private_key (get_zcash_branch_id hx (metadata input)) = Ok out"
    using assms(3) r unfolding request_same_price [OF price, symmetric] assms(2) [symmetric]
    by (auto simp: btc_sign_transfer_def btc_sign_swap_def meta result_simps split: transaction_input_type.splits)
  from sign_request_Ok [OF this] show ?thesis using p by auto
qed

theorem preview_fee_is_paid_witness:
  "\<exists>fee out p. estimate_transaction_fee ex_scripts ex_addresses ex_txs BtcBitcoin ex_load = Ok fee
     \<and> sign_plan ex_scripts ex_consensus ex_keys BtcBitcoin p [7] None = Ok out
     \<and> int (coins (plan_inputs p)) = int (paid (plan_outputs p)) + fee_total fee"
proof -
  let ?sign = "\<lambda>fee. btc_sign_transfer (\<lambda>_. None) ex_scripts ex_addresses ex_txs ex_consensus ex_keys BtcBitcoin
      (transaction_load_input.extend ex_load (signer_input.fields fee)) [7]"
  have "is_ok (and_then (estimate_transaction_fee ex_scripts ex_addresses ex_txs BtcBitcoin ex_load) ?sign)" by code_simp
  then obtain fee out where fee: "estimate_transaction_fee ex_scripts ex_addresses ex_txs BtcBitcoin ex_load = Ok fee"
      and out: "?sign fee = Ok out" by (auto simp: is_ok_iff result_simps)
  have t: "input_type ex_load = TransferInput \<lparr>asset_ident = \<lparr>asset_chain = get_chain BtcBitcoin, token_id = None\<rparr>, asset_symbol = ''BTC'', asset_decimals = 8\<rparr>"
      "get_zcash_branch_id (\<lambda>_. None) (metadata ex_load) = None" by (simp_all add: ex_load_def)
  show ?thesis
    using preview_fee_is_paid [OF fee refl, of "\<lambda>_. None" ex_consensus ex_keys "[7]" out] fee out t by auto
qed

text \<open>
  The length prefixes of the Bitcoin encodings are prefix-free, and each is exactly as long as
  the fee estimate counts it.
\<close>

theorem compact_size_prefix_free:
  "(compact_size v @ r = compact_size w @ s \<longleftrightarrow> v = w \<and> r = s) \<and> length (compact_size v) = varint_len (unat v)"
  using compact_size.code_inj length_compact_size by blast

text \<open>
  A signed message is not the signature of another one: different messages, of any length a
  machine can hold, are hashed as different byte strings, and these all start with the Bitcoin
  message prefix, so none of them begins like a transaction, which starts with its version.
\<close>

theorem message_preimage_binding:
  assumes "length (as_bytes m) < 2 ^ 64" and "length (as_bytes m') < 2 ^ 64"
  shows "(message_preimage m = message_preimage m' \<longleftrightarrow> m = m')
     \<and> take 4 (message_preimage m) \<noteq> le_bytes 4 (tx_version (build_unsigned_transaction p))
     \<and> take 4 (message_preimage m) \<noteq> take 4 (header_bytes b)"
proof -
  have "message_preimage m = message_preimage m' \<longleftrightarrow> m = m'"
    using length_prefixed_inj [of "as_bytes m" "as_bytes m'" "[]" "[]"] assms
    by (auto simp: message_preimage_def as_bytes_inj)
  moreover have "take 1 (message_preimage m) = [0x18]" by (simp add: message_preimage_def BITCOIN_MESSAGE_PREFIX_def)
  then have "hd (take 4 (message_preimage m)) = 0x18" by (cases "message_preimage m") auto
  moreover have "hd (le_bytes 4 (tx_version (build_unsigned_transaction p))) = 2"
    by (simp add: build_unsigned_transaction_def le_bytes_hd)
  moreover have "hd (take 4 (header_bytes b)) = 5"
    by (simp add: header_bytes_def OVERWINTERED_VERSION_5_def le_bytes_hd)
  moreover have "(0x18 :: u8) \<noteq> 2" "(0x18 :: u8) \<noteq> 5" by simp_all
  ultimately show ?thesis by metis
qed

theorem message_preimage_binding_witness:
  "message_preimage ''pay'' \<noteq> message_preimage ''play''"
  using message_preimage_binding [of "''pay''" "''play''" ex_spend 0] by simp

end
