(* ===== verification/Cardano.thy ===== *)
theory Cardano
  imports Utf8 Wallet_Types
begin

text \<open>
  The Cardano signer (\<open>gem_cardano\<close>): the CBOR encoder (\<open>cbor.rs\<close>), Shelley addresses
  (\<open>address.rs\<close>), the transaction and its encodings (\<open>transaction.rs\<close>), coin selection and fees
  (\<open>planner.rs\<close>), the extended Ed25519 key (\<open>signer/extended_key.rs\<close>) and the signer
  (\<open>signer/chain_signer.rs\<close>). An encoder method is modelled by the bytes it appends to the
  encoder's buffer, so a sequence of calls is a concatenation.
\<close>

section \<open>CBOR\<close>

definition major_type :: "u8 \<Rightarrow> u64 \<Rightarrow> bytes" where
  "major_type major v =
     (let pre = push_bit 5 major in
      if v \<le> 23 then [pre OR ucast v]
      else if v \<le> 0xff then [pre OR 24, ucast v]
      else if v \<le> 0xffff then (pre OR 25) # be_bytes 2 (ucast v :: u16)
      else if v \<le> 0xffffffff then (pre OR 26) # be_bytes 4 (ucast v :: u32)
      else (pre OR 27) # be_bytes 8 v)"

definition cbor_unsigned :: "u64 \<Rightarrow> bytes" where
  "cbor_unsigned v = major_type 0 v"

definition cbor_bytes :: "bytes \<Rightarrow> bytes" where
  "cbor_bytes v = major_type 2 (of_nat (length v)) @ v"

definition cbor_text :: "bytes \<Rightarrow> bytes" where
  "cbor_text v = major_type 3 (of_nat (length v)) @ v"

definition cbor_array :: "nat \<Rightarrow> bytes" where
  "cbor_array len = major_type 4 (of_nat len)"

definition cbor_map :: "nat \<Rightarrow> bytes" where
  "cbor_map len = major_type 5 (of_nat len)"

definition cbor_null :: bytes where
  "cbor_null = [0xf6]"

definition cbor_true :: bytes where
  "cbor_true = [0xf5]"

definition cbor_tag :: "u64 \<Rightarrow> bytes" where
  "cbor_tag v = major_type 6 v"

section \<open>Libraries\<close>

text \<open>
  The bech32, hex and hash crates, and the scalars and points of \<open>curve25519_dalek\<close>: a scalar is
  an element of \<open>'s\<close>, a point is given by its compressed bytes.
\<close>

record cardano_lib =
  bech32_decode :: "string \<Rightarrow> (string \<times> bytes) option"
  bech32_encode :: "string \<Rightarrow> bytes \<Rightarrow> string option"
  cardano_hex_decode :: "string \<Rightarrow> bytes option"
  cardano_hex_encode :: "bytes \<Rightarrow> string"
  blake2b_256 :: "bytes \<Rightarrow> bytes"
  blake2b_224 :: "bytes \<Rightarrow> bytes"

record 's ed_lib =
  scalar_from_bytes_mod_order :: "bytes \<Rightarrow> 's"
  scalar_from_bytes_mod_order_wide :: "bytes \<Rightarrow> 's"
  scalar_mul :: "'s \<Rightarrow> 's \<Rightarrow> 's"
  scalar_add :: "'s \<Rightarrow> 's \<Rightarrow> 's"
  scalar_to_bytes :: "'s \<Rightarrow> bytes"
  basepoint_mul_compressed :: "'s \<Rightarrow> bytes"
  sha512 :: "bytes \<Rightarrow> bytes"

section \<open>Addresses\<close>

definition ADDRESS_HRP :: string where "ADDRESS_HRP = ''addr''"
definition MAINNET_NETWORK_ID :: u8 where "MAINNET_NETWORK_ID = 1"
definition BASE_KEY_ADDRESS_TYPE :: u8 where "BASE_KEY_ADDRESS_TYPE = 0"
definition ENTERPRISE_KEY_ADDRESS_TYPE :: u8 where "ENTERPRISE_KEY_ADDRESS_TYPE = 6"
definition ADDRESS_HEADER_LENGTH :: nat where "ADDRESS_HEADER_LENGTH = 1"
definition KEY_HASH_LENGTH :: nat where "KEY_HASH_LENGTH = 28"
definition ENTERPRISE_ADDRESS_LENGTH :: nat where
  "ENTERPRISE_ADDRESS_LENGTH = ADDRESS_HEADER_LENGTH + KEY_HASH_LENGTH"
definition BASE_ADDRESS_LENGTH :: nat where
  "BASE_ADDRESS_LENGTH = ADDRESS_HEADER_LENGTH + KEY_HASH_LENGTH + KEY_HASH_LENGTH"
definition MAINNET_BASE_KEY_ADDRESS_HEADER :: u8 where
  "MAINNET_BASE_KEY_ADDRESS_HEADER = push_bit 4 BASE_KEY_ADDRESS_TYPE OR MAINNET_NETWORK_ID"

lemmas shelley_consts = ADDRESS_HRP_def MAINNET_NETWORK_ID_def BASE_KEY_ADDRESS_TYPE_def
  ENTERPRISE_KEY_ADDRESS_TYPE_def ADDRESS_HEADER_LENGTH_def KEY_HASH_LENGTH_def
  ENTERPRISE_ADDRESS_LENGTH_def BASE_ADDRESS_LENGTH_def MAINNET_BASE_KEY_ADDRESS_HEADER_def

text \<open>A \<open>ShelleyAddress\<close> is its bytes.\<close>

type_synonym shelley_address = bytes

definition shelley_address_type :: "shelley_address \<Rightarrow> u8" where
  "shelley_address_type address = drop_bit 4 (address ! 0)"

definition shelley_network_id :: "shelley_address \<Rightarrow> u8" where
  "shelley_network_id address = address ! 0 AND 0x0f"

definition shelley_from_bytes :: "bytes \<Rightarrow> shelley_address signer_result" where
  "shelley_from_bytes bs =
     (if bs = [] then invalid_input_err ''invalid Cardano address''
      else if shelley_network_id bs \<noteq> MAINNET_NETWORK_ID
      then invalid_input_err ''unsupported Cardano address network''
      else if shelley_address_type bs = BASE_KEY_ADDRESS_TYPE
      then (if length bs \<noteq> BASE_ADDRESS_LENGTH then invalid_input_err ''invalid Cardano base address'' else Ok bs)
      else if shelley_address_type bs = ENTERPRISE_KEY_ADDRESS_TYPE
      then (if length bs \<noteq> ENTERPRISE_ADDRESS_LENGTH then invalid_input_err ''invalid Cardano enterprise address''
            else Ok bs)
      else invalid_input_err ''unsupported Cardano address type'')"

definition shelley_parse :: "cardano_lib \<Rightarrow> string \<Rightarrow> shelley_address signer_result" where
  "shelley_parse L address =
     and_then (ok_or (bech32_decode L address) (InvalidInput ''invalid Cardano address'')) (\<lambda>(hrp, bs).
       if hrp \<noteq> ADDRESS_HRP then invalid_input_err ''unsupported Cardano address network''
       else shelley_from_bytes bs)"

definition payment_hash :: "shelley_address \<Rightarrow> bytes" where
  "payment_hash address = take KEY_HASH_LENGTH (drop ADDRESS_HEADER_LENGTH address)"

definition from_public_key_hashes :: "bytes \<Rightarrow> bytes \<Rightarrow> shelley_address" where
  "from_public_key_hashes payment stake = MAINNET_BASE_KEY_ADDRESS_HEADER # payment @ stake"

definition shelley_encode :: "cardano_lib \<Rightarrow> shelley_address \<Rightarrow> string signer_result" where
  "shelley_encode L address = ok_or (bech32_encode L ADDRESS_HRP address) (InvalidInput ''invalid Cardano address bytes'')"

definition address_from_public_keys :: "cardano_lib \<Rightarrow> bytes \<Rightarrow> bytes \<Rightarrow> string signer_result" where
  "address_from_public_keys L payment_public_key stake_public_key =
     shelley_encode L (from_public_key_hashes (blake2b_224 L payment_public_key) (blake2b_224 L stake_public_key))"

definition validate_cardano_address :: "cardano_lib \<Rightarrow> string \<Rightarrow> bool" where
  "validate_cardano_address L address = is_ok (shelley_parse L address)"

section \<open>Transactions\<close>

definition AUXILIARY_DATA_TAG :: u64 where "AUXILIARY_DATA_TAG = 259"
definition MAYA_PROTOCOL_AUXILIARY_KEY :: u64 where "MAYA_PROTOCOL_AUXILIARY_KEY = 6676"
definition MEMO_SEGMENT_SIZE :: nat where "MEMO_SEGMENT_SIZE = 64"

record cardano_input =
  ci_transaction_hash :: bytes
  ci_output_index :: u64

record cardano_output =
  co_address :: bytes
  co_amount :: u64

record cardano_transaction =
  ct_inputs :: "cardano_input list"
  ct_outputs :: "cardano_output list"
  ct_fee :: u64
  ct_expiration_block_number :: u64
  ct_memo :: "string option"

text \<open>
  \<open>chunk_memo_segments\<close>: the loop over \<open>char_indices\<close>, with the index of the next character and the
  variables \<open>start\<close> and \<open>segments\<close>. A Rust string is valid UTF-8, so its characters are always given.
\<close>

fun chunk_loop :: "bytes \<Rightarrow> nat \<Rightarrow> nat \<Rightarrow> bytes list \<Rightarrow> bytes list \<Rightarrow> nat \<times> bytes list" where
  "chunk_loop m start index [] segments = (start, segments)"
| "chunk_loop m start index (c # cs) segments =
     (let stop = index + length c in
      if start < index \<and> stop - start > MEMO_SEGMENT_SIZE
      then chunk_loop m index stop cs (segments @ [take (index - start) (drop start m)])
      else chunk_loop m start stop cs segments)"

definition chunk_memo_segments :: "bytes \<Rightarrow> bytes list" where
  "chunk_memo_segments m =
     (let (start, segments) = chunk_loop m 0 0 (case utf8_chars m of Some cs \<Rightarrow> cs | None \<Rightarrow> []) []
      in if start < length m then segments @ [drop start m] else segments)"

definition auxiliary_data_bytes :: "cardano_transaction \<Rightarrow> bytes option" where
  "auxiliary_data_bytes tx =
     (case ct_memo tx of
        None \<Rightarrow> None
      | Some m \<Rightarrow>
          if m = [] then None
          else let segments = chunk_memo_segments (as_bytes m)
               in Some (cbor_tag AUXILIARY_DATA_TAG @ cbor_map 1 @ cbor_unsigned 0 @ cbor_map 1 @ cbor_unsigned 0
                    @ cbor_map 1 @ cbor_unsigned MAYA_PROTOCOL_AUXILIARY_KEY @ cbor_map 1 @ cbor_text (as_bytes ''memo'')
                    @ cbor_array (length segments) @ concat (map cbor_text segments)))"

definition input_bytes :: "cardano_input \<Rightarrow> bytes" where
  "input_bytes i = cbor_array 2 @ cbor_bytes (ci_transaction_hash i) @ cbor_unsigned (ci_output_index i)"

definition output_bytes :: "cardano_output \<Rightarrow> bytes" where
  "output_bytes out = cbor_array 2 @ cbor_bytes (co_address out) @ cbor_unsigned (co_amount out)"

definition body_bytes :: "cardano_lib \<Rightarrow> cardano_transaction \<Rightarrow> bytes" where
  "body_bytes L tx =
     (let auxiliary_data = auxiliary_data_bytes tx
      in cbor_map (if auxiliary_data \<noteq> None then 5 else 4)
         @ cbor_unsigned 0 @ cbor_array (length (ct_inputs tx)) @ concat (map input_bytes (ct_inputs tx))
         @ cbor_unsigned 1 @ cbor_array (length (ct_outputs tx)) @ concat (map output_bytes (ct_outputs tx))
         @ cbor_unsigned 2 @ cbor_unsigned (ct_fee tx)
         @ cbor_unsigned 3 @ cbor_unsigned (ct_expiration_block_number tx)
         @ (case auxiliary_data of None \<Rightarrow> [] | Some d \<Rightarrow> cbor_unsigned 7 @ cbor_bytes (blake2b_256 L d)))"

definition transaction_id :: "cardano_lib \<Rightarrow> cardano_transaction \<Rightarrow> bytes" where
  "transaction_id L tx = blake2b_256 L (body_bytes L tx)"

definition signed_bytes :: "cardano_lib \<Rightarrow> cardano_transaction \<Rightarrow> bytes \<Rightarrow> bytes \<Rightarrow> bytes" where
  "signed_bytes L tx public_key sig =
     cbor_array 4 @ body_bytes L tx
     @ cbor_map 1 @ cbor_unsigned 0 @ cbor_array 1 @ cbor_array 2 @ cbor_bytes public_key @ cbor_bytes sig
     @ cbor_true @ (case auxiliary_data_bytes tx of Some d \<Rightarrow> d | None \<Rightarrow> cbor_null)"

definition signed_size :: "cardano_lib \<Rightarrow> cardano_transaction \<Rightarrow> nat" where
  "signed_size L tx = length (signed_bytes L tx (replicate 32 0) (replicate 64 0))"

section \<open>Planner\<close>

definition CARDANO_EXPIRATION_BLOCK_OFFSET :: u64 where "CARDANO_EXPIRATION_BLOCK_OFFSET = 7200"
definition FEE_ESTIMATE_LOVELACE :: u64 where "FEE_ESTIMATE_LOVELACE = 170000"
definition MIN_OUTPUT_LOVELACE :: u64 where "MIN_OUTPUT_LOVELACE = 1000000"
definition FEE_CONSTANT_MILLI_LOVELACE :: u64 where "FEE_CONSTANT_MILLI_LOVELACE = 155881000"
definition FEE_COEFFICIENT_MILLI_LOVELACE :: u64 where "FEE_COEFFICIENT_MILLI_LOVELACE = 44046"
definition MILLI_LOVELACE :: u64 where "MILLI_LOVELACE = 1000"

lemmas lovelace_consts = FEE_ESTIMATE_LOVELACE_def MIN_OUTPUT_LOVELACE_def FEE_CONSTANT_MILLI_LOVELACE_def
  FEE_COEFFICIENT_MILLI_LOVELACE_def MILLI_LOVELACE_def

record transaction_plan =
  tp_utxos :: "utxo list"
  tp_amount :: u64
  tp_fee :: u64
  tp_change :: u64

definition utxo_transaction_input :: "cardano_lib \<Rightarrow> utxo \<Rightarrow> cardano_input signer_result" where
  "utxo_transaction_input L u =
     and_then (case decode_hex_array (cardano_hex_decode L) 32 (utxo_transaction_id u) of
                 Inl _ \<Rightarrow> invalid_input_err ''invalid Cardano UTXO transaction id''
               | Inr h \<Rightarrow> Ok h) (\<lambda>transaction_hash.
     and_then (if 0 \<le> utxo_vout u then Ok (of_int (utxo_vout u))
               else invalid_input_err ''invalid Cardano UTXO output index'') (\<lambda>output_index.
       Ok \<lparr>ci_transaction_hash = transaction_hash, ci_output_index = output_index\<rparr>))"

definition utxo_amount :: "utxo \<Rightarrow> u64 signer_result" where
  "utxo_amount u =
     and_then (value_u64 u) (\<lambda>amount.
       if amount = 0 then invalid_input_err ''invalid Cardano UTXO amount'' else Ok amount)"

definition sum_amounts :: "utxo list \<Rightarrow> u64 signer_result" where
  "sum_amounts utxos =
     try_fold (\<lambda>sum u. and_then (utxo_amount u) (\<lambda>a.
       ok_or (checked_add sum a) (InvalidInput ''Cardano amount overflow''))) 0 utxos"

definition utxos_from_metadata :: "cardano_lib \<Rightarrow> transaction_load_metadata \<Rightarrow> string \<Rightarrow> utxo list signer_result" where
  "utxos_from_metadata L meta sender_addr =
     and_then (shelley_parse L sender_addr) (\<lambda>sender.
     and_then (get_utxos meta) (\<lambda>utxos.
     and_then (try_fold (\<lambda>_ u.
         and_then (utxo_transaction_input L u) (\<lambda>_.
         and_then (utxo_amount u) (\<lambda>_.
         and_then (shelley_parse L (utxo_address u)) (\<lambda>address.
           if payment_hash address \<noteq> payment_hash sender
           then invalid_input_err ''Cardano UTXO address does not match sender address''
           else Ok ())))) () utxos) (\<lambda>_. Ok utxos)))"

fun select_utxos_loop :: "u64 \<Rightarrow> utxo list \<Rightarrow> u64 \<Rightarrow> (utxo \<times> u64) list \<Rightarrow> utxo list signer_result" where
  "select_utxos_loop target selected selected_amount [] = Ok selected"
| "select_utxos_loop target selected selected_amount ((u, amount) # rest) =
     and_then (ok_or (checked_add selected_amount amount) (InvalidInput ''Cardano amount overflow'')) (\<lambda>selected_amount.
       let selected = selected @ [u] in
       if selected_amount \<ge> target then Ok selected
       else select_utxos_loop target selected selected_amount rest)"

definition select_target :: "u64 \<Rightarrow> u64 signer_result" where
  "select_target amount =
     ok_or (Option.bind (checked_mul amount 4) (\<lambda>v.
            Option.bind (checked_div v 3) (\<lambda>v.
            Option.bind (checked_add v FEE_ESTIMATE_LOVELACE) (\<lambda>v.
              checked_add v MIN_OUTPUT_LOVELACE)))) (InvalidInput ''Cardano amount overflow'')"

definition select_utxos :: "utxo list \<Rightarrow> u64 \<Rightarrow> bool \<Rightarrow> utxo list signer_result" where
  "select_utxos utxos amount max_amount =
     (if max_amount then Ok utxos
      else and_then (select_target amount) (\<lambda>target.
           and_then (traverse (\<lambda>u. and_then (utxo_amount u) (\<lambda>a. Ok (u, a))) utxos) (\<lambda>candidates.
           and_then (select_utxos_loop target [] 0 (sort_key (\<lambda>(_, a). - int (unat a)) candidates)) (\<lambda>selected.
             if selected = [] then invalid_input_err ''missing input UTXOs'' else Ok selected))))"

text \<open>\<open>u64::div_ceil\<close>.\<close>

definition u64_div_ceil :: "u64 \<Rightarrow> u64 \<Rightarrow> u64" where
  "u64_div_ceil a b = (if a mod b > 0 then a div b + 1 else a div b)"

definition cardano_transaction_fee :: "u64 \<Rightarrow> u64" where
  "cardano_transaction_fee transaction_size =
     u64_div_ceil (FEE_CONSTANT_MILLI_LOVELACE + transaction_size * FEE_COEFFICIENT_MILLI_LOVELACE) MILLI_LOVELACE"

definition transaction_destination_address :: "('a transaction_load_input_scheme) \<Rightarrow> string" where
  "transaction_destination_address input =
     (case input_type input of SwapInput _ _ swap \<Rightarrow> swap_to (quote_data swap) | _ \<Rightarrow> destination_address input)"

definition transaction_memo :: "('a transaction_load_input_scheme) \<Rightarrow> string option" where
  "transaction_memo input =
     (case get_memo input of
        Some m \<Rightarrow> Some m
      | None \<Rightarrow> (case get_swap_data (input_type input) of Inl _ \<Rightarrow> None | Inr swap \<Rightarrow> swap_memo (quote_data swap)))"

definition transaction_from_plan ::
  "cardano_lib \<Rightarrow> ('a transaction_load_input_scheme) \<Rightarrow> transaction_plan \<Rightarrow> cardano_transaction signer_result" where
  "transaction_from_plan L input plan =
     and_then (shelley_parse L (transaction_destination_address input)) (\<lambda>destination.
     and_then (get_block_number (metadata input)) (\<lambda>block_number.
     let expiration = block_number + CARDANO_EXPIRATION_BLOCK_OFFSET;
         outputs = [\<lparr>co_address = destination, co_amount = tp_amount plan\<rparr>]
     in and_then (if tp_change plan > 0
                  then and_then (shelley_parse L (sender_address input)) (\<lambda>change.
                         Ok (outputs @ [\<lparr>co_address = change, co_amount = tp_change plan\<rparr>]))
                  else Ok outputs) (\<lambda>outputs.
        and_then (traverse (utxo_transaction_input L) (tp_utxos plan)) (\<lambda>inputs.
          Ok \<lparr>ct_inputs = inputs, ct_outputs = outputs, ct_fee = tp_fee plan,
              ct_expiration_block_number = expiration, ct_memo = transaction_memo input\<rparr>))))"

definition cardano_estimate_fee ::
  "cardano_lib \<Rightarrow> ('a transaction_load_input_scheme) \<Rightarrow> utxo list \<Rightarrow> u64 \<Rightarrow> bool \<Rightarrow> u64 signer_result" where
  "cardano_estimate_fee L input selected_utxos requested_amount max_amount =
     and_then (sum_amounts selected_utxos) (\<lambda>available_amount.
       let amount = (if max_amount then saturating_sub available_amount FEE_ESTIMATE_LOVELACE
                     else min requested_amount (saturating_sub available_amount FEE_ESTIMATE_LOVELACE));
           change = saturating_sub (saturating_sub available_amount amount) FEE_ESTIMATE_LOVELACE
       in and_then (transaction_from_plan L input
              \<lparr>tp_utxos = selected_utxos, tp_amount = amount, tp_fee = FEE_ESTIMATE_LOVELACE, tp_change = change\<rparr>)
            (\<lambda>tx. Ok (cardano_transaction_fee (of_nat (signed_size L tx)))))"

definition plan_transfer ::
  "cardano_lib \<Rightarrow> ('a transaction_load_input_scheme) \<Rightarrow> transaction_plan signer_result" where
  "plan_transfer L input =
     and_then (case input_type input of
         TransferInput asset \<Rightarrow>
           if asset_chain (asset_ident asset) = Cardano \<and> is_native (asset_ident asset) then Ok ()
           else invalid_input_err ''unsupported Cardano token transfer''
       | SwapInput asset _ _ \<Rightarrow>
           if asset_chain (asset_ident asset) = Cardano \<and> is_native (asset_ident asset) then Ok ()
           else invalid_input_err ''unsupported Cardano token swap''
       | _ \<Rightarrow> invalid_input_err ''unsupported Cardano transaction type'') (\<lambda>_.
     and_then (value_as_u64 input) (\<lambda>requested_amount.
     and_then (utxos_from_metadata L (metadata input) (sender_address input)) (\<lambda>utxos.
     if utxos = [] then invalid_input_err ''missing input UTXOs''
     else
     and_then (select_utxos utxos requested_amount (is_max_value input)) (\<lambda>selected_utxos.
     and_then (sum_amounts selected_utxos) (\<lambda>available_amount.
     and_then (cardano_estimate_fee L input selected_utxos requested_amount (is_max_value input)) (\<lambda>fee.
     and_then (if is_max_value input then ok_or (checked_sub available_amount fee) InsufficientFunds
               else Ok requested_amount) (\<lambda>amount.
     and_then (ok_or (checked_add amount fee) (InvalidInput ''Cardano amount overflow'')) (\<lambda>spent.
     if spent > available_amount then Err InsufficientFunds
     else let change = available_amount - spent in
       if change > 0 \<and> change < MIN_OUTPUT_LOVELACE
       then Ok \<lparr>tp_utxos = selected_utxos, tp_amount = amount, tp_fee = fee + change, tp_change = 0\<rparr>
       else Ok \<lparr>tp_utxos = selected_utxos, tp_amount = amount, tp_fee = fee, tp_change = change\<rparr>))))))))"

section \<open>Keys\<close>

definition CARDANO_EXTENDED_PRIVATE_KEY_LENGTH :: nat where "CARDANO_EXTENDED_PRIVATE_KEY_LENGTH = 192"
definition KEY_LENGTH :: nat where "KEY_LENGTH = 32"
definition EXTENSION_OFFSET :: nat where "EXTENSION_OFFSET = 32"

record extended_key_pair =
  ek_secret :: bytes
  ek_extension :: bytes

definition read_key :: "bytes \<Rightarrow> nat \<Rightarrow> bytes" where
  "read_key bs offset = take KEY_LENGTH (drop offset bs)"

definition extended_key_from_private_key :: "bytes \<Rightarrow> extended_key_pair signer_result" where
  "extended_key_from_private_key private_key =
     (if length private_key \<noteq> CARDANO_EXTENDED_PRIVATE_KEY_LENGTH
      then invalid_input_err ''invalid Cardano private key length''
      else Ok \<lparr>ek_secret = read_key private_key 0, ek_extension = read_key private_key EXTENSION_OFFSET\<rparr>)"

definition public_key_from_secret :: "'s ed_lib \<Rightarrow> bytes \<Rightarrow> bytes" where
  "public_key_from_secret E secret = basepoint_mul_compressed E (scalar_from_bytes_mod_order E secret)"

definition extended_public_key :: "'s ed_lib \<Rightarrow> extended_key_pair \<Rightarrow> bytes" where
  "extended_public_key E kp = public_key_from_secret E (ek_secret kp)"

definition scalar_from_hash :: "'s ed_lib \<Rightarrow> bytes list \<Rightarrow> 's" where
  "scalar_from_hash E parts = scalar_from_bytes_mod_order_wide E (sha512 E (concat parts))"

definition extended_sign :: "'s ed_lib \<Rightarrow> extended_key_pair \<Rightarrow> bytes \<Rightarrow> bytes" where
  "extended_sign E kp message =
     (let signing_scalar = scalar_from_bytes_mod_order E (ek_secret kp);
          public_key = extended_public_key E kp;
          r = scalar_from_hash E [ek_extension kp, message];
          r_bytes = basepoint_mul_compressed E r;
          k = scalar_from_hash E [r_bytes, public_key, message];
          s = scalar_add E (scalar_mul E k signing_scalar) r
      in r_bytes @ scalar_to_bytes E s)"

section \<open>Signer\<close>

definition cardano_sign_transfer ::
  "cardano_lib \<Rightarrow> 's ed_lib \<Rightarrow> signer_input \<Rightarrow> bytes \<Rightarrow> string signer_result" where
  "cardano_sign_transfer L E input private_key =
     and_then (plan_transfer L input) (\<lambda>plan.
     and_then (extended_key_from_private_key private_key) (\<lambda>key_pair.
     let public_key = extended_public_key E key_pair in
     and_then (shelley_parse L (sender_address input)) (\<lambda>sender.
     if payment_hash sender \<noteq> blake2b_224 L public_key
     then invalid_input_err ''Cardano private key does not match sender address''
     else and_then (transaction_from_plan L input plan) (\<lambda>tx.
       let sig = extended_sign E key_pair (transaction_id L tx)
       in Ok (cardano_hex_encode L (signed_bytes L tx public_key sig))))))"

end
