(* ===== verification/Cardano_Signing.thy ===== *)
theory Cardano_Signing
  imports Cardano "HOL-Library.Multiset"
begin

text \<open>
  What the Cardano signer guarantees: the bytes that are hashed determine the transaction, memo
  chunks are valid and complete, plans conserve value and pay the fee of the transaction they
  become, and a signature made by the extended key satisfies the Ed25519 verification equation.
\<close>

section \<open>Heads of CBOR items read back\<close>

definition cbor_head :: "u8 \<times> u64 \<Rightarrow> bytes" where
  "cbor_head = (\<lambda>(major, v). major_type major v)"

text \<open>A reader of heads: the major type and the argument, by the width the first byte announces.\<close>

definition read_head :: "bytes \<Rightarrow> ((u8 \<times> u64) \<times> bytes) option" where
  "read_head bs = (case bs of
       [] \<Rightarrow> None
     | b # r \<Rightarrow>
         let major = drop_bit 5 b; info = b AND 0x1f;
             wide = (\<lambda>n. Some ((major, be_word (take n r)), drop n r))
         in if info \<le> 23 then Some ((major, ucast info), r)
            else if info = 24 then wide 1 else if info = 25 then wide 2
            else if info = 26 then wide 4 else if info = 27 then wide 8 else None)"

lemma head_byte:
  fixes major info :: u8
  assumes "major < 8" and "info < 32"
  shows "drop_bit 5 (push_bit 5 major OR info) = major" and "(push_bit 5 major OR info) AND 0x1f = info"
proof -
  have high: "\<not> bit info k" if "5 \<le> k" for k
    using word_high_bit_clear [of info 5 k] assms(2) that by (simp add: word_less_nat_alt)
  have top: "k < 3" if "bit major k" for k
    using word_high_bit_clear [of major 3 k] assms(1) that by (cases "k < 3") (simp_all add: word_less_nat_alt)
  show "drop_bit 5 (push_bit 5 major OR info) = major"
    by (rule bit_word_eqI) (use high top in \<open>auto simp: bit_simps\<close>)
  have "x AND 0x1f = take_bit 5 x" for x :: u8
    by (simp add: take_bit_eq_mask mask_eq_exp_minus_1)
  moreover have "take_bit 5 (push_bit 5 major OR info) = info"
    by (rule bit_word_eqI) (use high in \<open>auto simp: bit_simps\<close>)
  ultimately show "(push_bit 5 major OR info) AND 0x1f = info" by simp
qed

lemma read_head_major_type:
  assumes "major < 8"
  shows "read_head (major_type major v @ rest) = Some ((major, v), rest)"
proof -
  note byte = head_byte [OF assms]
  consider "v \<le> 23" | "\<not> v \<le> 23" "v \<le> 0xff" | "\<not> v \<le> 0xff" "v \<le> 0xffff"
    | "\<not> v \<le> 0xffff" "v \<le> 0xffffffff" | "\<not> v \<le> 0xffffffff" by fastforce
  then show ?thesis
  proof cases
    case 1
    then have small: "unat v < 2 ^ 8" by (simp add: word_le_nat_alt)
    then have "unat (ucast v :: u8) = unat v" by (simp add: unsigned_ucast_eq take_bit_nat_eq_self)
    then have le: "(ucast v :: u8) \<le> 23" "(ucast v :: u8) < 32" using 1 by (simp_all add: word_le_nat_alt word_less_nat_alt)
    show ?thesis
      using 1 le byte [OF le(2)] ucast_small [OF small] by (simp add: major_type_def read_head_def)
  next
    case 2
    then have "unat v < 2 ^ 8" by (simp add: word_le_nat_alt)
    then have "(be_word [ucast v] :: u64) = v" using ucast_small by (simp add: be_word_def)
    then show ?thesis using 2 byte [of 24] by (simp add: major_type_def read_head_def)
  next
    case 3
    then have "unat v < 2 ^ (8 * 2)" by (simp add: word_le_nat_alt)
    then have "be_word (be_bytes 2 (ucast v :: u16)) = v" by (intro be_word_be_bytes_ucast) simp_all
    moreover have "\<not> v \<le> 23" using 3 by (simp add: word_le_nat_alt)
    ultimately show ?thesis using 3 byte [of 25] by (simp add: major_type_def read_head_def)
  next
    case 4
    then have "unat v < 2 ^ (8 * 4)" by (simp add: word_le_nat_alt)
    then have "be_word (be_bytes 4 (ucast v :: u32)) = v" by (intro be_word_be_bytes_ucast) simp_all
    moreover have "\<not> v \<le> 23" "\<not> v \<le> 0xff" using 4 by (simp_all add: word_le_nat_alt)
    ultimately show ?thesis using 4 byte [of 26] by (simp add: major_type_def read_head_def)
  next
    case 5
    have "be_word (be_bytes 8 v) = v" by (rule be_word_be_bytes_id) simp
    moreover have "\<not> v \<le> 23" "\<not> v \<le> 0xff" "\<not> v \<le> 0xffff" using 5 by (simp_all add: word_le_nat_alt)
    ultimately show ?thesis using 5 byte [of 27] by (simp add: major_type_def read_head_def)
  qed
qed

interpretation cbor_head: codec cbor_head read_head "\<lambda>(major, _). major < 8"
  by unfold_locales (auto simp: cbor_head_def read_head_major_type)

section \<open>Items are prefix codes\<close>

lemma major_type_inj:
  "major < 8 \<Longrightarrow> major' < 8 \<Longrightarrow> major_type major v @ r = major_type major' w @ s \<Longrightarrow> major = major' \<and> v = w \<and> r = s"
  using cbor_head.code_inj [of "(major, v)" "(major', w)" r s] by (simp add: cbor_head_def)

interpretation cbor_unsigned: prefix_code cbor_unsigned "\<lambda>_. True"
  by unfold_locales (auto simp: cbor_unsigned_def dest: major_type_inj [rotated 2])

lemma counted_inj:
  assumes "major < 8" and "n < 2 ^ 64" "m < 2 ^ 64" and "major_type major (of_nat n) @ r = major_type major (of_nat m) @ s"
  shows "n = m \<and> r = s"
proof -
  have "(of_nat n :: u64) = of_nat m \<and> r = s" using major_type_inj [OF assms(1,1,4)] by simp
  then show ?thesis using unat_of_nat_u64 assms(2,3) by metis
qed

interpretation cbor_bytes: prefix_code cbor_bytes "\<lambda>b. length b < 2 ^ 64"
  by unfold_locales (auto simp: cbor_bytes_def dest!: counted_inj [rotated 3])

interpretation cbor_text: prefix_code cbor_text "\<lambda>b. length b < 2 ^ 64"
  by unfold_locales (auto simp: cbor_text_def dest!: counted_inj [rotated 3])

lemma prefix_code_array:
  assumes "prefix_code enc valid"
  shows "prefix_code (\<lambda>xs. cbor_array (length xs) @ concat (map enc xs)) (\<lambda>xs. list_all valid xs \<and> length xs < 2 ^ 64)"
proof
  fix xs ys r s
  assume v: "list_all valid xs \<and> length xs < 2 ^ 64" "list_all valid ys \<and> length ys < 2 ^ 64"
    and "(cbor_array (length xs) @ concat (map enc xs)) @ r = (cbor_array (length ys) @ concat (map enc ys)) @ s"
  then have "length xs = length ys \<and> concat (map enc xs) @ r = concat (map enc ys) @ s"
    by (intro counted_inj [of 4]) (auto simp: cbor_array_def)
  then show "xs = ys \<and> r = s" using prefix_code.seq_inj [OF assms] v by blast
qed

definition input_wf :: "cardano_input \<Rightarrow> bool" where
  "input_wf i \<longleftrightarrow> length (ci_transaction_hash i) < 2 ^ 64"

definition output_wf :: "cardano_output \<Rightarrow> bool" where
  "output_wf out \<longleftrightarrow> length (co_address out) < 2 ^ 64"

interpretation cardano_input: prefix_code input_bytes input_wf
  unfolding input_bytes_def
  by (intro prefix_code_const prefix_code_append [OF cbor_bytes.prefix_code_axioms cbor_unsigned.prefix_code_axioms])
    (auto simp: input_wf_def)

interpretation cardano_output: prefix_code output_bytes output_wf
  unfolding output_bytes_def
  by (intro prefix_code_const prefix_code_append [OF cbor_bytes.prefix_code_axioms cbor_unsigned.prefix_code_axioms])
    (auto simp: output_wf_def)

interpretation cardano_inputs: prefix_code "\<lambda>xs. cbor_array (length xs) @ concat (map input_bytes xs)"
    "\<lambda>xs. list_all input_wf xs \<and> length xs < 2 ^ 64"
  by (rule prefix_code_array) (rule cardano_input.prefix_code_axioms)

interpretation cardano_outputs: prefix_code "\<lambda>xs. cbor_array (length xs) @ concat (map output_bytes xs)"
    "\<lambda>xs. list_all output_wf xs \<and> length xs < 2 ^ 64"
  by (rule prefix_code_array) (rule cardano_output.prefix_code_axioms)

interpretation cardano_texts: prefix_code "\<lambda>xs. cbor_array (length xs) @ concat (map cbor_text xs)"
    "\<lambda>xs. list_all (\<lambda>b. length b < 2 ^ 64) xs \<and> length xs < 2 ^ 64"
  by (rule prefix_code_array) (rule cbor_text.prefix_code_axioms)

section \<open>Memo chunks\<close>

lemma chunk_loop_inv:
  assumes "chunk_loop m start index cs segments = (start', segments')"
    and "start \<le> index" "drop index m = concat cs" "index \<le> length m"
    and "concat segments = take start m" "index - start \<le> 64"
    and "list_all (\<lambda>s. s \<noteq> [] \<and> length s \<le> 64 \<and> valid_utf8 s) segments"
    and "valid_utf8 (take (index - start) (drop start m))" "list_all valid_char cs"
  shows "start' \<le> length m \<and> concat segments' = take start' m \<and> length m - start' \<le> 64
    \<and> list_all (\<lambda>s. s \<noteq> [] \<and> length s \<le> 64 \<and> valid_utf8 s) segments' \<and> valid_utf8 (drop start' m)"
  using assms
proof (induction cs arbitrary: start index segments)
  case Nil
  then have "index = length m" by simp
  with Nil show ?case by simp
next
  case (Cons c cs)
  let ?stop = "index + length c" and ?seg = "take (index - start) (drop start m)"
  have c: "valid_char c" "length c \<le> 4" using Cons.prems(9) valid_char_cases [of c] by auto
  have next': "drop ?stop m = concat cs" using Cons.prems(3) by (simp add: drop_drop [symmetric] add.commute [of index])
  have "length (drop index m) = length c + length (concat cs)" unfolding Cons.prems(3) by simp
  then have inside: "?stop \<le> length m" using Cons.prems(4) by simp
  have char: "take (length c) (drop index m) = c" using Cons.prems(3) by simp
  have vc: "valid_utf8 c" using utf8_chars_append_char [OF c(1), of "[]"] by (simp add: valid_utf8_def)
  show ?case
  proof (cases "start < index \<and> ?stop - start > MEMO_SEGMENT_SIZE")
    case True
    have "take start m @ ?seg = take index m"
      using Cons.prems(2) by (metis le_add_diff_inverse take_add)
    moreover have "length ?seg \<le> 64" "?seg \<noteq> []" using Cons.prems(4,6) True by auto
    ultimately show ?thesis
      using Cons.IH [of index ?stop "segments @ [?seg]"] Cons.prems True next' inside char vc c by simp
  next
    case False
    have "?stop - start \<le> 64" using False c(2) Cons.prems(2) by (cases "start < index") (auto simp: MEMO_SEGMENT_SIZE_def)
    moreover have "take (?stop - start) (drop start m) = ?seg @ c"
    proof -
      have eq: "?stop - start = (index - start) + length c" using Cons.prems(2) by simp
      show ?thesis unfolding eq take_add using Cons.prems(2) char by simp
    qed
    then have "valid_utf8 (take (?stop - start) (drop start m))" using valid_utf8_append [OF Cons.prems(8) vc] by simp
    ultimately show ?thesis
      using Cons.IH [of start ?stop segments] Cons.prems False next' inside by (simp add: Let_def)
  qed
qed

lemma chunk_memo_segments_ok:
  assumes "valid_utf8 m"
  shows "concat (chunk_memo_segments m) = m
    \<and> list_all (\<lambda>s. s \<noteq> [] \<and> length s \<le> 64 \<and> valid_utf8 s) (chunk_memo_segments m)"
proof -
  obtain cs where cs: "utf8_chars m = Some cs" using assms by (auto simp: valid_utf8_def)
  obtain st segs where loop: "chunk_loop m 0 0 cs [] = (st, segs)" by (cases "chunk_loop m 0 0 cs []")
  have "st \<le> length m \<and> concat segs = take st m \<and> length m - st \<le> 64
    \<and> list_all (\<lambda>s. s \<noteq> [] \<and> length s \<le> 64 \<and> valid_utf8 s) segs \<and> valid_utf8 (drop st m)"
    by (rule chunk_loop_inv [OF loop]) (use utf8_chars_sound [OF cs] in auto)
  then show ?thesis using cs loop by (auto simp: chunk_memo_segments_def)
qed

section \<open>The body determines the transaction\<close>

text \<open>The memo a transaction carries: an empty one is not encoded.\<close>

definition carried_memo :: "cardano_transaction \<Rightarrow> string option" where
  "carried_memo tx = (case ct_memo tx of None \<Rightarrow> None | Some m \<Rightarrow> if m = [] then None else Some m)"

definition cardano_tx_wf :: "cardano_transaction \<Rightarrow> bool" where
  "cardano_tx_wf tx \<longleftrightarrow> list_all input_wf (ct_inputs tx) \<and> length (ct_inputs tx) < 2 ^ 64
     \<and> list_all output_wf (ct_outputs tx) \<and> length (ct_outputs tx) < 2 ^ 64
     \<and> (case ct_memo tx of None \<Rightarrow> True | Some m \<Rightarrow> valid_utf8 (as_bytes m) \<and> length m < 2 ^ 64)"

lemma segments_fit:
  assumes "valid_utf8 m" and "length m < 2 ^ 64"
  shows "list_all (\<lambda>b. length b < 2 ^ 64) (chunk_memo_segments m) \<and> length (chunk_memo_segments m) < 2 ^ 64"
proof -
  let ?segs = "chunk_memo_segments m"
  have all: "list_all (\<lambda>s. s \<noteq> [] \<and> length s \<le> 64 \<and> valid_utf8 s) ?segs" and m: "concat ?segs = m"
    using chunk_memo_segments_ok [OF assms(1)] by auto
  have "length xs \<le> length (concat xs)" if "list_all (\<lambda>s. s \<noteq> [] \<and> length s \<le> 64 \<and> valid_utf8 s) xs" for xs :: "bytes list"
    using that
  proof (induction xs)
    case (Cons x xs)
    then have "1 \<le> length x" by (cases x) auto
    with Cons show ?case by simp
  qed simp
  from this [OF all] have "length ?segs \<le> length m" unfolding m .
  then have "length ?segs < 2 ^ 64" using assms(2) by (rule le_less_trans)
  moreover have "list_all (\<lambda>b. length b < 2 ^ 64) ?segs" using all by (rule list.pred_mono_strong) auto
  ultimately show ?thesis by blast
qed

lemma auxiliary_data_inj:
  assumes "cardano_tx_wf tx" "cardano_tx_wf tx'" and "auxiliary_data_bytes tx = auxiliary_data_bytes tx'"
  shows "carried_memo tx = carried_memo tx'"
proof (cases "carried_memo tx")
  case None
  then show ?thesis using assms(3) by (auto simp: carried_memo_def auxiliary_data_bytes_def Let_def split: option.splits if_splits)
next
  case (Some m)
  then obtain m' where m': "carried_memo tx' = Some m'"
    using assms(3) by (auto simp: carried_memo_def auxiliary_data_bytes_def Let_def split: option.splits if_splits)
  let ?s = "chunk_memo_segments (as_bytes m)" and ?s' = "chunk_memo_segments (as_bytes m')"
  have wf: "valid_utf8 (as_bytes m)" "length (as_bytes m) < 2 ^ 64" "valid_utf8 (as_bytes m')" "length (as_bytes m') < 2 ^ 64"
    using Some m' assms(1,2) by (auto simp: carried_memo_def cardano_tx_wf_def split: option.splits if_splits)
  have "cbor_array (length ?s) @ concat (map cbor_text ?s) = cbor_array (length ?s') @ concat (map cbor_text ?s')"
    using Some m' assms(3) by (auto simp: carried_memo_def auxiliary_data_bytes_def Let_def split: option.splits if_splits)
  then have "?s = ?s'"
    using cardano_texts.enc_eq_iff segments_fit [OF wf(1,2)] segments_fit [OF wf(3,4)] by blast
  then have "as_bytes m = as_bytes m'" using chunk_memo_segments_ok wf(1,3) by metis
  then show ?thesis using Some m' by (simp add: as_bytes_inj)
qed

lemma body_bytes_inj:
  assumes "cardano_tx_wf tx" "cardano_tx_wf tx'" and "\<And>x. length (blake2b_256 L x) = 32"
    and "body_bytes L tx = body_bytes L tx'"
  shows "ct_inputs tx = ct_inputs tx' \<and> ct_outputs tx = ct_outputs tx' \<and> ct_fee tx = ct_fee tx'
     \<and> ct_expiration_block_number tx = ct_expiration_block_number tx'
     \<and> map_option (blake2b_256 L) (auxiliary_data_bytes tx) = map_option (blake2b_256 L) (auxiliary_data_bytes tx')"
proof -
  let ?ins = "\<lambda>xs. cbor_array (length xs) @ concat (map input_bytes xs)"
  let ?outs = "\<lambda>xs. cbor_array (length xs) @ concat (map output_bytes xs)"
  let ?aux = "\<lambda>tx. (case auxiliary_data_bytes tx of None \<Rightarrow> [] | Some d \<Rightarrow> cbor_unsigned 7 @ cbor_bytes (blake2b_256 L d))"
  let ?n = "\<lambda>tx. (if auxiliary_data_bytes tx \<noteq> None then 5 else 4) :: nat"
  let ?body = "\<lambda>tx. cbor_unsigned 0 @ ?ins (ct_inputs tx) @ cbor_unsigned 1 @ ?outs (ct_outputs tx)
      @ cbor_unsigned 2 @ cbor_unsigned (ct_fee tx) @ cbor_unsigned 3 @ cbor_unsigned (ct_expiration_block_number tx) @ ?aux tx"
  have "body_bytes L tx = major_type 5 (of_nat (?n tx)) @ ?body tx" for tx
    by (simp add: body_bytes_def cbor_map_def Let_def)
  then have "?n tx = ?n tx' \<and> ?body tx = ?body tx'"
    using assms(4) by (intro counted_inj [of 5]) auto
  then have n: "?n tx = ?n tx'" and b: "?ins (ct_inputs tx) @ cbor_unsigned 1 @ ?outs (ct_outputs tx)
      @ cbor_unsigned 2 @ cbor_unsigned (ct_fee tx) @ cbor_unsigned 3 @ cbor_unsigned (ct_expiration_block_number tx) @ ?aux tx
    = ?ins (ct_inputs tx') @ cbor_unsigned 1 @ ?outs (ct_outputs tx')
      @ cbor_unsigned 2 @ cbor_unsigned (ct_fee tx') @ cbor_unsigned 3 @ cbor_unsigned (ct_expiration_block_number tx') @ ?aux tx'"
    by (metis, simp only: same_append_eq)
  have i: "ct_inputs tx = ct_inputs tx'" and b2: "?outs (ct_outputs tx)
      @ cbor_unsigned 2 @ cbor_unsigned (ct_fee tx) @ cbor_unsigned 3 @ cbor_unsigned (ct_expiration_block_number tx) @ ?aux tx
    = ?outs (ct_outputs tx')
      @ cbor_unsigned 2 @ cbor_unsigned (ct_fee tx') @ cbor_unsigned 3 @ cbor_unsigned (ct_expiration_block_number tx') @ ?aux tx'"
    using cardano_inputs.enc_inj [OF _ _ b] assms(1,2) by (auto simp: cardano_tx_wf_def)
  have out: "ct_outputs tx = ct_outputs tx'" and b3: "cbor_unsigned (ct_fee tx) @ cbor_unsigned 3 @ cbor_unsigned (ct_expiration_block_number tx) @ ?aux tx
    = cbor_unsigned (ct_fee tx') @ cbor_unsigned 3 @ cbor_unsigned (ct_expiration_block_number tx') @ ?aux tx'"
    using cardano_outputs.enc_inj [OF _ _ b2] assms(1,2) by (auto simp: cardano_tx_wf_def)
  have fee: "ct_fee tx = ct_fee tx'" and b4: "cbor_unsigned (ct_expiration_block_number tx) @ ?aux tx
    = cbor_unsigned (ct_expiration_block_number tx') @ ?aux tx'"
    using cbor_unsigned.enc_inj [OF _ _ b3] by auto
  have ttl: "ct_expiration_block_number tx = ct_expiration_block_number tx'" and "?aux tx = ?aux tx'"
    using cbor_unsigned.enc_inj [OF _ _ b4] by auto
  then have "map_option (blake2b_256 L) (auxiliary_data_bytes tx) = map_option (blake2b_256 L) (auxiliary_data_bytes tx')"
    using n assms(3) cbor_bytes.enc_eq_iff by (auto split: option.splits if_splits)
  then show ?thesis using i out fee ttl by blast
qed

section \<open>Sizes\<close>

definition head_len :: "u64 \<Rightarrow> nat" where
  "head_len v = (if v \<le> 23 then 1 else if v \<le> 0xff then 2 else if v \<le> 0xffff then 3 else if v \<le> 0xffffffff then 5 else 9)"

lemma length_major_type: "length (major_type major v) = head_len v"
  by (simp add: major_type_def head_len_def)

lemma head_len_le: "head_len v \<le> 9"
  by (simp add: head_len_def)

lemma head_len_5: "65536 \<le> unat v \<Longrightarrow> unat v < 2 ^ 32 \<Longrightarrow> head_len v = 5"
  by (simp add: head_len_def word_le_nat_alt)

lemmas cbor_lengths = length_major_type cbor_unsigned_def cbor_bytes_def cbor_array_def cbor_map_def

lemma signed_size_diff:
  assumes "ct_inputs tx = ct_inputs tx'" "ct_memo tx = ct_memo tx'"
    "ct_expiration_block_number tx = ct_expiration_block_number tx'"
    and "length (ct_outputs tx) \<le> 2" "length (ct_outputs tx') \<le> 2" and "\<And>x. length (blake2b_256 L x) = 32"
  shows "signed_size L tx + length (concat (map output_bytes (ct_outputs tx'))) + head_len (ct_fee tx')
       = signed_size L tx' + length (concat (map output_bytes (ct_outputs tx))) + head_len (ct_fee tx)"
proof -
  have aux: "auxiliary_data_bytes tx = auxiliary_data_bytes tx'"
    using assms(2) by (simp add: auxiliary_data_bytes_def)
  have small: "head_len (of_nat n) = 1" if "n \<le> 2" for n
    using that by (simp add: head_len_def word_le_nat_alt unat_of_nat_u64)
  have "length (body_bytes L tx) + length (concat (map output_bytes (ct_outputs tx'))) + head_len (ct_fee tx')
      = length (body_bytes L tx') + length (concat (map output_bytes (ct_outputs tx))) + head_len (ct_fee tx)"
    using assms small aux by (simp add: body_bytes_def Let_def cbor_lengths)
  then show ?thesis using aux by (simp add: signed_size_def signed_bytes_def)
qed

lemma shelley_parse_length:
  assumes "shelley_parse L a = Ok b"
  shows "length b = 29 \<or> length b = 57"
  using assms by (auto simp: shelley_parse_def shelley_from_bytes_def result_simps invalid_input_err_def shelley_consts
      split: if_splits prod.splits)

lemma output_bytes_length:
  assumes "length (co_address out) = 29 \<or> length (co_address out) = 57"
  shows "length (output_bytes out) = length (co_address out) + 3 + head_len (co_amount out)"
  using assms by (auto simp: output_bytes_def cbor_lengths head_len_def)

lemma unat_u64_div_ceil: "0 < unat b \<Longrightarrow> unat a + unat b < 2 ^ 64 \<Longrightarrow> unat (u64_div_ceil a b) = div_ceil (unat a) (unat b)"
proof -
  assume b: "0 < unat b" "unat a + unat b < 2 ^ 64"
  have q: "unat (a div b) = unat a div unat b" "unat (a mod b) = unat a mod unat b" by (simp_all add: unat_div unat_mod)
  have "unat a div unat b \<le> unat a" by (rule div_le_dividend)
  then have "unat a div unat b + 1 < 2 ^ 64" using b by linarith
  then have inc: "unat (a div b + 1) = unat a div unat b + 1" by (simp add: unat_word_ariths q)
  have "(unat a + unat b - 1) div unat b = (if 0 < unat a mod unat b then unat a div unat b + 1 else unat a div unat b)"
  proof -
    have "unat a + unat b - 1 = unat b * (unat a div unat b) + (unat a mod unat b + unat b - 1)"
      using b(1) by (simp add: algebra_simps)
    then have "(unat a + unat b - 1) div unat b = unat a div unat b + (unat a mod unat b + unat b - 1) div unat b"
      using b(1) by (metis div_mult_self4 not_gr_zero)
    moreover have "(unat a mod unat b + unat b - 1) div unat b = (if 0 < unat a mod unat b then 1 else 0)"
    proof (cases "0 < unat a mod unat b")
      case True
      then have "unat a mod unat b + unat b - 1 = unat b + (unat a mod unat b - 1)" by simp
      moreover have "unat a mod unat b - 1 < unat b" using b(1) by (meson diff_le_self le_less_trans mod_less_divisor)
      moreover have "(unat b + (unat a mod unat b - 1)) div unat b = (unat a mod unat b - 1) div unat b + 1"
        by (rule div_add_self1) (use b(1) in simp)
      ultimately show ?thesis using True by (metis add_0 div_less)
    next
      case False
      then show ?thesis using b(1) by simp
    qed
    ultimately show ?thesis by simp
  qed
  then show ?thesis using inc q by (simp add: u64_div_ceil_def div_ceil_def word_less_nat_alt)
qed

lemma unat_cardano_transaction_fee:
  assumes "n < 2 ^ 40"
  shows "unat (cardano_transaction_fee (of_nat n)) = div_ceil (155881000 + n * 44046) 1000"
proof -
  have n: "unat (of_nat n :: u64) = n" using assms by (intro unat_of_nat_u64) simp
  have mul: "unat (of_nat n * 44046 :: u64) = n * 44046" using assms n by (simp add: unat_word_ariths)
  have sum: "unat (155881000 + of_nat n * 44046 :: u64) = 155881000 + n * 44046"
    using assms mul by (simp add: unat_word_ariths)
  show ?thesis
    unfolding cardano_transaction_fee_def lovelace_consts
    by (subst unat_u64_div_ceil) (use assms sum in simp_all)
qed

section \<open>Plans\<close>

definition worth :: "utxo list \<Rightarrow> nat" where
  "worth us = sum_list (map utxo_value us)"

lemma worth_simps [simp]: "worth [] = 0" "worth (u # us) = utxo_value u + worth us" "worth (us @ vs) = worth us + worth vs"
  by (simp_all add: worth_def)

lemma utxo_amount_Ok: "utxo_amount u = Ok a \<longleftrightarrow> 0 < utxo_value u \<and> utxo_value u < 2 ^ 64 \<and> a = of_nat (utxo_value u)"
proof -
  have "(of_nat (utxo_value u) :: u64) = 0 \<longleftrightarrow> utxo_value u = 0" if "utxo_value u < 2 ^ 64"
    using unat_of_nat_u64 [OF that] unat_eq_0 [of "of_nat (utxo_value u) :: u64"] by simp
  then show ?thesis
    by (auto simp: utxo_amount_def value_u64_def result_simps nat_to_u64_Some invalid_input_err_def)
qed

lemma sum_amounts_Ok:
  assumes "sum_amounts us = Ok t"
  shows "unat t = worth us"
proof -
  have "unat t = unat s + worth us"
    if "try_fold (\<lambda>sum u. and_then (utxo_amount u) (\<lambda>a.
         ok_or (checked_add sum a) (InvalidInput ''Cardano amount overflow''))) s us = Ok t" for s
    using that
  proof (induction us arbitrary: s)
    case (Cons u us)
    then obtain s' where s': "checked_add s (of_nat (utxo_value u)) = Some s'" "utxo_value u < 2 ^ 64"
        and "try_fold (\<lambda>sum u. and_then (utxo_amount u) (\<lambda>a.
         ok_or (checked_add sum a) (InvalidInput ''Cardano amount overflow''))) s' us = Ok t"
      by (auto simp: result_simps utxo_amount_Ok)
    then show ?case using Cons.IH unat_checked_add [OF s'(1)] by (simp add: unat_of_nat_u64 [simplified])
  qed simp
  from this [of 0] show ?thesis using assms by (simp add: sum_amounts_def)
qed

lemma select_utxos_loop_Ok:
  assumes "select_utxos_loop target sel amount cs = Ok r"
  shows "\<exists>k \<le> length cs. r = sel @ map fst (take k cs)
     \<and> (k = length cs \<or> unat target \<le> unat amount + sum_list (map (\<lambda>(_, a). unat a) (take k cs)))"
  using assms
proof (induction cs arbitrary: sel amount)
  case Nil
  then show ?case by simp
next
  case (Cons c cs)
  obtain u a where c: "c = (u, a)" by (cases c)
  with Cons.prems obtain amount' where sum: "checked_add amount a = Some amount'"
      and rest: "(if target \<le> amount' then Ok (sel @ [u]) else select_utxos_loop target (sel @ [u]) amount' cs) = Ok r"
    by (auto simp: result_simps Let_def)
  show ?case
  proof (cases "target \<le> amount'")
    case True
    then show ?thesis using rest c unat_checked_add [OF sum] by (intro exI [of _ 1]) (auto simp: word_le_nat_alt)
  next
    case False
    then obtain k where "k \<le> length cs" "r = (sel @ [u]) @ map fst (take k cs)"
        "k = length cs \<or> unat target \<le> unat amount' + sum_list (map (\<lambda>(_, a). unat a) (take k cs))"
      using Cons.IH rest by (metis (no_types, lifting))
    then show ?thesis using c unat_checked_add [OF sum] by (intro exI [of _ "Suc k"]) auto
  qed
qed

lemma select_utxos_Ok:
  assumes "select_utxos us amount max_amount = Ok sel"
  shows "mset sel \<subseteq># mset us" and "max_amount \<Longrightarrow> sel = us" and "us \<noteq> [] \<Longrightarrow> sel \<noteq> []"
proof -
  show max: "max_amount \<Longrightarrow> sel = us" using assms by (simp add: select_utxos_def)
  show "us \<noteq> [] \<Longrightarrow> sel \<noteq> []"
    using assms max by (auto simp: select_utxos_def result_simps invalid_input_err_def split: if_splits)
  show "mset sel \<subseteq># mset us"
  proof (cases max_amount)
    case False
    then obtain target cands where "traverse (\<lambda>u. and_then (utxo_amount u) (\<lambda>a. Ok (u, a))) us = Ok cands"
        and loop: "select_utxos_loop target [] 0 (sort_key (\<lambda>(_, a). - int (unat a)) cands) = Ok sel"
      using assms by (auto simp: select_utxos_def result_simps invalid_input_err_def split: if_splits)
    then have "list_all2 (\<lambda>u c. fst c = u) us cands"
      by (auto simp: traverse_Inr_iff result_simps elim!: list_all2_mono)
    then have us: "us = map fst cands" by (induction us cands rule: list_all2_induct) auto
    obtain k where "sel = map fst (take k (sort_key (\<lambda>(_, a). - int (unat a)) cands))"
      using select_utxos_loop_Ok [OF loop] by auto
    moreover have "mset (take k xs) \<subseteq># mset xs" for xs :: "(utxo \<times> u64) list"
      by (metis append_take_drop_id mset_append mset_subset_eq_add_left)
    then have "image_mset fst (mset (take k (sort_key (\<lambda>(_, a). - int (unat a)) cands)))
        \<subseteq># image_mset fst (mset (sort_key (\<lambda>(_, a). - int (unat a)) cands))"
      by (rule image_mset_subseteq_mono)
    ultimately show ?thesis unfolding us by simp
  qed (use max in simp)
qed

lemma utxos_from_metadata_own:
  assumes "utxos_from_metadata L meta sender_addr = Ok utxos" and "shelley_parse L sender_addr = Ok sender" and "u \<in> set utxos"
  shows "\<exists>a. shelley_parse L (utxo_address u) = Ok a \<and> payment_hash a = payment_hash sender"
proof -
  have *: "\<exists>a. shelley_parse L (utxo_address u) = Ok a \<and> payment_hash a = payment_hash sender"
    if "try_fold (\<lambda>_ u. and_then (utxo_transaction_input L u) (\<lambda>_. and_then (utxo_amount u) (\<lambda>_.
         and_then (shelley_parse L (utxo_address u)) (\<lambda>address.
           if payment_hash address \<noteq> payment_hash sender
           then invalid_input_err ''Cardano UTXO address does not match sender address''
           else Ok ())))) () us = Ok ()" "u \<in> set us" for us
    using that by (induction us) (auto simp: result_simps invalid_input_err_def split: if_splits)
  show ?thesis using assms by (auto simp: utxos_from_metadata_def result_simps intro: *)
qed

lemma plan_transfer_OkE:
  assumes "plan_transfer L input = Ok p"
  obtains requested utxos fee where
    "value_as_u64 input = Ok requested"
    "utxos_from_metadata L (metadata input) (sender_address input) = Ok utxos"
    "select_utxos utxos requested (is_max_value input) = Ok (tp_utxos p)"
    "cardano_estimate_fee L input (tp_utxos p) requested (is_max_value input) = Ok fee"
    "\<exists>t. sum_amounts (tp_utxos p) = Ok t"
    "worth (tp_utxos p) = unat (tp_amount p) + unat (tp_fee p) + unat (tp_change p)"
    "tp_change p = 0 \<or> 1000000 \<le> unat (tp_change p)"
    "fee \<le> tp_fee p" "tp_change p \<noteq> 0 \<longrightarrow> tp_fee p = fee" "unat (tp_fee p) < unat fee + 1000000"
    "if is_max_value input then tp_change p = 0 \<and> tp_fee p = fee else tp_amount p = requested"
proof -
  obtain requested utxos sel avail fee amount spent where
    ok: "value_as_u64 input = Ok requested" "utxos_from_metadata L (metadata input) (sender_address input) = Ok utxos"
      "select_utxos utxos requested (is_max_value input) = Ok sel" "sum_amounts sel = Ok avail"
      "cardano_estimate_fee L input sel requested (is_max_value input) = Ok fee"
      "if is_max_value input then checked_sub avail fee = Some amount else amount = requested"
      "checked_add amount fee = Some spent" "\<not> spent > avail"
    and p: "p = (if avail - spent > 0 \<and> avail - spent < MIN_OUTPUT_LOVELACE
        then \<lparr>tp_utxos = sel, tp_amount = amount, tp_fee = fee + (avail - spent), tp_change = 0\<rparr>
        else \<lparr>tp_utxos = sel, tp_amount = amount, tp_fee = fee, tp_change = avail - spent\<rparr>)"
    using assms unfolding plan_transfer_def Let_def invalid_input_err_def and_then_Inr_iff if_result_iff ok_or_Inr_iff
    by blast
  have spent: "unat spent = unat amount + unat fee" using unat_checked_add [OF ok(7)] .
  have sub: "unat (avail - spent) = unat avail - unat spent" "unat spent \<le> unat avail"
    using ok(8) by (simp_all add: unat_sub word_le_nat_alt not_less word_less_nat_alt)
  have avail: "unat avail = worth sel" using sum_amounts_Ok [OF ok(4)] .
  have "unat avail < 2 ^ 64" using unat_lt2p_u64 by blast
  then have add: "unat (fee + (avail - spent)) = unat fee + (unat avail - unat spent)"
    using sub spent by (subst unat_add_le) simp_all
  have max: "avail - spent = 0" if "is_max_value input"
  proof -
    have "unat avail = unat fee + unat amount" using ok(6) that unat_checked_sub by auto
    then have "unat (avail - spent) = 0" using spent sub by simp
    then show ?thesis by (simp add: unat_eq_0)
  qed
  have sel: "tp_utxos p = sel" using p by simp
  show thesis
  proof (rule that [of requested utxos fee])
    show "worth (tp_utxos p) = unat (tp_amount p) + unat (tp_fee p) + unat (tp_change p)"
      unfolding p using add sub spent avail by simp
    show "tp_change p = 0 \<or> 1000000 \<le> unat (tp_change p)"
      unfolding p by (auto simp: lovelace_consts word_le_nat_alt word_less_nat_alt unat_gt_0)
    show "fee \<le> tp_fee p" unfolding p using add by (simp add: word_le_nat_alt)
    show "tp_change p \<noteq> 0 \<longrightarrow> tp_fee p = fee" unfolding p by (auto split: if_splits)
    show "unat (tp_fee p) < unat fee + 1000000"
      unfolding p using add sub(1) by (auto simp: lovelace_consts word_less_nat_alt)
    show "if is_max_value input then tp_change p = 0 \<and> tp_fee p = fee else tp_amount p = requested"
      unfolding p using max ok(6) by auto
  qed (use ok sel in auto)
qed

lemma transaction_from_plan_OkE:
  assumes "transaction_from_plan L input plan = Ok tx"
  obtains dest n ins change where
    "shelley_parse L (transaction_destination_address input) = Ok dest" "get_block_number (metadata input) = Ok n"
    "traverse (utxo_transaction_input L) (tp_utxos plan) = Ok ins"
    "tp_change plan \<noteq> 0 \<longrightarrow> shelley_parse L (sender_address input) = Ok change"
    "tx = \<lparr>ct_inputs = ins, ct_outputs = \<lparr>co_address = dest, co_amount = tp_amount plan\<rparr>
         # (if tp_change plan = 0 then [] else [\<lparr>co_address = change, co_amount = tp_change plan\<rparr>]),
       ct_fee = tp_fee plan, ct_expiration_block_number = n + CARDANO_EXPIRATION_BLOCK_OFFSET,
       ct_memo = transaction_memo input\<rparr>"
proof (cases "tp_change plan = 0")
  case True
  then show thesis
    using that assms by (auto simp: transaction_from_plan_def Let_def result_simps)
next
  case False
  then have "0 < tp_change plan" by (simp add: word_neq_0_conv)
  then obtain dest n change ins where "shelley_parse L (transaction_destination_address input) = Ok dest"
      "get_block_number (metadata input) = Ok n" "traverse (utxo_transaction_input L) (tp_utxos plan) = Ok ins"
      "shelley_parse L (sender_address input) = Ok change"
      "tx = \<lparr>ct_inputs = ins, ct_outputs = [\<lparr>co_address = dest, co_amount = tp_amount plan\<rparr>,
         \<lparr>co_address = change, co_amount = tp_change plan\<rparr>], ct_fee = tp_fee plan,
         ct_expiration_block_number = n + CARDANO_EXPIRATION_BLOCK_OFFSET, ct_memo = transaction_memo input\<rparr>"
    using assms by (auto simp: transaction_from_plan_def Let_def result_simps)
  then show thesis using that False by auto
qed

lemma estimate_fee_OkE:
  assumes "cardano_estimate_fee L input sel requested mx = Ok fee"
  obtains a c tx where
    "unat a = (if mx then worth sel - 170000 else min (unat requested) (worth sel - 170000))"
    "unat c = worth sel - unat a - 170000"
    "transaction_from_plan L input \<lparr>tp_utxos = sel, tp_amount = a, tp_fee = 170000, tp_change = c\<rparr> = Ok tx"
    "fee = cardano_transaction_fee (of_nat (signed_size L tx))"
proof -
  obtain avail tx where av: "sum_amounts sel = Ok avail"
    and tx: "transaction_from_plan L input
        (let a = (if mx then saturating_sub avail FEE_ESTIMATE_LOVELACE
                  else min requested (saturating_sub avail FEE_ESTIMATE_LOVELACE))
         in \<lparr>tp_utxos = sel, tp_amount = a, tp_fee = FEE_ESTIMATE_LOVELACE,
             tp_change = saturating_sub (saturating_sub avail a) FEE_ESTIMATE_LOVELACE\<rparr>) = Ok tx"
    and fee: "fee = cardano_transaction_fee (of_nat (signed_size L tx))"
    using assms unfolding cardano_estimate_fee_def and_then_Inr_iff Let_def by blast
  define a where "a = (if mx then saturating_sub avail FEE_ESTIMATE_LOVELACE
                  else min requested (saturating_sub avail FEE_ESTIMATE_LOVELACE))"
  have min: "unat (min x y) = min (unat x) (unat y)" for x y :: u64 by (simp add: min_def word_le_nat_alt)
  have est: "unat FEE_ESTIMATE_LOVELACE = 170000" by (simp add: lovelace_consts)
  have "unat a = (if mx then worth sel - 170000 else min (unat requested) (worth sel - 170000))"
    unfolding a_def using sum_amounts_Ok [OF av] by (simp add: min unat_saturating_sub est)
  moreover have "unat (saturating_sub (saturating_sub avail a) FEE_ESTIMATE_LOVELACE) = worth sel - unat a - 170000"
    using sum_amounts_Ok [OF av] by (simp add: unat_saturating_sub est)
  ultimately show thesis
    using that tx fee unfolding Let_def a_def [symmetric] by (simp add: lovelace_consts)
qed

lemma from_plan_outputs_length:
  assumes "transaction_from_plan L input P = Ok tx"
  shows "\<exists>dest ins. shelley_parse L (transaction_destination_address input) = Ok dest
    \<and> traverse (utxo_transaction_input L) (tp_utxos P) = Ok ins \<and> ct_inputs tx = ins
    \<and> (\<exists>n. get_block_number (metadata input) = Ok n \<and> ct_expiration_block_number tx = n + CARDANO_EXPIRATION_BLOCK_OFFSET)
    \<and> ct_memo tx = transaction_memo input \<and> ct_fee tx = tp_fee P \<and> length (ct_outputs tx) \<le> 2
    \<and> length (concat (map output_bytes (ct_outputs tx))) = length dest + 3 + head_len (tp_amount P)
        + (if tp_change P = 0 then 0
           else (case shelley_parse L (sender_address input) of Inl _ \<Rightarrow> 0 | Inr b \<Rightarrow> length b + 3) + head_len (tp_change P))"
  using assms
proof (rule transaction_from_plan_OkE)
  fix dest n ins change
  assume ok: "shelley_parse L (transaction_destination_address input) = Ok dest" "get_block_number (metadata input) = Ok n"
      "traverse (utxo_transaction_input L) (tp_utxos P) = Ok ins"
      "tp_change P \<noteq> 0 \<longrightarrow> shelley_parse L (sender_address input) = Ok change"
    and tx: "tx = \<lparr>ct_inputs = ins, ct_outputs = \<lparr>co_address = dest, co_amount = tp_amount P\<rparr>
         # (if tp_change P = 0 then [] else [\<lparr>co_address = change, co_amount = tp_change P\<rparr>]),
       ct_fee = tp_fee P, ct_expiration_block_number = n + CARDANO_EXPIRATION_BLOCK_OFFSET, ct_memo = transaction_memo input\<rparr>"
  have "length (output_bytes \<lparr>co_address = b, co_amount = v\<rparr>) = length b + 3 + head_len v" if "shelley_parse L x = Ok b" for x b v
    using shelley_parse_length [OF that] output_bytes_length [of "\<lparr>co_address = b, co_amount = v\<rparr>"] by auto
  then show ?thesis using ok unfolding tx by (cases "tp_change P = 0") auto
qed

lemma from_plan_sizes:
  assumes "transaction_from_plan L input P = Ok tx" "transaction_from_plan L input Q = Ok tx'" "tp_utxos P = tp_utxos Q"
    and "\<And>x. length (blake2b_256 L x) = 32"
  shows "\<exists>C \<le> 60. signed_size L tx + head_len (tp_amount Q) + (if tp_change Q = 0 then 0 else C + head_len (tp_change Q)) + head_len (tp_fee Q)
     = signed_size L tx' + head_len (tp_amount P) + (if tp_change P = 0 then 0 else C + head_len (tp_change P)) + head_len (tp_fee P)"
proof -
  note P = from_plan_outputs_length [OF assms(1)] and Q = from_plan_outputs_length [OF assms(2)]
  have diff: "signed_size L tx + length (concat (map output_bytes (ct_outputs tx'))) + head_len (ct_fee tx')
       = signed_size L tx' + length (concat (map output_bytes (ct_outputs tx))) + head_len (ct_fee tx)"
    by (rule signed_size_diff) (use P Q assms(3,4) in auto)
  let ?C = "case shelley_parse L (sender_address input) of Inl _ \<Rightarrow> 0 | Inr b \<Rightarrow> length b + 3"
  have "?C \<le> 60" using shelley_parse_length [of L "sender_address input"] by (auto split: sum.splits)
  then show ?thesis using diff P Q by (intro exI [of _ ?C]) auto
qed

text \<open>
  The fee of a plan against the size of the transaction it becomes. The estimate is made for a
  transaction with slightly different amounts, which may be encoded up to four bytes shorter.
\<close>

lemma head_len_near: "unat v \<le> unat w + 14119 \<Longrightarrow> head_len v \<le> head_len w + 4"
  by (auto simp: head_len_def word_le_nat_alt)

lemma estimated_size:
  assumes "unat (tp_amount P) \<le> unat a + 14119" and "head_len (tp_fee P) = 5"
    and "tp_change P \<noteq> 0 \<longrightarrow> tp_amount P = a \<and> c \<noteq> 0 \<and> unat (tp_change P) \<le> unat c + 14119"
    and "transaction_from_plan L input P = Ok tx"
    and "transaction_from_plan L input \<lparr>tp_utxos = tp_utxos P, tp_amount = a, tp_fee = 170000, tp_change = c\<rparr> = Ok etx"
    and "\<And>x. length (blake2b_256 L x) = 32"
  shows "signed_size L tx \<le> signed_size L etx + 4"
proof -
  have "head_len 170000 = 5" by (rule head_len_5) simp_all
  then show ?thesis
    using from_plan_sizes [OF assms(4,5)] assms(1-3,6) head_len_near [of "tp_amount P" a] head_len_near [of "tp_change P" c]
    by (cases "tp_change P = 0") auto
qed

text \<open>The ledger's minimum fee, with the protocol parameters of the main network.\<close>

definition ledger_min_fee :: "nat \<Rightarrow> nat" where
  "ledger_min_fee size_in_bytes = 155381 + 44 * size_in_bytes"

lemma fee_of_estimate:
  assumes "n < 2 ^ 25"
  shows "155881 + 44 * n \<le> unat (cardano_transaction_fee (of_nat n))" "unat (cardano_transaction_fee (of_nat n)) < 2 ^ 31"
proof -
  have f: "unat (cardano_transaction_fee (of_nat n)) = (155881000 + n * 44046 + 999) div 1000"
    using unat_cardano_transaction_fee [of n] assms by (simp add: div_ceil_def)
  have "(155881 + 44 * n) * 1000 \<le> 155881000 + n * 44046 + 999" by simp
  then show "155881 + 44 * n \<le> unat (cardano_transaction_fee (of_nat n))"
    unfolding f by (subst less_eq_div_iff_mult_less_eq) simp_all
  show "unat (cardano_transaction_fee (of_nat n)) < 2 ^ 31"
    unfolding f using assms by (subst div_less_iff_less_mult) simp_all
qed

lemma plan_fee_covers_size:
  assumes plan: "plan_transfer L input = Ok p" and tx: "transaction_from_plan L input p = Ok tx"
    and hash: "\<And>x. length (blake2b_256 L x) = 32" and size: "signed_size L tx < 2 ^ 24"
  shows "ledger_min_fee (signed_size L tx) \<le> unat (tp_fee p)"
proof -
  obtain requested fee where
      est: "cardano_estimate_fee L input (tp_utxos p) requested (is_max_value input) = Ok fee"
      and sum: "worth (tp_utxos p) = unat (tp_amount p) + unat (tp_fee p) + unat (tp_change p)"
      and change: "tp_change p = 0 \<or> 1000000 \<le> unat (tp_change p)"
      and fee: "fee \<le> tp_fee p" "tp_change p \<noteq> 0 \<longrightarrow> tp_fee p = fee" "unat (tp_fee p) < unat fee + 1000000"
      and mode: "if is_max_value input then tp_change p = 0 \<and> tp_fee p = fee else tp_amount p = requested"
    using plan by (rule plan_transfer_OkE)
  obtain a c etx where a: "unat a = (if is_max_value input then worth (tp_utxos p) - 170000
        else min (unat requested) (worth (tp_utxos p) - 170000))"
      and c: "unat c = worth (tp_utxos p) - unat a - 170000"
      and etx: "transaction_from_plan L input \<lparr>tp_utxos = tp_utxos p, tp_amount = a, tp_fee = 170000, tp_change = c\<rparr> = Ok etx"
      and f: "fee = cardano_transaction_fee (of_nat (signed_size L etx))"
    using est by (rule estimate_fee_OkE)
  have "signed_size L etx < 2 ^ 25"
    using from_plan_sizes [OF tx etx _ hash] size head_len_le [of a] head_len_le [of c] head_len_le [of 170000]
    by (auto split: if_splits)
  note est = fee_of_estimate [OF this, folded f]
  have low: "unat fee \<le> unat (tp_fee p)" using fee(1) by (simp add: word_le_nat_alt)
  have tail: "tp_amount p = a \<and> c \<noteq> 0 \<and> unat (tp_change p) \<le> unat c + 14119" if "tp_change p \<noteq> 0"
  proof -
    have p: "1000000 \<le> unat (tp_change p)" "tp_fee p = fee" "\<not> is_max_value input" "tp_amount p = requested"
      using change fee(2) mode that by (auto split: if_splits)
    then have eq: "unat a = unat requested" using a sum est(1) by simp
    then have "unat c = unat fee + unat (tp_change p) - 170000" using c sum p by simp
    moreover from this have "c \<noteq> 0" using p(1) est(1) by auto
    ultimately show ?thesis using eq p est(1) by (simp add: word_unat_eq_iff)
  qed
  have "unat (tp_amount p) \<le> unat a + 14119" using a sum mode est(1) low by (auto split: if_splits)
  moreover have "head_len (tp_fee p) = 5" using est low fee(3) by (intro head_len_5) auto
  ultimately have "signed_size L tx \<le> signed_size L etx + 4"
    using tail by (intro estimated_size [OF _ _ _ tx etx hash]) auto
  then show ?thesis using est(1) low by (simp add: ledger_min_fee_def)
qed

section \<open>Signatures\<close>

text \<open>
  The group behind \<open>curve25519_dalek\<close>, as far as verification needs it: the laws say that
  multiplying the base point is what the library's table does, that it is linear in the scalar, and
  that points and scalars have 32-byte encodings, the one of scalars canonical.
\<close>

record ('s, 'p) ed_group =
  point_add :: "'p \<Rightarrow> 'p \<Rightarrow> 'p"
  point_mul :: "'s \<Rightarrow> 'p \<Rightarrow> 'p"
  basepoint :: 'p
  compress :: "'p \<Rightarrow> bytes"

definition ed_group_laws :: "'s ed_lib \<Rightarrow> ('s, 'p) ed_group \<Rightarrow> bool" where
  "ed_group_laws E G \<longleftrightarrow>
     (\<forall>s. basepoint_mul_compressed E s = compress G (point_mul G s (basepoint G)))
     \<and> (\<forall>k a r. point_mul G (scalar_add E (scalar_mul E k a) r) (basepoint G)
          = point_add G (point_mul G k (point_mul G a (basepoint G))) (point_mul G r (basepoint G)))
     \<and> (\<forall>p. length (compress G p) = 32)
     \<and> (\<forall>s. length (scalar_to_bytes E s) = 32 \<and> scalar_from_bytes_mod_order E (scalar_to_bytes E s) = s)"

text \<open>The Ed25519 verification equation: \<open>[s]B = R + [k]A\<close> for the points \<open>A\<close> and \<open>R\<close> of the key and the signature.\<close>

definition ed_verifies :: "'s ed_lib \<Rightarrow> ('s, 'p) ed_group \<Rightarrow> bytes \<Rightarrow> bytes \<Rightarrow> bytes \<Rightarrow> bool" where
  "ed_verifies E G public_key message sig \<longleftrightarrow> length sig = 64 \<and>
     (\<exists>A R. compress G A = public_key \<and> compress G R = take 32 sig
        \<and> point_mul G (scalar_from_bytes_mod_order E (drop 32 sig)) (basepoint G)
          = point_add G (point_mul G (scalar_from_hash E [take 32 sig, public_key, message]) A) R)"

lemma extended_sign_verifies:
  assumes "ed_group_laws E G"
  shows "ed_verifies E G (extended_public_key E kp) message (extended_sign E kp message)"
proof -
  define a where "a = scalar_from_bytes_mod_order E (ek_secret kp)"
  define r where "r = scalar_from_hash E [ek_extension kp, message]"
  define A where "A = point_mul G a (basepoint G)"
  define R where "R = point_mul G r (basepoint G)"
  define k where "k = scalar_from_hash E [compress G R, compress G A, message]"
  have pk: "extended_public_key E kp = compress G A"
    using assms by (simp add: ed_group_laws_def extended_public_key_def public_key_from_secret_def a_def A_def)
  have sig: "extended_sign E kp message = compress G R @ scalar_to_bytes E (scalar_add E (scalar_mul E k a) r)"
    using assms pk by (simp add: extended_sign_def Let_def ed_group_laws_def a_def r_def R_def k_def)
  have len: "length (compress G R) = 32" "length (scalar_to_bytes E (scalar_add E (scalar_mul E k a) r)) = 32"
    using assms by (auto simp: ed_group_laws_def)
  have "point_mul G (scalar_add E (scalar_mul E k a) r) (basepoint G) = point_add G (point_mul G k A) R"
    using assms by (simp add: ed_group_laws_def A_def R_def)
  then show ?thesis
    unfolding ed_verifies_def pk sig using len assms
    by (intro conjI exI [of _ A] exI [of _ R]) (simp_all add: ed_group_laws_def k_def)
qed

section \<open>A concrete library\<close>

definition ex_cardano :: cardano_lib where
  "ex_cardano = \<lparr>bech32_decode = (\<lambda>s. if s = ''me'' then Some (''addr'', 1 # replicate 56 1)
       else if s = ''you'' then Some (''addr'', 1 # replicate 56 2) else None),
     bech32_encode = (\<lambda>h b. if h = ''addr'' \<and> b = 1 # replicate 56 1 then Some ''me'' else None),
     cardano_hex_decode = (\<lambda>_. Some (replicate 32 7)), cardano_hex_encode = (\<lambda>_. ''00''),
     blake2b_256 = (\<lambda>x. take 32 (x @ replicate 32 0)), blake2b_224 = (\<lambda>_. replicate 28 1)\<rparr>"

definition ex_ed :: "256 word ed_lib" where
  "ex_ed = \<lparr>scalar_from_bytes_mod_order = be_word, scalar_from_bytes_mod_order_wide = be_word,
     scalar_mul = (*), scalar_add = (+), scalar_to_bytes = be_bytes 32, basepoint_mul_compressed = be_bytes 32,
     sha512 = id\<rparr>"

definition ex_group :: "(256 word, 256 word) ed_group" where
  "ex_group = \<lparr>point_add = (+), point_mul = (*), basepoint = 1, compress = be_bytes 32\<rparr>"

lemma ex_group_laws: "ed_group_laws ex_ed ex_group"
  by (simp add: ed_group_laws_def ex_ed_def ex_group_def be_word_be_bytes_id algebra_simps)

definition ex_cardano_input :: "nat \<Rightarrow> nat list \<Rightarrow> signer_input" where
  "ex_cardano_input amount values = \<lparr>input_type = TransferInput \<lparr>asset_ident = \<lparr>asset_chain = Cardano, token_id = None\<rparr>, asset_symbol = ''ADA'', asset_decimals = 6\<rparr>,
     sender_address = ''me'', destination_address = ''you'', input_value = amount, load_gas_price = Regular 0,
     memo = None, is_max_value = False,
     metadata = CardanoMeta (map (\<lambda>v. \<lparr>utxo_transaction_id = ''aa'', utxo_vout = 0, utxo_value = v, utxo_address = ''me''\<rparr>) values) 1000,
     input_fee = \<lparr>fee_total = 0, gas_price_type = Regular 0, fee_gas_limit = 0, fee_options = Map.empty\<rparr>\<rparr>"

lemma ex_cardano_hash: "length (blake2b_256 ex_cardano x) = 32"
  by (simp add: ex_cardano_def)

abbreviation ex_coin :: "nat \<Rightarrow> utxo" where
  "ex_coin w \<equiv> \<lparr>utxo_transaction_id = ''aa'', utxo_vout = 0, utxo_value = w, utxo_address = ''me''\<rparr>"

abbreviation ex_transaction_plan :: "nat \<Rightarrow> transaction_plan" where
  "ex_transaction_plan w \<equiv> \<lparr>tp_utxos = [ex_coin w], tp_amount = 5000000, tp_fee = 168567, tp_change = of_nat w - 5168567\<rparr>"

lemma ex_shelley:
  "shelley_parse ex_cardano ''me'' = Ok (1 # replicate 56 1)" "shelley_parse ex_cardano ''you'' = Ok (1 # replicate 56 2)"
  by (simp_all add: shelley_parse_def ex_cardano_def shelley_from_bytes_def shelley_consts shelley_network_id_def
      shelley_address_type_def)

lemma ex_coin_input:
  "utxo_transaction_input ex_cardano (ex_coin w) = Ok \<lparr>ci_transaction_hash = replicate 32 7, ci_output_index = 0\<rparr>"
proof -
  have "decode_hex_array (cardano_hex_decode ex_cardano) 32 ''aa'' = Ok (replicate 32 7)" by code_simp
  then show ?thesis by (simp add: utxo_transaction_input_def)
qed

lemma ex_coin_amount: "w \<in> {1..<2 ^ 64} \<Longrightarrow> utxo_amount (ex_coin w) = Ok (of_nat w)"
  by (simp add: utxo_amount_Ok)

lemma ex_from_plan:
  "transaction_from_plan ex_cardano (ex_cardano_input v vs) p =
     and_then (traverse (utxo_transaction_input ex_cardano) (tp_utxos p)) (\<lambda>ins.
       Ok \<lparr>ct_inputs = ins, ct_outputs = \<lparr>co_address = 1 # replicate 56 2, co_amount = tp_amount p\<rparr>
            # (if tp_change p > 0 then [\<lparr>co_address = 1 # replicate 56 1, co_amount = tp_change p\<rparr>] else []),
          ct_fee = tp_fee p, ct_expiration_block_number = 8200, ct_memo = None\<rparr>)"
  by (simp add: transaction_from_plan_def ex_cardano_input_def transaction_destination_address_def ex_shelley
      get_block_number_def transaction_memo_def get_memo_def CARDANO_EXPIRATION_BLOCK_OFFSET_def invalid_input_err_def)

lemma plain_signed_size:
  "ct_memo tx = None \<Longrightarrow> signed_size L tx = 112 + head_len (of_nat (length (ct_inputs tx)))
     + head_len (of_nat (length (ct_outputs tx))) + length (concat (map input_bytes (ct_inputs tx)))
     + length (concat (map output_bytes (ct_outputs tx))) + head_len (ct_fee tx) + head_len (ct_expiration_block_number tx)"
  by (simp add: signed_size_def signed_bytes_def body_bytes_def cbor_lengths auxiliary_data_bytes_def head_len_def
      cbor_true_def cbor_null_def)

lemmas ex_sizes = plain_signed_size ex_coin_input ex_from_plan input_bytes_def output_bytes_def cbor_lengths head_len_def

lemma ex_estimate:
  assumes "w = 9000000 \<or> w = 4300137295"
  shows "cardano_estimate_fee ex_cardano (ex_cardano_input 5000000 [w]) [ex_coin w] 5000000 False = Ok 168567"
  using assms by (elim disjE) (simp_all add: cardano_estimate_fee_def sum_amounts_def ex_coin_amount checked_add_def
      lovelace_consts saturating_sub_def ex_sizes cardano_transaction_fee_def u64_div_ceil_def)

lemma ex_plan_transfer:
  assumes "w = 9000000 \<or> w = 4300137295"
  shows "plan_transfer ex_cardano (ex_cardano_input 5000000 [w]) = Ok (ex_transaction_plan w)"
proof -
  let ?in = "ex_cardano_input 5000000 [w]"
  have w: "w \<in> {1..<2 ^ 64}" using assms by auto
  have f: "input_type ?in = TransferInput \<lparr>asset_ident = \<lparr>asset_chain = Cardano, token_id = None\<rparr>, asset_symbol = ''ADA'', asset_decimals = 6\<rparr>" "sender_address ?in = ''me''"
      "is_max_value ?in = False" "value_as_u64 ?in = Ok 5000000"
    by (simp_all add: ex_cardano_input_def value_as_u64_def nat_to_u64_def)
  have u: "utxos_from_metadata ex_cardano (metadata ?in) ''me'' = Ok [ex_coin w]"
    using w by (simp add: utxos_from_metadata_def ex_shelley ex_cardano_input_def get_utxos_def ex_coin_input ex_coin_amount)
  have s: "select_utxos [ex_coin w] 5000000 False = Ok [ex_coin w]" "sum_amounts [ex_coin w] = Ok (of_nat w)"
    using assms by (auto simp: select_utxos_def select_target_def lovelace_consts checked_mul_def checked_div_def
        checked_add_def ex_coin_amount sum_amounts_def)
  show ?thesis
    using assms by (auto simp: plan_transfer_def f u s ex_estimate [OF assms] is_native_def checked_add_def lovelace_consts)
qed

lemma ex_transaction:
  "\<exists>tx. transaction_from_plan ex_cardano (ex_cardano_input 5000000 [w]) (ex_transaction_plan w) = Ok tx
     \<and> (w = 4300137295 \<longrightarrow> signed_size ex_cardano tx = 292)"
  by (auto simp: ex_sizes)

section \<open>Properties\<close>

text \<open>
  C27: A Cardano transaction neither creates nor loses money. The coins of a plan, which are coins of
  the request, add up to the outputs and the fee of the transaction it becomes; the first output
  pays the destination, exactly the requested amount unless everything is sent; the only other
  output is change to the sender of at least one ada; sending everything leaves no change.
\<close>

theorem cardano_conserves_value:
  assumes "plan_transfer L input = Ok p" and "transaction_from_plan L input p = Ok tx"
  shows "worth (tp_utxos p) = sum_list (map (\<lambda>out. unat (co_amount out)) (ct_outputs tx)) + unat (ct_fee tx)
     \<and> (\<exists>utxos. get_utxos (metadata input) = Ok utxos
          \<and> (if is_max_value input then tp_utxos p = utxos else mset (tp_utxos p) \<subseteq># mset utxos))
     \<and> list_all2 (\<lambda>u i. utxo_transaction_input L u = Ok i) (tp_utxos p) (ct_inputs tx)
     \<and> (\<exists>dest v ch. shelley_parse L (transaction_destination_address input) = Ok dest
          \<and> ct_outputs tx = \<lparr>co_address = dest, co_amount = v\<rparr> # ch
          \<and> (if is_max_value input then ch = [] else value_as_u64 input = Ok v)
          \<and> (ch = [] \<or> (\<exists>s r. shelley_parse L (sender_address input) = Ok s
               \<and> ch = [\<lparr>co_address = s, co_amount = r\<rparr>] \<and> 1000000 \<le> unat r)))"
proof -
  obtain requested utxos fee where p: "value_as_u64 input = Ok requested"
      "utxos_from_metadata L (metadata input) (sender_address input) = Ok utxos"
      "select_utxos utxos requested (is_max_value input) = Ok (tp_utxos p)"
      "worth (tp_utxos p) = unat (tp_amount p) + unat (tp_fee p) + unat (tp_change p)"
      "tp_change p = 0 \<or> 1000000 \<le> unat (tp_change p)"
      "if is_max_value input then tp_change p = 0 \<and> tp_fee p = fee else tp_amount p = requested"
    using assms(1) by (rule plan_transfer_OkE)
  obtain dest n ins change where t: "shelley_parse L (transaction_destination_address input) = Ok dest"
      "traverse (utxo_transaction_input L) (tp_utxos p) = Ok ins"
      "tp_change p \<noteq> 0 \<longrightarrow> shelley_parse L (sender_address input) = Ok change"
      "tx = \<lparr>ct_inputs = ins, ct_outputs = \<lparr>co_address = dest, co_amount = tp_amount p\<rparr>
         # (if tp_change p = 0 then [] else [\<lparr>co_address = change, co_amount = tp_change p\<rparr>]),
       ct_fee = tp_fee p, ct_expiration_block_number = n + CARDANO_EXPIRATION_BLOCK_OFFSET, ct_memo = transaction_memo input\<rparr>"
    using assms(2) by (rule transaction_from_plan_OkE)
  have "get_utxos (metadata input) = Ok utxos" using p(2) by (auto simp: utxos_from_metadata_def result_simps)
  then show ?thesis using p(1,3-6) t select_utxos_Ok(1,2) [OF p(3)] by (auto simp: traverse_Inr_iff)
qed

theorem cardano_conserves_value_witness:
  "\<exists>p tx. plan_transfer ex_cardano (ex_cardano_input 5000000 [9000000]) = Ok p
     \<and> transaction_from_plan ex_cardano (ex_cardano_input 5000000 [9000000]) p = Ok tx
     \<and> worth (tp_utxos p) = sum_list (map (\<lambda>out. unat (co_amount out)) (ct_outputs tx)) + unat (ct_fee tx)"
proof -
  have p: "plan_transfer ex_cardano (ex_cardano_input 5000000 [9000000]) = Ok (ex_transaction_plan 9000000)"
    by (rule ex_plan_transfer) simp
  obtain tx where tx: "transaction_from_plan ex_cardano (ex_cardano_input 5000000 [9000000]) (ex_transaction_plan 9000000) = Ok tx"
    using ex_transaction by blast
  show ?thesis using cardano_conserves_value [OF p tx] p tx by blast
qed

text \<open>
  C28: The fee of a Cardano plan is at least the ledger's minimum fee for the transaction that is
  really sent, although it is computed from the size of an estimated transaction with other amounts.
  Every transaction shorter than 16 megabytes qualifies (the ledger accepts 16 kilobytes).
\<close>

theorem cardano_fee_sufficient:
  assumes "plan_transfer L input = Ok p" and "transaction_from_plan L input p = Ok tx"
    and "\<forall>x. length (blake2b_256 L x) = 32" and "signed_size L tx < 2 ^ 24"
  shows "ledger_min_fee (signed_size L tx) \<le> unat (ct_fee tx)"
proof -
  have "ct_fee tx = tp_fee p" using assms(2) by (auto elim: transaction_from_plan_OkE)
  then show ?thesis using plan_fee_covers_size [OF assms(1,2) _ assms(4)] assms(3) by simp
qed

theorem cardano_fee_sufficient_witness:
  "\<exists>p tx. plan_transfer ex_cardano (ex_cardano_input 5000000 [4300137295]) = Ok p
     \<and> transaction_from_plan ex_cardano (ex_cardano_input 5000000 [4300137295]) p = Ok tx
     \<and> signed_size ex_cardano tx = 292 \<and> ledger_min_fee 292 \<le> unat (ct_fee tx)"
proof -
  have p: "plan_transfer ex_cardano (ex_cardano_input 5000000 [4300137295]) = Ok (ex_transaction_plan 4300137295)"
    by (rule ex_plan_transfer) simp
  obtain tx where tx: "transaction_from_plan ex_cardano (ex_cardano_input 5000000 [4300137295]) (ex_transaction_plan 4300137295) = Ok tx"
      and size: "signed_size ex_cardano tx = 292"
    using ex_transaction [of 4300137295] by auto
  show ?thesis
    using cardano_fee_sufficient [OF p tx] ex_cardano_hash size p tx by auto
qed

text \<open>
  C30: The identifier that is signed determines the transaction. If two transactions have the same
  identifier, and the hash does not collide on their bodies and their auxiliary data, they have the
  same inputs, outputs, fee, expiration and memo.
\<close>

theorem cardano_id_binds_transaction:
  assumes "transaction_id L tx = transaction_id L tx'" and "cardano_tx_wf tx" "cardano_tx_wf tx'"
    and "\<forall>x. length (blake2b_256 L x) = 32"
    and "inj_on (blake2b_256 L) ({body_bytes L tx, body_bytes L tx'}
       \<union> set_option (auxiliary_data_bytes tx) \<union> set_option (auxiliary_data_bytes tx'))"
  shows "ct_inputs tx = ct_inputs tx' \<and> ct_outputs tx = ct_outputs tx' \<and> ct_fee tx = ct_fee tx'
     \<and> ct_expiration_block_number tx = ct_expiration_block_number tx' \<and> carried_memo tx = carried_memo tx'"
proof -
  have "body_bytes L tx = body_bytes L tx'"
    by (rule inj_onD [OF assms(5)]) (use assms(1) in \<open>simp_all add: transaction_id_def\<close>)
  note body = body_bytes_inj [OF assms(2,3) assms(4) [rule_format] this]
  have "auxiliary_data_bytes tx = auxiliary_data_bytes tx'"
  proof (cases "auxiliary_data_bytes tx")
    case None
    then show ?thesis using body by simp
  next
    case (Some d)
    then obtain d' where d': "auxiliary_data_bytes tx' = Some d'" "blake2b_256 L d = blake2b_256 L d'"
      using body by (cases "auxiliary_data_bytes tx'") auto
    have "d = d'" by (rule inj_onD [OF assms(5) d'(2)]) (use Some d' in simp_all)
    then show ?thesis using Some d' by simp
  qed
  then show ?thesis using body auxiliary_data_inj [OF assms(2,3)] by blast
qed

definition ex_cardano_tx :: cardano_transaction where
  "ex_cardano_tx = \<lparr>ct_inputs = [\<lparr>ci_transaction_hash = replicate 32 7, ci_output_index = 1\<rparr>],
     ct_outputs = [\<lparr>co_address = replicate 29 1, co_amount = 5\<rparr>], ct_fee = 3, ct_expiration_block_number = 9,
     ct_memo = Some ''hi''\<rparr>"

theorem cardano_id_binds_transaction_witness:
  "\<exists>d. auxiliary_data_bytes ex_cardano_tx = Some d \<and> cardano_tx_wf ex_cardano_tx
     \<and> inj_on (blake2b_256 ex_cardano) {body_bytes ex_cardano ex_cardano_tx, d}
     \<and> carried_memo ex_cardano_tx = carried_memo ex_cardano_tx"
proof -
  obtain d where d: "auxiliary_data_bytes ex_cardano_tx = Some d" and hd_d: "hd d = 0xd9" "d \<noteq> []"
    by (auto simp: auxiliary_data_bytes_def ex_cardano_tx_def cbor_tag_def AUXILIARY_DATA_TAG_def major_type_def Let_def)
  have hd_b: "hd (body_bytes ex_cardano ex_cardano_tx) = 0xa5" "body_bytes ex_cardano ex_cardano_tx \<noteq> []"
    by (simp_all add: body_bytes_def d cbor_map_def major_type_def)
  have hd: "hd (blake2b_256 ex_cardano x) = hd x" if "x \<noteq> []" for x using that by (simp add: ex_cardano_def hd_append)
  have "blake2b_256 ex_cardano (body_bytes ex_cardano ex_cardano_tx) \<noteq> blake2b_256 ex_cardano d"
    using hd [OF hd_b(2)] hd [OF hd_d(2)] unfolding hd_b(1) hd_d(1) by auto
  then have inj: "inj_on (blake2b_256 ex_cardano) {body_bytes ex_cardano ex_cardano_tx, d}" by (auto simp: inj_on_def)
  have wf: "cardano_tx_wf ex_cardano_tx" by code_simp
  show ?thesis
    using cardano_id_binds_transaction [OF refl wf wf] ex_cardano_hash d wf inj by auto
qed

text \<open>
  A memo is cut into non-empty pieces of at most 64 bytes, each of them valid UTF-8, which
  together are the memo.
\<close>

theorem memo_chunks:
  assumes "valid_utf8 m"
  shows "concat (chunk_memo_segments m) = m
     \<and> list_all (\<lambda>s. s \<noteq> [] \<and> length s \<le> 64 \<and> valid_utf8 s) (chunk_memo_segments m)"
  using chunk_memo_segments_ok [OF assms] .

theorem memo_chunks_witness:
  "map length (chunk_memo_segments (replicate 63 0x61 @ [0xc3, 0xa9, 0x61])) = [63, 3]
     \<and> list_all (\<lambda>s. s \<noteq> [] \<and> length s \<le> 64 \<and> valid_utf8 s) (chunk_memo_segments (replicate 63 0x61 @ [0xc3, 0xa9, 0x61]))"
proof -
  have "valid_utf8 (replicate 63 0x61 @ [0xc3, 0xa9, 0x61])"
      "map length (chunk_memo_segments (replicate 63 0x61 @ [0xc3, 0xa9, 0x61])) = [63, 3]" by code_simp+
  then show ?thesis using memo_chunks by blast
qed

text \<open>
  C29: A signed Cardano transfer is valid and belongs to the sender. Its bytes are those of the
  planned transaction with the public key of the signing key, whose hash is the payment hash of the
  sender's address and of the address of every coin that is spent, and with a signature of the
  transaction's identifier that satisfies the Ed25519 verification equation for that key.
\<close>

theorem cardano_signature_valid:
  assumes "cardano_sign_transfer L E input private_key = Ok out" and "ed_group_laws E G"
  shows "\<exists>p tx pk sig sender. plan_transfer L input = Ok p \<and> transaction_from_plan L input p = Ok tx
     \<and> out = cardano_hex_encode L (signed_bytes L tx pk sig) \<and> ed_verifies E G pk (transaction_id L tx) sig
     \<and> shelley_parse L (sender_address input) = Ok sender \<and> payment_hash sender = blake2b_224 L pk
     \<and> (\<forall>u \<in> set (tp_utxos p). \<exists>a. shelley_parse L (utxo_address u) = Ok a \<and> payment_hash a = blake2b_224 L pk)"
proof -
  obtain p kp sender tx where s: "plan_transfer L input = Ok p" "shelley_parse L (sender_address input) = Ok sender"
      "payment_hash sender = blake2b_224 L (extended_public_key E kp)" "transaction_from_plan L input p = Ok tx"
      "out = cardano_hex_encode L (signed_bytes L tx (extended_public_key E kp) (extended_sign E kp (transaction_id L tx)))"
    using assms(1) by (auto simp: cardano_sign_transfer_def result_simps Let_def invalid_input_err_def split: if_splits)
  obtain requested utxos where u: "utxos_from_metadata L (metadata input) (sender_address input) = Ok utxos"
      and sel: "select_utxos utxos requested (is_max_value input) = Ok (tp_utxos p)"
    using s(1) by (rule plan_transfer_OkE)
  have "set (tp_utxos p) \<subseteq> set utxos" using select_utxos_Ok(1) [OF sel] by (metis set_mset_mono set_mset_mset)
  moreover have "\<exists>a. shelley_parse L (utxo_address x) = Ok a \<and> payment_hash a = payment_hash sender" if "x \<in> set utxos" for x
    using utxos_from_metadata_own [OF u s(2) that] .
  ultimately have "\<forall>u \<in> set (tp_utxos p). \<exists>a. shelley_parse L (utxo_address u) = Ok a
      \<and> payment_hash a = blake2b_224 L (extended_public_key E kp)"
    using s(3) by auto
  then show ?thesis
    using s extended_sign_verifies [OF assms(2), of kp "transaction_id L tx"] by blast
qed

theorem cardano_signature_valid_witness:
  "\<exists>out pk sig tx. cardano_sign_transfer ex_cardano ex_ed (ex_cardano_input 5000000 [9000000]) (replicate 192 3) = Ok out
     \<and> ed_verifies ex_ed ex_group pk (transaction_id ex_cardano tx) sig"
proof -
  have "plan_transfer ex_cardano (ex_cardano_input 5000000 [9000000]) = Ok (ex_transaction_plan 9000000)"
    by (rule ex_plan_transfer) simp
  moreover have "sender_address (ex_cardano_input 5000000 [9000000]) = ''me''" by (simp add: ex_cardano_input_def)
  moreover have "payment_hash (1 # replicate 56 1) = blake2b_224 ex_cardano x" for x
    by (simp add: payment_hash_def shelley_consts ex_cardano_def min_def)
  ultimately obtain out where
    "cardano_sign_transfer ex_cardano ex_ed (ex_cardano_input 5000000 [9000000]) (replicate 192 3) = Ok out"
    using ex_transaction [of 9000000] by (auto simp: cardano_sign_transfer_def extended_key_from_private_key_def
        CARDANO_EXTENDED_PRIVATE_KEY_LENGTH_def ex_shelley)
  then show ?thesis using cardano_signature_valid [OF _ ex_group_laws] by blast
qed

text \<open>
  An address the wallet derives from two public keys is one it accepts, and its payment hash is
  the hash of the payment key. (The bech32 decoder is assumed to invert the encoder.)
\<close>

theorem cardano_address_roundtrip:
  assumes "\<forall>h b s. bech32_encode L h b = Some s \<longrightarrow> bech32_decode L s = Some (h, b)"
    and "\<forall>x. length (blake2b_224 L x) = 28" and "address_from_public_keys L payment stake = Ok s"
  shows "validate_cardano_address L s
     \<and> shelley_parse L s = Ok (from_public_key_hashes (blake2b_224 L payment) (blake2b_224 L stake))
     \<and> payment_hash (from_public_key_hashes (blake2b_224 L payment) (blake2b_224 L stake)) = blake2b_224 L payment"
proof -
  let ?a = "from_public_key_hashes (blake2b_224 L payment) (blake2b_224 L stake)"
  have "bech32_encode L ADDRESS_HRP ?a = Some s"
    using assms(3) by (simp add: address_from_public_keys_def shelley_encode_def result_simps)
  then have dec: "bech32_decode L s = Some (ADDRESS_HRP, ?a)" using assms(1) by blast
  have "shelley_from_bytes ?a = Ok ?a"
    using assms(2) by (simp add: shelley_from_bytes_def from_public_key_hashes_def shelley_network_id_def
        shelley_address_type_def shelley_consts)
  then show ?thesis
    using dec assms(2) by (simp add: validate_cardano_address_def shelley_parse_def payment_hash_def
        from_public_key_hashes_def shelley_consts)
qed

theorem cardano_address_roundtrip_witness:
  "address_from_public_keys ex_cardano [] [] = Ok ''me'' \<and> validate_cardano_address ex_cardano ''me''"
proof -
  have "address_from_public_keys ex_cardano [] [] = Ok ''me''" by code_simp
  moreover have "\<forall>x. length (blake2b_224 ex_cardano x) = 28" by (simp add: ex_cardano_def)
  moreover have "\<forall>h b s. bech32_encode ex_cardano h b = Some s \<longrightarrow> bech32_decode ex_cardano s = Some (h, b)"
    by (auto simp: ex_cardano_def)
  ultimately show ?thesis using cardano_address_roundtrip by blast
qed

end
