(* ===== verification/Ton_Cell.thy ===== *)
theory Ton_Cell
  imports Wallet_Types
begin

unbundle bit_operations_syntax

text \<open>
  The TVM cells of \<open>core/crates/gem_ton/src/tvm\<close>: \<open>cell.rs\<close> (a cell, its depth and its
  representation hash), \<open>writer.rs\<close> and \<open>reader.rs\<close> (bit streams), \<open>builder.rs\<close> (cells under
  construction) and the raw form of \<open>address.rs\<close> that the builder stores. The hash function is an
  argument \<open>H\<close>; everything else is computed here.

  The mutable writer and builder are refined to lists of bits: \<open>writer_of bs\<close> is the only state a
  writer can be in after the bits \<open>bs\<close>, so each operation is an equation on such states.
\<close>

section \<open>Errors\<close>

datatype tvm_error = TvmError string

type_synonym 'a tvm_result = "tvm_error + 'a"

definition invalid :: "string \<Rightarrow> tvm_error" where
  "invalid msg = TvmError msg"

fun tvm_to_signer_error :: "tvm_error \<Rightarrow> signer_error" where
  "tvm_to_signer_error (TvmError msg) = InvalidInput msg"

text \<open>The conversion that \<open>?\<close> applies where a \<open>TvmError\<close> meets a \<open>SignerError\<close> result.\<close>

fun tvm :: "'a tvm_result \<Rightarrow> 'a signer_result" where
  "tvm (Inl e) = Inl (tvm_to_signer_error e)"
| "tvm (Inr x) = Inr x"

section \<open>Cells\<close>

definition MAX_CELL_BITS :: nat where "MAX_CELL_BITS = 1023"
definition MAX_CELL_REFERENCES :: nat where "MAX_CELL_REFERENCES = 4"

datatype cell = Cell
  (cell_data: bytes) (cell_bit_len: nat) (cell_references: "cell list") (cell_depth: u16) (cell_hash: bytes)

definition bits_descriptor :: "nat \<Rightarrow> u8 option" where
  "bits_descriptor bit_len =
     (let data_len = div_ceil bit_len 8
      in if data_len > 128 then None
         else Some (of_nat (data_len * 2 - (if bit_len mod 8 = 0 then 0 else 1))))"

definition serialized_bits :: "bytes \<Rightarrow> nat \<Rightarrow> bytes" where
  "serialized_bits d bit_len =
     (let data_len = div_ceil bit_len 8
      in if data_len = 0 then []
         else let serialized = take data_len d
              in if bit_len mod 8 \<noteq> 0
                 then let marker_shift = 8 - bit_len mod 8 - 1;
                          last_index = length serialized - 1
                      in serialized[last_index := serialized ! last_index OR push_bit marker_shift 1]
                 else serialized)"

definition max_depth :: "cell list \<Rightarrow> u16 option" where
  "max_depth references = (if references = [] then None else Some (Max (set (map cell_depth references))))"

definition cell_repr :: "bytes \<Rightarrow> nat \<Rightarrow> cell list \<Rightarrow> u8 \<Rightarrow> bytes" where
  "cell_repr d bit_len references descriptor =
     of_nat (length references) # descriptor # serialized_bits d bit_len
       @ concat (map (\<lambda>r. be_bytes 2 (cell_depth r)) references) @ concat (map cell_hash references)"

definition try_new :: "(bytes \<Rightarrow> bytes) \<Rightarrow> bytes \<Rightarrow> nat \<Rightarrow> cell list \<Rightarrow> cell option" where
  "try_new H d bit_len references =
     (if bit_len > MAX_CELL_BITS \<or> length references > MAX_CELL_REFERENCES \<or> length d \<noteq> div_ceil bit_len 8
      then None
      else case (if references = [] then Some 0
                 else case max_depth references of None \<Rightarrow> None | Some m \<Rightarrow> checked_add m 1) of
        None \<Rightarrow> None
      | Some depth \<Rightarrow>
          (case bits_descriptor bit_len of
             None \<Rightarrow> None
           | Some descriptor \<Rightarrow>
               Some (Cell d bit_len references depth (H (cell_repr d bit_len references descriptor)))))"

definition new_cell :: "(bytes \<Rightarrow> bytes) \<Rightarrow> bytes \<Rightarrow> nat \<Rightarrow> cell list \<Rightarrow> cell tvm_result" where
  "new_cell H d bit_len references = ok_or (try_new H d bit_len references) (TvmError ''invalid cell'')"

section \<open>The bit writer\<close>

record bit_writer =
  bw_bytes :: bytes
  bw_bit_len :: nat

definition bit_writer_default :: bit_writer where
  "bit_writer_default = \<lparr>bw_bytes = [], bw_bit_len = 0\<rparr>"

definition write_bit :: "bool \<Rightarrow> bit_writer \<Rightarrow> bit_writer tvm_result" where
  "write_bit v w =
     (if bw_bit_len w = MAX_CELL_BITS then Err (TvmError ''cell exceeds 1023 bits'')
      else let bytes = (if bw_bit_len w mod 8 = 0 then bw_bytes w @ [0] else bw_bytes w);
               byte_index = bw_bit_len w div 8;
               bit_index = 7 - bw_bit_len w mod 8;
               bytes = (if v then bytes[byte_index := bytes ! byte_index OR push_bit bit_index 1] else bytes)
           in Ok \<lparr>bw_bytes = bytes, bw_bit_len = bw_bit_len w + 1\<rparr>)"

definition write_uint :: "nat \<Rightarrow> u64 \<Rightarrow> bit_writer \<Rightarrow> bit_writer tvm_result" where
  "write_uint bit_len v w =
     (if bit_len > 64 then Err (TvmError ''fixed-size integers above 64 bits are not supported'')
      else if bit_len < 64 \<and> drop_bit bit_len v \<noteq> 0
      then Err (TvmError ''integer does not fit requested bit length'')
      else try_fold (\<lambda>w shift. write_bit (drop_bit shift v AND 1 = 1) w) w (rev [0..<bit_len]))"

definition write_bits :: "bytes \<Rightarrow> nat \<Rightarrow> bit_writer \<Rightarrow> bit_writer tvm_result" where
  "write_bits bs bit_len w =
     (if bit_len > length bs * 8 then Err (TvmError ''bit length exceeds input bytes'')
      else try_fold (\<lambda>w index. write_bit (drop_bit (7 - index mod 8) (bs ! (index div 8)) AND 1 = 1) w)
             w [0..<bit_len])"

definition write_bytes :: "bytes \<Rightarrow> bit_writer \<Rightarrow> bit_writer tvm_result" where
  "write_bytes bs w = write_bits bs (length bs * 8) w"

section \<open>Raw addresses\<close>

text \<open>\<open>address.rs\<close>: a workchain byte and a 32-byte hash; an \<open>i32\<close> is a 32-bit word read as signed.\<close>

record ton_address = addr_bytes :: bytes

definition new_address :: "u32 \<Rightarrow> bytes \<Rightarrow> ton_address" where
  "new_address workchain hash_part = \<lparr>addr_bytes = ucast workchain # hash_part\<rparr>"

definition addr_workchain :: "ton_address \<Rightarrow> u32" where
  "addr_workchain a = scast (addr_bytes a ! 0)"

definition addr_hash_part :: "ton_address \<Rightarrow> bytes" where
  "addr_hash_part a = drop 1 (addr_bytes a)"

section \<open>The cell builder\<close>

record cell_builder =
  cb_writer :: bit_writer
  cb_references :: "cell list"

type_synonym store_op = "cell_builder \<Rightarrow> cell_builder tvm_result"

definition builder_new :: cell_builder where
  "builder_new = \<lparr>cb_writer = bit_writer_default, cb_references = []\<rparr>"

definition with_writer :: "(bit_writer \<Rightarrow> bit_writer tvm_result) \<Rightarrow> store_op" where
  "with_writer f b = and_then (f (cb_writer b)) (\<lambda>w. Ok (b\<lparr>cb_writer := w\<rparr>))"

text \<open>A store_chain \<open>builder.store_a(x)?.store_b(y)?\<close>.\<close>

definition store_chain :: "store_op list \<Rightarrow> store_op" where
  "store_chain ops b = try_fold (\<lambda>b op. op b) b ops"

definition store_bit :: "bool \<Rightarrow> store_op" where
  "store_bit v = with_writer (write_bit v)"

definition store_u8 :: "nat \<Rightarrow> u8 \<Rightarrow> store_op" where
  "store_u8 bit_len v = with_writer (write_uint bit_len (ucast v))"

definition store_u32 :: "nat \<Rightarrow> u32 \<Rightarrow> store_op" where
  "store_u32 bit_len v = with_writer (write_uint bit_len (ucast v))"

definition store_i32 :: "nat \<Rightarrow> u32 \<Rightarrow> store_op" where
  "store_i32 bit_len v = with_writer (write_uint bit_len (ucast v))"

definition store_u64 :: "nat \<Rightarrow> u64 \<Rightarrow> store_op" where
  "store_u64 bit_len v = with_writer (write_uint bit_len v)"

definition store_slice :: "bytes \<Rightarrow> store_op" where
  "store_slice sl = with_writer (write_bytes sl)"

definition store_reference :: "cell \<Rightarrow> store_op" where
  "store_reference c b =
     (if length (cb_references b) + 1 > MAX_CELL_REFERENCES then Err (TvmError ''cell exceeds 4 references'')
      else Ok (b\<lparr>cb_references := cb_references b @ [c]\<rparr>))"

definition store_maybe_reference :: "cell option \<Rightarrow> store_op" where
  "store_maybe_reference c b =
     (case c of Some c \<Rightarrow> and_then (store_bit True b) (store_reference c) | None \<Rightarrow> store_bit False b)"

definition store_child :: "cell \<Rightarrow> store_op" where
  "store_child c = store_reference c"

definition remaining_bits :: "cell_builder \<Rightarrow> nat" where
  "remaining_bits b = MAX_CELL_BITS - bw_bit_len (cb_writer b)"

definition build :: "(bytes \<Rightarrow> bytes) \<Rightarrow> cell_builder \<Rightarrow> cell tvm_result" where
  "build H b = new_cell H (bw_bytes (cb_writer b)) (bw_bit_len (cb_writer b)) (cb_references b)"

function store_slice_snake :: "(bytes \<Rightarrow> bytes) \<Rightarrow> bytes \<Rightarrow> store_op" where
  "store_slice_snake H sl b =
     (let byte_capacity = remaining_bits b div 8
      in if length sl \<le> byte_capacity then store_slice sl b
         else let head = take byte_capacity sl; tail = drop byte_capacity sl
              in and_then (store_slice head b) (\<lambda>b.
                 and_then (store_slice_snake H tail builder_new) (\<lambda>child.
                 and_then (build H child) (\<lambda>c. store_child c b))))"
  by pat_completeness auto
termination
  by (relation "measure (\<lambda>(H, sl, b). 2 * length sl + (if remaining_bits b < 8 then 1 else 0))")
    (auto simp: remaining_bits_def builder_new_def bit_writer_default_def MAX_CELL_BITS_def)

declare store_slice_snake.simps [simp del]

definition store_string_snake :: "(bytes \<Rightarrow> bytes) \<Rightarrow> string \<Rightarrow> store_op" where
  "store_string_snake H s = store_slice_snake H (as_bytes s)"

text \<open>\<open>BigUint::bits\<close>: the position of the highest set bit, from one; zero has none.\<close>

fun nat_bits :: "nat \<Rightarrow> nat" where
  "nat_bits n = (if n = 0 then 0 else Suc (nat_bits (n div 2)))"

declare nat_bits.simps [simp del]

definition store_uint :: "nat \<Rightarrow> nat \<Rightarrow> store_op" where
  "store_uint bit_len v b =
     (let used_bits = nat_bits v
      in if used_bits > bit_len then Err (TvmError (''value does not fit in '' @ to_decimal bit_len @ '' bits''))
         else let leading_zero_bits = bit_len - used_bits;
                  leading_zero_bytes = leading_zero_bits div 8;
                  extra_zero_bits = leading_zero_bits mod 8;
                  bytes = nat_to_bytes_be v;
                  high_bits = (if used_bits = 0 then 0 else if used_bits mod 8 = 0 then 8 else used_bits mod 8)
              in store_chain (replicate leading_zero_bytes (store_u8 8 0)
                        @ replicate extra_zero_bits (store_bit False)
                        @ map (\<lambda>shift. store_bit (drop_bit shift (hd bytes) AND 1 = 1)) (rev [0..<high_bits])
                        @ map (store_u8 8) (tl bytes)) b)"

definition store_coins :: "nat \<Rightarrow> store_op" where
  "store_coins v b =
     (if v = 0 then store_u8 4 0 b
      else let bytes = nat_to_bytes_be v
           in store_chain [store_u8 4 (of_nat (length bytes)), store_uint (length bytes * 8) v] b)"

definition store_null_address :: store_op where
  "store_null_address = store_u8 2 0"

definition store_address :: "ton_address \<Rightarrow> store_op" where
  "store_address a =
     store_chain [store_u8 2 2, store_bit False, store_u8 8 (ucast (addr_workchain a)), store_slice (addr_hash_part a)]"

definition store_maybe_address :: "ton_address option \<Rightarrow> store_op" where
  "store_maybe_address a = (case a of Some a \<Rightarrow> store_address a | None \<Rightarrow> store_null_address)"

definition store_cell_data :: "cell \<Rightarrow> store_op" where
  "store_cell_data c = with_writer (write_bits (cell_data c) (cell_bit_len c))"

definition store_cell :: "cell \<Rightarrow> store_op" where
  "store_cell c = store_chain (store_cell_data c # map store_reference (cell_references c))"

section \<open>The bit reader\<close>

record bit_reader =
  br_bytes :: bytes
  br_bit_len :: nat
  br_bit_position :: nat

definition reader_new :: "bytes \<Rightarrow> bit_reader" where
  "reader_new bs = \<lparr>br_bytes = bs, br_bit_len = length bs * 8, br_bit_position = 0\<rparr>"

definition from_bits :: "bytes \<Rightarrow> nat \<Rightarrow> bit_reader tvm_result" where
  "from_bits bs bit_len =
     (if bit_len > length bs * 8 then Err (TvmError ''bit length exceeds input bytes'')
      else Ok \<lparr>br_bytes = bs, br_bit_len = bit_len, br_bit_position = 0\<rparr>)"

definition position :: "bit_reader \<Rightarrow> nat" where
  "position r = br_bit_position r div 8"

definition br_remaining_bits :: "bit_reader \<Rightarrow> nat" where
  "br_remaining_bits r = br_bit_len r - br_bit_position r"

definition remaining :: "bit_reader \<Rightarrow> nat" where
  "remaining r = div_ceil (br_remaining_bits r) 8"

type_synonym 'a read_op = "bit_reader \<Rightarrow> ('a \<times> bit_reader) tvm_result"

definition read_bit :: "bool read_op" where
  "read_bit r =
     (if br_bit_position r \<ge> br_bit_len r then Err (TvmError ''unexpected end of input'')
      else let byte = br_bytes r ! (br_bit_position r div 8);
               shift = 7 - br_bit_position r mod 8
           in Ok (drop_bit shift byte AND 1 = 1, r\<lparr>br_bit_position := br_bit_position r + 1\<rparr>))"

fun read_bits :: "nat \<Rightarrow> u64 \<Rightarrow> u64 read_op" where
  "read_bits 0 v r = Ok (v, r)"
| "read_bits (Suc n) v r = and_then (read_bit r) (\<lambda>(b, r). read_bits n (push_bit 1 v OR of_bool b) r)"

definition read_uint :: "nat \<Rightarrow> u64 read_op" where
  "read_uint bit_len r =
     (if bit_len > 64 then Err (TvmError ''fixed-size integers above 64 bits are not supported'')
      else read_bits bit_len 0 r)"

definition read_u8 :: "u8 read_op" where
  "read_u8 r = and_then (read_uint 8 r) (\<lambda>(v, r). Ok (ucast v, r))"

definition read_u32 :: "u32 read_op" where
  "read_u32 r = and_then (read_uint 32 r) (\<lambda>(v, r). Ok (ucast v, r))"

definition read_bytes :: "nat \<Rightarrow> bytes read_op" where
  "read_bytes len r =
     (if br_bit_position r mod 8 \<noteq> 0 then Err (TvmError ''byte reads require byte-aligned position'')
      else and_then (ok_or (usize_checked_mul len 8) (TvmError ''invalid read length'')) (\<lambda>bit_len.
        if br_remaining_bits r < bit_len then Err (TvmError ''unexpected end of input'')
        else let start = position r
             in and_then (ok_or (usize_checked_add start len) (TvmError ''invalid read length'')) (\<lambda>stop.
                  Ok (take (stop - start) (drop start (br_bytes r)),
                      r\<lparr>br_bit_position := br_bit_position r + bit_len\<rparr>))))"

definition skip :: "nat \<Rightarrow> bit_reader \<Rightarrow> bit_reader tvm_result" where
  "skip len r = and_then (read_bytes len r) (\<lambda>(_, r). Ok r)"

definition read_u32_le :: "u32 read_op" where
  "read_u32_le r = and_then (read_bytes 4 r) (\<lambda>(bs, r).
     if length bs = 4 then Ok (le_word bs, r) else Err (TvmError ''invalid u32''))"

definition read_var_uint :: "nat \<Rightarrow> nat read_op" where
  "read_var_uint sz r = and_then (read_bytes sz r) (\<lambda>(bs, r).
     Ok (unat (foldl (\<lambda>acc byte. push_bit 8 acc OR ucast byte) (0 :: u64) bs), r))"

end
