(* ===== verification/Ton_Bits.thy ===== *)
theory Ton_Bits
  imports Ton_Cell
begin

unbundle bit_operations_syntax

text \<open>
  The writer and the reader of \<open>Ton_Cell\<close> against lists of bits, most significant bit first.
\<close>

section \<open>Bytes and bits\<close>

definition byte_of_bits :: "bool list \<Rightarrow> u8" where
  "byte_of_bits bs = horner_sum of_bool 2 (rev (take 8 (bs @ replicate 8 False)))"

definition pack_bits :: "bool list \<Rightarrow> bytes" where
  "pack_bits bs = map (\<lambda>k. byte_of_bits (drop (8 * k) bs)) [0..<div_ceil (length bs) 8]"

definition to_bits :: "bytes \<Rightarrow> bool list" where
  "to_bits bs = map (\<lambda>i. bit (bs ! (i div 8)) (7 - i mod 8)) [0..<8 * length bs]"

definition uint_bits :: "nat \<Rightarrow> 'a::semiring_bits \<Rightarrow> bool list" where
  "uint_bits n v = map (bit v) (rev [0..<n])"

definition bits_val :: "bool list \<Rightarrow> u64" where
  "bits_val bs = foldl (\<lambda>v b. push_bit 1 v OR of_bool b) 0 bs"

lemma bit_test: "drop_bit n w AND 1 = 1 \<longleftrightarrow> bit w n" for w :: "'a::len word"
  by (simp add: bit_iff_and_drop_bit_eq_1)

lemma bit_byte_of_bits: "bit (byte_of_bits bs) j \<longleftrightarrow> j < 8 \<and> 7 - j < length bs \<and> bs ! (7 - j)"
proof -
  have "rev (take 8 (bs @ replicate 8 False)) ! j = (bs @ replicate 8 False) ! (7 - j)" if "j < 8"
    using that rev_nth [of j "take 8 (bs @ replicate 8 False)"] by (simp del: take_append rev_append)
  then show ?thesis
    by (auto simp del: take_append rev_append split: if_splits simp: byte_of_bits_def bit_horner_sum_bit_word_iff nth_append)
qed

lemma div_ceil_8: "r < 8 \<Longrightarrow> div_ceil (8 * q + r) 8 = (if r = 0 then q else Suc q)"
  by (cases r) (simp_all add: div_ceil_def)

lemma div_ceil_8_le: "div_ceil n 8 \<le> k \<longleftrightarrow> n \<le> 8 * k"
proof -
  obtain q r where n: "n = 8 * q + r" "r < 8"
    by (metis mod_less_divisor mult_div_mod_eq zero_less_numeral)
  then show ?thesis using div_ceil_8 [of r q] by auto
qed

lemma octet_unique: "m < 8 \<Longrightarrow> r < 8 \<Longrightarrow> 8 * i + m = 8 * q + r \<longleftrightarrow> i = q \<and> m = r" for m r i q :: nat
proof
  assume b: "m < 8" "r < 8" and eq: "8 * i + m = 8 * q + r"
  have "(8 * i + m) div 8 = (8 * q + r) div 8" using eq by (rule arg_cong)
  then have "i = q" using b by simp
  then show "i = q \<and> m = r" using eq by simp
qed simp

lemma length_pack_bits [simp]: "length (pack_bits bs) = div_ceil (length bs) 8"
  by (simp add: pack_bits_def)

lemma bit_pack_bits:
  assumes "k < div_ceil (length bs) 8"
  shows "bit (pack_bits bs ! k) j \<longleftrightarrow> j < 8 \<and> 8 * k + (7 - j) < length bs \<and> bs ! (8 * k + (7 - j))"
proof -
  have "8 * k \<le> length bs" using assms by (simp add: div_ceil_def)
  then show ?thesis using assms by (auto simp: pack_bits_def bit_byte_of_bits)
qed

lemma length_to_bits [simp]: "length (to_bits bs) = 8 * length bs"
  by (simp add: to_bits_def)

lemma nth_to_bits: "i < 8 * length bs \<Longrightarrow> to_bits bs ! i = bit (bs ! (i div 8)) (7 - i mod 8)"
  by (simp add: to_bits_def)

lemma length_uint_bits [simp]: "length (uint_bits n v) = n"
  by (simp add: uint_bits_def)

lemma nth_uint_bits: "i < n \<Longrightarrow> uint_bits n v ! i = bit v (n - 1 - i)"
  by (simp add: uint_bits_def rev_nth)

lemma to_bits_Nil [simp]: "to_bits [] = []"
  by (simp add: to_bits_def)

lemma to_bits_Cons: "to_bits (b # bs) = uint_bits 8 b @ to_bits bs"
proof (rule nth_equalityI)
  fix i assume i: "i < length (to_bits (b # bs))"
  show "to_bits (b # bs) ! i = (uint_bits 8 b @ to_bits bs) ! i"
  proof (cases "i < 8")
    case True
    then show ?thesis using i by (simp add: nth_to_bits nth_append nth_uint_bits)
  next
    case False
    then have "i div 8 = Suc ((i - 8) div 8)" "i mod 8 = (i - 8) mod 8"
      by (simp_all add: le_div_geq le_mod_geq)
    then show ?thesis using i False by (simp add: nth_to_bits nth_append)
  qed
qed simp

lemma to_bits_append: "to_bits (xs @ ys) = to_bits xs @ to_bits ys"
  by (induction xs) (auto simp: to_bits_Cons)

lemma to_bits_inj: "to_bits xs = to_bits ys \<Longrightarrow> xs = ys"
proof (rule nth_equalityI)
  assume eq: "to_bits xs = to_bits ys"
  then show len: "length xs = length ys" by (metis length_to_bits mult_left_cancel zero_neq_numeral)
  fix i assume i: "i < length xs"
  show "xs ! i = ys ! i"
  proof (rule bit_word_eqI)
    fix n assume "n < LENGTH(8)"
    then have m: "n = 7 - m" "m < 8" if "m = 7 - n" for m using that by auto
    define m where "m = 7 - n"
    note m = m [OF m_def]
    have "to_bits xs ! (8 * i + m) = to_bits ys ! (8 * i + m)" using eq by simp
    then show "bit (xs ! i) n = bit (ys ! i) n" using i m len by (simp add: nth_to_bits)
  qed
qed

lemma take_to_bits_pack: "take (length bs) (to_bits (pack_bits bs)) = bs"
proof (rule nth_equalityI)
  have le: "length bs \<le> 8 * div_ceil (length bs) 8" by (rule div_ceil_ge) simp
  then show "length (take (length bs) (to_bits (pack_bits bs))) = length bs" by simp
  fix i assume "i < length (take (length bs) (to_bits (pack_bits bs)))"
  then have i: "i < length bs" by simp
  then have k: "i div 8 < div_ceil (length bs) 8" by (simp add: div_ceil_def)
  have "8 * (i div 8) + (7 - (7 - i mod 8)) = i" "7 - i mod 8 < 8" by simp_all
  then show "take (length bs) (to_bits (pack_bits bs)) ! i = bs ! i"
    using i le k by (simp add: nth_to_bits bit_pack_bits)
qed

lemma pack_bits_inj: "length bs = length bs' \<Longrightarrow> pack_bits bs = pack_bits bs' \<Longrightarrow> bs = bs'"
  by (metis take_to_bits_pack)

lemma pack_to_bits [simp]: "pack_bits (to_bits xs) = xs"
proof (rule to_bits_inj)
  have "div_ceil (8 * length xs) 8 = length xs" by (simp add: div_ceil_def)
  then have "length (to_bits (pack_bits (to_bits xs))) = length (to_bits xs)" by simp
  then show "to_bits (pack_bits (to_bits xs)) = to_bits xs"
    by (metis order_refl take_all take_to_bits_pack)
qed

section \<open>The writer as a list of bits\<close>

definition writer_of :: "bool list \<Rightarrow> bit_writer" where
  "writer_of bs = \<lparr>bw_bytes = pack_bits bs, bw_bit_len = length bs\<rparr>"

lemma pack_bits_snoc:
  "pack_bits (bs @ [v]) =
     (let bytes = (if length bs mod 8 = 0 then pack_bits bs @ [0] else pack_bits bs);
          k = length bs div 8
      in if v then bytes[k := bytes ! k OR push_bit (7 - length bs mod 8) 1] else bytes)" (is "_ = ?rhs")
proof -
  let ?n = "length bs" and ?bytes = "if length bs mod 8 = 0 then pack_bits bs @ [0] else pack_bits bs"
  obtain q r where n: "?n = 8 * q + r" "r < 8"
    by (metis mod_less_divisor mult_div_mod_eq zero_less_numeral)
  have dc: "div_ceil ?n 8 = (if r = 0 then q else Suc q)" "div_ceil (Suc ?n) 8 = Suc q"
    using n div_ceil_8 [of r q] div_ceil_8 [of "Suc r" q] by (auto simp: less_Suc_eq div_ceil_def)
  have k: "?n div 8 = q" "?n mod 8 = r" using n by simp_all
  have len: "length ?bytes = Suc q" using dc k by simp
  have old: "bit (?bytes ! i) j \<longleftrightarrow> j < 8 \<and> 8 * i + (7 - j) < ?n \<and> bs ! (8 * i + (7 - j))"
    if "i < Suc q" for i j
  proof (cases "i < div_ceil ?n 8")
    case True
    then show ?thesis by (simp add: nth_append bit_pack_bits)
  next
    case False
    then have "r = 0" "i = q" using that dc by (auto split: if_splits)
    then show ?thesis using n dc k by (simp add: nth_append)
  qed
  show ?thesis
  proof (rule nth_equalityI)
    show "length (pack_bits (bs @ [v])) = length ?rhs" using len dc by (simp add: Let_def)
    fix i assume "i < length (pack_bits (bs @ [v]))"
    then have i: "i < Suc q" using dc by simp
    show "pack_bits (bs @ [v]) ! i = ?rhs ! i"
    proof (rule bit_word_eqI)
      fix j assume "j < LENGTH(8)"
      then have j: "j < 8" by simp
      have new: "bit (pack_bits (bs @ [v]) ! i) j \<longleftrightarrow> 8 * i + (7 - j) < Suc ?n \<and> (bs @ [v]) ! (8 * i + (7 - j))"
        using i j dc by (simp add: bit_pack_bits)
      have last: "8 * i + (7 - j) = ?n \<longleftrightarrow> i = q \<and> j = 7 - r"
        using j n(2) octet_unique [of "7 - j" r i q] unfolding n(1) by auto
      show "bit (pack_bits (bs @ [v]) ! i) j = bit (?rhs ! i) j"
      proof (cases "8 * i + (7 - j) = ?n")
        case True
        then show ?thesis
          using new last old [OF i, of j] k len j i n by (auto simp: Let_def bit_simps nth_append)
      next
        case False
        then show ?thesis
          using new last old [OF i, of j] k len j i n
          by (auto simp: Let_def bit_simps nth_append nth_list_update simp del: push_bit_of_1)
      qed
    qed
  qed
qed

lemma write_bit_writer_of:
  "write_bit v (writer_of bs) =
     (if length bs = MAX_CELL_BITS then Err (TvmError ''cell exceeds 1023 bits'') else Ok (writer_of (bs @ [v])))"
  by (simp add: write_bit_def writer_of_def pack_bits_snoc Let_def)

lemma write_bit_fold:
  assumes "length bs \<le> MAX_CELL_BITS"
  shows "try_fold (\<lambda>w x. write_bit (f x) w) (writer_of bs) xs =
     (if length bs + length xs \<le> MAX_CELL_BITS then Ok (writer_of (bs @ map f xs))
      else Err (TvmError ''cell exceeds 1023 bits''))"
  using assms
proof (induction xs arbitrary: bs)
  case Nil
  then show ?case by simp
next
  case (Cons x xs)
  show ?case
  proof (cases "length bs = MAX_CELL_BITS")
    case True
    then show ?thesis by (simp add: write_bit_writer_of)
  next
    case False
    then show ?thesis using Cons.IH [of "bs @ [f x]"] Cons.prems by (simp add: write_bit_writer_of)
  qed
qed

lemma write_uint_writer_of:
  assumes "length bs \<le> MAX_CELL_BITS" "n \<le> 64" "unat v < 2 ^ n"
  shows "write_uint n v (writer_of bs) =
     (if length bs + n \<le> MAX_CELL_BITS then Ok (writer_of (bs @ uint_bits n v))
      else Err (TvmError ''cell exceeds 1023 bits''))"
proof -
  have "drop_bit n v = 0"
    using assms(3) by (simp add: word_unat_eq_iff unat_drop_bit_div)
  then show ?thesis
    using write_bit_fold [OF assms(1), of "bit v" "rev [0..<n]"] assms(2)
    by (simp add: write_uint_def bit_test uint_bits_def)
qed

lemma write_bits_writer_of:
  assumes "length bs \<le> MAX_CELL_BITS" "n \<le> 8 * length xs"
  shows "write_bits xs n (writer_of bs) =
     (if length bs + n \<le> MAX_CELL_BITS then Ok (writer_of (bs @ take n (to_bits xs)))
      else Err (TvmError ''cell exceeds 1023 bits''))"
proof -
  let ?f = "\<lambda>i. bit (xs ! (i div 8)) (7 - i mod 8)"
  have "map ?f [0..<n] = take n (to_bits xs)"
    using assms(2) by (intro nth_equalityI) (auto simp: nth_to_bits)
  then show ?thesis
    using write_bit_fold [OF assms(1), of ?f "[0..<n]"] assms(2)
    by (simp add: write_bits_def bit_test mult.commute)
qed

lemma write_bytes_writer_of:
  assumes "length bs \<le> MAX_CELL_BITS"
  shows "write_bytes xs (writer_of bs) =
     (if length bs + 8 * length xs \<le> MAX_CELL_BITS then Ok (writer_of (bs @ to_bits xs))
      else Err (TvmError ''cell exceeds 1023 bits''))"
  using write_bits_writer_of [OF assms, of "8 * length xs" xs] by (simp add: write_bytes_def mult.commute)


section \<open>The builder as bits and references\<close>

definition builder_of :: "bool list \<Rightarrow> cell list \<Rightarrow> cell_builder" where
  "builder_of bs rs = \<lparr>cb_writer = writer_of bs, cb_references = rs\<rparr>"

lemma builder_new_builder_of: "builder_new = builder_of [] []"
  by (simp add: builder_new_def builder_of_def bit_writer_default_def writer_of_def pack_bits_def div_ceil_def)

text \<open>An operation that stores the bits \<open>bs\<close> and the references \<open>rs\<close>, or fails when they do not fit.\<close>

definition stores :: "store_op \<Rightarrow> bool list \<Rightarrow> cell list \<Rightarrow> bool" where
  "stores op bs rs \<longleftrightarrow>
     (\<forall>bs0 rs0. length bs0 \<le> MAX_CELL_BITS \<longrightarrow> length rs0 \<le> MAX_CELL_REFERENCES \<longrightarrow>
        (if length bs0 + length bs \<le> MAX_CELL_BITS \<and> length rs0 + length rs \<le> MAX_CELL_REFERENCES
         then op (builder_of bs0 rs0) = Ok (builder_of (bs0 @ bs) (rs0 @ rs))
         else \<not> is_ok (op (builder_of bs0 rs0))))"

named_theorems stores_rules \<open>what each store operation appends to a builder\<close>

lemma storesD:
  assumes "stores op bs rs" "length bs0 \<le> MAX_CELL_BITS" "length rs0 \<le> MAX_CELL_REFERENCES"
  shows "op (builder_of bs0 rs0) = Ok b \<longleftrightarrow>
     length bs0 + length bs \<le> MAX_CELL_BITS \<and> length rs0 + length rs \<le> MAX_CELL_REFERENCES
       \<and> b = builder_of (bs0 @ bs) (rs0 @ rs)"
proof (cases "length bs0 + length bs \<le> MAX_CELL_BITS \<and> length rs0 + length rs \<le> MAX_CELL_REFERENCES")
  case True
  then have "op (builder_of bs0 rs0) = Ok (builder_of (bs0 @ bs) (rs0 @ rs))"
    using assms unfolding stores_def by simp
  then show ?thesis using True by auto
next
  case False
  then have "\<not> is_ok (op (builder_of bs0 rs0))" using assms unfolding stores_def by (auto split: if_splits)
  then show ?thesis using False by (auto simp: is_ok_iff)
qed

lemma stores_with_writer:
  assumes "\<And>bs0. length bs0 \<le> MAX_CELL_BITS \<Longrightarrow> f (writer_of bs0) =
     (if length bs0 + length bs \<le> MAX_CELL_BITS then Ok (writer_of (bs0 @ bs)) else Err e)"
  shows "stores (with_writer f) bs []"
  using assms by (auto simp: stores_def with_writer_def builder_of_def)

lemma stores_bit [stores_rules]: "stores (store_bit v) [v] []"
  unfolding store_bit_def by (rule stores_with_writer) (auto simp: write_bit_writer_of)

lemma uint_bits_ucast: "n \<le> LENGTH('a) \<Longrightarrow> uint_bits n (ucast (v :: 'a::len word) :: u64) = uint_bits n v"
  if "LENGTH('a) \<le> 64"
  using that by (intro nth_equalityI) (auto simp: nth_uint_bits bit_simps)

lemma unat_ucast_64: "LENGTH('a::len) \<le> 64 \<Longrightarrow> unat (ucast (v :: 'a word) :: u64) = unat v"
proof -
  assume "LENGTH('a) \<le> 64"
  then have "(2::nat) ^ LENGTH('a) \<le> 2 ^ 64" by (intro power_increasing) auto
  moreover have "unat v < 2 ^ LENGTH('a)" by (rule unsigned_less)
  ultimately have "unat v < 2 ^ 64" by linarith
  then show ?thesis by (simp add: unsigned_ucast_eq take_bit_nat_eq_self)
qed

lemma stores_u64 [stores_rules]: "n \<le> 64 \<Longrightarrow> unat v < 2 ^ n \<Longrightarrow> stores (store_u64 n v) (uint_bits n v) []"
  unfolding store_u64_def by (rule stores_with_writer) (simp add: write_uint_writer_of)

lemma stores_u8 [stores_rules]: "n \<le> 8 \<Longrightarrow> unat v < 2 ^ n \<Longrightarrow> stores (store_u8 n v) (uint_bits n v) []"
  using stores_u64 [of n "ucast v"] by (simp add: store_u8_def store_u64_def uint_bits_ucast unat_ucast_64)

lemma stores_u32 [stores_rules]: "n \<le> 32 \<Longrightarrow> unat v < 2 ^ n \<Longrightarrow> stores (store_u32 n v) (uint_bits n v) []"
  using stores_u64 [of n "ucast v"] by (simp add: store_u32_def store_u64_def uint_bits_ucast unat_ucast_64)

lemma stores_i32 [stores_rules]: "n \<le> 32 \<Longrightarrow> unat v < 2 ^ n \<Longrightarrow> stores (store_i32 n v) (uint_bits n v) []"
  using stores_u32 [of n v] by (simp add: store_i32_def store_u32_def)

lemma stores_slice [stores_rules]: "stores (store_slice xs) (to_bits xs) []"
  unfolding store_slice_def by (rule stores_with_writer) (simp add: write_bytes_writer_of)

lemma stores_reference [stores_rules]: "stores (store_reference c) [] [c]"
  by (auto simp: stores_def store_reference_def builder_of_def)

lemma stores_child [stores_rules]: "stores (store_child c) [] [c]"
  unfolding store_child_def by (rule stores_reference)

lemma stores_then:
  assumes "stores f bs rs" "stores g bs' rs'"
  shows "stores (\<lambda>b. and_then (f b) g) (bs @ bs') (rs @ rs')"
  unfolding stores_def
proof (intro allI impI)
  fix bs0 :: "bool list" and rs0 :: "cell list"
  assume le: "length bs0 \<le> MAX_CELL_BITS" "length rs0 \<le> MAX_CELL_REFERENCES"
  note f = storesD [OF assms(1) le]
  show "if length bs0 + length (bs @ bs') \<le> MAX_CELL_BITS \<and> length rs0 + length (rs @ rs') \<le> MAX_CELL_REFERENCES
     then and_then (f (builder_of bs0 rs0)) g = Ok (builder_of (bs0 @ bs @ bs') (rs0 @ rs @ rs'))
     else \<not> is_ok (and_then (f (builder_of bs0 rs0)) g)"
  proof (cases "length bs0 + length bs \<le> MAX_CELL_BITS \<and> length rs0 + length rs \<le> MAX_CELL_REFERENCES")
    case True
    then have fb: "f (builder_of bs0 rs0) = Ok (builder_of (bs0 @ bs) (rs0 @ rs))" using f by blast
    have le': "length (bs0 @ bs) \<le> MAX_CELL_BITS" "length (rs0 @ rs) \<le> MAX_CELL_REFERENCES" using True by simp_all
    show ?thesis using storesD [OF assms(2) le'] by (auto simp: fb is_ok_iff ac_simps)
  next
    case False
    then have "\<not> is_ok (f (builder_of bs0 rs0))" using f by (auto simp: is_ok_iff)
    then show ?thesis using False by (cases "f (builder_of bs0 rs0)") auto
  qed
qed

lemma stores_Nil [stores_rules]: "stores (store_chain []) [] []"
  by (simp add: stores_def store_chain_def)

lemma stores_Cons [stores_rules]:
  assumes "stores op bs rs" "stores (store_chain ops) bs' rs'"
  shows "stores (store_chain (op # ops)) (bs @ bs') (rs @ rs')"
  using stores_then [OF assms] by (simp add: store_chain_def [abs_def])

lemma stores_replicate [stores_rules]:
  "stores op bs [] \<Longrightarrow> stores (store_chain (replicate n op)) (concat (replicate n bs)) []"
  by (induction n) (auto intro: stores_Nil dest: stores_Cons)

lemma stores_append [stores_rules]:
  assumes "stores (store_chain ops) bs rs" "stores (store_chain ops') bs' rs'"
  shows "stores (store_chain (ops @ ops')) (bs @ bs') (rs @ rs')"
proof -
  have "store_chain (ops @ ops') = (\<lambda>b. and_then (store_chain ops b) (store_chain ops'))"
    by (rule ext) (simp add: store_chain_def [abs_def] try_fold_append)
  then show ?thesis using stores_then [OF assms] by simp
qed

lemma stores_map:
  "(\<And>x. x \<in> set xs \<Longrightarrow> stores (f x) (g x) (h x)) \<Longrightarrow>
     stores (store_chain (map f xs)) (concat (map g xs)) (concat (map h xs))"
  by (induction xs) (auto intro: stores_Nil stores_Cons)

lemma stores_maybe_reference [stores_rules]:
  "stores (store_maybe_reference c) [c \<noteq> None] (case c of None \<Rightarrow> [] | Some c \<Rightarrow> [c])"
proof (cases c)
  case None
  then show ?thesis using stores_bit [of False] by (simp add: store_maybe_reference_def [abs_def])
next
  case (Some c')
  then show ?thesis
    using stores_then [OF stores_bit [of True] stores_reference [of c']]
    by (simp add: store_maybe_reference_def [abs_def])
qed


section \<open>Big integers and addresses\<close>

lemma nat_bits_le: "nat_bits v \<le> n \<longleftrightarrow> v < 2 ^ n"
proof (induction n arbitrary: v)
  case 0
  then show ?case by (simp add: nat_bits.simps)
next
  case (Suc n)
  show ?case using Suc [of "v div 2"] by (cases "v = 0") (auto simp: nat_bits.simps [of v])
qed

lemma nat_to_bytes_be_bits: "0 < v \<Longrightarrow> length (nat_to_bytes_be v) = div_ceil (nat_bits v) 8"
proof (rule antisym)
  assume v: "0 < v"
  then have pos: "0 < nat_bits v" by (simp add: nat_bits.simps [of v])
  have iff: "length (nat_to_bytes_be v) \<le> k \<longleftrightarrow> nat_bits v \<le> 8 * k" if "0 < k" for k
    using nat_to_bytes_be_length [OF that, of v] nat_bits_le [of v "8 * k"] by (simp add: power_mult)
  have dc: "div_ceil (nat_bits v) 8 \<le> k \<longleftrightarrow> nat_bits v \<le> 8 * k" for k
    by (rule div_ceil_8_le)
  show "length (nat_to_bytes_be v) \<le> div_ceil (nat_bits v) 8"
    using iff [of "div_ceil (nat_bits v) 8"] dc pos by (simp add: div_ceil_def)
  have "0 < length (nat_to_bytes_be v)" by (simp add: nat_to_bytes_be_def nat_digits.simps [of v])
  then show "div_ceil (nat_bits v) 8 \<le> length (nat_to_bytes_be v)"
    unfolding dc using iff by blast
qed

lemma bit_octet: "x < 256 \<Longrightarrow> bit (a * 256 + x) i = (if i < 8 then bit x i else bit a (i - 8))" for a x :: nat
proof -
  assume x: "x < 256"
  have "take_bit 8 (a * 256 + x) = x" "drop_bit 8 (a * 256 + x) = a"
    using x by (simp_all add: take_bit_eq_mod drop_bit_eq_div)
  then have "bit x i \<longleftrightarrow> i < 8 \<and> bit (a * 256 + x) i" "bit a (i - 8) \<longleftrightarrow> bit (a * 256 + x) (8 + (i - 8))"
    by (metis bit_take_bit_iff) (metis \<open>drop_bit 8 (a * 256 + x) = a\<close> bit_drop_bit_eq comp_apply)
  then show ?thesis by simp
qed

lemma uint_bits_nat_from_bytes: "uint_bits (8 * length xs) (nat_from_bytes_be xs) = to_bits xs"
proof (induction xs rule: rev_induct)
  case Nil
  then show ?case by (simp add: uint_bits_def)
next
  case (snoc x xs)
  have x: "unat x < 256" using unsigned_less [of x] by simp
  show ?case
  proof (rule nth_equalityI)
    fix i assume "i < length (uint_bits (8 * length (xs @ [x])) (nat_from_bytes_be (xs @ [x])))"
    then have i: "i < 8 * length xs + 8" by simp
    have tb: "to_bits (xs @ [x]) = uint_bits (8 * length xs) (nat_from_bytes_be xs) @ uint_bits 8 x"
      by (simp add: to_bits_append to_bits_Cons snoc)
    show "uint_bits (8 * length (xs @ [x])) (nat_from_bytes_be (xs @ [x])) ! i = to_bits (xs @ [x]) ! i"
      unfolding tb nat_from_bytes_be_append
      using i x by (auto simp: nth_uint_bits nth_append bit_octet bit_unsigned_iff)
  qed simp
qed

lemma uint_bits_drop: "m \<le> n \<Longrightarrow> drop (n - m) (uint_bits n v) = uint_bits m v"
  by (rule nth_equalityI) (auto simp: nth_uint_bits)

lemma uint_bits_pad:
  fixes v :: nat
  assumes "m \<le> n" "v < 2 ^ m"
  shows "uint_bits n v = replicate (n - m) False @ uint_bits m v"
proof (rule nth_equalityI)
  have high: "\<not> bit v k" if "m \<le> k" for k
    using assms(2) that by (metis bit_take_bit_iff not_less take_bit_nat_eq_self)
  fix i assume "i < length (uint_bits n v)"
  then show "uint_bits n v ! i = (replicate (n - m) False @ uint_bits m v) ! i"
    using assms(1) high by (auto simp: nth_uint_bits nth_append)
qed (use assms in simp)

lemma concat_replicate_False: "concat (replicate n (replicate m False)) = replicate (n * m) False"
  by (induction n) (auto simp: replicate_add)

lemma high_byte_bits:
  fixes v :: nat
  defines "used \<equiv> nat_bits v" and "bytes \<equiv> nat_to_bytes_be v"
  defines "high \<equiv> if used = 0 then 0 else if used mod 8 = 0 then 8 else used mod 8"
  shows "drop (8 - high) (uint_bits 8 (hd bytes)) @ to_bits (tl bytes) = uint_bits used v"
proof (cases "v = 0")
  case True
  then show ?thesis by (simp add: high_def used_def bytes_def nat_bits.simps nat_to_bytes_be_def uint_bits_def)
next
  case False
  have ne: "bytes \<noteq> []" by (simp add: bytes_def nat_to_bytes_be_def nat_digits.simps [of v])
  have hb: "high \<le> 8" by (simp add: high_def)
  have pos: "0 < used" using False by (simp add: used_def nat_bits.simps [of v])
  have len: "length bytes = div_ceil used 8"
    using nat_to_bytes_be_bits [of v] False by (simp add: bytes_def used_def)
  obtain q r where qr: "used = 8 * q + r" "r < 8"
    by (metis mod_less_divisor mult_div_mod_eq zero_less_numeral)
  have L: "8 * length bytes = used + (8 - high)"
    using pos qr div_ceil_8 [of r q] by (auto simp: len high_def)
  have tb: "to_bits bytes = uint_bits 8 (hd bytes) @ to_bits (tl bytes)"
    using ne by (metis list.collapse to_bits_Cons)
  have "uint_bits (8 * length bytes) v = to_bits bytes"
    using uint_bits_nat_from_bytes [of bytes] by (simp add: bytes_def)
  then have "drop (8 - high) (to_bits bytes) = uint_bits used v"
    using uint_bits_drop [of used "8 * length bytes" v] L by simp
  then show ?thesis using hb by (simp add: tb)
qed

lemma stores_uint [stores_rules]:
  assumes "v < 2 ^ n"
  shows "stores (store_uint n v) (uint_bits n v) []"
proof -
  define used where "used = nat_bits v"
  define high where "high = (if used = 0 then 0 else if used mod 8 = 0 then 8 else used mod 8)"
  define bytes where "bytes = nat_to_bytes_be v"
  have used: "used \<le> n" "v < 2 ^ used" using assms nat_bits_le [of v] by (auto simp: used_def)
  have hb: "high \<le> 8" by (simp add: high_def)
  have bits: "drop (8 - high) (uint_bits 8 (hd bytes)) @ to_bits (tl bytes) = uint_bits used v"
    unfolding used_def high_def bytes_def by (rule high_byte_bits)
  have hi: "map (\<lambda>shift. [bit (hd bytes) shift]) (rev [0..<high]) = map (\<lambda>b. [b]) (drop (8 - high) (uint_bits 8 (hd bytes)))"
    using hb by (intro nth_equalityI) (auto simp: nth_uint_bits rev_nth)
  have single: "concat (map (\<lambda>b. [b]) xs) = xs" for xs :: "bool list" by (induction xs) auto
  have zero: "uint_bits 8 (0 :: u8) = replicate 8 False" by (intro nth_equalityI) (simp_all add: nth_uint_bits)
  have tail: "concat (map (\<lambda>b. uint_bits 8 b) xs) = to_bits xs" for xs :: bytes
    by (induction xs) (auto simp: to_bits_Cons)
  have nils: "concat (map (\<lambda>_. []) xs) = ([] :: cell list)" for xs :: "'x list" by simp
  have u8: "unat (b :: u8) < 2 ^ 8" for b using unsigned_less [of b] by simp
  let ?lz = "n - used"
  have "stores (store_chain (replicate (?lz div 8) (store_u8 8 0) @ replicate (?lz mod 8) (store_bit False)
        @ map (\<lambda>shift. store_bit (bit (hd bytes) shift)) (rev [0..<high]) @ map (store_u8 8) (tl bytes)))
      (concat (replicate (?lz div 8) (uint_bits 8 (0::u8))) @ concat (replicate (?lz mod 8) [False])
        @ concat (map (\<lambda>shift. [bit (hd bytes) shift]) (rev [0..<high])) @ concat (map (\<lambda>b. uint_bits 8 b) (tl bytes)))
      ([] @ [] @ concat (map (\<lambda>_. []) (rev [0..<high])) @ concat (map (\<lambda>_. []) (tl bytes)))"
    by (intro stores_append stores_replicate stores_map stores_u8 stores_bit u8) auto
  moreover have "concat (replicate (?lz div 8) (uint_bits 8 (0::u8))) @ concat (replicate (?lz mod 8) [False])
        = replicate ?lz False"
    using concat_replicate_False [of _ 1] by (simp add: zero concat_replicate_False replicate_add [symmetric])
  moreover have "store_uint n v = store_chain (replicate (?lz div 8) (store_u8 8 0) @ replicate (?lz mod 8) (store_bit False)
        @ map (\<lambda>shift. store_bit (bit (hd bytes) shift)) (rev [0..<high]) @ map (store_u8 8) (tl bytes))"
    using used(1) by (intro ext) (simp add: store_uint_def Let_def used_def bytes_def high_def bit_test)
  ultimately show ?thesis
    using bits uint_bits_pad [OF used]
    by (simp add: hi single tail nils append_assoc [symmetric] del: append_assoc)
qed


lemma uint_bits_word_inj:
  fixes v w :: "'a::len word"
  assumes "uint_bits n v = uint_bits n w" "unat v < 2 ^ n" "unat w < 2 ^ n"
  shows "v = w"
proof (rule bit_word_eqI)
  fix k assume "k < LENGTH('a)"
  show "bit v k = bit w k"
  proof (cases "k < n")
    case True
    have "uint_bits n v ! (n - 1 - k) = uint_bits n w ! (n - 1 - k)" using assms(1) by simp
    then show ?thesis using True by (simp add: nth_uint_bits)
  next
    case False
    then show ?thesis using word_high_bit_clear assms(2,3) by (metis not_less)
  qed
qed

lemma uint_bits_nat_inj:
  fixes v w :: nat
  assumes "uint_bits n v = uint_bits n w" "v < 2 ^ n" "w < 2 ^ n"
  shows "v = w"
proof -
  have "take_bit n v = take_bit n w"
  proof (rule bit_eqI)
    fix k
    have "uint_bits n v ! (n - 1 - k) = uint_bits n w ! (n - 1 - k)" using assms(1) by simp
    then show "bit (take_bit n v) k = bit (take_bit n w) k"
      by (cases "k < n") (auto simp: nth_uint_bits bit_take_bit_iff)
  qed
  then show ?thesis using assms(2,3) by (simp add: take_bit_nat_eq_self)
qed

text \<open>\<open>VarUInteger 16\<close>: four bits of length in bytes, then the value.\<close>

definition coins_len :: "nat \<Rightarrow> nat" where
  "coins_len v = (if v = 0 then 0 else length (nat_to_bytes_be v))"

definition coins_bits :: "nat \<Rightarrow> bool list" where
  "coins_bits v = uint_bits 4 (of_nat (coins_len v) :: u8) @ uint_bits (8 * coins_len v) v"

lemma coins_len_le: "coins_len v \<le> k \<longleftrightarrow> v < 2 ^ (8 * k)"
  using nat_to_bytes_be_length [of k v]
  by (cases "k = 0") (auto simp: coins_len_def power_mult nat_to_bytes_be_def nat_digits.simps [of v])

lemma coins_len_small: "v < 2 ^ 120 \<Longrightarrow> unat (of_nat (coins_len v) :: u8) = coins_len v \<and> coins_len v < 16"
proof -
  assume "v < 2 ^ 120"
  then have "coins_len v \<le> 15" using coins_len_le [of v 15] by simp
  then show ?thesis by (simp add: unat_of_nat take_bit_nat_eq_self)
qed

lemma length_coins_bits: "length (coins_bits v) = 4 + 8 * coins_len v"
  by (simp add: coins_bits_def)

lemma stores_coins [stores_rules]:
  assumes "v < 2 ^ 120"
  shows "stores (store_coins v) (coins_bits v) []"
proof (cases "v = 0")
  case True
  then show ?thesis
    using stores_u8 [of 4 0] by (simp add: store_coins_def [abs_def] coins_bits_def coins_len_def uint_bits_def)
next
  case False
  have v: "v < 2 ^ (8 * coins_len v)" using coins_len_le by blast
  have "stores (store_chain [store_u8 4 (of_nat (coins_len v)), store_uint (8 * coins_len v) v])
      (uint_bits 4 (of_nat (coins_len v) :: u8) @ uint_bits (8 * coins_len v) v @ []) ([] @ [] @ [])"
    using coins_len_small [OF assms] v by (intro stores_rules) simp_all
  then show ?thesis
    using False by (simp add: store_coins_def [abs_def] coins_bits_def coins_len_def Let_def mult.commute)
qed

lemma coins_bits_inj:
  assumes "v < 2 ^ 120" "w < 2 ^ 120" "coins_bits v @ r = coins_bits w @ s"
  shows "v = w \<and> r = s"
proof -
  have h: "uint_bits 4 (of_nat (coins_len v) :: u8) = uint_bits 4 (of_nat (coins_len w) :: u8)"
    and t: "uint_bits (8 * coins_len v) v @ r = uint_bits (8 * coins_len w) w @ s"
    using assms(3) by (simp_all add: coins_bits_def)
  from h have "(of_nat (coins_len v) :: u8) = of_nat (coins_len w)"
    using coins_len_small [OF assms(1)] coins_len_small [OF assms(2)] by (intro uint_bits_word_inj [of 4]) simp_all
  then have len: "coins_len v = coins_len w"
    using coins_len_small [OF assms(1)] coins_len_small [OF assms(2)] by metis
  have "v < 2 ^ (8 * coins_len w)" "w < 2 ^ (8 * coins_len w)"
    using coins_len_le [of v "coins_len w"] coins_len_le [of w "coins_len w"] len by simp_all
  then show ?thesis using t uint_bits_nat_inj unfolding len by auto
qed

definition address_bits :: "ton_address \<Rightarrow> bool list" where
  "address_bits a = [True, False, False] @ to_bits (addr_bytes a)"

lemma stores_null_address [stores_rules]: "stores store_null_address [False, False] []"
  using stores_u8 [of 2 0] by (simp add: store_null_address_def uint_bits_def numeral_2_eq_2)

lemma ucast_scast_u8: "(ucast (scast (b :: u8) :: u32) :: u8) = b"
  by (rule bit_word_eqI) (auto simp: bit_simps)

lemma stores_address [stores_rules]:
  assumes "addr_bytes a \<noteq> []"
  shows "stores (store_address a) (address_bits a) []"
proof -
  obtain b bs where a: "addr_bytes a = b # bs" using assms by (cases "addr_bytes a") auto
  have two: "uint_bits 2 (2 :: u8) = [True, False]" by (simp add: uint_bits_def numeral_2_eq_2)
  have "stores (store_chain [store_u8 2 2, store_bit False, store_u8 8 b, store_slice bs])
      (uint_bits 2 (2 :: u8) @ [False] @ uint_bits 8 b @ to_bits bs @ []) ([] @ [] @ [] @ [] @ [])"
    using unsigned_less [of b] by (intro stores_rules) simp_all
  then show ?thesis
    using a by (simp add: store_address_def addr_workchain_def addr_hash_part_def ucast_scast_u8
        address_bits_def to_bits_Cons two)
qed


section \<open>The reader as a list of bits\<close>

definition reads :: "bit_reader \<Rightarrow> bool list \<Rightarrow> bool" where
  "reads r bs \<longleftrightarrow> br_bit_len r \<le> 8 * length (br_bytes r)
     \<and> bs = drop (br_bit_position r) (take (br_bit_len r) (to_bits (br_bytes r)))"

definition skip_bits :: "nat \<Rightarrow> bit_reader \<Rightarrow> bit_reader" where
  "skip_bits n r = r\<lparr>br_bit_position := br_bit_position r + n\<rparr>"

lemma skip_bits_skip_bits [simp]: "skip_bits m (skip_bits n r) = skip_bits (n + m) r"
  by (simp add: skip_bits_def add.assoc)

lemma reads_skip: "reads r (xs @ bs) \<Longrightarrow> reads (skip_bits (length xs) r) bs"
proof -
  assume r: "reads r (xs @ bs)"
  then have "bs = drop (length xs) (drop (br_bit_position r) (take (br_bit_len r) (to_bits (br_bytes r))))"
    unfolding reads_def by (metis append_eq_conv_conj)
  then show ?thesis using r by (simp add: reads_def skip_bits_def add.commute)
qed

lemma reads_from_bits: "from_bits (pack_bits bs) (length bs) = Ok r \<Longrightarrow> reads r bs"
  using div_ceil_ge [of 8 "length bs"]
  by (auto simp: from_bits_def reads_def take_to_bits_pack split: if_splits)

lemma from_bits_pack: "\<exists>r. from_bits (pack_bits bs) (length bs) = Ok r \<and> reads r bs"
  using div_ceil_ge [of 8 "length bs"] by (auto simp: from_bits_def reads_def take_to_bits_pack mult.commute)

lemma read_bit_reads:
  assumes "reads r (b # bs)"
  shows "read_bit r = Ok (b, skip_bits 1 r)"
proof -
  let ?t = "take (br_bit_len r) (to_bits (br_bytes r))"
  have le: "br_bit_len r \<le> 8 * length (br_bytes r)" and d: "drop (br_bit_position r) ?t = b # bs"
    using assms by (auto simp: reads_def)
  then have p: "br_bit_position r < br_bit_len r"
    by (metis drop_eq_Nil2 length_take linorder_not_less list.distinct(1) min.absorb2 min_def length_to_bits)
  have "?t ! br_bit_position r = b" using d p le by (metis hd_drop_conv_nth length_take list.sel(1) min.absorb2 length_to_bits)
  then show ?thesis using p le by (simp add: read_bit_def bit_test nth_to_bits skip_bits_def Let_def)
qed

lemma read_bits_reads:
  "reads r (xs @ bs) \<Longrightarrow> read_bits (length xs) v r = Ok (foldl (\<lambda>v b. push_bit 1 v OR of_bool b) v xs, skip_bits (length xs) r)"
proof (induction xs arbitrary: r v)
  case Nil
  then show ?case by (simp add: skip_bits_def)
next
  case (Cons x xs)
  have "read_bit r = Ok (x, skip_bits 1 r)" using Cons.prems by (intro read_bit_reads) simp
  moreover have "reads (skip_bits 1 r) (xs @ bs)" using reads_skip [of r "[x]"] Cons.prems by simp
  ultimately show ?case using Cons.IH by simp
qed

lemma read_uint_reads:
  assumes "reads r (xs @ bs)" "length xs \<le> 64"
  shows "read_uint (length xs) r = Ok (bits_val xs, skip_bits (length xs) r)"
  using read_bits_reads [OF assms(1)] assms(2) by (simp add: read_uint_def bits_val_def)

lemma bit_bits_val: "length xs \<le> 64 \<Longrightarrow> bit (bits_val xs) k \<longleftrightarrow> k < length xs \<and> xs ! (length xs - 1 - k)"
proof (induction xs arbitrary: k rule: rev_induct)
  case Nil
  then show ?case by (simp add: bits_val_def)
next
  case (snoc x xs)
  have v: "bits_val (xs @ [x]) = push_bit 1 (bits_val xs) OR of_bool x" by (simp add: bits_val_def)
  have b: "bit (bits_val (xs @ [x])) k \<longleftrightarrow> (if k = 0 then x else k < 64 \<and> bit (bits_val xs) (k - 1))"
    unfolding v bit_or_iff bit_push_bit_iff by (auto simp: bit_simps)
  show ?case
  proof (cases "k = 0")
    case False
    then show ?thesis using b snoc.IH [of "k - 1"] snoc.prems by (auto simp: nth_append)
  qed (use b in simp)
qed

lemma bits_val_uint_bits:
  fixes v :: "'a::len word"
  assumes "n \<le> LENGTH('a)" "LENGTH('a) \<le> 64"
  shows "bits_val (uint_bits n v) = ucast (take_bit n v)"
  using assms by (intro bit_word_eqI) (auto simp: bit_bits_val nth_uint_bits bit_simps)

lemma read_word_reads:
  fixes v :: "'a::len word"
  assumes "reads r (uint_bits n v @ bs)" "n \<le> LENGTH('a)" "LENGTH('a) \<le> 64"
  shows "read_uint n r = Ok (ucast (take_bit n v), skip_bits n r) \<and> reads (skip_bits n r) bs"
  using read_uint_reads [OF assms(1)] reads_skip [OF assms(1)] assms(2,3) by (simp add: bits_val_uint_bits)

lemma ucast_ucast_u8: "(ucast (ucast (b :: u8) :: u64) :: u8) = b"
  by (rule bit_word_eqI) (auto simp: bit_simps)

lemma read_u8_reads:
  assumes "reads r (uint_bits 8 (b :: u8) @ bs)"
  shows "read_u8 r = Ok (b, skip_bits 8 r)" "reads (skip_bits 8 r) bs"
  using read_word_reads [OF assms] by (simp_all add: read_u8_def take_bit_word_eq_self ucast_ucast_u8)

section \<open>The reader on whole bytes\<close>

definition reader_at :: "bytes \<Rightarrow> bytes \<Rightarrow> bit_reader" where
  "reader_at pre bs = \<lparr>br_bytes = pre @ bs, br_bit_len = length (pre @ bs) * 8, br_bit_position = length pre * 8\<rparr>"

lemma reader_new_at: "reader_new bs = reader_at [] bs"
  by (simp add: reader_new_def reader_at_def)

lemma reads_reader_at: "reads (reader_at pre bs) (to_bits bs)"
  by (simp add: reads_def reader_at_def to_bits_append mult.commute)

lemma skip_reader_at: "skip_bits (8 * length xs) (reader_at pre (xs @ bs)) = reader_at (pre @ xs) bs"
  by (simp add: skip_bits_def reader_at_def)

lemma position_at [simp]: "position (reader_at pre bs) = length pre"
  by (simp add: position_def reader_at_def)

lemma remaining_at [simp]: "remaining (reader_at pre bs) = length bs"
  by (simp add: remaining_def reader_at_def br_remaining_bits_def div_ceil_def)

lemma read_u8_at [simp]: "read_u8 (reader_at pre (b # bs)) = Ok (b, reader_at (pre @ [b]) bs)"
  using read_u8_reads(1) [of "reader_at pre (b # bs)" b "to_bits bs"] reads_reader_at [of pre "b # bs"]
    skip_reader_at [of "[b]" pre bs] by (simp add: to_bits_Cons)

lemma read_bytes_at:
  assumes "length (pre @ xs) * 8 < 2 ^ 64"
  shows "read_bytes (length xs) (reader_at pre (xs @ bs)) = Ok (xs, reader_at (pre @ xs) bs)"
  using assms by (simp add: read_bytes_def reader_at_def usize_checked_mul_def usize_checked_add_def
      br_remaining_bits_def position_def Let_def)

text \<open>\<open>write_var_uint\<close> of \<open>raw_cell.rs\<close> and \<open>read_var_uint\<close> are inverse.\<close>

end
