(* ===== verification/Ton_Boc.thy ===== *)
theory Ton_Boc
  imports Ton_Bits "HOL-Library.List_Lexorder"
begin

unbundle bit_operations_syntax

text \<open>
  The bag of cells of \<open>core/crates/gem_ton/src/tvm\<close>: \<open>raw_cell.rs\<close> (a cell with its references
  as indices, on the wire), \<open>indexed_cell.rs\<close> (numbering the cells reachable from the roots so
  that references point to later cells), \<open>header.rs\<close> and \<open>bag.rs\<close> (the container format). The
  checksum of the \<open>crc\<close> crate and the hash function are arguments.

  A \<open>BTreeMap\<close> is an association list in ascending order of its keys; the \<open>RefCell\<close> entries are
  updated in place by \<open>set_index\<close>. The reordering loop of \<open>build_index\<close> has no bound of its own and
  is a \<open>partial_function\<close> into \<open>option\<close>: \<open>None\<close> stands for a loop that does not end.
\<close>

section \<open>Raw cells\<close>

record raw_cell =
  rc_data :: bytes
  rc_bit_len :: nat
  rc_references :: "nat list"

definition trailing_zeros :: "u8 \<Rightarrow> nat" where
  "trailing_zeros b = length (takeWhile (\<lambda>i. \<not> bit b i) [0..<8])"

definition unpad_cell_bits :: "bytes \<Rightarrow> bool \<Rightarrow> (bytes \<times> nat) option" where
  "unpad_cell_bits d full_bytes =
     (if d = [] then Some (d, 0)
      else if full_bytes then Some (d, length d * 8)
      else let tz = trailing_zeros (last d)
           in if tz \<ge> 8 then None
              else Some (butlast d @ [last d AND NOT (push_bit tz 1)], length d * 8 - (tz + 1)))"

fun read_many :: "nat \<Rightarrow> 'a read_op \<Rightarrow> 'a list read_op" where
  "read_many 0 f r = Ok ([], r)"
| "read_many (Suc n) f r = and_then (f r) (\<lambda>(x, r). and_then (read_many n f r) (\<lambda>(xs, r). Ok (x # xs, r)))"

definition raw_try_parse :: "nat \<Rightarrow> bit_reader \<Rightarrow> (raw_cell \<times> bit_reader) option" where
  "raw_try_parse ref_size r =
     Option.bind (ok (read_u8 r)) (\<lambda>(refs_descriptor, r).
     Option.bind (ok (read_u8 r)) (\<lambda>(bits_descriptor, r).
       let ref_count = unat (refs_descriptor AND 7);
           is_exotic = refs_descriptor AND 8 \<noteq> 0;
           has_hashes = refs_descriptor AND 16 \<noteq> 0;
           level_mask = drop_bit 5 refs_descriptor
       in if is_exotic \<or> has_hashes \<or> level_mask \<noteq> 0 then None
          else
            let data_size = unat (drop_bit 1 bits_descriptor + (bits_descriptor AND 1));
                full_bytes = (bits_descriptor AND 1 = 0)
            in Option.bind (ok (read_bytes data_size r)) (\<lambda>(d, r).
               Option.bind (unpad_cell_bits d full_bytes) (\<lambda>(d, bit_len).
               Option.bind (ok (read_many ref_count (read_var_uint ref_size) r)) (\<lambda>(references, r).
                 Some (\<lparr>rc_data = d, rc_bit_len = bit_len, rc_references = references\<rparr>, r))))))"

definition raw_parse :: "nat \<Rightarrow> raw_cell read_op" where
  "raw_parse ref_size r = ok_or (raw_try_parse ref_size r) (invalid ''invalid BoC cell'')"

definition raw_size :: "raw_cell \<Rightarrow> nat \<Rightarrow> nat" where
  "raw_size rc ref_size = 2 + div_ceil (rc_bit_len rc) 8 + length (rc_references rc) * ref_size"

text \<open>Writers append to a byte vector; the model gives the bytes that are appended.\<close>

definition write_var_uint :: "nat \<Rightarrow> nat \<Rightarrow> bytes" where
  "write_var_uint v sz = map (\<lambda>shift. of_nat (v div 2 ^ (shift * 8) mod 256)) (rev [0..<sz])"

definition raw_write :: "raw_cell \<Rightarrow> nat \<Rightarrow> bytes" where
  "raw_write rc ref_size =
     (let full_bytes = (rc_bit_len rc mod 8 = 0);
          data_len = div_ceil (rc_bit_len rc) 8
      in [of_nat (length (rc_references rc)), of_nat (data_len * 2 - (if full_bytes then 0 else 1))]
         @ (if \<not> full_bytes \<and> data_len > 0
            then take (data_len - 1) (rc_data rc)
                 @ [rc_data rc ! (data_len - 1) OR push_bit (8 - rc_bit_len rc mod 8 - 1) 1]
            else take data_len (rc_data rc))
         @ concat (map (\<lambda>reference. write_var_uint reference ref_size) (rc_references rc)))"

section \<open>Numbering the cells\<close>

record indexed_cell =
  ix_index :: nat
  ix_cell :: cell

type_synonym indexed_cells = "(bytes \<times> indexed_cell) list"

fun bt_insert :: "bytes \<Rightarrow> 'v \<Rightarrow> (bytes \<times> 'v) list \<Rightarrow> (bytes \<times> 'v) list" where
  "bt_insert k v [] = [(k, v)]"
| "bt_insert k v ((k', v') # xs) =
     (if k < k' then (k, v) # (k', v') # xs
      else if k = k' then (k, v) # xs
      else (k', v') # bt_insert k v xs)"

definition set_index :: "bytes \<Rightarrow> nat \<Rightarrow> indexed_cells \<Rightarrow> indexed_cells" where
  "set_index h n ic = map (\<lambda>(k, v). (k, if k = h then v\<lparr>ix_index := n\<rparr> else v)) ic"

definition index_cell :: "indexed_cells \<times> nat \<times> cell list \<Rightarrow> cell \<Rightarrow> indexed_cells \<times> nat \<times> cell list" where
  "index_cell s c = (case s of (ic, next_index, next_frontier) \<Rightarrow>
     if map_of ic (cell_hash c) \<noteq> None then (ic, next_index, next_frontier)
     else (bt_insert (cell_hash c) \<lparr>ix_index = next_index, ix_cell = c\<rparr> ic, next_index + 1,
           next_frontier @ cell_references c))"

primrec nodes :: "cell \<Rightarrow> nat" where
  "nodes (Cell d n rs dp h) = Suc (sum_list (map nodes rs))"

lemma index_cell_nodes:
  "sum_list (map nodes (snd (snd (foldl index_cell (ic, n, nf) cs)))) + length cs
     \<le> sum_list (map nodes nf) + sum_list (map nodes cs)"
proof (induction cs arbitrary: ic n nf)
  case (Cons c cs)
  have "nodes c = Suc (sum_list (map nodes (cell_references c)))" by (cases c) simp
  then show ?case
    using Cons.IH [of ic n nf] Cons.IH [of "bt_insert (cell_hash c) \<lparr>ix_index = n, ix_cell = c\<rparr> ic" "n + 1" "nf @ cell_references c"]
    by (simp add: index_cell_def)
qed simp

lemma index_frontier_nodes:
  assumes "foldl index_cell (ic, n, []) f = (ic', n', nf)"
  shows "f \<noteq> [] \<longrightarrow> sum_list (map nodes nf) < sum_list (map nodes f)"
  using index_cell_nodes [of ic n "[]" f] assms by (cases f) auto

function index_frontier :: "indexed_cells \<Rightarrow> nat \<Rightarrow> cell list \<Rightarrow> indexed_cells \<times> nat" where
  "index_frontier ic next_index frontier =
     (if frontier = [] then (ic, next_index)
      else case foldl index_cell (ic, next_index, []) frontier of
        (ic', next_index', next_frontier) \<Rightarrow> index_frontier ic' next_index' next_frontier)"
  by pat_completeness auto
termination
  by (relation "measure (\<lambda>(ic, n, f). sum_list (map nodes f))") (auto split: prod.splits dest: index_frontier_nodes)

declare index_frontier.simps [simp del]

definition reorder_reference :: "nat \<Rightarrow> indexed_cells \<times> nat \<times> bool \<Rightarrow> bytes \<Rightarrow> indexed_cells \<times> nat \<times> bool" where
  "reorder_reference parent_index s h = (case s of (ic, next_index, reordered) \<Rightarrow>
     (case map_of ic h of
        None \<Rightarrow> (ic, next_index, reordered)
      | Some reference \<Rightarrow>
          if ix_index reference < parent_index then (set_index h next_index ic, next_index + 1, True)
          else (ic, next_index, reordered)))"

definition reorder_parent :: "indexed_cells \<times> nat \<times> bool \<Rightarrow> bytes \<Rightarrow> indexed_cells \<times> nat \<times> bool" where
  "reorder_parent s h =
     (case map_of (fst s) h of
        None \<Rightarrow> s
      | Some parent \<Rightarrow>
          foldl (reorder_reference (ix_index parent)) s (map cell_hash (cell_references (ix_cell parent))))"

definition reorder_pass :: "indexed_cells \<Rightarrow> nat \<Rightarrow> indexed_cells \<times> nat \<times> bool" where
  "reorder_pass ic next_index = foldl reorder_parent (ic, next_index, False) (map fst ic)"

partial_function (option) reorder_loop :: "indexed_cells \<Rightarrow> nat \<Rightarrow> indexed_cells option" where
  "reorder_loop ic next_index =
     (case reorder_pass ic next_index of
        (ic', next_index', reordered) \<Rightarrow> if reordered then reorder_loop ic' next_index' else Some ic')"

declare reorder_loop.simps [code]

definition build_index :: "cell list \<Rightarrow> indexed_cells option" where
  "build_index roots = (case index_frontier [] 0 roots of (ic, next_index) \<Rightarrow> reorder_loop ic next_index)"

definition ordered_indexed_cells :: "indexed_cells \<Rightarrow> indexed_cells \<times> indexed_cell list" where
  "ordered_indexed_cells ic =
     (let ordered = sort_key (\<lambda>(_, v). ix_index v) ic
      in (foldl (\<lambda>ic (real_index, h). set_index h real_index ic) ic (enumerate 0 (map fst ordered)),
          map (\<lambda>(real_index, (_, v)). v\<lparr>ix_index := real_index\<rparr>) (enumerate 0 ordered)))"

definition raw_from_cell :: "indexed_cells \<Rightarrow> cell \<Rightarrow> raw_cell tvm_result" where
  "raw_from_cell ic c =
     and_then (traverse (\<lambda>r. ok_or (map_option ix_index (map_of ic (cell_hash r))) (invalid ''missing referenced cell''))
                 (cell_references c)) (\<lambda>references.
     Ok \<lparr>rc_data = cell_data c, rc_bit_len = cell_bit_len c, rc_references = references\<rparr>)"

section \<open>The container\<close>

definition BOC_MAGIC :: u32 where "BOC_MAGIC = 0xb5ee9c72"
definition MAX_CELLS :: nat where "MAX_CELLS = 4096"
definition MAX_REF_BYTES :: nat where "MAX_REF_BYTES = 4"
definition MAX_OFF_BYTES :: nat where "MAX_OFF_BYTES = 8"

record boc_header =
  has_idx :: bool
  has_crc32c :: bool
  ref_bytes :: nat
  off_bytes :: nat
  cells_count :: nat
  roots_count :: nat
  total_cells_size :: nat

definition header_try_parse :: "bit_reader \<Rightarrow> (boc_header \<times> bit_reader) option" where
  "header_try_parse r =
     Option.bind (ok (read_u32 r)) (\<lambda>(magic, r).
     if magic \<noteq> BOC_MAGIC then None
     else Option.bind (ok (read_u8 r)) (\<lambda>(flags, r).
       let rb = unat (flags AND 7)
       in if rb = 0 \<or> rb > MAX_REF_BYTES then None
          else Option.bind (ok (read_u8 r)) (\<lambda>(ob, r).
            let ob = unat ob
            in if ob = 0 \<or> ob > MAX_OFF_BYTES then None
               else Option.bind (ok (read_var_uint rb r)) (\<lambda>(cells, r).
                    Option.bind (ok (read_var_uint rb r)) (\<lambda>(roots, r).
                    Option.bind (ok (read_var_uint rb r)) (\<lambda>(absent, r).
                    Option.bind (ok (read_var_uint ob r)) (\<lambda>(total, r).
                      if cells = 0 \<or> cells > MAX_CELLS then None
                      else if roots = 0 \<or> roots > cells then None
                      else if roots + absent > cells then None
                      else Some (\<lparr>has_idx = (flags AND 0x80 \<noteq> 0), has_crc32c = (flags AND 0x40 \<noteq> 0),
                                  ref_bytes = rb, off_bytes = ob, cells_count = cells,
                                  roots_count = roots, total_cells_size = total\<rparr>, r))))))))"

definition header_parse :: "boc_header read_op" where
  "header_parse r = ok_or (header_try_parse r) (invalid ''invalid BoC header'')"

definition read_raw_cells :: "boc_header \<Rightarrow> raw_cell list read_op" where
  "read_raw_cells h r =
     (let start = position r
      in and_then (read_many (cells_count h) (raw_parse (ref_bytes h)) r) (\<lambda>(raw_cells, r).
         if position r - start \<noteq> total_cells_size h then Err (invalid ''BoC cell size does not match header'')
         else Ok (raw_cells, r)))"

record bag_of_cells = bag_roots :: "cell list"

definition from_root :: "cell \<Rightarrow> bag_of_cells" where
  "from_root root = \<lparr>bag_roots = [root]\<rparr>"

definition validate_crc32c :: "(bytes \<Rightarrow> u32) \<Rightarrow> bytes \<Rightarrow> bit_reader \<Rightarrow> bit_reader tvm_result" where
  "validate_crc32c crc32c bs r =
     and_then (read_u32_le r) (\<lambda>(expected, r).
     if length bs < 4 then Err (invalid ''invalid BoC length'')
     else if expected \<noteq> crc32c (take (length bs - 4) bs) then Err (invalid ''invalid BoC crc32c'')
     else Ok r)"

definition resolve_reference :: "nat \<Rightarrow> cell option list \<Rightarrow> nat \<Rightarrow> cell tvm_result" where
  "resolve_reference index cells reference =
     (if reference \<le> index then Err (invalid ''BoC references must point to later cells'')
      else if reference < length cells then ok_or (cells ! reference) (invalid ''BoC reference out of bounds'')
      else Err (invalid ''BoC reference out of bounds''))"

definition build_cell :: "(bytes \<Rightarrow> bytes) \<Rightarrow> raw_cell list \<Rightarrow> cell option list \<Rightarrow> nat \<Rightarrow> cell option list tvm_result" where
  "build_cell H raw_cells cells index =
     (let raw = raw_cells ! index
      in and_then (traverse (resolve_reference index cells) (rc_references raw)) (\<lambda>references.
         and_then (new_cell H (rc_data raw) (rc_bit_len raw) references) (\<lambda>c.
         Ok (cells[index := Some c]))))"

definition build_cell_tree :: "(bytes \<Rightarrow> bytes) \<Rightarrow> raw_cell list \<Rightarrow> cell list tvm_result" where
  "build_cell_tree H raw_cells =
     and_then (try_fold (build_cell H raw_cells) (replicate (length raw_cells) None) (rev [0..<length raw_cells]))
       (traverse (\<lambda>c. ok_or c (invalid ''BoC cell out of bounds'')))"

text \<open>
  \<open>cells_count * off_bytes\<close> is at most \<open>4096 * 8\<close>: the product of the index skip does not wrap.
\<close>

definition boc_parse :: "(bytes \<Rightarrow> bytes) \<Rightarrow> (bytes \<Rightarrow> u32) \<Rightarrow> bytes \<Rightarrow> bag_of_cells tvm_result" where
  "boc_parse H crc32c bs =
     and_then (header_parse (reader_new bs)) (\<lambda>(header, r).
     and_then (read_many (roots_count header) (read_var_uint (ref_bytes header)) r) (\<lambda>(root_indexes, r).
     and_then (if has_idx header then skip (cells_count header * off_bytes header) r else Ok r) (\<lambda>r.
     and_then (read_raw_cells header r) (\<lambda>(raw_cells, r).
     and_then (if has_crc32c header then validate_crc32c crc32c bs r else Ok r) (\<lambda>r.
     if remaining r \<noteq> 0 then Err (invalid ''unexpected trailing BoC bytes'')
     else and_then (build_cell_tree H raw_cells) (\<lambda>cells.
          and_then (traverse (\<lambda>index. if index < length cells then Ok (cells ! index)
                                      else Err (invalid ''BoC root out of bounds'')) root_indexes) (\<lambda>roots.
          Ok \<lparr>bag_roots = roots\<rparr>)))))))"

fun get_single_root :: "bag_of_cells \<Rightarrow> cell tvm_result" where
  "get_single_root bag = (case bag_roots bag of [root] \<Rightarrow> Ok root | _ \<Rightarrow> Err (invalid ''BoC must contain exactly one root''))"

text \<open>\<open>usize::BITS - leading_zeros\<close> is the number of significant bits.\<close>

definition bytes_needed :: "nat \<Rightarrow> nat" where
  "bytes_needed v = div_ceil (nat_bits (max v 1)) 8"

definition boc_body :: "raw_cell list \<Rightarrow> nat list \<Rightarrow> bool \<Rightarrow> bytes" where
  "boc_body raw_cells root_indexes with_crc32c =
     (let rb = bytes_needed (length raw_cells);
          total = sum_list (map (\<lambda>c. raw_size c rb) raw_cells);
          ob = bytes_needed (max total 1)
      in be_bytes 4 BOC_MAGIC
         @ [(if with_crc32c then push_bit 6 1 else 0) OR of_nat rb, of_nat ob]
         @ write_var_uint (length raw_cells) rb
         @ write_var_uint (length root_indexes) rb
         @ write_var_uint 0 rb
         @ write_var_uint total ob
         @ concat (map (\<lambda>i. write_var_uint i rb) root_indexes)
         @ concat (map (\<lambda>c. raw_write c rb) raw_cells))"

text \<open>\<open>None\<close>: the numbering loop does not end, and there is no result.\<close>

definition boc_serialize :: "(bytes \<Rightarrow> u32) \<Rightarrow> bag_of_cells \<Rightarrow> bool \<Rightarrow> bytes tvm_result option" where
  "boc_serialize crc32c bag with_crc32c =
     Option.bind (build_index (bag_roots bag)) (\<lambda>indexed_cells. Some (
       case ordered_indexed_cells indexed_cells of (indexed_cells, ordered_cells) \<Rightarrow>
       and_then (traverse (\<lambda>v. raw_from_cell indexed_cells (ix_cell v)) ordered_cells) (\<lambda>raw_cells.
       and_then (traverse (\<lambda>root. ok_or (map_option ix_index (map_of indexed_cells (cell_hash root)))
                                     (invalid ''missing BoC root'')) (bag_roots bag)) (\<lambda>root_indexes.
       let output = boc_body raw_cells root_indexes with_crc32c
       in Ok (output @ (if with_crc32c then le_bytes 4 (crc32c output) else []))))))"

end
