(* ===== verification/Ton_Numbering.thy ===== *)
theory Ton_Numbering
  imports Ton_Boc
begin

text \<open>
  \<open>build_index\<close> ends and numbers every cell before the cells it references: first on functions
  from keys to indices, then for the association lists of \<open>Ton_Boc\<close>.
\<close>

section \<open>Bumping an index function\<close>

fun bump :: "('k \<Rightarrow> nat) \<times> nat \<times> bool \<Rightarrow> 'k \<times> 'k \<Rightarrow> ('k \<Rightarrow> nat) \<times> nat \<times> bool" where
  "bump (f, n, re) (p, r) = (if f r < f p then (f(r := n), n + 1, True) else (f, n, re))"

definition fresh :: "'k set \<Rightarrow> ('k \<Rightarrow> nat) \<Rightarrow> nat \<Rightarrow> bool" where
  "fresh K f n \<longleftrightarrow> inj_on f K \<and> (\<forall>k\<in>K. f k < n)"

text \<open>The edges whose source has rank at least \<open>d\<close> already go upwards.\<close>

definition settled :: "('k \<Rightarrow> nat) \<Rightarrow> ('k \<times> 'k) set \<Rightarrow> nat \<Rightarrow> ('k \<Rightarrow> nat) \<Rightarrow> bool" where
  "settled rank E d f \<longleftrightarrow> (\<forall>(p, r)\<in>E. d \<le> rank p \<longrightarrow> f p < f r)"

lemma fresh_update: "fresh K f n \<Longrightarrow> fresh K (f(r := n)) (n + 1)"
  by (fastforce simp: fresh_def inj_on_def)

lemma fresh_bump: "fresh K f n \<Longrightarrow> bump (f, n, re) e = (f', n', re') \<Longrightarrow> fresh K f' n'"
  by (cases e) (auto split: if_splits dest: fresh_update)

lemma fresh_bumps: "fresh K f n \<Longrightarrow> foldl bump (f, n, re) es = (f', n', re') \<Longrightarrow> fresh K f' n'"
proof (induction es arbitrary: f n re)
  case (Cons e es)
  obtain f1 n1 re1 where s: "bump (f, n, re) e = (f1, n1, re1)" by (metis prod_cases3)
  then show ?case using Cons fresh_bump by (metis foldl_Cons)
qed simp

lemma bumps_mono:
  assumes "fresh K f n" "snd ` set es \<subseteq> K" "foldl bump (f, n, re) es = (f', n', re')"
  shows "f k \<le> f' k"
  using assms
proof (induction es arbitrary: f n re)
  case (Cons e es)
  obtain p r where e: "e = (p, r)" by (cases e)
  obtain f1 n1 re1 where s: "bump (f, n, re) e = (f1, n1, re1)" by (metis prod_cases3)
  have "f k \<le> f1 k" using s Cons.prems(1,2) by (fastforce simp: e fresh_def split: if_splits)
  also have "f1 k \<le> f' k"
    using Cons.IH [of f1 n1 re1] fresh_bump [OF Cons.prems(1) s] Cons.prems(2,3) s by simp
  finally show ?case .
qed simp

text \<open>
  One pass over all the edges settles one more rank: the keys of rank \<open>d\<close> and above are not
  renumbered, and the edges that leave them end up going upwards.
\<close>

lemma bumps_settle:
  assumes dec: "\<And>p r. (p, r) \<in> E \<Longrightarrow> rank r < rank p" and EK: "E \<subseteq> K \<times> K"
    and "set es \<subseteq> E" "fresh K f n" "settled rank E (Suc d) f" "foldl bump (f, n, re) es = (f', n', re')"
  shows "settled rank E (Suc d) f' \<and> (\<forall>k. d \<le> rank k \<longrightarrow> f' k = f k) \<and> settled rank (set es) d f'"
  using assms(3-)
proof (induction es arbitrary: f n re)
  case Nil
  then show ?case by (simp add: settled_def)
next
  case (Cons e es)
  obtain p r where e: "e = (p, r)" by (cases e)
  obtain f1 n1 re1 where s: "bump (f, n, re) e = (f1, n1, re1)" by (metis prod_cases3)
  have pr: "(p, r) \<in> E" "p \<in> K" "r \<in> K" "rank r < rank p" "p \<noteq> r"
    using Cons.prems(1) dec EK by (auto simp: e)
  have bumped: "rank p \<le> d" if "f r < f p"
    using Cons.prems(3) pr(1) that by (fastforce simp: settled_def)
  have f1: "\<forall>k. f k \<le> f1 k" "\<forall>k. d \<le> rank k \<longrightarrow> f1 k = f k" "f1 p < f1 r"
  proof -
    show "\<forall>k. f k \<le> f1 k" using bumps_mono [OF Cons.prems(2), of "[e]" re] pr s by (simp add: e)
    show "\<forall>k. d \<le> rank k \<longrightarrow> f1 k = f k" using s bumped pr(4) by (auto simp: e split: if_splits)
    have "f p \<noteq> f r" "f p < n" using Cons.prems(2) pr(2,3,5) by (auto simp: fresh_def inj_on_def)
    then show "f1 p < f1 r" using s pr(5) by (auto simp: e split: if_splits)
  qed
  have fr1: "fresh K f1 n1" by (rule fresh_bump [OF Cons.prems(2) s])
  have "settled rank E (Suc d) f1"
    unfolding settled_def
  proof safe
    fix p' r' assume E: "(p', r') \<in> E" and "Suc d \<le> rank p'"
    then have "f p' < f r'" "f1 p' = f p'" using Cons.prems(3) f1(2) by (auto simp: settled_def)
    then show "f1 p' < f1 r'" using f1(1) by (metis order_less_le_trans)
  qed
  moreover have fold: "foldl bump (f1, n1, re1) es = (f', n', re')" using Cons.prems(4) s by simp
  ultimately have IH: "settled rank E (Suc d) f'" "\<forall>k. d \<le> rank k \<longrightarrow> f' k = f1 k" "settled rank (set es) d f'"
    using Cons.IH [of f1 n1 re1] Cons.prems(1) fr1 by auto
  have "snd ` set es \<subseteq> K" using Cons.prems(1) EK by auto
  then have "f1 r \<le> f' r" by (rule bumps_mono [OF fr1 _ fold])
  then have "d \<le> rank p \<longrightarrow> f' p < f' r" using IH(2) f1(3) by (metis order_less_le_trans)
  then show ?case using IH f1(2) by (auto simp: settled_def e)
qed

lemma bumps_quiet:
  assumes "foldl bump (f, n, re) es = (f', n', False)"
  shows "f' = f \<and> n' = n \<and> \<not> re \<and> (\<forall>(p, r)\<in>set es. f p \<le> f r)"
  using assms
proof (induction es arbitrary: f n re)
  case (Cons e es)
  obtain p r where e: "e = (p, r)" by (cases e)
  show ?case
  proof (cases "f r < f p")
    case True
    then show ?thesis using Cons.IH [of "f(r := n)" "n + 1" True] Cons.prems by (simp add: e fun_upd_def)
  next
    case False
    then show ?thesis using Cons.IH [of f n re] Cons.prems by (auto simp: e)
  qed
qed simp

lemma bumps_settled:
  "\<forall>(p, r)\<in>set es. f p < f r \<Longrightarrow> foldl bump (f, n, re) es = (f, n, re)"
  by (induction es) auto


section \<open>The passes over the association list\<close>

definition ixf :: "indexed_cells \<Rightarrow> bytes \<Rightarrow> nat" where
  "ixf ic h = (case map_of ic h of None \<Rightarrow> 0 | Some v \<Rightarrow> ix_index v)"

definition shape :: "indexed_cells \<Rightarrow> (bytes \<times> cell) list" where
  "shape ic = map (\<lambda>(h, v). (h, ix_cell v)) ic"

definition keys :: "indexed_cells \<Rightarrow> bytes set" where
  "keys ic = fst ` set ic"

definition edges_from :: "(bytes \<times> cell) list \<Rightarrow> bytes \<Rightarrow> (bytes \<times> bytes) list" where
  "edges_from sh h = (case map_of sh h of None \<Rightarrow> [] | Some c \<Rightarrow> map (\<lambda>r. (h, cell_hash r)) (cell_references c))"

definition edges :: "(bytes \<times> cell) list \<Rightarrow> (bytes \<times> bytes) list" where
  "edges sh = concat (map (edges_from sh) (map fst sh))"

lemma map_of_set_index:
  "map_of (set_index h n ic) k = (if k = h then map_option (\<lambda>v. v\<lparr>ix_index := n\<rparr>) (map_of ic k) else map_of ic k)"
  by (induction ic) (auto simp: set_index_def)

lemma shape_set_index [simp]: "shape (set_index h n ic) = shape ic"
  by (auto simp: shape_def set_index_def)

lemma map_fst_shape [simp]: "map fst (shape ic) = map fst ic"
  by (auto simp: shape_def)

lemma map_of_shape: "map_of (shape ic) h = map_option ix_cell (map_of ic h)"
  by (induction ic) (auto simp: shape_def)

lemma keys_shape: "keys ic = fst ` set (shape ic)"
  by (force simp: keys_def shape_def)

lemma map_of_keys: "map_of ic h = None \<longleftrightarrow> h \<notin> keys ic"
  by (simp add: keys_def map_of_eq_None_iff)

lemma ixf_set_index: "h \<in> keys ic \<Longrightarrow> ixf (set_index h n ic) = (ixf ic)(h := n)"
  using map_of_keys [of ic h] by (auto simp: fun_eq_iff ixf_def map_of_set_index split: option.splits)

lemma reorder_reference_ixf:
  "r \<in> keys ic \<Longrightarrow> reorder_reference i (ic, n, re) r =
     (if ixf ic r < i then (set_index r n ic, n + 1, True) else (ic, n, re))"
  using map_of_keys [of ic r] by (auto simp: reorder_reference_def ixf_def split: option.splits)

lemma references_bump:
  assumes "foldl (reorder_reference (ixf ic p)) (ic, n, re) rs = (ic', n', re')" "set rs \<subseteq> keys ic" "p \<notin> set rs"
  shows "foldl bump (ixf ic, n, re) (map (Pair p) rs) = (ixf ic', n', re') \<and> shape ic' = shape ic"
  using assms
proof (induction rs arbitrary: ic n re)
  case (Cons r rs)
  then have r: "r \<in> keys ic" by simp
  show ?case
  proof (cases "ixf ic r < ixf ic p")
    case True
    let ?ic = "set_index r n ic"
    have same: "ixf ?ic p = ixf ic p" "keys ?ic = keys ic" "ixf ?ic = (ixf ic)(r := n)"
      using Cons.prems by (auto simp: ixf_set_index keys_shape)
    have "foldl (reorder_reference (ixf ?ic p)) (?ic, n + 1, True) rs = (ic', n', re')"
      using Cons.prems(1) True r same(1) by (simp add: reorder_reference_ixf)
    then show ?thesis using Cons.IH [of ?ic "n + 1" True] Cons.prems True same by (simp add: fun_upd_def)
  next
    case False
    then show ?thesis using Cons.IH [of ic n re] Cons.prems r by (simp add: reorder_reference_ixf)
  qed
qed simp

lemma parents_bump:
  assumes "foldl reorder_parent (ic, n, re) hs = (ic', n', re')"
    and "set (concat (map (edges_from (shape ic)) hs)) \<subseteq> {(p, r). r \<in> keys ic \<and> p \<noteq> r}" "set hs \<subseteq> keys ic"
  shows "foldl bump (ixf ic, n, re) (concat (map (edges_from (shape ic)) hs)) = (ixf ic', n', re') \<and> shape ic' = shape ic"
  using assms
proof (induction hs arbitrary: ic n re)
  case (Cons h hs)
  then obtain v where v: "map_of ic h = Some v" using map_of_keys [of ic h] by auto
  let ?rs = "map cell_hash (cell_references (ix_cell v))"
  have ef: "edges_from (shape ic) h = map (Pair h) ?rs"
    using v by (simp add: edges_from_def map_of_shape)
  obtain ic1 n1 re1 where s: "reorder_parent (ic, n, re) h = (ic1, n1, re1)" by (metis prod_cases3)
  then have "foldl (reorder_reference (ixf ic h)) (ic, n, re) ?rs = (ic1, n1, re1)"
    using v by (simp add: reorder_parent_def ixf_def)
  moreover have "set ?rs \<subseteq> keys ic" "h \<notin> set ?rs" using Cons.prems(2) ef by auto
  ultimately have 1: "foldl bump (ixf ic, n, re) (map (Pair h) ?rs) = (ixf ic1, n1, re1)" "shape ic1 = shape ic"
    using references_bump by blast+
  then show ?case
    using Cons.IH [of ic1 n1 re1] Cons.prems s ef by (simp add: keys_shape del: map_map)
qed simp

lemma pass_bump:
  assumes "reorder_pass ic n = (ic', n', re')" "set (edges (shape ic)) \<subseteq> {(p, r). r \<in> keys ic \<and> p \<noteq> r}"
  shows "foldl bump (ixf ic, n, False) (edges (shape ic)) = (ixf ic', n', re') \<and> shape ic' = shape ic"
  using parents_bump [of ic n False "map fst ic" ic' n' re'] assms
  by (simp add: reorder_pass_def edges_def keys_def)

definition ranked :: "(bytes \<Rightarrow> nat) \<Rightarrow> indexed_cells \<Rightarrow> bool" where
  "ranked rank ic \<longleftrightarrow> (\<forall>(p, r)\<in>set (edges (shape ic)). rank r < rank p \<and> p \<in> keys ic \<and> r \<in> keys ic)"

lemma ranked_edges: "ranked rank ic \<Longrightarrow> set (edges (shape ic)) \<subseteq> {(p, r). r \<in> keys ic \<and> p \<noteq> r}"
  by (fastforce simp: ranked_def)

lemma pass_facts:
  assumes "reorder_pass ic n = (ic', n', re)" "fresh (keys ic) (ixf ic) n" "ranked rank ic"
  shows "shape ic' = shape ic" "fresh (keys ic') (ixf ic') n'"
    and "settled rank (set (edges (shape ic))) (Suc d) (ixf ic) \<Longrightarrow> settled rank (set (edges (shape ic))) d (ixf ic')"
    and "settled rank (set (edges (shape ic))) 0 (ixf ic) \<Longrightarrow> \<not> re"
    and "\<not> re \<Longrightarrow> settled rank (set (edges (shape ic))) 0 (ixf ic')"
proof -
  let ?E = "set (edges (shape ic))"
  have b: "foldl bump (ixf ic, n, False) (edges (shape ic)) = (ixf ic', n', re)" and sh: "shape ic' = shape ic"
    using pass_bump [OF assms(1) ranked_edges [OF assms(3)]] by blast+
  show "shape ic' = shape ic" by (rule sh)
  show "fresh (keys ic') (ixf ic') n'" using fresh_bumps [OF assms(2) b] sh by (simp add: keys_shape)
  show "settled rank ?E d (ixf ic')" if "settled rank ?E (Suc d) (ixf ic)"
  proof -
    have "settled rank ?E (Suc d) (ixf ic') \<and> (\<forall>k. d \<le> rank k \<longrightarrow> ixf ic' k = ixf ic k) \<and> settled rank ?E d (ixf ic')"
      by (rule bumps_settle [OF _ _ order_refl assms(2) that b]) (use assms(3) in \<open>auto simp: ranked_def\<close>)
    then show ?thesis by blast
  qed
  show "\<not> re" if "settled rank ?E 0 (ixf ic)"
    using that b bumps_settled [of "edges (shape ic)" "ixf ic" n False] by (auto simp: settled_def)
  show "settled rank ?E 0 (ixf ic')" if "\<not> re"
  proof -
    have q: "ixf ic' = ixf ic" "\<forall>(p, r)\<in>?E. ixf ic p \<le> ixf ic r"
      using bumps_quiet [of "ixf ic" n False "edges (shape ic)" "ixf ic'" n'] b that by simp_all
    have "ixf ic p \<noteq> ixf ic r" if "(p, r) \<in> ?E" for p r
      using that assms(2,3) by (fastforce simp: fresh_def inj_on_def ranked_def)
    then show ?thesis using q by (fastforce simp: settled_def)
  qed
qed

text \<open>The loop ends, and every edge goes upwards.\<close>

lemma reorder_loop_ends:
  assumes "settled rank (set (edges (shape ic))) d (ixf ic)" "fresh (keys ic) (ixf ic) n" "ranked rank ic"
  shows "\<exists>ic'. reorder_loop ic n = Some ic' \<and> shape ic' = shape ic \<and> inj_on (ixf ic') (keys ic)
     \<and> settled rank (set (edges (shape ic))) 0 (ixf ic')"
  using assms
proof (induction d arbitrary: ic n)
  case 0
  obtain ic' n' re where p: "reorder_pass ic n = (ic', n', re)" by (metis prod_cases3)
  note f = pass_facts [OF p 0(2,3)]
  show ?case
    using p f(1,2) f(4) [OF 0(1)] f(5) by (subst reorder_loop.simps) (auto simp: fresh_def keys_shape)
next
  case (Suc d)
  obtain ic' n' re where p: "reorder_pass ic n = (ic', n', re)" by (metis prod_cases3)
  note f = pass_facts [OF p Suc.prems(2,3)]
  show ?case
  proof (cases re)
    case False
    then show ?thesis
      using p f(1,2) f(5) by (subst reorder_loop.simps) (auto simp: fresh_def keys_shape)
  next
    case True
    have "ranked rank ic'" using Suc.prems(3) f(1) by (simp add: ranked_def keys_shape)
    then have "\<exists>ic''. reorder_loop ic' n' = Some ic'' \<and> shape ic'' = shape ic' \<and> inj_on (ixf ic'') (keys ic')
       \<and> settled rank (set (edges (shape ic'))) 0 (ixf ic'')"
      using f(1,2) f(3) [OF Suc.prems(1)] by (intro Suc.IH) simp_all
    then show ?thesis using True f(1) p by (subst reorder_loop.simps) (auto simp: keys_shape)
  qed
qed


section \<open>Collecting the cells\<close>

primrec subcells :: "cell \<Rightarrow> cell list" where
  "subcells (Cell d n rs dp h) = Cell d n rs dp h # concat (map subcells rs)"

lemma self_in_subcells: "c \<in> set (subcells c)"
  by (cases c) simp

lemma subcells_closed: "x \<in> set (subcells c) \<Longrightarrow> set (cell_references x) \<subseteq> set (subcells c)"
proof (induction c)
  case (Cell d n rs dp h)
  show ?case
  proof (cases "x = Cell d n rs dp h")
    case True
    then show ?thesis using self_in_subcells by fastforce
  next
    case False
    then obtain r where "r \<in> set rs" "x \<in> set (subcells r)" using Cell.prems by auto
    then show ?thesis using Cell.IH by fastforce
  qed
qed

lemma nodes_reference: "r \<in> set (cell_references c) \<Longrightarrow> nodes r < nodes c"
proof (cases c)
  case (Cell d n rs dp h)
  assume "r \<in> set (cell_references c)"
  then have "nodes r \<le> sum_list (map nodes rs)" using Cell by (intro member_le_sum_list) auto
  then show ?thesis using Cell by simp
qed

lemma map_of_bt_insert: "map_of (bt_insert k v xs) = (map_of xs)(k \<mapsto> v)"
  by (induction k v xs rule: bt_insert.induct) auto

lemma bt_insert_new:
  "k \<notin> fst ` set xs \<Longrightarrow> set (bt_insert k v xs) = insert (k, v) (set xs) \<and>
     (distinct (map fst xs) \<longrightarrow> distinct (map fst (bt_insert k v xs)))"
  by (induction k v xs rule: bt_insert.induct) (auto simp: image_iff)

text \<open>What is known of the index while the frontier \<open>fr\<close> is still to be visited.\<close>

definition indexing :: "cell set \<Rightarrow> cell set \<Rightarrow> indexed_cells \<Rightarrow> nat \<Rightarrow> cell set \<Rightarrow> bool" where
  "indexing U R ic n fr \<longleftrightarrow>
     distinct (map fst ic) \<and> (\<forall>(h, c)\<in>set (shape ic). h = cell_hash c \<and> c \<in> U)
     \<and> fresh (keys ic) (ixf ic) n \<and> fr \<subseteq> U
     \<and> (\<forall>c. c \<in> R \<or> c \<in> (\<Union>p\<in>snd ` set (shape ic). set (cell_references p)) \<longrightarrow> cell_hash c \<in> keys ic \<or> c \<in> fr)"

lemma indexing_cell:
  assumes "indexing U R ic n (insert c fr)" "\<And>x. x \<in> U \<Longrightarrow> set (cell_references x) \<subseteq> U"
    and "index_cell (ic, n, nf) c = (ic', n', nf')"
  shows "\<exists>new. nf' = nf @ new \<and> indexing U R ic' n' (fr \<union> set new)"
proof (cases "cell_hash c \<in> keys ic")
  case True
  then have "ic' = ic" "n' = n" "nf' = nf @ []" using assms(3) map_of_keys by (auto simp: index_cell_def)
  then show ?thesis using assms(1) True by (intro exI [of _ "[]"]) (auto simp: indexing_def)
next
  case False
  let ?v = "\<lparr>ix_index = n, ix_cell = c\<rparr>"
  have eq: "ic' = bt_insert (cell_hash c) ?v ic" "n' = n + 1" "nf' = nf @ cell_references c"
    using assms(3) False map_of_keys [of ic "cell_hash c"] by (auto simp: index_cell_def)
  have new: "set ic' = insert (cell_hash c, ?v) (set ic)" "distinct (map fst ic) \<longrightarrow> distinct (map fst ic')"
    using bt_insert_new [of "cell_hash c" ic ?v] False by (simp_all add: eq keys_def)
  have sh: "set (shape ic') = insert (cell_hash c, c) (set (shape ic))" "keys ic' = insert (cell_hash c) (keys ic)"
    using new(1) by (simp_all add: shape_def keys_def)
  have f: "ixf ic' = (ixf ic)(cell_hash c := n)"
    by (auto simp: eq ixf_def map_of_bt_insert fun_eq_iff)
  have fr: "fresh (keys ic) (ixf ic) n" and cU: "c \<in> U" using assms(1) by (auto simp: indexing_def)
  have "fresh (keys ic') (ixf ic') n'"
    unfolding sh f eq(2) using fr False by (fastforce simp: fresh_def inj_on_def)
  moreover have "cell_hash x \<in> keys ic' \<or> x \<in> fr \<union> set (cell_references c)"
    if "x \<in> R \<or> x \<in> (\<Union>p\<in>snd ` set (shape ic'). set (cell_references p))" for x
    using that assms(1) unfolding indexing_def sh by auto
  moreover have "distinct (map fst ic')" "\<forall>(h, c)\<in>set (shape ic'). h = cell_hash c \<and> c \<in> U"
      "fr \<union> set (cell_references c) \<subseteq> U"
    using assms(1) assms(2) [OF cU] new(2) cU unfolding indexing_def sh by auto
  ultimately have "indexing U R ic' n' (fr \<union> set (cell_references c))" unfolding indexing_def by blast
  then show ?thesis using eq(3) by blast
qed

lemma indexing_layer:
  assumes "indexing U R ic n (set fr \<union> set nf)" "\<And>x. x \<in> U \<Longrightarrow> set (cell_references x) \<subseteq> U"
    and "foldl index_cell (ic, n, nf) fr = (ic', n', nf')"
  shows "indexing U R ic' n' (set nf')"
  using assms(1,3)
proof (induction fr arbitrary: ic n nf)
  case (Cons c fr)
  obtain ic1 n1 nf1 where s: "index_cell (ic, n, nf) c = (ic1, n1, nf1)" by (metis prod_cases3)
  obtain new where "nf1 = nf @ new" "indexing U R ic1 n1 (set fr \<union> set nf \<union> set new)"
    using indexing_cell [OF _ assms(2) s, of R "set fr \<union> set nf"] Cons.prems(1) by auto
  then show ?case using Cons.IH [of ic1 n1 nf1] Cons.prems(2) s by (simp add: Un_assoc)
qed simp

lemma indexing_frontier:
  assumes "indexing U R ic n (set fr)" "\<And>x. x \<in> U \<Longrightarrow> set (cell_references x) \<subseteq> U"
    and "index_frontier ic n fr = (ic', n')"
  shows "indexing U R ic' n' {}"
  using assms(1,3)
proof (induction ic n fr rule: index_frontier.induct)
  case (1 ic n fr)
  show ?case
  proof (cases "fr = []")
    case True
    then show ?thesis using "1.prems" by (simp add: index_frontier.simps)
  next
    case False
    obtain ic1 n1 nf where s: "foldl index_cell (ic, n, []) fr = (ic1, n1, nf)" by (metis prod_cases3)
    then have "index_frontier ic1 n1 nf = (ic', n')"
      using "1.prems"(2) False by (simp add: index_frontier.simps [of ic n fr])
    moreover have "indexing U R ic1 n1 (set nf)"
      using indexing_layer [OF _ assms(2) s, of R] "1.prems"(1) by simp
    ultimately show ?thesis using "1.IH" [OF False] s by metis
  qed
qed


section \<open>The numbering\<close>

text \<open>
  A finished numbering of a set of roots: one entry per hash, the roots and everything referenced
  have an entry, and references carry larger indices.
\<close>

definition numbered :: "cell set \<Rightarrow> cell set \<Rightarrow> indexed_cells \<Rightarrow> bool" where
  "numbered U R ic \<longleftrightarrow>
     distinct (map fst ic) \<and> inj_on (ixf ic) (keys ic)
     \<and> (\<forall>(h, c)\<in>set (shape ic). h = cell_hash c \<and> c \<in> U)
     \<and> (\<forall>c\<in>R. (cell_hash c, c) \<in> set (shape ic))
     \<and> (\<forall>(h, c)\<in>set (shape ic). \<forall>r\<in>set (cell_references c).
          (cell_hash r, r) \<in> set (shape ic) \<and> ixf ic h < ixf ic (cell_hash r))"

lemma set_edges:
  assumes "distinct (map fst ic)"
  shows "(p, r) \<in> set (edges (shape ic)) \<longleftrightarrow>
     (\<exists>c x. (p, c) \<in> set (shape ic) \<and> x \<in> set (cell_references c) \<and> r = cell_hash x)"
proof -
  have "distinct (map fst (shape ic))" using assms by simp
  then have m: "map_of (shape ic) h = Some c \<longleftrightarrow> (h, c) \<in> set (shape ic)" for h c by simp
  have "(p, r) \<in> set (edges (shape ic)) \<longleftrightarrow> p \<in> fst ` set (shape ic) \<and> (p, r) \<in> set (edges_from (shape ic) p)"
  proof -
    have "set (edges (shape ic)) = (\<Union>h\<in>fst ` set (shape ic). set (edges_from (shape ic) h))"
      by (simp add: edges_def del: map_fst_shape)
    moreover have "h = p" if "(p, r) \<in> set (edges_from (shape ic) h)" for h
      using that by (auto simp: edges_from_def split: option.splits)
    ultimately show ?thesis by blast
  qed
  also have "\<dots> \<longleftrightarrow> (\<exists>c. map_of (shape ic) p = Some c \<and> (\<exists>x\<in>set (cell_references c). r = cell_hash x))"
    using map_of_eq_None_iff [of "shape ic" p] by (cases "map_of (shape ic) p") (auto simp: edges_from_def)
  finally show ?thesis by (auto simp: m)
qed

lemma indexing_done:
  assumes "indexing U R ic n {}" "R \<subseteq> U" "\<And>x. x \<in> U \<Longrightarrow> set (cell_references x) \<subseteq> U" "inj_on cell_hash U"
    and "c \<in> R \<or> (\<exists>p. (cell_hash p, p) \<in> set (shape ic) \<and> c \<in> set (cell_references p))"
  shows "(cell_hash c, c) \<in> set (shape ic)"
proof -
  have cells: "h = cell_hash x \<and> x \<in> U" if "(h, x) \<in> set (shape ic)" for h x
    using assms(1) that by (auto simp: indexing_def)
  have "c \<in> U" using assms(2,3,5) cells by blast
  have "c \<in> R \<or> c \<in> (\<Union>p\<in>snd ` set (shape ic). set (cell_references p))" using assms(5) by force
  then have "cell_hash c \<in> keys ic" using assms(1) unfolding indexing_def by blast
  then obtain c' where c': "(cell_hash c, c') \<in> set (shape ic)" by (auto simp: keys_shape)
  then have "c' = c" using cells [OF c'] \<open>c \<in> U\<close> assms(4) by (metis inj_onD)
  then show ?thesis using c' by simp
qed

lemma indexing_ranked:
  assumes "distinct (map fst ic)" and cells: "\<And>h c. (h, c) \<in> set (shape ic) \<Longrightarrow> h = cell_hash c"
    and refs: "\<And>h c r. (h, c) \<in> set (shape ic) \<Longrightarrow> r \<in> set (cell_references c) \<Longrightarrow> (cell_hash r, r) \<in> set (shape ic)"
  shows "ranked (\<lambda>h. nodes (the (map_of (shape ic) h))) ic"
  unfolding ranked_def
proof safe
  have "distinct (map fst (shape ic))" using assms(1) by simp
  then have rk: "nodes (the (map_of (shape ic) h)) = nodes c" if "(h, c) \<in> set (shape ic)" for h c
    using that by simp
  fix p r assume "(p, r) \<in> set (edges (shape ic))"
  then obtain c x where e: "(p, c) \<in> set (shape ic)" "x \<in> set (cell_references c)" "r = cell_hash x"
    using set_edges [OF assms(1)] by blast
  then have x: "(r, x) \<in> set (shape ic)" using refs by blast
  show "nodes (the (map_of (shape ic) r)) < nodes (the (map_of (shape ic) p))"
    unfolding rk [OF e(1)] rk [OF x] using e(2) by (rule nodes_reference)
  show "p \<in> keys ic" "r \<in> keys ic" using e(1) x by (force simp: keys_shape)+
qed

lemma settled_top: "\<exists>d. settled rank (set es) d f"
proof
  have "rank p \<le> Max (rank ` fst ` set es)" if "(p, r) \<in> set es" for p r
    using that by (force intro!: Max_ge)
  then show "settled rank (set es) (Suc (Max (rank ` fst ` set es))) f" by (fastforce simp: settled_def)
qed

lemma build_index_numbered:
  assumes "set roots \<subseteq> U" "\<And>x. x \<in> U \<Longrightarrow> set (cell_references x) \<subseteq> U" "inj_on cell_hash U"
  shows "\<exists>ic. build_index roots = Some ic \<and> numbered U (set roots) ic"
proof -
  obtain ic n where i: "index_frontier [] 0 roots = (ic, n)" by (metis surj_pair)
  have "indexing U (set roots) [] 0 (set roots)"
    using assms(1) by (auto simp: indexing_def fresh_def keys_def shape_def)
  then have ix: "indexing U (set roots) ic n {}" by (rule indexing_frontier [OF _ assms(2) i])
  have dist: "distinct (map fst ic)" and cells: "\<And>h c. (h, c) \<in> set (shape ic) \<Longrightarrow> h = cell_hash c \<and> c \<in> U"
    and fr: "fresh (keys ic) (ixf ic) n"
    using ix by (auto simp: indexing_def)
  note entry = indexing_done [OF ix assms]
  have refs: "(cell_hash r, r) \<in> set (shape ic)" if "(h, c) \<in> set (shape ic)" "r \<in> set (cell_references c)" for h c r
    using entry [of r] cells that by blast
  let ?rank = "\<lambda>h. nodes (the (map_of (shape ic) h))"
  have "ranked ?rank ic" by (rule indexing_ranked [OF dist]) (use cells refs in blast)+
  then obtain ic' where ic': "reorder_loop ic n = Some ic'" "shape ic' = shape ic" "inj_on (ixf ic') (keys ic)"
      "settled ?rank (set (edges (shape ic))) 0 (ixf ic')"
    using reorder_loop_ends [OF _ fr] settled_top [of ?rank "edges (shape ic)" "ixf ic"] by blast
  have "map fst ic' = map fst ic" using ic'(2) by (metis map_fst_shape)
  moreover have "ixf ic' h < ixf ic' (cell_hash r)" if "(h, c) \<in> set (shape ic)" "r \<in> set (cell_references c)" for h c r
    using ic'(4) that set_edges [OF dist] unfolding settled_def by blast
  ultimately have "numbered U (set roots) ic'"
    unfolding numbered_def using ic'(2,3) dist cells entry refs by (auto simp: keys_shape)
  then show ?thesis using i ic'(1) by (auto simp: build_index_def)
qed

end
