(* ===== verification/Ton_Roundtrip.thy ===== *)
theory Ton_Roundtrip
  imports Ton_Numbering
begin

unbundle bit_operations_syntax

text \<open>
  Parsing a serialized bag of cells gives the bag back.
\<close>

section \<open>Integers of a given number of bytes\<close>

lemma length_write_var_uint [simp]: "length (write_var_uint v sz) = sz"
  by (simp add: write_var_uint_def)

lemma write_var_uint_Suc: "write_var_uint v (Suc sz) = write_var_uint (v div 256) sz @ [of_nat (v mod 256)]"
proof -
  have "rev [0..<Suc sz] = map Suc (rev [0..<sz]) @ [0]"
    by (metis map_Suc_upt rev.simps(2) rev_map upt_conv_Cons zero_less_Suc)
  then show ?thesis
    by (simp add: write_var_uint_def div_mult2_eq power_add mult.commute)
qed

lemma bit_of_nat_word: "bit (of_nat v :: 'a::len word) k \<longleftrightarrow> k < LENGTH('a) \<and> bit v k"
  by (simp add: bit_simps)

lemma var_uint_value:
  "v < 2 ^ (8 * sz) \<Longrightarrow> sz \<le> 8 \<Longrightarrow>
     foldl (\<lambda>acc byte. push_bit 8 acc OR ucast byte) (0 :: u64) (write_var_uint v sz) = of_nat v"
proof (induction sz arbitrary: v)
  case 0
  then show ?case by (simp add: write_var_uint_def)
next
  case (Suc sz)
  have "v div 256 < 2 ^ (8 * sz)" using Suc.prems(1) by (simp add: less_mult_imp_div_less power_add mult.commute)
  then have IH: "foldl (\<lambda>acc byte. push_bit 8 acc OR ucast byte) (0 :: u64) (write_var_uint (v div 256) sz) = of_nat (v div 256)"
    using Suc by simp
  have "push_bit 8 (of_nat (v div 256)) OR ucast (of_nat (v mod 256) :: u8) = (of_nat v :: u64)"
  proof (rule bit_word_eqI)
    fix k assume "k < LENGTH(64)"
    then have k: "k < 64" by simp
    have b: "bit v k \<longleftrightarrow> (if k < 8 then bit (v mod 256) k else bit (v div 256) (k - 8))"
      using bit_octet [of "v mod 256" "v div 256" k] by simp
    show "bit (push_bit 8 (of_nat (v div 256)) OR ucast (of_nat (v mod 256) :: u8) :: u64) k = bit (of_nat v :: u64) k"
      using k unfolding bit_or_iff bit_push_bit_iff bit_ucast_iff bit_of_nat_word b by auto
  qed
  then show ?case using IH by (simp add: write_var_uint_Suc)
qed

lemma read_var_uint_at:
  assumes "v < 2 ^ (8 * sz)" "sz \<le> 8" "length pre < 2 ^ 60"
  shows "read_var_uint sz (reader_at pre (write_var_uint v sz @ rest)) = Ok (v, reader_at (pre @ write_var_uint v sz) rest)"
proof -
  have "(2::nat) ^ (8 * sz) \<le> 2 ^ 64" using assms(2) by (intro power_increasing) auto
  then have "v < 2 ^ 64" using assms(1) by linarith
  then have "unat (of_nat v :: u64) = v" by (rule unat_of_nat_u64)
  moreover have "length (pre @ write_var_uint v sz) * 8 < 2 ^ 64" using assms(2,3) by simp
  ultimately show ?thesis
    using read_bytes_at [of pre "write_var_uint v sz" rest] var_uint_value [OF assms(1,2)]
    by (simp add: read_var_uint_def)
qed

lemma read_many_at:
  assumes "\<And>pre rest x. x \<in> set xs \<Longrightarrow> length pre < B \<Longrightarrow> f (reader_at pre (w x @ rest)) = Ok (x, reader_at (pre @ w x) rest)"
    and "length pre + length (concat (map w xs)) < B"
  shows "read_many (length xs) f (reader_at pre (concat (map w xs) @ rest)) = Ok (xs, reader_at (pre @ concat (map w xs)) rest)"
  using assms
proof (induction xs arbitrary: pre)
  case (Cons x xs)
  have "f (reader_at pre (w x @ concat (map w xs) @ rest)) = Ok (x, reader_at (pre @ w x) (concat (map w xs) @ rest))"
    using Cons.prems by simp
  moreover have "read_many (length xs) f (reader_at (pre @ w x) (concat (map w xs) @ rest))
      = Ok (xs, reader_at ((pre @ w x) @ concat (map w xs)) rest)"
    using Cons.prems by (intro Cons.IH) simp_all
  ultimately show ?case by simp
qed simp

section \<open>One cell on the wire\<close>

definition canonical :: "bytes \<Rightarrow> nat \<Rightarrow> bool" where
  "canonical d n \<longleftrightarrow> length d = div_ceil n 8 \<and> pack_bits (take n (to_bits d)) = d"

lemma canonical_pack: "canonical (pack_bits bs) (length bs)"
  by (simp add: canonical_def take_to_bits_pack)

lemma canonical_octets: "canonical d (8 * length d)"
  by (simp add: canonical_def div_ceil_def)

lemma canonical_last:
  assumes "canonical d (8 * q + m)" "0 < m" "m < 8" "bit (d ! q) j"
  shows "j < 8 \<and> 7 - j < m"
proof -
  let ?n = "8 * q + m"
  have dc: "div_ceil ?n 8 = Suc q" using assms(2,3) div_ceil_8 [of m q] by simp
  have len: "length (take ?n (to_bits d)) = ?n"
    using assms(1) div_ceil_ge [of 8 ?n] by (simp add: canonical_def)
  have "bit (pack_bits (take ?n (to_bits d)) ! q) j" using assms(1,4) by (simp add: canonical_def)
  then show ?thesis
    using bit_pack_bits [of q "take ?n (to_bits d)" j] len dc by simp
qed

lemma trailing_zeros_eq:
  assumes "bit b t" "\<And>i. i < t \<Longrightarrow> \<not> bit b i"
  shows "trailing_zeros b = t"
proof -
  have t: "t < 8" using assms(1) bit_imp_le_length [of b t] by simp
  have "[0..<8] = [0..<t] @ t # [Suc t..<8]" using t by (metis less_imp_add_positive upt_add_eq_append upt_conv_Cons zero_le)
  moreover have "takeWhile (\<lambda>i. \<not> bit b i) ([0..<t] @ t # [Suc t..<8]) = [0..<t] @ takeWhile (\<lambda>i. \<not> bit b i) (t # [Suc t..<8])"
    by (rule takeWhile_append2) (use assms(2) in auto)
  ultimately show ?thesis using assms(1) by (simp add: trailing_zeros_def)
qed

lemma bit_marker: "bit (push_bit k 1 :: u8) j \<longleftrightarrow> k < 8 \<and> j = k"
  unfolding bit_push_bit_iff bit_1_iff by auto

lemma serialized_bits_snoc:
  assumes "0 < m" "m < 8"
  shows "serialized_bits (xs @ [b]) (8 * length xs + m) = xs @ [b OR push_bit (8 - m - 1) 1]"
proof -
  have dc: "div_ceil (8 * length xs + m) 8 = Suc (length xs)" using assms div_ceil_8 [of m "length xs"] by simp
  show ?thesis using assms by (simp add: serialized_bits_def dc Let_def list_update_append)
qed

lemma unpad_serialized_bits:
  assumes "canonical d n"
  shows "unpad_cell_bits (serialized_bits d n) (n mod 8 = 0) = Some (d, n)"
proof -
  obtain q m where n: "n = 8 * q + m" "m < 8"
    by (metis mod_less_divisor mult_div_mod_eq zero_less_numeral)
  have len: "length d = (if m = 0 then q else Suc q)" using assms n div_ceil_8 [of m q] by (simp add: canonical_def)
  show ?thesis
  proof (cases "m = 0")
    case True
    then show ?thesis using n len by (auto simp: serialized_bits_def unpad_cell_bits_def div_ceil_def Let_def)
  next
    case False
    then obtain b where d: "d = butlast d @ [b]" "length (butlast d) = q"
      using len by (metis append_butlast_last_id diff_Suc_1 length_butlast length_greater_0_conv zero_less_Suc)
    have low: "7 - j < m" if "bit b j" for j
    proof -
      have "d ! q = b" using d by (metis nth_append_length)
      then show ?thesis using canonical_last [of d q m j] assms n False that by simp
    qed
    let ?mk = "push_bit (8 - m - 1) 1 :: u8"
    have bits: "bit (b OR ?mk) j \<longleftrightarrow> bit b j \<or> j = 7 - m" for j
      using n(2) False unfolding bit_or_iff bit_marker by auto
    have tz: "trailing_zeros (b OR ?mk) = 7 - m"
    proof (rule trailing_zeros_eq)
      show "bit (b OR ?mk) (7 - m)" unfolding bits by simp
      show "\<not> bit (b OR ?mk) i" if "i < 7 - m" for i
        using low [of i] that unfolding bits by auto
    qed
    have "(b OR ?mk) AND NOT (push_bit (7 - m) 1) = b"
    proof (rule bit_word_eqI)
      fix j assume "j < LENGTH(8)"
      then show "bit ((b OR ?mk) AND NOT (push_bit (7 - m) 1)) j = bit b j"
        using low [of j] n(2) False unfolding bit_and_iff bit_not_iff bits bit_marker by auto
    qed
    moreover have "serialized_bits d n = butlast d @ [b OR ?mk]"
      using serialized_bits_snoc [of m "butlast d" b] n False d by simp
    moreover have "Suc (length (butlast d)) * 8 - (7 - m + 1) = n" using d n False by simp
    ultimately show ?thesis using tz n False d(1) by (simp add: unpad_cell_bits_def Let_def)
  qed
qed

lemma length_serialized_bits: "length d = div_ceil n 8 \<Longrightarrow> length (serialized_bits d n) = div_ceil n 8"
  by (simp add: serialized_bits_def Let_def)

definition raw_ok :: "nat \<Rightarrow> raw_cell \<Rightarrow> bool" where
  "raw_ok rb rc \<longleftrightarrow> length (rc_references rc) \<le> MAX_CELL_REFERENCES \<and> rc_bit_len rc \<le> MAX_CELL_BITS
     \<and> canonical (rc_data rc) (rc_bit_len rc) \<and> (\<forall>r\<in>set (rc_references rc). r < 2 ^ (8 * rb))"

definition descriptor :: "nat \<Rightarrow> nat" where
  "descriptor n = div_ceil n 8 * 2 - (if n mod 8 = 0 then 0 else 1)"

lemma raw_write_eq:
  assumes "canonical (rc_data rc) (rc_bit_len rc)"
  shows "raw_write rc rb = [of_nat (length (rc_references rc)), of_nat (descriptor (rc_bit_len rc))]
     @ serialized_bits (rc_data rc) (rc_bit_len rc) @ concat (map (\<lambda>r. write_var_uint r rb) (rc_references rc))"
proof -
  obtain q m where n: "rc_bit_len rc = 8 * q + m" "m < 8"
    by (metis mod_less_divisor mult_div_mod_eq zero_less_numeral)
  have len: "length (rc_data rc) = (if m = 0 then q else Suc q)" "div_ceil (rc_bit_len rc) 8 = length (rc_data rc)"
    using assms n div_ceil_8 [of m q] by (simp_all add: canonical_def)
  show ?thesis
  proof (cases "m = 0")
    case True
    then show ?thesis using n len by (auto simp: raw_write_def serialized_bits_def descriptor_def Let_def)
  next
    case False
    then obtain b where d: "rc_data rc = butlast (rc_data rc) @ [b]" "length (butlast (rc_data rc)) = q"
      using len by (metis append_butlast_last_id diff_Suc_1 length_butlast length_greater_0_conv zero_less_Suc)
    have "rc_data rc ! q = b" "take q (rc_data rc) = butlast (rc_data rc)"
      using d by (metis nth_append_length, metis append_eq_conv_conj)
    then show ?thesis
      using serialized_bits_snoc [of m "butlast (rc_data rc)" b] n False d len
      by (simp add: raw_write_def descriptor_def Let_def)
  qed
qed

lemma refs_descriptor:
  assumes "n \<le> (4::nat)"
  shows "unat ((of_nat n :: u8) AND 7) = n" "(of_nat n :: u8) AND 8 = 0" "(of_nat n :: u8) AND 16 = 0"
    "drop_bit 5 (of_nat n :: u8) = 0"
proof -
  have "n = 0 \<or> n = 1 \<or> n = 2 \<or> n = 3 \<or> n = 4" using assms by auto
  then show "unat ((of_nat n :: u8) AND 7) = n" "(of_nat n :: u8) AND 8 = 0" "(of_nat n :: u8) AND 16 = 0"
    "drop_bit 5 (of_nat n :: u8) = 0" by (elim disjE; simp)+
qed

lemma bits_descriptor_bytes:
  assumes "n \<le> MAX_CELL_BITS"
  shows "unat (drop_bit 1 (of_nat (descriptor n) :: u8) + ((of_nat (descriptor n) :: u8) AND 1)) = div_ceil n 8"
    and "(of_nat (descriptor n) :: u8) AND 1 = 0 \<longleftrightarrow> n mod 8 = 0"
proof -
  obtain q m where n: "n = 8 * q + m" "m < 8"
    by (metis mod_less_divisor mult_div_mod_eq zero_less_numeral)
  let ?d = "of_nat (descriptor n) :: u8"
  have dc: "div_ceil n 8 = (if m = 0 then q else Suc q)" using n div_ceil_8 [of m q] by simp
  have q: "q < 128" using assms n by (simp add: MAX_CELL_BITS_def)
  have d: "descriptor n = (if m = 0 then 2 * q else 2 * q + 1)" using n dc by (simp add: descriptor_def)
  then have u: "unat ?d = descriptor n" using q by (simp add: unat_of_nat take_bit_nat_eq_self)
  have "unat (?d AND 1) = descriptor n mod 2"
    by (simp add: and_one_eq unat_mod_distrib u)
  moreover have "unat (drop_bit 1 ?d) = descriptor n div 2" by (simp add: unat_drop_bit_div u)
  ultimately show "unat (drop_bit 1 ?d + (?d AND 1)) = div_ceil n 8"
    using d dc q by (subst unat_add_le) simp_all
  show "?d AND 1 = 0 \<longleftrightarrow> n mod 8 = 0"
    using \<open>unat (?d AND 1) = descriptor n mod 2\<close> d n by (simp add: word_unat_eq_iff)
qed

lemma raw_try_parse_at:
  assumes "raw_ok rb rc" "rb \<le> 8" "length pre < 2 ^ 59"
  shows "raw_try_parse rb (reader_at pre (raw_write rc rb @ rest)) = Some (rc, reader_at (pre @ raw_write rc rb) rest)"
proof -
  let ?n = "rc_bit_len rc" and ?d1 = "of_nat (length (rc_references rc)) :: u8" and ?d2 = "of_nat (descriptor (rc_bit_len rc)) :: u8"
  let ?sb = "serialized_bits (rc_data rc) ?n" and ?refs = "concat (map (\<lambda>r. write_var_uint r rb) (rc_references rc))"
  have ok: "length (rc_references rc) \<le> 4" "?n \<le> MAX_CELL_BITS" "canonical (rc_data rc) ?n"
    using assms(1) by (auto simp: raw_ok_def MAX_CELL_REFERENCES_def)
  have lsb: "length ?sb = div_ceil ?n 8" using ok(3) by (simp add: length_serialized_bits canonical_def)
  then have small: "length ?sb \<le> 128" using ok(2) div_ceil_8_le [of ?n 128] by (simp add: MAX_CELL_BITS_def)
  have "length (pre @ [?d1, ?d2]) * 8 + length ?sb * 8 < 2 ^ 64" using assms(3) small by simp
  then have rd: "read_bytes (div_ceil ?n 8) (reader_at (pre @ [?d1, ?d2]) (?sb @ ?refs @ rest))
      = Ok (?sb, reader_at (pre @ [?d1, ?d2] @ ?sb) (?refs @ rest))"
    using read_bytes_at [of "pre @ [?d1, ?d2]" ?sb "?refs @ rest"] lsb by simp
  have lrefs: "length ?refs \<le> 32"
  proof -
    have "length ?refs = length (rc_references rc) * rb" by (simp add: length_concat comp_def sum_list_triv)
    also have "\<dots> \<le> 4 * 8" using ok(1) assms(2) by (rule mult_le_mono)
    finally show ?thesis by simp
  qed
  have refs: "read_many (length (rc_references rc)) (read_var_uint rb) (reader_at (pre @ [?d1, ?d2] @ ?sb) (?refs @ rest))
      = Ok (rc_references rc, reader_at ((pre @ [?d1, ?d2] @ ?sb) @ ?refs) rest)"
  proof (rule read_many_at)
    show "length (pre @ [?d1, ?d2] @ ?sb) + length ?refs < 2 ^ 60" using assms(3) small lrefs by simp
    fix p r :: bytes and x assume "x \<in> set (rc_references rc)" "length p < 2 ^ 60"
    then show "read_var_uint rb (reader_at p (write_var_uint x rb @ r)) = Ok (x, reader_at (p @ write_var_uint x rb) r)"
      using assms(1,2) by (intro read_var_uint_at) (auto simp: raw_ok_def)
  qed
  have "reader_at pre (raw_write rc rb @ rest) = reader_at pre (?d1 # ?d2 # ?sb @ ?refs @ rest)"
    by (simp add: raw_write_eq [OF ok(3)])
  then show ?thesis
    using rd refs unpad_serialized_bits [OF ok(3)] bits_descriptor_bytes [OF ok(2)] refs_descriptor [OF ok(1)]
    by (simp add: raw_try_parse_def raw_write_eq [OF ok(3)] Let_def)
qed

section \<open>Cells in order\<close>

lemma renumber:
  assumes "distinct hs" "set hs \<subseteq> keys ic"
  shows "shape (foldl (\<lambda>ic (i, h). set_index h i ic) ic (enumerate k hs)) = shape ic
     \<and> (\<forall>j < length hs. ixf (foldl (\<lambda>ic (i, h). set_index h i ic) ic (enumerate k hs)) (hs ! j) = k + j)
     \<and> (\<forall>h. h \<notin> set hs \<longrightarrow> ixf (foldl (\<lambda>ic (i, h). set_index h i ic) ic (enumerate k hs)) h = ixf ic h)"
  using assms
proof (induction hs arbitrary: ic k)
  case (Cons h hs)
  let ?ic = "set_index h k ic"
  have IH: "shape (foldl (\<lambda>ic (i, h). set_index h i ic) ?ic (enumerate (Suc k) hs)) = shape ?ic
     \<and> (\<forall>j < length hs. ixf (foldl (\<lambda>ic (i, h). set_index h i ic) ?ic (enumerate (Suc k) hs)) (hs ! j) = Suc k + j)
     \<and> (\<forall>h. h \<notin> set hs \<longrightarrow> ixf (foldl (\<lambda>ic (i, h). set_index h i ic) ?ic (enumerate (Suc k) hs)) h = ixf ?ic h)"
    using Cons.prems by (intro Cons.IH) (auto simp: keys_shape)
  then show ?case using Cons.prems by (auto simp: ixf_set_index nth_Cons split: nat.splits)
qed simp

text \<open>
  A list of cells in which every cell comes before the cells it references, and an index that gives
  each cell its position.
\<close>

definition in_order :: "indexed_cells \<Rightarrow> cell list \<Rightarrow> bool" where
  "in_order ic cs \<longleftrightarrow>
     (\<forall>i < length cs. map_option ix_index (map_of ic (cell_hash (cs ! i))) = Some i)
     \<and> (\<forall>i < length cs. \<forall>r\<in>set (cell_references (cs ! i)). \<exists>j < length cs. i < j \<and> cs ! j = r)"

lemma ixf_Some: "h \<in> keys ic \<Longrightarrow> map_option ix_index (map_of ic h) = Some (ixf ic h)"
  using map_of_keys [of ic h] by (auto simp: ixf_def split: option.splits)

lemma sort_index_mono:
  assumes "distinct (map fst ic)" "i \<le> j" "j < length (sort_key (\<lambda>(_, v). ix_index v) ic)"
  shows "ixf ic (fst (sort_key (\<lambda>(_, v). ix_index v) ic ! i)) \<le> ixf ic (fst (sort_key (\<lambda>(_, v). ix_index v) ic ! j))"
proof -
  let ?L = "sort_key (\<lambda>(_, v). ix_index v) ic"
  have key: "ixf ic (fst (?L ! k)) = ix_index (snd (?L ! k))" if "k < length ?L" for k
  proof -
    have "?L ! k \<in> set ic" using that by (metis nth_mem set_sort)
    then have "map_of ic (fst (?L ! k)) = Some (snd (?L ! k))" using assms(1) by simp
    then show ?thesis by (simp add: ixf_def)
  qed
  have "sorted (map (\<lambda>(_, v). ix_index v) ?L)" by simp
  then have "map (\<lambda>(_, v). ix_index v) ?L ! i \<le> map (\<lambda>(_, v). ix_index v) ?L ! j"
    using assms(2,3) by (intro sorted_nth_mono) auto
  then show ?thesis using key [of i] key [of j] assms(2,3) by (simp add: case_prod_beta)
qed

lemma ordered_in_order:
  assumes num: "numbered U R ic" and ord: "ordered_indexed_cells ic = (ic', ordered)"
  shows "in_order ic' (map ix_cell ordered)" "set (map ix_cell ordered) = snd ` set (shape ic)"
    "length ordered = length ic"
proof -
  define L where "L = sort_key (\<lambda>(_, v). ix_index v) ic"
  define hs where "hs = map fst L"
  define cs where "cs = map ix_cell ordered"
  have setL: "set L = set ic" "length L = length ic" by (simp_all add: L_def)
  have dist: "distinct (map fst ic)" using num by (simp add: numbered_def)
  then have dL: "distinct hs" by (simp add: hs_def L_def distinct_map)
  have keys: "set hs = keys ic" by (simp add: hs_def setL keys_def)
  have ic': "ic' = foldl (\<lambda>ic (i, h). set_index h i ic) ic (enumerate 0 hs)"
    and or: "ordered = map (\<lambda>(i, (_, v)). v\<lparr>ix_index := i\<rparr>) (enumerate 0 L)"
    using ord by (simp_all add: ordered_indexed_cells_def Let_def L_def hs_def)
  have cs: "cs = map (ix_cell \<circ> snd) L"
    unfolding cs_def or by (rule nth_equalityI) (auto simp: nth_enumerate_eq split: prod.splits)
  have ren: "shape ic' = shape ic" "\<And>j. j < length hs \<Longrightarrow> ixf ic' (hs ! j) = j"
    using renumber [OF dL, of ic 0] keys by (simp_all add: ic')
  have entry: "(hs ! i, cs ! i) \<in> set (shape ic)" if "i < length cs" for i
  proof -
    have "L ! i \<in> set ic" using that setL by (metis cs length_map nth_mem)
    then have "(fst (L ! i), ix_cell (snd (L ! i))) \<in> set (shape ic)" by (force simp: shape_def)
    then show ?thesis using that by (simp add: cs hs_def)
  qed
  have len: "length hs = length cs" by (simp add: cs hs_def)
  have hash: "hs ! i = cell_hash (cs ! i)" if "i < length cs" for i
    using entry [OF that] num by (auto simp: numbered_def)
  have sorted: "ixf ic (hs ! i) \<le> ixf ic (hs ! j)" if "i \<le> j" "j < length hs" for i j
    using sort_index_mono [OF dist that(1)] that unfolding hs_def L_def by simp
  have "set cs = snd ` set (shape ic)" by (simp add: cs setL shape_def image_image case_prod_beta comp_def)
  then show "set (map ix_cell ordered) = snd ` set (shape ic)" by (simp add: cs_def)
  show "length ordered = length ic" by (simp add: or setL)
  have "map_option ix_index (map_of ic' (cell_hash (cs ! i))) = Some i" if i: "i < length cs" for i
  proof -
    have "hs ! i \<in> keys ic'" using i len keys ren(1) by (metis keys_shape nth_mem)
    then show ?thesis using ixf_Some [of "hs ! i" ic'] ren(2) [of i] i len hash by simp
  qed
  moreover have "\<exists>j<length cs. i < j \<and> cs ! j = r"
    if i: "i < length cs" and r: "r \<in> set (cell_references (cs ! i))" for i r
  proof -
    have r': "(cell_hash r, r) \<in> set (shape ic)" "ixf ic (hs ! i) < ixf ic (cell_hash r)"
      using num entry [OF i] r unfolding numbered_def by blast+
    then have "cell_hash r \<in> set hs" using keys by (force simp: keys_shape)
    then obtain j where j: "j < length hs" "hs ! j = cell_hash r" by (metis in_set_conv_nth)
    have "i < j" using sorted [of j i] r'(2) j i len by (metis not_le)
    moreover have "cs ! j = r"
    proof -
      have "distinct (map fst (shape ic))" using dist by simp
      then show ?thesis using entry [of j] r'(1) j len by (metis eq_key_imp_eq_value)
    qed
    ultimately show ?thesis using j len by auto
  qed
  ultimately show "in_order ic' (map ix_cell ordered)" unfolding in_order_def cs_def [symmetric] by blast
qed

definition raw_of :: "indexed_cells \<Rightarrow> cell \<Rightarrow> raw_cell" where
  "raw_of ic c = \<lparr>rc_data = cell_data c, rc_bit_len = cell_bit_len c,
     rc_references = map (\<lambda>r. ixf ic (cell_hash r)) (cell_references c)\<rparr>"

definition valid_cell :: "(bytes \<Rightarrow> bytes) \<Rightarrow> cell \<Rightarrow> bool" where
  "valid_cell H c \<longleftrightarrow> try_new H (cell_data c) (cell_bit_len c) (cell_references c) = Some c
     \<and> canonical (cell_data c) (cell_bit_len c)"

lemma in_order_ixf:
  assumes "in_order ic cs" "i < length cs"
  shows "map_of ic (cell_hash (cs ! i)) \<noteq> None" "ixf ic (cell_hash (cs ! i)) = i"
  using assms by (fastforce simp: in_order_def ixf_def split: option.splits)+

lemma in_order_reference:
  assumes "in_order ic cs" "i < length cs" "r \<in> set (cell_references (cs ! i))"
  shows "i < ixf ic (cell_hash r) \<and> ixf ic (cell_hash r) < length cs \<and> cs ! ixf ic (cell_hash r) = r
     \<and> map_option ix_index (map_of ic (cell_hash r)) = Some (ixf ic (cell_hash r))"
proof -
  obtain j where j: "j < length cs" "i < j" "cs ! j = r" using assms unfolding in_order_def by blast
  then show ?thesis using in_order_ixf [OF assms(1) j(1)] assms(1) by (auto simp: in_order_def)
qed

lemma traverse_map: "(\<And>x. x \<in> set xs \<Longrightarrow> f x = Ok (g x)) \<Longrightarrow> traverse f xs = Ok (map g xs)"
  by (induction xs) auto

lemma raw_from_cell_in_order:
  assumes "in_order ic cs" "i < length cs"
  shows "raw_from_cell ic (cs ! i) = Ok (raw_of ic (cs ! i))"
proof -
  let ?f = "\<lambda>r. ok_or (map_option ix_index (map_of ic (cell_hash r))) (invalid ''missing referenced cell'')"
  have "traverse ?f (cell_references (cs ! i)) = Ok (map (\<lambda>r. ixf ic (cell_hash r)) (cell_references (cs ! i)))"
    by (rule traverse_map) (use in_order_reference [OF assms] in \<open>auto simp: ok_or_Inr_iff\<close>)
  then show ?thesis by (simp add: raw_from_cell_def raw_of_def)
qed

lemma build_cell_in_order:
  assumes "in_order ic cs" "i < length cs" "valid_cell H (cs ! i)"
  shows "build_cell H (map (raw_of ic) cs) (replicate (Suc i) None @ map Some (drop (Suc i) cs)) i
     = Ok (replicate i None @ map Some (drop i cs))"
proof -
  let ?cells = "replicate (Suc i) None @ map Some (drop (Suc i) cs)"
  have len: "length ?cells = length cs" using assms(2) by simp
  have "resolve_reference i ?cells (ixf ic (cell_hash r)) = Ok r" if r: "r \<in> set (cell_references (cs ! i))" for r
  proof -
    obtain j where j: "j = ixf ic (cell_hash r)" "i < j" "j < length cs" "cs ! j = r"
      using in_order_reference [OF assms(1,2) r] by blast
    then have "?cells ! j = Some r" by (simp add: nth_append nth_Cons' del: replicate_Suc)
    then show ?thesis using j len by (simp add: resolve_reference_def del: replicate_Suc)
  qed
  then have "traverse (resolve_reference i ?cells) (map (\<lambda>r. ixf ic (cell_hash r)) (cell_references (cs ! i)))
      = Ok (cell_references (cs ! i))"
    by (simp add: traverse_Inr_iff list_all2_conv_all_nth del: replicate_Suc)
  moreover have "new_cell H (cell_data (cs ! i)) (cell_bit_len (cs ! i)) (cell_references (cs ! i)) = Ok (cs ! i)"
    using assms(3) by (simp add: new_cell_def valid_cell_def)
  moreover have "?cells[i := Some (cs ! i)] = replicate i None @ map Some (drop i cs)"
  proof -
    have "?cells = replicate i None @ None # map Some (drop (Suc i) cs)" by (simp add: replicate_app_Cons_same)
    then show ?thesis
      using list_update_length [of "replicate i None" None "map Some (drop (Suc i) cs)" "Some (cs ! i)"] assms(2)
      by (simp add: Cons_nth_drop_Suc [symmetric] del: replicate_Suc)
  qed
  ultimately show ?thesis using assms(2) by (simp add: build_cell_def raw_of_def Let_def del: replicate_Suc)
qed

lemma build_cell_tree_in_order:
  assumes "in_order ic cs" "\<And>c. c \<in> set cs \<Longrightarrow> valid_cell H c"
  shows "build_cell_tree H (map (raw_of ic) cs) = Ok cs"
proof -
  let ?n = "length cs"
  have "try_fold (build_cell H (map (raw_of ic) cs)) (replicate ?n None) (rev [?n - k..<?n])
      = Ok (replicate (?n - k) None @ map Some (drop (?n - k) cs))" if "k \<le> ?n" for k
    using that
  proof (induction k)
    case (Suc k)
    let ?i = "?n - Suc k"
    have i: "Suc ?i = ?n - k" "?i < ?n" using Suc.prems by auto
    have "rev [?i..<?n] = rev [?n - k..<?n] @ [?i]" using i by (simp add: upt_conv_Cons [of ?i])
    then show ?case
      using Suc i build_cell_in_order [OF assms(1) i(2)] assms(2) [OF nth_mem [OF i(2)]]
      by (simp add: try_fold_append del: replicate_Suc)
  qed simp
  from this [of ?n] have "try_fold (build_cell H (map (raw_of ic) cs)) (replicate ?n None) (rev [0..<?n]) = Ok (map Some cs)"
    by simp
  moreover have "traverse (\<lambda>c. ok_or c (invalid ''BoC cell out of bounds'')) (map Some cs) = Ok cs"
    by (simp add: traverse_Inr_iff list_all2_conv_all_nth)
  ultimately show ?thesis by (simp add: build_cell_tree_def)
qed

section \<open>The container\<close>

lemma bytes_needed_fits: "v \<le> w \<Longrightarrow> v < 2 ^ (8 * bytes_needed w)"
proof -
  assume "v \<le> w"
  have "nat_bits (max w 1) \<le> 8 * bytes_needed w" unfolding bytes_needed_def by (rule div_ceil_ge) simp
  then have "max w 1 < 2 ^ (8 * bytes_needed w)" by (simp only: nat_bits_le)
  then show ?thesis using \<open>v \<le> w\<close> by simp
qed

lemma bytes_needed_pos: "0 < bytes_needed v"
  using div_ceil_8_le [of "nat_bits (max v 1)" 0] nat_bits_le [of "max v 1" 0] by (simp add: bytes_needed_def)

lemma bytes_needed_le: "0 < k \<Longrightarrow> v < 2 ^ (8 * k) \<Longrightarrow> bytes_needed v \<le> k"
  unfolding bytes_needed_def div_ceil_8_le nat_bits_le
  by (metis max_def nat_0_less_mult_iff one_less_numeral_iff one_less_power semiring_norm(76) zero_less_numeral)

lemma read_magic_at:
  "read_u32 (reader_at pre (be_bytes 4 BOC_MAGIC @ rest)) = Ok (BOC_MAGIC, reader_at (pre @ be_bytes 4 BOC_MAGIC) rest)"
proof -
  let ?m = "be_bytes 4 BOC_MAGIC"
  have "reads (reader_at pre (?m @ rest)) (to_bits ?m @ to_bits rest)"
    using reads_reader_at [of pre "?m @ rest"] by (simp add: to_bits_append)
  from read_uint_reads [OF this]
  have "read_uint 32 (reader_at pre (?m @ rest)) = Ok (bits_val (to_bits ?m), reader_at (pre @ ?m) rest)"
    using skip_reader_at [of ?m pre rest] by simp
  moreover have "ucast (bits_val (to_bits ?m)) = BOC_MAGIC" by code_simp
  ultimately show ?thesis by (simp add: read_u32_def)
qed

lemma flags_bits:
  fixes crc :: bool and rb :: nat
  assumes "rb = 1 \<or> rb = 2"
  defines "flags \<equiv> (if crc then push_bit 6 1 else 0) OR of_nat rb :: u8"
  shows "unat (flags AND 7) = rb" "flags AND 0x80 = 0" "flags AND 0x40 \<noteq> 0 \<longleftrightarrow> crc"
  using assms(1) unfolding flags_def by (cases crc; elim disjE; simp)+

lemma raw_write_length: "canonical (rc_data rc) (rc_bit_len rc) \<Longrightarrow> length (raw_write rc rb) = raw_size rc rb"
  by (simp add: raw_write_eq raw_size_def length_serialized_bits canonical_def length_concat comp_def sum_list_triv)

lemma raw_size_le: "raw_ok rb rc \<Longrightarrow> rb \<le> 8 \<Longrightarrow> raw_size rc rb \<le> 162"
proof -
  assume ok: "raw_ok rb rc" "rb \<le> 8"
  have "length (rc_references rc) * rb \<le> 4 * 8" using ok by (intro mult_le_mono) (auto simp: raw_ok_def MAX_CELL_REFERENCES_def)
  moreover have "div_ceil (rc_bit_len rc) 8 \<le> 128" using ok div_ceil_8_le by (auto simp: raw_ok_def MAX_CELL_BITS_def)
  ultimately show ?thesis by (simp add: raw_size_def)
qed

lemma total_size_le:
  "(\<And>c. c \<in> set rcs \<Longrightarrow> raw_ok rb c) \<Longrightarrow> rb \<le> 8 \<Longrightarrow> sum_list (map (\<lambda>c. raw_size c rb) rcs) \<le> 162 * length rcs"
proof (induction rcs)
  case (Cons c rcs)
  then have "raw_size c rb \<le> 162" by (intro raw_size_le) simp_all
  then show ?case using Cons by simp
qed simp

lemma header_try_parse_at:
  fixes crc :: bool and rb ob n k t :: nat
  assumes rb: "rb = 1 \<or> rb = 2" and ob: "0 < ob" "ob \<le> 8"
    and n: "0 < n" "n \<le> MAX_CELLS" "n < 2 ^ (8 * rb)" and k: "0 < k" "k \<le> n" and t: "t < 2 ^ (8 * ob)"
  defines "hdr \<equiv> be_bytes 4 BOC_MAGIC @ [(if crc then push_bit 6 1 else 0) OR of_nat rb, of_nat ob]
     @ write_var_uint n rb @ write_var_uint k rb @ write_var_uint 0 rb @ write_var_uint t ob"
  shows "header_try_parse (reader_at [] (hdr @ rest)) =
     Some (\<lparr>has_idx = False, has_crc32c = crc, ref_bytes = rb, off_bytes = ob, cells_count = n,
            roots_count = k, total_cells_size = t\<rparr>, reader_at hdr rest)"
proof -
  have obn: "unat (of_nat ob :: u8) = ob" using ob by (simp add: unat_of_nat take_bit_nat_eq_self)
  have rb8: "rb \<le> 8" "rb \<le> MAX_REF_BYTES" "rb \<noteq> 0" using rb by (auto simp: MAX_REF_BYTES_def)
  have lens: "length (be_bytes 4 BOC_MAGIC) = 4" by simp
  note fl = flags_bits [OF rb, of crc]
  have rd: "read_var_uint rb (reader_at pre (write_var_uint v rb @ r)) = Ok (v, reader_at (pre @ write_var_uint v rb) r)"
    if "length pre < 100" "v \<le> n" for pre v r
    using that n(3) rb8(1) by (intro read_var_uint_at) auto
  have rt: "read_var_uint ob (reader_at pre (write_var_uint t ob @ r)) = Ok (t, reader_at (pre @ write_var_uint t ob) r)"
    if "length pre < 100" for pre r
    using that t ob by (intro read_var_uint_at) auto
  have small: "rb < 10" using rb by auto
  show ?thesis
    unfolding hdr_def header_try_parse_def
    using fl rb8 obn ob n k small
    by (simp add: read_magic_at rd rt Let_def MAX_OFF_BYTES_def)
qed


lemma read_raw_cells_at:
  assumes ok: "\<And>c. c \<in> set rcs \<Longrightarrow> raw_ok rb c" and rb: "rb \<le> 8" and pre: "length pre < 1000"
    and h: "ref_bytes h = rb" "cells_count h = length rcs" "total_cells_size h = sum_list (map (\<lambda>c. raw_size c rb) rcs)"
    and n: "length rcs \<le> MAX_CELLS"
  shows "read_raw_cells h (reader_at pre (concat (map (\<lambda>c. raw_write c rb) rcs) @ rest))
     = Ok (rcs, reader_at (pre @ concat (map (\<lambda>c. raw_write c rb) rcs)) rest)"
proof -
  let ?w = "\<lambda>c. raw_write c rb"
  have wl: "length (?w c) = raw_size c rb" if "c \<in> set rcs" for c
    using ok [OF that] by (intro raw_write_length) (simp add: raw_ok_def)
  then have len: "length (concat (map ?w rcs)) = sum_list (map (\<lambda>c. raw_size c rb) rcs)"
    by (simp add: length_concat comp_def cong: map_cong)
  have "sum_list (map (\<lambda>c. raw_size c rb) rcs) \<le> 162 * length rcs" using ok rb by (rule total_size_le)
  then have "length pre + length (concat (map ?w rcs)) < 2 ^ 59" using pre n len by (simp add: MAX_CELLS_def)
  then have "read_many (length rcs) (raw_parse rb) (reader_at pre (concat (map ?w rcs) @ rest))
      = Ok (rcs, reader_at (pre @ concat (map ?w rcs)) rest)"
    using ok rb by (intro read_many_at) (auto simp: raw_parse_def raw_try_parse_at)
  then show ?thesis using h len by (simp add: read_raw_cells_def Let_def)
qed

lemma boc_parse_body:
  assumes ok: "\<And>c. c \<in> set rcs \<Longrightarrow> raw_ok (bytes_needed (length rcs)) c"
    and n: "0 < length rcs" "length rcs \<le> MAX_CELLS" and i: "i < length rcs"
    and tree: "build_cell_tree H rcs = Ok cells" "length cells = length rcs"
  shows "boc_parse H crc32c (boc_body rcs [i] crc @ (if crc then le_bytes 4 (crc32c (boc_body rcs [i] crc)) else []))
     = Ok \<lparr>bag_roots = [cells ! i]\<rparr>"
proof -
  define rb where "rb = bytes_needed (length rcs)"
  define t where "t = sum_list (map (\<lambda>c. raw_size c rb) rcs)"
  define ob where "ob = bytes_needed (max t 1)"
  define hdr where "hdr = be_bytes 4 BOC_MAGIC @ [(if crc then push_bit 6 1 else 0) OR of_nat rb, of_nat ob]
     @ write_var_uint (length rcs) rb @ write_var_uint 1 rb @ write_var_uint 0 rb @ write_var_uint t ob"
  define cellbytes where "cellbytes = concat (map (\<lambda>c. raw_write c rb) rcs)"
  let ?body = "boc_body rcs [i] crc"
  let ?crc = "if crc then le_bytes 4 (crc32c ?body) else []"
  have "rb \<le> 2" using bytes_needed_le [of 2 "length rcs"] n(2) by (simp add: rb_def MAX_CELLS_def)
  then have rb: "rb = 1 \<or> rb = 2" "rb \<le> 8" using bytes_needed_pos [of "length rcs"] by (auto simp: rb_def)
  have "t \<le> 162 * length rcs" unfolding t_def using ok rb(2) unfolding rb_def by (rule total_size_le)
  then have tm: "t < 2 ^ 24" using n(2) by (simp add: MAX_CELLS_def)
  have ob: "0 < ob" "ob \<le> 8" "t < 2 ^ (8 * ob)"
    using bytes_needed_pos bytes_needed_le [of 8 "max t 1"] bytes_needed_fits [of t "max t 1"] tm by (simp_all add: ob_def)
  have body: "?body = hdr @ write_var_uint i rb @ cellbytes"
    by (simp add: boc_body_def hdr_def rb_def ob_def t_def cellbytes_def Let_def)
  have lh: "length hdr < 100" using rb ob by (auto simp: hdr_def)
  let ?h = "\<lparr>has_idx = False, has_crc32c = crc, ref_bytes = rb, off_bytes = ob, cells_count = length rcs,
            roots_count = 1, total_cells_size = t\<rparr>"
  have h: "header_parse (reader_new (?body @ ?crc)) = Ok (?h, reader_at hdr (write_var_uint i rb @ cellbytes @ ?crc))"
    using header_try_parse_at [OF rb(1) ob(1,2) n, of 1 t crc] ob(3) n bytes_needed_fits [of "length rcs" "length rcs"]
    by (simp add: header_parse_def reader_new_at body hdr_def rb_def)
  have r: "read_many 1 (read_var_uint rb) (reader_at hdr (write_var_uint i rb @ cellbytes @ ?crc))
      = Ok ([i], reader_at (hdr @ write_var_uint i rb) (cellbytes @ ?crc))"
    using read_var_uint_at [of i rb hdr] bytes_needed_fits [of i "length rcs"] i rb(2) lh
    by (simp add: rb_def)
  have c: "read_raw_cells ?h (reader_at (hdr @ write_var_uint i rb) (cellbytes @ ?crc))
      = Ok (rcs, reader_at ?body ?crc)"
    using read_raw_cells_at [of rcs rb "hdr @ write_var_uint i rb" ?h ?crc] ok rb lh n(2)
    by (auto simp: cellbytes_def t_def rb_def body)
  have lb: "length ?body < 2 ^ 59"
  proof -
    have "length cellbytes = t"
      using ok by (simp add: cellbytes_def t_def length_concat comp_def raw_write_length raw_ok_def rb_def cong: map_cong)
    then show ?thesis using lh rb tm by (auto simp: body)
  qed
  have v: "validate_crc32c crc32c (?body @ le_bytes 4 (crc32c ?body)) (reader_at ?body (le_bytes 4 (crc32c ?body)))
      = Ok (reader_at (?body @ le_bytes 4 (crc32c ?body)) [])"
    using read_bytes_at [of ?body "le_bytes 4 (crc32c ?body)" "[]"] lb
    by (simp add: validate_crc32c_def read_u32_le_def le_word_le_bytes_id)
  show ?thesis
    unfolding boc_parse_def h
    using r c v tree i by (cases crc) simp_all
qed

text \<open>What \<open>serialize\<close> writes: the cells in an order in which references point forwards.\<close>

lemma boc_serialize_in_order:
  assumes "inj_on cell_hash (set (subcells c))"
  obtains ic cs i where "in_order ic cs" "set cs \<subseteq> set (subcells c)" "i < length cs" "cs ! i = c"
    "length cs \<le> card (set (subcells c))"
    "\<And>crc32c crc. boc_serialize crc32c (from_root c) crc = Some (Ok (boc_body (map (raw_of ic) cs) [i] crc
       @ (if crc then le_bytes 4 (crc32c (boc_body (map (raw_of ic) cs) [i] crc)) else [])))"
proof -
  let ?U = "set (subcells c)"
  obtain ic where ic: "build_index [c] = Some ic" "numbered ?U {c} ic"
    using build_index_numbered [of "[c]" ?U] self_in_subcells subcells_closed assms by auto
  obtain ic' ordered where o: "ordered_indexed_cells ic = (ic', ordered)" by (metis surj_pair)
  define cs where "cs = map ix_cell ordered"
  note ord = ordered_in_order [OF ic(2) o, folded cs_def]
  have cU: "set cs \<subseteq> ?U" using ord(2) ic(2) by (auto simp: numbered_def)
  have "(cell_hash c, c) \<in> set (shape ic)" using ic(2) unfolding numbered_def by blast
  then have "c \<in> set cs" unfolding ord(2) by (metis image_eqI snd_conv)
  then obtain i where i: "i < length cs" "cs ! i = c" by (metis in_set_conv_nth)
  have "distinct cs" unfolding distinct_conv_nth using in_order_ixf(2) [OF ord(1)] by metis
  then have len: "length cs \<le> card ?U" using cU by (metis List.finite_set card_mono distinct_card)
  have raws: "traverse (\<lambda>v. raw_from_cell ic' (ix_cell v)) ordered = Ok (map (raw_of ic') cs)"
    using raw_from_cell_in_order [OF ord(1)] by (auto simp: traverse_Inr_iff list_all2_conv_all_nth cs_def)
  have root: "map_option ix_index (map_of ic' (cell_hash c)) = Some i"
    using ord(1) i by (auto simp: in_order_def)
  show thesis
    by (rule that [OF ord(1) cU i len])
      (use ic(1) o raws root in \<open>auto simp: boc_serialize_def from_root_def Let_def\<close>)
qed

lemma in_order_raw_ok:
  assumes "in_order ic cs" "\<And>x. x \<in> set cs \<Longrightarrow> valid_cell H x" "rc \<in> set (map (raw_of ic) cs)"
  shows "raw_ok (bytes_needed (length cs)) rc"
proof -
  obtain j where j: "j < length cs" "rc = raw_of ic (cs ! j)" using assms(3) by (auto simp: in_set_conv_nth)
  have v: "valid_cell H (cs ! j)" using assms(2) j(1) by simp
  have "ixf ic (cell_hash r) < 2 ^ (8 * bytes_needed (length cs))" if "r \<in> set (cell_references (cs ! j))" for r
    using in_order_reference [OF assms(1) j(1) that] by (intro bytes_needed_fits) simp
  then show ?thesis
    using v j(2) by (auto simp: raw_ok_def raw_of_def valid_cell_def try_new_def split: if_splits)
qed

lemma boc_parse_serialize:
  assumes "\<forall>x\<in>set (subcells c). valid_cell H x" "inj_on cell_hash (set (subcells c))"
    and "card (set (subcells c)) \<le> MAX_CELLS"
  shows "\<exists>bs. boc_serialize crc32c (from_root c) crc = Some (Ok bs) \<and> boc_parse H crc32c bs = Ok (from_root c)"
proof -
  obtain ic cs i where o: "in_order ic cs" "set cs \<subseteq> set (subcells c)" "i < length cs" "cs ! i = c"
      "length cs \<le> card (set (subcells c))"
    and ser: "boc_serialize crc32c (from_root c) crc = Some (Ok (boc_body (map (raw_of ic) cs) [i] crc
       @ (if crc then le_bytes 4 (crc32c (boc_body (map (raw_of ic) cs) [i] crc)) else [])))"
    using boc_serialize_in_order [OF assms(2)] by metis
  have ok: "valid_cell H x" if "x \<in> set cs" for x using that o(2) assms(1) by blast
  have "boc_parse H crc32c (boc_body (map (raw_of ic) cs) [i] crc
        @ (if crc then le_bytes 4 (crc32c (boc_body (map (raw_of ic) cs) [i] crc)) else [])) = Ok \<lparr>bag_roots = [cs ! i]\<rparr>"
  proof (rule boc_parse_body)
    show "raw_ok (bytes_needed (length (map (raw_of ic) cs))) rc" if "rc \<in> set (map (raw_of ic) cs)" for rc
      using in_order_raw_ok [OF o(1) ok that] by simp
    show "build_cell_tree H (map (raw_of ic) cs) = Ok cs" by (rule build_cell_tree_in_order [OF o(1) ok])
  qed (use o assms(3) in auto)
  then show ?thesis using ser o(4) by (auto simp: from_root_def)
qed

end
