(* ===== verification/Ton.thy ===== *)
theory Ton
  imports Ton_Roundtrip
begin

unbundle bit_operations_syntax

text \<open>
  The TON signer: \<open>core/crates/gem_ton/src/address.rs\<close> (text and cell forms of an address),
  \<open>signer/transaction/request.rs\<close>, \<open>message.rs\<close>, \<open>wallet.rs\<close>, \<open>sign.rs\<close> and \<open>wallet_connect.rs\<close>
  (transfers of a wallet v4r2), \<open>signer/sign_data\<close> (messages signed for applications),
  \<open>signer/signer.rs\<close> and \<open>signer/chain_signer.rs\<close>.

  Third-party code is the record \<open>ton_lib\<close>: the hash and checksum functions, base64 and hex, the
  big-integer parser of \<open>num_bigint\<close>, \<open>ed25519_dalek\<close>, the JSON decoder for the two request types,
  and the code cell that the file \<open>wallet_v4r2_code.boc.b64\<close> holds. An operation that ends in
  \<open>BagOfCells::serialize\<close> gives an \<open>option\<close>: \<open>None\<close> is a numbering loop that does not end.
\<close>

section \<open>Libraries\<close>

record ton_connect_message =
  tcm_address :: string
  tcm_amount :: string
  tcm_payload :: "string option"
  tcm_state_init :: "string option"
  tcm_extra_currency :: "(string \<times> string) list option"

record ton_connect_request =
  tcr_from :: "string option"
  tcr_network :: "string option"
  tcr_messages :: "ton_connect_message list"
  tcr_valid_until :: "u64 option"

datatype ton_sign_data_payload = TextPayload string | BinaryPayload string | CellPayload string string

record ton_sign_message_data =
  tsm_payload :: ton_sign_data_payload
  tsm_domain :: string
  tsm_address :: string

record ton_lib =
  ton_sha256 :: "bytes \<Rightarrow> bytes"
  crc16 :: "bytes \<Rightarrow> u16"
  crc32c :: "bytes \<Rightarrow> u32"
  crc32_iso :: "bytes \<Rightarrow> u32"
  encode_base64 :: "bytes \<Rightarrow> string"
  decode_base64 :: "string \<Rightarrow> bytes option"
  decode_base64_no_pad :: "string \<Rightarrow> bytes option"
  encode_base64_url :: "bytes \<Rightarrow> string"
  decode_base64_url :: "string \<Rightarrow> bytes option"
  ton_hex_encode :: "bytes \<Rightarrow> string"
  ton_hex_decode :: "string \<Rightarrow> bytes option"
  biguint_from_str :: "string \<Rightarrow> string + nat"
  ed25519_public_key :: "bytes \<Rightarrow> bytes"
  ed25519_sign :: "bytes \<Rightarrow> bytes \<Rightarrow> bytes"
  json_connect_request :: "bytes \<Rightarrow> string + ton_connect_request"
  json_sign_message :: "bytes \<Rightarrow> string + ton_sign_message_data"
  wallet_v4r2_code :: cell

definition boc_parse_base64 :: "ton_lib \<Rightarrow> string \<Rightarrow> bag_of_cells tvm_result" where
  "boc_parse_base64 L s =
     and_then (ok_or (decode_base64 L s) (invalid ''invalid base64 BoC'')) (boc_parse (ton_sha256 L) (crc32c L))"

definition boc_parse_base64_root :: "ton_lib \<Rightarrow> string \<Rightarrow> cell tvm_result" where
  "boc_parse_base64_root L s = and_then (boc_parse_base64 L s) get_single_root"

definition boc_to_base64 :: "ton_lib \<Rightarrow> bag_of_cells \<Rightarrow> bool \<Rightarrow> string tvm_result option" where
  "boc_to_base64 L bag with_crc32c =
     map_option (\<lambda>r. and_then r (\<lambda>bs. Ok (encode_base64 L bs))) (boc_serialize (crc32c L) bag with_crc32c)"

section \<open>Addresses\<close>

definition TAG_BOUNCEABLE_MAINNET :: u8 where "TAG_BOUNCEABLE_MAINNET = 0x11"
definition TAG_NON_BOUNCEABLE_MAINNET :: u8 where
  "TAG_NON_BOUNCEABLE_MAINNET = TAG_BOUNCEABLE_MAINNET OR 0x40"
definition RAW_ADDRESS_LEN :: nat where "RAW_ADDRESS_LEN = 33"
definition USER_FRIENDLY_ADDRESS_LEN :: nat where "USER_FRIENDLY_ADDRESS_LEN = 36"

lemmas ton_address_consts = TAG_BOUNCEABLE_MAINNET_def TAG_NON_BOUNCEABLE_MAINNET_def RAW_ADDRESS_LEN_def
  USER_FRIENDLY_ADDRESS_LEN_def

datatype user_friendly_address_type = Bounceable | NonBounceable

definition from_tag :: "u8 \<Rightarrow> user_friendly_address_type option" where
  "from_tag tag =
     (if tag AND 0x7f = TAG_BOUNCEABLE_MAINNET then Some Bounceable
      else if tag AND 0x7f = TAG_NON_BOUNCEABLE_MAINNET then Some NonBounceable
      else None)"

fun address_tag :: "user_friendly_address_type \<Rightarrow> u8" where
  "address_tag Bounceable = TAG_BOUNCEABLE_MAINNET"
| "address_tag NonBounceable = TAG_NON_BOUNCEABLE_MAINNET"

fun is_bounceable :: "user_friendly_address_type \<Rightarrow> bool" where
  "is_bounceable Bounceable = True"
| "is_bounceable NonBounceable = False"

definition parse_user_friendly :: "ton_lib \<Rightarrow> string \<Rightarrow> (ton_address \<times> bool) option" where
  "parse_user_friendly L s =
     Option.bind (case decode_base64_url L s of Some b \<Rightarrow> Some b | None \<Rightarrow> decode_base64_no_pad L s) (\<lambda>bs.
     if length bs \<noteq> USER_FRIENDLY_ADDRESS_LEN then None
     else if be_word (take 2 (drop 34 bs)) \<noteq> crc16 L (take 34 bs) then None
     else Option.bind (from_tag (bs ! 0)) (\<lambda>address_type.
       Some (\<lparr>addr_bytes = take RAW_ADDRESS_LEN (drop 1 bs)\<rparr>, is_bounceable address_type)))"

definition try_parse_base64 :: "ton_lib \<Rightarrow> string \<Rightarrow> ton_address option" where
  "try_parse_base64 L s = map_option fst (parse_user_friendly L s)"

text \<open>\<open>str::split_once\<close> on a character and \<open>str::parse::<i32>\<close>.\<close>

definition split_once :: "char \<Rightarrow> string \<Rightarrow> (string \<times> string) option" where
  "split_once c s =
     (if c \<in> set s then Some (takeWhile (\<lambda>x. x \<noteq> c) s, tl (dropWhile (\<lambda>x. x \<noteq> c) s)) else None)"

fun digits_value :: "nat \<Rightarrow> string \<Rightarrow> nat option" where
  "digits_value acc [] = Some acc"
| "digits_value acc (c # cs) = (case digit_val c of None \<Rightarrow> None | Some d \<Rightarrow> digits_value (acc * 10 + d) cs)"

definition parse_i32 :: "string \<Rightarrow> u32 option" where
  "parse_i32 s =
     (if s = [] \<or> s = ''+'' \<or> s = ''-'' then None
      else if hd s = CHR ''-''
      then Option.bind (digits_value 0 (tl s)) (\<lambda>n. if n \<le> 2 ^ 31 then Some (- of_nat n) else None)
      else Option.bind (digits_value 0 (if hd s = CHR ''+'' then tl s else s))
             (\<lambda>n. if n < 2 ^ 31 then Some (of_nat n) else None))"

definition i32_to_string :: "u32 \<Rightarrow> string" where
  "i32_to_string w = (if sint w < 0 then CHR ''-'' # to_decimal (nat (- sint w)) else to_decimal (nat (sint w)))"

definition try_parse_hex :: "ton_lib \<Rightarrow> string \<Rightarrow> ton_address option" where
  "try_parse_hex L s =
     Option.bind (split_once CHR '':'' s) (\<lambda>(workchain, hash_part).
     Option.bind (parse_i32 workchain) (\<lambda>workchain.
     Option.bind (ton_hex_decode L hash_part) (\<lambda>hash_part.
       if length hash_part = 32 then Some (new_address workchain hash_part) else None)))"

definition address_try_parse :: "ton_lib \<Rightarrow> string \<Rightarrow> ton_address option" where
  "address_try_parse L s = (case try_parse_base64 L s of Some a \<Rightarrow> Some a | None \<Rightarrow> try_parse_hex L s)"

definition address_parse :: "ton_lib \<Rightarrow> string \<Rightarrow> ton_address signer_result" where
  "address_parse L s = ok_or (address_try_parse L s) (InvalidInput ''invalid TON address'')"

definition ton_validate_address :: "ton_lib \<Rightarrow> string \<Rightarrow> bool" where
  "ton_validate_address L s \<longleftrightarrow> address_try_parse L s \<noteq> None"

definition ensure_matches :: "ton_lib \<Rightarrow> string option \<Rightarrow> string \<Rightarrow> unit signer_result" where
  "ensure_matches L claimed actual =
     (case claimed of
        None \<Rightarrow> Ok ()
      | Some c \<Rightarrow> if c = [] then Ok ()
          else and_then (address_parse L c) (\<lambda>a. and_then (address_parse L actual) (\<lambda>b.
               if a \<noteq> b then invalid_input_err ''TON from does not match signer address'' else Ok ())))"

definition address_to_cell :: "(bytes \<Rightarrow> bytes) \<Rightarrow> ton_address \<Rightarrow> cell tvm_result" where
  "address_to_cell H a = and_then (store_address a builder_new) (build H)"

definition to_boc_base64 :: "ton_lib \<Rightarrow> ton_address \<Rightarrow> string tvm_result option" where
  "to_boc_base64 L a =
     (case address_to_cell (ton_sha256 L) a of Inl e \<Rightarrow> Some (Inl e) | Inr c \<Rightarrow> boc_to_base64 L (from_root c) True)"

definition address_from_cell :: "cell \<Rightarrow> ton_address tvm_result" where
  "address_from_cell c =
     and_then (from_bits (cell_data c) (cell_bit_len c)) (\<lambda>r.
     and_then (read_uint 2 r) (\<lambda>(tag, r).
     if tag = 0 then Err (TvmError ''address cell contains null address'')
     else if tag \<noteq> 2 then Err (TvmError ''address cell must contain std address'')
     else and_then (read_bit r) (\<lambda>(anycast, r).
       if anycast then Err (TvmError ''anycast addresses are not supported'')
       else and_then (read_u8 r) (\<lambda>(workchain, r).
            and_then (read_many 32 read_u8 r) (\<lambda>(hash_part, r).
            Ok (new_address (scast workchain) hash_part))))))"

definition from_boc_base64 :: "ton_lib \<Rightarrow> string \<Rightarrow> ton_address tvm_result" where
  "from_boc_base64 L s = and_then (boc_parse_base64_root L s) address_from_cell"

definition encode_user_friendly :: "ton_lib \<Rightarrow> ton_address \<Rightarrow> user_friendly_address_type \<Rightarrow> string" where
  "encode_user_friendly L a address_type =
     (let buffer = address_tag address_type # addr_bytes a;
          crc = crc16 L buffer
      in encode_base64_url L (buffer @ [ucast (drop_bit 8 crc AND 0xff), ucast (crc AND 0xff)]))"

definition encode_bounceable :: "ton_lib \<Rightarrow> ton_address \<Rightarrow> string" where
  "encode_bounceable L a = encode_user_friendly L a Bounceable"

definition encode_non_bounceable :: "ton_lib \<Rightarrow> ton_address \<Rightarrow> string" where
  "encode_non_bounceable L a = encode_user_friendly L a NonBounceable"

definition address_encode :: "ton_lib \<Rightarrow> ton_address \<Rightarrow> string" where
  "address_encode L a = encode_bounceable L a"

definition hex_to_base64_address :: "ton_lib \<Rightarrow> string \<Rightarrow> string option" where
  "hex_to_base64_address L s = map_option (address_encode L) (try_parse_hex L s)"

definition base64_to_hex_address :: "ton_lib \<Rightarrow> string \<Rightarrow> string option" where
  "base64_to_hex_address L s =
     map_option (\<lambda>a. i32_to_string (addr_workchain a) @ '':'' @ ton_hex_encode L (addr_hash_part a)) (try_parse_base64 L s)"

section \<open>Requests\<close>

definition JETTON_TRANSFER_OPCODE :: u32 where "JETTON_TRANSFER_OPCODE = 0x0f8a7ea5"
definition NFT_TRANSFER_OPCODE :: u32 where "NFT_TRANSFER_OPCODE = 0x5fcc3d14"
definition NFT_TRANSFER_FORWARD_AMOUNT :: u64 where "NFT_TRANSFER_FORWARD_AMOUNT = 10000000"
definition DEFAULT_SEND_MODE :: u8 where "DEFAULT_SEND_MODE = 3"
definition TRANSFER_ALL_TON_MODE :: u8 where "TRANSFER_ALL_TON_MODE = DEFAULT_SEND_MODE OR 0x80"

record jetton_transfer_request =
  jt_query_id :: u64
  jt_value :: nat
  jt_destination :: ton_address
  jt_response_address :: ton_address
  jt_custom_payload :: "cell option"
  jt_forward_ton_amount :: nat
  jt_comment :: "string option"

record nft_transfer_request =
  nt_query_id :: u64
  nt_new_owner :: ton_address
  nt_response_destination :: ton_address
  nt_forward_amount :: nat
  nt_comment :: "string option"

datatype transfer_payload = Jetton jetton_transfer_request | Nft nft_transfer_request | Custom cell

record transfer_request =
  tr_destination :: ton_address
  tr_value :: nat
  tr_mode :: u8
  tr_bounceable :: bool
  tr_comment :: "string option"
  tr_payload :: "transfer_payload option"
  tr_state_init :: "cell option"

definition biguint :: "ton_lib \<Rightarrow> string \<Rightarrow> nat signer_result" where
  "biguint L s = (case biguint_from_str L s of Inl e \<Rightarrow> Err (InvalidInput e) | Inr n \<Rightarrow> Ok n)"

definition new_transfer :: "ton_lib \<Rightarrow> string \<Rightarrow> string \<Rightarrow> bool \<Rightarrow> string option \<Rightarrow> transfer_request signer_result" where
  "new_transfer L destination v is_max comment =
     and_then (address_parse L destination) (\<lambda>destination.
     and_then (biguint L v) (\<lambda>v.
     Ok \<lparr>tr_destination = destination, tr_value = v,
         tr_mode = (if is_max then TRANSFER_ALL_TON_MODE else DEFAULT_SEND_MODE),
         tr_bounceable = False, tr_comment = comment, tr_payload = None, tr_state_init = None\<rparr>))"

definition new_contract_transfer :: "ton_lib \<Rightarrow> string \<Rightarrow> nat \<Rightarrow> transfer_payload \<Rightarrow> transfer_request signer_result" where
  "new_contract_transfer L destination attached_amount payload =
     and_then (address_parse L destination) (\<lambda>destination.
     Ok \<lparr>tr_destination = destination, tr_value = attached_amount, tr_mode = DEFAULT_SEND_MODE,
         tr_bounceable = True, tr_comment = None, tr_payload = Some payload, tr_state_init = None\<rparr>)"

definition new_with_payload ::
  "ton_lib \<Rightarrow> string \<Rightarrow> string \<Rightarrow> string option \<Rightarrow> cell option \<Rightarrow> bool \<Rightarrow> cell option \<Rightarrow> transfer_request signer_result" where
  "new_with_payload L destination amount comment payload bounceable state_init =
     and_then (address_parse L destination) (\<lambda>destination.
     and_then (biguint L amount) (\<lambda>amount.
     Ok \<lparr>tr_destination = destination, tr_value = amount, tr_mode = DEFAULT_SEND_MODE,
         tr_bounceable = bounceable, tr_comment = comment, tr_payload = map_option Custom payload,
         tr_state_init = state_init\<rparr>))"

section \<open>Messages\<close>

record internal_message =
  im_mode :: u8
  im_message :: cell

definition build_comment_payload :: "(bytes \<Rightarrow> bytes) \<Rightarrow> string \<Rightarrow> cell signer_result" where
  "build_comment_payload H comment =
     tvm (and_then (store_chain [store_u32 32 0, store_string_snake H comment] builder_new) (build H))"

text \<open>\<open>comment.as_deref().map(build_comment_payload).transpose()\<close>\<close>

definition comment_payload :: "(bytes \<Rightarrow> bytes) \<Rightarrow> string option \<Rightarrow> cell option signer_result" where
  "comment_payload H comment =
     (case comment of None \<Rightarrow> Ok None | Some c \<Rightarrow> and_then (build_comment_payload H c) (\<lambda>p. Ok (Some p)))"

definition build_jetton_payload :: "(bytes \<Rightarrow> bytes) \<Rightarrow> jetton_transfer_request \<Rightarrow> cell signer_result" where
  "build_jetton_payload H request =
     and_then (tvm (store_chain
       [store_u32 32 JETTON_TRANSFER_OPCODE,
        store_u64 64 (jt_query_id request),
        store_coins (jt_value request),
        store_address (jt_destination request),
        store_address (jt_response_address request),
        store_maybe_reference (jt_custom_payload request)] builder_new)) (\<lambda>builder.
     and_then (comment_payload H (jt_comment request)) (\<lambda>forward_payload.
     tvm (and_then (store_chain
       [store_coins (jt_forward_ton_amount request),
        store_maybe_reference forward_payload] builder) (build H))))"

definition build_nft_payload :: "(bytes \<Rightarrow> bytes) \<Rightarrow> nft_transfer_request \<Rightarrow> cell signer_result" where
  "build_nft_payload H request =
     and_then (tvm (store_chain
       [store_u32 32 NFT_TRANSFER_OPCODE,
        store_u64 64 (nt_query_id request),
        store_address (nt_new_owner request),
        store_address (nt_response_destination request),
        store_maybe_reference None] builder_new)) (\<lambda>builder.
     and_then (comment_payload H (nt_comment request)) (\<lambda>forward_payload.
     tvm (and_then (store_chain
       [store_coins (nt_forward_amount request),
        store_maybe_reference forward_payload] builder) (build H))))"

definition build_payload :: "(bytes \<Rightarrow> bytes) \<Rightarrow> transfer_request \<Rightarrow> cell signer_result" where
  "build_payload H request =
     (case tr_payload request of
        Some (Jetton jetton) \<Rightarrow> build_jetton_payload H jetton
      | Some (Nft nft) \<Rightarrow> build_nft_payload H nft
      | Some (Custom payload) \<Rightarrow> Ok payload
      | None \<Rightarrow> (case tr_comment request of
                  Some comment \<Rightarrow> build_comment_payload H comment
                | None \<Rightarrow> tvm (build H builder_new)))"

definition build_internal_message :: "(bytes \<Rightarrow> bytes) \<Rightarrow> transfer_request \<Rightarrow> internal_message signer_result" where
  "build_internal_message H request =
     and_then (build_payload H request) (\<lambda>payload.
     and_then (tvm (and_then (store_chain (
       [store_bit False, store_bit True, store_bit (tr_bounceable request), store_bit False,
        store_null_address, store_address (tr_destination request),
        store_coins (tr_value request), store_bit False, store_coins 0, store_coins 0,
        store_u64 64 0, store_u32 32 0]
       @ (case tr_state_init request of
            Some state_init \<Rightarrow> [store_bit True, store_bit True, store_reference state_init]
          | None \<Rightarrow> [store_bit False])
       @ [store_bit True, store_reference payload]) builder_new) (build H))) (\<lambda>message.
     Ok \<lparr>im_mode = tr_mode request, im_message = message\<rparr>))"

section \<open>The wallet contract\<close>

definition DEFAULT_WALLET_ID :: u32 where "DEFAULT_WALLET_ID = 0x29a9a317"

record wallet_v4r2 =
  w_public_key :: bytes
  w_address :: ton_address

definition build_state_init :: "ton_lib \<Rightarrow> bytes \<Rightarrow> cell signer_result" where
  "build_state_init L public_key =
     tvm (and_then (and_then (store_chain [store_u32 32 0, store_i32 32 DEFAULT_WALLET_ID,
                                           store_slice public_key, store_bit False] builder_new)
                             (build (ton_sha256 L))) (\<lambda>d.
          and_then (store_chain [store_bit False, store_bit False, store_bit True, store_bit True, store_bit False,
                                 store_reference (wallet_v4r2_code L), store_reference d] builder_new)
                   (build (ton_sha256 L))))"

definition new_wallet :: "ton_lib \<Rightarrow> bytes \<Rightarrow> wallet_v4r2 signer_result" where
  "new_wallet L public_key =
     and_then (build_state_init L public_key) (\<lambda>state_init.
     Ok \<lparr>w_public_key = public_key, w_address = new_address 0 (cell_hash state_init)\<rparr>)"

definition state_init_base64 :: "ton_lib \<Rightarrow> wallet_v4r2 \<Rightarrow> string signer_result option" where
  "state_init_base64 L w =
     (case build_state_init L (w_public_key w) of
        Inl e \<Rightarrow> Some (Inl e)
      | Inr c \<Rightarrow> map_option tvm (boc_to_base64 L (from_root c) True))"

definition build_external_body :: "(bytes \<Rightarrow> bytes) \<Rightarrow> u32 \<Rightarrow> u32 \<Rightarrow> internal_message list \<Rightarrow> cell signer_result" where
  "build_external_body H expire_at sequence messages =
     tvm (and_then (store_chain (
       [store_i32 32 DEFAULT_WALLET_ID, store_u32 32 expire_at, store_u32 32 sequence, store_u8 8 0]
       @ concat (map (\<lambda>m. [store_u8 8 (im_mode m), store_child (im_message m)]) messages)) builder_new) (build H))"

definition build_transaction :: "ton_lib \<Rightarrow> wallet_v4r2 \<Rightarrow> bool \<Rightarrow> cell \<Rightarrow> cell signer_result" where
  "build_transaction L w include_state_init signed_body =
     and_then (tvm (store_chain [store_u8 2 2, store_null_address, store_address (w_address w), store_coins 0] builder_new))
       (\<lambda>builder.
     and_then (if include_state_init
               then and_then (tvm (store_chain [store_bit True, store_bit True] builder)) (\<lambda>builder.
                    and_then (build_state_init L (w_public_key w)) (\<lambda>state_init.
                    tvm (store_child state_init builder)))
               else tvm (store_bit False builder)) (\<lambda>builder.
     tvm (and_then (store_chain [store_bit True, store_child signed_body] builder) (build (ton_sha256 L)))))"

section \<open>Signing transfers\<close>

record ton_signer =
  ts_private_key :: bytes
  ts_public_key :: bytes
  ts_wallet :: wallet_v4r2

definition new_ton_signer :: "ton_lib \<Rightarrow> bytes \<Rightarrow> ton_signer signer_result" where
  "new_ton_signer L private_key =
     (if length private_key \<noteq> 32 then invalid_input_err ''Invalid Ed25519 private key length''
      else let public_key = ed25519_public_key L private_key
           in and_then (new_wallet L public_key) (\<lambda>wallet.
              Ok \<lparr>ts_private_key = private_key, ts_public_key = public_key, ts_wallet = wallet\<rparr>))"

definition ts_address :: "ton_signer \<Rightarrow> ton_address" where
  "ts_address s = w_address (ts_wallet s)"

definition ts_sign :: "ton_lib \<Rightarrow> ton_signer \<Rightarrow> bytes \<Rightarrow> bytes" where
  "ts_sign L s digest = ed25519_sign L (ts_private_key s) digest"

definition STATE_INIT_EXPIRE_AT :: u32 where "STATE_INIT_EXPIRE_AT = - 1"
definition EXTERNAL_EXPIRE_WINDOW_SECS :: u64 where "EXTERNAL_EXPIRE_WINDOW_SECS = 600"

definition resolve_expire_at :: "u64 \<Rightarrow> u32 \<Rightarrow> u32 option \<Rightarrow> u32 signer_result" where
  "resolve_expire_at now sequence expire_at =
     (if sequence = 0 then Ok STATE_INIT_EXPIRE_AT
      else case expire_at of
        Some v \<Rightarrow> Ok v
      | None \<Rightarrow> ok_or (u32_try_from (now + EXTERNAL_EXPIRE_WINDOW_SECS)) (InvalidInput ''TON expire time does not fit in u32''))"

definition sign_requests_cell :: "ton_lib \<Rightarrow> ton_signer \<Rightarrow> u64 \<Rightarrow> transfer_request list \<Rightarrow> u64 \<Rightarrow> u32 option \<Rightarrow> cell signer_result" where
  "sign_requests_cell L s now requests sequence expire_at =
     and_then (ok_or (u32_try_from sequence) (InvalidInput ''TON sequence does not fit in u32'')) (\<lambda>sequence.
     and_then (resolve_expire_at now sequence expire_at) (\<lambda>expire_at.
     and_then (traverse (build_internal_message (ton_sha256 L)) requests) (\<lambda>internal_messages.
     and_then (build_external_body (ton_sha256 L) expire_at sequence internal_messages) (\<lambda>external_body.
     let signature = ts_sign L s (cell_hash external_body)
     in and_then (tvm (and_then (store_chain [store_slice signature, store_cell external_body] builder_new)
                                (build (ton_sha256 L)))) (\<lambda>body.
        build_transaction L (ts_wallet s) (sequence = 0) body)))))"

definition sign_requests :: "ton_lib \<Rightarrow> ton_signer \<Rightarrow> u64 \<Rightarrow> transfer_request list \<Rightarrow> u64 \<Rightarrow> u32 option \<Rightarrow> string signer_result option" where
  "sign_requests L s now requests sequence expire_at =
     (case sign_requests_cell L s now requests sequence expire_at of
        Inl e \<Rightarrow> Some (Inl e)
      | Inr signed_transaction \<Rightarrow> map_option tvm (boc_to_base64 L (from_root signed_transaction) True))"

text \<open>The requests the entry points build, with the sequence number they read.\<close>

fun with_request :: "'a signer_result \<Rightarrow> ('a \<Rightarrow> 'b signer_result option) \<Rightarrow> 'b signer_result option" where
  "with_request (Inl e) f = Some (Inl e)"
| "with_request (Inr x) f = f x"

definition optional_ton_attachment :: "signer_input \<Rightarrow> nat signer_result" where
  "optional_ton_attachment input =
     (case fee_options (input_fee input) TokenAccountCreation of
        None \<Rightarrow> Ok 0
      | Some v \<Rightarrow> if 0 \<le> v then Ok (nat v) else invalid_input_err ''invalid TON amount'')"

definition ton_sign_transfer :: "ton_lib \<Rightarrow> ton_signer \<Rightarrow> u64 \<Rightarrow> signer_input \<Rightarrow> u32 option \<Rightarrow> string signer_result option" where
  "ton_sign_transfer L s now input expire_at =
     with_request (new_transfer L (destination_address input) (to_decimal (input_value input)) (is_max_value input) (memo input)) (\<lambda>request.
     with_request (get_sequence (metadata input)) (\<lambda>sequence.
     sign_requests L s now [request] sequence expire_at))"

definition ton_sign_token_transfer :: "ton_lib \<Rightarrow> ton_signer \<Rightarrow> u64 \<Rightarrow> signer_input \<Rightarrow> u32 option \<Rightarrow> string signer_result option" where
  "ton_sign_token_transfer L s now input expire_at =
     with_request (and_then (get_sender_token_address (metadata input)) (\<lambda>a. ok_or a (InvalidInput ''missing sender token address''))) (\<lambda>sender_token_address.
     with_request (address_parse L (destination_address input)) (\<lambda>destination.
     with_request (address_parse L (sender_address input)) (\<lambda>response_address.
     with_request (optional_ton_attachment input) (\<lambda>attachment.
     with_request (new_contract_transfer L sender_token_address attachment
       (Jetton \<lparr>jt_query_id = 0, jt_value = input_value input, jt_destination = destination,
                jt_response_address = response_address, jt_custom_payload = None, jt_forward_ton_amount = 1,
                jt_comment = memo input\<rparr>)) (\<lambda>request.
     with_request (get_sequence (metadata input)) (\<lambda>sequence.
     sign_requests L s now [request] sequence expire_at))))))"

definition ton_sign_nft_transfer :: "ton_lib \<Rightarrow> ton_signer \<Rightarrow> u64 \<Rightarrow> signer_input \<Rightarrow> u32 option \<Rightarrow> string signer_result option" where
  "ton_sign_nft_transfer L s now input expire_at =
     with_request (and_then (get_nft_asset (input_type input)) get_contract_address) (\<lambda>nft_item.
     with_request (address_parse L (destination_address input)) (\<lambda>new_owner.
     with_request (address_parse L (sender_address input)) (\<lambda>response_destination.
     with_request (optional_ton_attachment input) (\<lambda>attachment.
     with_request (new_contract_transfer L nft_item attachment
       (Nft \<lparr>nt_query_id = 0, nt_new_owner = new_owner, nt_response_destination = response_destination,
             nt_forward_amount = unat NFT_TRANSFER_FORWARD_AMOUNT, nt_comment = memo input\<rparr>)) (\<lambda>request.
     with_request (get_sequence (metadata input)) (\<lambda>sequence.
     sign_requests L s now [request] sequence expire_at))))))"

definition ton_sign_swap :: "ton_lib \<Rightarrow> ton_signer \<Rightarrow> u64 \<Rightarrow> signer_input \<Rightarrow> u32 option \<Rightarrow> string list signer_result option" where
  "ton_sign_swap L s now input expire_at =
     with_request (get_swap_data (input_type input)) (\<lambda>swap.
     with_request (tvm (boc_parse_base64_root L (swap_call_data (quote_data swap)))) (\<lambda>payload.
     with_request (new_with_payload L (swap_to (quote_data swap)) (to_decimal (swap_data_value (quote_data swap)))
                     (memo input) (Some payload) True None) (\<lambda>request.
     with_request (get_sequence (metadata input)) (\<lambda>sequence.
     map_option (\<lambda>r. and_then r (\<lambda>t. Ok [t])) (sign_requests L s now [request] sequence expire_at)))))"

section \<open>Requests of connected applications\<close>

definition TON_NETWORK :: string where "TON_NETWORK = ''-239''"

definition parse_cell :: "ton_lib \<Rightarrow> string option \<Rightarrow> string \<Rightarrow> cell option signer_result" where
  "parse_cell L s name =
     (case s of
        None \<Rightarrow> Ok None
      | Some s \<Rightarrow> (case boc_parse_base64_root L s of
                    Inl (TvmError e) \<Rightarrow> invalid_input_err (''invalid TON WalletConnect '' @ name @ '': '' @ e)
                  | Inr c \<Rightarrow> Ok (Some c)))"

definition parse_expire_at :: "u64 \<Rightarrow> u64 \<Rightarrow> u32 signer_result" where
  "parse_expire_at now v =
     and_then (ok_or (u32_try_from v) (InvalidInput ''TON WalletConnect expiration does not fit in u32'')) (\<lambda>expire_at.
     if v \<le> now then invalid_input_err ''TON WalletConnect transaction expired'' else Ok expire_at)"

definition into_request :: "ton_lib \<Rightarrow> ton_connect_message \<Rightarrow> transfer_request signer_result" where
  "into_request L m =
     (if (case tcm_extra_currency m of None \<Rightarrow> False | Some currencies \<Rightarrow> currencies \<noteq> [])
      then invalid_input_err ''TON extra currencies are not supported''
      else and_then (ok_or (parse_user_friendly L (tcm_address m)) (InvalidInput ''TON WalletConnect destination must be user-friendly'')) (\<lambda>(destination, bounceable).
           and_then (biguint L (tcm_amount m)) (\<lambda>v.
           and_then (parse_cell L (tcm_payload m) ''payload'') (\<lambda>payload.
           and_then (parse_cell L (tcm_state_init m) ''state init'') (\<lambda>state_init.
           Ok \<lparr>tr_destination = destination, tr_value = v, tr_mode = DEFAULT_SEND_MODE, tr_bounceable = bounceable,
               tr_comment = None, tr_payload = map_option Custom payload, tr_state_init = state_init\<rparr>)))))"

definition wallet_connect_request :: "ton_lib \<Rightarrow> ton_signer \<Rightarrow> u64 \<Rightarrow> signer_input \<Rightarrow> (transfer_request \<times> u64 \<times> u32 option) signer_result" where
  "wallet_connect_request L s now input =
     and_then (get_generic_data (input_type input)) (\<lambda>extra.
     if output_type extra \<noteq> EncodedTransaction then invalid_input_err ''TON WalletConnect requires encoded transaction output''
     else and_then (ok_or (extra_data extra) (InvalidInput ''missing TON WalletConnect transaction data'')) (\<lambda>d.
     and_then (case json_connect_request L d of
                 Inl e \<Rightarrow> invalid_input_err (''invalid TON WalletConnect request: '' @ e)
               | Inr request \<Rightarrow> Ok request) (\<lambda>request.
     and_then (address_parse L (sender_address input)) (\<lambda>sender.
     if sender \<noteq> ts_address s then invalid_input_err ''TON sender does not match signing key''
     else and_then (ensure_matches L (tcr_from request) (sender_address input)) (\<lambda>_.
     if (case tcr_network request of None \<Rightarrow> False | Some network \<Rightarrow> network \<noteq> TON_NETWORK)
     then invalid_input_err ''TON WalletConnect network does not match wallet network''
     else and_then (case tcr_valid_until request of
                      None \<Rightarrow> Ok None
                    | Some v \<Rightarrow> and_then (parse_expire_at now v) (\<lambda>e. Ok (Some e))) (\<lambda>expire_at.
     and_then (case tcr_messages request of
                 [m] \<Rightarrow> Ok m
               | _ \<Rightarrow> invalid_input_err ''TON WalletConnect requires exactly one message'') (\<lambda>message.
     and_then (case get_sequence (metadata input) of
                 Inl (InvalidInput e) \<Rightarrow> invalid_input_err (''invalid TON transaction metadata: '' @ e)
               | r \<Rightarrow> r) (\<lambda>sequence.
     and_then (into_request L message) (\<lambda>request.
     Ok (request, sequence, expire_at))))))))))"

definition sign_wallet_connect :: "ton_lib \<Rightarrow> ton_signer \<Rightarrow> u64 \<Rightarrow> signer_input \<Rightarrow> string signer_result option" where
  "sign_wallet_connect L s now input =
     with_request (wallet_connect_request L s now input) (\<lambda>(request, sequence, expire_at).
     sign_requests L s now [request] sequence expire_at)"

section \<open>Signed messages\<close>

definition SIGN_DATA_PREFIX :: bytes where
  "SIGN_DATA_PREFIX = [0xff, 0xff] @ as_bytes ''ton-connect/sign-data/''"

definition CELL_SIGN_PREFIX :: u32 where "CELL_SIGN_PREFIX = 0x75569022"

fun payload_encode :: "ton_lib \<Rightarrow> ton_sign_data_payload \<Rightarrow> (string \<times> bytes) signer_result" where
  "payload_encode L (TextPayload text) = Ok (''txt'', as_bytes text)"
| "payload_encode L (BinaryPayload bs) =
     and_then (ok_or (decode_base64 L bs) (InvalidInput ''invalid base64'')) (\<lambda>b. Ok (''bin'', b))"
| "payload_encode L (CellPayload _ _) = invalid_input_err ''Cell payload not supported for sign-data''"

text \<open>\<open>str::split\<close> on a character.\<close>

fun split_char :: "char \<Rightarrow> string \<Rightarrow> string list" where
  "split_char c [] = [[]]"
| "split_char c (x # xs) =
     (if x = c then [] # split_char c xs
      else case split_char c xs of [] \<Rightarrow> [[x]] | p # ps \<Rightarrow> (x # p) # ps)"

definition dns_wire_domain :: "string \<Rightarrow> bytes signer_result" where
  "dns_wire_domain domain =
     try_fold (\<lambda>encoded label.
       if label = [] \<or> CHR 0x00 \<in> set label then invalid_input_err ''invalid TON app domain''
       else Ok (encoded @ as_bytes label @ [0])) [] (rev (split_char CHR ''.'' domain))"

definition cell_payload_hash :: "ton_lib \<Rightarrow> string \<Rightarrow> string \<Rightarrow> string \<Rightarrow> ton_address \<Rightarrow> u64 \<Rightarrow> bytes signer_result" where
  "cell_payload_hash L domain schema c address timestamp =
     and_then (tvm (boc_parse_base64_root L c)) (\<lambda>payload.
     and_then (dns_wire_domain domain) (\<lambda>domain.
     and_then (tvm (store_slice_snake (ton_sha256 L) domain builder_new)) (\<lambda>domain_builder.
     and_then (tvm (store_chain
       [store_u32 32 CELL_SIGN_PREFIX, store_u32 32 (crc32_iso L (as_bytes schema)), store_u64 64 timestamp,
        store_address address] builder_new)) (\<lambda>builder.
     and_then (tvm (build (ton_sha256 L) domain_builder)) (\<lambda>domain_cell.
     and_then (tvm (and_then (store_chain [store_child domain_cell, store_reference payload] builder)
                             (build (ton_sha256 L)))) (\<lambda>message.
     Ok (cell_hash message)))))))"

definition sign_data_message :: "ton_address \<Rightarrow> string \<Rightarrow> u64 \<Rightarrow> string \<Rightarrow> bytes \<Rightarrow> bytes" where
  "sign_data_message address domain timestamp type_prefix payload =
     SIGN_DATA_PREFIX
     @ be_bytes 4 (addr_workchain address)
     @ addr_hash_part address
     @ be_bytes 4 (of_nat (length (as_bytes domain)) :: u32)
     @ as_bytes domain
     @ be_bytes 8 timestamp
     @ as_bytes type_prefix
     @ be_bytes 4 (of_nat (length payload) :: u32)
     @ payload"

definition hash_with_address :: "ton_lib \<Rightarrow> ton_sign_message_data \<Rightarrow> u64 \<Rightarrow> ton_address \<Rightarrow> bytes signer_result" where
  "hash_with_address L m timestamp address =
     (case tsm_payload m of
        CellPayload schema c \<Rightarrow> cell_payload_hash L (tsm_domain m) schema c address timestamp
      | payload \<Rightarrow>
          and_then (payload_encode L payload) (\<lambda>(type_prefix, payload_bytes).
          Ok (ton_sha256 L (sign_data_message address (tsm_domain m) timestamp type_prefix payload_bytes))))"

record ton_sign_result =
  sr_signature :: bytes
  sr_public_key :: bytes
  sr_timestamp :: u64

definition ton_sign_personal :: "ton_lib \<Rightarrow> ton_signer \<Rightarrow> bytes \<Rightarrow> u64 \<Rightarrow> ton_sign_result signer_result" where
  "ton_sign_personal L s d timestamp =
     and_then (case json_sign_message L d of Inl e \<Rightarrow> invalid_input_err e | Inr m \<Rightarrow> Ok m) (\<lambda>m.
     and_then (ensure_matches L (Some (tsm_address m)) (address_encode L (ts_address s))) (\<lambda>_.
     and_then (hash_with_address L m timestamp (ts_address s)) (\<lambda>digest.
     Ok \<lparr>sr_signature = ts_sign L s digest, sr_public_key = ts_public_key s, sr_timestamp = timestamp\<rparr>)))"

section \<open>Entry points\<close>

definition ton_sign_message :: "ton_lib \<Rightarrow> u64 \<Rightarrow> bytes \<Rightarrow> bytes \<Rightarrow> string signer_result" where
  "ton_sign_message L now message private_key =
     and_then (new_ton_signer L private_key) (\<lambda>s.
     and_then (ton_sign_personal L s message now) (\<lambda>r. Ok (encode_base64 L (sr_signature r))))"

definition chain_sign_transfer :: "ton_lib \<Rightarrow> u64 \<Rightarrow> signer_input \<Rightarrow> bytes \<Rightarrow> string signer_result option" where
  "chain_sign_transfer L now input private_key =
     with_request (new_ton_signer L private_key) (\<lambda>s. ton_sign_transfer L s now input None)"

definition chain_sign_token_transfer :: "ton_lib \<Rightarrow> u64 \<Rightarrow> signer_input \<Rightarrow> bytes \<Rightarrow> string signer_result option" where
  "chain_sign_token_transfer L now input private_key =
     with_request (new_ton_signer L private_key) (\<lambda>s. ton_sign_token_transfer L s now input None)"

definition chain_sign_nft_transfer :: "ton_lib \<Rightarrow> u64 \<Rightarrow> signer_input \<Rightarrow> bytes \<Rightarrow> string signer_result option" where
  "chain_sign_nft_transfer L now input private_key =
     with_request (new_ton_signer L private_key) (\<lambda>s. ton_sign_nft_transfer L s now input None)"

definition chain_sign_swap :: "ton_lib \<Rightarrow> u64 \<Rightarrow> signer_input \<Rightarrow> bytes \<Rightarrow> string list signer_result option" where
  "chain_sign_swap L now input private_key =
     with_request (new_ton_signer L private_key) (\<lambda>s. ton_sign_swap L s now input None)"

definition chain_sign_data :: "ton_lib \<Rightarrow> u64 \<Rightarrow> signer_input \<Rightarrow> bytes \<Rightarrow> string signer_result option" where
  "chain_sign_data L now input private_key =
     with_request (new_ton_signer L private_key) (\<lambda>s. sign_wallet_connect L s now input)"

end
