(* ===== verification/Ton_Messages.thy ===== *)
theory Ton_Messages
  imports Ton
begin

unbundle bit_operations_syntax

text \<open>
  What the cells that TON requests are turned into hold: cells built by a chain of store operations
  (\<open>built_cell\<close>, \<open>build_total\<close>), comments that span cells (\<open>comment_payload_snake\<close>),
  addresses as cells and as text, the bits and references of internal messages and of the unsigned body,
  that these determine the request (\<open>message_binds\<close>, \<open>body_binds\<close>), and that every operation
  keeps the trees of cells valid (\<open>keeps_rules\<close>).
\<close>

section \<open>Built cells\<close>

definition cell_bits :: "cell \<Rightarrow> bool list" where
  "cell_bits c = take (cell_bit_len c) (to_bits (cell_data c))"

definition valid_tree :: "(bytes \<Rightarrow> bytes) \<Rightarrow> cell \<Rightarrow> bool" where
  "valid_tree H c \<longleftrightarrow> (\<forall>x\<in>set (subcells c). valid_cell H x)"

lemma try_new_fields: "try_new H d n rs = Some c \<Longrightarrow> cell_data c = d \<and> cell_bit_len c = n \<and> cell_references c = rs"
  by (auto simp: try_new_def split: if_splits option.splits)

lemma build_Ok:
  assumes "build H (builder_of bs rs) = Ok c"
  shows "cell_bits c = bs" "cell_references c = rs" "cell_data c = pack_bits bs" "cell_bit_len c = length bs" "valid_cell H c"
proof -
  have t: "try_new H (pack_bits bs) (length bs) rs = Some c"
    using assms by (simp add: build_def builder_of_def writer_of_def new_cell_def ok_or_Inr_iff)
  note f = try_new_fields [OF t]
  then show "cell_bits c = bs" "cell_references c = rs" "cell_data c = pack_bits bs" "cell_bit_len c = length bs"
    by (simp_all add: cell_bits_def take_to_bits_pack)
  show "valid_cell H c" using f t canonical_pack [of bs] by (simp add: valid_cell_def)
qed

lemma subcells_references: "set (subcells c) = insert c (\<Union>r\<in>set (cell_references c). set (subcells r))"
  by (cases c) simp

lemma build_valid_tree:
  assumes "build H (builder_of bs rs) = Ok c" "\<And>r. r \<in> set rs \<Longrightarrow> valid_tree H r"
  shows "valid_tree H c"
  using assms build_Ok [OF assms(1)] by (auto simp: valid_tree_def subcells_references [of c])

text \<open>A chain of store operations on a new builder, and the cell built from it.\<close>

lemma built_cell:
  assumes "stores op bs rs" "and_then (op builder_new) (build H) = Ok c"
  shows "cell_bits c = bs" "cell_references c = rs" "valid_cell H c" "build H (builder_of bs rs) = Ok c"
proof -
  have "build H (builder_of bs rs) = Ok c"
    using assms storesD [OF assms(1), of "[]" "[]"] by (auto simp: builder_new_builder_of and_then_Inr_iff)
  then show "cell_bits c = bs" "cell_references c = rs" "valid_cell H c" "build H (builder_of bs rs) = Ok c"
    using build_Ok by auto
qed

lemma build_total:
  assumes "length bs \<le> MAX_CELL_BITS" "length rs \<le> MAX_CELL_REFERENCES" "\<And>r. r \<in> set rs \<Longrightarrow> unat (cell_depth r) < 65535"
  shows "\<exists>c. build H (builder_of bs rs) = Ok c \<and> (\<forall>n. (\<forall>r\<in>set rs. unat (cell_depth r) < n) \<longrightarrow> unat (cell_depth c) \<le> n)"
proof -
  obtain dsc where dsc: "bits_descriptor (length bs) = Some dsc"
    using assms(1) div_ceil_8_le [of "length bs" 128] by (auto simp: bits_descriptor_def MAX_CELL_BITS_def Let_def)
  define m where "m = Max (set (map cell_depth rs))"
  obtain dp where dp: "(if rs = [] then Some 0 else case max_depth rs of None \<Rightarrow> None | Some m \<Rightarrow> checked_add m 1) = Some dp"
    and le: "\<forall>n. (\<forall>r\<in>set rs. unat (cell_depth r) < n) \<longrightarrow> unat dp \<le> n"
  proof (cases "rs = []")
    case False
    then have "m \<in> set (map cell_depth rs)" unfolding m_def by (intro Max_in) auto
    then obtain r where r: "r \<in> set rs" "m = cell_depth r" by auto
    then have u: "unat m + unat (1 :: u16) < 2 ^ LENGTH(16)" using assms(3) [OF r(1)] by simp
    show thesis
      by (rule that [of "m + 1"]) (use False r u unat_add_le [OF u] in \<open>auto simp: max_depth_def m_def checked_add_def\<close>)
  qed (rule that [of 0], auto)
  then show ?thesis
    using assms(1,2) dsc
    by (auto simp: build_def builder_of_def writer_of_def new_cell_def try_new_def)
qed

section \<open>Long strings\<close>

text \<open>How a contract reads a string that spans cells: the bytes of a cell, then its first reference.\<close>

primrec snake_data :: "cell \<Rightarrow> bytes" where
  "snake_data (Cell d n rs dp h) = d @ concat (take 1 (map snake_data rs))"

lemma snake_data_unfold: "snake_data c = cell_data c @ concat (take 1 (map snake_data (cell_references c)))"
  by (cases c) simp

lemma remaining_bits_builder_of: "remaining_bits (builder_of bs rs) = MAX_CELL_BITS - length bs"
  by (simp add: remaining_bits_def builder_of_def writer_of_def)

lemma store_slice_builder_of:
  "length bs + 8 * length xs \<le> MAX_CELL_BITS \<Longrightarrow> length rs \<le> MAX_CELL_REFERENCES \<Longrightarrow>
     store_slice xs (builder_of bs rs) = Ok (builder_of (bs @ to_bits xs) rs)"
  using storesD [OF stores_slice [of xs], of bs rs] by auto

lemma snake_short:
  assumes "length bs + 8 * length xs \<le> MAX_CELL_BITS" "length rs \<le> MAX_CELL_REFERENCES"
  shows "store_slice_snake H xs (builder_of bs rs) = Ok (builder_of (bs @ to_bits xs) rs)"
proof -
  have "length xs \<le> remaining_bits (builder_of bs rs) div 8"
    using assms(1) by (simp add: remaining_bits_builder_of less_eq_div_iff_mult_less_eq)
  then show ?thesis
    using store_slice_builder_of [OF assms] by (subst store_slice_snake.simps) simp
qed

lemma snake_long:
  assumes "length bs \<le> MAX_CELL_BITS" "length rs < MAX_CELL_REFERENCES"
    and "cap = (MAX_CELL_BITS - length bs) div 8" "cap < length xs"
    and "store_slice_snake H (drop cap xs) builder_new = Ok b" "build H b = Ok c"
  shows "store_slice_snake H xs (builder_of bs rs) = Ok (builder_of (bs @ to_bits (take cap xs)) (rs @ [c]))"
proof -
  have "8 * cap \<le> MAX_CELL_BITS - length bs" using assms(3) by simp
  then have head: "store_slice (take cap xs) (builder_of bs rs) = Ok (builder_of (bs @ to_bits (take cap xs)) rs)"
    using assms(1,2,4) by (intro store_slice_builder_of) auto
  have child: "store_child c (builder_of bs' rs) = Ok (builder_of bs' (rs @ [c]))" for bs'
    using assms(2) by (simp add: store_child_def store_reference_def builder_of_def)
  show ?thesis
    using assms(3-) head child
    by (subst store_slice_snake.simps) (simp add: remaining_bits_builder_of Let_def)
qed

lemma snake_chain:
  assumes "length xs \<le> 127 * Suc n" "n < 65535"
  shows "\<exists>b c. store_slice_snake H xs builder_new = Ok b \<and> build H b = Ok c \<and> snake_data c = xs \<and> unat (cell_depth c) \<le> n"
  using assms
proof (induction n arbitrary: xs)
  case 0
  then have s: "store_slice_snake H xs (builder_of [] []) = Ok (builder_of (to_bits xs) [])"
    using snake_short [of "[]" xs "[]"] by (simp add: MAX_CELL_BITS_def)
  obtain c where "build H (builder_of (to_bits xs) []) = Ok c" "unat (cell_depth c) \<le> 0"
    using build_total [of "to_bits xs" "[]" H] 0 by (auto simp: MAX_CELL_BITS_def)
  then show ?case using s build_Ok [of H "to_bits xs" "[]" c] by (auto simp: builder_new_builder_of snake_data_unfold [of c])
next
  case (Suc n)
  show ?case
  proof (cases "length xs \<le> 127")
    case True
    then show ?thesis using Suc.IH [of xs] Suc.prems by force
  next
    case False
    have len: "length (drop 127 xs) \<le> 127 * Suc n" using Suc.prems(1) by simp
    obtain b r where r: "store_slice_snake H (drop 127 xs) builder_new = Ok b" "build H b = Ok r"
        "snake_data r = drop 127 xs" "unat (cell_depth r) \<le> n"
      using Suc.IH [OF len] Suc.prems(2) by auto
    let ?bs = "to_bits (take 127 xs)"
    have s: "store_slice_snake H xs (builder_of [] []) = Ok (builder_of ?bs [r])"
      using snake_long [of "[]" "[]" 127 xs H b r] False r(1,2) by (simp add: MAX_CELL_BITS_def MAX_CELL_REFERENCES_def)
    obtain c where "build H (builder_of ?bs [r]) = Ok c" "unat (cell_depth c) \<le> Suc n"
      using build_total [of ?bs "[r]" H] r(4) Suc.prems(2)
      by (fastforce simp: MAX_CELL_BITS_def MAX_CELL_REFERENCES_def less_Suc_eq_le)
    then show ?thesis
      using s r(3) build_Ok [of H ?bs "[r]" c] by (auto simp: builder_new_builder_of snake_data_unfold [of c])
  qed
qed

lemma comment_payload_snake:
  assumes "length comment \<le> 123 + 127 * 65535"
  shows "\<exists>c. build_comment_payload H comment = Ok c \<and> snake_data c = [0, 0, 0, 0] @ as_bytes comment"
proof -
  let ?xs = "as_bytes comment" and ?z = "to_bits [0, 0, 0, 0]"
  have z: "uint_bits 32 (0 :: u32) = ?z"
    by (rule nth_equalityI) (auto simp: nth_uint_bits nth_to_bits nth_Cons')
  have start: "store_u32 32 0 builder_new = Ok (builder_of ?z [])"
    using storesD [OF stores_u32 [of 32 0], of "[]" "[]"] z
    by (simp add: builder_new_builder_of MAX_CELL_BITS_def)
  have fin: "\<exists>c. build_comment_payload H comment = Ok c \<and> snake_data c = [0, 0, 0, 0] @ ?xs"
    if "store_slice_snake H ?xs (builder_of ?z []) = Ok (builder_of (?z @ to_bits ys) rs)"
      "build H (builder_of (to_bits ([0, 0, 0, 0] @ ys)) rs) = Ok c" "ys @ concat (take 1 (map snake_data rs)) = ?xs" for ys rs c
  proof -
    have "?z @ to_bits ys = to_bits ([0, 0, 0, 0] @ ys)" by (simp only: to_bits_append)
    then have "store_chain [store_u32 32 0, store_string_snake H comment] builder_new
        = Ok (builder_of (to_bits ([0, 0, 0, 0] @ ys)) rs)"
      using that(1) start by (simp only: store_chain_def try_fold.simps store_string_snake_def and_then.simps)
    then have "build_comment_payload H comment = Ok c"
      using that(2) by (simp only: build_comment_payload_def and_then.simps tvm.simps)
    moreover have "snake_data c = [0, 0, 0, 0] @ ?xs"
      unfolding snake_data_unfold [of c] build_Ok(2,3) [OF that(2)] pack_to_bits using that(3) by simp
    ultimately show ?thesis by blast
  qed
  show ?thesis
  proof (cases "length ?xs \<le> 123")
    case True
    obtain c where c: "build H (builder_of (to_bits ([0, 0, 0, 0] @ ?xs)) []) = Ok c"
      using build_total [of "to_bits ([0, 0, 0, 0] @ ?xs)" "[]" H] True by (auto simp: MAX_CELL_BITS_def)
    show ?thesis
      by (rule fin [OF _ c]) (use snake_short [of ?z ?xs "[]" H] True in \<open>simp_all add: MAX_CELL_BITS_def\<close>)
  next
    case False
    have len: "length (drop 123 ?xs) \<le> 127 * Suc 65534" using assms by simp
    obtain b r where r: "store_slice_snake H (drop 123 ?xs) builder_new = Ok b" "build H b = Ok r"
        "snake_data r = drop 123 ?xs" "unat (cell_depth r) \<le> 65534"
      using snake_chain [OF len, of H] by auto
    obtain c where c: "build H (builder_of (to_bits ([0, 0, 0, 0] @ take 123 ?xs)) [r]) = Ok c"
      using build_total [of "to_bits ([0, 0, 0, 0] @ take 123 ?xs)" "[r]" H] r(4) min.cobounded2 [of "length comment" 123]
      by (auto simp: MAX_CELL_BITS_def MAX_CELL_REFERENCES_def)
    show ?thesis
      by (rule fin [OF _ c])
        (use snake_long [of ?z "[]" 123 ?xs H b r] r False in \<open>simp_all add: MAX_CELL_BITS_def MAX_CELL_REFERENCES_def\<close>)
  qed
qed

section \<open>Addresses\<close>

lemma read_many_u8_reads:
  "reads r (to_bits xs @ bs) \<Longrightarrow> read_many (length xs) read_u8 r = Ok (xs, skip_bits (8 * length xs) r)"
proof (induction xs arbitrary: r)
  case Nil
  then show ?case by (simp add: skip_bits_def)
next
  case (Cons x xs)
  then have "reads r (uint_bits 8 x @ to_bits xs @ bs)" by (simp add: to_bits_Cons)
  note u = read_u8_reads [OF this]
  then show ?case using Cons.IH [OF u(2)] by simp
qed

lemma address_cell:
  assumes "length (addr_bytes a) = RAW_ADDRESS_LEN"
  shows "\<exists>c. address_to_cell H a = Ok c \<and> address_from_cell c = Ok a"
proof -
  obtain w h where a: "addr_bytes a = w # h" "length h = 32"
    using assms by (cases "addr_bytes a") (auto simp: RAW_ADDRESS_LEN_def)
  have len: "length (address_bits a) = 267" using assms by (simp add: address_bits_def RAW_ADDRESS_LEN_def)
  have st: "store_address a builder_new = Ok (builder_of (address_bits a) [])"
    using storesD [OF stores_address [of a], of "[]" "[]"] a len by (simp add: builder_new_builder_of MAX_CELL_BITS_def)
  obtain c where c: "build H (builder_of (address_bits a) []) = Ok c"
    using build_total [of "address_bits a" "[]" H] len by (auto simp: MAX_CELL_BITS_def)
  obtain r where r: "from_bits (cell_data c) (cell_bit_len c) = Ok r" "reads r (address_bits a)"
    using from_bits_pack [of "address_bits a"] build_Ok [OF c] by auto
  have two: "uint_bits 2 (2 :: u8) = [True, False]" by (simp add: uint_bits_def numeral_2_eq_2)
  have r1: "reads r (uint_bits 2 (2 :: u8) @ False # uint_bits 8 w @ to_bits h)"
    using r(2) by (simp add: address_bits_def two a(1) to_bits_Cons)
  have rd: "read_uint 2 r = Ok (2, skip_bits 2 r)" and r2: "reads (skip_bits 2 r) (False # uint_bits 8 w @ to_bits h)"
    using read_word_reads [OF r1] by simp_all
  have rb: "read_bit (skip_bits 2 r) = Ok (False, skip_bits 3 (r))"
    using read_bit_reads [OF r2] by simp
  have r3: "reads (skip_bits 3 r) (uint_bits 8 w @ to_bits h)"
    using reads_skip [of "skip_bits 2 r" "[False]"] r2 by simp
  note r4 = read_u8_reads [OF r3]
  have "read_many 32 read_u8 (skip_bits 8 (skip_bits 3 r)) = Ok (h, skip_bits 256 (skip_bits 8 (skip_bits 3 r)))"
    using read_many_u8_reads [of "skip_bits 8 (skip_bits 3 r)" h "[]"] r4(2) a(2) by simp
  then have "address_from_cell c = Ok (new_address (scast w) h)"
    using r(1) rd rb r4(1) by (simp add: address_from_cell_def)
  moreover have "new_address (scast w) h = a" using a(1) by (simp add: new_address_def ucast_scast_u8)
  ultimately show ?thesis using st c by (auto simp: address_to_cell_def)
qed

lemma from_tag_tag: "from_tag (address_tag t) = Some t"
  by (cases t) (simp_all add: from_tag_def ton_address_consts)

lemma be_word_u16: "be_word [ucast (drop_bit 8 w AND 0xff), ucast (w AND 0xff)] = (w :: u16)"
proof -
  have m: "(0xff :: u16) = mask 8" by (simp add: mask_eq_exp_minus_1)
  show ?thesis unfolding m by (rule bit_word_eqI) (auto simp: be_word_def bit_simps)
qed

lemma user_friendly:
  assumes "decode_base64_url L (encode_base64_url L (address_tag t # addr_bytes a
      @ [ucast (drop_bit 8 (crc16 L (address_tag t # addr_bytes a)) AND 0xff), ucast (crc16 L (address_tag t # addr_bytes a) AND 0xff)]))
      = Some (address_tag t # addr_bytes a
      @ [ucast (drop_bit 8 (crc16 L (address_tag t # addr_bytes a)) AND 0xff), ucast (crc16 L (address_tag t # addr_bytes a) AND 0xff)])"
    and "length (addr_bytes a) = RAW_ADDRESS_LEN"
  shows "parse_user_friendly L (encode_user_friendly L a t) = Some (a, is_bounceable t)"
  using assms by (simp add: parse_user_friendly_def encode_user_friendly_def Let_def USER_FRIENDLY_ADDRESS_LEN_def
      RAW_ADDRESS_LEN_def be_word_u16 from_tag_tag)

section \<open>Messages\<close>

lemma stores_error: "stores op bs rs \<Longrightarrow> length bs0 \<le> MAX_CELL_BITS \<Longrightarrow> length rs0 \<le> MAX_CELL_REFERENCES
    \<Longrightarrow> MAX_CELL_BITS < length bs0 + length bs \<Longrightarrow> \<not> is_ok (op (builder_of bs0 rs0))"
  using storesD [of op bs rs bs0 rs0] by (auto simp: is_ok_iff)

text \<open>An amount of 16 bytes or more is refused, also when its length wraps around in the \<open>u8\<close> cast.\<close>

lemma store_coins_large:
  assumes "2 ^ 120 \<le> v" "length bs \<le> MAX_CELL_BITS" "length rs \<le> MAX_CELL_REFERENCES"
  shows "\<not> is_ok (store_coins v (builder_of bs rs))"
proof -
  let ?n = "coins_len v"
  have n: "16 \<le> ?n" using coins_len_le [of v 15] assms(1) by simp
  have v: "v \<noteq> 0" using assms(1) by auto
  have sc: "store_coins v (builder_of bs rs) =
      and_then (store_u8 4 (of_nat ?n) (builder_of bs rs)) (\<lambda>b. and_then (store_uint (?n * 8) v b) Ok)"
    using v by (simp add: store_coins_def coins_len_def Let_def store_chain_def)
  show ?thesis
  proof (cases "unat (of_nat ?n :: u8) < 16")
    case False
    then have "drop_bit 4 (ucast (of_nat ?n :: u8) :: u64) \<noteq> 0"
      by (simp add: word_unat_eq_iff unat_drop_bit_div unat_ucast_64 div_eq_0_iff)
    then have "\<not> is_ok (store_u8 4 (of_nat ?n) (builder_of bs rs))"
      by (simp add: store_u8_def with_writer_def write_uint_def)
    then show ?thesis unfolding sc by (auto simp: is_ok_iff and_then_Inr_iff)
  next
    case True
    have "256 \<le> ?n"
    proof (rule ccontr)
      assume "\<not> 256 \<le> ?n"
      then have "unat (of_nat ?n :: u8) = ?n" by (simp add: unat_of_nat take_bit_nat_eq_self)
      then show False using True n by simp
    qed
    have fits: "v < 2 ^ (?n * 8)" using coins_len_le [of v ?n] by (simp add: mult.commute)
    show ?thesis
    proof
      assume "is_ok (store_coins v (builder_of bs rs))"
      then obtain b where b: "store_u8 4 (of_nat ?n) (builder_of bs rs) = Ok b" "is_ok (store_uint (?n * 8) v b)"
        unfolding sc by (auto simp: is_ok_iff and_then_Inr_iff)
      have "b = builder_of (bs @ uint_bits 4 (of_nat ?n :: u8)) rs \<and> length bs + 4 \<le> MAX_CELL_BITS"
        using storesD [OF stores_u8 assms(2,3), of 4 "of_nat ?n" b] b(1) True by simp
      then show False
        using stores_error [OF stores_uint [OF fits], of "bs @ uint_bits 4 (of_nat ?n :: u8)" rs] b(2) assms(3) \<open>256 \<le> ?n\<close>
        by (simp add: MAX_CELL_BITS_def)
    qed
  qed
qed

lemma chain_split:
  "store_chain (ops @ op # ops') b = Ok b' \<Longrightarrow> \<exists>b1. store_chain ops b = Ok b1 \<and> is_ok (op b1)"
  by (auto simp: store_chain_def try_fold_append and_then_Inr_iff is_ok_iff)

definition info_bits :: "transfer_request \<Rightarrow> bool list" where
  "info_bits r = [False, True, tr_bounceable r, False, False, False] @ address_bits (tr_destination r)
     @ coins_bits (tr_value r) @ [False] @ coins_bits 0 @ coins_bits 0 @ uint_bits 64 (0 :: u64) @ uint_bits 32 (0 :: u32)
     @ (if tr_state_init r = None then [False] else [True, True]) @ [True]"

definition request_wf :: "transfer_request \<Rightarrow> bool" where
  "request_wf r \<longleftrightarrow> length (addr_bytes (tr_destination r)) = RAW_ADDRESS_LEN"

lemma request_wf_nonempty: "request_wf r \<Longrightarrow> addr_bytes (tr_destination r) \<noteq> []"
  by (auto simp: request_wf_def RAW_ADDRESS_LEN_def)

lemma message_value_small:
  assumes "build_internal_message H r = Ok m" "request_wf r"
  shows "tr_value r < 2 ^ 120"
proof (rule ccontr)
  assume big: "\<not> tr_value r < 2 ^ 120"
  let ?pre = "[store_bit False, store_bit True, store_bit (tr_bounceable r), store_bit False,
        store_null_address, store_address (tr_destination r)]"
  obtain ops' b where "store_chain (?pre @ store_coins (tr_value r) # ops') builder_new = Ok b"
    using assms(1) by (auto simp: build_internal_message_def and_then_Inr_iff elim!: tvm.elims)
  then obtain b1 where b1: "store_chain ?pre builder_new = Ok b1" "is_ok (store_coins (tr_value r) b1)"
    using chain_split by blast
  have "stores (store_chain ?pre)
      ([False] @ [True] @ [tr_bounceable r] @ [False] @ [False, False] @ address_bits (tr_destination r) @ [])
      ([] @ [] @ [] @ [] @ [] @ [] @ [])"
    using request_wf_nonempty [OF assms(2)] by (intro stores_rules)
  from storesD [OF this, of "[]" "[]" b1] b1(1)
  obtain bs where "b1 = builder_of bs []" "length bs \<le> MAX_CELL_BITS"
    by (auto simp: builder_new_builder_of)
  then show False using store_coins_large [of "tr_value r" bs "[]"] big b1(2) by simp
qed

lemma tvm_Ok: "tvm r = Ok x \<longleftrightarrow> r = Ok x"
  by (cases r) auto

definition message_ops :: "transfer_request \<Rightarrow> cell \<Rightarrow> store_op list" where
  "message_ops r payload =
     [store_bit False, store_bit True, store_bit (tr_bounceable r), store_bit False,
      store_null_address, store_address (tr_destination r),
      store_coins (tr_value r), store_bit False, store_coins 0, store_coins 0, store_u64 64 0, store_u32 32 0]
     @ (case tr_state_init r of
          Some state_init \<Rightarrow> [store_bit True, store_bit True, store_reference state_init]
        | None \<Rightarrow> [store_bit False])
     @ [store_bit True, store_reference payload]"

definition message_refs :: "transfer_request \<Rightarrow> cell \<Rightarrow> cell list" where
  "message_refs r payload = (case tr_state_init r of None \<Rightarrow> [] | Some c \<Rightarrow> [c]) @ [payload]"

lemma message_stores:
  assumes "request_wf r" "tr_value r < 2 ^ 120"
  shows "stores (store_chain (message_ops r payload)) (info_bits r) (message_refs r payload)"
proof -
  let ?si = "case tr_state_init r of None \<Rightarrow> [] | Some c \<Rightarrow> [c]"
  have si: "stores (store_chain (case tr_state_init r of
            Some state_init \<Rightarrow> [store_bit True, store_bit True, store_reference state_init]
          | None \<Rightarrow> [store_bit False])) (if tr_state_init r = None then [False] else [True, True]) ?si"
  proof (cases "tr_state_init r")
    case None
    then show ?thesis using stores_Cons [OF stores_bit stores_Nil] by auto
  next
    case (Some c)
    then show ?thesis
      using stores_Cons [OF stores_bit [of True] stores_Cons [OF stores_bit [of True] stores_Cons [OF stores_reference [of c] stores_Nil]]]
      by simp
  qed
  have u: "unat (0 :: u64) < 2 ^ 64" "unat (0 :: u32) < 2 ^ 32" by simp_all
  have "stores (store_chain ([store_bit False, store_bit True, store_bit (tr_bounceable r), store_bit False,
        store_null_address, store_address (tr_destination r),
        store_coins (tr_value r), store_bit False, store_coins 0, store_coins 0, store_u64 64 0, store_u32 32 0]))
      ([False] @ [True] @ [tr_bounceable r] @ [False] @ [False, False] @ address_bits (tr_destination r)
       @ coins_bits (tr_value r) @ [False] @ coins_bits 0 @ coins_bits 0 @ uint_bits 64 (0 :: u64) @ uint_bits 32 (0 :: u32) @ [])
      ([] @ [] @ [] @ [] @ [] @ [] @ [] @ [] @ [] @ [] @ [] @ [] @ [])"
    using request_wf_nonempty [OF assms(1)] assms(2) u by (intro stores_rules) simp_all
  moreover have "stores (store_chain [store_bit True, store_reference payload]) ([True] @ [] @ []) ([] @ [payload] @ [])"
    by (intro stores_rules)
  ultimately show ?thesis
    using stores_append [OF _ stores_append [OF si]] by (fastforce simp: info_bits_def message_ops_def message_refs_def)
qed

lemma build_internal_message_ops:
  "build_internal_message H r = and_then (build_payload H r) (\<lambda>payload.
     and_then (tvm (and_then (store_chain (message_ops r payload) builder_new) (build H))) (\<lambda>message.
     Ok \<lparr>im_mode = tr_mode r, im_message = message\<rparr>))"
  by (simp only: build_internal_message_def message_ops_def)

lemma internal_message:
  assumes "build_internal_message H r = Ok m" "request_wf r"
  obtains payload where "build_payload H r = Ok payload" "cell_bits (im_message m) = info_bits r"
    "cell_references (im_message m) = message_refs r payload"
    "im_mode m = tr_mode r"
    "build H (builder_of (info_bits r) (cell_references (im_message m))) = Ok (im_message m)"
proof -
  obtain payload where p: "build_payload H r = Ok payload"
      "and_then (store_chain (message_ops r payload) builder_new) (build H) = Ok (im_message m)" "im_mode m = tr_mode r"
    using assms(1) by (auto simp: build_internal_message_ops and_then_Inr_iff tvm_Ok)
  note b = built_cell [OF message_stores [OF assms(2) message_value_small [OF assms]] p(2)]
  show thesis using that [OF p(1) b(1,2) p(3)] b(2,4) by simp
qed

lemma valid_cell_eq:
  assumes "valid_cell H c" "valid_cell H c'" "cell_bits c = cell_bits c'" "cell_references c = cell_references c'"
  shows "c = c'"
proof -
  have d: "cell_data x = pack_bits (cell_bits x)" "cell_bit_len x = length (cell_bits x)" if "valid_cell H x" for x
    using that div_ceil_ge [of 8 "cell_bit_len x"] by (auto simp: valid_cell_def canonical_def cell_bits_def)
  show ?thesis
    using assms d [OF assms(1)] d [OF assms(2)] unfolding valid_cell_def by (metis option.inject)
qed

lemma info_bits_inj:
  assumes "info_bits r = info_bits r'" "request_wf r" "request_wf r'" "tr_value r < 2 ^ 120" "tr_value r' < 2 ^ 120"
  shows "tr_destination r = tr_destination r'" "tr_value r = tr_value r'" "tr_bounceable r = tr_bounceable r'"
    "tr_state_init r = None \<longleftrightarrow> tr_state_init r' = None"
proof -
  let ?tail = "\<lambda>r. [False] @ coins_bits 0 @ coins_bits 0 @ uint_bits 64 (0 :: u64) @ uint_bits 32 (0 :: u32)
     @ (if tr_state_init r = None then [False] else [True, True]) @ [True]"
  have len: "length (address_bits (tr_destination r)) = length (address_bits (tr_destination r'))"
    using assms(2,3) by (simp add: address_bits_def request_wf_def)
  have "tr_bounceable r = tr_bounceable r' \<and> address_bits (tr_destination r) @ coins_bits (tr_value r) @ ?tail r
      = address_bits (tr_destination r') @ coins_bits (tr_value r') @ ?tail r'"
    using assms(1) by (simp add: info_bits_def)
  then have e: "tr_bounceable r = tr_bounceable r'" "address_bits (tr_destination r) = address_bits (tr_destination r')"
      "coins_bits (tr_value r) @ ?tail r = coins_bits (tr_value r') @ ?tail r'"
    using len by simp_all
  show "tr_bounceable r = tr_bounceable r'" by (rule e(1))
  show "tr_destination r = tr_destination r'"
    using e(2) to_bits_inj by (auto simp: address_bits_def)
  note c = coins_bits_inj [OF assms(4,5) e(3)]
  then show "tr_value r = tr_value r'" by blast
  show "tr_state_init r = None \<longleftrightarrow> tr_state_init r' = None" using conjunct2 [OF c] by (auto split: if_splits)
qed

definition same_effect :: "(bytes \<Rightarrow> bytes) \<Rightarrow> transfer_request \<Rightarrow> transfer_request \<Rightarrow> bool" where
  "same_effect H r r' \<longleftrightarrow> tr_destination r = tr_destination r' \<and> tr_value r = tr_value r' \<and> tr_mode r = tr_mode r'
     \<and> tr_bounceable r = tr_bounceable r' \<and> tr_state_init r = tr_state_init r' \<and> build_payload H r = build_payload H r'"

lemma message_binds:
  assumes "build_internal_message H r = Ok m" "build_internal_message H r' = Ok m'" "request_wf r" "request_wf r'"
    and "im_message m = im_message m'" "im_mode m = im_mode m'"
  shows "same_effect H r r'"
proof -
  obtain p where p: "build_payload H r = Ok p" "cell_bits (im_message m) = info_bits r"
    "cell_references (im_message m) = message_refs r p" "im_mode m = tr_mode r"
    using internal_message [OF assms(1,3)] by metis
  obtain p' where p': "build_payload H r' = Ok p'" "cell_bits (im_message m') = info_bits r'"
    "cell_references (im_message m') = message_refs r' p'" "im_mode m' = tr_mode r'"
    using internal_message [OF assms(2,4)] by metis
  note i = info_bits_inj [OF _ assms(3,4) message_value_small [OF assms(1,3)] message_value_small [OF assms(2,4)]]
  have eq: "info_bits r = info_bits r'" using p(2) p'(2) assms(5) by simp
  have "p = p' \<and> tr_state_init r = tr_state_init r'"
    using p(3) p'(3) assms(5) i(4) [OF eq] by (auto simp: message_refs_def split: option.splits)
  then show ?thesis using i(1-3) [OF eq] p p' assms(6) by (auto simp: same_effect_def)
qed

section \<open>The signed body\<close>

definition body_bits :: "u32 \<Rightarrow> u32 \<Rightarrow> u8 list \<Rightarrow> bool list" where
  "body_bits expire_at sequence modes =
     uint_bits 32 DEFAULT_WALLET_ID @ uint_bits 32 expire_at @ uint_bits 32 sequence @ uint_bits 8 (0 :: u8) @ to_bits modes"

definition body_ops :: "u32 \<Rightarrow> u32 \<Rightarrow> internal_message list \<Rightarrow> store_op list" where
  "body_ops e s ms = [store_i32 32 DEFAULT_WALLET_ID, store_u32 32 e, store_u32 32 s, store_u8 8 0]
     @ concat (map (\<lambda>m. [store_u8 8 (im_mode m), store_child (im_message m)]) ms)"

lemma body_stores: "stores (store_chain (body_ops e s ms)) (body_bits e s (map im_mode ms)) (map im_message ms)"
proof -
  have u32: "unat (v :: u32) < 2 ^ 32" for v using unsigned_less [of v] by simp
  have u8: "unat (v :: u8) < 2 ^ 8" for v using unsigned_less [of v] by simp
  have hd: "stores (store_chain [store_i32 32 DEFAULT_WALLET_ID, store_u32 32 e, store_u32 32 s, store_u8 8 0])
      (uint_bits 32 DEFAULT_WALLET_ID @ uint_bits 32 e @ uint_bits 32 s @ uint_bits 8 (0 :: u8) @ []) ([] @ [] @ [] @ [] @ [])"
    by (intro stores_rules u32 u8) simp_all
  have tl: "stores (store_chain (concat (map (\<lambda>m. [store_u8 8 (im_mode m), store_child (im_message m)]) ms)))
      (to_bits (map im_mode ms)) (map im_message ms)"
  proof (induction ms)
    case Nil
    then show ?case using stores_Nil by simp
  next
    case (Cons m ms)
    have "stores (store_chain [store_u8 8 (im_mode m), store_child (im_message m)])
        (uint_bits 8 (im_mode m) @ [] @ []) ([] @ [im_message m] @ [])"
      by (intro stores_rules u8) simp
    from stores_append [OF this Cons] show ?case by (simp add: to_bits_Cons)
  qed
  from stores_append [OF hd tl] show ?thesis by (simp add: body_bits_def body_ops_def)
qed

lemma external_body:
  assumes "build_external_body H e s ms = Ok c"
  shows "cell_bits c = body_bits e s (map im_mode ms)" "cell_references c = map im_message ms" "valid_cell H c"
    "build H (builder_of (body_bits e s (map im_mode ms)) (map im_message ms)) = Ok c"
proof -
  have "and_then (store_chain (body_ops e s ms) builder_new) (build H) = Ok c"
    using assms by (simp add: build_external_body_def body_ops_def tvm_Ok)
  from built_cell [OF body_stores this]
  show "cell_bits c = body_bits e s (map im_mode ms)" "cell_references c = map im_message ms" "valid_cell H c"
    "build H (builder_of (body_bits e s (map im_mode ms)) (map im_message ms)) = Ok c" by simp_all
qed

lemma body_binds:
  assumes "build_external_body H e s ms = Ok c" "build_external_body H e' s' ms' = Ok c"
  shows "e = e'" "s = s'" "map im_mode ms = map im_mode ms'" "map im_message ms = map im_message ms'"
proof -
  have u32: "unat (v :: u32) < 2 ^ 32" for v using unsigned_less [of v] by simp
  have "body_bits e s (map im_mode ms) = body_bits e' s' (map im_mode ms')"
    using external_body(1) [OF assms(1)] external_body(1) [OF assms(2)] by simp
  then have "uint_bits 32 e = uint_bits 32 e'" "uint_bits 32 s = uint_bits 32 s'"
      "to_bits (map im_mode ms) = to_bits (map im_mode ms')"
    by (simp_all add: body_bits_def)
  then show "e = e'" "s = s'" "map im_mode ms = map im_mode ms'"
    using uint_bits_word_inj u32 to_bits_inj by blast+
  show "map im_message ms = map im_message ms'"
    using external_body(2) [OF assms(1)] external_body(2) [OF assms(2)] by simp
qed

lemma requests_bind:
  assumes "traverse (build_internal_message H) rs = Ok ms" "traverse (build_internal_message H) rs' = Ok ms'"
    and "list_all request_wf rs" "list_all request_wf rs'"
    and "map im_mode ms = map im_mode ms'" "map im_message ms = map im_message ms'"
  shows "list_all2 (same_effect H) rs rs'"
proof -
  have "ms = ms'" using assms(5,6) by (auto intro!: nth_equalityI simp: list_eq_iff_nth_eq)
  then have "length rs = length rs'" using traverse_length [OF assms(1)] traverse_length [OF assms(2)] by simp
  moreover have "same_effect H (rs ! i) (rs' ! i)" if "i < length rs" for i
    using assms(1-4) that \<open>ms = ms'\<close> \<open>length rs = length rs'\<close>
    by (intro message_binds [where m = "ms ! i" and m' = "ms ! i"]) (auto simp: traverse_Inr_iff list_all2_conv_all_nth list_all_length)
  ultimately show ?thesis by (simp add: list_all2_conv_all_nth)
qed

section \<open>Every built cell is valid\<close>

definition valid_builder :: "(bytes \<Rightarrow> bytes) \<Rightarrow> cell_builder \<Rightarrow> bool" where
  "valid_builder H b \<longleftrightarrow> (\<exists>bs rs. b = builder_of bs rs \<and> length bs \<le> MAX_CELL_BITS
     \<and> length rs \<le> MAX_CELL_REFERENCES \<and> (\<forall>r\<in>set rs. valid_tree H r))"

definition keeps :: "(bytes \<Rightarrow> bytes) \<Rightarrow> store_op \<Rightarrow> bool" where
  "keeps H op \<longleftrightarrow> (\<forall>b b'. valid_builder H b \<longrightarrow> op b = Ok b' \<longrightarrow> valid_builder H b')"

named_theorems keeps_rules \<open>store operations keep a builder valid\<close>

lemma keepsD: "keeps H op \<Longrightarrow> op b = Ok b' \<Longrightarrow> valid_builder H b \<Longrightarrow> valid_builder H b'"
  by (auto simp: keeps_def)

lemma valid_builder_new [simp]: "valid_builder H builder_new"
  unfolding valid_builder_def builder_new_builder_of by (intro exI [of _ "[]"]) simp

lemma build_valid: "valid_builder H b \<Longrightarrow> build H b = Ok c \<Longrightarrow> valid_tree H c"
  by (auto simp: valid_builder_def intro: build_valid_tree)

lemma stores_keeps: "stores op bs rs \<Longrightarrow> (\<And>r. r \<in> set rs \<Longrightarrow> valid_tree H r) \<Longrightarrow> keeps H op"
  unfolding keeps_def
proof (intro allI impI)
  fix b b' assume st: "stores op bs rs" and v: "\<And>r. r \<in> set rs \<Longrightarrow> valid_tree H r" and "valid_builder H b" "op b = Ok b'"
  then obtain bs0 rs0 where b: "b = builder_of bs0 rs0" "length bs0 \<le> MAX_CELL_BITS" "length rs0 \<le> MAX_CELL_REFERENCES"
      "\<forall>r\<in>set rs0. valid_tree H r" "op (builder_of bs0 rs0) = Ok b'"
    by (auto simp: valid_builder_def)
  then show "valid_builder H b'"
    unfolding valid_builder_def storesD [OF st b(2,3)] using v
    by (intro exI [of _ "bs0 @ bs"] exI [of _ "rs0 @ rs"]) auto
qed

lemma keeps_bit [keeps_rules]: "keeps H (store_bit v)" by (rule stores_keeps [OF stores_bit]) simp
lemma keeps_slice [keeps_rules]: "keeps H (store_slice xs)" by (rule stores_keeps [OF stores_slice]) simp
lemma keeps_null_address [keeps_rules]: "keeps H store_null_address" by (rule stores_keeps [OF stores_null_address]) simp

lemma keeps_u64 [keeps_rules]: "keeps H (store_u64 64 v)"
  by (rule stores_keeps [OF stores_u64]) (use unsigned_less [of v] in simp_all)
lemma keeps_u32 [keeps_rules]: "keeps H (store_u32 32 v)"
  by (rule stores_keeps [OF stores_u32]) (use unsigned_less [of v] in simp_all)
lemma keeps_i32 [keeps_rules]: "keeps H (store_i32 32 v)"
  by (rule stores_keeps [OF stores_i32]) (use unsigned_less [of v] in simp_all)
lemma keeps_u8 [keeps_rules]: "keeps H (store_u8 8 v)"
  by (rule stores_keeps [OF stores_u8]) (use unsigned_less [of v] in simp_all)
lemma keeps_tag [keeps_rules]: "keeps H (store_u8 2 2)"
  by (rule stores_keeps [OF stores_u8]) simp_all

lemma keeps_reference [keeps_rules]: "valid_tree H c \<Longrightarrow> keeps H (store_reference c)"
  by (rule stores_keeps [OF stores_reference]) simp
lemma keeps_child [keeps_rules]: "valid_tree H c \<Longrightarrow> keeps H (store_child c)"
  by (rule stores_keeps [OF stores_child]) simp
lemma keeps_maybe_reference [keeps_rules]: "(\<And>r. c = Some r \<Longrightarrow> valid_tree H r) \<Longrightarrow> keeps H (store_maybe_reference c)"
  by (rule stores_keeps [OF stores_maybe_reference]) (auto split: option.splits)

lemma keeps_coins [keeps_rules]: "keeps H (store_coins v)"
proof (cases "v < 2 ^ 120")
  case True
  then show ?thesis by (intro stores_keeps [OF stores_coins]) simp_all
next
  case False
  then show ?thesis using store_coins_large [of v] by (force simp: keeps_def valid_builder_def is_ok_iff)
qed

lemma keeps_chain [keeps_rules]: "list_all (keeps H) ops \<Longrightarrow> keeps H (store_chain ops)"
proof (induction ops)
  case Nil
  then show ?case by (simp add: keeps_def store_chain_def)
next
  case (Cons op ops)
  show ?case
    unfolding keeps_def
  proof (intro allI impI)
    fix b b' assume b: "valid_builder H b" "store_chain (op # ops) b = Ok b'"
    then obtain b1 where "op b = Ok b1" "store_chain ops b1 = Ok b'" by (auto simp: store_chain_def and_then_Inr_iff)
    then show "valid_builder H b'" using Cons b(1) keepsD by (metis list.pred_inject(2))
  qed
qed

lemma keeps_address [keeps_rules]: "keeps H (store_address a)"
  unfolding store_address_def by (rule keeps_chain) (simp add: keeps_rules)

lemma snake_valid: "store_slice_snake H xs b = Ok b' \<Longrightarrow> valid_builder H b \<Longrightarrow> valid_builder H b'"
proof (induction H xs b arbitrary: b' rule: store_slice_snake.induct)
  case (1 H xs b)
  let ?cap = "remaining_bits b div 8"
  show ?case
  proof (cases "length xs \<le> ?cap")
    case True
    then have "store_slice xs b = Ok b'" using "1.prems"(1) by (subst (asm) store_slice_snake.simps) simp
    then show ?thesis using keepsD [OF keeps_slice] "1.prems"(2) by blast
  next
    case False
    then obtain b1 child c where s: "store_slice (take ?cap xs) b = Ok b1"
        "store_slice_snake H (drop ?cap xs) builder_new = Ok child" "build H child = Ok c" "store_child c b1 = Ok b'"
      using "1.prems"(1) by (subst (asm) store_slice_snake.simps) (auto simp: and_then_Inr_iff Let_def)
    have "valid_builder H child"
      by (rule "1.IH" [OF refl False refl refl s(1,2)]) simp
    then have "keeps H (store_child c)" using build_valid [OF _ s(3)] by (intro keeps_child) blast
    then show ?thesis using keepsD [OF keeps_slice s(1) "1.prems"(2)] s(4) keepsD by blast
  qed
qed

lemma keeps_string_snake [keeps_rules]: "keeps H (store_string_snake H s)"
  using snake_valid by (auto simp: keeps_def store_string_snake_def)

lemma chain_build_valid:
  "and_then (store_chain ops builder_new) (build H) = Ok c \<Longrightarrow> list_all (keeps H) ops \<Longrightarrow> valid_tree H c"
  using keepsD [OF keeps_chain [of H ops]] build_valid by (fastforce simp: and_then_Inr_iff)

definition request_cells_valid :: "(bytes \<Rightarrow> bytes) \<Rightarrow> transfer_request \<Rightarrow> bool" where
  "request_cells_valid H r \<longleftrightarrow> (\<forall>c. tr_state_init r = Some c \<longrightarrow> valid_tree H c)
     \<and> (\<forall>c. tr_payload r = Some (Custom c) \<longrightarrow> valid_tree H c)
     \<and> (\<forall>j c. tr_payload r = Some (Jetton j) \<longrightarrow> jt_custom_payload j = Some c \<longrightarrow> valid_tree H c)"

lemma comment_valid: "build_comment_payload H s = Ok c \<Longrightarrow> valid_tree H c"
  unfolding build_comment_payload_def tvm_Ok by (erule chain_build_valid) (simp add: keeps_rules)

lemma comment_payload_valid: "comment_payload H s = Ok (Some c) \<Longrightarrow> valid_tree H c"
  by (auto simp: comment_payload_def and_then_Inr_iff comment_valid split: option.splits)

lemma two_chains_valid:
  assumes "store_chain ops builder_new = Ok b" "and_then (store_chain ops' b) (build H) = Ok c"
    and "list_all (keeps H) ops" "list_all (keeps H) ops'"
  shows "valid_tree H c"
proof (rule chain_build_valid)
  show "and_then (store_chain (ops @ ops') builder_new) (build H) = Ok c"
    using assms(1,2) by (simp add: store_chain_def try_fold_append)
qed (use assms(3,4) in simp)

lemma payload_valid:
  assumes "build_payload H r = Ok c" "request_cells_valid H r"
  shows "valid_tree H c"
proof (cases "tr_payload r")
  case None
  then show ?thesis
    using assms(1) build_valid [OF valid_builder_new]
    by (auto simp: build_payload_def tvm_Ok intro: comment_valid split: option.splits)
next
  case (Some p)
  show ?thesis
  proof (cases p)
    case (Jetton j)
    then obtain b f where b: "store_chain [store_u32 32 JETTON_TRANSFER_OPCODE, store_u64 64 (jt_query_id j), store_coins (jt_value j),
        store_address (jt_destination j), store_address (jt_response_address j), store_maybe_reference (jt_custom_payload j)] builder_new = Ok b"
      "comment_payload H (jt_comment j) = Ok f"
      "and_then (store_chain [store_coins (jt_forward_ton_amount j), store_maybe_reference f] b) (build H) = Ok c"
      using assms(1) Some by (auto simp: build_payload_def build_jetton_payload_def and_then_Inr_iff tvm_Ok)
    show ?thesis
      by (rule two_chains_valid [OF b(1,3)])
        (use assms(2) Some Jetton b(2) comment_payload_valid in \<open>auto simp: request_cells_valid_def intro!: keeps_rules\<close>)
  next
    case (Nft n)
    then obtain b f where b: "store_chain [store_u32 32 NFT_TRANSFER_OPCODE, store_u64 64 (nt_query_id n), store_address (nt_new_owner n),
        store_address (nt_response_destination n), store_maybe_reference None] builder_new = Ok b"
      "comment_payload H (nt_comment n) = Ok f"
      "and_then (store_chain [store_coins (nt_forward_amount n), store_maybe_reference f] b) (build H) = Ok c"
      using assms(1) Some by (auto simp: build_payload_def build_nft_payload_def and_then_Inr_iff tvm_Ok)
    show ?thesis
      by (rule two_chains_valid [OF b(1,3)]) (use b(2) comment_payload_valid in \<open>auto intro!: keeps_rules\<close>)
  next
    case (Custom x)
    then show ?thesis using assms Some by (auto simp: build_payload_def request_cells_valid_def)
  qed
qed

lemma message_valid:
  assumes "build_internal_message H r = Ok m" "request_cells_valid H r"
  shows "valid_tree H (im_message m)"
proof -
  obtain p where p: "build_payload H r = Ok p" and b: "and_then (store_chain (
       [store_bit False, store_bit True, store_bit (tr_bounceable r), store_bit False,
        store_null_address, store_address (tr_destination r),
        store_coins (tr_value r), store_bit False, store_coins 0, store_coins 0, store_u64 64 0, store_u32 32 0]
       @ (case tr_state_init r of
            Some state_init \<Rightarrow> [store_bit True, store_bit True, store_reference state_init]
          | None \<Rightarrow> [store_bit False])
       @ [store_bit True, store_reference p]) builder_new) (build H) = Ok (im_message m)"
    using assms(1) by (auto simp: build_internal_message_def and_then_Inr_iff tvm_Ok)
  show ?thesis
    by (rule chain_build_valid [OF b])
      (use payload_valid [OF p assms(2)] assms(2) in \<open>auto simp: request_cells_valid_def intro!: keeps_rules split: option.splits\<close>)
qed

end
