(* ===== verification/Ton_Signing.thy ===== *)
theory Ton_Signing
  imports Ton_Messages
begin

unbundle bit_operations_syntax

text \<open>
  What the TON signer guarantees: the shape of a signed transaction, what a cell hash commits to
  (\<open>hash_commits\<close>), that signing succeeds (\<open>sign_requests_cell_total\<close>), and the guarantees
  of the whole component with their concrete instances.
\<close>

section \<open>Signed transactions\<close>

lemma stores_cell:
  assumes "length (cell_data c) = div_ceil (cell_bit_len c) 8"
  shows "stores (store_cell c) (cell_bits c) (cell_references c)"
proof -
  have le: "cell_bit_len c \<le> 8 * length (cell_data c)" using assms div_ceil_ge [of 8 "cell_bit_len c"] by simp
  have "stores (store_cell_data c) (cell_bits c) []"
    unfolding store_cell_data_def
    by (rule stores_with_writer [where e = "TvmError ''cell exceeds 1023 bits''"]) (use le in \<open>simp add: write_bits_writer_of cell_bits_def\<close>)
  moreover have "stores (store_chain (map store_reference (cell_references c)))
      (concat (map (\<lambda>_. []) (cell_references c))) (concat (map (\<lambda>r. [r]) (cell_references c)))"
    by (rule stores_map) (rule stores_reference)
  moreover have "concat (map (\<lambda>r. [r]) rs) = rs" "concat (map (\<lambda>_. []) rs) = ([] :: bool list)" for rs :: "cell list"
    by (induction rs) simp_all
  ultimately show ?thesis using stores_Cons [of "store_cell_data c" "cell_bits c" "[]"] by (fastforce simp: store_cell_def)
qed

lemma chain_append: "store_chain (ops @ ops') b = and_then (store_chain ops b) (store_chain ops')"
  by (simp add: store_chain_def [abs_def] try_fold_append)

lemma chain_single: "store_chain [op] b = op b"
  by (cases "op b") (simp_all add: store_chain_def)

lemma chain_keeps: "store_chain ops b = Ok b' \<Longrightarrow> list_all (keeps H) ops \<Longrightarrow> valid_builder H b \<Longrightarrow> valid_builder H b'"
  using keepsD [OF keeps_chain] by blast

lemma signed_body:
  assumes "and_then (store_chain [store_slice sig, store_cell body] builder_new) (build H) = Ok c" "valid_cell H body"
  shows "cell_bits c = to_bits sig @ cell_bits body \<and> cell_references c = cell_references body"
proof -
  have "stores (store_chain [store_slice sig, store_cell body])
      (to_bits sig @ cell_bits body @ []) ([] @ cell_references body @ [])"
    using assms(2) by (intro stores_rules stores_cell) (simp add: valid_cell_def canonical_def)
  from built_cell [OF this assms(1)] show ?thesis by simp
qed

definition envelope_bits :: "ton_address \<Rightarrow> bool \<Rightarrow> bool list" where
  "envelope_bits a deploy =
     [True, False, False, False] @ address_bits a @ coins_bits 0 @ (if deploy then [True, True] else [False]) @ [True]"

lemma transaction_cell:
  assumes "build_transaction L w deploy body = Ok tx" "addr_bytes (w_address w) \<noteq> []"
  shows "cell_bits tx = envelope_bits (w_address w) deploy"
    "\<exists>rs. cell_references tx = rs @ [body] \<and> (if deploy then \<exists>si. build_state_init L (w_public_key w) = Ok si \<and> rs = [si] else rs = [])"
proof -
  let ?pre = "[store_u8 2 2, store_null_address, store_address (w_address w), store_coins 0]"
  let ?post = "[store_bit True, store_child body]"
  have two: "uint_bits 2 (2 :: u8) = [True, False]" by (simp add: uint_bits_def numeral_2_eq_2)
  have pre: "stores (store_chain ?pre) (uint_bits 2 (2 :: u8) @ [False, False] @ address_bits (w_address w) @ coins_bits 0 @ [])
      ([] @ [] @ [] @ [] @ [])"
    using assms(2) by (intro stores_rules) simp_all
  have post: "stores (store_chain ?post) ([True] @ [] @ []) ([] @ [body] @ [])"
    by (intro stores_rules)
  obtain mid si where mid: "and_then (store_chain (?pre @ mid @ ?post) builder_new) (build (ton_sha256 L)) = Ok tx"
      "if deploy then build_state_init L (w_public_key w) = Ok si \<and> mid = [store_bit True, store_bit True, store_child si]
       else mid = [store_bit False]"
  proof (cases deploy)
    case True
    then obtain b1 b2 si b3 where "store_chain ?pre builder_new = Ok b1" "store_chain [store_bit True, store_bit True] b1 = Ok b2"
        "build_state_init L (w_public_key w) = Ok si" "store_child si b2 = Ok b3" "and_then (store_chain ?post b3) (build (ton_sha256 L)) = Ok tx"
      using assms(1) by (auto simp: build_transaction_def and_then_Inr_iff tvm_Ok)
    note s = this
    have "store_chain [store_bit True, store_bit True, store_child si] b1 = Ok b3"
      using s(2,4) chain_append [of "[store_bit True, store_bit True]" "[store_child si]" b1] by (simp add: chain_single)
    then have "store_chain (?pre @ [store_bit True, store_bit True, store_child si] @ ?post) builder_new = store_chain ?post b3"
      unfolding chain_append using s(1) by simp
    then show thesis
      using that [of "[store_bit True, store_bit True, store_child si]" si] s(3,5) True by simp
  next
    case False
    then obtain b1 b2 where "store_chain ?pre builder_new = Ok b1" "store_bit False b1 = Ok b2"
        "and_then (store_chain ?post b2) (build (ton_sha256 L)) = Ok tx"
      using assms(1) by (auto simp: build_transaction_def and_then_Inr_iff tvm_Ok)
    then show thesis
      using that [of "[store_bit False]"] False by (simp only: chain_append chain_single and_then.simps) simp
  qed
  have m: "stores (store_chain mid) (if deploy then [True, True] else [False]) (if deploy then [si] else [])"
  proof (cases deploy)
    case True
    have "stores (store_chain [store_bit True, store_bit True, store_child si]) ([True] @ [True] @ [] @ []) ([] @ [] @ [si] @ [])"
      by (intro stores_rules)
    then show ?thesis using True mid(2) by simp
  next
    case False
    then show ?thesis using mid(2) stores_Cons [OF stores_bit [of False] stores_Nil] by simp
  qed
  from built_cell [OF stores_append [OF pre stores_append [OF m post]] mid(1)]
  have b: "cell_bits tx = envelope_bits (w_address w) deploy" "cell_references tx = (if deploy then [si] else []) @ [body]"
    by (simp_all add: envelope_bits_def two)
  then show "cell_bits tx = envelope_bits (w_address w) deploy"
    "\<exists>rs. cell_references tx = rs @ [body] \<and> (if deploy then \<exists>si. build_state_init L (w_public_key w) = Ok si \<and> rs = [si] else rs = [])"
    using mid(2) by auto
qed

lemma sign_requests_steps:
  assumes "sign_requests_cell L s now rs sequence expire_at = Ok tx"
  obtains sq e ms body signed where
    "u32_try_from sequence = Some sq" "resolve_expire_at now sq expire_at = Ok e"
    "traverse (build_internal_message (ton_sha256 L)) rs = Ok ms"
    "build_external_body (ton_sha256 L) e sq ms = Ok body"
    "and_then (store_chain [store_slice (ts_sign L s (cell_hash body)), store_cell body] builder_new) (build (ton_sha256 L)) = Ok signed"
    "build_transaction L (ts_wallet s) (sq = 0) signed = Ok tx"
  using assms by (auto simp: sign_requests_cell_def and_then_Inr_iff ok_or_Inr_iff tvm_Ok Let_def)

lemma new_ton_signer_wallet:
  assumes "new_ton_signer L key = Ok s"
  obtains si where "build_state_init L (ed25519_public_key L key) = Ok si"
    "ts_private_key s = key" "ts_public_key s = ed25519_public_key L key" "w_public_key (ts_wallet s) = ed25519_public_key L key"
    "addr_bytes (ts_address s) = 0 # cell_hash si"
  using assms
  by (auto simp: new_ton_signer_def new_wallet_def and_then_Inr_iff Let_def ts_address_def new_address_def
      invalid_input_err_def split: if_splits)

lemma state_init_valid:
  assumes "build_state_init L key = Ok si" "valid_tree (ton_sha256 L) (wallet_v4r2_code L)"
  shows "valid_tree (ton_sha256 L) si"
proof -
  obtain d where d: "and_then (store_chain [store_u32 32 0, store_i32 32 DEFAULT_WALLET_ID, store_slice key, store_bit False] builder_new)
        (build (ton_sha256 L)) = Ok d"
      "and_then (store_chain [store_bit False, store_bit False, store_bit True, store_bit True, store_bit False,
          store_reference (wallet_v4r2_code L), store_reference d] builder_new) (build (ton_sha256 L)) = Ok si"
    using assms(1) by (auto simp: build_state_init_def and_then_Inr_iff tvm_Ok)
  have "valid_tree (ton_sha256 L) d" by (rule chain_build_valid [OF d(1)]) (simp add: keeps_rules)
  then show ?thesis by (intro chain_build_valid [OF d(2)]) (use assms(2) in \<open>auto intro!: keeps_rules\<close>)
qed

lemma keeps_signed: "valid_tree H body \<Longrightarrow> keeps H (store_cell body)"
proof (rule stores_keeps [OF stores_cell])
  assume v: "valid_tree H body"
  then have "valid_cell H body" using self_in_subcells by (auto simp: valid_tree_def)
  then show "length (cell_data body) = div_ceil (cell_bit_len body) 8" by (simp add: valid_cell_def canonical_def)
  show "valid_tree H r" if "r \<in> set (cell_references body)" for r
    using v that by (auto simp: valid_tree_def subcells_references [of body])
qed

lemma transaction_valid:
  assumes "build_transaction L w deploy body = Ok tx" "valid_tree (ton_sha256 L) body" "valid_tree (ton_sha256 L) (wallet_v4r2_code L)"
  shows "valid_tree (ton_sha256 L) tx"
proof -
  let ?H = "ton_sha256 L"
  obtain b1 b2 where b: "store_chain [store_u8 2 2, store_null_address, store_address (w_address w), store_coins 0] builder_new = Ok b1"
      "(if deploy then and_then (tvm (store_chain [store_bit True, store_bit True] b1)) (\<lambda>builder.
          and_then (build_state_init L (w_public_key w)) (\<lambda>state_init. tvm (store_child state_init builder)))
        else tvm (store_bit False b1)) = Ok b2"
      "and_then (store_chain [store_bit True, store_child body] b2) (build ?H) = Ok tx"
    using assms(1) by (auto simp: build_transaction_def and_then_Inr_iff tvm_Ok)
  have v1: "valid_builder ?H b1" by (rule chain_keeps [OF b(1)]) (auto intro!: keeps_rules)
  have v2: "valid_builder ?H b2"
  proof (cases deploy)
    case True
    then obtain b' si where "store_chain [store_bit True, store_bit True] b1 = Ok b'" "build_state_init L (w_public_key w) = Ok si"
        "store_child si b' = Ok b2"
      using b(2) by (auto simp: and_then_Inr_iff tvm_Ok)
    moreover have "list_all (keeps ?H) [store_bit True, store_bit True]" by (auto intro!: keeps_rules)
    ultimately show ?thesis using v1 chain_keeps keepsD [OF keeps_child] state_init_valid [OF _ assms(3)] by blast
  next
    case False
    then show ?thesis using b(2) v1 keepsD [OF keeps_bit] by (auto simp: tvm_Ok)
  qed
  obtain b3 where b3: "store_chain [store_bit True, store_child body] b2 = Ok b3" "build ?H b3 = Ok tx"
    using b(3) by (auto simp: and_then_Inr_iff)
  have "valid_builder ?H b3" by (rule chain_keeps [OF b3(1) _ v2]) (use assms(2) in \<open>auto intro!: keeps_rules\<close>)
  then show ?thesis using b3(2) by (rule build_valid)
qed

lemma signed_valid:
  assumes "traverse (build_internal_message H) rs = Ok ms" "build_external_body H e sq ms = Ok body"
    and "list_all (request_cells_valid H) rs"
  shows "valid_tree H body"
proof -
  have "valid_tree H (im_message m)" if m: "m \<in> set ms" for m
  proof -
    obtain i where "i < length ms" "m = ms ! i" using m by (metis in_set_conv_nth)
    then show ?thesis
      using assms(1,3) by (intro message_valid [of H "rs ! i"]) (auto simp: traverse_Inr_iff list_all2_conv_all_nth list_all_length)
  qed
  then show ?thesis by (intro build_valid_tree [OF external_body(4) [OF assms(2)]]) auto
qed

lemma signed_transaction_valid:
  assumes "sign_requests_cell L s now rs sequence expire_at = Ok tx" "valid_tree (ton_sha256 L) (wallet_v4r2_code L)"
    and "list_all (request_cells_valid (ton_sha256 L)) rs"
  shows "valid_tree (ton_sha256 L) tx"
proof -
  let ?H = "ton_sha256 L"
  obtain sq e ms body signed where t: "traverse (build_internal_message ?H) rs = Ok ms" "build_external_body ?H e sq ms = Ok body"
      "and_then (store_chain [store_slice (ts_sign L s (cell_hash body)), store_cell body] builder_new) (build ?H) = Ok signed"
      "build_transaction L (ts_wallet s) (sq = 0) signed = Ok tx"
    by (rule sign_requests_steps [OF assms(1)])
  have "valid_tree ?H body" by (rule signed_valid [OF t(1,2) assms(3)])
  then have "valid_tree ?H signed" by (intro chain_build_valid [OF t(3)]) (auto intro!: keeps_rules keeps_signed)
  then show ?thesis by (rule transaction_valid [OF t(4) _ assms(2)])
qed

section \<open>What a cell hash commits to\<close>

definition preimage :: "cell \<Rightarrow> bytes" where
  "preimage c = cell_repr (cell_data c) (cell_bit_len c) (cell_references c) (of_nat (descriptor (cell_bit_len c)))"

lemma valid_cell_facts:
  assumes "valid_cell H c"
  shows "cell_hash c = H (preimage c)" "length (cell_references c) \<le> MAX_CELL_REFERENCES" "cell_bit_len c \<le> MAX_CELL_BITS"
    "canonical (cell_data c) (cell_bit_len c)" "length (serialized_bits (cell_data c) (cell_bit_len c)) = div_ceil (cell_bit_len c) 8"
proof -
  have t: "try_new H (cell_data c) (cell_bit_len c) (cell_references c) = Some c" and can: "canonical (cell_data c) (cell_bit_len c)"
    using assms by (simp_all add: valid_cell_def)
  show "canonical (cell_data c) (cell_bit_len c)" by (rule can)
  then show "length (serialized_bits (cell_data c) (cell_bit_len c)) = div_ceil (cell_bit_len c) 8"
    by (simp add: canonical_def length_serialized_bits)
  show "length (cell_references c) \<le> MAX_CELL_REFERENCES" "cell_bit_len c \<le> MAX_CELL_BITS"
    using t by (simp_all add: try_new_def not_less split: if_splits)
  have "bits_descriptor n = Some d \<Longrightarrow> d = of_nat (descriptor n)" for n d
    by (auto simp: bits_descriptor_def descriptor_def Let_def split: if_splits)
  then show "cell_hash c = H (preimage c)"
    using t unfolding preimage_def try_new_def by (cases c) (auto split: if_splits option.splits)
qed

lemma preimage_inj:
  assumes "valid_cell H c" "valid_cell H c'" "preimage c = preimage c'"
    and "\<And>r. r \<in> set (cell_references c) \<union> set (cell_references c') \<Longrightarrow> length (cell_hash r) = k"
  shows "cell_bit_len c = cell_bit_len c'" "cell_data c = cell_data c'"
    "map cell_hash (cell_references c) = map cell_hash (cell_references c')"
proof -
  note f = valid_cell_facts [OF assms(1)] and f' = valid_cell_facts [OF assms(2)]
  let ?d = "\<lambda>c. of_nat (descriptor (cell_bit_len c)) :: u8" and ?s = "\<lambda>c. serialized_bits (cell_data c) (cell_bit_len c)"
  let ?depths = "\<lambda>c. concat (map (\<lambda>r. be_bytes 2 (cell_depth r)) (cell_references c))"
  let ?hashes = "\<lambda>c. concat (map cell_hash (cell_references c))"
  have e: "(of_nat (length (cell_references c)) :: u8) = of_nat (length (cell_references c'))" "?d c = ?d c'"
      "?s c @ ?depths c @ ?hashes c = ?s c' @ ?depths c' @ ?hashes c'"
    using assms(3) by (simp_all add: preimage_def cell_repr_def)
  have n: "length (cell_references c) = length (cell_references c')"
    using e(1) refs_descriptor(1) f(2) f'(2) by (metis MAX_CELL_REFERENCES_def)
  have l: "length (?s c) = length (?s c')" and m: "cell_bit_len c mod 8 = 0 \<longleftrightarrow> cell_bit_len c' mod 8 = 0"
    using e(2) bits_descriptor_bytes [OF f(3)] bits_descriptor_bytes [OF f'(3)] f(5) f'(5) by simp_all
  have s: "?s c = ?s c'" "?depths c @ ?hashes c = ?depths c' @ ?hashes c'"
    using conjunct1 [OF iffD1 [OF append_eq_append_conv e(3)]] conjunct2 [OF iffD1 [OF append_eq_append_conv e(3)]] l by blast+
  have "unpad_cell_bits (?s c) (cell_bit_len c mod 8 = 0) = unpad_cell_bits (?s c') (cell_bit_len c' mod 8 = 0)"
    by (simp only: s(1) m)
  then have "Some (cell_data c, cell_bit_len c) = Some (cell_data c', cell_bit_len c')"
    by (simp only: unpad_serialized_bits [OF f(4)] unpad_serialized_bits [OF f'(4)])
  then show "cell_bit_len c = cell_bit_len c'" "cell_data c = cell_data c'" by blast+
  have "length (?depths c) = length (?depths c')" using n by (simp add: length_concat comp_def sum_list_triv)
  then have "?hashes c = ?hashes c'" using s(2) by simp
  then show "map cell_hash (cell_references c) = map cell_hash (cell_references c')"
    using n assms(4) by (intro concat_injective) (auto simp: set_zip)
qed

text \<open>Where the hash function does not collide on the serialized cells, a hash stands for the whole tree below it.\<close>

lemma hash_commits:
  assumes "valid_tree H c" "valid_tree H c'" "\<And>x. length (H x) = k"
    and "inj_on H (preimage ` (set (subcells c) \<union> set (subcells c')))" "cell_hash c = cell_hash c'"
  shows "c = c'"
  using assms(1,2,4,5)
proof (induction "nodes c" arbitrary: c c' rule: less_induct)
  case less
  have sub: "set (subcells r) \<subseteq> set (subcells x)" if "r \<in> set (cell_references x)" for r x
    using that by (cases x) auto
  have ref: "valid_tree H r" if "r \<in> set (cell_references x)" "valid_tree H x" for r x
    using that sub unfolding valid_tree_def by blast
  have v: "valid_cell H c" "valid_cell H c'"
    using less.prems(1,2) self_in_subcells by (auto simp: valid_tree_def)
  have len: "length (cell_hash r) = k" if "valid_tree H r" for r
    using that self_in_subcells valid_cell_facts(1) assms(3) unfolding valid_tree_def by metis
  have "preimage c = preimage c'"
    using less.prems(3,4) valid_cell_facts(1) [OF v(1)] valid_cell_facts(1) [OF v(2)] self_in_subcells [of c] self_in_subcells [of c']
    by (auto dest: inj_onD)
  note p = preimage_inj [OF v this, of k]
  have h: "map cell_hash (cell_references c) = map cell_hash (cell_references c')"
    using p(3) len ref less.prems(1,2) by blast
  have "cell_references c = cell_references c'"
  proof (rule nth_equalityI)
    show n: "length (cell_references c) = length (cell_references c')" using h by (metis length_map)
    fix i
    assume i: "i < length (cell_references c)"
    then have m: "cell_references c ! i \<in> set (cell_references c)" "cell_references c' ! i \<in> set (cell_references c')" using n by auto
    show "cell_references c ! i = cell_references c' ! i"
    proof (rule less.hyps)
      show "nodes (cell_references c ! i) < nodes c" using m(1) by (rule nodes_reference)
      show "valid_tree H (cell_references c ! i)" "valid_tree H (cell_references c' ! i)" using m ref less.prems(1,2) by blast+
      show "inj_on H (preimage ` (set (subcells (cell_references c ! i)) \<union> set (subcells (cell_references c' ! i))))"
        using less.prems(3) by (rule inj_on_subset) (use sub [OF m(1)] sub [OF m(2)] in blast)
      show "cell_hash (cell_references c ! i) = cell_hash (cell_references c' ! i)" using h i n by (metis nth_map)
    qed
  qed
  moreover have "cell_bit_len c = cell_bit_len c'" "cell_data c = cell_data c'" using p(1,2) len ref less.prems(1,2) by blast+
  ultimately show ?case using v unfolding valid_cell_def by (metis option.inject)
qed

section \<open>Signing succeeds\<close>

definition shallow :: "nat \<Rightarrow> cell \<Rightarrow> bool" where
  "shallow n c \<longleftrightarrow> unat (cell_depth c) \<le> n"

lemma stored_total:
  assumes "stores op bs rs" "length bs \<le> MAX_CELL_BITS" "length rs \<le> MAX_CELL_REFERENCES"
    and "\<And>r. r \<in> set rs \<Longrightarrow> shallow n r" "n < 65535"
  shows "\<exists>c. and_then (op builder_new) (build H) = Ok c \<and> shallow (Suc n) c"
proof -
  have "op builder_new = Ok (builder_of bs rs)"
    using storesD [OF assms(1), of "[]" "[]"] assms(2,3) by (simp add: builder_new_builder_of)
  moreover have "unat (cell_depth r) < Suc n" "unat (cell_depth r) < 65535" if "r \<in> set rs" for r
    using assms(4) [OF that] assms(5) by (simp_all add: shallow_def)
  ultimately show ?thesis
    using build_total [OF assms(2,3), of H] by (fastforce simp: shallow_def)
qed

lemma address_bits_length: "length (addr_bytes a) = RAW_ADDRESS_LEN \<Longrightarrow> length (address_bits a) = 267"
  by (simp add: address_bits_def RAW_ADDRESS_LEN_def)

text \<open>Requests whose parts the builder can store, with the payload and the initial state not too deep.\<close>

definition request_fits :: "(bytes \<Rightarrow> bytes) \<Rightarrow> nat \<Rightarrow> transfer_request \<Rightarrow> bool" where
  "request_fits H n r \<longleftrightarrow> request_wf r \<and> tr_value r < 2 ^ 120 \<and> (\<forall>c\<in>set_option (tr_state_init r). shallow n c)
     \<and> (case build_payload H r of Inl _ \<Rightarrow> False | Inr c \<Rightarrow> shallow n c)"

lemma message_total:
  assumes "request_fits H n r" "n < 65535"
  shows "\<exists>m. build_internal_message H r = Ok m \<and> shallow (Suc n) (im_message m)"
proof -
  obtain p where p: "build_payload H r = Ok p" "shallow n p"
    using assms(1) by (auto simp: request_fits_def split: sum.splits)
  have wf: "request_wf r" "tr_value r < 2 ^ 120" using assms(1) by (simp_all add: request_fits_def)
  have "length (info_bits r) \<le> MAX_CELL_BITS"
    using address_bits_length [of "tr_destination r"] wf(1) coins_len_small [OF wf(2)]
    by (simp add: info_bits_def length_coins_bits coins_len_def request_wf_def MAX_CELL_BITS_def)
  moreover have "length (message_refs r p) \<le> MAX_CELL_REFERENCES" "\<And>c. c \<in> set (message_refs r p) \<Longrightarrow> shallow n c"
    using p(2) assms(1) by (auto simp: message_refs_def request_fits_def MAX_CELL_REFERENCES_def split: option.splits)
  ultimately obtain c where "and_then (store_chain (message_ops r p) builder_new) (build H) = Ok c" "shallow (Suc n) c"
    using stored_total [OF message_stores [OF wf]] assms(2) by blast
  then show ?thesis using p(1) by (simp add: build_internal_message_ops)
qed

lemma messages_total:
  assumes "list_all (request_fits H n) rs" "n < 65535"
  shows "\<exists>ms. traverse (build_internal_message H) rs = Ok ms \<and> length ms = length rs \<and> (\<forall>m\<in>set ms. shallow (Suc n) (im_message m))"
proof -
  define f where "f r = projr (build_internal_message H r)" for r
  have f: "build_internal_message H r = Ok (f r)" "shallow (Suc n) (im_message (f r))" if "r \<in> set rs" for r
    using message_total [OF _ assms(2), of H r] assms(1) that by (auto simp: list_all_iff f_def)
  then have "traverse (build_internal_message H) rs = Ok (map f rs)" by (intro traverse_map) auto
  then show ?thesis using f(2) by auto
qed

lemma body_bits_length: "length (body_bits e s modes) = 104 + 8 * length modes"
  by (simp add: body_bits_def)

lemma body_total:
  assumes "length ms \<le> 4" "\<forall>m\<in>set ms. shallow n (im_message m)" "n < 65535"
  shows "\<exists>c. build_external_body H e s ms = Ok c \<and> shallow (Suc n) c"
proof -
  have "\<exists>c. and_then (store_chain (body_ops e s ms) builder_new) (build H) = Ok c \<and> shallow (Suc n) c"
    by (rule stored_total [OF body_stores])
      (use assms in \<open>auto simp: body_bits_length MAX_CELL_BITS_def MAX_CELL_REFERENCES_def\<close>)
  then show ?thesis by (auto simp: build_external_body_def body_ops_def tvm_Ok)
qed

lemma signed_total:
  assumes "build_external_body H e s ms = Ok body" "length ms \<le> 4" "\<forall>m\<in>set ms. shallow n (im_message m)" "n < 65535"
    and "length sig = 64"
  shows "\<exists>c. and_then (store_chain [store_slice sig, store_cell body] builder_new) (build H) = Ok c \<and> shallow (Suc n) c"
proof -
  note b = external_body [OF assms(1)]
  have "stores (store_chain [store_slice sig, store_cell body])
      (to_bits sig @ cell_bits body @ []) ([] @ cell_references body @ [])"
    using b(3) by (intro stores_rules stores_cell) (simp add: valid_cell_def canonical_def)
  then show ?thesis
    by (rule stored_total)
      (use assms(2-) b(1,2) in \<open>auto simp: body_bits_length MAX_CELL_BITS_def MAX_CELL_REFERENCES_def\<close>)
qed

lemma transaction_total:
  assumes "length (addr_bytes (w_address w)) = RAW_ADDRESS_LEN" "deploy \<Longrightarrow> \<exists>si. build_state_init L (w_public_key w) = Ok si \<and> shallow n si"
    and "shallow n body" "n < 65535"
  shows "\<exists>tx. build_transaction L w deploy body = Ok tx"
proof -
  let ?H = "ton_sha256 L" and ?bs = "[True, False, False, False] @ address_bits (w_address w) @ coins_bits 0"
  have ne: "addr_bytes (w_address w) \<noteq> []" using assms(1) by (auto simp: RAW_ADDRESS_LEN_def)
  have two: "uint_bits 2 (2 :: u8) = [True, False]" by (simp add: uint_bits_def numeral_2_eq_2)
  have len: "length ?bs = 275" using address_bits_length [OF assms(1)] by (simp add: length_coins_bits coins_len_def)
  have "stores (store_chain [store_u8 2 2, store_null_address, store_address (w_address w), store_coins 0])
      (uint_bits 2 (2 :: u8) @ [False, False] @ address_bits (w_address w) @ coins_bits 0 @ []) ([] @ [] @ [] @ [] @ [])"
    using ne by (intro stores_rules) simp_all
  from storesD [OF this, of "[]" "[]"] len
  have pre: "store_chain [store_u8 2 2, store_null_address, store_address (w_address w), store_coins 0] builder_new = Ok (builder_of ?bs [])"
    by (simp add: builder_new_builder_of two MAX_CELL_BITS_def)
  have step: "op (builder_of bs rs) = Ok (builder_of (bs @ xs) (rs @ cs))"
    if "stores op xs cs" "length bs + length xs \<le> 300" "length rs + length cs \<le> 2" for op bs rs xs cs
    using storesD [OF that(1), of bs rs] that(2,3) by (simp add: MAX_CELL_BITS_def MAX_CELL_REFERENCES_def)
  have post: "\<exists>tx. and_then (store_chain [store_bit True, store_child body] (builder_of bs rs)) (build ?H) = Ok tx"
    if "length bs \<le> 299" "length rs \<le> 1" "\<forall>r\<in>set rs. shallow n r" for bs rs
  proof -
    have "stores (store_chain [store_bit True, store_child body]) ([True] @ [] @ []) ([] @ [body] @ [])"
      by (intro stores_rules)
    then have "store_chain [store_bit True, store_child body] (builder_of bs rs) = Ok (builder_of (bs @ [True]) (rs @ [body]))"
      using step [of _ "[True]" "[body]" bs rs] that by simp
    moreover have "unat (cell_depth r) < 65535" if "r \<in> set (rs @ [body])" for r
      using that \<open>\<forall>r\<in>set rs. shallow n r\<close> assms(3,4) by (auto simp: shallow_def)
    ultimately show ?thesis
      using build_total [of "bs @ [True]" "rs @ [body]" ?H] that by (auto simp: MAX_CELL_BITS_def MAX_CELL_REFERENCES_def)
  qed
  show ?thesis
  proof (cases deploy)
    case True
    then obtain si where si: "build_state_init L (w_public_key w) = Ok si" "shallow n si" using assms(2) by blast
    have "stores (store_chain [store_bit True, store_bit True]) ([True] @ [True] @ []) ([] @ [] @ [])"
      by (intro stores_rules)
    then have "store_chain [store_bit True, store_bit True] (builder_of ?bs []) = Ok (builder_of (?bs @ [True, True]) [])"
      using step [of _ "[True, True]" "[]" ?bs "[]"] len by simp
    moreover have "store_child si (builder_of (?bs @ [True, True]) []) = Ok (builder_of (?bs @ [True, True]) [si])"
      using step [OF stores_child [of si], of "?bs @ [True, True]" "[]"] len by simp
    ultimately show ?thesis
      using True pre si post [of "?bs @ [True, True]" "[si]"] len by (simp add: build_transaction_def tvm_Ok)
  next
    case False
    have "store_bit False (builder_of ?bs []) = Ok (builder_of (?bs @ [False]) [])"
      using step [OF stores_bit [of False], of ?bs "[]"] len by simp
    then show ?thesis using False pre post [of "?bs @ [False]" "[]"] len by (simp add: build_transaction_def tvm_Ok)
  qed
qed

lemma state_init_total:
  assumes "length key = 32" "shallow n (wallet_v4r2_code L)" "0 < n" "n < 65535"
  shows "\<exists>si. build_state_init L key = Ok si \<and> shallow (Suc n) si"
proof -
  let ?H = "ton_sha256 L"
  let ?data = "[store_u32 32 0, store_i32 32 DEFAULT_WALLET_ID, store_slice key, store_bit False]"
  let ?init = "\<lambda>d. [store_bit False, store_bit False, store_bit True, store_bit True, store_bit False,
          store_reference (wallet_v4r2_code L), store_reference d]"
  have u32: "unat (v :: u32) < 2 ^ 32" for v using unsigned_less [of v] by simp
  have "stores (store_chain ?data)
      (uint_bits 32 (0 :: u32) @ uint_bits 32 DEFAULT_WALLET_ID @ to_bits key @ [False] @ []) ([] @ [] @ [] @ [] @ [])"
    by (intro stores_rules u32) simp_all
  then have "\<exists>d. and_then (store_chain ?data builder_new) (build ?H) = Ok d \<and> shallow (Suc 0) d"
    by (rule stored_total) (use assms(1) in \<open>simp_all add: MAX_CELL_BITS_def\<close>)
  then obtain d where d: "and_then (store_chain ?data builder_new) (build ?H) = Ok d" "shallow n d"
    using assms(3) by (auto simp: shallow_def)
  have st: "stores (store_chain (?init d))
      ([False] @ [False] @ [True] @ [True] @ [False] @ [] @ [] @ []) ([] @ [] @ [] @ [] @ [] @ [wallet_v4r2_code L] @ [d] @ [])"
    by (intro stores_rules)
  have "\<exists>c. and_then (store_chain (?init d) builder_new) (build ?H) = Ok c \<and> shallow (Suc n) c"
    by (rule stored_total [OF st]) (use assms(2,4) d(2) in \<open>auto simp: MAX_CELL_BITS_def MAX_CELL_REFERENCES_def\<close>)
  then show ?thesis using d(1) by (auto simp: build_state_init_def tvm_Ok)
qed

text \<open>The widths the code has in its types, and what it relies on from the base64 crate.\<close>

definition base64_inverts :: "(bytes \<Rightarrow> string) \<Rightarrow> (string \<Rightarrow> bytes option) \<Rightarrow> bool" where
  "base64_inverts enc dec \<longleftrightarrow> (\<forall>bs. dec (enc bs) = Some bs)"

definition ton_lib_ok :: "ton_lib \<Rightarrow> bool" where
  "ton_lib_ok L \<longleftrightarrow> (\<forall>x. length (ton_sha256 L x) = 32) \<and> (\<forall>k. length k = 32 \<longrightarrow> length (ed25519_public_key L k) = 32)
     \<and> (\<forall>k d. length (ed25519_sign L k d) = 64) \<and> base64_inverts (encode_base64 L) (decode_base64 L)"

lemma new_ton_signer_total:
  assumes "ton_lib_ok L" "length key = 32" "shallow n (wallet_v4r2_code L)" "0 < n" "n < 65535"
  obtains s si where "new_ton_signer L key = Ok s" "build_state_init L (w_public_key (ts_wallet s)) = Ok si" "shallow (Suc n) si"
    "length (addr_bytes (w_address (ts_wallet s))) = RAW_ADDRESS_LEN"
proof -
  have "length (ed25519_public_key L key) = 32" using assms(1,2) by (simp add: ton_lib_ok_def)
  then obtain si where si: "build_state_init L (ed25519_public_key L key) = Ok si" "shallow (Suc n) si"
    using state_init_total assms(3-5) by blast
  have "\<exists>x. cell_hash si = ton_sha256 L x"
    using si(1) by (auto simp: build_state_init_def tvm_Ok and_then_Inr_iff build_def new_cell_def ok_or_Inr_iff try_new_def
        split: if_splits option.splits)
  then have "length (cell_hash si) = 32" using assms(1) by (auto simp: ton_lib_ok_def)
  then show thesis
    using si assms(2) by (intro that [of "\<lparr>ts_private_key = key, ts_public_key = ed25519_public_key L key, ts_wallet =
        \<lparr>w_public_key = ed25519_public_key L key, w_address = new_address 0 (cell_hash si)\<rparr>\<rparr>" si])
      (simp_all add: new_ton_signer_def new_wallet_def new_address_def RAW_ADDRESS_LEN_def Let_def)
qed

lemma sign_requests_cell_total:
  assumes "ton_lib_ok L" "length key = 32" "shallow n (wallet_v4r2_code L)" "0 < n" "n < 65530"
    and "length rs \<le> 4" "list_all (request_fits (ton_sha256 L) n) rs"
    and "u32_try_from sequence = Some q" "resolve_expire_at now q expire_at = Ok e"
  shows "\<exists>s tx. new_ton_signer L key = Ok s \<and> sign_requests_cell L s now rs sequence expire_at = Ok tx"
proof -
  let ?H = "ton_sha256 L"
  obtain s si where s: "new_ton_signer L key = Ok s" "build_state_init L (w_public_key (ts_wallet s)) = Ok si" "shallow (Suc n) si"
      "length (addr_bytes (w_address (ts_wallet s))) = RAW_ADDRESS_LEN"
    using new_ton_signer_total [OF assms(1-4)] assms(5) by auto
  obtain ms where ms: "traverse (build_internal_message ?H) rs = Ok ms" "length ms \<le> 4" "\<forall>m\<in>set ms. shallow (Suc n) (im_message m)"
    using messages_total [OF assms(7)] assms(5,6) by auto
  obtain body where body: "build_external_body ?H e q ms = Ok body"
    using body_total [OF ms(2,3)] assms(5) by fastforce
  have "length (ts_sign L s (cell_hash body)) = 64" using assms(1) by (simp add: ts_sign_def ton_lib_ok_def)
  then obtain signed where signed: "and_then (store_chain [store_slice (ts_sign L s (cell_hash body)), store_cell body] builder_new) (build ?H) = Ok signed"
      "shallow (Suc (Suc n)) signed"
    using signed_total [OF body ms(2,3)] assms(5) by auto
  have "shallow (Suc (Suc n)) si" using s(3) by (simp add: shallow_def)
  then obtain tx where "build_transaction L (ts_wallet s) (q = 0) signed = Ok tx"
    using transaction_total [OF s(4), of "q = 0" L "Suc (Suc n)" signed] s(2) signed(2) assms(5) by auto
  then have "sign_requests_cell L s now rs sequence expire_at = Ok tx"
    using assms(8,9) ms(1) body signed(1) by (simp add: sign_requests_cell_def Let_def)
  then show ?thesis using s(1) by blast
qed

section \<open>Guarantees\<close>

text \<open>The hashes of the cells reachable from \<open>c\<close> are different where the cells are.\<close>

definition collision_free :: "cell \<Rightarrow> bool" where
  "collision_free c \<longleftrightarrow> (\<forall>x\<in>set (subcells c). \<forall>y\<in>set (subcells c). cell_hash x = cell_hash y \<longrightarrow> x = y)"

lemma collision_free_inj: "collision_free c \<longleftrightarrow> inj_on cell_hash (set (subcells c))"
  by (auto simp: collision_free_def inj_on_def)

text \<open>A root, a cell and a leaf that both of them reference: the leaf is met before the cell.\<close>

definition toy_hash :: "bytes \<Rightarrow> bytes" where
  "toy_hash bs = take 32 (bs @ replicate 32 0)"

definition demo_leaf :: cell where "demo_leaf = the (try_new toy_hash [0xA0] 3 [])"
definition demo_mid :: cell where "demo_mid = the (try_new toy_hash [0x12, 0x34] 16 [demo_leaf])"
definition demo_root :: cell where "demo_root = the (try_new toy_hash [] 0 [demo_leaf, demo_mid])"

lemma demo_cells: "valid_tree toy_hash demo_root" "collision_free demo_root" "card (set (subcells demo_root)) \<le> MAX_CELLS"
  by code_simp+

text \<open>
  C35: The numbering loop of \<open>build_index\<close> ends for every tree of cells whose hashes do not collide,
  and the index it gives holds the root and puts each cell before the cells it references.
\<close>

theorem ton_numbering_ends:
  assumes "collision_free c"
  shows "\<exists>ic. build_index [c] = Some ic \<and> (\<exists>v. map_of ic (cell_hash c) = Some v \<and> ix_cell v = c)
     \<and> (\<forall>(h, v)\<in>set ic. \<forall>r\<in>set (cell_references (ix_cell v)).
          \<exists>w. map_of ic (cell_hash r) = Some w \<and> ix_cell w = r \<and> ix_index v < ix_index w)"
proof -
  obtain ic where ic: "build_index [c] = Some ic" "numbered (set (subcells c)) {c} ic"
    using build_index_numbered [of "[c]" "set (subcells c)"] self_in_subcells subcells_closed assms
    by (auto simp: collision_free_inj)
  have dist: "distinct (map fst ic)" using ic(2) by (simp add: numbered_def)
  have lookup: "\<exists>w. map_of ic (cell_hash x) = Some w \<and> ix_cell w = x \<and> ix_index w = ixf ic (cell_hash x)"
    if "(cell_hash x, x) \<in> set (shape ic)" for x
  proof -
    have "map_of (shape ic) (cell_hash x) = Some x" using dist that by simp
    then show ?thesis by (auto simp: map_of_shape ixf_def)
  qed
  have "\<exists>w. map_of ic (cell_hash r) = Some w \<and> ix_cell w = r \<and> ix_index v < ix_index w"
    if v: "(h, v) \<in> set ic" and r: "r \<in> set (cell_references (ix_cell v))" for h v r
  proof -
    have "(h, ix_cell v) \<in> set (shape ic)" using v by (force simp: shape_def)
    then have "(cell_hash r, r) \<in> set (shape ic)" "ixf ic h < ixf ic (cell_hash r)"
      using ic(2) r unfolding numbered_def by blast+
    moreover have "ixf ic h = ix_index v" using dist v by (simp add: ixf_def)
    ultimately show ?thesis using lookup by metis
  qed
  moreover have "(cell_hash c, c) \<in> set (shape ic)" using ic(2) unfolding numbered_def by blast
  ultimately show ?thesis using ic(1) lookup by blast
qed

theorem ton_numbering_ends_witness:
  "collision_free demo_root \<and> (\<exists>ic. build_index [demo_root] = Some ic
     \<and> (\<exists>v. map_of ic (cell_hash demo_root) = Some v \<and> ix_cell v = demo_root)
     \<and> (\<forall>(h, v)\<in>set ic. \<forall>r\<in>set (cell_references (ix_cell v)).
          \<exists>w. map_of ic (cell_hash r) = Some w \<and> ix_cell w = r \<and> ix_index v < ix_index w))"
  using ton_numbering_ends [OF demo_cells(2)] demo_cells(2) by blast

text \<open>
  C33: Parsing what \<open>BagOfCells::serialize\<close> writes gives the bag back, with or without the checksum,
  for every tree of at most 4096 different cells that \<open>Cell::new\<close> accepts, has no stray padding bits and has no
  hash collision; in particular serializing ends and does not fail.
\<close>

theorem ton_boc_roundtrip:
  assumes "valid_tree H c" "collision_free c" "card (set (subcells c)) \<le> MAX_CELLS"
  shows "\<exists>bs. boc_serialize checksum (from_root c) with_crc = Some (Ok bs) \<and> boc_parse H checksum bs = Ok (from_root c)"
  using boc_parse_serialize [of c H checksum with_crc] assms by (simp add: valid_tree_def collision_free_inj)

theorem ton_boc_roundtrip_witness:
  "valid_tree toy_hash demo_root \<and> collision_free demo_root \<and> card (set (subcells demo_root)) \<le> MAX_CELLS
   \<and> (\<exists>bs. boc_serialize (\<lambda>_. 7) (from_root demo_root) True = Some (Ok bs) \<and> boc_parse toy_hash (\<lambda>_. 7) bs = Ok (from_root demo_root))"
  using ton_boc_roundtrip [OF demo_cells] demo_cells by blast

text \<open>
  A comment of up to \<open>123 + 127 * 65535\<close> bytes is always stored, and reading the chain of cells
  gives the four zero bytes of a text comment and then the comment.
\<close>

theorem ton_comment_snake:
  assumes "length comment \<le> 123 + 127 * 65535"
  shows "\<exists>c. build_comment_payload H comment = Ok c \<and> snake_data c = [0, 0, 0, 0] @ as_bytes comment"
  using assms by (rule comment_payload_snake)

theorem ton_comment_snake_witness:
  "length (replicate 300 CHR ''x'') \<le> 123 + 127 * 65535
   \<and> (\<exists>c. build_comment_payload toy_hash (replicate 300 CHR ''x'') = Ok c
        \<and> snake_data c = [0, 0, 0, 0] @ as_bytes (replicate 300 CHR ''x''))"
  using ton_comment_snake [of "replicate 300 CHR ''x''" toy_hash] by simp

text \<open>
  An address written as a base64 bag of cells is read back: the round trip through
  \<open>to_cell\<close>, the container and \<open>from_cell\<close>.
\<close>

theorem ton_address_boc_roundtrip:
  assumes "length (addr_bytes a) = RAW_ADDRESS_LEN" "base64_inverts (encode_base64 L) (decode_base64 L)"
  shows "\<exists>s. to_boc_base64 L a = Some (Ok s) \<and> from_boc_base64 L s = Ok a"
proof -
  obtain c where c: "address_to_cell (ton_sha256 L) a = Ok c" "address_from_cell c = Ok a"
    using address_cell [OF assms(1)] by blast
  have ne: "addr_bytes a \<noteq> []" using assms(1) by (auto simp: RAW_ADDRESS_LEN_def)
  have b: "and_then (store_address a builder_new) (build (ton_sha256 L)) = Ok c"
    using c(1) by (simp add: address_to_cell_def)
  note f = built_cell [OF stores_address [OF ne] b]
  have sub: "set (subcells c) = {c}" using subcells_references [of c] f(2) by simp
  have "\<forall>x\<in>set (subcells c). valid_cell (ton_sha256 L) x" "inj_on cell_hash (set (subcells c))"
      "card (set (subcells c)) \<le> MAX_CELLS"
    using f(3) by (simp_all add: sub MAX_CELLS_def)
  from boc_parse_serialize [OF this, of "crc32c L" True]
  obtain bs where bs: "boc_serialize (crc32c L) (from_root c) True = Some (Ok bs)"
      "boc_parse (ton_sha256 L) (crc32c L) bs = Ok (from_root c)" by blast
  then have "to_boc_base64 L a = Some (Ok (encode_base64 L bs))"
    using c(1) by (simp add: to_boc_base64_def boc_to_base64_def)
  moreover have "from_boc_base64 L (encode_base64 L bs) = Ok a"
    using bs(2) c(2) assms(2)
    by (simp add: from_boc_base64_def boc_parse_base64_root_def boc_parse_base64_def base64_inverts_def from_root_def)
  ultimately show ?thesis by blast
qed

definition demo_ton_lib :: ton_lib where
  "demo_ton_lib = \<lparr>ton_sha256 = toy_hash, crc16 = (\<lambda>_. 0x1234), crc32c = (\<lambda>_. 7), crc32_iso = (\<lambda>_. 9),
     encode_base64 = from_bytes, decode_base64 = (\<lambda>s. Some (as_bytes s)), decode_base64_no_pad = (\<lambda>s. None),
     encode_base64_url = from_bytes, decode_base64_url = (\<lambda>s. Some (as_bytes s)),
     ton_hex_encode = from_bytes, ton_hex_decode = (\<lambda>s. Some (as_bytes s)),
     biguint_from_str = (\<lambda>s. case digits_value 0 s of None \<Rightarrow> Inl ''invalid digit'' | Some n \<Rightarrow> Inr n),
     ed25519_public_key = (\<lambda>k. k), ed25519_sign = (\<lambda>k d. take 64 (k @ d @ replicate 64 0)),
     json_connect_request = (\<lambda>_. Inl ''unused''), json_sign_message = (\<lambda>_. Inl ''unused''),
     wallet_v4r2_code = demo_leaf\<rparr>"

definition demo_address :: ton_address where "demo_address = \<lparr>addr_bytes = 0 # replicate 32 0xAB\<rparr>"

theorem ton_address_boc_roundtrip_witness:
  "length (addr_bytes demo_address) = RAW_ADDRESS_LEN
   \<and> base64_inverts (encode_base64 demo_ton_lib) (decode_base64 demo_ton_lib)
   \<and> (\<exists>s. to_boc_base64 demo_ton_lib demo_address = Some (Ok s) \<and> from_boc_base64 demo_ton_lib s = Ok demo_address)"
  using ton_address_boc_roundtrip [of demo_address demo_ton_lib]
  by (simp add: demo_address_def demo_ton_lib_def RAW_ADDRESS_LEN_def base64_inverts_def)

text \<open>
  The text form of an address is read back as the same address, and the reader recovers whether
  it was written as bounceable.
\<close>

theorem ton_user_friendly_roundtrip:
  assumes "length (addr_bytes a) = RAW_ADDRESS_LEN" "base64_inverts (encode_base64_url L) (decode_base64_url L)"
  shows "parse_user_friendly L (encode_user_friendly L a t) = Some (a, is_bounceable t)"
  using assms by (intro user_friendly) (simp_all add: base64_inverts_def)

theorem ton_user_friendly_roundtrip_witness:
  "length (addr_bytes demo_address) = RAW_ADDRESS_LEN
   \<and> base64_inverts (encode_base64_url demo_ton_lib) (decode_base64_url demo_ton_lib)
   \<and> parse_user_friendly demo_ton_lib (encode_user_friendly demo_ton_lib demo_address NonBounceable) = Some (demo_address, False)"
  using ton_user_friendly_roundtrip [of demo_address demo_ton_lib NonBounceable]
  by (simp add: demo_address_def demo_ton_lib_def RAW_ADDRESS_LEN_def base64_inverts_def)

text \<open>
  C34: Signing ends and gives a transaction for every list of at most four requests the builder can
  store, whatever the expiry, from the key alone: the cell of the transaction is always built, and where the hashes of
  its cells do not collide the numbering ends and a text is returned, however many cells there are. If there are at
  most 4096 of them (a comment of half a megabyte takes more), the text parses back to that transaction; the repository's parser
  refuses larger bags.
\<close>

theorem ton_sign_requests_returns:
  assumes "ton_lib_ok L" "length key = 32" "shallow n (wallet_v4r2_code L)" "0 < n" "n < 65530"
    and "valid_tree (ton_sha256 L) (wallet_v4r2_code L)"
    and "length rs \<le> 4" "list_all (request_fits (ton_sha256 L) n) rs" "list_all (request_cells_valid (ton_sha256 L)) rs"
    and "u32_try_from sequence = Some q" "resolve_expire_at now q expire_at = Ok e"
  shows "\<exists>s tx. new_ton_signer L key = Ok s \<and> sign_requests_cell L s now rs sequence expire_at = Ok tx
     \<and> (collision_free tx \<longrightarrow> (\<exists>t. sign_requests L s now rs sequence expire_at = Some (Ok t)
          \<and> (card (set (subcells tx)) \<le> MAX_CELLS \<longrightarrow> boc_parse_base64_root L t = Ok tx)))"
proof -
  obtain s tx where s: "new_ton_signer L key = Ok s" "sign_requests_cell L s now rs sequence expire_at = Ok tx"
    using sign_requests_cell_total [OF assms(1-5,7,8,10,11)] by blast
  have "\<exists>t. sign_requests L s now rs sequence expire_at = Some (Ok t)
      \<and> (card (set (subcells tx)) \<le> MAX_CELLS \<longrightarrow> boc_parse_base64_root L t = Ok tx)" if c: "collision_free tx"
  proof -
    obtain bs where bs: "boc_serialize (crc32c L) (from_root tx) True = Some (Ok bs)"
      using boc_serialize_in_order [of tx] c by (metis collision_free_inj)
    have "valid_tree (ton_sha256 L) tx" by (rule signed_transaction_valid [OF s(2) assms(6,9)])
    then have "boc_parse (ton_sha256 L) (crc32c L) bs = Ok (from_root tx)" if "card (set (subcells tx)) \<le> MAX_CELLS"
      using boc_parse_serialize [of tx "ton_sha256 L" "crc32c L" True] c bs that by (auto simp: valid_tree_def collision_free_inj)
    then show ?thesis
      using s(2) bs assms(1)
      by (auto simp: sign_requests_def boc_to_base64_def boc_parse_base64_root_def boc_parse_base64_def
          ton_lib_ok_def base64_inverts_def from_root_def)
  qed
  then show ?thesis using s by blast
qed

definition demo_request :: transfer_request where
  "demo_request = \<lparr>tr_destination = demo_address, tr_value = 5, tr_mode = 3, tr_bounceable = False,
     tr_comment = None, tr_payload = None, tr_state_init = None\<rparr>"

definition demo_key :: bytes where "demo_key = replicate 32 7"

lemma toy_hash_length: "length (toy_hash x) = 32"
  by (simp add: toy_hash_def)

lemma demo_lib_ok: "ton_lib_ok demo_ton_lib"
  by (simp add: ton_lib_ok_def demo_ton_lib_def toy_hash_length base64_inverts_def min_def)

lemma demo_lib [simp]: "ton_sha256 demo_ton_lib = toy_hash" "wallet_v4r2_code demo_ton_lib = demo_leaf"
  by (simp_all add: demo_ton_lib_def)

lemma demo_leaf_facts: "valid_tree toy_hash demo_leaf" "shallow 2 demo_leaf"
  by code_simp+

lemma demo_request_facts: "request_fits toy_hash 2 demo_request" "request_cells_valid toy_hash demo_request"
proof -
  have "case build_payload toy_hash demo_request of Inl _ \<Rightarrow> False | Inr c \<Rightarrow> shallow 2 c" by code_simp
  then show "request_fits toy_hash 2 demo_request" "request_cells_valid toy_hash demo_request"
    by (simp_all add: request_fits_def request_cells_valid_def request_wf_def demo_request_def demo_address_def RAW_ADDRESS_LEN_def)
qed

lemma demo_times: "u32_try_from 7 = Some 7" "resolve_expire_at 1000 7 None = Ok 1600"
  by code_simp+

text \<open>The four cells of the demonstration transaction start with different descriptors, so that their hashes differ.\<close>

lemma toy_hash_differ:
  assumes "valid_cell toy_hash x" "valid_cell toy_hash y" "cell_hash x = cell_hash y"
  shows "(of_nat (descriptor (cell_bit_len x)) :: u8) = of_nat (descriptor (cell_bit_len y))"
proof -
  have "take 2 (toy_hash (preimage x)) = take 2 (toy_hash (preimage y))"
    using valid_cell_facts(1) [OF assms(1)] valid_cell_facts(1) [OF assms(2)] assms(3) by simp
  then show ?thesis by (simp add: toy_hash_def preimage_def cell_repr_def numeral_2_eq_2)
qed

lemma cell_bit_len_bits: "valid_cell H c \<Longrightarrow> cell_bit_len c = length (cell_bits c)"
  using div_ceil_ge [of 8 "cell_bit_len c"] by (simp add: valid_cell_def canonical_def cell_bits_def)

lemma demo_transaction:
  assumes "new_ton_signer demo_ton_lib demo_key = Ok s" "sign_requests_cell demo_ton_lib s 1000 [demo_request] 7 None = Ok tx"
  shows "collision_free tx" "card (set (subcells tx)) \<le> MAX_CELLS"
proof -
  have vt: "valid_tree toy_hash tx"
    using signed_transaction_valid [OF assms(2)] demo_leaf_facts(1) demo_request_facts(2) by simp
  have wf: "request_wf demo_request" using demo_request_facts(1) by (simp add: request_fits_def)
  obtain sq e ms body signed where t: "u32_try_from 7 = Some sq" "traverse (build_internal_message toy_hash) [demo_request] = Ok ms"
      "build_external_body toy_hash e sq ms = Ok body"
      "and_then (store_chain [store_slice (ts_sign demo_ton_lib s (cell_hash body)), store_cell body] builder_new) (build toy_hash) = Ok signed"
      "build_transaction demo_ton_lib (ts_wallet s) (sq = 0) signed = Ok tx"
    using sign_requests_steps [OF assms(2)] demo_lib(1) by metis
  have q: "sq \<noteq> 0" using t(1) demo_times(1) by simp
  obtain m where m: "ms = [m]" "build_internal_message toy_hash demo_request = Ok m"
    using t(2) by (auto simp: and_then_Inr_iff)
  obtain p where p: "build_payload toy_hash demo_request = Ok p" "cell_bits (im_message m) = info_bits demo_request"
      "cell_references (im_message m) = message_refs demo_request p"
    using internal_message [OF m(2) wf] by metis
  have p0: "cell_references p = []" "cell_bits p = []"
    using p(1) build_Ok(1,2) [of toy_hash "[]" "[]" p]
    by (simp_all add: build_payload_def demo_request_def tvm_Ok builder_new_builder_of)
  note sb = signed_body [OF t(4) external_body(3) [OF t(3)]] and eb = external_body [OF t(3)]
  obtain si where "addr_bytes (ts_address s) = 0 # cell_hash si" "build_state_init demo_ton_lib (ed25519_public_key demo_ton_lib demo_key) = Ok si"
    using new_ton_signer_wallet [OF assms(1)] by metis
  moreover have "\<exists>x. cell_hash si = toy_hash x"
    using calculation(2) by (auto simp: build_state_init_def tvm_Ok and_then_Inr_iff build_def new_cell_def ok_or_Inr_iff try_new_def
        split: if_splits option.splits)
  ultimately have a: "length (addr_bytes (ts_address s)) = RAW_ADDRESS_LEN" by (auto simp: toy_hash_length RAW_ADDRESS_LEN_def)
  then have ne: "addr_bytes (w_address (ts_wallet s)) \<noteq> []" by (auto simp: ts_address_def RAW_ADDRESS_LEN_def)
  note tc = transaction_cell [OF t(5) ne]
  have refs: "cell_references tx = [signed]" "cell_references signed = [im_message m]" "cell_references (im_message m) = [p]"
    using tc(2) q sb eb(2) m(1) p(3) by (auto simp: message_refs_def demo_request_def)
  then have sub: "set (subcells tx) = {tx, signed, im_message m, p}"
    using subcells_references [of tx] subcells_references [of signed] subcells_references [of "im_message m"]
      subcells_references [of p] p0(1) by auto
  then have v: "valid_cell toy_hash tx" "valid_cell toy_hash signed" "valid_cell toy_hash (im_message m)" "valid_cell toy_hash p"
    using vt by (auto simp: valid_tree_def)
  have sig: "length (ts_sign demo_ton_lib s d) = 64" for d using demo_lib_ok by (simp add: ts_sign_def ton_lib_ok_def)
  have len: "cell_bit_len tx = 277" "cell_bit_len signed = 624" "cell_bit_len (im_message m) = 392" "cell_bit_len p = 0"
  proof -
    show "cell_bit_len tx = 277"
      using tc(1) cell_bit_len_bits [OF v(1)] q address_bits_length [OF a]
      by (simp add: envelope_bits_def length_coins_bits coins_len_def ts_address_def)
    show "cell_bit_len signed = 624"
      using sb eb(1) m(1) cell_bit_len_bits [OF v(2)] sig by (simp add: body_bits_length)
    have "length (address_bits demo_address) = 267" "coins_len 5 = 1" by (simp_all add: address_bits_length demo_address_def RAW_ADDRESS_LEN_def) code_simp
    then show "cell_bit_len (im_message m) = 392"
      using p(2) cell_bit_len_bits [OF v(3)] by (simp add: info_bits_def length_coins_bits coins_len_def demo_request_def)
    show "cell_bit_len p = 0" using p0(2) cell_bit_len_bits [OF v(4)] by simp
  qed
  have "descriptor 277 = 69" "descriptor 624 = 156" "descriptor 392 = 98" "descriptor 0 = 0" by code_simp+
  then have "distinct (map (\<lambda>c. of_nat (descriptor (cell_bit_len c)) :: u8) [tx, signed, im_message m, p])"
    by (simp add: len)
  then have inj: "inj_on (\<lambda>c. of_nat (descriptor (cell_bit_len c)) :: u8) (set (subcells tx))"
    unfolding sub by (simp only: distinct_map set_simps)
  show "collision_free tx"
    unfolding collision_free_def
  proof (intro ballI impI)
    fix x y
    assume x: "x \<in> set (subcells tx)" and y: "y \<in> set (subcells tx)" and h: "cell_hash x = cell_hash y"
    have "valid_cell toy_hash x" "valid_cell toy_hash y" using vt x y unfolding valid_tree_def by blast+
    then show "x = y" using inj_onD [OF inj toy_hash_differ] x y h by blast
  qed
  show "card (set (subcells tx)) \<le> MAX_CELLS"
    unfolding sub using card_length [of "[tx, signed, im_message m, p]"] by (simp add: MAX_CELLS_def)
qed

theorem ton_sign_requests_returns_witness:
  "ton_lib_ok demo_ton_lib \<and> list_all (request_fits (ton_sha256 demo_ton_lib) 2) [demo_request]
   \<and> (\<exists>s tx t. new_ton_signer demo_ton_lib demo_key = Ok s \<and> sign_requests_cell demo_ton_lib s 1000 [demo_request] 7 None = Ok tx
        \<and> sign_requests demo_ton_lib s 1000 [demo_request] 7 None = Some (Ok t) \<and> boc_parse_base64_root demo_ton_lib t = Ok tx)"
proof -
  have "length demo_key = 32" by (simp add: demo_key_def)
  from ton_sign_requests_returns [OF demo_lib_ok this, of 2 "[demo_request]" 7 7 1000 None 1600]
  obtain s tx where "new_ton_signer demo_ton_lib demo_key = Ok s" "sign_requests_cell demo_ton_lib s 1000 [demo_request] 7 None = Ok tx"
      "collision_free tx \<and> card (set (subcells tx)) \<le> MAX_CELLS
        \<longrightarrow> (\<exists>t. sign_requests demo_ton_lib s 1000 [demo_request] 7 None = Some (Ok t) \<and> boc_parse_base64_root demo_ton_lib t = Ok tx)"
    using demo_leaf_facts demo_request_facts demo_times by auto
  then show ?thesis using demo_transaction demo_lib_ok demo_request_facts(1) by auto
qed

text \<open>
  C32: A signature stands for one set of effects: when two lists of requests give bodies with the same
  hash, and the hash function does not collide on the cells of the two bodies, then the expiry, the sequence number and, request by
  request, the destination, the amount, the send mode, the bounce flag, the initial state and the payload are the same.
\<close>

theorem ton_signature_binds:
  assumes "traverse (build_internal_message H) rs = Ok ms" "build_external_body H e q ms = Ok body"
    and "traverse (build_internal_message H) rs' = Ok ms'" "build_external_body H e' q' ms' = Ok body'"
    and "list_all request_wf (rs @ rs')" "list_all (request_cells_valid H) (rs @ rs')"
    and "\<And>x. length (H x) = 32" "inj_on H (preimage ` (set (subcells body) \<union> set (subcells body')))"
    and "cell_hash body = cell_hash body'"
  shows "e = e' \<and> q = q' \<and> list_all2 (same_effect H) rs rs'"
proof -
  have "body = body'"
    using signed_valid [OF assms(1,2)] signed_valid [OF assms(3,4)] assms(6)
    by (intro hash_commits [OF _ _ assms(7-9)]) simp_all
  then have "build_external_body H e' q' ms' = Ok body" using assms(4) by simp
  note b = body_binds [OF assms(2) this]
  have "list_all2 (same_effect H) rs rs'"
    using assms(5) by (intro requests_bind [OF assms(1,3) _ _ b(3,4)]) simp_all
  then show ?thesis using b(1,2) by blast
qed

lemma demo_body:
  obtains ms body where "traverse (build_internal_message toy_hash) [demo_request] = Ok ms" "build_external_body toy_hash 1600 7 ms = Ok body"
    "inj_on toy_hash (preimage ` set (subcells body))"
proof -
  have wf: "request_wf demo_request" using demo_request_facts(1) by (simp add: request_fits_def)
  obtain m where m: "build_internal_message toy_hash demo_request = Ok m" "shallow (Suc 2) (im_message m)"
    using message_total [OF demo_request_facts(1)] by auto
  then obtain body where body: "build_external_body toy_hash 1600 7 [m] = Ok body"
    using body_total [of "[m]" "Suc 2" toy_hash] by auto
  have tr: "traverse (build_internal_message toy_hash) [demo_request] = Ok [m]" using m(1) by simp
  have vt: "valid_tree toy_hash body" by (rule signed_valid [OF tr body]) (simp add: demo_request_facts(2))
  obtain p where p: "build_payload toy_hash demo_request = Ok p" "cell_bits (im_message m) = info_bits demo_request"
      "cell_references (im_message m) = message_refs demo_request p"
    using internal_message [OF m(1) wf] by metis
  have p0: "cell_references p = []" "cell_bits p = []"
    using p(1) build_Ok(1,2) [of toy_hash "[]" "[]" p]
    by (simp_all add: build_payload_def demo_request_def tvm_Ok builder_new_builder_of)
  have sub: "set (subcells body) = {body, im_message m, p}"
    using subcells_references [of body] subcells_references [of "im_message m"] subcells_references [of p]
      p0(1) p(3) external_body(2) [OF body] by (auto simp: message_refs_def demo_request_def)
  have v: "valid_cell toy_hash x" if "x \<in> set (subcells body)" for x using vt that unfolding valid_tree_def by blast
  have "coins_len 5 = 1" by code_simp
  then have "length (info_bits demo_request) = 392"
    using address_bits_length [of demo_address]
    by (simp add: info_bits_def length_coins_bits coins_len_def demo_request_def demo_address_def RAW_ADDRESS_LEN_def)
  then have "cell_bit_len body = 112" "cell_bit_len (im_message m) = 392" "cell_bit_len p = 0"
    using cell_bit_len_bits [OF v] p(2) p0(2) external_body(1) [OF body] by (simp_all add: sub body_bits_length)
  moreover have "descriptor 112 = 28" "descriptor 392 = 98" "descriptor 0 = 0" by code_simp+
  ultimately have "distinct (map (\<lambda>c. of_nat (descriptor (cell_bit_len c)) :: u8) [body, im_message m, p])" by simp
  then have inj: "inj_on (\<lambda>c. of_nat (descriptor (cell_bit_len c)) :: u8) (set (subcells body))"
    unfolding sub by (simp only: distinct_map set_simps)
  have "inj_on toy_hash (preimage ` set (subcells body))"
  proof (rule inj_onI, elim imageE)
    fix u w x y
    assume h: "toy_hash u = toy_hash w" and x: "u = preimage x" "x \<in> set (subcells body)" and y: "w = preimage y" "y \<in> set (subcells body)"
    have "cell_hash x = cell_hash y" using h x(1) y(1) valid_cell_facts(1) [OF v [OF x(2)]] valid_cell_facts(1) [OF v [OF y(2)]] by simp
    then show "u = w" using inj_onD [OF inj toy_hash_differ [OF v v]] x y by blast
  qed
  then show thesis using that tr body by blast
qed

theorem ton_signature_binds_witness:
  "\<exists>ms body. traverse (build_internal_message toy_hash) [demo_request] = Ok ms \<and> build_external_body toy_hash 1600 7 ms = Ok body
     \<and> inj_on toy_hash (preimage ` set (subcells body)) \<and> list_all2 (same_effect toy_hash) [demo_request] [demo_request]"
proof -
  obtain ms body where b: "traverse (build_internal_message toy_hash) [demo_request] = Ok ms"
      "build_external_body toy_hash 1600 7 ms = Ok body" "inj_on toy_hash (preimage ` set (subcells body))"
    by (rule demo_body)
  have "list_all2 (same_effect toy_hash) [demo_request] [demo_request]"
    using ton_signature_binds [OF b(1,2) b(1,2) _ _ toy_hash_length _ refl] b(3) demo_request_facts by (auto simp: request_fits_def)
  then show ?thesis using b by blast
qed

text \<open>
  What \<open>sign_requests\<close> signs and sends. The message is addressed to the wallet contract of the
  key, carries the initial state exactly for sequence number 0, and that state is the one the wallet address is the hash of; its body is
  the signature of the hash of the unsigned body, then the unsigned body, which starts with wallet id, expiry and sequence number and
  lists the send modes and the messages of the requests in order.
\<close>

theorem ton_signed_transaction:
  assumes "new_ton_signer L key = Ok s" "sign_requests_cell L s now rs sequence expire_at = Ok tx"
  shows "\<exists>e ms body signed si. resolve_expire_at now (ucast sequence) expire_at = Ok e \<and> unat sequence < 2 ^ 32
     \<and> list_all2 (\<lambda>r m. build_internal_message (ton_sha256 L) r = Ok m) rs ms
     \<and> build_external_body (ton_sha256 L) e (ucast sequence) ms = Ok body
     \<and> cell_bits body = body_bits e (ucast sequence) (map im_mode ms) \<and> cell_references body = map im_message ms
     \<and> cell_bits signed = to_bits (ed25519_sign L key (cell_hash body)) @ cell_bits body \<and> cell_references signed = cell_references body
     \<and> build_state_init L (ed25519_public_key L key) = Ok si \<and> addr_bytes (ts_address s) = 0 # cell_hash si
     \<and> cell_bits tx = envelope_bits (ts_address s) (sequence = 0)
     \<and> cell_references tx = (if sequence = 0 then [si, signed] else [signed])"
proof -
  obtain q e ms body signed where t: "u32_try_from sequence = Some q" "resolve_expire_at now q expire_at = Ok e"
      "traverse (build_internal_message (ton_sha256 L)) rs = Ok ms" "build_external_body (ton_sha256 L) e q ms = Ok body"
      "and_then (store_chain [store_slice (ts_sign L s (cell_hash body)), store_cell body] builder_new) (build (ton_sha256 L)) = Ok signed"
      "build_transaction L (ts_wallet s) (q = 0) signed = Ok tx"
    by (rule sign_requests_steps [OF assms(2)])
  obtain si where si: "build_state_init L (ed25519_public_key L key) = Ok si" "ts_private_key s = key"
      "w_public_key (ts_wallet s) = ed25519_public_key L key" "addr_bytes (ts_address s) = 0 # cell_hash si"
    by (rule new_ton_signer_wallet [OF assms(1)])
  have q: "q = ucast sequence" "unat sequence < 2 ^ 32" using t(1) by (auto simp: u32_try_from_def split: if_splits)
  have q0: "q = 0 \<longleftrightarrow> sequence = 0" using q by (simp add: word_unat_eq_iff unsigned_ucast_eq take_bit_nat_eq_self unsigned_take_bit_eq)
  have "addr_bytes (w_address (ts_wallet s)) \<noteq> []" using si(4) by (simp add: ts_address_def)
  note tc = transaction_cell [OF t(6) this] and eb = external_body [OF t(4)]
  have "cell_references tx = (if sequence = 0 then [si, signed] else [signed])"
    using tc(2) si(1,3) q0 by (auto split: if_splits)
  moreover have "list_all2 (\<lambda>r m. build_internal_message (ton_sha256 L) r = Ok m) rs ms"
    using t(3) by (simp add: traverse_Inr_iff)
  ultimately show ?thesis
    using t(2,4) q q0 eb(1,2) si(1,2,4) tc(1) signed_body [OF t(5) eb(3)] by (auto simp: ts_sign_def ts_address_def)
qed

theorem ton_signed_transaction_witness:
  "\<exists>s tx. new_ton_signer demo_ton_lib demo_key = Ok s \<and> sign_requests_cell demo_ton_lib s 1000 [demo_request] 7 None = Ok tx
     \<and> cell_bits tx = envelope_bits (ts_address s) False \<and> length (cell_references tx) = 1"
proof -
  have k: "length demo_key = 32" by (simp add: demo_key_def)
  obtain s tx where s: "new_ton_signer demo_ton_lib demo_key = Ok s" "sign_requests_cell demo_ton_lib s 1000 [demo_request] 7 None = Ok tx"
    using sign_requests_cell_total [OF demo_lib_ok k, of 2 "[demo_request]" 7 7 1000 None 1600]
      demo_leaf_facts demo_request_facts demo_times by auto
  then show ?thesis using ton_signed_transaction [OF s] by auto
qed

end
