(* ===== verification/Ed25519.thy ===== *)
theory Ed25519
  imports Wallet_Types
begin

text \<open>
  What the account-based signers share: the Ed25519 key pair and the signing front end of
  \<open>core/crates/signer\<close> (\<open>ed25519.rs\<close>, \<open>lib.rs\<close>, \<open>address.rs\<close>) over the curve libraries,
  which are arguments, and the prefix codes of length-prefixed and big-endian fields.
\<close>

section \<open>Keys\<close>

text \<open>\<open>ed25519_dalek\<close>: the verifying key of a 32-byte secret and the signature of a message.\<close>

record ed_keys =
  verifying_key :: "bytes \<Rightarrow> bytes"
  signing_key_sign :: "bytes \<Rightarrow> bytes \<Rightarrow> bytes"

definition ED25519_KEY_TYPE :: u8 where "ED25519_KEY_TYPE = 0"

record ed25519_key_pair =
  kp_signing_key :: bytes
  public_key_bytes :: bytes

definition ed25519_from_private_key :: "ed_keys \<Rightarrow> bytes \<Rightarrow> ed25519_key_pair signer_result" where
  "ed25519_from_private_key E private_key =
     (if length private_key \<noteq> 32 then invalid_input_err ''Invalid Ed25519 private key length''
      else Ok \<lparr>kp_signing_key = private_key, public_key_bytes = verifying_key E private_key\<rparr>)"

definition ed25519_sign :: "ed_keys \<Rightarrow> ed25519_key_pair \<Rightarrow> bytes \<Rightarrow> bytes" where
  "ed25519_sign E kp digest = signing_key_sign E (kp_signing_key kp) digest"

text \<open>\<open>k256\<close>: the signature of a digest with its recovery id, where the secret is a valid scalar, and the compressed public key.\<close>

record secp_keys =
  sign_prehash_recoverable :: "bytes \<Rightarrow> bytes \<Rightarrow> (bytes \<times> u8) option"
  sec1_public_key :: "bytes \<Rightarrow> bytes option"

definition secp256k1_sign_digest :: "secp_keys \<Rightarrow> bytes \<Rightarrow> bytes \<Rightarrow> (bytes \<times> u8) signer_result" where
  "secp256k1_sign_digest S digest private_key =
     ok_or (sign_prehash_recoverable S private_key digest) (SigningError ''Invalid Secp256k1 private key'')"

definition sign_digest_append_recovery :: "secp_keys \<Rightarrow> bytes \<Rightarrow> bytes \<Rightarrow> bytes signer_result" where
  "sign_digest_append_recovery S digest private_key =
     and_then (secp256k1_sign_digest S digest private_key) (\<lambda>(rs, v). Ok (rs @ [v]))"

definition secp256k1_public_key :: "secp_keys \<Rightarrow> bytes \<Rightarrow> bytes signer_result" where
  "secp256k1_public_key S private_key =
     ok_or (sec1_public_key S private_key) (InvalidInput ''Invalid Secp256k1 private key'')"

datatype signature_scheme = Ed25519Scheme | Ed25519CardanoExtended | Secp256k1

fun signer_sign_digest :: "ed_keys \<Rightarrow> secp_keys \<Rightarrow> signature_scheme \<Rightarrow> bytes \<Rightarrow> bytes \<Rightarrow> bytes signer_result" where
  "signer_sign_digest E S Ed25519Scheme digest private_key =
     and_then (ed25519_from_private_key E private_key) (\<lambda>kp. Ok (ed25519_sign E kp digest))"
| "signer_sign_digest E S Ed25519CardanoExtended digest private_key =
     Err (SigningError ''Cardano extended key signing is handled by gem_cardano'')"
| "signer_sign_digest E S Secp256k1 digest private_key = sign_digest_append_recovery S digest private_key"

text \<open>The 32-byte payload of a base32 address.\<close>

definition base32_from_slice :: "bytes \<Rightarrow> bytes signer_result" where
  "base32_from_slice bs = (if length bs = 32 then Ok bs else invalid_input_err ''invalid base32 address payload'')"

text \<open>\<open>BigUint::to_u128\<close>, and \<open>u128::try_from\<close> on a \<open>BigInt\<close>.\<close>

definition nat_to_u128 :: "nat \<Rightarrow> u128 option" where
  "nat_to_u128 n = (if n < 2 ^ 128 then Some (of_nat n) else None)"

definition int_to_u128 :: "int \<Rightarrow> u128 option" where
  "int_to_u128 n = (if 0 \<le> n \<and> n < 2 ^ 128 then Some (of_int n) else None)"

lemma ed25519_from_private_key_Ok:
  "ed25519_from_private_key E k = Ok kp \<longleftrightarrow>
     length k = 32 \<and> kp = \<lparr>kp_signing_key = k, public_key_bytes = verifying_key E k\<rparr>"
  by (auto simp: ed25519_from_private_key_def invalid_input_err_def)

section \<open>Prefix codes\<close>

lemma append_inj: "length k = length k' \<Longrightarrow> k @ r = k' @ s \<Longrightarrow> k = k' \<and> r = s"
  by simp

lemma be_bytes_append_inj:
  fixes v w :: "'a::len word"
  assumes "LENGTH('a) \<le> 8 * n" and "be_bytes n v @ r = be_bytes n w @ s"
  shows "v = w \<and> r = s"
proof -
  have "be_bytes n v = be_bytes n w" "r = s" using assms(2) by simp_all
  then show ?thesis using assms(1) le_bytes_inj by (auto simp: be_bytes_def)
qed

interpretation be_u16: prefix_code "be_bytes 2 :: u16 \<Rightarrow> bytes" "\<lambda>_. True"
  by unfold_locales (rule be_bytes_append_inj, simp_all)

interpretation be_u32: prefix_code "be_bytes 4 :: u32 \<Rightarrow> bytes" "\<lambda>_. True"
  by unfold_locales (rule be_bytes_append_inj, simp_all)

interpretation be_u64: prefix_code "be_bytes 8 :: u64 \<Rightarrow> bytes" "\<lambda>_. True"
  by unfold_locales (rule be_bytes_append_inj, simp_all)

interpretation le_u128: prefix_code "le_bytes 16 :: u128 \<Rightarrow> bytes" "\<lambda>_. True"
  by unfold_locales (rule le_bytes_append_inj, simp_all)

text \<open>A byte string after a prefix code of its length.\<close>

lemma prefix_code_counted:
  assumes "prefix_code enc (\<lambda>n. n < b)"
  shows "prefix_code (\<lambda>bs. enc (length bs) @ bs) (\<lambda>bs. length bs < b)"
proof
  fix x y r s :: bytes
  assume v: "length x < b" "length y < b" and e: "(enc (length x) @ x) @ r = (enc (length y) @ y) @ s"
  then have "length x = length y \<and> x @ r = y @ s"
    using prefix_code.enc_inj [OF assms, of "length x" "length y" "x @ r" "y @ s"] by simp
  then show "x = y \<and> r = s" using append_eq_append_conv by metis
qed

lemma prefix_code_fixed: "prefix_code (\<lambda>bs. bs) (\<lambda>bs. length bs = n)"
  by unfold_locales simp

text \<open>A counted list of encodings.\<close>

lemma prefix_code_list:
  assumes "prefix_code cnt (\<lambda>n. n < b)" "prefix_code enc valid"
  shows "prefix_code (\<lambda>xs. cnt (length xs) @ concat (map enc xs)) (\<lambda>xs. length xs < b \<and> list_all valid xs)"
proof
  fix xs ys r s
  assume v: "length xs < b \<and> list_all valid xs" "length ys < b \<and> list_all valid ys"
    and e: "(cnt (length xs) @ concat (map enc xs)) @ r = (cnt (length ys) @ concat (map enc ys)) @ s"
  then have "length xs = length ys \<and> concat (map enc xs) @ r = concat (map enc ys) @ s"
    using prefix_code.enc_inj [OF assms(1), of "length xs" "length ys" "concat (map enc xs) @ r" "concat (map enc ys) @ s"] by simp
  then show "xs = ys \<and> r = s" using prefix_code.seq_inj [OF assms(2)] v by blast
qed

lemma prefix_code_le_u32_length: "prefix_code (\<lambda>n. le_bytes 4 (of_nat n :: u32)) (\<lambda>n. n < 2 ^ 32)"
  by (rule prefix_code_comp [OF le_u32.prefix_code_axioms])
    (auto simp: word_unat_eq_iff unat_of_nat take_bit_nat_eq_self)

lemma prefix_code_be_u32_length: "prefix_code (\<lambda>n. be_bytes 4 (of_nat n :: u32)) (\<lambda>n. n < 2 ^ 32)"
  by (rule prefix_code_comp [OF be_u32.prefix_code_axioms])
    (auto simp: word_unat_eq_iff unat_of_nat take_bit_nat_eq_self)

text \<open>Reading a fixed number of bytes, for the readers the encoders are measured against.\<close>

definition take_n :: "nat \<Rightarrow> bytes \<Rightarrow> (bytes \<times> bytes) option" where
  "take_n n bs = (if n \<le> length bs then Some (take n bs, drop n bs) else None)"

lemma take_n_append [simp]: "take_n (length xs) (xs @ r) = Some (xs, r)" "n = length xs \<Longrightarrow> take_n n (xs @ r) = Some (xs, r)"
  by (simp_all add: take_n_def)

lemma take_n_1 [simp]: "take_n (Suc 0) (x # xs) = Some ([x], xs)"
  by (simp add: take_n_def)

section \<open>What a signer owes its requests\<close>

text \<open>
  A signer turns an accepted transaction into a message, and the message determines what the
  transaction does. Every account-based signer of the wallet is such a signer; what follows from it
  for signed digests is proved here once.
\<close>

locale binding_signer =
  fixes accepted :: "'t \<Rightarrow> bool" and message :: "'t \<Rightarrow> bytes" and content :: "'t \<Rightarrow> 'c"
  assumes message_binds: "accepted t \<Longrightarrow> accepted t' \<Longrightarrow> message t = message t' \<Longrightarrow> content t = content t'"
begin

text \<open>Signing a digest is as good where the hash function does not collide on the two messages.\<close>

lemma digest_binds:
  assumes "accepted t" "accepted t'" "inj_on digest {message t, message t'}" "digest (message t) = digest (message t')"
  shows "content t = content t'"
proof -
  have "message t = message t'" using inj_onD [OF assms(3,4)] by simp
  then show ?thesis using message_binds assms(1,2) by blast
qed

end

end
