(* ===== verification/Near.thy ===== *)
theory Near
  imports Ed25519
begin

text \<open>
  The NEAR signer of \<open>core/crates/gem_near\<close>: account ids (\<open>address.rs\<close>), transactions from the
  signer input (\<open>signer/models.rs\<close>), their Borsh bytes (\<open>signer/serialization.rs\<close>) and the signature
  over them (\<open>signer/signing.rs\<close>, \<open>signer/chain_signer.rs\<close>). The hash, the text codecs and the JSON
  printer of the two call arguments are arguments.
\<close>

section \<open>Account ids\<close>

record near_lib =
  near_hex_decode :: "string \<Rightarrow> bytes option"
  near_bs58_decode :: "string \<Rightarrow> string + bytes"
  near_sha256 :: "bytes \<Rightarrow> bytes"
  near_encode_base64 :: "bytes \<Rightarrow> string"
  near_keys :: ed_keys
  json_ft_transfer :: "string \<Rightarrow> string \<Rightarrow> string option \<Rightarrow> string + bytes"
  json_storage_deposit :: "string \<Rightarrow> bool \<Rightarrow> string + bytes"

definition near_try_parse :: "near_lib \<Rightarrow> string \<Rightarrow> bytes option" where
  "near_try_parse L address =
     (case near_hex_decode L address of None \<Rightarrow> None | Some b \<Rightarrow> if length b = 32 then Some b else None)"

definition is_implicit_address :: "near_lib \<Rightarrow> string \<Rightarrow> bool" where
  "is_implicit_address L address \<longleftrightarrow> near_try_parse L address \<noteq> None"

definition is_id_char :: "char \<Rightarrow> bool" where
  "is_id_char c \<longleftrightarrow> (CHR ''a'' \<le> c \<and> c \<le> CHR ''z'') \<or> (CHR ''0'' \<le> c \<and> c \<le> CHR ''9'')"

definition is_separator :: "char \<Rightarrow> bool" where
  "is_separator c \<longleftrightarrow> c = CHR ''-'' \<or> c = CHR ''_'' \<or> c = CHR ''.''"

text \<open>The loop over the characters; \<open>None\<close> is the early \<open>return false\<close>.\<close>

fun account_id_loop :: "bool \<Rightarrow> string \<Rightarrow> bool option" where
  "account_id_loop previous_is_separator [] = Some previous_is_separator"
| "account_id_loop previous_is_separator (c # cs) =
     (if is_id_char c then account_id_loop False cs
      else if is_separator c \<and> \<not> previous_is_separator then account_id_loop True cs
      else None)"

definition is_valid_account_id :: "string \<Rightarrow> bool" where
  "is_valid_account_id account_id =
     (if \<not> (2 \<le> length account_id \<and> length account_id \<le> 64) then False
      else case account_id_loop True account_id of
        None \<Rightarrow> False
      | Some previous_is_separator \<Rightarrow> \<not> previous_is_separator)"

definition near_is_valid_address :: "near_lib \<Rightarrow> string \<Rightarrow> bool" where
  "near_is_valid_address L address \<longleftrightarrow> is_implicit_address L address \<or> is_valid_account_id address"

section \<open>Transactions\<close>

definition FUNGIBLE_TOKEN_TRANSFER_DEPOSIT :: u128 where "FUNGIBLE_TOKEN_TRANSFER_DEPOSIT = 1"
definition FUNGIBLE_TOKEN_FUNCTION_CALL_GAS :: u64 where "FUNGIBLE_TOKEN_FUNCTION_CALL_GAS = 30000000000000"

datatype near_action =
    NearTransfer u128
  | is_FunctionCall: FunctionCall (fc_method_name: string) (fc_args: bytes) (fc_gas: u64) (fc_deposit: u128)

record near_transaction =
  signer_id :: string
  receiver_id :: string
  near_nonce :: u64
  near_block_hash :: bytes
  near_actions :: "near_action list"

definition decode_block_hash :: "near_lib \<Rightarrow> string \<Rightarrow> bytes signer_result" where
  "decode_block_hash L h =
     (case near_bs58_decode L h of
        Inl e \<Rightarrow> invalid_input_err (''invalid NEAR block hash: '' @ e)
      | Inr b \<Rightarrow> if length b = 32 then Ok b else invalid_input_err ''NEAR block hash must be 32 bytes'')"

definition new_near_transaction :: "near_lib \<Rightarrow> signer_input \<Rightarrow> string \<Rightarrow> near_action list \<Rightarrow> near_transaction signer_result" where
  "new_near_transaction L input receiver acts =
     and_then (get_block_hash (metadata input)) (\<lambda>h.
     and_then (decode_block_hash L h) (\<lambda>b.
     and_then (get_sequence (metadata input)) (\<lambda>sequence.
     Ok \<lparr>signer_id = sender_address input, receiver_id = receiver, near_nonce = sequence,
         near_block_hash = b, near_actions = acts\<rparr>)))"

definition from_transfer_input :: "near_lib \<Rightarrow> signer_input \<Rightarrow> near_transaction signer_result" where
  "from_transfer_input L input =
     and_then (ok_or (nat_to_u128 (input_value input)) (InvalidInput ''NEAR amount is too large'')) (\<lambda>deposit.
     new_near_transaction L input (destination_address input) [NearTransfer deposit])"

definition storage_deposit_actions :: "near_lib \<Rightarrow> signer_input \<Rightarrow> near_action list signer_result" where
  "storage_deposit_actions L input =
     (case fee_options (input_fee input) TokenAccountCreation of
        None \<Rightarrow> Ok []
      | Some deposit \<Rightarrow>
          and_then (ok_or (int_to_u128 deposit) (InvalidInput ''invalid NEAR token account creation deposit'')) (\<lambda>deposit.
          and_then (map_err_display (json_storage_deposit L (destination_address input) True)) (\<lambda>args.
          Ok [FunctionCall ''storage_deposit'' args FUNGIBLE_TOKEN_FUNCTION_CALL_GAS deposit])))"

definition from_token_transfer_input :: "near_lib \<Rightarrow> signer_input \<Rightarrow> near_transaction signer_result" where
  "from_token_transfer_input L input =
     and_then (get_token_id (asset_ident (get_asset (input_type input)))) (\<lambda>tok.
     and_then (storage_deposit_actions L input) (\<lambda>acts.
     and_then (map_err_display (json_ft_transfer L (destination_address input) (to_decimal (input_value input)) (get_memo input))) (\<lambda>args.
     new_near_transaction L input tok
       (acts @ [FunctionCall ''ft_transfer'' args FUNGIBLE_TOKEN_FUNCTION_CALL_GAS FUNGIBLE_TOKEN_TRANSFER_DEPOSIT]))))"

section \<open>Bytes and signature\<close>

definition FUNCTION_CALL_ACTION :: u8 where "FUNCTION_CALL_ACTION = 2"
definition TRANSFER_ACTION :: u8 where "TRANSFER_ACTION = 3"

definition near_write_bytes :: "bytes \<Rightarrow> bytes" where
  "near_write_bytes v = le_bytes 4 (of_nat (length v) :: u32) @ v"

fun encode_action :: "near_action \<Rightarrow> bytes" where
  "encode_action (NearTransfer deposit) = [TRANSFER_ACTION] @ le_bytes 16 deposit"
| "encode_action (FunctionCall method_name args gas deposit) =
     [FUNCTION_CALL_ACTION] @ near_write_bytes (as_bytes method_name) @ near_write_bytes args
       @ le_bytes 8 gas @ le_bytes 16 deposit"

definition near_encode_transaction :: "near_transaction \<Rightarrow> bytes \<Rightarrow> bytes" where
  "near_encode_transaction t public_key =
     near_write_bytes (as_bytes (signer_id t)) @ [ED25519_KEY_TYPE] @ public_key @ le_bytes 8 (near_nonce t)
       @ near_write_bytes (as_bytes (receiver_id t)) @ near_block_hash t
       @ le_bytes 4 (of_nat (length (near_actions t)) :: u32) @ concat (map encode_action (near_actions t))"

definition near_sign :: "near_lib \<Rightarrow> near_transaction \<Rightarrow> bytes \<Rightarrow> string signer_result" where
  "near_sign L t private_key =
     and_then (ed25519_from_private_key (near_keys L) private_key) (\<lambda>kp.
     let encoded = near_encode_transaction t (public_key_bytes kp);
         signature = ed25519_sign (near_keys L) kp (near_sha256 L encoded)
     in Ok (near_encode_base64 L (encoded @ [ED25519_KEY_TYPE] @ signature)))"

definition near_sign_transfer :: "near_lib \<Rightarrow> signer_input \<Rightarrow> bytes \<Rightarrow> string signer_result" where
  "near_sign_transfer L input private_key =
     and_then (from_transfer_input L input) (\<lambda>t. near_sign L t private_key)"

definition near_sign_token_transfer :: "near_lib \<Rightarrow> signer_input \<Rightarrow> bytes \<Rightarrow> string signer_result" where
  "near_sign_token_transfer L input private_key =
     and_then (from_token_transfer_input L input) (\<lambda>t. near_sign L t private_key)"

section \<open>What the bytes determine\<close>

lemma near_bytes_code: "prefix_code near_write_bytes (\<lambda>v. length v < 2 ^ 32)"
  unfolding near_write_bytes_def by (rule prefix_code_counted [OF prefix_code_le_u32_length])

interpretation near_bytes: prefix_code near_write_bytes "\<lambda>v. length v < 2 ^ 32"
  by (rule near_bytes_code)

lemma near_string_inj:
  "length a < 2 ^ 32 \<Longrightarrow> length b < 2 ^ 32 \<Longrightarrow> near_write_bytes (as_bytes a) @ r = near_write_bytes (as_bytes b) @ s \<Longrightarrow> a = b \<and> r = s"
  using near_bytes.enc_inj [of "as_bytes a" "as_bytes b" r s] by (simp add: as_bytes_inj)

fun action_wf :: "near_action \<Rightarrow> bool" where
  "action_wf (NearTransfer _) = True"
| "action_wf (FunctionCall method_name args _ _) = (length method_name < 2 ^ 32 \<and> length args < 2 ^ 32)"

lemma action_tags: "TRANSFER_ACTION \<noteq> FUNCTION_CALL_ACTION" "FUNCTION_CALL_ACTION \<noteq> TRANSFER_ACTION"
  by (simp_all add: TRANSFER_ACTION_def FUNCTION_CALL_ACTION_def)

interpretation near_action: prefix_code encode_action action_wf
proof
  fix x y r s
  assume v: "action_wf x" "action_wf y" and e: "encode_action x @ r = encode_action y @ s"
  show "x = y \<and> r = s"
  proof (cases x)
    case (NearTransfer d)
    then obtain d' where y: "y = NearTransfer d'" "le_bytes 16 d @ r = le_bytes 16 d' @ s"
      using e by (cases y) (auto simp only: encode_action.simps action_tags append.simps list.inject)
    then show ?thesis using le_u128.enc_inj [OF TrueI TrueI y(2)] NearTransfer by blast
  next
    case (FunctionCall m a g d)
    then obtain m' a' g' d' where y: "y = FunctionCall m' a' g' d'"
        "near_write_bytes (as_bytes m) @ near_write_bytes a @ le_bytes 8 g @ le_bytes 16 d @ r
          = near_write_bytes (as_bytes m') @ near_write_bytes a' @ le_bytes 8 g' @ le_bytes 16 d' @ s"
      using e by (cases y) (auto simp only: encode_action.simps action_tags append.simps append_assoc list.inject)
    have wf: "length m < 2 ^ 32" "length m' < 2 ^ 32" "length a < 2 ^ 32" "length a' < 2 ^ 32" using v FunctionCall y(1) by simp_all
    note 1 = near_string_inj [OF wf(1,2) y(2)]
    note 2 = near_bytes.enc_inj [OF wf(3,4) conjunct2 [OF 1]]
    note 3 = le_u64.enc_inj [OF TrueI TrueI conjunct2 [OF 2]]
    note 4 = le_u128.enc_inj [OF TrueI TrueI conjunct2 [OF 3]]
    show ?thesis using 1 2 3 4 FunctionCall y(1) by blast
  qed
qed

definition near_wf :: "near_transaction \<Rightarrow> bool" where
  "near_wf t \<longleftrightarrow> length (signer_id t) < 2 ^ 32 \<and> length (receiver_id t) < 2 ^ 32 \<and> length (near_block_hash t) = 32
     \<and> length (near_actions t) < 2 ^ 32 \<and> list_all action_wf (near_actions t)"

lemma near_bytes_bind:
  assumes "near_wf t" "near_wf t'" "length k = 32" "length k' = 32" "near_encode_transaction t k = near_encode_transaction t' k'"
  shows "t = t' \<and> k = k'"
proof -
  let ?acts = "\<lambda>t. le_bytes 4 (of_nat (length (near_actions t)) :: u32) @ concat (map encode_action (near_actions t))"
  let ?recv = "\<lambda>t. near_write_bytes (as_bytes (receiver_id t)) @ near_block_hash t @ ?acts t"
  have len: "length (signer_id t) < 2 ^ 32" "length (signer_id t') < 2 ^ 32" "length (receiver_id t) < 2 ^ 32" "length (receiver_id t') < 2 ^ 32"
      "length (near_block_hash t) = length (near_block_hash t')"
    using assms(1,2) by (simp_all add: near_wf_def)
  have "near_write_bytes (as_bytes (signer_id t)) @ ED25519_KEY_TYPE # k @ le_bytes 8 (near_nonce t) @ ?recv t
      = near_write_bytes (as_bytes (signer_id t')) @ ED25519_KEY_TYPE # k' @ le_bytes 8 (near_nonce t') @ ?recv t'"
    using assms(5) by (simp only: near_encode_transaction_def append.simps append_assoc)
  note 1 = near_string_inj [OF len(1,2) this]
  then have "k @ le_bytes 8 (near_nonce t) @ ?recv t = k' @ le_bytes 8 (near_nonce t') @ ?recv t'" by (simp only: list.inject)
  note 2 = append_inj [OF trans [OF assms(3) assms(4) [symmetric]] this]
  note 3 = le_u64.enc_inj [OF TrueI TrueI conjunct2 [OF 2]]
  note 4 = near_string_inj [OF len(3,4) conjunct2 [OF 3]]
  note 5 = append_inj [OF len(5) conjunct2 [OF 4]]
  have acts: "length (near_actions x) < 2 ^ 32 \<and> list_all action_wf (near_actions x)" if "near_wf x" for x
    using that by (simp add: near_wf_def)
  have "near_actions t = near_actions t'"
    using prefix_code.enc_eq_iff [OF prefix_code_list [OF prefix_code_le_u32_length near_action.prefix_code_axioms]
        acts [OF assms(1)] acts [OF assms(2)]] conjunct2 [OF 5] by blast
  then show ?thesis using 1 2 3 4 5 by simp
qed

section \<open>What a signature commits to\<close>

definition json_faithful :: "near_lib \<Rightarrow> bool" where
  "json_faithful L \<longleftrightarrow> (\<forall>d v m d' v' m' x. json_ft_transfer L d v m = Inr x \<longrightarrow> json_ft_transfer L d' v' m' = Inr x
     \<longrightarrow> d = d' \<and> v = v' \<and> m = m') \<and> (\<forall>d v m x. json_ft_transfer L d v m = Inr x \<longrightarrow> length x < 2 ^ 32)
     \<and> (\<forall>d r x. json_storage_deposit L d r = Inr x \<longrightarrow> length x < 2 ^ 32)"

fun near_request :: "near_lib \<Rightarrow> bool \<Rightarrow> signer_input \<Rightarrow> near_transaction signer_result" where
  "near_request L True input = from_token_transfer_input L input"
| "near_request L False input = from_transfer_input L input"

definition input_strings_ok :: "signer_input \<Rightarrow> bool" where
  "input_strings_ok i \<longleftrightarrow> length (sender_address i) < 2 ^ 32 \<and> length (destination_address i) < 2 ^ 32
     \<and> (\<forall>t. token_id (asset_ident (get_asset (input_type i))) = Some t \<longrightarrow> length t < 2 ^ 32)"

lemma map_err_display_Ok: "map_err_display x = Ok y \<longleftrightarrow> x = Inr y"
  by (cases x) (auto simp: from_display_def)

lemma decode_block_hash_Ok: "decode_block_hash L h = Ok b \<Longrightarrow> length b = 32"
  by (cases "near_bs58_decode L h") (auto simp: decode_block_hash_def invalid_input_err_def split: if_splits)

lemma new_near_transaction_Ok:
  assumes "new_near_transaction L i r acts = Ok t"
  shows "signer_id t = sender_address i" "receiver_id t = r" "near_actions t = acts" "length (near_block_hash t) = 32"
    "get_sequence (metadata i) = Ok (near_nonce t)"
  using assms decode_block_hash_Ok by (auto simp: new_near_transaction_def and_then_Inr_iff)

lemma transfer_request:
  assumes "from_transfer_input L i = Ok t"
  shows "\<exists>d. near_actions t = [NearTransfer d] \<and> unat d = input_value i \<and> receiver_id t = destination_address i"
proof -
  obtain d where d: "nat_to_u128 (input_value i) = Some d" "new_near_transaction L i (destination_address i) [NearTransfer d] = Ok t"
    using assms by (auto simp: from_transfer_input_def and_then_Inr_iff ok_or_Inr_iff)
  have "unat d = input_value i"
    using d(1) by (auto simp: nat_to_u128_def unat_of_nat take_bit_nat_eq_self split: if_splits)
  then show ?thesis using new_near_transaction_Ok [OF d(2)] by blast
qed

lemma token_request:
  assumes "from_token_transfer_input L i = Ok t"
  obtains acts args where "storage_deposit_actions L i = Ok acts"
    "json_ft_transfer L (destination_address i) (to_decimal (input_value i)) (get_memo i) = Inr args"
    "near_actions t = acts @ [FunctionCall ''ft_transfer'' args FUNGIBLE_TOKEN_FUNCTION_CALL_GAS FUNGIBLE_TOKEN_TRANSFER_DEPOSIT]"
    "token_id (asset_ident (get_asset (input_type i))) = Some (receiver_id t)"
proof -
  obtain tok acts args where t: "get_token_id (asset_ident (get_asset (input_type i))) = Ok tok" "storage_deposit_actions L i = Ok acts"
      "json_ft_transfer L (destination_address i) (to_decimal (input_value i)) (get_memo i) = Inr args"
      "new_near_transaction L i tok (acts @ [FunctionCall ''ft_transfer'' args FUNGIBLE_TOKEN_FUNCTION_CALL_GAS FUNGIBLE_TOKEN_TRANSFER_DEPOSIT]) = Ok t"
    using assms by (auto simp: from_token_transfer_input_def and_then_Inr_iff map_err_display_Ok)
  then show thesis using that new_near_transaction_Ok [OF t(4)] by (simp add: get_token_id_def ok_or_Inr_iff)
qed

lemma storage_deposit_wf:
  assumes "storage_deposit_actions L i = Ok acts" "json_faithful L"
  shows "list_all action_wf acts" "length acts \<le> 1"
  using assms
  by (auto simp: storage_deposit_actions_def json_faithful_def and_then_Inr_iff ok_or_Inr_iff map_err_display_Ok split: option.splits)

lemma near_request_wf:
  assumes "near_request L tok i = Ok t" "input_strings_ok i" "json_faithful L"
  shows "near_wf t" "signer_id t = sender_address i" "get_sequence (metadata i) = Ok (near_nonce t)"
proof -
  obtain r acts where r: "new_near_transaction L i r acts = Ok t"
    using assms(1) by (cases tok) (auto simp: from_transfer_input_def from_token_transfer_input_def and_then_Inr_iff)
  have "signer_id t = sender_address i" "get_sequence (metadata i) = Ok (near_nonce t)" "length (near_block_hash t) = 32"
    by (rule new_near_transaction_Ok [OF r])+
  moreover have "length (receiver_id t) < 2 ^ 32 \<and> length (near_actions t) < 2 ^ 32 \<and> list_all action_wf (near_actions t)"
  proof (cases tok)
    case True
    then have "from_token_transfer_input L i = Ok t" using assms(1) by simp
    then obtain acts args where t: "storage_deposit_actions L i = Ok acts"
        "json_ft_transfer L (destination_address i) (to_decimal (input_value i)) (get_memo i) = Inr args"
        "near_actions t = acts @ [FunctionCall ''ft_transfer'' args FUNGIBLE_TOKEN_FUNCTION_CALL_GAS FUNGIBLE_TOKEN_TRANSFER_DEPOSIT]"
        "token_id (asset_ident (get_asset (input_type i))) = Some (receiver_id t)"
      by (rule token_request)
    have "length args < 2 ^ 32" using t(2) assms(3) unfolding json_faithful_def by blast
    moreover have "length (receiver_id t) < 2 ^ 32" using t(4) assms(2) unfolding input_strings_ok_def by blast
    ultimately show ?thesis using storage_deposit_wf [OF t(1) assms(3)] t(3) by simp
  next
    case False
    then show ?thesis using transfer_request [of L i t] assms(1,2) by (auto simp: input_strings_ok_def)
  qed
  ultimately show "near_wf t" "signer_id t = sender_address i" "get_sequence (metadata i) = Ok (near_nonce t)"
    using assms(2) by (auto simp: near_wf_def input_strings_ok_def)
qed

text \<open>The decimal form of an amount determines it.\<close>

definition decimal_value :: "string \<Rightarrow> nat" where
  "decimal_value s = foldl (\<lambda>a c. a * 10 + (of_char c - 48)) 0 s"

lemma decimal_value_to_decimal: "decimal_value (to_decimal n) = n"
proof (induction n rule: to_decimal.induct)
  case (1 n)
  have "of_char (char_of (48 + n mod 10) :: char) = 48 + n mod 10" "n < 10 \<Longrightarrow> of_char (char_of (48 + n) :: char) = 48 + n"
    by simp_all
  then show ?case using 1 by (cases "n < 10") (simp_all add: to_decimal.simps [of n] decimal_value_def)
qed

text \<open>
  Two NEAR transfers, of the coin or of a token, with the same signed bytes are the same transfer:
  same sender, key, nonce, destination, amount, and for a token the same contract and memo.
\<close>

theorem near_signature_binds:
  assumes "near_request L tok i = Ok t" "near_request L tok' i' = Ok t'" "input_strings_ok i" "input_strings_ok i'" "json_faithful L"
    and "length k = 32" "length k' = 32" "near_encode_transaction t k = near_encode_transaction t' k'"
  shows "tok = tok' \<and> k = k' \<and> sender_address i = sender_address i' \<and> get_sequence (metadata i) = get_sequence (metadata i')
     \<and> destination_address i = destination_address i' \<and> input_value i = input_value i'
     \<and> (tok \<longrightarrow> token_id (asset_ident (get_asset (input_type i))) = token_id (asset_ident (get_asset (input_type i')))
              \<and> get_memo i = get_memo i')"
proof -
  note w = near_request_wf [OF assms(1,3,5)] and w' = near_request_wf [OF assms(2,4,5)]
  have tk: "t = t' \<and> k = k'" by (rule near_bytes_bind [OF w(1) w'(1) assms(6-8)])
  have kind: "is_FunctionCall (last (near_actions t)) \<longleftrightarrow> tok" if "near_request L tok i = Ok t" for tok i t
  proof (cases tok)
    case True
    then show ?thesis using token_request [of L i t] that by fastforce
  next
    case False
    then show ?thesis using transfer_request [of L i t] that by fastforce
  qed
  have same: "tok = tok'" using kind [OF assms(1)] kind [OF assms(2)] tk by simp
  have "destination_address i = destination_address i' \<and> input_value i = input_value i'
     \<and> (tok \<longrightarrow> token_id (asset_ident (get_asset (input_type i))) = token_id (asset_ident (get_asset (input_type i'))) \<and> get_memo i = get_memo i')"
  proof (cases tok)
    case False
    then show ?thesis
      using transfer_request [of L i t] transfer_request [of L i' t'] assms(1,2) same tk by auto
  next
    case True
    then have r: "from_token_transfer_input L i = Ok t" "from_token_transfer_input L i' = Ok t'" using assms(1,2) same by simp_all
    obtain acts args where
        a: "json_ft_transfer L (destination_address i) (to_decimal (input_value i)) (get_memo i) = Inr args"
        "near_actions t = acts @ [FunctionCall ''ft_transfer'' args FUNGIBLE_TOKEN_FUNCTION_CALL_GAS FUNGIBLE_TOKEN_TRANSFER_DEPOSIT]"
        "token_id (asset_ident (get_asset (input_type i))) = Some (receiver_id t)"
      by (rule token_request [OF r(1)])
    obtain acts' args' where
        a': "json_ft_transfer L (destination_address i') (to_decimal (input_value i')) (get_memo i') = Inr args'"
        "near_actions t' = acts' @ [FunctionCall ''ft_transfer'' args' FUNGIBLE_TOKEN_FUNCTION_CALL_GAS FUNGIBLE_TOKEN_TRANSFER_DEPOSIT]"
        "token_id (asset_ident (get_asset (input_type i'))) = Some (receiver_id t')"
      by (rule token_request [OF r(2)])
    have "args = args'" using a(2) a'(2) tk by simp
    then have "destination_address i = destination_address i' \<and> to_decimal (input_value i) = to_decimal (input_value i') \<and> get_memo i = get_memo i'"
      using a(1) a'(1) assms(5) unfolding json_faithful_def by blast
    then show ?thesis using a(3) a'(3) tk decimal_value_to_decimal by metis
  qed
  then show ?thesis using same tk w(2,3) w'(2,3) by simp
qed

interpretation near_signer: binding_signer "\<lambda>t. near_wf t \<and> length public_key = 32" "\<lambda>t. near_encode_transaction t public_key" "\<lambda>t. t"
  for public_key
  by unfold_locales (use near_bytes_bind in blast)

definition demo_near :: near_lib where
  "demo_near = \<lparr>near_hex_decode = (\<lambda>_. None), near_bs58_decode = (\<lambda>s. Inr (replicate 32 1)), near_sha256 = take 32,
     near_encode_base64 = from_bytes, near_keys = \<lparr>verifying_key = (\<lambda>k. k), signing_key_sign = (\<lambda>k d. take 64 (k @ d @ replicate 64 0))\<rparr>,
     json_ft_transfer = (\<lambda>d v m. if length d < 2 ^ 8 \<and> length v < 2 ^ 8 \<and> length (case m of None \<Rightarrow> [] | Some x \<Rightarrow> x) < 2 ^ 8
        then Inr (near_write_bytes (as_bytes d) @ near_write_bytes (as_bytes v) @ (case m of None \<Rightarrow> [] | Some x \<Rightarrow> 1 # as_bytes x))
        else Inl ''too long''),
     json_storage_deposit = (\<lambda>d r. if length d < 2 ^ 8 then Inr (as_bytes d) else Inl ''too long'')\<rparr>"

definition demo_near_input :: "nat \<Rightarrow> signer_input" where
  "demo_near_input v = \<lparr>input_type = TransferInput \<lparr>asset_ident = \<lparr>asset_chain = chain.Near, token_id = Some ''usdt.near''\<rparr>,
       asset_symbol = ''USDT'', asset_decimals = 6\<rparr>,
     sender_address = ''alice.near'', destination_address = ''bob.near'', input_value = v, load_gas_price = Regular 1,
     memo = Some ''hi'', is_max_value = False, metadata = NearMeta 7 ''hash'',
     input_fee = \<lparr>fee_total = 1, gas_price_type = Regular 1, fee_gas_limit = 0, fee_options = Map.empty\<rparr>\<rparr>"

lemma demo_near_faithful: "json_faithful demo_near"
proof -
  have opt: "m = m'" if "(case m of None \<Rightarrow> [] | Some x \<Rightarrow> 1 # as_bytes x) = (case m' of None \<Rightarrow> [] | Some x \<Rightarrow> (1 :: u8) # as_bytes x)" for m m'
    using that by (cases m; cases m') (simp_all add: as_bytes_inj)
  have "d = d' \<and> v = v' \<and> m = m'"
    if x: "json_ft_transfer demo_near d v m = Inr x" and y: "json_ft_transfer demo_near d' v' m' = Inr x" for d v m d' v' m' x
  proof -
    have l: "length d < 2 ^ 32" "length v < 2 ^ 32" "length d' < 2 ^ 32" "length v' < 2 ^ 32"
      using x y by (auto simp: demo_near_def split: if_splits)
    have e: "near_write_bytes (as_bytes d) @ near_write_bytes (as_bytes v) @ (case m of None \<Rightarrow> [] | Some x \<Rightarrow> 1 # as_bytes x)
        = near_write_bytes (as_bytes d') @ near_write_bytes (as_bytes v') @ (case m' of None \<Rightarrow> [] | Some x \<Rightarrow> 1 # as_bytes x)"
      using x y by (auto simp: demo_near_def split: if_splits)
    note 1 = near_string_inj [OF l(1,3) e]
    note 2 = near_string_inj [OF l(2,4) conjunct2 [OF 1]]
    show ?thesis using 1 2 opt by blast
  qed
  moreover have "length x < 2 ^ 32" if "json_ft_transfer demo_near d v m = Inr x" for d v m x
    using that by (cases m) (auto simp: demo_near_def near_write_bytes_def split: if_splits)
  moreover have "length x < 2 ^ 32" if "json_storage_deposit demo_near d r = Inr x" for d r x
    using that by (auto simp: demo_near_def split: if_splits)
  ultimately show ?thesis unfolding json_faithful_def by blast
qed

lemma demo_near_requests:
  "\<exists>t t'. near_request demo_near True (demo_near_input 9) = Ok t \<and> near_request demo_near True (demo_near_input 10) = Ok t' \<and> t \<noteq> t'"
  by (simp add: from_token_transfer_input_def new_near_transaction_def decode_block_hash_def storage_deposit_actions_def demo_near_def demo_near_input_def
      get_token_id_def get_block_hash_def get_sequence_def get_memo_def to_decimal.simps near_write_bytes_def as_bytes_def)

lemma demo_near_ok: "input_strings_ok (demo_near_input v)"
  by (simp add: input_strings_ok_def demo_near_input_def)

theorem near_signature_binds_witness:
  "json_faithful demo_near \<and> (\<exists>t t'. near_request demo_near True (demo_near_input 9) = Ok t
     \<and> near_request demo_near True (demo_near_input 10) = Ok t'
     \<and> near_encode_transaction t (replicate 32 7) \<noteq> near_encode_transaction t' (replicate 32 7))"
proof -
  obtain t t' where t: "near_request demo_near True (demo_near_input 9) = Ok t" "near_request demo_near True (demo_near_input 10) = Ok t'"
    using demo_near_requests by blast
  have "near_encode_transaction t (replicate 32 7) \<noteq> near_encode_transaction t' (replicate 32 7)"
  proof
    assume "near_encode_transaction t (replicate 32 7) = near_encode_transaction t' (replicate 32 7)"
    from near_signature_binds [OF t demo_near_ok demo_near_ok demo_near_faithful _ _ this]
    show False by (simp add: demo_near_input_def)
  qed
  then show ?thesis using t demo_near_faithful by blast
qed

end
