(* ===== verification/Stellar.thy ===== *)
theory Stellar
  imports Ed25519
begin

unbundle bit_operations_syntax

text \<open>
  The Stellar signer of \<open>core/crates/gem_stellar\<close>: addresses with their CRC-16 (\<open>address.rs\<close>),
  transactions from the signer input (\<open>models/signing\<close>), their XDR bytes (\<open>signer/serialization.rs\<close>) and
  the signed envelope (\<open>signer/signing.rs\<close>, \<open>signer/chain_signer.rs\<close>). The hash, base32, base64 and the
  curve are arguments.
\<close>

section \<open>Addresses\<close>

record stellar_lib =
  stellar_decode_base32 :: "string \<Rightarrow> bytes option"
  stellar_encode_base32 :: "bytes \<Rightarrow> string"
  stellar_sha256 :: "bytes \<Rightarrow> bytes"
  stellar_encode_base64 :: "bytes \<Rightarrow> string"
  stellar_keys :: ed_keys

definition ED25519_PUBLIC_KEY_VERSION :: u8 where "ED25519_PUBLIC_KEY_VERSION = 0x30"
definition ADDRESS_LENGTH :: nat where "ADDRESS_LENGTH = 56"
definition DECODED_LENGTH :: nat where "DECODED_LENGTH = 35"
definition CRC16_XMODEM_POLY :: u16 where "CRC16_XMODEM_POLY = 0x1021"

record stellar_address = stellar_payload :: bytes

definition crc16_step :: "u16 \<Rightarrow> u16" where
  "crc16_step crc = (if crc AND 0x8000 \<noteq> 0 then push_bit 1 crc XOR CRC16_XMODEM_POLY else push_bit 1 crc)"

definition crc16_xmodem :: "bytes \<Rightarrow> u16" where
  "crc16_xmodem d = foldl (\<lambda>crc b. (crc16_step ^^ 8) (crc XOR push_bit 8 (ucast b))) 0 d"

definition stellar_try_parse :: "stellar_lib \<Rightarrow> string \<Rightarrow> stellar_address option" where
  "stellar_try_parse L address =
     (if length address \<noteq> ADDRESS_LENGTH \<or> \<not> prefix ''G'' address then None
      else case stellar_decode_base32 L address of
        None \<Rightarrow> None
      | Some decoded \<Rightarrow>
          if length decoded \<noteq> DECODED_LENGTH \<or> decoded ! 0 \<noteq> ED25519_PUBLIC_KEY_VERSION then None
          else let crc = le_word [decoded ! 33, decoded ! 34]
               in if crc16_xmodem (take 33 decoded) \<noteq> crc then None
                  else map_option (\<lambda>p. \<lparr>stellar_payload = p\<rparr>) (ok (base32_from_slice (take 32 (drop 1 decoded)))))"

definition stellar_encode :: "stellar_lib \<Rightarrow> stellar_address \<Rightarrow> string" where
  "stellar_encode L a =
     (let raw = [ED25519_PUBLIC_KEY_VERSION] @ stellar_payload a;
          crc = le_bytes 2 (crc16_xmodem raw)
      in stellar_encode_base32 L (raw @ crc))"

definition stellar_validate_address :: "stellar_lib \<Rightarrow> string \<Rightarrow> bool" where
  "stellar_validate_address L address \<longleftrightarrow> stellar_try_parse L address \<noteq> None"

definition stellar_from_public_key :: "bytes \<Rightarrow> stellar_address signer_result" where
  "stellar_from_public_key k = and_then (base32_from_slice k) (\<lambda>p. Ok \<lparr>stellar_payload = p\<rparr>)"

section \<open>Transactions\<close>

datatype stellar_asset_code = Alphanum4 bytes | Alphanum12 bytes

record stellar_asset =
  sa_issuer :: stellar_address
  sa_code :: stellar_asset_code

definition is_alphanumeric :: "char \<Rightarrow> bool" where
  "is_alphanumeric c \<longleftrightarrow> (CHR ''a'' \<le> c \<and> c \<le> CHR ''z'') \<or> (CHR ''A'' \<le> c \<and> c \<le> CHR ''Z'') \<or> (CHR ''0'' \<le> c \<and> c \<le> CHR ''9'')"

definition pad_code :: "nat \<Rightarrow> string \<Rightarrow> bytes" where
  "pad_code n code = as_bytes code @ replicate (n - length code) 0"

definition new_stellar_asset :: "stellar_lib \<Rightarrow> string \<Rightarrow> string \<Rightarrow> stellar_asset signer_result" where
  "new_stellar_asset L issuer code =
     (if \<not> list_all is_alphanumeric code then invalid_input_err ''Stellar asset code must be ASCII alphanumeric''
      else and_then (if 1 \<le> length code \<and> length code \<le> 4 then Ok (Alphanum4 (pad_code 4 code))
                     else if 5 \<le> length code \<and> length code \<le> 12 then Ok (Alphanum12 (pad_code 12 code))
                     else invalid_input_err ''Stellar asset code must be 1-12 characters'') (\<lambda>code.
           and_then (ok_or (stellar_try_parse L issuer) (InvalidInput ''invalid Stellar issuer address'')) (\<lambda>issuer.
           Ok \<lparr>sa_issuer = issuer, sa_code = code\<rparr>)))"

definition stellar_asset_from_input :: "stellar_lib \<Rightarrow> signer_input \<Rightarrow> stellar_asset signer_result" where
  "stellar_asset_from_input L input =
     and_then (ok_or (split_sub_token_parts (asset_ident (get_asset (input_type input)))) (InvalidInput ''invalid Stellar token ID''))
       (\<lambda>(issuer, code). new_stellar_asset L issuer code)"

datatype stellar_memo = MemoNone | MemoText string | MemoId u64

datatype stellar_operation =
    CreateAccount (so_destination: stellar_address) (so_amount: u64)
  | Payment (so_destination: stellar_address) (so_asset: "stellar_asset option") (so_amount: u64)
  | ChangeTrust (so_trusted: stellar_asset)

fun operation_type :: "stellar_operation \<Rightarrow> u32" where
  "operation_type (CreateAccount _ _) = 0"
| "operation_type (Payment _ _ _) = 1"
| "operation_type (ChangeTrust _) = 6"

record stellar_transaction =
  st_account :: stellar_address
  st_fee :: u32
  st_sequence :: u64
  st_memo :: stellar_memo
  st_time_bounds :: "u64 option"
  st_operation :: stellar_operation

definition MEMO_TEXT_MAX_BYTES :: nat where "MEMO_TEXT_MAX_BYTES = 28"

definition stellar_fee_u32 :: "signer_input \<Rightarrow> u32 signer_result" where
  "stellar_fee_u32 input =
     (let fee = fee_total (input_fee input)
      in if 0 \<le> fee \<and> fee < 2 ^ 32 then Ok (of_int fee) else invalid_input_err ''invalid transaction fee'')"

definition stellar_memo_of :: "string option \<Rightarrow> stellar_memo signer_result" where
  "stellar_memo_of v =
     (case v of
        Some text \<Rightarrow> if length text > MEMO_TEXT_MAX_BYTES then invalid_input_err ''Stellar memo text must be at most 28 bytes''
                     else Ok (MemoText text)
      | None \<Rightarrow> Ok MemoNone)"

definition stellar_address_of :: "stellar_lib \<Rightarrow> string \<Rightarrow> stellar_address signer_result" where
  "stellar_address_of L s = ok_or (stellar_try_parse L s) (InvalidInput ''invalid Stellar address'')"

definition stellar_build :: "stellar_lib \<Rightarrow> signer_input \<Rightarrow> u32 \<Rightarrow> stellar_operation \<Rightarrow> stellar_transaction signer_result" where
  "stellar_build L input fee operation =
     and_then (stellar_address_of L (sender_address input)) (\<lambda>account.
     and_then (get_sequence (metadata input)) (\<lambda>sequence.
     and_then (stellar_memo_of (memo input)) (\<lambda>m.
     Ok \<lparr>st_account = account, st_fee = fee, st_sequence = sequence, st_memo = m, st_time_bounds = None,
         st_operation = operation\<rparr>)))"

definition stellar_transfer :: "stellar_lib \<Rightarrow> signer_input \<Rightarrow> stellar_transaction signer_result" where
  "stellar_transfer L input =
     and_then (value_as_u64 input) (\<lambda>amount.
     and_then (stellar_address_of L (destination_address input)) (\<lambda>destination.
     and_then (get_is_destination_address_exist (metadata input)) (\<lambda>is_destination_exist.
     and_then (stellar_fee_u32 input) (\<lambda>fee.
     stellar_build L input fee
       (if is_destination_exist then Payment destination None amount else CreateAccount destination amount)))))"

definition stellar_token_transfer :: "stellar_lib \<Rightarrow> signer_input \<Rightarrow> stellar_transaction signer_result" where
  "stellar_token_transfer L input =
     and_then (get_is_destination_address_exist (metadata input)) (\<lambda>is_destination_exist.
     if \<not> is_destination_exist then invalid_input_err ''Stellar destination account not found for token transfer''
     else
     and_then (value_as_u64 input) (\<lambda>amount.
     and_then (stellar_address_of L (destination_address input)) (\<lambda>destination.
     and_then (stellar_asset_from_input L input) (\<lambda>asset.
     and_then (stellar_fee_u32 input) (\<lambda>fee.
     stellar_build L input fee (Payment destination (Some asset) amount))))))"

definition stellar_account_action :: "stellar_lib \<Rightarrow> signer_input \<Rightarrow> stellar_transaction signer_result" where
  "stellar_account_action L input =
     and_then (stellar_asset_from_input L input) (\<lambda>asset.
     and_then (stellar_fee_u32 input) (\<lambda>fee.
     stellar_build L input fee (ChangeTrust asset)))"

section \<open>XDR\<close>

definition ASSET_TYPE_NATIVE :: u32 where "ASSET_TYPE_NATIVE = 0"
definition ASSET_TYPE_ALPHANUM4 :: u32 where "ASSET_TYPE_ALPHANUM4 = 1"
definition ASSET_TYPE_ALPHANUM12 :: u32 where "ASSET_TYPE_ALPHANUM12 = 2"

text \<open>The writers append to a buffer; all but the padding are given as the bytes they append.\<close>

definition xdr_u32 :: "u32 \<Rightarrow> bytes" where "xdr_u32 v = be_bytes 4 v"
definition xdr_u64 :: "u64 \<Rightarrow> bytes" where "xdr_u64 v = be_bytes 8 v"

definition xdr_address :: "stellar_address \<Rightarrow> bytes" where
  "xdr_address a = xdr_u32 (ucast ED25519_KEY_TYPE) @ stellar_payload a"

fun xdr_asset_code :: "stellar_asset_code \<Rightarrow> bytes" where
  "xdr_asset_code (Alphanum4 code) = xdr_u32 ASSET_TYPE_ALPHANUM4 @ code"
| "xdr_asset_code (Alphanum12 code) = xdr_u32 ASSET_TYPE_ALPHANUM12 @ code"

fun xdr_asset :: "stellar_asset option \<Rightarrow> bytes" where
  "xdr_asset (Some asset) = xdr_asset_code (sa_code asset) @ xdr_address (sa_issuer asset)"
| "xdr_asset None = xdr_u32 ASSET_TYPE_NATIVE"

definition pad4 :: "bytes \<Rightarrow> bytes" where
  "pad4 d = d @ replicate ((4 - length d mod 4) mod 4) 0"

fun encode_memo :: "bytes \<Rightarrow> stellar_memo \<Rightarrow> bytes" where
  "encode_memo d MemoNone = d @ xdr_u32 0"
| "encode_memo d (MemoText text) = pad4 (d @ xdr_u32 1 @ xdr_u32 (of_nat (length text)) @ as_bytes text)"
| "encode_memo d (MemoId n) = d @ xdr_u32 2 @ xdr_u64 n"

definition xdr_time_bounds :: "stellar_transaction \<Rightarrow> bytes" where
  "xdr_time_bounds t =
     (case st_time_bounds t of
        Some v \<Rightarrow> if v > 0 then xdr_u32 1 @ xdr_u64 0 @ xdr_u64 v else xdr_u32 0
      | None \<Rightarrow> xdr_u32 0)"

definition I64_MAX :: u64 where "I64_MAX = 2 ^ 63 - 1"

fun xdr_operation :: "stellar_operation \<Rightarrow> bytes" where
  "xdr_operation (CreateAccount destination amount) = xdr_address destination @ xdr_u64 amount"
| "xdr_operation (Payment destination asset amount) = xdr_address destination @ xdr_asset asset @ xdr_u64 amount"
| "xdr_operation (ChangeTrust asset) = xdr_asset (Some asset) @ xdr_u64 I64_MAX"

definition stellar_encode_transaction :: "stellar_transaction \<Rightarrow> bytes" where
  "stellar_encode_transaction t =
     encode_memo (xdr_address (st_account t) @ xdr_u32 (st_fee t) @ xdr_u64 (st_sequence t) @ xdr_time_bounds t) (st_memo t)
       @ xdr_u32 1 @ xdr_u32 0 @ xdr_u32 (operation_type (st_operation t)) @ xdr_operation (st_operation t) @ xdr_u32 0"

section \<open>Signing\<close>

definition NETWORK_PASSPHRASE :: string where
  "NETWORK_PASSPHRASE = ''Public Global Stellar Network ; September 2015''"
definition ENVELOPE_TYPE_TX :: bytes where "ENVELOPE_TYPE_TX = be_bytes 4 (2 :: u32)"
definition SIGNATURE_COUNT :: bytes where "SIGNATURE_COUNT = be_bytes 4 (1 :: u32)"

definition stellar_preimage :: "stellar_lib \<Rightarrow> stellar_transaction \<Rightarrow> bytes" where
  "stellar_preimage L t =
     stellar_sha256 L (as_bytes NETWORK_PASSPHRASE) @ ENVELOPE_TYPE_TX @ stellar_encode_transaction t"

definition stellar_sign_transaction :: "stellar_lib \<Rightarrow> stellar_transaction \<Rightarrow> bytes \<Rightarrow> string signer_result" where
  "stellar_sign_transaction L t private_key =
     (let encoded = stellar_encode_transaction t;
          digest = stellar_sha256 L (stellar_preimage L t)
      in and_then (ed25519_from_private_key (stellar_keys L) private_key) (\<lambda>kp.
         let signature = ed25519_sign (stellar_keys L) kp digest
         in Ok (stellar_encode_base64 L (encoded @ SIGNATURE_COUNT @ drop 28 (take 32 (public_key_bytes kp))
                  @ be_bytes 4 (of_nat (length signature) :: u32) @ signature))))"

definition stellar_sign_transfer :: "stellar_lib \<Rightarrow> signer_input \<Rightarrow> bytes \<Rightarrow> string signer_result" where
  "stellar_sign_transfer L input k = and_then (stellar_transfer L input) (\<lambda>t. stellar_sign_transaction L t k)"

definition stellar_sign_token_transfer :: "stellar_lib \<Rightarrow> signer_input \<Rightarrow> bytes \<Rightarrow> string signer_result" where
  "stellar_sign_token_transfer L input k = and_then (stellar_token_transfer L input) (\<lambda>t. stellar_sign_transaction L t k)"

definition stellar_sign_account_action :: "stellar_lib \<Rightarrow> signer_input \<Rightarrow> bytes \<Rightarrow> string signer_result" where
  "stellar_sign_account_action L input k = and_then (stellar_account_action L input) (\<lambda>t. stellar_sign_transaction L t k)"

section \<open>What the bytes determine\<close>

lemma xdr_u32_inj: "xdr_u32 v @ r = xdr_u32 w @ s \<Longrightarrow> v = w \<and> r = s"
  unfolding xdr_u32_def by (rule be_u32.enc_inj [OF TrueI TrueI])

lemma xdr_u64_inj: "xdr_u64 v @ r = xdr_u64 w @ s \<Longrightarrow> v = w \<and> r = s"
  unfolding xdr_u64_def by (rule be_u64.enc_inj [OF TrueI TrueI])

lemma length_xdr [simp]: "length (xdr_u32 v) = 4" "length (xdr_u64 w) = 8"
  by (simp_all add: xdr_u32_def xdr_u64_def)

lemma xdr_eq [simp]: "xdr_u32 v = xdr_u32 w \<longleftrightarrow> v = w" "xdr_u64 x = xdr_u64 y \<longleftrightarrow> x = y"
  using xdr_u32_inj [of v "[]" w "[]"] xdr_u64_inj [of x "[]" y "[]"] by auto

definition address_ok :: "stellar_address \<Rightarrow> bool" where
  "address_ok a \<longleftrightarrow> length (stellar_payload a) = 32"

interpretation xdr_address: prefix_code xdr_address address_ok
proof
  fix a b r s
  assume v: "address_ok a" "address_ok b" and e: "xdr_address a @ r = xdr_address b @ s"
  have "stellar_payload a @ r = stellar_payload b @ s" using e by (simp add: xdr_address_def)
  then show "a = b \<and> r = s" using append_inj [of "stellar_payload a" "stellar_payload b"] v by (simp add: address_ok_def)
qed

fun code_ok :: "stellar_asset_code \<Rightarrow> bool" where
  "code_ok (Alphanum4 c) \<longleftrightarrow> length c = 4"
| "code_ok (Alphanum12 c) \<longleftrightarrow> length c = 12"

definition asset_ok :: "stellar_asset \<Rightarrow> bool" where
  "asset_ok a \<longleftrightarrow> code_ok (sa_code a) \<and> address_ok (sa_issuer a)"

lemma asset_tags: "ASSET_TYPE_NATIVE \<noteq> ASSET_TYPE_ALPHANUM4" "ASSET_TYPE_NATIVE \<noteq> ASSET_TYPE_ALPHANUM12"
    "ASSET_TYPE_ALPHANUM4 \<noteq> ASSET_TYPE_ALPHANUM12"
  by (simp_all add: ASSET_TYPE_NATIVE_def ASSET_TYPE_ALPHANUM4_def ASSET_TYPE_ALPHANUM12_def)

interpretation xdr_asset_code: prefix_code xdr_asset_code code_ok
proof
  fix a b r s
  assume v: "code_ok a" "code_ok b" and e: "xdr_asset_code a @ r = xdr_asset_code b @ s"
  obtain t c where a: "xdr_asset_code a = xdr_u32 t @ c" "a = (if t = ASSET_TYPE_ALPHANUM4 then Alphanum4 c else Alphanum12 c)"
      "t = ASSET_TYPE_ALPHANUM4 \<or> t = ASSET_TYPE_ALPHANUM12"
    using asset_tags by (cases a) auto
  obtain t' c' where b: "xdr_asset_code b = xdr_u32 t' @ c'" "b = (if t' = ASSET_TYPE_ALPHANUM4 then Alphanum4 c' else Alphanum12 c')"
      "t' = ASSET_TYPE_ALPHANUM4 \<or> t' = ASSET_TYPE_ALPHANUM12"
    using asset_tags by (cases b) auto
  have t: "t = t' \<and> c @ r = c' @ s" using e a(1) b(1) by (intro xdr_u32_inj) simp
  moreover have "length c = length c'" using t v a(2,3) b(2) by (auto split: if_splits)
  ultimately show "a = b \<and> r = s" using append_inj [OF _ conjunct2 [OF t]] unfolding a(2) b(2) by blast
qed

interpretation xdr_asset: prefix_code xdr_asset "\<lambda>a. \<forall>x\<in>set_option a. asset_ok x"
proof
  fix a b r s
  assume v: "\<forall>x\<in>set_option a. asset_ok x" "\<forall>x\<in>set_option b. asset_ok x" and e: "xdr_asset a @ r = xdr_asset b @ s"
  have tag: "\<exists>t c. xdr_asset (Some x) @ r = xdr_u32 t @ c \<and> t \<noteq> ASSET_TYPE_NATIVE" for x r
    using asset_tags by (cases "sa_code x") fastforce+
  show "a = b \<and> r = s"
  proof (cases a)
    case None
    have "b = None"
    proof (rule ccontr)
      assume "b \<noteq> None"
      then obtain y where b: "b = Some y" by blast
      obtain t c where h: "xdr_asset (Some y) @ s = xdr_u32 t @ c" "t \<noteq> ASSET_TYPE_NATIVE" using tag by blast
      from trans [OF e [unfolded None b xdr_asset.simps(2)] h(1)] show False using xdr_u32_inj h(2) by blast
    qed
    then show ?thesis using e None by simp
  next
    case (Some x)
    obtain t c where h: "xdr_asset (Some x) @ r = xdr_u32 t @ c" "t \<noteq> ASSET_TYPE_NATIVE" using tag by blast
    have "b \<noteq> None"
    proof
      assume b: "b = None"
      from trans [OF h(1) [symmetric] e [unfolded Some b xdr_asset.simps(2)]] show False using xdr_u32_inj h(2) by blast
    qed
    then obtain y where y: "b = Some y" by blast
    have eq: "xdr_asset_code (sa_code x) @ xdr_address (sa_issuer x) @ r = xdr_asset_code (sa_code y) @ xdr_address (sa_issuer y) @ s"
      using e unfolding Some y by (simp only: xdr_asset.simps append_assoc)
    have ok: "asset_ok x" "asset_ok y" using v Some y by simp_all
    note 1 = xdr_asset_code.enc_inj [OF _ _ eq]
    then have 1: "sa_code x = sa_code y \<and> xdr_address (sa_issuer x) @ r = xdr_address (sa_issuer y) @ s"
      using ok by (simp add: asset_ok_def)
    then have "sa_issuer x = sa_issuer y \<and> r = s" using xdr_address.enc_inj ok unfolding asset_ok_def by blast
    then show ?thesis using 1 Some y by simp
  qed
qed

definition memo_bytes :: "stellar_memo \<Rightarrow> bytes" where
  "memo_bytes m = encode_memo [] m"

lemma encode_memo_aligned: "length d mod 4 = 0 \<Longrightarrow> encode_memo d m = d @ memo_bytes m"
proof (cases m)
  case (MemoText x)
  assume "length d mod 4 = 0"
  then have "(length d + n) mod 4 = n mod 4" for n by (metis add.left_neutral mod_add_left_eq)
  from this [of "8 + length x"] show ?thesis using MemoText by (simp add: memo_bytes_def pad4_def add.assoc)
qed (simp_all add: memo_bytes_def)

fun memo_ok :: "stellar_memo \<Rightarrow> bool" where
  "memo_ok (MemoText t) \<longleftrightarrow> length t < 2 ^ 32"
| "memo_ok _ \<longleftrightarrow> True"

lemma memo_text_bytes:
  "memo_bytes (MemoText t) = xdr_u32 1 @ xdr_u32 (of_nat (length t)) @ as_bytes t @ replicate ((4 - (8 + length t) mod 4) mod 4) 0"
  by (simp add: memo_bytes_def pad4_def)

lemma u32_of_nat_inj: "m < 2 ^ 32 \<Longrightarrow> n < 2 ^ 32 \<Longrightarrow> (of_nat m :: u32) = of_nat n \<Longrightarrow> m = n"
  by (simp add: word_unat_eq_iff unat_of_nat take_bit_nat_eq_self)

interpretation memo: prefix_code memo_bytes memo_ok
proof
  fix a b r s
  assume v: "memo_ok a" "memo_ok b" and e: "memo_bytes a @ r = memo_bytes b @ s"
  define tag :: "stellar_memo \<Rightarrow> u32" where "tag m = (case m of MemoNone \<Rightarrow> 0 | MemoText _ \<Rightarrow> 1 | MemoId _ \<Rightarrow> 2)" for m
  define rest where "rest m = drop 4 (memo_bytes m)" for m
  have split: "memo_bytes m = xdr_u32 (tag m) @ rest m" for m
    by (cases m) (simp_all add: rest_def tag_def memo_text_bytes, simp_all add: memo_bytes_def)
  have t: "tag a = tag b \<and> rest a @ r = rest b @ s" using e split by (intro xdr_u32_inj) simp
  show "a = b \<and> r = s"
  proof (cases a)
    case MemoNone
    then show ?thesis using t by (cases b) (simp_all add: tag_def rest_def memo_bytes_def)
  next
    case (MemoId n)
    then obtain m where "b = MemoId m" using t by (cases b) (simp_all add: tag_def)
    then show ?thesis using t MemoId by (simp add: rest_def memo_bytes_def)
  next
    case (MemoText x)
    then obtain y where y: "b = MemoText y" using t by (cases b) (simp_all add: tag_def)
    let ?pad = "\<lambda>x :: string. replicate ((4 - (8 + length x) mod 4) mod 4) (0 :: u8)"
    have "xdr_u32 (of_nat (length x)) @ as_bytes x @ ?pad x @ r = xdr_u32 (of_nat (length y)) @ as_bytes y @ ?pad y @ s"
      using t MemoText y by (simp add: rest_def memo_text_bytes)
    note 1 = xdr_u32_inj [OF this]
    then have len: "length x = length y" using u32_of_nat_inj [of "length x" "length y"] v MemoText y by simp
    have "as_bytes x = as_bytes y \<and> ?pad x @ r = ?pad y @ s" using append_inj [OF _ conjunct2 [OF 1]] len by simp
    then show ?thesis using MemoText y len by (simp add: as_bytes_inj)
  qed
qed

fun operation_ok :: "stellar_operation \<Rightarrow> bool" where
  "operation_ok (CreateAccount d _) \<longleftrightarrow> address_ok d"
| "operation_ok (Payment d a _) \<longleftrightarrow> address_ok d \<and> (\<forall>x\<in>set_option a. asset_ok x)"
| "operation_ok (ChangeTrust a) \<longleftrightarrow> asset_ok a"

lemma operation_inj:
  assumes "operation_ok a" "operation_ok b"
    and "xdr_u32 (operation_type a) @ xdr_operation a @ r = xdr_u32 (operation_type b) @ xdr_operation b @ s"
  shows "a = b \<and> r = s"
proof -
  note t = xdr_u32_inj [OF assms(3)]
  show ?thesis
  proof (cases a)
    case (CreateAccount d n)
    then obtain d' n' where b: "b = CreateAccount d' n'" using t by (cases b) simp_all
    have "xdr_address d @ xdr_u64 n @ r = xdr_address d' @ xdr_u64 n' @ s" using t CreateAccount b by simp
    note 1 = xdr_address.enc_inj [OF _ _ this]
    then have "d = d' \<and> xdr_u64 n @ r = xdr_u64 n' @ s" using assms(1,2) CreateAccount b by simp
    then show ?thesis using xdr_u64_inj CreateAccount b by blast
  next
    case (Payment d x n)
    then obtain d' x' n' where b: "b = Payment d' x' n'" using t by (cases b) simp_all
    have "xdr_address d @ xdr_asset x @ xdr_u64 n @ r = xdr_address d' @ xdr_asset x' @ xdr_u64 n' @ s" using t Payment b by simp
    note 1 = xdr_address.enc_inj [OF _ _ this]
    then have 1: "d = d'" "xdr_asset x @ xdr_u64 n @ r = xdr_asset x' @ xdr_u64 n' @ s" using assms(1,2) Payment b by simp_all
    note 2 = xdr_asset.enc_inj [OF _ _ 1(2)]
    then have "x = x' \<and> xdr_u64 n @ r = xdr_u64 n' @ s" using assms(1,2) Payment b by simp
    then show ?thesis using xdr_u64_inj 1 Payment b by blast
  next
    case (ChangeTrust x)
    then obtain x' where b: "b = ChangeTrust x'" using t by (cases b) simp_all
    have "xdr_asset (Some x) @ xdr_u64 I64_MAX @ r = xdr_asset (Some x') @ xdr_u64 I64_MAX @ s"
      using t ChangeTrust b by simp
    note 1 = xdr_asset.enc_inj [OF _ _ this]
    then have "x = x' \<and> xdr_u64 I64_MAX @ r = xdr_u64 I64_MAX @ s" using assms(1,2) ChangeTrust b by simp
    then show ?thesis using ChangeTrust b by simp
  qed
qed

definition stellar_wf :: "stellar_transaction \<Rightarrow> bool" where
  "stellar_wf t \<longleftrightarrow> address_ok (st_account t) \<and> memo_ok (st_memo t) \<and> operation_ok (st_operation t) \<and> st_time_bounds t \<noteq> Some 0"

lemma time_bounds_inj:
  assumes "st_time_bounds a \<noteq> Some 0" "st_time_bounds b \<noteq> Some 0" "xdr_time_bounds a @ r = xdr_time_bounds b @ s"
  shows "st_time_bounds a = st_time_bounds b \<and> r = s"
proof -
  have x: "xdr_time_bounds t = (case st_time_bounds t of None \<Rightarrow> xdr_u32 0 | Some v \<Rightarrow> xdr_u32 1 @ xdr_u64 0 @ xdr_u64 v)"
    if "st_time_bounds t \<noteq> Some 0" for t
    using that by (auto simp: xdr_time_bounds_def word_neq_0_conv split: option.splits)
  show ?thesis
  proof (cases "st_time_bounds a"; cases "st_time_bounds b")
    fix v w
    assume ab: "st_time_bounds a = Some v" "st_time_bounds b = Some w"
    then have "xdr_u64 0 @ xdr_u64 v @ r = xdr_u64 0 @ xdr_u64 w @ s"
      using assms(3) x [OF assms(1)] x [OF assms(2)] by simp
    then show ?thesis using ab by simp
  qed (use assms(3) x [OF assms(1)] x [OF assms(2)] in auto)
qed

lemma stellar_bytes_bind:
  assumes "stellar_wf t" "stellar_wf t'" "stellar_encode_transaction t = stellar_encode_transaction t'"
  shows "t = t'"
proof -
  let ?ops = "\<lambda>t. xdr_u32 (operation_type (st_operation t)) @ xdr_operation (st_operation t) @ xdr_u32 0"
  let ?memo = "\<lambda>t. memo_bytes (st_memo t) @ xdr_u32 1 @ xdr_u32 0 @ ?ops t"
  let ?time = "\<lambda>t. xdr_time_bounds t @ ?memo t"
  have enc: "stellar_encode_transaction t = xdr_address (st_account t) @ xdr_u32 (st_fee t) @ xdr_u64 (st_sequence t) @ ?time t"
    if "stellar_wf t" for t
  proof -
    have "length (xdr_time_bounds t) mod 4 = 0" by (simp add: xdr_time_bounds_def split: option.splits)
    then have "length (xdr_address (st_account t) @ xdr_u32 (st_fee t) @ xdr_u64 (st_sequence t) @ xdr_time_bounds t) mod 4 = 0"
      using that by (simp add: stellar_wf_def address_ok_def xdr_address_def) presburger
    then show ?thesis by (simp add: stellar_encode_transaction_def encode_memo_aligned)
  qed
  have ok: "address_ok (st_account t)" "address_ok (st_account t')" "memo_ok (st_memo t)" "memo_ok (st_memo t')"
      "operation_ok (st_operation t)" "operation_ok (st_operation t')" "st_time_bounds t \<noteq> Some 0" "st_time_bounds t' \<noteq> Some 0"
    using assms(1,2) by (simp_all add: stellar_wf_def)
  note 1 = xdr_address.enc_inj [OF ok(1,2) trans [OF enc [OF assms(1), symmetric] trans [OF assms(3) enc [OF assms(2)]]]]
  note 2 = xdr_u32_inj [OF conjunct2 [OF 1]]
  note 3 = xdr_u64_inj [OF conjunct2 [OF 2]]
  note 4 = time_bounds_inj [OF ok(7,8) conjunct2 [OF 3]]
  note 5 = memo.enc_inj [OF ok(3,4) conjunct2 [OF 4]]
  have "?ops t = ?ops t'" using conjunct2 [OF 5] xdr_u32_inj by blast
  note 6 = operation_inj [OF ok(5,6) this]
  show ?thesis using 1 2 3 4 5 6 by simp
qed

section \<open>Address checksums\<close>

lemma top_bit_test: "x AND 0x8000 \<noteq> 0 \<longleftrightarrow> bit x 15" for x :: u16
proof -
  have p: "(0x8000 :: u16) = push_bit 15 1" by simp
  have m: "bit (push_bit 15 1 :: u16) n \<longleftrightarrow> n = 15" for n
    unfolding bit_push_bit_iff bit_1_iff by auto
  have "bit (x AND 0x8000) n \<longleftrightarrow> bit x 15 \<and> n = 15" for n
    unfolding p bit_and_iff m by blast
  then show ?thesis by (metis bit_0_eq bot_apply bot_bool_def bit_eq_iff)
qed

lemma xor_left_inj: "a XOR b = a XOR c \<Longrightarrow> b = c" for a b c :: "'a::len word"
proof -
  assume "a XOR b = a XOR c"
  then have "a XOR (a XOR b) = a XOR (a XOR c)" by simp
  then show "b = c" by (simp add: xor.assoc [symmetric])
qed

lemma xor_right_inj: "b XOR a = c XOR a \<Longrightarrow> b = c" for a b c :: "'a::len word"
  using xor_left_inj [of a b c] by (simp only: xor.commute)

lemma bit_shift_1: "bit (push_bit 1 x) j \<longleftrightarrow> 0 < j \<and> j < 16 \<and> bit x (j - 1)" for x :: u16
  unfolding bit_push_bit_iff by (auto simp: bit_imp_le_length)

lemma crc16_step_inj: "crc16_step x = crc16_step y \<Longrightarrow> x = y"
proof -
  assume e: "crc16_step x = crc16_step y"
  have step: "crc16_step z = push_bit 1 z XOR (if bit z 15 then CRC16_XMODEM_POLY else 0)" for z
    unfolding crc16_step_def top_bit_test by (cases "bit z 15") (simp_all only: if_True if_False xor.right_neutral)
  have odd: "bit CRC16_XMODEM_POLY 0" unfolding CRC16_XMODEM_POLY_def by simp
  have low: "bit (crc16_step z) 0 \<longleftrightarrow> bit z 15" for z
    unfolding step bit_xor_iff bit_shift_1 using odd by simp
  have top: "bit x 15 \<longleftrightarrow> bit y 15" using low [of x] low [of y] unfolding e by blast
  have shift: "push_bit 1 x = push_bit 1 y"
    using e unfolding step top by (rule xor_right_inj)
  have "bit x j \<longleftrightarrow> bit y j" if j: "j < 16" for j
  proof (cases "j = 15")
    case False
    then show ?thesis using bit_shift_1 [of x "Suc j"] bit_shift_1 [of y "Suc j"] j unfolding shift by simp
  qed (use top in simp)
  then show "x = y" by (intro bit_word_eqI) simp
qed

lemma crc16_rounds_inj: "(crc16_step ^^ n) x = (crc16_step ^^ n) y \<Longrightarrow> x = y"
  by (induction n) (auto dest: crc16_step_inj)

definition crc16_byte :: "u16 \<Rightarrow> u8 \<Rightarrow> u16" where
  "crc16_byte crc b = (crc16_step ^^ 8) (crc XOR push_bit 8 (ucast b))"

lemma crc16_xmodem_byte: "crc16_xmodem d = foldl crc16_byte 0 d"
  by (simp add: crc16_xmodem_def crc16_byte_def [abs_def])

lemma crc16_byte_inj: "crc16_byte crc b = crc16_byte crc b' \<Longrightarrow> b = b'" "crc16_byte crc b = crc16_byte crc' b \<Longrightarrow> crc = crc'"
proof -
  assume "crc16_byte crc b = crc16_byte crc b'"
  then have "crc XOR push_bit 8 (ucast b) = crc XOR push_bit 8 (ucast b')" unfolding crc16_byte_def by (rule crc16_rounds_inj)
  then have e: "(push_bit 8 (ucast b) :: u16) = push_bit 8 (ucast b')" by (rule xor_left_inj)
  show "b = b'"
  proof (rule bit_word_eqI)
    fix j
    assume "j < LENGTH(8)"
    then show "bit b j = bit b' j"
      using arg_cong [OF e, of "\<lambda>w. bit w (8 + j)"] by (simp add: bit_push_bit_iff bit_ucast_iff)
  qed
next
  assume "crc16_byte crc b = crc16_byte crc' b"
  then have "crc XOR push_bit 8 (ucast b) = crc' XOR push_bit 8 (ucast b)" unfolding crc16_byte_def by (rule crc16_rounds_inj)
  then show "crc = crc'" by (rule xor_right_inj)
qed

lemma crc16_detects:
  assumes "crc16_xmodem (xs @ b # ys) = crc16_xmodem (xs @ b' # ys)"
  shows "b = b'"
proof -
  have "foldl crc16_byte c ys = foldl crc16_byte c' ys \<Longrightarrow> c = c'" for c c'
    by (induction ys arbitrary: c c') (auto dest: crc16_byte_inj(2))
  then have "crc16_byte (foldl crc16_byte 0 xs) b = crc16_byte (foldl crc16_byte 0 xs) b'"
    using assms unfolding crc16_xmodem_byte foldl_append foldl_Cons by blast
  then show ?thesis by (rule crc16_byte_inj(1))
qed

lemma le_u16_bytes: "le_bytes 2 (le_word [a, b] :: u16) = [a, b]"
proof -
  have "ucast (le_word [a, b] :: u16) = a"
    by (rule bit_word_eqI) (auto simp: bit_simps)
  moreover have "ucast (drop_bit 8 (le_word [a, b] :: u16)) = b"
    by (rule bit_word_eqI) (auto simp: bit_simps dest: bit_imp_le_length)
  ultimately show ?thesis by (simp add: numeral_2_eq_2 del: le_word.simps)
qed

lemma stellar_try_parse_Some:
  "stellar_try_parse L s = Some a \<longleftrightarrow> length s = ADDRESS_LENGTH \<and> prefix ''G'' s \<and> (\<exists>d. stellar_decode_base32 L s = Some d
     \<and> length d = DECODED_LENGTH \<and> d ! 0 = ED25519_PUBLIC_KEY_VERSION \<and> crc16_xmodem (take 33 d) = le_word [d ! 33, d ! 34]
     \<and> a = \<lparr>stellar_payload = take 32 (drop 1 d)\<rparr>)"
  by (auto simp: stellar_try_parse_def base32_from_slice_def DECODED_LENGTH_def Let_def split: option.splits if_splits)

text \<open>
  The checksum finds every error in one byte: of two address texts whose decoded bytes differ in
  exactly one place, at most one is accepted.
\<close>

theorem stellar_checksum_detects:
  assumes "stellar_try_parse L s = Some a" "stellar_decode_base32 L s = Some d" "stellar_decode_base32 L s' = Some (d[i := b])"
    and "i < length d" "b \<noteq> d ! i"
  shows "stellar_try_parse L s' = None"
proof (rule ccontr)
  assume "stellar_try_parse L s' \<noteq> None"
  then obtain a' where "stellar_try_parse L s' = Some a'" by blast
  then have d: "length d = 35" "crc16_xmodem (take 33 d) = le_word [d ! 33, d ! 34]"
      "crc16_xmodem (take 33 (d[i := b])) = le_word [d[i := b] ! 33, d[i := b] ! 34]"
    using assms(1-3) by (auto simp: stellar_try_parse_Some DECODED_LENGTH_def)
  show False
  proof (cases "i < 33")
    case True
    define xs ys where "xs = take i d" and "ys = drop (Suc i) (take 33 d)"
    have l: "i < length (take 33 d)" using True d(1) by simp
    have "take 33 d = xs @ d ! i # ys" "take 33 (d[i := b]) = xs @ b # ys"
      using id_take_nth_drop [OF l] upd_conv_take_nth_drop [OF l, of b] True
      by (simp_all add: xs_def ys_def take_update_swap min_def)
    moreover have "d[i := b] ! 33 = d ! 33" "d[i := b] ! 34 = d ! 34" using True by simp_all
    ultimately have "crc16_xmodem (xs @ d ! i # ys) = crc16_xmodem (xs @ b # ys)" using d(2,3) by simp
    then show False using crc16_detects assms(5) by blast
  next
    case False
    then have "take 33 (d[i := b]) = take 33 d" by simp
    then have "(le_word [d ! 33, d ! 34] :: u16) = le_word [d[i := b] ! 33, d[i := b] ! 34]" using d(2,3) by simp
    then have "[d ! 33, d ! 34] = [d[i := b] ! 33, d[i := b] ! 34]" by (metis le_u16_bytes)
    moreover have "i = 33 \<or> i = 34" using False assms(4) d(1) by auto
    ultimately show False using assms(5) d(1) by auto
  qed
qed

text \<open>A stand-in for base32 that knows two texts, the second one with an error in byte 7.\<close>

definition demo_decoded :: bytes where
  "demo_decoded = 0x30 # replicate 32 1 @ le_bytes 2 (crc16_xmodem (0x30 # replicate 32 1))"

definition demo_stellar :: stellar_lib where
  "demo_stellar = \<lparr>stellar_decode_base32 = (\<lambda>s. Some (if prefix ''GA'' s then demo_decoded else demo_decoded[7 := 9])),
     stellar_encode_base32 = from_bytes, stellar_sha256 = take 32, stellar_encode_base64 = from_bytes,
     stellar_keys = \<lparr>verifying_key = (\<lambda>k. k), signing_key_sign = (\<lambda>k d. take 64 (k @ d @ replicate 64 0))\<rparr>\<rparr>"

definition demo_stellar_text :: string where
  "demo_stellar_text = CHR ''G'' # CHR ''A'' # replicate 54 CHR ''A''"

lemma demo_stellar_parse: "stellar_try_parse demo_stellar demo_stellar_text = Some \<lparr>stellar_payload = replicate 32 1\<rparr>"
proof -
  define c where "c = crc16_xmodem (0x30 # replicate 32 1)"
  have d: "demo_decoded = (0x30 # replicate 32 1) @ le_bytes 2 c" by (simp add: demo_decoded_def c_def)
  have two: "le_bytes 2 c = [ucast c, ucast (drop_bit 8 c)]" by (simp add: numeral_2_eq_2)
  have "le_word (le_bytes 2 c) = c" by (rule le_word_le_bytes_id) simp
  then have w: "le_word [demo_decoded ! 33, demo_decoded ! 34] = c"
    unfolding d two by (simp add: nth_append del: le_word.simps)
  have t: "take 33 demo_decoded = 0x30 # replicate 32 1" "take 32 (drop 1 demo_decoded) = replicate 32 1"
    unfolding d by simp_all
  show ?thesis
    using w t by (simp add: stellar_try_parse_Some demo_stellar_def demo_stellar_text_def ADDRESS_LENGTH_def DECODED_LENGTH_def
        ED25519_PUBLIC_KEY_VERSION_def c_def [symmetric] d [symmetric])
      (simp add: d)
qed

theorem stellar_checksum_detects_witness:
  "stellar_try_parse demo_stellar demo_stellar_text \<noteq> None
   \<and> stellar_decode_base32 demo_stellar ''GB'' = Some (demo_decoded[7 := 9]) \<and> demo_decoded[7 := 9] \<noteq> demo_decoded
   \<and> stellar_try_parse demo_stellar ''GB'' = None"
proof -
  have l: "7 < length demo_decoded" "(9 :: u8) \<noteq> demo_decoded ! 7" by (simp_all add: demo_decoded_def nth_append)
  have "demo_decoded[7 := 9] \<noteq> demo_decoded" using l by (metis nth_list_update_eq)
  moreover have "stellar_try_parse demo_stellar ''GB'' = None"
    by (rule stellar_checksum_detects [OF demo_stellar_parse _ _ l]) (simp_all add: demo_stellar_def demo_stellar_text_def)
  ultimately show ?thesis using demo_stellar_parse by (simp add: demo_stellar_def)
qed

section \<open>What a signature commits to\<close>

datatype stellar_kind = TransferKind | TokenKind | AccountKind

fun stellar_request :: "stellar_lib \<Rightarrow> stellar_kind \<Rightarrow> signer_input \<Rightarrow> stellar_transaction signer_result" where
  "stellar_request L TransferKind i = stellar_transfer L i"
| "stellar_request L TokenKind i = stellar_token_transfer L i"
| "stellar_request L AccountKind i = stellar_account_action L i"

lemma address_of_ok: "stellar_address_of L s = Ok a \<Longrightarrow> address_ok a \<and> stellar_try_parse L s = Some a"
  by (auto simp: stellar_address_of_def ok_or_Inr_iff stellar_try_parse_Some address_ok_def DECODED_LENGTH_def)

lemma asset_from_input_ok: "stellar_asset_from_input L i = Ok a \<Longrightarrow> asset_ok a"
proof -
  assume "stellar_asset_from_input L i = Ok a"
  then obtain issuer code where "new_stellar_asset L issuer code = Ok a"
    by (auto simp: stellar_asset_from_input_def and_then_Inr_iff)
  then show ?thesis
    using address_of_ok [of L issuer]
    by (auto simp: new_stellar_asset_def and_then_Inr_iff ok_or_Inr_iff asset_ok_def pad_code_def stellar_address_of_def
        invalid_input_err_def split: if_splits)
qed

lemma stellar_build_Ok:
  assumes "stellar_build L i fee op = Ok t"
  shows "stellar_try_parse L (sender_address i) = Some (st_account t) \<and> get_sequence (metadata i) = Ok (st_sequence t)
     \<and> st_fee t = fee \<and> stellar_memo_of (memo i) = Ok (st_memo t) \<and> st_operation t = op \<and> (operation_ok op \<longrightarrow> stellar_wf t)"
proof -
  have "memo_ok m" if "stellar_memo_of v = Ok m" for v m
    using that by (auto simp: stellar_memo_of_def invalid_input_err_def MEMO_TEXT_MAX_BYTES_def split: option.splits if_splits)
  then show ?thesis
    using assms address_of_ok by (auto simp: stellar_build_def and_then_Inr_iff stellar_wf_def)
qed

lemma stellar_fee_inj: "stellar_fee_u32 i = Ok f \<Longrightarrow> stellar_fee_u32 i' = Ok f \<Longrightarrow> fee_total (input_fee i) = fee_total (input_fee i')"
proof -
  have "fee_total (input_fee i) = uint f" if "stellar_fee_u32 i = Ok f" for i
    using that by (auto simp: stellar_fee_u32_def Let_def invalid_input_err_def unsigned_of_int take_bit_int_eq_self split: if_splits)
  then show "stellar_fee_u32 i = Ok f \<Longrightarrow> stellar_fee_u32 i' = Ok f \<Longrightarrow> fee_total (input_fee i) = fee_total (input_fee i')" by simp
qed

lemma stellar_memo_inj: "stellar_memo_of v = Ok m \<Longrightarrow> stellar_memo_of v' = Ok m \<Longrightarrow> v = v'"
  by (auto simp: stellar_memo_of_def invalid_input_err_def split: option.splits if_splits)

lemma value_as_u64_inj: "value_as_u64 i = Ok v \<Longrightarrow> value_as_u64 i' = Ok v \<Longrightarrow> input_value i = input_value i'"
  using unat_nat_to_u64 by (auto simp: value_as_u64_def ok_or_Inr_iff) metis

text \<open>The parts of the input that a transaction of each kind carries.\<close>

lemma stellar_request_Ok:
  assumes "stellar_request L k i = Ok t"
  obtains op where "stellar_build L i (st_fee t) op = Ok t" "stellar_fee_u32 i = Ok (st_fee t)" "operation_ok op"
    "case k of
       TransferKind \<Rightarrow> \<exists>d v. (op = Payment d None v \<or> op = CreateAccount d v) \<and> stellar_try_parse L (destination_address i) = Some d \<and> value_as_u64 i = Ok v
     | TokenKind \<Rightarrow> \<exists>d a v. op = Payment d (Some a) v \<and> stellar_try_parse L (destination_address i) = Some d \<and> value_as_u64 i = Ok v
         \<and> stellar_asset_from_input L i = Ok a
     | AccountKind \<Rightarrow> \<exists>a. op = ChangeTrust a \<and> stellar_asset_from_input L i = Ok a"
proof (cases k)
  case TransferKind
  then obtain v d b f where t: "value_as_u64 i = Ok v" "stellar_address_of L (destination_address i) = Ok d" "stellar_fee_u32 i = Ok f"
      "stellar_build L i f (if b then Payment d None v else CreateAccount d v) = Ok t"
    using assms by (auto simp: stellar_transfer_def and_then_Inr_iff)
  moreover have "st_fee t = f" using stellar_build_Ok [OF t(4)] by blast
  ultimately show thesis using that [OF _ _ _] address_of_ok [OF t(2)] TransferKind by (cases b) auto
next
  case TokenKind
  then obtain v d a f where t: "value_as_u64 i = Ok v" "stellar_address_of L (destination_address i) = Ok d" "stellar_fee_u32 i = Ok f"
      "stellar_asset_from_input L i = Ok a" "stellar_build L i f (Payment d (Some a) v) = Ok t"
    using assms by (auto simp: stellar_token_transfer_def and_then_Inr_iff invalid_input_err_def split: if_splits)
  moreover have "st_fee t = f" using stellar_build_Ok [OF t(5)] by blast
  ultimately show thesis using that address_of_ok [OF t(2)] asset_from_input_ok [OF t(4)] TokenKind by auto
next
  case AccountKind
  then obtain a f where t: "stellar_fee_u32 i = Ok f" "stellar_asset_from_input L i = Ok a" "stellar_build L i f (ChangeTrust a) = Ok t"
    using assms by (auto simp: stellar_account_action_def and_then_Inr_iff)
  moreover have "st_fee t = f" using stellar_build_Ok [OF t(3)] by blast
  ultimately show thesis using that asset_from_input_ok [OF t(2)] AccountKind by auto
qed

text \<open>
  Two Stellar requests with the same signed preimage are the same request: same kind, account,
  sequence number, fee and memo, the same destination and amount of a payment, and the same asset.
\<close>

theorem stellar_signature_binds:
  assumes "stellar_request L k i = Ok t" "stellar_request L k' i' = Ok t'" "stellar_preimage L t = stellar_preimage L t'"
  shows "t = t' \<and> k = k' \<and> stellar_try_parse L (sender_address i) = stellar_try_parse L (sender_address i')
     \<and> get_sequence (metadata i) = get_sequence (metadata i') \<and> fee_total (input_fee i) = fee_total (input_fee i') \<and> memo i = memo i'
     \<and> (k \<noteq> AccountKind \<longrightarrow> stellar_try_parse L (destination_address i) = stellar_try_parse L (destination_address i')
          \<and> input_value i = input_value i')
     \<and> (k \<noteq> TransferKind \<longrightarrow> stellar_asset_from_input L i = stellar_asset_from_input L i')"
proof -
  obtain op where o: "stellar_build L i (st_fee t) op = Ok t" "stellar_fee_u32 i = Ok (st_fee t)" "operation_ok op"
    "case k of
       TransferKind \<Rightarrow> \<exists>d v. (op = Payment d None v \<or> op = CreateAccount d v) \<and> stellar_try_parse L (destination_address i) = Some d \<and> value_as_u64 i = Ok v
     | TokenKind \<Rightarrow> \<exists>d a v. op = Payment d (Some a) v \<and> stellar_try_parse L (destination_address i) = Some d \<and> value_as_u64 i = Ok v
         \<and> stellar_asset_from_input L i = Ok a
     | AccountKind \<Rightarrow> \<exists>a. op = ChangeTrust a \<and> stellar_asset_from_input L i = Ok a"
    by (rule stellar_request_Ok [OF assms(1)])
  obtain op' where o': "stellar_build L i' (st_fee t') op' = Ok t'" "stellar_fee_u32 i' = Ok (st_fee t')" "operation_ok op'"
    "case k' of
       TransferKind \<Rightarrow> \<exists>d v. (op' = Payment d None v \<or> op' = CreateAccount d v) \<and> stellar_try_parse L (destination_address i') = Some d \<and> value_as_u64 i' = Ok v
     | TokenKind \<Rightarrow> \<exists>d a v. op' = Payment d (Some a) v \<and> stellar_try_parse L (destination_address i') = Some d \<and> value_as_u64 i' = Ok v
         \<and> stellar_asset_from_input L i' = Ok a
     | AccountKind \<Rightarrow> \<exists>a. op' = ChangeTrust a \<and> stellar_asset_from_input L i' = Ok a"
    by (rule stellar_request_Ok [OF assms(2)])
  note b = stellar_build_Ok [OF o(1)] and b' = stellar_build_Ok [OF o'(1)]
  have t: "t = t'"
    by (rule stellar_bytes_bind) (use b b' o(3) o'(3) assms(3) in \<open>simp_all add: stellar_preimage_def\<close>)
  then have ops: "op = op'" using b b' by simp
  have kinds: "k = k' \<and> (k \<noteq> AccountKind \<longrightarrow> stellar_try_parse L (destination_address i) = stellar_try_parse L (destination_address i')
          \<and> (\<exists>v. value_as_u64 i = Ok v \<and> value_as_u64 i' = Ok v))
     \<and> (k \<noteq> TransferKind \<longrightarrow> stellar_asset_from_input L i = stellar_asset_from_input L i')"
    using o(4) o'(4) unfolding ops by (cases k; cases k') auto
  then have vals: "k \<noteq> AccountKind \<longrightarrow> input_value i = input_value i'" using value_as_u64_inj by blast
  have "fee_total (input_fee i) = fee_total (input_fee i')" using stellar_fee_inj o(2) o'(2) t by blast
  moreover have "memo i = memo i'" using stellar_memo_inj b b' t by blast
  ultimately show ?thesis using t kinds vals b b' by simp
qed

interpretation stellar_signer: binding_signer stellar_wf "stellar_preimage L" "\<lambda>t. t" for L
  by unfold_locales (simp add: stellar_preimage_def stellar_bytes_bind)

lemma stellar_request_wf: "stellar_request L k i = Ok t \<Longrightarrow> stellar_wf t"
  using stellar_request_Ok stellar_build_Ok by metis

definition demo_stellar_input :: "nat \<Rightarrow> signer_input" where
  "demo_stellar_input v = \<lparr>input_type = TransferInput \<lparr>asset_ident = \<lparr>asset_chain = chain.Stellar, token_id = None\<rparr>,
       asset_symbol = ''XLM'', asset_decimals = 7\<rparr>,
     sender_address = demo_stellar_text, destination_address = demo_stellar_text, input_value = v, load_gas_price = Regular 1,
     memo = Some ''hi'', is_max_value = False, metadata = StellarMeta 7 True,
     input_fee = \<lparr>fee_total = 100, gas_price_type = Regular 1, fee_gas_limit = 0, fee_options = Map.empty\<rparr>\<rparr>"

lemma demo_stellar_requested:
  "\<exists>t t'. stellar_request demo_stellar TransferKind (demo_stellar_input 9) = Ok t
     \<and> stellar_request demo_stellar TransferKind (demo_stellar_input 10) = Ok t' \<and> t \<noteq> t'"
  by (simp add: stellar_transfer_def stellar_build_def stellar_address_of_def demo_stellar_parse demo_stellar_input_def
      value_as_u64_def nat_to_u64_def get_is_destination_address_exist_def get_sequence_def stellar_fee_u32_def stellar_memo_of_def MEMO_TEXT_MAX_BYTES_def)

theorem stellar_signature_binds_witness:
  "\<exists>t t'. stellar_request demo_stellar TransferKind (demo_stellar_input 9) = Ok t
     \<and> stellar_request demo_stellar TransferKind (demo_stellar_input 10) = Ok t'
     \<and> stellar_preimage demo_stellar t \<noteq> stellar_preimage demo_stellar t'"
proof -
  obtain t t' where t: "stellar_request demo_stellar TransferKind (demo_stellar_input 9) = Ok t"
      "stellar_request demo_stellar TransferKind (demo_stellar_input 10) = Ok t'"
    using demo_stellar_requested by blast
  have "stellar_preimage demo_stellar t \<noteq> stellar_preimage demo_stellar t'"
  proof
    assume "stellar_preimage demo_stellar t = stellar_preimage demo_stellar t'"
    from stellar_signature_binds [OF t this] show False by (simp add: demo_stellar_input_def)
  qed
  then show ?thesis using t by blast
qed

end
