(* ===== verification/Algorand.thy ===== *)
theory Algorand
  imports Ed25519
begin

unbundle bit_operations_syntax

text \<open>
  The Algorand signer of \<open>core/crates/gem_algorand\<close>: addresses (\<open>address.rs\<close>), transactions from the
  signer input (\<open>models/signing\<close>), their MessagePack bytes (\<open>signer/serialization.rs\<close>) and the signature
  (\<open>signer/signing.rs\<close>, \<open>signer/chain_signer.rs\<close>). The hash, the text codecs and the curve are arguments.

  The encoder is measured against a strict MessagePack reader, which accepts only the shortest forms: it reads
  the bytes back as the map of the fields of the transaction, with the keys in strictly ascending order.
\<close>

section \<open>Addresses\<close>

record algorand_lib =
  algo_decode_base32 :: "string \<Rightarrow> bytes option"
  algo_encode_base32 :: "bytes \<Rightarrow> string"
  algo_decode_base64 :: "string \<Rightarrow> bytes option"
  sha512_256 :: "bytes \<Rightarrow> bytes"
  algo_hex_encode :: "bytes \<Rightarrow> string"
  algo_keys :: ed_keys
  algo_secp :: secp_keys

definition ADDRESS_DATA_LENGTH :: nat where "ADDRESS_DATA_LENGTH = 32"
definition ADDRESS_CHECKSUM_LENGTH :: nat where "ADDRESS_CHECKSUM_LENGTH = 4"

record algorand_address = algo_payload :: bytes

definition algo_checksum :: "algorand_lib \<Rightarrow> bytes \<Rightarrow> bytes" where
  "algo_checksum L bs = (let digest = sha512_256 L bs in drop (length digest - ADDRESS_CHECKSUM_LENGTH) digest)"

definition algo_try_parse :: "algorand_lib \<Rightarrow> string \<Rightarrow> algorand_address option" where
  "algo_try_parse L address =
     (case algo_decode_base32 L address of
        None \<Rightarrow> None
      | Some decoded \<Rightarrow>
          if length decoded \<noteq> ADDRESS_DATA_LENGTH + ADDRESS_CHECKSUM_LENGTH then None
          else (case ok (base32_from_slice (take ADDRESS_DATA_LENGTH decoded)) of
                  None \<Rightarrow> None
                | Some base32 \<Rightarrow>
                    if drop ADDRESS_DATA_LENGTH decoded = algo_checksum L base32 then Some \<lparr>algo_payload = base32\<rparr> else None))"

definition algo_encode :: "algorand_lib \<Rightarrow> algorand_address \<Rightarrow> string" where
  "algo_encode L a = algo_encode_base32 L (algo_payload a @ algo_checksum L (algo_payload a))"

definition algo_validate_address :: "algorand_lib \<Rightarrow> string \<Rightarrow> bool" where
  "algo_validate_address L address \<longleftrightarrow> algo_try_parse L address \<noteq> None"

definition algo_from_public_key :: "bytes \<Rightarrow> algorand_address signer_result" where
  "algo_from_public_key k = and_then (base32_from_slice k) (\<lambda>p. Ok \<lparr>algo_payload = p\<rparr>)"

section \<open>Transactions\<close>

definition TX_TYPE_PAYMENT :: string where "TX_TYPE_PAYMENT = ''pay''"
definition TX_TYPE_ASSET_TRANSFER :: string where "TX_TYPE_ASSET_TRANSFER = ''axfer''"
definition PAYMENT_FIELDS :: u8 where "PAYMENT_FIELDS = 9"
definition PAYMENT_ZERO_AMOUNT_FIELDS :: u8 where "PAYMENT_ZERO_AMOUNT_FIELDS = 8"
definition ASSET_TRANSFER_FIELDS :: u8 where "ASSET_TRANSFER_FIELDS = 10"
definition ASSET_OPT_IN_FIELDS :: u8 where "ASSET_OPT_IN_FIELDS = 9"

datatype algo_operation =
    AlgoPayment (ao_destination: algorand_address) (ao_amount: u64)
  | AssetTransfer (ao_destination: algorand_address) (ao_amount: u64) (ao_asset_id: u64)
  | AssetOptIn (ao_asset_id: u64)

fun tx_type :: "algo_operation \<Rightarrow> string" where
  "tx_type (AlgoPayment _ _) = TX_TYPE_PAYMENT"
| "tx_type (AssetTransfer _ _ _) = TX_TYPE_ASSET_TRANSFER"
| "tx_type (AssetOptIn _) = TX_TYPE_ASSET_TRANSFER"

fun operation_size :: "algo_operation \<Rightarrow> u8" where
  "operation_size (AlgoPayment _ amount) = (if amount = 0 then PAYMENT_ZERO_AMOUNT_FIELDS else PAYMENT_FIELDS)"
| "operation_size (AssetTransfer _ _ _) = ASSET_TRANSFER_FIELDS"
| "operation_size (AssetOptIn _) = ASSET_OPT_IN_FIELDS"

fun payment_amount :: "algo_operation \<Rightarrow> u64 option" where
  "payment_amount (AlgoPayment _ amount) = (if amount > 0 then Some amount else None)"
| "payment_amount _ = None"

record algo_transaction =
  at_sender :: algorand_address
  at_fee :: u64
  at_first_round :: u64
  at_last_round :: u64
  at_genesis_id :: string
  at_genesis_hash :: bytes
  at_note :: bytes
  at_operation :: algo_operation

definition TRANSACTION_VALIDITY_ROUNDS :: u64 where "TRANSACTION_VALIDITY_ROUNDS = 1000"

definition algo_address_of :: "algorand_lib \<Rightarrow> string \<Rightarrow> algorand_address signer_result" where
  "algo_address_of L s = ok_or (algo_try_parse L s) (InvalidInput ''invalid Algorand address'')"

definition get_asset_id :: "signer_input \<Rightarrow> u64 signer_result" where
  "get_asset_id input =
     and_then (get_token_id (asset_ident (get_asset (input_type input)))) (\<lambda>t. invalid_input (parse_u64 t) ''invalid Algorand asset id'')"

definition algo_from_input :: "algorand_lib \<Rightarrow> signer_input \<Rightarrow> algo_operation \<Rightarrow> algo_transaction signer_result" where
  "algo_from_input L input operation =
     and_then (ok_or (int_to_u64 (fee_total (input_fee input))) (InvalidInput ''invalid transaction fee'')) (\<lambda>fee.
     and_then (get_sequence (metadata input)) (\<lambda>first_round.
     and_then (algo_address_of L (sender_address input)) (\<lambda>sender.
     and_then (get_chain_id (metadata input)) (\<lambda>genesis_id.
     and_then (get_block_hash (metadata input)) (\<lambda>h.
     and_then (ok_or (algo_decode_base64 L h) (InvalidInput ''invalid Algorand genesis hash'')) (\<lambda>genesis_hash.
     Ok \<lparr>at_sender = sender, at_fee = fee, at_first_round = first_round,
         at_last_round = first_round + TRANSACTION_VALIDITY_ROUNDS, at_genesis_id = genesis_id, at_genesis_hash = genesis_hash,
         at_note = as_bytes (case memo input of None \<Rightarrow> [] | Some m \<Rightarrow> m), at_operation = operation\<rparr>))))))"

definition algo_transfer :: "algorand_lib \<Rightarrow> signer_input \<Rightarrow> algo_transaction signer_result" where
  "algo_transfer L input =
     and_then (algo_address_of L (destination_address input)) (\<lambda>destination.
     and_then (value_as_u64 input) (\<lambda>amount.
     algo_from_input L input (AlgoPayment destination amount)))"

definition algo_token_transfer :: "algorand_lib \<Rightarrow> signer_input \<Rightarrow> algo_transaction signer_result" where
  "algo_token_transfer L input =
     and_then (algo_address_of L (destination_address input)) (\<lambda>destination.
     and_then (value_as_u64 input) (\<lambda>amount.
     and_then (get_asset_id input) (\<lambda>asset_id.
     algo_from_input L input (AssetTransfer destination amount asset_id))))"

definition algo_account_action :: "algorand_lib \<Rightarrow> signer_input \<Rightarrow> algo_transaction signer_result" where
  "algo_account_action L input =
     and_then (get_asset_id input) (\<lambda>asset_id. algo_from_input L input (AssetOptIn asset_id))"

section \<open>MessagePack\<close>

definition SIGNED_TX_FIELDS :: u8 where "SIGNED_TX_FIELDS = 2"
definition FIXMAP_PREFIX :: u8 where "FIXMAP_PREFIX = 0x80"
definition FIXSTR_PREFIX :: u8 where "FIXSTR_PREFIX = 0xa0"
definition FIXSTR_MAX_LEN :: nat where "FIXSTR_MAX_LEN = 0x20"
definition STR8_PREFIX :: u8 where "STR8_PREFIX = 0xd9"
definition UINT8_PREFIX :: u8 where "UINT8_PREFIX = 0xcc"
definition UINT16_PREFIX :: u8 where "UINT16_PREFIX = 0xcd"
definition UINT32_PREFIX :: u8 where "UINT32_PREFIX = 0xce"
definition UINT64_PREFIX :: u8 where "UINT64_PREFIX = 0xcf"
definition BIN8_PREFIX :: u8 where "BIN8_PREFIX = 0xc4"
definition BIN16_PREFIX :: u8 where "BIN16_PREFIX = 0xc5"

text \<open>The writers append to a buffer; each is given as the bytes it appends.\<close>

definition encode_string :: "string \<Rightarrow> bytes" where
  "encode_string v =
     (let len = length v
      in (if len < FIXSTR_MAX_LEN then [FIXSTR_PREFIX OR of_nat len] else [STR8_PREFIX, of_nat len]) @ as_bytes v)"

definition encode_uint :: "u64 \<Rightarrow> bytes" where
  "encode_uint v =
     (if v < 0x80 then [ucast v]
      else if v < 0x100 then [UINT8_PREFIX, ucast v]
      else if v < 0x10000 then UINT16_PREFIX # be_bytes 2 (ucast v :: u16)
      else if v < 0x100000000 then UINT32_PREFIX # be_bytes 4 (ucast v :: u32)
      else UINT64_PREFIX # be_bytes 8 v)"

definition encode_bytes :: "bytes \<Rightarrow> bytes" where
  "encode_bytes bs =
     (let len = length bs
      in (if len < 0x100 then [BIN8_PREFIX, of_nat len] else BIN16_PREFIX # be_bytes 2 (of_nat len :: u16)) @ bs)"

definition algo_encode_address :: "algorand_address \<Rightarrow> bytes" where
  "algo_encode_address a = encode_bytes (algo_payload a)"

definition encode_common_fields :: "algo_transaction \<Rightarrow> bytes" where
  "encode_common_fields t =
     encode_string ''fee'' @ encode_uint (at_fee t)
     @ encode_string ''fv'' @ encode_uint (at_first_round t)
     @ encode_string ''gen'' @ encode_string (at_genesis_id t)
     @ encode_string ''gh'' @ encode_bytes (at_genesis_hash t)
     @ encode_string ''lv'' @ encode_uint (at_last_round t)
     @ (if at_note t \<noteq> [] then encode_string ''note'' @ encode_bytes (at_note t) else [])"

definition encode_sender_and_type :: "algo_transaction \<Rightarrow> bytes" where
  "encode_sender_and_type t =
     encode_string ''snd'' @ algo_encode_address (at_sender t)
     @ encode_string ''type'' @ encode_string (tx_type (at_operation t))"

definition encode_payment :: "algo_transaction \<Rightarrow> algorand_address \<Rightarrow> bytes" where
  "encode_payment t destination =
     encode_common_fields t @ encode_string ''rcv'' @ algo_encode_address destination @ encode_sender_and_type t"

definition encode_asset_transfer :: "algo_transaction \<Rightarrow> algorand_address \<Rightarrow> u64 \<Rightarrow> u64 \<Rightarrow> bytes" where
  "encode_asset_transfer t destination amount asset_id =
     encode_string ''aamt'' @ encode_uint amount @ encode_string ''arcv'' @ algo_encode_address destination
     @ encode_common_fields t @ encode_sender_and_type t @ encode_string ''xaid'' @ encode_uint asset_id"

definition encode_asset_opt_in :: "algo_transaction \<Rightarrow> u64 \<Rightarrow> bytes" where
  "encode_asset_opt_in t asset_id =
     encode_string ''arcv'' @ algo_encode_address (at_sender t)
     @ encode_common_fields t @ encode_sender_and_type t @ encode_string ''xaid'' @ encode_uint asset_id"

definition algo_encode_transaction :: "algo_transaction \<Rightarrow> bytes" where
  "algo_encode_transaction t =
     (let map_size = operation_size (at_operation t) + (if at_note t \<noteq> [] then 1 else 0)
      in [FIXMAP_PREFIX OR map_size]
         @ (case payment_amount (at_operation t) of
              Some amount \<Rightarrow> encode_string ''amt'' @ encode_uint amount
            | None \<Rightarrow> [])
         @ (case at_operation t of
              AlgoPayment destination _ \<Rightarrow> encode_payment t destination
            | AssetTransfer destination amount asset_id \<Rightarrow> encode_asset_transfer t destination amount asset_id
            | AssetOptIn asset_id \<Rightarrow> encode_asset_opt_in t asset_id))"

definition encode_signed_transaction :: "bytes \<Rightarrow> bytes \<Rightarrow> bytes" where
  "encode_signed_transaction encoded_tx signature =
     [FIXMAP_PREFIX OR SIGNED_TX_FIELDS] @ encode_string ''sig'' @ encode_bytes signature @ encode_string ''txn'' @ encoded_tx"

section \<open>Signing\<close>

definition TX_TAG :: bytes where "TX_TAG = as_bytes ''TX''"

definition algo_sign_transaction :: "algorand_lib \<Rightarrow> algo_transaction \<Rightarrow> bytes \<Rightarrow> string signer_result" where
  "algo_sign_transaction L t private_key =
     (let encoded = algo_encode_transaction t
      in and_then (signer_sign_digest (algo_keys L) (algo_secp L) Ed25519Scheme (TX_TAG @ encoded) private_key) (\<lambda>signature.
         Ok (algo_hex_encode L (encode_signed_transaction encoded signature))))"

definition algo_sign_transfer :: "algorand_lib \<Rightarrow> signer_input \<Rightarrow> bytes \<Rightarrow> string signer_result" where
  "algo_sign_transfer L input k = and_then (algo_transfer L input) (\<lambda>t. algo_sign_transaction L t k)"

definition algo_sign_token_transfer :: "algorand_lib \<Rightarrow> signer_input \<Rightarrow> bytes \<Rightarrow> string signer_result" where
  "algo_sign_token_transfer L input k = and_then (algo_token_transfer L input) (\<lambda>t. algo_sign_transaction L t k)"

definition algo_sign_account_action :: "algorand_lib \<Rightarrow> signer_input \<Rightarrow> bytes \<Rightarrow> string signer_result" where
  "algo_sign_account_action L input k = and_then (algo_account_action L input) (\<lambda>t. algo_sign_transaction L t k)"

section \<open>A MessagePack reader\<close>

datatype msgpack = MpUint u64 | MpStr bytes | MpBin bytes

text \<open>
  A strict reader: it refuses every integer, string and byte string that is not in its shortest form. The first argument of
  \<open>read_mp_sized\<close> is the number of bytes of the length, the second the least length the form is for.
\<close>

definition read_mp_number :: "nat \<Rightarrow> u64 \<Rightarrow> bytes \<Rightarrow> (msgpack \<times> bytes) option" where
  "read_mp_number n least bs = Option.bind (take_n n bs) (\<lambda>(s, r). if least \<le> be_word s then Some (MpUint (be_word s), r) else None)"

definition read_mp_sized :: "nat \<Rightarrow> nat \<Rightarrow> (bytes \<Rightarrow> msgpack) \<Rightarrow> bytes \<Rightarrow> (msgpack \<times> bytes) option" where
  "read_mp_sized n least mk bs = Option.bind (take_n n bs) (\<lambda>(l, r).
     if least \<le> unat (be_word l :: u64) then map_option (\<lambda>(s, r). (mk s, r)) (take_n (unat (be_word l :: u64)) r) else None)"

definition read_mp :: "bytes \<Rightarrow> (msgpack \<times> bytes) option" where
  "read_mp bs = (case bs of
       [] \<Rightarrow> None
     | b # r \<Rightarrow>
         if b < 0x80 then Some (MpUint (ucast b), r)
         else if 0xa0 \<le> b \<and> b < 0xc0 then map_option (\<lambda>(s, r). (MpStr s, r)) (take_n (unat b - 0xa0) r)
         else if b = 0xcc then read_mp_number 1 0x80 r
         else if b = 0xcd then read_mp_number 2 0x100 r
         else if b = 0xce then read_mp_number 4 0x10000 r
         else if b = 0xcf then read_mp_number 8 0x100000000 r
         else if b = 0xd9 then read_mp_sized 1 32 MpStr r
         else if b = 0xc4 then read_mp_sized 1 0 MpBin r
         else if b = 0xc5 then read_mp_sized 2 256 MpBin r
         else None)"

fun read_pairs :: "nat \<Rightarrow> bytes \<Rightarrow> ((bytes \<times> msgpack) list \<times> bytes) option" where
  "read_pairs 0 bs = Some ([], bs)"
| "read_pairs (Suc n) bs = (case read_mp bs of
       Some (MpStr k, r) \<Rightarrow>
         (case read_mp r of
            Some (v, r) \<Rightarrow> map_option (\<lambda>(ps, r). ((k, v) # ps, r)) (read_pairs n r)
          | None \<Rightarrow> None)
     | _ \<Rightarrow> None)"

definition read_map :: "bytes \<Rightarrow> ((bytes \<times> msgpack) list \<times> bytes) option" where
  "read_map bs = (case bs of [] \<Rightarrow> None | b # r \<Rightarrow> if 0x80 \<le> b \<and> b < 0x90 then read_pairs (unat b - 0x80) r else None)"

lemmas mp_prefixes = FIXMAP_PREFIX_def FIXSTR_PREFIX_def STR8_PREFIX_def UINT8_PREFIX_def UINT16_PREFIX_def
  UINT32_PREFIX_def UINT64_PREFIX_def BIN8_PREFIX_def BIN16_PREFIX_def

lemma fixstr_byte: "n < 32 \<Longrightarrow> FIXSTR_PREFIX OR of_nat n = of_nat (0xa0 + n)"
proof -
  have "list_all (\<lambda>n. FIXSTR_PREFIX OR of_nat n = of_nat (0xa0 + n)) [0..<32]" by code_simp
  then show "n < 32 \<Longrightarrow> FIXSTR_PREFIX OR of_nat n = of_nat (0xa0 + n)" by (simp add: list_all_iff)
qed

lemma fixmap_byte: "n < 16 \<Longrightarrow> FIXMAP_PREFIX OR of_nat n = of_nat (0x80 + n)"
proof -
  have "list_all (\<lambda>n. FIXMAP_PREFIX OR of_nat n = of_nat (0x80 + n)) [0..<16]" by code_simp
  then show "n < 16 \<Longrightarrow> FIXMAP_PREFIX OR of_nat n = of_nat (0x80 + n)" by (simp add: list_all_iff)
qed

lemma unat_byte: "n < 256 \<Longrightarrow> unat (of_nat n :: u8) = n"
  by (simp add: unat_of_nat take_bit_nat_eq_self)

lemma unat_ucast_u8: "unat (v :: u64) < 256 \<Longrightarrow> unat (ucast v :: u8) = unat v"
  by (simp add: unsigned_ucast_eq unsigned_take_bit_eq take_bit_nat_eq_self )

lemma unat_ucast_of_u8: "unat (ucast (b :: u8) :: u64) = unat b"
proof -
  have "unat b < 2 ^ 8" using unsigned_less [of b] by simp
  then show ?thesis by (simp add: unsigned_ucast_eq unsigned_take_bit_eq take_bit_nat_eq_self )
qed

lemma unat_be_byte: "unat (be_word [b] :: u64) = unat b"
proof -
  have "unat b < 2 ^ 8" using unsigned_less [of b] by simp
  then have "unat b < 2 ^ 64" by simp
  then show ?thesis by (simp add: be_word_def unsigned_ucast_eq take_bit_nat_eq_self)
qed

lemma read_mp_string: "length s < 256 \<Longrightarrow> read_mp (encode_string s @ r) = Some (MpStr (as_bytes s), r)"
proof (cases "length s < 32")
  case True
  let ?b = "of_nat (0xa0 + length s) :: u8"
  have u: "unat ?b = 0xa0 + length s" using True by (intro unat_byte) simp
  then have "\<not> ?b < 0x80" "0xa0 \<le> ?b" "?b < 0xc0" using True by (simp_all only: word_less_nat_alt word_le_nat_alt u) simp_all
  then show ?thesis
    using True u by (simp add: encode_string_def FIXSTR_MAX_LEN_def fixstr_byte read_mp_def del: of_nat_add)
next
  case False
  assume l: "length s < 256"
  have "unat (be_word [of_nat (length s)] :: u64) = length s"
    using unat_byte [OF l] by (simp add: unat_be_byte)
  then show ?thesis
    using False by (simp add: encode_string_def FIXSTR_MAX_LEN_def STR8_PREFIX_def read_mp_def read_mp_sized_def)
qed

lemma read_mp_bytes: "length b < 65536 \<Longrightarrow> read_mp (encode_bytes b @ r) = Some (MpBin b, r)"
proof (cases "length b < 256")
  case True
  then show ?thesis
    by (simp add: encode_bytes_def BIN8_PREFIX_def read_mp_def read_mp_sized_def unat_be_byte unat_byte)
next
  case False
  assume l: "length b < 65536"
  let ?n = "of_nat (length b) :: u64"
  have u: "unat ?n = length b" using l by (simp add: unat_of_nat take_bit_nat_eq_self)
  have "(of_nat (length b) :: u16) = ucast ?n" using l by (simp add: word_unat_eq_iff unsigned_ucast_eq unsigned_take_bit_eq u unat_of_nat take_bit_nat_eq_self)
  then have "be_word (be_bytes 2 (of_nat (length b) :: u16)) = ?n"
    using be_word_be_bytes_ucast [of 2 ?n, where 'b = 16] l u by simp
  then show ?thesis
    using False u by (simp add: encode_bytes_def BIN16_PREFIX_def read_mp_def read_mp_sized_def)
qed

lemma read_mp_uint: "read_mp (encode_uint v @ r) = Some (MpUint v, r)"
proof -
  consider "unat v < 0x80" | "0x80 \<le> unat v" "unat v < 0x100" | "0x100 \<le> unat v" "unat v < 0x10000"
    | "0x10000 \<le> unat v" "unat v < 0x100000000" | "0x100000000 \<le> unat v" by linarith
  then show ?thesis
  proof cases
    case 1
    have u: "unat (ucast v :: u8) = unat v" using 1 by (intro unat_ucast_u8) simp
    have w: "(ucast (ucast v :: u8) :: u64) = v" unfolding word_unat_eq_iff unat_ucast_of_u8 by (rule u)
    have "(ucast v :: u8) < 0x80" using 1 by (simp add: word_less_nat_alt u)
    then show ?thesis using 1 w by (simp add: encode_uint_def word_less_nat_alt [of v] read_mp_def)
  next
    case 2
    then have "(be_word [ucast v] :: u64) = v" by (simp only: word_unat_eq_iff unat_be_byte unat_ucast_u8)
    then show ?thesis using 2 by (simp add: encode_uint_def word_less_nat_alt word_le_nat_alt read_mp_def read_mp_number_def UINT8_PREFIX_def)
  next
    case 3
    then show ?thesis using be_word_be_bytes_ucast [of 2 v, where 'b = 16]
      by (simp add: encode_uint_def word_less_nat_alt word_le_nat_alt read_mp_def read_mp_number_def UINT16_PREFIX_def)
  next
    case 4
    then show ?thesis using be_word_be_bytes_ucast [of 4 v, where 'b = 32]
      by (simp add: encode_uint_def word_less_nat_alt word_le_nat_alt read_mp_def read_mp_number_def UINT32_PREFIX_def)
  next
    case 5
    then show ?thesis using be_word_be_bytes_id [of 8 v]
      by (simp add: encode_uint_def word_less_nat_alt word_le_nat_alt read_mp_def read_mp_number_def UINT64_PREFIX_def)
  qed
qed


section \<open>The fields of a transaction\<close>

definition algo_fields :: "algo_transaction \<Rightarrow> (string \<times> msgpack) list" where
  "algo_fields t =
     (let common =
            [(''fee'', MpUint (at_fee t)), (''fv'', MpUint (at_first_round t)), (''gen'', MpStr (as_bytes (at_genesis_id t))),
             (''gh'', MpBin (at_genesis_hash t)), (''lv'', MpUint (at_last_round t))]
            @ (if at_note t = [] then [] else [(''note'', MpBin (at_note t))]);
          snd_type = (\<lambda>ty. [(''snd'', MpBin (algo_payload (at_sender t))), (''type'', MpStr (as_bytes ty))])
      in case at_operation t of
           AlgoPayment d v \<Rightarrow>
             (if v = 0 then [] else [(''amt'', MpUint v)]) @ common @ [(''rcv'', MpBin (algo_payload d))] @ snd_type ''pay''
         | AssetTransfer d v a \<Rightarrow>
             [(''aamt'', MpUint v), (''arcv'', MpBin (algo_payload d))] @ common @ snd_type ''axfer'' @ [(''xaid'', MpUint a)]
         | AssetOptIn a \<Rightarrow>
             [(''arcv'', MpBin (algo_payload (at_sender t)))] @ common @ snd_type ''axfer'' @ [(''xaid'', MpUint a)])"

definition algo_transaction_ok :: "algo_transaction \<Rightarrow> bool" where
  "algo_transaction_ok t \<longleftrightarrow> length (at_genesis_id t) < 2 ^ 8 \<and> length (at_genesis_hash t) < 2 ^ 16 \<and> length (at_note t) < 2 ^ 16
     \<and> length (algo_payload (at_sender t)) = 32
     \<and> (case at_operation t of AlgoPayment d _ \<Rightarrow> length (algo_payload d) = 32 | AssetTransfer d _ _ \<Rightarrow> length (algo_payload d) = 32
          | AssetOptIn _ \<Rightarrow> True)"

definition field_pairs :: "(string \<times> msgpack) list \<Rightarrow> (bytes \<times> msgpack) list" where
  "field_pairs = map (\<lambda>(k, v). (as_bytes k, v))"

lemma read_pairs_step:
  assumes "length k < 256"
  shows "read_pairs (Suc n) (encode_string k @ encode_uint u @ r) = map_option (\<lambda>(ps, r). ((as_bytes k, MpUint u) # ps, r)) (read_pairs n r)"
    and "length b < 65536 \<Longrightarrow> read_pairs (Suc n) (encode_string k @ encode_bytes b @ r)
           = map_option (\<lambda>(ps, r). ((as_bytes k, MpBin b) # ps, r)) (read_pairs n r)"
    and "length x < 256 \<Longrightarrow> read_pairs (Suc n) (encode_string k @ encode_string x @ r)
           = map_option (\<lambda>(ps, r). ((as_bytes k, MpStr (as_bytes x)) # ps, r)) (read_pairs n r)"
  using assms by (simp_all add: read_mp_string read_mp_bytes read_mp_uint)

lemma read_map_prefix: "n < 16 \<Longrightarrow> read_map ((FIXMAP_PREFIX OR of_nat n) # r) = read_pairs n r"
proof -
  assume n: "n < 16"
  let ?b = "of_nat (0x80 + n) :: u8"
  have u: "unat ?b = 0x80 + n" using n by (intro unat_byte) simp
  then have "0x80 \<le> ?b" "?b < 0x90" using n by (simp_all only: word_less_nat_alt word_le_nat_alt u) simp_all
  then show ?thesis using n u by (simp add: read_map_def fixmap_byte del: of_nat_add)
qed

lemmas algo_field_counts = PAYMENT_FIELDS_def PAYMENT_ZERO_AMOUNT_FIELDS_def ASSET_TRANSFER_FIELDS_def ASSET_OPT_IN_FIELDS_def

lemmas algo_encoders = encode_payment_def encode_asset_transfer_def encode_asset_opt_in_def encode_common_fields_def
  encode_sender_and_type_def algo_encode_address_def TX_TYPE_PAYMENT_def TX_TYPE_ASSET_TRANSFER_def

lemma map_size: "operation_size (at_operation t) + (if at_note t \<noteq> [] then 1 else 0) = of_nat (length (algo_fields t))"
  by (cases "at_operation t") (simp_all add: algo_fields_def Let_def algo_field_counts)

lemma algo_fields_few: "length (algo_fields t) < 16"
  by (cases "at_operation t") (simp_all add: algo_fields_def Let_def)

lemma read_map_transaction:
  assumes "algo_transaction_ok t"
  shows "read_map (algo_encode_transaction t @ r) = Some (field_pairs (algo_fields t), r)"
proof -
  define bs where "bs = tl (algo_encode_transaction t) @ r"
  have "read_pairs (length (algo_fields t)) bs = Some (field_pairs (algo_fields t), r)"
  proof (cases "at_operation t")
    case (AlgoPayment d v)
    then show ?thesis using assms
      by (cases "v = 0"; cases "at_note t = []")
        (simp_all add: bs_def algo_encode_transaction_def algo_fields_def Let_def algo_encoders algo_transaction_ok_def
          read_pairs_step field_pairs_def word_gt_0 del: read_pairs.simps(2))
  next
    case (AssetTransfer d v a)
    then show ?thesis using assms
      by (cases "at_note t = []")
        (simp_all add: bs_def algo_encode_transaction_def algo_fields_def Let_def algo_encoders algo_transaction_ok_def
          read_pairs_step field_pairs_def del: read_pairs.simps(2))
  next
    case (AssetOptIn a)
    then show ?thesis using assms
      by (cases "at_note t = []")
        (simp_all add: bs_def algo_encode_transaction_def algo_fields_def Let_def algo_encoders algo_transaction_ok_def
          read_pairs_step field_pairs_def del: read_pairs.simps(2))
  qed
  moreover have "algo_encode_transaction t @ r = (FIXMAP_PREFIX OR of_nat (length (algo_fields t))) # bs"
    using map_size [of t] by (simp add: bs_def algo_encode_transaction_def Let_def)
  ultimately show ?thesis using algo_fields_few [of t] by (simp add: read_map_prefix)
qed

lemma algo_fields_sorted: "sorted_wrt ord_class.lexordp (map fst (field_pairs (algo_fields t)))"
  by (cases "at_operation t") (simp_all add: field_pairs_def algo_fields_def Let_def as_bytes_def)

lemma field_pairs_inj: "field_pairs ps = field_pairs qs \<Longrightarrow> ps = qs"
proof -
  have "inj (\<lambda>(k, v :: msgpack). (as_bytes k, v))" by (auto simp: inj_def as_bytes_inj)
  then show "field_pairs ps = field_pairs qs \<Longrightarrow> ps = qs" unfolding field_pairs_def by simp
qed

lemma algo_fields_inj: "algo_fields t = algo_fields t' \<Longrightarrow> t = t'"
  by (cases "at_operation t"; cases "at_operation t'")
    (auto simp: algo_fields_def Let_def as_bytes_inj split: if_splits intro!: algo_transaction.equality algorand_address.equality)

lemma algo_try_parse_length: "algo_try_parse L s = Some a \<Longrightarrow> length (algo_payload a) = 32"
  by (auto simp: algo_try_parse_def base32_from_slice_def invalid_input_err_def split: option.splits if_splits)

lemma algo_address_of_Ok: "algo_address_of L s = Ok a \<Longrightarrow> length (algo_payload a) = 32"
  by (auto simp: algo_address_of_def ok_or_Inr_iff dest: algo_try_parse_length)

lemma algo_from_input_Ok:
  "algo_from_input L i op = Ok t \<Longrightarrow> length (algo_payload (at_sender t)) = 32 \<and> at_operation t = op"
  by (auto simp: algo_from_input_def and_then_Inr_iff dest: algo_address_of_Ok)

definition algo_requested :: "algorand_lib \<Rightarrow> signer_input \<Rightarrow> algo_transaction \<Rightarrow> bool" where
  "algo_requested L i t \<longleftrightarrow> algo_transfer L i = Ok t \<or> algo_token_transfer L i = Ok t \<or> algo_account_action L i = Ok t"

lemma algo_requested_addresses:
  "algo_requested L i t \<Longrightarrow> length (algo_payload (at_sender t)) = 32
     \<and> (case at_operation t of AlgoPayment d _ \<Rightarrow> length (algo_payload d) = 32 | AssetTransfer d _ _ \<Rightarrow> length (algo_payload d) = 32
          | AssetOptIn _ \<Rightarrow> True)"
  by (auto simp: algo_requested_def algo_transfer_def algo_token_transfer_def algo_account_action_def and_then_Inr_iff
      dest!: algo_from_input_Ok dest: algo_address_of_Ok)

definition algo_lengths_ok :: "algo_transaction \<Rightarrow> bool" where
  "algo_lengths_ok t \<longleftrightarrow> length (at_genesis_id t) < 2 ^ 8 \<and> length (at_genesis_hash t) < 2 ^ 16 \<and> length (at_note t) < 2 ^ 16"

lemma algo_requested_ok: "algo_requested L i t \<Longrightarrow> algo_lengths_ok t \<Longrightarrow> algo_transaction_ok t"
  using algo_requested_addresses [of L i t] by (simp add: algo_lengths_ok_def algo_transaction_ok_def)

text \<open>A reader of the signed transaction: the map \<open>{sig, txn}\<close> with the transaction's own map inside.\<close>

definition read_signed :: "bytes \<Rightarrow> (bytes \<times> (bytes \<times> msgpack) list \<times> bytes) option" where
  "read_signed bs = (case bs of
       [] \<Rightarrow> None
     | b # r \<Rightarrow>
         if b \<noteq> 0x82 then None
         else (case read_pairs 1 r of
                 Some ([(k, MpBin sig)], r) \<Rightarrow>
                   (case read_mp r of
                      Some (MpStr k', r) \<Rightarrow>
                        if k = as_bytes ''sig'' \<and> k' = as_bytes ''txn'' then map_option (\<lambda>(ps, r). (sig, ps, r)) (read_map r) else None
                    | _ \<Rightarrow> None)
               | _ \<Rightarrow> None))"

lemma read_signed_transaction:
  assumes "algo_transaction_ok t" "length sig < 65536"
  shows "read_signed (encode_signed_transaction (algo_encode_transaction t) sig) = Some (sig, field_pairs (algo_fields t), [])"
  using assms read_map_transaction [of t "[]"]
  by (simp add: read_signed_def encode_signed_transaction_def FIXMAP_PREFIX_def SIGNED_TX_FIELDS_def read_mp_string read_mp_bytes)

text \<open>What a transaction says is what the input asked for.\<close>

definition algo_states_request :: "algorand_lib \<Rightarrow> signer_input \<Rightarrow> algo_transaction \<Rightarrow> bool" where
  "algo_states_request L i t \<longleftrightarrow>
     algo_address_of L (sender_address i) = Ok (at_sender t) \<and> uint (at_fee t) = fee_total (input_fee i)
     \<and> get_sequence (metadata i) = Ok (at_first_round t) \<and> at_last_round t = at_first_round t + 1000
     \<and> get_chain_id (metadata i) = Ok (at_genesis_id t)
     \<and> (\<exists>h. get_block_hash (metadata i) = Ok h \<and> algo_decode_base64 L h = Some (at_genesis_hash t))
     \<and> at_note t = as_bytes (case memo i of None \<Rightarrow> [] | Some m \<Rightarrow> m)
     \<and> (case at_operation t of
          AlgoPayment d v \<Rightarrow> algo_address_of L (destination_address i) = Ok d \<and> unat v = input_value i
        | AssetTransfer d v a \<Rightarrow> algo_address_of L (destination_address i) = Ok d \<and> unat v = input_value i \<and> get_asset_id i = Ok a
        | AssetOptIn a \<Rightarrow> get_asset_id i = Ok a)"

lemma value_as_u64_unat: "value_as_u64 i = Ok v \<Longrightarrow> unat v = input_value i"
  by (auto simp: value_as_u64_def ok_or_Inr_iff unat_nat_to_u64)

lemma algo_requested_states: "algo_requested L i t \<Longrightarrow> algo_states_request L i t"
  by (auto simp: algo_requested_def algo_transfer_def algo_token_transfer_def algo_account_action_def algo_from_input_def and_then_Inr_iff
      ok_or_Inr_iff algo_states_request_def TRANSACTION_VALIDITY_ROUNDS_def value_as_u64_unat
      dest: unat_int_to_u64 [simplified])

text \<open>What the three entry points return, and the transaction they sign.\<close>

definition algo_signed :: "algorand_lib \<Rightarrow> signer_input \<Rightarrow> bytes \<Rightarrow> algo_transaction \<Rightarrow> string \<Rightarrow> bool" where
  "algo_signed L i k t s \<longleftrightarrow>
     algo_transfer L i = Ok t \<and> algo_sign_transfer L i k = Ok s
     \<or> algo_token_transfer L i = Ok t \<and> algo_sign_token_transfer L i k = Ok s
     \<or> algo_account_action L i = Ok t \<and> algo_sign_account_action L i k = Ok s"

lemma algo_signed_requested: "algo_signed L i k t s \<Longrightarrow> algo_requested L i t \<and> algo_sign_transaction L t k = Ok s"
  by (auto simp: algo_signed_def algo_requested_def algo_sign_transfer_def algo_sign_token_transfer_def algo_sign_account_action_def)

text \<open>
  C36: What the Algorand signer returns (for a transfer, a token transfer or an opt-in) is the hexadecimal form of bytes that a strict
  MessagePack reader, one that accepts integers, strings and byte strings only in their shortest form, reads back to the last byte as
  the map of the signature and the transaction. The transaction states what the input asked for: its sender, fee, first round and the
  last one 1000 rounds later, genesis id and hash, memo, destination, value and asset. The map holds exactly its fields, with strictly
  ascending keys, where only a zero payment amount and an empty note are left out (a zero amount of an asset is written). The
  signature is the one of the tagged transaction bytes under the given key. It holds where the genesis id is shorter than 256 bytes,
  the genesis hash and the note are shorter than 65536 bytes, and the curve's signatures have 64 bytes.
\<close>

theorem algorand_signed_reads_back:
  assumes "algo_signed L i k t s" "algo_lengths_ok t"
    and "\<And>m. length (signing_key_sign (algo_keys L) k m) = 64"
  shows "algo_states_request L i t
     \<and> (\<exists>x. s = algo_hex_encode L x
          \<and> read_signed x = Some (signing_key_sign (algo_keys L) k (TX_TAG @ algo_encode_transaction t), field_pairs (algo_fields t), []))
     \<and> sorted_wrt ord_class.lexordp (map fst (field_pairs (algo_fields t)))"
proof -
  let ?sig = "signing_key_sign (algo_keys L) k (TX_TAG @ algo_encode_transaction t)"
  have t: "algo_requested L i t" "algo_sign_transaction L t k = Ok s" using algo_signed_requested [OF assms(1)] by auto
  have "s = algo_hex_encode L (encode_signed_transaction (algo_encode_transaction t) ?sig)"
    using t(2) by (auto simp: algo_sign_transaction_def Let_def and_then_Inr_iff ed25519_from_private_key_Ok ed25519_sign_def)
  then show ?thesis
    using read_signed_transaction [OF algo_requested_ok [OF t(1) assms(2)], of ?sig] assms(3) algo_fields_sorted
      algo_requested_states [OF t(1)] by auto
qed

interpretation algo_signer: binding_signer algo_transaction_ok "\<lambda>t. TX_TAG @ algo_encode_transaction t" "\<lambda>t. t"
proof
  fix t t'
  assume ok: "algo_transaction_ok t" "algo_transaction_ok t'" and "TX_TAG @ algo_encode_transaction t = TX_TAG @ algo_encode_transaction t'"
  then have "algo_encode_transaction t = algo_encode_transaction t'" by simp
  then have "field_pairs (algo_fields t) = field_pairs (algo_fields t')"
    using read_map_transaction [OF ok(1), of "[]"] read_map_transaction [OF ok(2), of "[]"] by simp
  then show "t = t'" by (intro algo_fields_inj field_pairs_inj)
qed

text \<open>
  Two Algorand requests whose signed messages (the tag and the transaction bytes) are equal are the same transaction:
  sender, fee, validity rounds, genesis id and hash, note, kind of operation, destination, amount and
  asset are all equal, so a signature never serves for another payment than the one it was made for.
\<close>

theorem algorand_signature_binds:
  assumes "algo_requested L i t" "algo_requested L i' t'" "algo_lengths_ok t" "algo_lengths_ok t'"
    and "TX_TAG @ algo_encode_transaction t = TX_TAG @ algo_encode_transaction t'"
  shows "t = t'"
proof -
  show ?thesis
    using algo_signer.message_binds [OF algo_requested_ok [OF assms(1,3)] algo_requested_ok [OF assms(2,4)] assms(5)] .
qed

definition demo_algo :: algorand_lib where
  "demo_algo = \<lparr>algo_decode_base32 = (\<lambda>s. Some (as_bytes s @ take 4 (as_bytes s))), algo_encode_base32 = from_bytes,
     algo_decode_base64 = (\<lambda>s. Some (as_bytes s)), sha512_256 = (\<lambda>b. rev (take 4 b) @ take 4 b), algo_hex_encode = from_bytes,
     algo_keys = \<lparr>verifying_key = (\<lambda>k. k), signing_key_sign = (\<lambda>k d. take 64 (k @ d @ replicate 64 0))\<rparr>,
     algo_secp = \<lparr>sign_prehash_recoverable = (\<lambda>_ _. None), sec1_public_key = (\<lambda>_. None)\<rparr>\<rparr>"

definition demo_algo_input :: "nat \<Rightarrow> signer_input" where
  "demo_algo_input v = \<lparr>input_type = TransferInput \<lparr>asset_ident = \<lparr>asset_chain = chain.Algorand, token_id = None\<rparr>,
       asset_symbol = ''ALGO'', asset_decimals = 6\<rparr>,
     sender_address = replicate 32 (CHR ''a''), destination_address = replicate 32 (CHR ''b''), input_value = v, load_gas_price = Regular 1,
     memo = Some ''hi'', is_max_value = False, metadata = AlgorandMeta 7 ''hash'' ''testnet-v1.0'',
     input_fee = \<lparr>fee_total = 2340, gas_price_type = Regular 1, fee_gas_limit = 0, fee_options = Map.empty\<rparr>\<rparr>"

definition demo_algo_tx :: "u64 \<Rightarrow> algo_transaction" where
  "demo_algo_tx v = \<lparr>at_sender = \<lparr>algo_payload = replicate 32 0x61\<rparr>, at_fee = 2340, at_first_round = 7, at_last_round = 1007,
     at_genesis_id = ''testnet-v1.0'', at_genesis_hash = as_bytes ''hash'', at_note = as_bytes ''hi'',
     at_operation = AlgoPayment \<lparr>algo_payload = replicate 32 0x62\<rparr> v\<rparr>"

lemma demo_algo_transfer: "algo_transfer demo_algo (demo_algo_input 5) = Ok (demo_algo_tx 5)"
  by code_simp

lemma demo_algo_requested: "algo_requested demo_algo (demo_algo_input 5) (demo_algo_tx 5)" "algo_requested demo_algo (demo_algo_input 6) (demo_algo_tx 6)"
  by (simp_all add: algo_requested_def, rule disjI1, code_simp, rule disjI1, code_simp)

lemma demo_algo_lengths: "algo_lengths_ok (demo_algo_tx v)"
  by (simp add: algo_lengths_ok_def demo_algo_tx_def as_bytes_def)

theorem algorand_signed_reads_back_witness:
  "\<exists>s x. algo_sign_transfer demo_algo (demo_algo_input 5) (replicate 32 7) = Ok s \<and> s = algo_hex_encode demo_algo x
     \<and> read_signed x = Some (take 64 (replicate 32 7 @ TX_TAG @ algo_encode_transaction (demo_algo_tx 5) @ replicate 64 0),
         field_pairs (algo_fields (demo_algo_tx 5)), [])"
proof -
  obtain s where s: "algo_sign_transfer demo_algo (demo_algo_input 5) (replicate 32 7) = Ok s"
    by (simp add: algo_sign_transfer_def demo_algo_transfer algo_sign_transaction_def ed25519_from_private_key_def Let_def)
  then have "algo_signed demo_algo (demo_algo_input 5) (replicate 32 7) (demo_algo_tx 5) s"
    by (simp add: algo_signed_def demo_algo_transfer)
  moreover have "length (signing_key_sign (algo_keys demo_algo) (replicate 32 7) m) = 64" for m by (simp add: demo_algo_def)
  ultimately show ?thesis using algorand_signed_reads_back [OF _ demo_algo_lengths] s by (fastforce simp: demo_algo_def)
qed

theorem algorand_signature_binds_witness:
  "algo_requested demo_algo (demo_algo_input 5) (demo_algo_tx 5) \<and> algo_requested demo_algo (demo_algo_input 6) (demo_algo_tx 6)
     \<and> TX_TAG @ algo_encode_transaction (demo_algo_tx 5) \<noteq> TX_TAG @ algo_encode_transaction (demo_algo_tx 6)"
proof -
  have "demo_algo_tx 5 \<noteq> demo_algo_tx 6" by (simp add: demo_algo_tx_def)
  then show ?thesis
    using algorand_signature_binds [OF demo_algo_requested demo_algo_lengths demo_algo_lengths] demo_algo_requested by blast
qed

text \<open>The length of a byte string is cut to 16 bits: the header of a 65536-byte note says it is empty.\<close>

lemma encode_bytes_wraps: "length b = 65536 \<Longrightarrow> encode_bytes b = [BIN16_PREFIX, 0, 0] @ b"
proof -
  assume l: "length b = 65536"
  have "be_bytes 2 (65536 :: u16) = [0, 0]" by code_simp
  then show ?thesis using l by (simp add: encode_bytes_def)
qed

end
