(* ===== verification/Polkadot.thy ===== *)
theory Polkadot
  imports Ed25519
begin

unbundle bit_operations_syntax

text \<open>
  The Polkadot signer of \<open>core/crates/gem_polkadot\<close>: SS58 addresses (\<open>address.rs\<close>), the transfer extrinsic with
  its compact integers, mortal era and signing payload (\<open>transfer.rs\<close>) and the signer
  (\<open>signer/chain_signer.rs\<close>). The hashes, base58, hexadecimal and the curve are arguments.
\<close>

section \<open>Addresses\<close>

record polkadot_lib =
  dot_bs58_decode :: "string \<Rightarrow> bytes option"
  dot_bs58_encode :: "bytes \<Rightarrow> string"
  dot_blake2b_512 :: "bytes \<Rightarrow> bytes"
  dot_blake2b_256 :: "bytes \<Rightarrow> bytes"
  dot_hex_encode :: "bytes \<Rightarrow> string"
  dot_hex_decode :: "string \<Rightarrow> bytes option"
  dot_keys :: ed_keys

definition POLKADOT_PREFIX :: u8 where "POLKADOT_PREFIX = 0"
definition ADDRESS_DATA_LENGTH :: nat where "ADDRESS_DATA_LENGTH = 32"
definition ADDRESS_CHECKSUM_LENGTH :: nat where "ADDRESS_CHECKSUM_LENGTH = 2"
definition ADDRESS_LENGTH :: nat where "ADDRESS_LENGTH = 1 + ADDRESS_DATA_LENGTH + ADDRESS_CHECKSUM_LENGTH"
definition ADDRESS_MAX_STRING_LENGTH :: nat where "ADDRESS_MAX_STRING_LENGTH = 60"
definition SS58_CHECKSUM_PREFIX :: bytes where "SS58_CHECKSUM_PREFIX = as_bytes ''SS58PRE''"

record polkadot_address = account_id :: bytes

definition dot_checksum :: "polkadot_lib \<Rightarrow> bytes \<Rightarrow> bytes" where
  "dot_checksum L d = take ADDRESS_CHECKSUM_LENGTH (dot_blake2b_512 L (SS58_CHECKSUM_PREFIX @ d))"

definition dot_try_parse :: "polkadot_lib \<Rightarrow> string \<Rightarrow> polkadot_address option" where
  "dot_try_parse L v =
     (if length v > ADDRESS_MAX_STRING_LENGTH then None
      else (case dot_bs58_decode L v of
              None \<Rightarrow> None
            | Some decoded \<Rightarrow>
                if length decoded \<noteq> ADDRESS_LENGTH \<or> decoded ! 0 \<noteq> POLKADOT_PREFIX then None
                else if drop (1 + ADDRESS_DATA_LENGTH) decoded \<noteq> dot_checksum L (take (1 + ADDRESS_DATA_LENGTH) decoded) then None
                else Some \<lparr>account_id = take ADDRESS_DATA_LENGTH (drop 1 decoded)\<rparr>))"

definition dot_encode :: "polkadot_lib \<Rightarrow> polkadot_address \<Rightarrow> string" where
  "dot_encode L a = (let raw = [POLKADOT_PREFIX] @ account_id a in dot_bs58_encode L (raw @ dot_checksum L raw))"

definition dot_from_public_key :: "bytes \<Rightarrow> polkadot_address" where
  "dot_from_public_key k = \<lparr>account_id = k\<rparr>"

definition dot_parse :: "polkadot_lib \<Rightarrow> string \<Rightarrow> polkadot_address signer_result" where
  "dot_parse L v = ok_or (dot_try_parse L v) (InvalidInput ''invalid Polkadot address'')"

definition dot_validate_address :: "polkadot_lib \<Rightarrow> string \<Rightarrow> bool" where
  "dot_validate_address L a \<longleftrightarrow> dot_try_parse L a \<noteq> None"

section \<open>Compact integers and mortal eras\<close>

definition BALANCES_MODULE_INDEX :: u8 where "BALANCES_MODULE_INDEX = 0x0a"
definition TRANSFER_ALLOW_DEATH_METHOD_INDEX :: u8 where "TRANSFER_ALLOW_DEATH_METHOD_INDEX = 0x00"
definition SIGNATURE_TYPE_ED25519 :: u8 where "SIGNATURE_TYPE_ED25519 = 0x00"
definition EXTRINSIC_VERSION_SIGNED :: u8 where "EXTRINSIC_VERSION_SIGNED = 0x84"
definition MULTI_ADDRESS_ID :: u8 where "MULTI_ADDRESS_ID = 0x00"
definition CHARGE_ASSET_TRANSACTION_PAYMENT_NONE :: u8 where "CHARGE_ASSET_TRANSACTION_PAYMENT_NONE = 0x00"
definition CHECK_METADATA_MIN_SPEC_VERSION :: u32 where "CHECK_METADATA_MIN_SPEC_VERSION = 1002005"
definition MULTI_ADDRESS_MIN_SPEC_VERSION :: u32 where "MULTI_ADDRESS_MIN_SPEC_VERSION = 28"
definition MORTAL_ERA_MIN_PERIOD :: u64 where "MORTAL_ERA_MIN_PERIOD = 4"
definition MORTAL_ERA_MAX_PERIOD :: u64 where "MORTAL_ERA_MAX_PERIOD = push_bit 16 1"
definition MAX_UNHASHED_PAYLOAD_SIZE :: nat where "MAX_UNHASHED_PAYLOAD_SIZE = 256"

text \<open>\<open>Iterator::rposition\<close>: the last index whose element satisfies the predicate.\<close>

definition rposition :: "('a \<Rightarrow> bool) \<Rightarrow> 'a list \<Rightarrow> nat option" where
  "rposition p xs = (case dropWhile (\<lambda>x. \<not> p x) (rev xs) of [] \<Rightarrow> None | ys \<Rightarrow> Some (length ys - 1))"

definition encode_compact_integer :: "u128 \<Rightarrow> bytes" where
  "encode_compact_integer v =
     (if v \<le> 0x3F then [push_bit 2 (ucast v)]
      else if v \<le> 0x3FFF then le_bytes 2 (push_bit 2 (ucast v) OR 1 :: u16)
      else if v \<le> 0x3FFFFFFF then le_bytes 4 (push_bit 2 (ucast v) OR 2 :: u32)
      else let bs = le_bytes 16 v;
               bytes_needed = (case rposition (\<lambda>b. b \<noteq> 0) bs of Some i \<Rightarrow> i + 1 | None \<Rightarrow> 1)
           in [3 OR push_bit 2 (of_nat (bytes_needed - 4))] @ take bytes_needed bs)"

definition encode_multi_address :: "bytes \<Rightarrow> bool \<Rightarrow> bytes" where
  "encode_multi_address a uses_multi_address = (if uses_multi_address then [MULTI_ADDRESS_ID] else []) @ a"

text \<open>\<open>u64::checked_next_power_of_two\<close> and \<open>u64::trailing_zeros\<close>.\<close>

definition checked_next_power_of_two :: "u64 \<Rightarrow> u64 option" where
  "checked_next_power_of_two v = List.find (\<lambda>p. v \<le> p) (map (\<lambda>k. push_bit k 1) [0..<64])"

definition trailing_zeros :: "u64 \<Rightarrow> nat" where
  "trailing_zeros v = length (takeWhile (\<lambda>i. \<not> bit v i) [0..<64])"

record mortal_era =
  era_period :: u64
  era_phase :: u64

definition new_mortal_era :: "u64 \<Rightarrow> u64 \<Rightarrow> mortal_era signer_result" where
  "new_mortal_era period block_number =
     (if period < MORTAL_ERA_MIN_PERIOD then invalid_input_err ''Polkadot mortal era period must be at least 4''
      else let period = min (max (case checked_next_power_of_two period of Some p \<Rightarrow> p | None \<Rightarrow> MORTAL_ERA_MAX_PERIOD)
                                 MORTAL_ERA_MIN_PERIOD) MORTAL_ERA_MAX_PERIOD;
               quantize_factor = max (drop_bit 12 period) 1;
               phase = block_number mod period div quantize_factor * quantize_factor
           in Ok \<lparr>era_period = period, era_phase = phase\<rparr>)"

definition encode_era :: "mortal_era \<Rightarrow> bytes" where
  "encode_era e =
     (let quantize_factor = max (drop_bit 12 (era_period e)) 1;
          encoded = (of_nat (min (max (trailing_zeros (era_period e) - 1) 1) 15) :: u16)
                      OR ucast (push_bit 4 (era_phase e div quantize_factor))
      in le_bytes 2 encoded)"

section \<open>The transfer extrinsic\<close>

record signing_fields =
  sf_spec_version :: u32
  sf_transaction_version :: u32
  sf_genesis_hash :: bytes
  sf_block_hash :: bytes

record transfer_parameters =
  tp_sequence :: u64
  tp_spec_version :: u32
  tp_era :: mortal_era
  tp_signing :: signing_fields

record native_transfer =
  nt_call :: bytes
  nt_extra :: bytes
  nt_signer :: bytes
  nt_multi :: bool
  nt_signing :: signing_fields

datatype signing_payload = RawPayload bytes | Blake2b256 bytes

definition checks_metadata :: "u32 \<Rightarrow> bool" where
  "checks_metadata spec_version \<longleftrightarrow> spec_version \<ge> CHECK_METADATA_MIN_SPEC_VERSION"

definition new_signing_payload :: "polkadot_lib \<Rightarrow> bytes \<Rightarrow> signing_payload" where
  "new_signing_payload L payload =
     (if length payload > MAX_UNHASHED_PAYLOAD_SIZE then Blake2b256 (dot_blake2b_256 L payload) else RawPayload payload)"

fun payload_ref :: "signing_payload \<Rightarrow> bytes" where
  "payload_ref (RawPayload p) = p"
| "payload_ref (Blake2b256 h) = h"

definition new_signing_fields :: "polkadot_lib \<Rightarrow> string \<Rightarrow> string \<Rightarrow> u32 \<Rightarrow> u64 \<Rightarrow> signing_fields signer_result" where
  "new_signing_fields L genesis_hash block_hash spec_version transaction_version =
     and_then (u32_try_from_display transaction_version) (\<lambda>tv.
     and_then (decode_hex_array (dot_hex_decode L) 32 genesis_hash) (\<lambda>gh.
     and_then (decode_hex_array (dot_hex_decode L) 32 block_hash) (\<lambda>bh.
     Ok \<lparr>sf_spec_version = spec_version, sf_transaction_version = tv, sf_genesis_hash = gh, sf_block_hash = bh\<rparr>)))"

definition transfer_parameters_from_input :: "polkadot_lib \<Rightarrow> 'a transaction_load_input_scheme \<Rightarrow> transfer_parameters signer_result" where
  "transfer_parameters_from_input L input =
     and_then (get_sequence (metadata input)) (\<lambda>sequence.
       case metadata input of
         PolkadotMeta _ genesis_hash block_hash block_number spec_version transaction_version period \<Rightarrow>
           and_then (u32_try_from_display spec_version) (\<lambda>spec_version.
           and_then (new_mortal_era period block_number) (\<lambda>era.
           and_then (new_signing_fields L genesis_hash block_hash spec_version transaction_version) (\<lambda>sf.
           Ok \<lparr>tp_sequence = sequence, tp_spec_version = spec_version, tp_era = era, tp_signing = sf\<rparr>)))
       | _ \<Rightarrow> invalid_input_err ''missing Polkadot metadata'')"

definition uses_multi_address :: "transfer_parameters \<Rightarrow> bool" where
  "uses_multi_address p \<longleftrightarrow> tp_spec_version p \<ge> MULTI_ADDRESS_MIN_SPEC_VERSION"

definition encode_extra :: "transfer_parameters \<Rightarrow> bytes" where
  "encode_extra p =
     encode_era (tp_era p) @ encode_compact_integer (ucast (tp_sequence p)) @ encode_compact_integer 0
       @ [CHARGE_ASSET_TRANSACTION_PAYMENT_NONE] @ (if checks_metadata (tp_spec_version p) then [0] else [])"

definition encode_call :: "bytes \<Rightarrow> u128 \<Rightarrow> bool \<Rightarrow> bytes" where
  "encode_call destination v multi =
     [BALANCES_MODULE_INDEX, TRANSFER_ALLOW_DEATH_METHOD_INDEX] @ encode_multi_address destination multi @ encode_compact_integer v"

definition native_transfer_from_input :: "polkadot_lib \<Rightarrow> 'a transaction_load_input_scheme \<Rightarrow> bytes \<Rightarrow> native_transfer signer_result" where
  "native_transfer_from_input L input signer_account_id =
     and_then (transfer_parameters_from_input L input) (\<lambda>parameters.
     and_then (dot_parse L (destination_address input)) (\<lambda>destination.
     and_then (ok_or (nat_to_u128 (input_value input)) (InvalidInput ''polkadot amount is too large'')) (\<lambda>v.
     let multi = uses_multi_address parameters
     in Ok \<lparr>nt_call = encode_call (account_id destination) v multi, nt_extra = encode_extra parameters,
            nt_signer = signer_account_id, nt_multi = multi, nt_signing = tp_signing parameters\<rparr>)))"

definition payload_bytes :: "native_transfer \<Rightarrow> bytes" where
  "payload_bytes t =
     (let sf = nt_signing t
      in nt_call t @ nt_extra t @ le_bytes 4 (sf_spec_version sf) @ le_bytes 4 (sf_transaction_version sf)
           @ sf_genesis_hash sf @ sf_block_hash sf @ (if checks_metadata (sf_spec_version sf) then [0] else []))"

definition signing_payload_encode :: "polkadot_lib \<Rightarrow> native_transfer \<Rightarrow> signing_payload" where
  "signing_payload_encode L t = new_signing_payload L (payload_bytes t)"

definition extrinsic_body :: "native_transfer \<Rightarrow> bytes \<Rightarrow> bytes" where
  "extrinsic_body t signature =
     [EXTRINSIC_VERSION_SIGNED] @ encode_multi_address (nt_signer t) (nt_multi t) @ [SIGNATURE_TYPE_ED25519] @ signature
       @ nt_extra t @ nt_call t"

definition native_transfer_encode :: "native_transfer \<Rightarrow> bytes \<Rightarrow> bytes" where
  "native_transfer_encode t signature =
     (let body = extrinsic_body t signature in encode_compact_integer (of_nat (length body)) @ body)"

definition native_transfer_encode_hex :: "polkadot_lib \<Rightarrow> native_transfer \<Rightarrow> bytes \<Rightarrow> string" where
  "native_transfer_encode_hex L t signature = ''0x'' @ dot_hex_encode L (native_transfer_encode t signature)"

definition fee_estimation_transaction_with_private_key :: "polkadot_lib \<Rightarrow> 'a transaction_load_input_scheme \<Rightarrow> bytes \<Rightarrow> string signer_result" where
  "fee_estimation_transaction_with_private_key L input private_key =
     and_then (ed25519_from_private_key (dot_keys L) private_key) (\<lambda>kp.
     and_then (native_transfer_from_input L input (public_key_bytes kp)) (\<lambda>t.
     Ok (native_transfer_encode_hex L t (ed25519_sign (dot_keys L) kp (payload_ref (signing_payload_encode L t))))))"

definition dot_sign_transaction :: "polkadot_lib \<Rightarrow> 'a transaction_load_input_scheme \<Rightarrow> bytes \<Rightarrow> string signer_result" where
  "dot_sign_transaction L input private_key =
     and_then (ed25519_from_private_key (dot_keys L) private_key) (\<lambda>kp.
     and_then (dot_parse L (sender_address input)) (\<lambda>sender.
     if account_id sender \<noteq> public_key_bytes kp then invalid_input_err ''Polkadot sender address does not match private key''
     else and_then (native_transfer_from_input L input (public_key_bytes kp)) (\<lambda>t.
          Ok (native_transfer_encode_hex L t (ed25519_sign (dot_keys L) kp (payload_ref (signing_payload_encode L t)))))))"

definition dot_sign_transfer :: "polkadot_lib \<Rightarrow> signer_input \<Rightarrow> bytes \<Rightarrow> string signer_result" where
  "dot_sign_transfer L input private_key = dot_sign_transaction L input private_key"

section \<open>Reading compact integers\<close>

text \<open>The SCALE reader of a compact integer: the two low bits of the first byte give the mode.\<close>

definition read_compact :: "bytes \<Rightarrow> (u128 \<times> bytes) option" where
  "read_compact bs = (case bs of
       [] \<Rightarrow> None
     | b # r \<Rightarrow>
         let mode = b AND 3; rd = map_option (\<lambda>(s, r). (drop_bit 2 (le_word s), r))
         in if mode = 0 then rd (take_n 1 bs)
            else if mode = 1 then rd (take_n 2 bs)
            else if mode = 2 then rd (take_n 4 bs)
            else map_option (\<lambda>(s, r). (le_word s, r)) (take_n (unat (drop_bit 2 b) + 4) r))"

lemma unat_lt_take_bit: "unat v < 2 ^ k \<Longrightarrow> take_bit k v = v" for v :: "'a::len word"
  by (simp add: word_unat_eq_iff unsigned_take_bit_eq take_bit_nat_eq_self)

lemma compact_value:
  fixes v m :: u128
  assumes "unat v < 2 ^ k" "k \<le> 126" "drop_bit 2 m = 0"
  shows "drop_bit 2 (take_bit (k + 2) (push_bit 2 v OR m)) = v"
proof (rule bit_word_eqI)
  fix n
  assume n: "n < LENGTH(128)"
  have m: "\<not> bit m (n + 2)" using bit_drop_bit_eq [of 2 m] unfolding assms(3) by (simp add: fun_eq_iff add.commute)
  have v: "bit v n \<longleftrightarrow> n < k \<and> bit v n" using unat_lt_take_bit [OF assms(1)] bit_take_bit_iff [of k v n] by simp
  have p: "n < k \<Longrightarrow> bit (push_bit 2 v) (n + 2) \<longleftrightarrow> bit v n" using assms(2) by (simp add: bit_push_bit_iff)
  show "bit (drop_bit 2 (take_bit (k + 2) (push_bit 2 v OR m))) n = bit v n"
    using m v p by (auto simp: bit_drop_bit_eq bit_take_bit_iff bit_or_iff add.commute [of 2 n])
qed

lemma compact_bytes:
  fixes v m :: u128
  assumes "8 * n \<le> LENGTH('b::len)" "LENGTH('b) \<le> 128"
  shows "le_bytes n (push_bit 2 (ucast v) OR ucast m :: 'b word) = le_bytes n (push_bit 2 v OR m)"
  using assms by (intro le_bytes_cong) (auto simp: bit_or_iff bit_push_bit_iff bit_ucast_iff)

lemma compact_mode:
  assumes "m = 0 \<or> m = 1 \<or> m = 2"
  shows "(ucast (push_bit 2 v OR m :: u128) :: u8) AND 3 = ucast m"
proof -
  have 3: "(3 :: u8) = mask 2" by (simp add: mask_eq_exp_minus_1)
  have u: "(ucast (push_bit 2 v OR m) :: u8) = push_bit 2 (ucast v) OR ucast m"
    by (rule bit_word_eqI) (auto simp: bit_or_iff bit_push_bit_iff bit_ucast_iff)
  have "take_bit 2 (push_bit 2 (ucast v :: u8)) = 0" by (simp add: take_bit_push_bit)
  moreover have "take_bit 2 (ucast m :: u8) = ucast m" using assms by auto
  ultimately show ?thesis unfolding 3 u by (simp add: and.commute [of _ "mask 2"] flip: take_bit_eq_mask)
qed

lemma read_compact_small:
  assumes "unat v < 2 ^ k" "k + 2 = 8 * Suc n" "k \<le> 126" "m = 0 \<and> n = 0 \<or> m = 1 \<and> n = 1 \<or> m = 2 \<and> n = 3"
  shows "read_compact (le_bytes (Suc n) (push_bit 2 v OR m) @ r) = Some (v, r)"
proof -
  let ?w = "push_bit 2 v OR m"
  have d: "drop_bit 2 m = 0" using assms(4) by auto
  have mode: "(ucast ?w :: u8) AND 3 = ucast m" using assms(4) by (intro compact_mode) auto
  have l: "take_n (Suc n) (le_bytes (Suc n) ?w @ r) = Some (le_bytes (Suc n) ?w, r)" by (intro take_n_append) simp
  have "drop_bit 2 (le_word (le_bytes (Suc n) ?w)) = v"
    unfolding le_word_le_bytes using compact_value [OF assms(1,3) d] assms(2) by simp
  then have rd: "map_option (\<lambda>(s, r). (drop_bit 2 (le_word s), r)) (take_n (Suc n) (le_bytes (Suc n) ?w @ r)) = Some (v, r)"
    unfolding l by simp
  have bs: "le_bytes (Suc n) ?w @ r = ucast ?w # le_bytes n (drop_bit 8 ?w) @ r" by simp
  have "read_compact (b # t) = map_option (\<lambda>(s, r). (drop_bit 2 (le_word s), r)) (take_n (Suc n) (b # t))" if "b AND 3 = ucast m" for b t
    unfolding read_compact_def list.case Let_def that using assms(4) by (elim disjE) (simp_all flip: numeral_2_eq_2)
  from this [OF mode] rd show ?thesis unfolding bs by simp
qed

lemma rposition_Some:
  assumes "\<exists>x\<in>set xs. p x"
  obtains i ys zs where "rposition p xs = Some i" "xs = ys @ zs" "length ys = i + 1" "list_all (\<lambda>x. \<not> p x) zs"
proof -
  define ds where "ds = dropWhile (\<lambda>x. \<not> p x) (rev xs)"
  have "ds \<noteq> []" using assms by (auto simp: ds_def)
  then have "rposition p xs = Some (length ds - 1)" unfolding rposition_def ds_def [symmetric] by (cases ds) simp_all
  moreover have "rev xs = takeWhile (\<lambda>x. \<not> p x) (rev xs) @ ds" by (simp add: ds_def)
  then have "xs = rev ds @ rev (takeWhile (\<lambda>x. \<not> p x) (rev xs))" by (metis rev_append rev_rev_ident)
  moreover have "list_all (\<lambda>x. \<not> p x) (rev (takeWhile (\<lambda>x. \<not> p x) (rev xs)))"
    by (auto simp: list_all_iff dest: set_takeWhileD)
  moreover have "length (rev ds) = length ds - 1 + 1" using \<open>ds \<noteq> []\<close> by (cases ds) simp_all
  ultimately show thesis using that by blast
qed

lemma le_word_zeros: "list_all (\<lambda>b. b = 0) zs \<Longrightarrow> le_word (xs @ zs) = (le_word xs :: u128)"
proof (induction xs)
  case Nil
  then show ?case by (induction zs) auto
qed simp

lemma bit_le_word: "bit (le_word xs :: u128) n \<Longrightarrow> n < 8 * length xs"
proof (induction xs arbitrary: n)
  case (Cons b xs)
  show ?case
  proof (cases "n < 8")
    case False
    then have "\<not> bit b n" using bit_imp_le_length [of b n] by auto
    then have "bit (le_word xs :: u128) (n - 8)" using Cons.prems by (auto simp: bit_or_iff bit_push_bit_iff bit_ucast_iff)
    from Cons.IH [OF this] show ?thesis by simp
  qed simp
qed simp

lemma unat_le_word: "unat (le_word xs :: u128) < 2 ^ (8 * length xs)"
proof -
  have "take_bit (8 * length xs) (le_word xs) = (le_word xs :: u128)"
    by (rule bit_word_eqI) (auto simp: bit_take_bit_iff dest: bit_le_word)
  then have "unat (le_word xs :: u128) = take_bit (8 * length xs) (unat (le_word xs :: u128))"
    by (metis unsigned_take_bit_eq)
  then show ?thesis using take_bit_nat_less_exp by metis
qed

definition compact_head :: "nat \<Rightarrow> u8" where "compact_head n = 3 OR push_bit 2 (of_nat (n - 4))"

lemma compact_head:
  assumes "4 \<le> n" "n \<le> 16"
  shows "compact_head n AND 3 = 3 \<and> unat (drop_bit 2 (compact_head n)) + 4 = n"
proof -
  have "list_all (\<lambda>n. compact_head n AND 3 = 3 \<and> unat (drop_bit 2 (compact_head n)) + 4 = n) [4..<17]" by code_simp
  then show ?thesis unfolding list_all_iff by (rule bspec) (simp only: set_upt atLeastLessThan_iff, use assms in linarith)
qed

lemma read_compact_big:
  assumes "2 ^ 30 \<le> unat v"
  shows "read_compact (encode_compact_integer v @ r) = Some (v, r)"
proof -
  let ?bs = "le_bytes 16 v"
  have v: "le_word ?bs = v" by (rule le_word_le_bytes_id) simp
  have "\<exists>b\<in>set ?bs. b \<noteq> 0"
  proof (rule ccontr)
    assume "\<not> ?thesis"
    then have "le_word ([] @ ?bs) = (le_word [] :: u128)" by (intro le_word_zeros) (auto simp: list_all_iff)
    then show False using v assms by simp
  qed
  then obtain i ys zs where r: "rposition (\<lambda>b. b \<noteq> 0) ?bs = Some i" "?bs = ys @ zs" "length ys = i + 1" "list_all (\<lambda>x. \<not> x \<noteq> 0) zs"
    by (rule rposition_Some)
  have ys: "le_word ys = v" using le_word_zeros [of zs ys] r(2,4) v by simp
  have n: "4 \<le> i + 1"
  proof (rule ccontr)
    assume "\<not> ?thesis"
    then have "unat v < 2 ^ (8 * length ys)" "length ys \<le> 3" using unat_le_word [of ys] ys r(3) by simp_all
    then have "unat v < 2 ^ 24" using power_increasing [of "8 * length ys" 24 "2::nat"] by linarith
    then show False using assms by simp
  qed
  have "i + 1 \<le> 16" using r(2,3) length_le_bytes [of 16 v] by (metis le_add1 length_append)
  note h = compact_head [OF n this]
  have big: "\<not> v \<le> 0x3F" "\<not> v \<le> 0x3FFF" "\<not> v \<le> 0x3FFFFFFF" using assms by (simp_all add: word_le_nat_alt)
  have "encode_compact_integer v = compact_head (i + 1) # ys"
    using big r by (simp add: encode_compact_integer_def Let_def compact_head_def)
  then show ?thesis using h r(3) ys by (simp add: read_compact_def Let_def)
qed

lemma read_compact_encode: "read_compact (encode_compact_integer v @ r) = Some (v, r)"
proof -
  consider "unat v < 2 ^ 6" | "2 ^ 6 \<le> unat v" "unat v < 2 ^ 14" | "2 ^ 14 \<le> unat v" "unat v < 2 ^ 30" | "2 ^ 30 \<le> unat v" by linarith
  then show ?thesis
  proof cases
    case 1
    then have "v \<le> 0x3F" by (simp add: word_le_nat_alt)
    then have "encode_compact_integer v = le_bytes (Suc 0) (push_bit 2 (ucast v) OR ucast (0 :: u128) :: u8)" by (simp add: encode_compact_integer_def)
    also have "\<dots> = le_bytes (Suc 0) (push_bit 2 v OR 0)" by (rule compact_bytes) simp_all
    finally show ?thesis using read_compact_small [OF 1, of 0 0 r] by simp
  next
    case 2
    then have "\<not> v \<le> 0x3F" "v \<le> 0x3FFF" by (simp_all add: word_le_nat_alt)
    then have "encode_compact_integer v = le_bytes 2 (push_bit 2 (ucast v) OR ucast (1 :: u128) :: u16)" by (simp add: encode_compact_integer_def)
    also have "\<dots> = le_bytes 2 (push_bit 2 v OR 1)" by (rule compact_bytes) simp_all
    finally show ?thesis using read_compact_small [OF 2(2), of 1 1 r] by (simp only: numeral_2_eq_2) simp
  next
    case 3
    then have "\<not> v \<le> 0x3F" "\<not> v \<le> 0x3FFF" "v \<le> 0x3FFFFFFF" by (simp_all add: word_le_nat_alt)
    then have "encode_compact_integer v = le_bytes 4 (push_bit 2 (ucast v) OR ucast (2 :: u128) :: u32)" by (simp add: encode_compact_integer_def)
    also have "\<dots> = le_bytes 4 (push_bit 2 v OR 2)" by (rule compact_bytes) simp_all
    finally show ?thesis using read_compact_small [OF 3(2), of 3 2 r] by simp
  next
    case 4
    then show ?thesis by (rule read_compact_big)
  qed
qed

section \<open>Mortal eras\<close>

text \<open>
  How the chain reads an era: the period and the phase from the two bytes, and the block at which the
  era that contains a given block begins.
\<close>

definition decode_era :: "u16 \<Rightarrow> nat \<times> nat" where
  "decode_era w = (let period = 2 ^ (unat (take_bit 4 w) + 1) in (period, unat (drop_bit 4 w) * max (period div 4096) 1))"

definition era_birth :: "nat \<times> nat \<Rightarrow> nat \<Rightarrow> nat" where
  "era_birth e current = (max current (snd e) - snd e) div fst e * fst e + snd e"

definition pow2 :: "nat \<Rightarrow> u64" where "pow2 k = push_bit k 1"

lemma unat_pow2: "k < 64 \<Longrightarrow> unat (pow2 k) = 2 ^ k"
proof -
  assume "k < 64"
  then have "(2 :: nat) ^ k < 2 ^ 64" by (intro power_strict_increasing) simp_all
  moreover have "pow2 k = of_nat (2 ^ k)" by (simp add: pow2_def push_bit_eq_mult)
  ultimately show ?thesis by (simp only: unat_of_nat take_bit_nat_eq_self) (simp add: take_bit_nat_eq_self)
qed

lemma trailing_zeros_pow2: "k < 64 \<Longrightarrow> trailing_zeros (pow2 k) = k"
proof -
  assume k: "k < 64"
  have b: "bit (pow2 k) i \<longleftrightarrow> i = k" for i using k unfolding pow2_def bit_push_bit_iff bit_1_iff by auto
  have "[0..<64] = [0..<k] @ k # [Suc k..<64]" using k upt_add_eq_append [of 0 k "64 - k"] upt_conv_Cons [of k 64] by simp
  moreover have "takeWhile (\<lambda>i. i \<noteq> k) ([0..<k] @ k # [Suc k..<64]) = [0..<k]" by (subst takeWhile_append2) auto
  ultimately show ?thesis unfolding trailing_zeros_def b by simp
qed

definition quantize :: "nat \<Rightarrow> nat" where "quantize k = max (2 ^ k div 4096) 1"

lemma unat_quantize: "k < 64 \<Longrightarrow> unat (max (drop_bit 12 (pow2 k)) 1) = quantize k"
proof -
  assume k: "k < 64"
  have "unat (drop_bit 12 (pow2 k)) = 2 ^ k div 4096" using unat_pow2 [OF k] by (simp add: drop_bit_eq_div unat_div)
  then show ?thesis by (simp add: max_def word_le_nat_alt quantize_def)
qed

lemma era_period_pow2:
  assumes "new_mortal_era p b = Ok e"
  obtains k where "2 \<le> k" "k \<le> 16" "era_period e = pow2 k" "unat p \<le> 2 ^ 16 \<Longrightarrow> unat p \<le> 2 ^ k \<and> 2 ^ k < 2 * unat p"
    "era_phase e = b mod pow2 k div max (drop_bit 12 (pow2 k)) 1 * max (drop_bit 12 (pow2 k)) 1"
proof -
  define c where "c = (case checked_next_power_of_two p of Some x \<Rightarrow> x | None \<Rightarrow> MORTAL_ERA_MAX_PERIOD)"
  define q where "q = min (max c MORTAL_ERA_MIN_PERIOD) MORTAL_ERA_MAX_PERIOD"
  have p4: "4 \<le> unat p" using assms
    by (auto simp: new_mortal_era_def invalid_input_err_def MORTAL_ERA_MIN_PERIOD_def word_less_nat_alt not_less split: if_splits)
  have e: "era_period e = q" "era_phase e = b mod q div max (drop_bit 12 q) 1 * max (drop_bit 12 q) 1"
    using assms unfolding new_mortal_era_def c_def [symmetric] by (auto simp: Let_def q_def invalid_input_err_def split: if_splits)
  have "\<exists>k. 2 \<le> k \<and> k \<le> 16 \<and> q = pow2 k \<and> (unat p \<le> 2 ^ 16 \<longrightarrow> unat p \<le> 2 ^ k \<and> 2 ^ k < 2 * unat p)"
  proof (cases "checked_next_power_of_two p")
    case None
    have "\<forall>k<64. \<not> p \<le> pow2 k" using None unfolding checked_next_power_of_two_def find_None_iff pow2_def by auto
    then have "\<not> p \<le> pow2 63" by simp
    then have "\<not> unat p \<le> 2 ^ 16" by (simp add: word_le_nat_alt unat_pow2)
    moreover have "q = pow2 16" unfolding q_def c_def None by (simp add: MORTAL_ERA_MIN_PERIOD_def MORTAL_ERA_MAX_PERIOD_def pow2_def)
    ultimately show ?thesis by (intro exI [of _ 16]) simp
  next
    case (Some x)
    then obtain k where k: "k < 64" "x = pow2 k" "p \<le> x" "\<forall>j<k. \<not> p \<le> pow2 j"
      unfolding checked_next_power_of_two_def find_Some_iff by (auto simp: pow2_def)
    have c: "c = pow2 k" unfolding c_def Some using k(2) by simp
    have le: "unat p \<le> 2 ^ k" using k by (simp add: word_le_nat_alt unat_pow2)
    then have k2: "2 \<le> k" using p4 by (cases "k < 2") (auto simp: less_2_cases_iff)
    then have "\<not> p \<le> pow2 (k - 1)" using k(4) by simp
    then have "2 ^ (k - 1) < unat p" using k(1) by (simp add: word_le_nat_alt unat_pow2)
    then have lt: "2 ^ k < 2 * unat p" using k2 by (cases k) simp_all
    have mono: "pow2 i \<le> pow2 j \<longleftrightarrow> i \<le> j" if "i < 64" "j < 64" for i j using that by (simp add: word_le_nat_alt unat_pow2)
    have m: "MORTAL_ERA_MIN_PERIOD = pow2 2" "MORTAL_ERA_MAX_PERIOD = pow2 16"
      by (simp_all add: MORTAL_ERA_MIN_PERIOD_def MORTAL_ERA_MAX_PERIOD_def pow2_def)
    have q: "q = pow2 (min k 16)" unfolding q_def c m using mono [of k 2] mono [of k 16] k2 k(1) by (auto simp: max_def min_def)
    have "k \<le> 16" if "unat p \<le> 2 ^ 16"
    proof (rule ccontr)
      assume "\<not> k \<le> 16"
      then have "\<not> p \<le> pow2 16" using k(4) by simp
      then show False using that by (simp add: word_le_nat_alt unat_pow2)
    qed
    then show ?thesis using q k2 le lt by (intro exI [of _ "min k 16"]) auto
  qed
  then show thesis using e that by auto
qed

lemma quantize_cases: "k \<le> 16 \<Longrightarrow> quantize k = (if k \<le> 12 then 1 else 2 ^ (k - 12))"
proof -
  assume "k \<le> 16"
  show ?thesis
  proof (cases "k \<le> 12")
    case True
    then have "(2 :: nat) ^ k \<le> 2 ^ 12" by (intro power_increasing) simp_all
    then have "(2 :: nat) ^ k div 4096 \<le> 1" using div_le_mono [of "2 ^ k" "2 ^ 12" "4096 :: nat"] by simp
    then show ?thesis using True by (simp add: quantize_def)
  next
    case False
    then have "(2 :: nat) ^ k = 2 ^ (k - 12) * 4096" using power_add [of "2 :: nat" "k - 12" 12] by simp
    then show ?thesis using False by (simp add: quantize_def)
  qed
qed

text \<open>What an era of a transaction is, as numbers.\<close>

lemma new_mortal_era_Ok:
  assumes "new_mortal_era p b = Ok e"
  obtains k where "2 \<le> k" "k \<le> 16" "era_period e = pow2 k" "unat p \<le> 2 ^ 16 \<Longrightarrow> unat p \<le> 2 ^ k \<and> 2 ^ k < 2 * unat p"
    "unat (era_phase e) = unat b mod 2 ^ k div quantize k * quantize k"
proof -
  obtain k where k: "2 \<le> k" "k \<le> 16" "era_period e = pow2 k" "unat p \<le> 2 ^ 16 \<Longrightarrow> unat p \<le> 2 ^ k \<and> 2 ^ k < 2 * unat p"
    "era_phase e = b mod pow2 k div max (drop_bit 12 (pow2 k)) 1 * max (drop_bit 12 (pow2 k)) 1"
    using era_period_pow2 [OF assms] by blast
  let ?c = "b mod pow2 k div max (drop_bit 12 (pow2 k)) 1" and ?q = "max (drop_bit 12 (pow2 k)) 1"
  have q: "unat ?q = quantize k" using k(2) by (intro unat_quantize) simp
  have c: "unat ?c = unat b mod 2 ^ k div quantize k" using k(2) unfolding unat_div unat_mod q by (simp add: unat_pow2)
  have "unat ?c * unat ?q \<le> unat b mod 2 ^ k" unfolding c q by simp
  also have "\<dots> \<le> unat b" by simp
  also have "\<dots> < 2 ^ LENGTH(64)" using unsigned_less [of b] by simp
  finally have "unat (?c * ?q) = unat ?c * unat ?q" by (simp only: unat_mult_lem)
  then show thesis using that [OF k(1-3)] k(4,5) c q by simp
qed

lemma decode_encode_era:
  assumes "new_mortal_era p b = Ok e"
  shows "decode_era (le_word (encode_era e)) = (unat (era_period e), unat (era_phase e))"
proof -
  from assms obtain k where k: "2 \<le> k" "k \<le> 16" "era_period e = pow2 k"
    "unat (era_phase e) = unat b mod 2 ^ k div quantize k * quantize k" by (rule new_mortal_era_Ok) blast
  let ?q = "max (drop_bit 12 (pow2 k)) 1"
  define c where "c = era_phase e div ?q"
  have q: "unat ?q = quantize k" "0 < quantize k" using k(2) unat_quantize [of k] by (simp_all add: quantize_def)
  have c: "unat c = unat b mod 2 ^ k div quantize k" unfolding c_def unat_div q(1) k(4) using q(2) by simp
  have "unat b mod 2 ^ k < quantize k * 2 ^ 12"
  proof (cases "k \<le> 12")
    case True
    have "unat b mod 2 ^ k < 2 ^ k" by simp
    also have "\<dots> \<le> 2 ^ 12" using True by (intro power_increasing) simp_all
    finally show ?thesis using True k(2) by (simp add: quantize_cases)
  next
    case False
    then have "(2 :: nat) ^ (k - 12) * 2 ^ 12 = 2 ^ k" using power_add [of "2 :: nat" "k - 12" 12] by simp
    moreover have "unat b mod 2 ^ k < 2 ^ k" by simp
    ultimately show ?thesis using False k(2) by (simp add: quantize_cases)
  qed
  then have c12: "unat c < 2 ^ 12" unfolding c by (simp add: less_mult_imp_div_less mult.commute)
  define w where "w = (of_nat (k - 1) :: u16) OR ucast (push_bit 4 c)"
  have "min (max (k - 1) 1) 15 = k - 1" using k(1,2) by simp
  then have enc: "encode_era e = le_bytes 2 w"
    unfolding encode_era_def Let_def k(3) c_def [symmetric] w_def using trailing_zeros_pow2 [of k] k(2) by simp
  have small: "unat (of_nat (k - 1) :: u16) = k - 1" using k(2) by (simp add: unat_of_nat take_bit_nat_eq_self)
  have t: "take_bit 4 (of_nat (k - 1) :: u16) = of_nat (k - 1)" using k(2) small by (intro unat_lt_take_bit) simp
  have u: "(ucast (push_bit 4 c) :: u16) = push_bit 4 (ucast c)"
    by (rule bit_word_eqI) (auto simp: bit_push_bit_iff bit_ucast_iff)
  have uc: "unat (ucast c :: u16) = unat c" using c12 by (simp add: unsigned_ucast_eq unsigned_take_bit_eq take_bit_nat_eq_self)
  have d: "drop_bit 4 (push_bit 4 (ucast c) :: u16) = ucast c"
  proof (rule bit_word_eqI)
    fix n
    have "bit (ucast c :: u16) n \<Longrightarrow> n < 12"
      using unat_lt_take_bit [of "ucast c :: u16" 12] uc c12 bit_take_bit_iff [of 12 "ucast c :: u16" n] by simp
    then show "bit (drop_bit 4 (push_bit 4 (ucast c) :: u16)) n = bit (ucast c :: u16) n"
      by (auto simp: bit_drop_bit_eq bit_push_bit_iff)
  qed
  have "take_bit 4 w = of_nat (k - 1)" unfolding w_def u take_bit_or t by (simp add: take_bit_push_bit)
  moreover have "drop_bit 4 w = ucast c"
    unfolding w_def u drop_bit_or d using t by (metis drop_bit_take_bit diff_self_eq_0 or.left_neutral take_bit_0)
  ultimately have "decode_era w = (2 ^ k, unat c * quantize k)"
    using k(1) small uc by (simp add: decode_era_def Let_def quantize_def)
  moreover have "le_word (encode_era e) = w" unfolding enc by (rule le_word_le_bytes_id) simp
  ultimately show ?thesis using k c unat_pow2 [of k] by simp
qed

lemma era_contains_block:
  assumes "new_mortal_era p b = Ok e" and d: "d = (unat (era_period e), unat (era_phase e))"
  shows "era_birth d (unat b) \<le> unat b \<and> unat b < era_birth d (unat b) + unat (era_period e)"
proof -
  from assms(1) obtain k where k: "2 \<le> k" "k \<le> 16" "era_period e = pow2 k"
    "unat (era_phase e) = unat b mod 2 ^ k div quantize k * quantize k" by (rule new_mortal_era_Ok) blast
  define n where "n = unat b"
  define h where "h = unat (era_phase e)"
  have per: "unat (era_period e) = 2 ^ k" using k unat_pow2 [of k] by simp
  have le: "h \<le> n mod 2 ^ k" using k(4) by (simp add: h_def n_def)
  then have "n - h = n div 2 ^ k * 2 ^ k + (n mod 2 ^ k - h)" using div_mult_mod_eq [of n "2 ^ k"] by linarith
  moreover have "n mod 2 ^ k - h < 2 ^ k" using mod_less_divisor [of "2 ^ k" n] by (simp add: less_imp_diff_less)
  ultimately have "(n - h) div 2 ^ k = n div 2 ^ k" by simp
  moreover have "h \<le> n" using le mod_less_eq_dividend [of n "2 ^ k"] by linarith
  ultimately have "era_birth d n = n div 2 ^ k * 2 ^ k + h" by (simp add: era_birth_def d per h_def [symmetric] max_def)
  then show ?thesis
    using le div_mult_mod_eq [of n "2 ^ k"] mod_less_divisor [of "2 ^ k" n] unfolding per n_def [symmetric] by (simp del: mod_less_divisor)
qed

section \<open>What the signed bytes determine\<close>

interpretation compact: prefix_code encode_compact_integer "\<lambda>_. True"
proof
  fix v w :: u128 and r s
  assume "encode_compact_integer v @ r = encode_compact_integer w @ s"
  from arg_cong [OF this, of read_compact] show "v = w \<and> r = s" unfolding read_compact_encode by simp
qed

lemma length_compact: "length (encode_compact_integer v) \<le> 17"
  by (auto simp: encode_compact_integer_def Let_def)

lemma length_encode_era [simp]: "length (encode_era e) = 2"
  by (simp add: encode_era_def Let_def)

lemma encode_era_inj:
  assumes "new_mortal_era p b = Ok e" "new_mortal_era p' b' = Ok e'" "encode_era e = encode_era e'"
  shows "e = e'"
proof -
  have "(unat (era_period e), unat (era_phase e)) = (unat (era_period e'), unat (era_phase e'))"
    using decode_encode_era [OF assms(1)] decode_encode_era [OF assms(2)] assms(3) by simp
  then show ?thesis by (intro mortal_era.equality) (simp_all add: word_unat_eq_iff)
qed

definition parameters_ok :: "transfer_parameters \<Rightarrow> bool" where
  "parameters_ok p \<longleftrightarrow> length (sf_genesis_hash (tp_signing p)) = 32 \<and> length (sf_block_hash (tp_signing p)) = 32
     \<and> sf_spec_version (tp_signing p) = tp_spec_version p \<and> (\<exists>q b. new_mortal_era q b = Ok (tp_era p))"

lemma decode_hex_array_length: "decode_hex_array h n s = Ok b \<Longrightarrow> length b = n"
  by (auto simp: decode_hex_array_def and_then_Inr_iff invalid_input_err_def split: if_splits)

lemma transfer_parameters_ok:
  "transfer_parameters_from_input L i = Ok p \<Longrightarrow> parameters_ok p \<and> get_sequence (metadata i) = Ok (tp_sequence p)"
  by (cases "metadata i")
    (auto simp: transfer_parameters_from_input_def new_signing_fields_def parameters_ok_def and_then_Inr_iff invalid_input_err_def
      dest: decode_hex_array_length, blast)

lemma dot_parse_length: "dot_parse L v = Ok a \<Longrightarrow> length (account_id a) = 32"
  by (auto simp: dot_parse_def dot_try_parse_def ok_or_Inr_iff ADDRESS_LENGTH_def ADDRESS_DATA_LENGTH_def ADDRESS_CHECKSUM_LENGTH_def
      split: option.splits if_splits)

lemma native_transfer_Ok:
  assumes "native_transfer_from_input L i k = Ok t"
  obtains p d v where "transfer_parameters_from_input L i = Ok p" "dot_parse L (destination_address i) = Ok d"
    "input_value i < 2 ^ 128" "v = of_nat (input_value i)"
    "t = \<lparr>nt_call = encode_call (account_id d) v (uses_multi_address p), nt_extra = encode_extra p, nt_signer = k,
          nt_multi = uses_multi_address p, nt_signing = tp_signing p\<rparr>"
  using assms by (auto simp: native_transfer_from_input_def and_then_Inr_iff ok_or_Inr_iff nat_to_u128_def Let_def split: if_splits)

text \<open>The payload is always short enough to be signed as it is: at most 142 bytes.\<close>

lemma payload_length:
  assumes "native_transfer_from_input L i k = Ok t"
  shows "length (payload_bytes t) \<le> 256"
proof -
  obtain p d v where o: "transfer_parameters_from_input L i = Ok p" "dot_parse L (destination_address i) = Ok d"
    "t = \<lparr>nt_call = encode_call (account_id d) v (uses_multi_address p), nt_extra = encode_extra p, nt_signer = k,
          nt_multi = uses_multi_address p, nt_signing = tp_signing p\<rparr>" using assms by (rule native_transfer_Ok)
  have "length (account_id d) = 32" using o(2) by (rule dot_parse_length)
  moreover have "length (sf_genesis_hash (tp_signing p)) = 32" "length (sf_block_hash (tp_signing p)) = 32"
    using transfer_parameters_ok [OF o(1)] by (simp_all add: parameters_ok_def)
  ultimately show ?thesis
    using length_compact [of v] length_compact [of "ucast (tp_sequence p)"] length_compact [of 0] unfolding o(3)
    by (simp add: payload_bytes_def encode_call_def encode_extra_def encode_multi_address_def Let_def)
qed

lemma payload_raw:
  "native_transfer_from_input L i k = Ok t \<Longrightarrow> payload_ref (signing_payload_encode L t) = payload_bytes t"
  using payload_length [of L i k t] by (simp add: signing_payload_encode_def new_signing_payload_def MAX_UNHASHED_PAYLOAD_SIZE_def)

text \<open>
  The runtime version selects the layout of the extrinsic: whether an account is prefixed with the kind of address,
  and whether the metadata check has its two bytes.
\<close>

definition extrinsic_format :: "transfer_parameters \<Rightarrow> bool \<times> bool" where
  "extrinsic_format p = (uses_multi_address p, checks_metadata (tp_spec_version p))"

lemma ucast_u64_u128_inj: "(ucast (a :: u64) :: u128) = ucast b \<Longrightarrow> a = b"
proof -
  assume "(ucast a :: u128) = ucast b"
  then have "unat (ucast a :: u128) = unat (ucast b :: u128)" by simp
  moreover have "unat (ucast x :: u128) = unat x" for x :: u64
  proof -
    have "unat x < 2 ^ 64" using unsigned_less [of x] by simp
    then show ?thesis by (simp add: unsigned_ucast_eq unsigned_take_bit_eq take_bit_nat_eq_self)
  qed
  ultimately show "a = b" by (simp add: word_unat_eq_iff)
qed

lemma payload_bytes_bind:
  assumes p: "parameters_ok p" "parameters_ok p'" "extrinsic_format p = extrinsic_format p'"
    and d: "length d = 32" "length d' = 32"
    and t: "t = \<lparr>nt_call = encode_call d v (uses_multi_address p), nt_extra = encode_extra p, nt_signer = k,
          nt_multi = uses_multi_address p, nt_signing = tp_signing p\<rparr>"
    and t': "t' = \<lparr>nt_call = encode_call d' v' (uses_multi_address p'), nt_extra = encode_extra p', nt_signer = k',
          nt_multi = uses_multi_address p', nt_signing = tp_signing p'\<rparr>"
    and e: "payload_bytes t = payload_bytes t'"
  shows "d = d' \<and> v = v' \<and> p = p'"
proof -
  have m: "uses_multi_address p = uses_multi_address p'" using p(3) by (simp add: extrinsic_format_def)
  define z where "z p = (if checks_metadata (tp_spec_version p) then [0 :: u8] else [])" for p :: transfer_parameters
  define r3 where "r3 p = le_bytes 4 (sf_transaction_version (tp_signing p)) @ sf_genesis_hash (tp_signing p)
      @ sf_block_hash (tp_signing p) @ z p" for p :: transfer_parameters
  define r2 where "r2 p = (encode_compact_integer 0 @ [CHARGE_ASSET_TRANSACTION_PAYMENT_NONE] @ z p) @ le_bytes 4 (tp_spec_version p) @ r3 p" for p :: transfer_parameters
  define r1 where "r1 p = encode_compact_integer (ucast (tp_sequence p)) @ r2 p" for p :: transfer_parameters
  have "d @ encode_compact_integer v @ encode_era (tp_era p) @ r1 p = d' @ encode_compact_integer v' @ encode_era (tp_era p') @ r1 p'"
    using e p(1,2) m unfolding t t' r1_def r2_def r3_def z_def
    by (auto simp: payload_bytes_def encode_call_def encode_extra_def encode_multi_address_def Let_def parameters_ok_def)
  from append_inj [OF _ this] d have
    1: "d = d'" "encode_compact_integer v @ encode_era (tp_era p) @ r1 p = encode_compact_integer v' @ encode_era (tp_era p') @ r1 p'" by simp_all
  note 2 = compact.enc_inj [OF TrueI TrueI 1(2)]
  from append_inj [OF _ conjunct2 [OF 2]] have 3: "encode_era (tp_era p) = encode_era (tp_era p')" "r1 p = r1 p'" by simp_all
  have era: "tp_era p = tp_era p'" using encode_era_inj 3(1) p(1,2) unfolding parameters_ok_def by blast
  note 4 = compact.enc_inj [OF TrueI TrueI 3(2) [unfolded r1_def]]
  have seq: "tp_sequence p = tp_sequence p'" using 4 ucast_u64_u128_inj by blast
  have "le_bytes 4 (tp_spec_version p) @ r3 p = le_bytes 4 (tp_spec_version p') @ r3 p'"
    using conjunct2 [OF 4] p(3) by (simp add: r2_def z_def extrinsic_format_def)
  note spec = le_u32.enc_inj [OF TrueI TrueI this]
  note 5 = le_u32.enc_inj [OF TrueI TrueI conjunct2 [OF spec, unfolded r3_def]]
  have h: "length (sf_genesis_hash (tp_signing p)) = length (sf_genesis_hash (tp_signing p'))"
      "length (sf_block_hash (tp_signing p)) = length (sf_block_hash (tp_signing p'))" using p(1,2) by (simp_all add: parameters_ok_def)
  note 6 = append_inj [OF h(1) conjunct2 [OF 5]]
  note 7 = append_inj [OF h(2) conjunct2 [OF 6]]
  have "tp_signing p = tp_signing p'"
    using 5 6 7 p spec by (intro signing_fields.equality) (simp_all add: parameters_ok_def)
  then show ?thesis using 1(1) 2 era seq spec by (simp add: transfer_parameters.equality)
qed

text \<open>The transfer of given parameters, and the signer of one layout as a binding signer.\<close>

definition transfer_of :: "transfer_parameters \<Rightarrow> bytes \<Rightarrow> u128 \<Rightarrow> bytes \<Rightarrow> native_transfer" where
  "transfer_of p d v k = \<lparr>nt_call = encode_call d v (uses_multi_address p), nt_extra = encode_extra p, nt_signer = k,
     nt_multi = uses_multi_address p, nt_signing = tp_signing p\<rparr>"

interpretation polkadot_signer: binding_signer
  "\<lambda>(p, d, v). parameters_ok p \<and> length d = 32 \<and> extrinsic_format p = fmt" "\<lambda>(p, d, v). payload_bytes (transfer_of p d v k)" "\<lambda>x. x"
  for fmt k
proof (rule binding_signer.intro)
  fix x y :: "transfer_parameters \<times> bytes \<times> u128"
  assume ok: "case x of (p, d, v) \<Rightarrow> parameters_ok p \<and> length d = 32 \<and> extrinsic_format p = fmt"
    "case y of (p, d, v) \<Rightarrow> parameters_ok p \<and> length d = 32 \<and> extrinsic_format p = fmt"
    and eq: "(case x of (p, d, v) \<Rightarrow> payload_bytes (transfer_of p d v k)) = (case y of (p, d, v) \<Rightarrow> payload_bytes (transfer_of p d v k))"
  obtain p d v p' d' v' where xy: "x = (p, d, v)" "y = (p', d', v')" by (cases x, cases y) auto
  have "parameters_ok p" "parameters_ok p'" "extrinsic_format p = extrinsic_format p'" "length d = 32" "length d' = 32"
    "payload_bytes (transfer_of p d v k) = payload_bytes (transfer_of p' d' v' k)"
    using ok eq xy by simp_all
  from payload_bytes_bind [OF this(1-5) transfer_of_def transfer_of_def this(6)] show "x = y" using xy by simp
qed

text \<open>
  C38: What is signed for a Polkadot transfer is the payload itself and never its hash, and it determines the
  transfer: for two requests whose runtime versions have the same layout of the extrinsic (both from the
  version with address kinds on or both before it, and the same for the metadata check), equal signed bytes
  mean the same destination account, amount, sequence number, mortal era, spec version, transaction version,
  genesis hash and block hash.
\<close>

theorem polkadot_payload_binds:
  assumes "native_transfer_from_input L i k = Ok t" "native_transfer_from_input L i' k' = Ok t'"
    and "transfer_parameters_from_input L i = Ok p" "transfer_parameters_from_input L i' = Ok p'"
    and "uses_multi_address p = uses_multi_address p'"
    and "checks_metadata (tp_spec_version p) = checks_metadata (tp_spec_version p')"
    and "payload_ref (signing_payload_encode L t) = payload_ref (signing_payload_encode L t')"
  shows "payload_ref (signing_payload_encode L t) = payload_bytes t
     \<and> dot_parse L (destination_address i) = dot_parse L (destination_address i') \<and> input_value i = input_value i'
     \<and> tp_sequence p = tp_sequence p' \<and> tp_era p = tp_era p' \<and> tp_spec_version p = tp_spec_version p'
     \<and> sf_transaction_version (tp_signing p) = sf_transaction_version (tp_signing p')
     \<and> sf_genesis_hash (tp_signing p) = sf_genesis_hash (tp_signing p')
     \<and> sf_block_hash (tp_signing p) = sf_block_hash (tp_signing p')"
proof -
  obtain d v where o: "dot_parse L (destination_address i) = Ok d" "input_value i < 2 ^ 128" "v = of_nat (input_value i)"
      "t = \<lparr>nt_call = encode_call (account_id d) v (uses_multi_address p), nt_extra = encode_extra p, nt_signer = k,
          nt_multi = uses_multi_address p, nt_signing = tp_signing p\<rparr>"
    using assms(1,3) by (auto elim: native_transfer_Ok)
  obtain d' v' where o': "dot_parse L (destination_address i') = Ok d'" "input_value i' < 2 ^ 128" "v' = of_nat (input_value i')"
      "t' = \<lparr>nt_call = encode_call (account_id d') v' (uses_multi_address p'), nt_extra = encode_extra p', nt_signer = k',
          nt_multi = uses_multi_address p', nt_signing = tp_signing p'\<rparr>"
    using assms(2,4) by (auto elim: native_transfer_Ok)
  have "payload_bytes t = payload_bytes t'" using assms(7) payload_raw [OF assms(1)] payload_raw [OF assms(2)] by simp
  then have "(p, account_id d, v) = (p', account_id d', v')"
    using polkadot_signer.message_binds [of "extrinsic_format p" "(p, account_id d, v)" "(p', account_id d', v')" k]
      transfer_parameters_ok [OF assms(3)] transfer_parameters_ok [OF assms(4)] assms(5,6)
      dot_parse_length [OF o(1)] dot_parse_length [OF o'(1)]
    by (simp add: o(4) o'(4) transfer_of_def payload_bytes_def extrinsic_format_def)
  then have eq: "account_id d = account_id d'" "v = v'" "p = p'" by simp_all
  have "unat v = input_value i" "unat v' = input_value i'" using o(2,3) o'(2,3) by (simp_all add: unat_of_nat take_bit_nat_eq_self)
  then show ?thesis using eq o(1) o'(1) payload_raw [OF assms(1)] by (simp add: polkadot_address.equality)
qed

text \<open>
  A transfer the Polkadot signer accepts is sent as one well-formed extrinsic: the text is \<open>0x\<close> and the
  hexadecimal form of a compact length followed by exactly that many bytes, which hold the version byte,
  the account of the signing key (and the sender address is that account), the signature of the payload
  under this key, the extra data and the call.
\<close>

theorem polkadot_signed_extrinsic:
  assumes "dot_sign_transfer L i k = Ok s" and "\<And>m. length (signing_key_sign (dot_keys L) k m) = 64"
    and "length (verifying_key (dot_keys L) k) = 32"
  shows "\<exists>t x body. native_transfer_from_input L i (verifying_key (dot_keys L) k) = Ok t \<and> s = ''0x'' @ dot_hex_encode L x
     \<and> body = extrinsic_body t (signing_key_sign (dot_keys L) k (payload_bytes t))
     \<and> read_compact x = Some (of_nat (length body), body) \<and> length body < 2 ^ 8
     \<and> dot_parse L (sender_address i) = Ok \<lparr>account_id = verifying_key (dot_keys L) k\<rparr>"
proof -
  let ?pk = "verifying_key (dot_keys L) k"
  obtain t a where t: "native_transfer_from_input L i ?pk = Ok t" and a: "dot_parse L (sender_address i) = Ok a" "account_id a = ?pk"
      and s: "s = native_transfer_encode_hex L t (signing_key_sign (dot_keys L) k (payload_ref (signing_payload_encode L t)))"
    using assms(1) by (auto simp: dot_sign_transfer_def dot_sign_transaction_def and_then_Inr_iff ed25519_from_private_key_Ok
        ed25519_sign_def invalid_input_err_def split: if_splits)
  define body where "body = extrinsic_body t (signing_key_sign (dot_keys L) k (payload_bytes t))"
  obtain p d v where o: "dot_parse L (destination_address i) = Ok d"
      "t = \<lparr>nt_call = encode_call (account_id d) v (uses_multi_address p), nt_extra = encode_extra p, nt_signer = ?pk,
          nt_multi = uses_multi_address p, nt_signing = tp_signing p\<rparr>" using t by (rule native_transfer_Ok)
  have "length body < 2 ^ 8"
    using length_compact [of v] length_compact [of "ucast (tp_sequence p)"] length_compact [of 0] dot_parse_length [OF o(1)] assms(2,3)
    unfolding body_def o(2) by (simp add: extrinsic_body_def encode_call_def encode_extra_def encode_multi_address_def)
  moreover have "s = ''0x'' @ dot_hex_encode L (encode_compact_integer (of_nat (length body)) @ body)"
    unfolding s payload_raw [OF t] by (simp add: native_transfer_encode_hex_def native_transfer_encode_def body_def Let_def)
  moreover have "a = \<lparr>account_id = ?pk\<rparr>" using a(2) by (cases a) simp
  ultimately show ?thesis using t a(1) read_compact_encode [of "of_nat (length body)" body] body_def by blast
qed

text \<open>
  The mortal era of a Polkadot transaction is the one the chain reads back from its two bytes, its period is the
  least power of two that is not below the requested period (up to 65536 blocks), and the block the transaction
  was built at lies inside the era, so that a transaction is never born expired.
\<close>

theorem polkadot_era_window:
  assumes "new_mortal_era period block_number = Ok e" "d = decode_era (le_word (encode_era e))"
  shows "d = (unat (era_period e), unat (era_phase e))
     \<and> (unat period \<le> 2 ^ 16 \<longrightarrow> unat period \<le> fst d \<and> fst d < 2 * unat period) \<and> (\<exists>k\<le>16. fst d = 2 ^ k)
     \<and> era_birth d (unat block_number) \<le> unat block_number \<and> unat block_number < era_birth d (unat block_number) + fst d"
proof -
  have d: "d = (unat (era_period e), unat (era_phase e))" unfolding assms(2) by (rule decode_encode_era [OF assms(1)])
  obtain k where k: "k \<le> 16" "era_period e = pow2 k" "unat period \<le> 2 ^ 16 \<Longrightarrow> unat period \<le> 2 ^ k \<and> 2 ^ k < 2 * unat period"
    using new_mortal_era_Ok [OF assms(1)] by metis
  have "fst d = 2 ^ k" using d k(1,2) unat_pow2 [of k] by simp
  then show ?thesis using d k(1,3) era_contains_block [OF assms(1) d] by auto
qed

section \<open>Witnesses\<close>

definition demo_dot :: polkadot_lib where
  "demo_dot = \<lparr>dot_bs58_decode = (\<lambda>s. Some ([0] @ as_bytes s @ [1, 2])), dot_bs58_encode = from_bytes, dot_blake2b_512 = (\<lambda>_. [1, 2]),
     dot_blake2b_256 = take 32, dot_hex_encode = from_bytes, dot_hex_decode = (\<lambda>_. Some (replicate 32 5)),
     dot_keys = \<lparr>verifying_key = (\<lambda>k. k), signing_key_sign = (\<lambda>k d. take 64 (k @ d @ replicate 64 0))\<rparr>\<rparr>"

definition demo_dot_input :: "nat \<Rightarrow> u64 \<Rightarrow> signer_input" where
  "demo_dot_input v spec = \<lparr>input_type = TransferInput \<lparr>asset_ident = \<lparr>asset_chain = chain.Polkadot, token_id = None\<rparr>,
       asset_symbol = ''DOT'', asset_decimals = 10\<rparr>,
     sender_address = replicate 32 (CHR ''a''), destination_address = replicate 32 (CHR ''b''), input_value = v, load_gas_price = Regular 1,
     memo = None, is_max_value = False, metadata = PolkadotMeta 7 ''0x05'' ''0x05'' 100 spec 26 64,
     input_fee = \<lparr>fee_total = 1, gas_price_type = Regular 1, fee_gas_limit = 0, fee_options = Map.empty\<rparr>\<rparr>"

lemma demo_dot_era: "new_mortal_era 64 100 = Ok \<lparr>era_period = 64, era_phase = 36\<rparr>"
proof -
  have "checked_next_power_of_two 64 = Some 64" by (simp add: checked_next_power_of_two_def upt_conv_Cons word_le_nat_alt)
  then show ?thesis by (simp add: new_mortal_era_def MORTAL_ERA_MIN_PERIOD_def MORTAL_ERA_MAX_PERIOD_def Let_def)
qed

lemma demo_dot_hash: "decode_hex_array (dot_hex_decode demo_dot) 32 ''0x05'' = Ok (replicate 32 5)"
  by code_simp

lemma demo_dot_parse: "length a = 32 \<Longrightarrow> dot_parse demo_dot a = Ok \<lparr>account_id = as_bytes a\<rparr>"
  by (simp add: dot_parse_def dot_try_parse_def dot_checksum_def demo_dot_def ADDRESS_MAX_STRING_LENGTH_def ADDRESS_LENGTH_def
      ADDRESS_DATA_LENGTH_def ADDRESS_CHECKSUM_LENGTH_def POLKADOT_PREFIX_def)

lemma demo_dot_parameters:
  assumes "unat spec < 2 ^ 32"
  shows "\<exists>p. transfer_parameters_from_input demo_dot (demo_dot_input v spec) = Ok p \<and> tp_spec_version p = ucast spec"
  using assms by (simp add: transfer_parameters_from_input_def new_signing_fields_def demo_dot_input_def get_sequence_def
      u32_try_from_display_def u32_try_from_def demo_dot_era demo_dot_hash)

lemma demo_dot_transfer:
  assumes "v < 2 ^ 128" "unat spec < 2 ^ 32"
  shows "\<exists>t. native_transfer_from_input demo_dot (demo_dot_input v spec) k = Ok t"
proof -
  obtain p where "transfer_parameters_from_input demo_dot (demo_dot_input v spec) = Ok p" using demo_dot_parameters assms(2) by blast
  then show ?thesis using assms(1)
    by (simp add: native_transfer_from_input_def demo_dot_input_def demo_dot_parse nat_to_u128_def Let_def)
qed

theorem polkadot_payload_binds_witness:
  "\<exists>t t'. native_transfer_from_input demo_dot (demo_dot_input 5 1002006) [] = Ok t
     \<and> native_transfer_from_input demo_dot (demo_dot_input 5 1003000) [] = Ok t'
     \<and> payload_ref (signing_payload_encode demo_dot t) \<noteq> payload_ref (signing_payload_encode demo_dot t')"
proof -
  obtain p p' where p: "transfer_parameters_from_input demo_dot (demo_dot_input 5 1002006) = Ok p" "tp_spec_version p = 1002006"
      "transfer_parameters_from_input demo_dot (demo_dot_input 5 1003000) = Ok p'" "tp_spec_version p' = 1003000"
    using demo_dot_parameters [of 1002006 5] demo_dot_parameters [of 1003000 5] by auto
  obtain t t' where t: "native_transfer_from_input demo_dot (demo_dot_input 5 1002006) [] = Ok t"
      "native_transfer_from_input demo_dot (demo_dot_input 5 1003000) [] = Ok t'"
    using demo_dot_transfer [of 5 1002006 "[]"] demo_dot_transfer [of 5 1003000 "[]"] by auto
  have "uses_multi_address p = uses_multi_address p'" "checks_metadata (tp_spec_version p) = checks_metadata (tp_spec_version p')"
    by (simp_all add: uses_multi_address_def checks_metadata_def p MULTI_ADDRESS_MIN_SPEC_VERSION_def CHECK_METADATA_MIN_SPEC_VERSION_def)
  from polkadot_payload_binds [OF t p(1,3) this] show ?thesis using t p(2,4) by auto
qed

theorem polkadot_signed_extrinsic_witness:
  "\<exists>s t x body. dot_sign_transfer demo_dot (demo_dot_input 5 1002006) (replicate 32 0x61) = Ok s \<and> s = ''0x'' @ dot_hex_encode demo_dot x
     \<and> body = extrinsic_body t (signing_key_sign (dot_keys demo_dot) (replicate 32 0x61) (payload_bytes t))
     \<and> read_compact x = Some (of_nat (length body), body)"
proof -
  have k: "dot_keys demo_dot = \<lparr>verifying_key = (\<lambda>k. k), signing_key_sign = (\<lambda>k d. take 64 (k @ d @ replicate 64 0))\<rparr>" by (simp add: demo_dot_def)
  have a: "dot_parse demo_dot (sender_address (demo_dot_input 5 1002006)) = Ok \<lparr>account_id = replicate 32 0x61\<rparr>"
    using demo_dot_parse [of "replicate 32 (CHR ''a'')"] by (simp add: demo_dot_input_def as_bytes_def)
  obtain t where "native_transfer_from_input demo_dot (demo_dot_input 5 1002006) (replicate 32 0x61) = Ok t"
    using demo_dot_transfer [of 5 1002006 "replicate 32 0x61"] by auto
  then obtain s where s: "dot_sign_transfer demo_dot (demo_dot_input 5 1002006) (replicate 32 0x61) = Ok s"
    using a by (simp add: dot_sign_transfer_def dot_sign_transaction_def ed25519_from_private_key_def k)
  have "length (signing_key_sign (dot_keys demo_dot) (replicate 32 0x61) m) = 64" for m by (simp add: k)
  from polkadot_signed_extrinsic [OF s this] s show ?thesis by (auto simp: k)
qed

theorem polkadot_era_window_witness:
  "\<exists>e. new_mortal_era 64 100 = Ok e \<and> decode_era (le_word (encode_era e)) = (unat (era_period e), unat (era_phase e))
     \<and> era_birth (decode_era (le_word (encode_era e))) 100 \<le> 100"
  using polkadot_era_window [OF demo_dot_era refl] demo_dot_era by auto

end
