(* ===== verification/Xrp.thy ===== *)
theory Xrp
  imports Ed25519
begin

unbundle bit_operations_syntax

text \<open>
  The XRP Ledger signer of \<open>core/crates/gem_xrp\<close>: classic addresses (\<open>address.rs\<close>), native and issued
  amounts (\<open>signer/amount.rs\<close>), the binary form of payments and trust lines (\<open>signer/transaction.rs\<close>) and the
  entry points (\<open>signer/chain_signer.rs\<close>). Base58, the hashes, the curve and the arithmetic of the \<open>bigdecimal\<close>
  crate are arguments; the integers of a normalised decimal are the two numbers the code reads from it.
\<close>

section \<open>Addresses\<close>

record 'd xrp_lib =
  xrp_bs58_decode :: "string \<Rightarrow> bytes option"
  xrp_bs58_encode :: "bytes \<Rightarrow> string"
  xrp_hex_decode :: "string \<Rightarrow> bytes option"
  xrp_hex_encode :: "bytes \<Rightarrow> string"
  sha512_half :: "bytes \<Rightarrow> bytes"
  xrp_ed :: ed_keys
  xrp_secp :: secp_keys
  bd_from_str :: "string \<Rightarrow> 'd option"
  bd_is_zero :: "'d \<Rightarrow> bool"
  bd_normalized :: "'d \<Rightarrow> int \<times> int"
  bd_from_int :: "int \<Rightarrow> 'd"
  bd_div :: "'d \<Rightarrow> 'd \<Rightarrow> 'd"
  bd_to_string :: "'d \<Rightarrow> string"

definition CLASSIC_PUBLIC_KEY_HASH_LENGTH :: nat where "CLASSIC_PUBLIC_KEY_HASH_LENGTH = 20"
definition CLASSIC_ADDRESS_LENGTH :: nat where "CLASSIC_ADDRESS_LENGTH = CLASSIC_PUBLIC_KEY_HASH_LENGTH + 1"
definition CLASSIC_PREFIX :: u8 where "CLASSIC_PREFIX = 0x00"

record xrp_address = xrp_hash :: bytes

text \<open>\<open>xrp_bs58_decode\<close> is base58 with the Ripple alphabet, the check sum and the version byte \<open>CLASSIC_PREFIX\<close> verified.\<close>

definition xrp_try_parse :: "'d xrp_lib \<Rightarrow> string \<Rightarrow> xrp_address option" where
  "xrp_try_parse L v =
     (case xrp_bs58_decode L v of
        None \<Rightarrow> None
      | Some decoded \<Rightarrow> if length decoded \<noteq> CLASSIC_ADDRESS_LENGTH then None else Some \<lparr>xrp_hash = drop 1 decoded\<rparr>)"

definition xrp_encode_address :: "'d xrp_lib \<Rightarrow> xrp_address \<Rightarrow> string" where
  "xrp_encode_address L a = xrp_bs58_encode L ([CLASSIC_PREFIX] @ xrp_hash a)"

definition xrp_from_public_key_hash :: "bytes \<Rightarrow> xrp_address" where
  "xrp_from_public_key_hash h = \<lparr>xrp_hash = h\<rparr>"

definition xrp_parse :: "'d xrp_lib \<Rightarrow> string \<Rightarrow> xrp_address signer_result" where
  "xrp_parse L v = ok_or (xrp_try_parse L v) (InvalidInput ''invalid XRP classic address'')"

definition xrp_validate_address :: "'d xrp_lib \<Rightarrow> string \<Rightarrow> bool" where
  "xrp_validate_address L a \<longleftrightarrow> xrp_try_parse L a \<noteq> None"

section \<open>Amounts\<close>

definition POS_SIGN_BIT_MASK :: u64 where "POS_SIGN_BIT_MASK = 0x4000000000000000"
definition ISSUED_CURRENCY_ZERO :: u64 where "ISSUED_CURRENCY_ZERO = 0x8000000000000000"
definition MIN_MANTISSA :: nat where "MIN_MANTISSA = 1000000000000000"
definition MAX_MANTISSA :: nat where "MAX_MANTISSA = 9999999999999999"
definition MIN_IOU_EXPONENT :: int where "MIN_IOU_EXPONENT = -96"
definition MAX_IOU_EXPONENT :: int where "MAX_IOU_EXPONENT = 80"
definition MAX_IOU_PRECISION :: nat where "MAX_IOU_PRECISION = 16"
definition MAX_DROPS :: u64 where "MAX_DROPS = 100000000000000000"
definition CURRENCY_CODE_LENGTH :: nat where "CURRENCY_CODE_LENGTH = 20"
definition STANDARD_CURRENCY_CODE_LENGTH :: nat where "STANDARD_CURRENCY_CODE_LENGTH = 3"
definition STANDARD_CURRENCY_CODE_OFFSET :: nat where "STANDARD_CURRENCY_CODE_OFFSET = 12"

record 'd issued_amount =
  ia_value :: 'd
  ia_currency :: bytes
  ia_issuer :: xrp_address

datatype 'd xrp_amount = NativeAmount u64 | IssuedAmount "'d issued_amount"

definition xrp_native :: "string \<Rightarrow> 'd xrp_amount signer_result" where
  "xrp_native v =
     (case parse_u64 v of
        Inl _ \<Rightarrow> invalid_input_err ''invalid XRP amount''
      | Inr amount \<Rightarrow> if amount > MAX_DROPS then invalid_input_err ''XRP amount is too large'' else Ok (NativeAmount amount))"

definition currency_code_bytes :: "'d xrp_lib \<Rightarrow> string \<Rightarrow> bytes signer_result" where
  "currency_code_bytes L v =
     (if length v = CURRENCY_CODE_LENGTH * 2 \<or> prefix ''0x'' v
      then (case decode_hex_array (xrp_hex_decode L) CURRENCY_CODE_LENGTH v of
              Inl _ \<Rightarrow> invalid_input_err ''invalid XRP currency code'' | Inr b \<Rightarrow> Ok b)
      else if length v > CURRENCY_CODE_LENGTH then invalid_input_err ''XRP currency symbol is too long''
      else if length v = STANDARD_CURRENCY_CODE_LENGTH
      then Ok (replicate STANDARD_CURRENCY_CODE_OFFSET 0 @ as_bytes v
                 @ replicate (CURRENCY_CODE_LENGTH - (STANDARD_CURRENCY_CODE_OFFSET + STANDARD_CURRENCY_CODE_LENGTH)) 0)
      else Ok (as_bytes v @ replicate (CURRENCY_CODE_LENGTH - length v) 0))"

definition new_issued :: "'d xrp_lib \<Rightarrow> string \<Rightarrow> string \<Rightarrow> string \<Rightarrow> 'd issued_amount signer_result" where
  "new_issued L v currency issuer =
     and_then (ok_or (bd_from_str L v) (InvalidInput ''invalid XRP token amount'')) (\<lambda>d.
     and_then (currency_code_bytes L currency) (\<lambda>c.
     and_then (xrp_parse L issuer) (\<lambda>i.
     Ok \<lparr>ia_value = d, ia_currency = c, ia_issuer = i\<rparr>)))"

definition xrp_issued :: "'d xrp_lib \<Rightarrow> string \<Rightarrow> string \<Rightarrow> string \<Rightarrow> 'd xrp_amount signer_result" where
  "xrp_issued L v currency issuer = and_then (new_issued L v currency issuer) (\<lambda>a. Ok (IssuedAmount a))"

text \<open>\<open>scale as i32\<close> keeps the low 32 bits.\<close>

definition as_i32 :: "int \<Rightarrow> int" where "as_i32 n = signed_take_bit 31 n"

definition issued_amount_precision :: "'d xrp_lib \<Rightarrow> 'd \<Rightarrow> nat" where
  "issued_amount_precision L d = length (to_decimal (nat \<bar>fst (bd_normalized L d)\<bar>))"

definition issued_amount_exponent :: "'d xrp_lib \<Rightarrow> 'd \<Rightarrow> int" where
  "issued_amount_exponent L d = - as_i32 (snd (bd_normalized L d))"

definition validate_issued_value :: "'d xrp_lib \<Rightarrow> 'd \<Rightarrow> unit signer_result" where
  "validate_issued_value L d =
     (if bd_is_zero L d then Ok ()
      else if issued_amount_precision L d > MAX_IOU_PRECISION then invalid_input_err ''XRP token amount precision is too large''
      else if \<not> (MIN_IOU_EXPONENT \<le> issued_amount_exponent L d \<and> issued_amount_exponent L d \<le> MAX_IOU_EXPONENT)
      then invalid_input_err ''XRP token amount exponent is out of range''
      else Ok ())"

text \<open>The two loops of \<open>encoded_value\<close>; the mantissa is a \<open>u128\<close> that never wraps here, since the first loop stops below \<open>10 ^ 16\<close>.\<close>

function grow_mantissa :: "nat \<Rightarrow> int \<Rightarrow> nat \<times> int" where
  "grow_mantissa mantissa ex =
     (if mantissa < MIN_MANTISSA \<and> ex > MIN_IOU_EXPONENT then grow_mantissa (mantissa * 10) (ex - 1) else (mantissa, ex))"
  by pat_completeness auto
termination by (relation "measure (\<lambda>(_, ex). nat (ex - MIN_IOU_EXPONENT))") auto

function shrink_mantissa :: "nat \<Rightarrow> int \<Rightarrow> (nat \<times> int) signer_result" where
  "shrink_mantissa mantissa ex =
     (if mantissa > MAX_MANTISSA
      then if ex \<ge> MAX_IOU_EXPONENT then invalid_input_err ''XRP token amount is too large''
           else shrink_mantissa (mantissa div 10) (ex + 1)
      else Ok (mantissa, ex))"
  by pat_completeness auto
termination by (relation "measure (\<lambda>(_, ex). nat (MAX_IOU_EXPONENT - ex))") auto

declare grow_mantissa.simps [simp del] shrink_mantissa.simps [simp del]

definition encoded_value :: "'d xrp_lib \<Rightarrow> 'd \<Rightarrow> u64 signer_result" where
  "encoded_value L d =
     and_then (validate_issued_value L d) (\<lambda>_.
       if bd_is_zero L d then Ok ISSUED_CURRENCY_ZERO
       else let (m, scale) = bd_normalized L d;
                is_positive = m > 0;
                ex = - as_i32 scale
            in if nat \<bar>m\<bar> \<ge> 2 ^ 128 then invalid_input_err ''invalid XRP token amount''
               else let (mantissa, ex) = grow_mantissa (nat \<bar>m\<bar>) ex
                    in and_then (shrink_mantissa mantissa ex) (\<lambda>(mantissa, ex).
                         if ex < MIN_IOU_EXPONENT \<or> mantissa < MIN_MANTISSA then Ok ISSUED_CURRENCY_ZERO
                         else if ex > MAX_IOU_EXPONENT \<or> mantissa > MAX_MANTISSA then invalid_input_err ''XRP token amount is too large''
                         else Ok (ISSUED_CURRENCY_ZERO OR (if is_positive then POS_SIGN_BIT_MASK else 0)
                                    OR push_bit 54 (of_int (ex + 97)) OR of_nat mantissa)))"

definition issued_encode :: "'d xrp_lib \<Rightarrow> 'd issued_amount \<Rightarrow> bytes signer_result" where
  "issued_encode L a =
     and_then (encoded_value L (ia_value a)) (\<lambda>v. Ok (be_bytes 8 v @ ia_currency a @ xrp_hash (ia_issuer a)))"

fun xrp_amount_encode :: "'d xrp_lib \<Rightarrow> 'd xrp_amount \<Rightarrow> bytes signer_result" where
  "xrp_amount_encode L (NativeAmount amount) = Ok (be_bytes 8 (amount OR POS_SIGN_BIT_MASK))"
| "xrp_amount_encode L (IssuedAmount a) = issued_encode L a"

section \<open>Transactions\<close>

definition SIGNING_PREFIX :: bytes where "SIGNING_PREFIX = [0x53, 0x54, 0x58, 0x00]"
definition TRANSACTION_TYPE_PAYMENT :: u16 where "TRANSACTION_TYPE_PAYMENT = 0"
definition TRANSACTION_TYPE_TRUST_SET :: u16 where "TRANSACTION_TYPE_TRUST_SET = 20"
definition TYPE_UINT16 :: u8 where "TYPE_UINT16 = 1"
definition TYPE_UINT32 :: u8 where "TYPE_UINT32 = 2"
definition TYPE_AMOUNT :: u8 where "TYPE_AMOUNT = 6"
definition TYPE_VL :: u8 where "TYPE_VL = 7"
definition TYPE_ACCOUNT_ID :: u8 where "TYPE_ACCOUNT_ID = 8"
definition TYPE_ST_OBJECT :: u8 where "TYPE_ST_OBJECT = 14"
definition TYPE_ST_ARRAY :: u8 where "TYPE_ST_ARRAY = 15"
definition FIELD_TRANSACTION_TYPE :: u8 where "FIELD_TRANSACTION_TYPE = 2"
definition FIELD_FLAGS :: u8 where "FIELD_FLAGS = 2"
definition FIELD_SEQUENCE :: u8 where "FIELD_SEQUENCE = 4"
definition FIELD_DESTINATION_TAG :: u8 where "FIELD_DESTINATION_TAG = 14"
definition FIELD_LAST_LEDGER_SEQUENCE :: u8 where "FIELD_LAST_LEDGER_SEQUENCE = 27"
definition FIELD_AMOUNT :: u8 where "FIELD_AMOUNT = 1"
definition FIELD_LIMIT_AMOUNT :: u8 where "FIELD_LIMIT_AMOUNT = 3"
definition FIELD_FEE :: u8 where "FIELD_FEE = 8"
definition FIELD_SIGNING_PUB_KEY :: u8 where "FIELD_SIGNING_PUB_KEY = 3"
definition FIELD_TXN_SIGNATURE :: u8 where "FIELD_TXN_SIGNATURE = 4"
definition FIELD_MEMO_DATA :: u8 where "FIELD_MEMO_DATA = 13"
definition FIELD_ACCOUNT :: u8 where "FIELD_ACCOUNT = 1"
definition FIELD_DESTINATION :: u8 where "FIELD_DESTINATION = 3"
definition FIELD_MEMO :: u8 where "FIELD_MEMO = 10"
definition FIELD_MEMOS :: u8 where "FIELD_MEMOS = 9"
definition OBJECT_END_MARKER :: u8 where "OBJECT_END_MARKER = 0xe1"
definition ARRAY_END_MARKER :: u8 where "ARRAY_END_MARKER = 0xf1"

datatype xrp_payment_memo = XrpNoMemo | DestinationTag u32 | XrpMemo bytes

datatype 'd xrp_operation = XrpPayment "'d xrp_amount" xrp_address xrp_payment_memo | TrustSet "'d xrp_amount"

record xrp_params =
  xp_account :: xrp_address
  xp_fee :: u64
  xp_sequence :: u32
  xp_last_ledger_sequence :: u32
  xp_signing_pub_key :: bytes

record 'd xrp_transaction =
  xt_sequence :: u32
  xt_last_ledger_sequence :: u32
  xt_fee :: u64
  xt_signing_pub_key :: bytes
  xt_account :: xrp_address
  xt_operation :: "'d xrp_operation"

definition xrp_new_payment :: "'d xrp_lib \<Rightarrow> xrp_params \<Rightarrow> 'd xrp_amount \<Rightarrow> string \<Rightarrow> xrp_payment_memo \<Rightarrow> 'd xrp_transaction signer_result" where
  "xrp_new_payment L params amount destination m =
     and_then (xrp_parse L destination) (\<lambda>d.
     Ok \<lparr>xt_sequence = xp_sequence params, xt_last_ledger_sequence = xp_last_ledger_sequence params, xt_fee = xp_fee params,
         xt_signing_pub_key = xp_signing_pub_key params, xt_account = xp_account params, xt_operation = XrpPayment amount d m\<rparr>)"

definition xrp_new_trust_set :: "xrp_params \<Rightarrow> 'd xrp_amount \<Rightarrow> 'd xrp_transaction" where
  "xrp_new_trust_set params limit_amount =
     \<lparr>xt_sequence = xp_sequence params, xt_last_ledger_sequence = xp_last_ledger_sequence params, xt_fee = xp_fee params,
      xt_signing_pub_key = xp_signing_pub_key params, xt_account = xp_account params, xt_operation = TrustSet limit_amount\<rparr>"

text \<open>The functions that append to the buffer are given as the bytes they append.\<close>

definition append_header :: "u8 \<Rightarrow> u8 \<Rightarrow> bytes" where
  "append_header type_code field_code =
     (if type_code < 16 then if field_code < 16 then [push_bit 4 type_code OR field_code] else [push_bit 4 type_code, field_code]
      else if field_code < 16 then [field_code, type_code] else [0, type_code, field_code])"

definition append_variable_length :: "nat \<Rightarrow> bytes signer_result" where
  "append_variable_length len =
     (if len \<le> 192 then Ok [of_nat len]
      else if len < 12481 then let l = len - 193 in Ok [of_nat (l div 256 + 193), of_nat (l mod 256)]
      else if len \<le> 918744 then let l = len - 12481 in Ok [of_nat (l div 65536 + 241), of_nat (l div 256 mod 256), of_nat (l mod 256)]
      else invalid_input_err ''XRP field is too large'')"

definition append_u16 :: "u8 \<Rightarrow> u16 \<Rightarrow> bytes" where "append_u16 field v = append_header TYPE_UINT16 field @ be_bytes 2 v"
definition append_u32 :: "u8 \<Rightarrow> u32 \<Rightarrow> bytes" where "append_u32 field v = append_header TYPE_UINT32 field @ be_bytes 4 v"

definition append_amount :: "'d xrp_lib \<Rightarrow> u8 \<Rightarrow> 'd xrp_amount \<Rightarrow> bytes signer_result" where
  "append_amount L field amount = and_then (xrp_amount_encode L amount) (\<lambda>b. Ok (append_header TYPE_AMOUNT field @ b))"

definition append_blob :: "u8 \<Rightarrow> bytes \<Rightarrow> bytes signer_result" where
  "append_blob field v = and_then (append_variable_length (length v)) (\<lambda>l. Ok (append_header TYPE_VL field @ l @ v))"

definition append_address :: "u8 \<Rightarrow> xrp_address \<Rightarrow> bytes signer_result" where
  "append_address field a =
     and_then (append_variable_length (length (xrp_hash a))) (\<lambda>l. Ok (append_header TYPE_ACCOUNT_ID field @ l @ xrp_hash a))"

fun append_memo :: "xrp_payment_memo \<Rightarrow> bytes signer_result" where
  "append_memo (XrpMemo m) =
     and_then (append_blob FIELD_MEMO_DATA m) (\<lambda>b.
     Ok (append_header TYPE_ST_ARRAY FIELD_MEMOS @ append_header TYPE_ST_OBJECT FIELD_MEMO @ b @ [OBJECT_END_MARKER, ARRAY_END_MARKER]))"
| "append_memo _ = Ok []"

fun transaction_type :: "'d xrp_operation \<Rightarrow> u16" where
  "transaction_type (XrpPayment _ _ _) = TRANSACTION_TYPE_PAYMENT"
| "transaction_type (TrustSet _) = TRANSACTION_TYPE_TRUST_SET"

fun tag_field :: "'d xrp_operation \<Rightarrow> bytes" where
  "tag_field (XrpPayment _ _ (DestinationTag tag)) = append_u32 FIELD_DESTINATION_TAG tag"
| "tag_field _ = []"

fun operation_amount :: "'d xrp_lib \<Rightarrow> 'd xrp_operation \<Rightarrow> bytes signer_result" where
  "operation_amount L (XrpPayment amount _ _) = append_amount L FIELD_AMOUNT amount"
| "operation_amount L (TrustSet limit_amount) = append_amount L FIELD_LIMIT_AMOUNT limit_amount"

fun payment_tail :: "'d xrp_operation \<Rightarrow> bytes signer_result" where
  "payment_tail (XrpPayment _ destination m) =
     and_then (append_address FIELD_DESTINATION destination) (\<lambda>d. and_then (append_memo m) (\<lambda>b. Ok (d @ b)))"
| "payment_tail (TrustSet _) = Ok []"

definition xrp_encode :: "'d xrp_lib \<Rightarrow> 'd xrp_transaction \<Rightarrow> bytes option \<Rightarrow> bytes signer_result" where
  "xrp_encode L t signature =
     (let head = append_u16 FIELD_TRANSACTION_TYPE (transaction_type (xt_operation t)) @ append_u32 FIELD_FLAGS 0
                   @ append_u32 FIELD_SEQUENCE (xt_sequence t) @ tag_field (xt_operation t)
                   @ append_u32 FIELD_LAST_LEDGER_SEQUENCE (xt_last_ledger_sequence t)
      in and_then (operation_amount L (xt_operation t)) (\<lambda>amount.
         and_then (append_amount L FIELD_FEE (NativeAmount (xt_fee t))) (\<lambda>fee.
         and_then (append_blob FIELD_SIGNING_PUB_KEY (xt_signing_pub_key t)) (\<lambda>key.
         and_then (case signature of None \<Rightarrow> Ok [] | Some s \<Rightarrow> append_blob FIELD_TXN_SIGNATURE s) (\<lambda>sig.
         and_then (append_address FIELD_ACCOUNT (xt_account t)) (\<lambda>account.
         and_then (payment_tail (xt_operation t)) (\<lambda>rest.
         Ok (head @ amount @ fee @ key @ sig @ account @ rest))))))))"

definition der_integer :: "bytes \<Rightarrow> bytes" where
  "der_integer v =
     (let bs = dropWhile (\<lambda>b. b = 0) v;
          bs = (if bs = [] then [0] else bs);
          bs = (if bs ! 0 AND 0x80 \<noteq> 0 then 0 # bs else bs)
      in [0x02, of_nat (length bs)] @ bs)"

definition der_encode_signature :: "bytes \<Rightarrow> bytes signer_result" where
  "der_encode_signature signature =
     (if length signature \<noteq> 64 then Err (SigningError ''invalid secp256k1 signature length'')
      else let r = der_integer (take 32 signature); s = der_integer (drop 32 signature); payload_len = length r + length s
           in if payload_len \<ge> 256 then Err (SigningError ''signature is too large'')
              else Ok ([0x30, of_nat payload_len] @ r @ s))"

definition xrp_sign :: "'d xrp_lib \<Rightarrow> 'd xrp_transaction \<Rightarrow> bytes \<Rightarrow> string signer_result" where
  "xrp_sign L t private_key =
     and_then (xrp_encode L t None) (\<lambda>unsigned.
     let digest = sha512_half L (SIGNING_PREFIX @ unsigned)
     in and_then (signer_sign_digest (xrp_ed L) (xrp_secp L) Secp256k1 digest private_key) (\<lambda>signature.
        if length signature < 64 then Err (SigningError ''secp256k1 signature too short'')
        else and_then (der_encode_signature (take 64 signature)) (\<lambda>der_signature.
             and_then (xrp_encode L t (Some der_signature)) (\<lambda>b. Ok (xrp_hex_encode L b)))))"

section \<open>Entry points\<close>

definition LEDGER_SEQUENCE_OFFSET :: u64 where "LEDGER_SEQUENCE_OFFSET = 12"
definition TRUST_LINE_LIMIT :: string where "TRUST_LINE_LIMIT = ''690000000000''"

definition xrp_params_of :: "'d xrp_lib \<Rightarrow> signer_input \<Rightarrow> bytes \<Rightarrow> xrp_params signer_result" where
  "xrp_params_of L input private_key =
     and_then (get_block_number (metadata input)) (\<lambda>block_number.
     and_then (get_sequence (metadata input)) (\<lambda>sequence.
     and_then (ok_or (checked_add block_number LEDGER_SEQUENCE_OFFSET) (InvalidInput ''XRP last ledger sequence overflow'')) (\<lambda>last.
     and_then (xrp_parse L (sender_address input)) (\<lambda>account.
     and_then (ok_or (int_to_u64 (fee_total (input_fee input))) (InvalidInput ''invalid XRP fee'')) (\<lambda>fee.
     and_then (u32_try_from_display sequence) (\<lambda>sequence.
     and_then (u32_try_from_display last) (\<lambda>last.
     and_then (secp256k1_public_key (xrp_secp L) private_key) (\<lambda>key.
     Ok \<lparr>xp_account = account, xp_fee = fee, xp_sequence = sequence, xp_last_ledger_sequence = last, xp_signing_pub_key = key\<rparr>))))))))"

definition xrp_sign_payment :: "'d xrp_lib \<Rightarrow> signer_input \<Rightarrow> bytes \<Rightarrow> 'd xrp_amount \<Rightarrow> string \<Rightarrow> xrp_payment_memo \<Rightarrow> string signer_result" where
  "xrp_sign_payment L input private_key amount destination m =
     and_then (xrp_params_of L input private_key) (\<lambda>params.
     and_then (xrp_new_payment L params amount destination m) (\<lambda>t. xrp_sign L t private_key))"

text \<open>\<open>BigNumberFormatter\<close>: the amount divided by the power of ten, and its text; \<open>decimals as u32\<close> keeps the low 32 bits.\<close>

definition big_decimal_value :: "'d xrp_lib \<Rightarrow> string \<Rightarrow> nat \<Rightarrow> (string + 'd)" where
  "big_decimal_value L v decimals =
     (case bd_from_str L v of
        None \<Rightarrow> Inl ''invalid number''
      | Some d \<Rightarrow> Inr (bd_div L d (bd_from_int L (10 ^ decimals))))"

definition formatter_value :: "'d xrp_lib \<Rightarrow> string \<Rightarrow> int \<Rightarrow> (string + string)" where
  "formatter_value L v decimals = and_then (big_decimal_value L v (nat (take_bit 32 decimals))) (\<lambda>d. Inr (bd_to_string L d))"

definition xrp_token_amount :: "'d xrp_lib \<Rightarrow> signer_input \<Rightarrow> string \<Rightarrow> 'd xrp_amount signer_result" where
  "xrp_token_amount L input v =
     (let asset = get_asset (input_type input)
      in and_then (map_err_display (formatter_value L v (asset_decimals asset))) (\<lambda>x.
         and_then (get_token_id (asset_ident asset)) (\<lambda>issuer. xrp_issued L x (asset_symbol asset) issuer)))"

definition trust_line_limit_amount :: "'d xrp_lib \<Rightarrow> signer_input \<Rightarrow> 'd xrp_amount signer_result" where
  "trust_line_limit_amount L input =
     (let asset = get_asset (input_type input)
      in and_then (get_token_id (asset_ident asset)) (\<lambda>issuer. xrp_issued L TRUST_LINE_LIMIT (asset_symbol asset) issuer))"

definition xrp_payment_memo_of :: "string option \<Rightarrow> xrp_payment_memo signer_result" where
  "xrp_payment_memo_of m =
     (case m of
        None \<Rightarrow> Ok XrpNoMemo
      | Some s \<Rightarrow>
          (case parse_u64 s of
             Inr v \<Rightarrow> if v = 0 then Ok XrpNoMemo else and_then (u32_try_from_display v) (\<lambda>tag. Ok (DestinationTag tag))
           | Inl _ \<Rightarrow> Ok (XrpMemo (as_bytes (case strip_prefix ''0x'' s of Some r \<Rightarrow> r | None \<Rightarrow> s)))))"

definition xrp_token_memo :: "string option \<Rightarrow> xrp_payment_memo signer_result" where
  "xrp_token_memo m =
     (case m of
        None \<Rightarrow> Ok XrpNoMemo
      | Some s \<Rightarrow>
          (case parse_u64 s of
             Inr v \<Rightarrow> if v = 0 then Ok XrpNoMemo else and_then (u32_try_from_display v) (\<lambda>tag. Ok (DestinationTag tag))
           | Inl _ \<Rightarrow> Ok XrpNoMemo))"

definition xrp_swap_memo :: "swap_quote_data \<Rightarrow> xrp_payment_memo" where
  "xrp_swap_memo d =
     (case swap_memo d of
        Some m \<Rightarrow> if m \<noteq> [] then XrpMemo (as_bytes m)
                  else if swap_call_data d = [] then XrpNoMemo else XrpMemo (as_bytes (swap_call_data d))
      | None \<Rightarrow> if swap_call_data d = [] then XrpNoMemo else XrpMemo (as_bytes (swap_call_data d)))"

definition xrp_sign_transfer :: "'d xrp_lib \<Rightarrow> signer_input \<Rightarrow> bytes \<Rightarrow> string signer_result" where
  "xrp_sign_transfer L input private_key =
     and_then (xrp_native (to_decimal (input_value input))) (\<lambda>amount.
     and_then (xrp_payment_memo_of (get_memo input)) (\<lambda>m.
     xrp_sign_payment L input private_key amount (destination_address input) m))"

definition xrp_sign_token_transfer :: "'d xrp_lib \<Rightarrow> signer_input \<Rightarrow> bytes \<Rightarrow> string signer_result" where
  "xrp_sign_token_transfer L input private_key =
     and_then (xrp_token_amount L input (to_decimal (input_value input))) (\<lambda>amount.
     and_then (xrp_token_memo (get_memo input)) (\<lambda>m.
     xrp_sign_payment L input private_key amount (destination_address input) m))"

definition xrp_sign_swap :: "'d xrp_lib \<Rightarrow> signer_input \<Rightarrow> bytes \<Rightarrow> string list signer_result" where
  "xrp_sign_swap L input private_key =
     and_then (get_swap_data (input_type input)) (\<lambda>swap.
     and_then (xrp_native (to_decimal (swap_data_value (quote_data swap)))) (\<lambda>amount.
     and_then (xrp_sign_payment L input private_key amount (swap_to (quote_data swap)) (xrp_swap_memo (quote_data swap))) (\<lambda>s.
     Ok [s])))"

definition xrp_sign_account_action :: "'d xrp_lib \<Rightarrow> signer_input \<Rightarrow> bytes \<Rightarrow> string signer_result" where
  "xrp_sign_account_action L input private_key =
     and_then (trust_line_limit_amount L input) (\<lambda>amount.
     and_then (xrp_params_of L input private_key) (\<lambda>params.
     xrp_sign L (xrp_new_trust_set params amount) private_key))"


section \<open>Issued amounts are exact\<close>

text \<open>The ledger's reading of an issued amount: the sign, the mantissa and the exponent.\<close>

definition read_issued :: "u64 \<Rightarrow> bool \<times> nat \<times> int" where
  "read_issued w = (bit w 62, unat (take_bit 54 w), int (unat (take_bit 8 (drop_bit 54 w))) - 97)"

lemma length_to_decimal: "n < 10 ^ length (to_decimal n)"
proof (induction n rule: to_decimal.induct)
  case (1 n)
  show ?case
  proof (cases "n < 10")
    case False
    then have "n div 10 < 10 ^ length (to_decimal (n div 10))" by (intro 1)
    then have "n < 10 ^ length (to_decimal (n div 10)) * 10" by linarith
    then show ?thesis using False by (simp add: to_decimal.simps [of n])
  qed (simp add: to_decimal.simps [of n])
qed

lemma grow_mantissa_spec:
  "-96 \<le> ex \<Longrightarrow> m \<le> MAX_MANTISSA \<Longrightarrow> grow_mantissa m ex = (m', ex') \<Longrightarrow>
     m' * 10 ^ nat (ex' + 96) = m * 10 ^ nat (ex + 96) \<and> -96 \<le> ex' \<and> ex' \<le> ex \<and> m' \<le> MAX_MANTISSA
       \<and> (MIN_MANTISSA \<le> m' \<or> ex' = -96)"
proof (induction m ex rule: grow_mantissa.induct)
  case (1 m ex)
  show ?case
  proof (cases "m < MIN_MANTISSA \<and> ex > MIN_IOU_EXPONENT")
    case True
    then have g: "grow_mantissa (m * 10) (ex - 1) = (m', ex')" using "1.prems"(3) by (simp add: grow_mantissa.simps [of m])
    have "nat (ex + 96) = Suc (nat (ex - 1 + 96))" using True unfolding MIN_IOU_EXPONENT_def by linarith
    then have "m * 10 * 10 ^ nat (ex - 1 + 96) = m * 10 ^ nat (ex + 96)" by simp
    then show ?thesis
      using "1.IH" [OF True _ _ g] True by (simp add: MIN_IOU_EXPONENT_def MIN_MANTISSA_def MAX_MANTISSA_def)
  next
    case False
    then show ?thesis using "1.prems" by (auto simp: grow_mantissa.simps [of m] MIN_IOU_EXPONENT_def)
  qed
qed

lemma shrink_mantissa_id: "m \<le> MAX_MANTISSA \<Longrightarrow> shrink_mantissa m ex = Ok (m, ex)"
  by (simp add: shrink_mantissa.simps)

lemma sign_bits: "bit ISSUED_CURRENCY_ZERO n \<longleftrightarrow> n = 63" "bit POS_SIGN_BIT_MASK n \<longleftrightarrow> n = 62"
proof -
  have e: "ISSUED_CURRENCY_ZERO = push_bit 63 1" "POS_SIGN_BIT_MASK = push_bit 62 1"
    by (simp_all add: ISSUED_CURRENCY_ZERO_def POS_SIGN_BIT_MASK_def)
  show "bit ISSUED_CURRENCY_ZERO n \<longleftrightarrow> n = 63" "bit POS_SIGN_BIT_MASK n \<longleftrightarrow> n = 62"
    unfolding e bit_push_bit_iff bit_1_iff by auto
qed

lemma read_issued_encoded:
  fixes pos :: bool
  assumes "m < 2 ^ 54" "-96 \<le> ex" "ex \<le> 80"
  defines "w \<equiv> ISSUED_CURRENCY_ZERO OR (if pos then POS_SIGN_BIT_MASK else 0) OR push_bit 54 (of_int (ex + 97)) OR of_nat m"
  shows "read_issued w = (pos, m, ex) \<and> bit w 63"
proof -
  define x where "x = (of_int (ex + 97) :: u64)"
  define y where "y = (of_nat m :: u64)"
  have xu: "unat x = nat (ex + 97)"
  proof -
    have "x = of_nat (nat (ex + 97))" using assms(2) by (simp add: x_def)
    moreover have "nat (ex + 97) < 2 ^ 64" using assms(3) by simp
    ultimately show ?thesis by (simp add: unat_of_nat take_bit_nat_eq_self)
  qed
  have yu: "unat y = m" using assms(1) by (simp add: y_def unat_of_nat take_bit_nat_eq_self)
  have x8: "take_bit 8 x = x" using xu assms(2,3) by (simp add: word_unat_eq_iff unsigned_take_bit_eq take_bit_nat_eq_self)
  have y54: "take_bit 54 y = y" using yu assms(1) by (simp add: word_unat_eq_iff unsigned_take_bit_eq take_bit_nat_eq_self)
  have bx: "bit x n \<Longrightarrow> n < 8" and by54: "bit y n \<Longrightarrow> n < 54" for n
    using bit_take_bit_iff [of 8 x n] bit_take_bit_iff [of 54 y n] unfolding x8 y54 by simp_all
  have w: "bit w n \<longleftrightarrow> n = 63 \<or> pos \<and> n = 62 \<or> 54 \<le> n \<and> n < 64 \<and> bit x (n - 54) \<or> bit y n" for n
    unfolding w_def x_def [symmetric] y_def [symmetric] by (auto simp: bit_or_iff bit_push_bit_iff sign_bits)
  have "take_bit 54 w = y"
    by (rule bit_word_eqI) (use by54 in \<open>auto simp: bit_take_bit_iff w\<close>)
  moreover have "take_bit 8 (drop_bit 54 w) = x"
  proof (rule bit_word_eqI)
    fix n
    show "bit (take_bit 8 (drop_bit 54 w)) n = bit x n"
      using bx [of n] by54 [of "54 + n"] by (auto simp: bit_take_bit_iff bit_drop_bit_eq w)
  qed
  moreover have "bit w 62 \<longleftrightarrow> pos" using bx [of 8] by54 [of 62] by (auto simp: w)
  moreover have "bit w 63" by (simp add: w)
  ultimately show ?thesis using xu yu assms(2) by (simp add: read_issued_def)
qed

text \<open>
  C37: An issued amount is sent exactly or not at all: where the XRP signer encodes a decimal with at most 16 digits and an
  exponent in the ledger's range, the ledger reads back the same sign and the same number, with a
  normalised mantissa; the only other outcome is the code of zero, for numbers below the ledger's
  smallest amount \<open>10 ^ (-81)\<close>. Here \<open>m\<close> and \<open>scale\<close> are the integers of the normalised decimal \<open>m * 10 ^ (- scale)\<close>.
\<close>

theorem xrp_amount_exact:
  assumes "encoded_value L d = Ok w" "bd_normalized L d = (m, scale)" "\<not> bd_is_zero L d" "\<bar>scale\<bar> < 2 ^ 31"
  shows "-96 \<le> - scale \<and> - scale \<le> 80 \<and>
    (case read_issued w of (pos, mant, ex) \<Rightarrow>
       (w = ISSUED_CURRENCY_ZERO \<and> nat \<bar>m\<bar> * 10 ^ nat (96 - scale) < 10 ^ 15)
     \<or> (pos \<longleftrightarrow> m > 0) \<and> 10 ^ 15 \<le> mant \<and> mant < 10 ^ 16 \<and> -96 \<le> ex \<and> ex \<le> 80
        \<and> mant * 10 ^ nat (ex + 96) = nat \<bar>m\<bar> * 10 ^ nat (96 - scale))"
proof -
  have sc: "as_i32 scale = scale"
    using assms(4) unfolding as_i32_def by (intro signed_take_bit_int_eq_self) simp_all
  have v: "length (to_decimal (nat \<bar>m\<bar>)) \<le> 16" "-96 \<le> - scale" "- scale \<le> 80"
    using assms(1-3) sc by (auto simp: encoded_value_def validate_issued_value_def issued_amount_precision_def issued_amount_exponent_def
        MIN_IOU_EXPONENT_def MAX_IOU_EXPONENT_def MAX_IOU_PRECISION_def and_then_Inr_iff invalid_input_err_def split: if_splits)
  have "nat \<bar>m\<bar> < 10 ^ length (to_decimal (nat \<bar>m\<bar>))" by (rule length_to_decimal)
  also have "\<dots> \<le> 10 ^ 16" using v(1) by (intro power_increasing) simp_all
  finally have mm: "nat \<bar>m\<bar> \<le> MAX_MANTISSA" by (simp add: MAX_MANTISSA_def)
  obtain mant ex where g: "grow_mantissa (nat \<bar>m\<bar>) (- scale) = (mant, ex)" by fastforce
  note gs = grow_mantissa_spec [OF v(2) mm g]
  have w: "(if ex < MIN_IOU_EXPONENT \<or> mant < MIN_MANTISSA then Ok ISSUED_CURRENCY_ZERO
      else if ex > MAX_IOU_EXPONENT \<or> mant > MAX_MANTISSA then invalid_input_err ''XRP token amount is too large''
      else Ok (ISSUED_CURRENCY_ZERO OR (if m > 0 then POS_SIGN_BIT_MASK else 0) OR push_bit 54 (of_int (ex + 97)) OR of_nat mant)) = Ok w"
    using assms(1,3) unfolding encoded_value_def assms(2) Let_def case_prod_conv sc g
    by (auto simp: and_then_Inr_iff shrink_mantissa_id gs invalid_input_err_def split: if_splits)
  have ex: "-96 \<le> ex" "ex \<le> 80" "mant \<le> MAX_MANTISSA" using gs v(3) by auto
  show ?thesis
  proof (cases "mant < MIN_MANTISSA")
    case True
    then have "w = ISSUED_CURRENCY_ZERO" "ex = -96" using w gs by auto
    then show ?thesis using True gs v by (simp add: read_issued_def MIN_MANTISSA_def)
  next
    case False
    then have "w = ISSUED_CURRENCY_ZERO OR (if m > 0 then POS_SIGN_BIT_MASK else 0) OR push_bit 54 (of_int (ex + 97)) OR of_nat mant"
      using w ex by (auto simp: MIN_IOU_EXPONENT_def MAX_IOU_EXPONENT_def)
    moreover have "mant < 2 ^ 54" using ex(3) by (simp add: MAX_MANTISSA_def)
    ultimately have "read_issued w = (m > 0, mant, ex)" using read_issued_encoded [of mant ex "m > 0"] ex by blast
    then show ?thesis using False gs ex v by (simp add: MIN_MANTISSA_def MAX_MANTISSA_def)
  qed
qed

section \<open>DER signatures\<close>

text \<open>
  A strict DER reader: an integer is a non-empty byte string without the sign bit and without a
  superfluous zero in front, and a signature is a sequence of exactly two integers.
\<close>

definition read_der_integer :: "bytes \<Rightarrow> (nat \<times> bytes) option" where
  "read_der_integer bs = (case bs of
       t # l # r \<Rightarrow>
         (case take_n (unat l) r of
            Some (v, r) \<Rightarrow>
              if t = 0x02 \<and> unat l < 128 \<and> v \<noteq> [] \<and> v ! 0 < 0x80 \<and> (v ! 0 = 0 \<and> 1 < length v \<longrightarrow> 0x80 \<le> v ! 1)
              then Some (nat_from_bytes_be v, r) else None
          | None \<Rightarrow> None)
     | _ \<Rightarrow> None)"

definition read_der :: "bytes \<Rightarrow> (nat \<times> nat) option" where
  "read_der bs = (case bs of
       t # l # r \<Rightarrow>
         if t \<noteq> 0x30 \<or> unat l \<ge> 128 \<or> length r \<noteq> unat l then None
         else (case read_der_integer r of
                 Some (x, r) \<Rightarrow> (case read_der_integer r of Some (y, []) \<Rightarrow> Some (x, y) | _ \<Rightarrow> None)
               | None \<Rightarrow> None)
     | _ \<Rightarrow> None)"

lemma nat_from_bytes_be_0 [simp]: "nat_from_bytes_be (0 # bs) = nat_from_bytes_be bs"
  by (simp add: nat_from_bytes_be_def)

lemma nat_from_bytes_be_dropWhile: "nat_from_bytes_be (dropWhile (\<lambda>b. b = 0) bs) = nat_from_bytes_be bs"
  by (induction bs) simp_all

lemma sign_bit_iff: "b AND 0x80 \<noteq> 0 \<longleftrightarrow> 0x80 \<le> b" for b :: u8
proof -
  have p: "(0x80 :: u8) = push_bit 7 1" by simp
  have m: "bit (push_bit 7 1 :: u8) n \<longleftrightarrow> n = 7" for n unfolding bit_push_bit_iff bit_1_iff by auto
  have "bit (b AND 0x80) n \<longleftrightarrow> bit b 7 \<and> n = 7" for n unfolding p bit_and_iff m by blast
  then have "b AND 0x80 \<noteq> 0 \<longleftrightarrow> bit b 7" by (metis bit_eqI bit_0_eq bot_apply bot_bool_def)
  also have "\<dots> \<longleftrightarrow> bit (unat b) 7" by (simp add: bit_unsigned_iff)
  also have "\<dots> \<longleftrightarrow> odd (unat b div 128)" by (simp add: bit_iff_odd)
  also have "\<dots> \<longleftrightarrow> 128 \<le> unat b"
  proof -
    have "unat b < 2 * 128" using unsigned_less [of b] by simp
    then have "unat b div 128 < 2" by (rule less_mult_imp_div_less)
    then have "odd (unat b div 128) \<longleftrightarrow> unat b div 128 = 1" by (auto simp: less_2_cases_iff)
    also have "\<dots> \<longleftrightarrow> 128 \<le> unat b" using \<open>unat b < 2 * 128\<close> by auto
    finally show ?thesis .
  qed
  finally show ?thesis by (simp add: word_le_nat_alt)
qed

lemma read_der_integer_encode:
  assumes "length v \<le> 32"
  shows "read_der_integer (der_integer v @ r) = Some (nat_from_bytes_be v, r) \<and> length (der_integer v) \<le> 35"
proof -
  define bs where "bs = dropWhile (\<lambda>b. b = 0) v"
  define cs where "cs = (if bs = [] then [0] else bs)"
  define ds where "ds = (if cs ! 0 AND 0x80 \<noteq> 0 then 0 # cs else cs)"
  have d: "der_integer v = [0x02, of_nat (length ds)] @ ds" by (simp add: der_integer_def Let_def bs_def cs_def ds_def)
  have bl: "length bs \<le> 32" using assms length_dropWhile_le [of "\<lambda>b. b = 0" v] unfolding bs_def by linarith
  have "bs \<noteq> [] \<Longrightarrow> bs ! 0 \<noteq> 0" using hd_dropWhile [of "\<lambda>b. b = 0" v] unfolding bs_def [symmetric] by (simp add: hd_conv_nth)
  then have cs: "cs \<noteq> []" "length cs \<le> 32" "cs ! 0 = 0 \<Longrightarrow> cs = [0]" using bl by (auto simp: cs_def split: if_splits)
  have ds: "ds \<noteq> []" "length ds \<le> 33" "ds ! 0 < 0x80" "ds ! 0 = 0 \<and> 1 < length ds \<longrightarrow> 0x80 \<le> ds ! 1"
    using cs by (auto simp: ds_def sign_bit_iff not_le)
  have n: "nat_from_bytes_be ds = nat_from_bytes_be v"
  proof -
    have "nat_from_bytes_be ds = nat_from_bytes_be cs" by (simp add: ds_def)
    also have "\<dots> = nat_from_bytes_be bs" by (simp add: cs_def nat_from_bytes_be_def)
    finally show ?thesis unfolding bs_def nat_from_bytes_be_dropWhile .
  qed
  have u: "unat (of_nat (length ds) :: u8) = length ds" using ds(2) by (simp add: unat_of_nat take_bit_nat_eq_self)
  show ?thesis using ds n u by (simp add: d read_der_integer_def)
qed

text \<open>
  Every 64-byte signature is turned into its DER form: the result is at most 72 bytes, and a strict reader accepts it
  and returns the two halves of the signature as numbers.
\<close>

theorem xrp_der_reads_back:
  assumes "length signature = 64"
  shows "\<exists>d. der_encode_signature signature = Ok d \<and> length d \<le> 72
     \<and> read_der d = Some (nat_from_bytes_be (take 32 signature), nat_from_bytes_be (drop 32 signature))"
proof -
  let ?r = "der_integer (take 32 signature)" and ?s = "der_integer (drop 32 signature)"
  have "length (take 32 signature) \<le> 32" "length (drop 32 signature) \<le> 32" using assms by simp_all
  note r = read_der_integer_encode [OF this(1), of ?s] and s = read_der_integer_encode [OF this(2), of "[]"]
  have l: "length ?r + length ?s \<le> 70" using r s by linarith
  have "unat (of_nat (length ?r + length ?s) :: u8) = length ?r + length ?s"
    using l by (simp only: unat_of_nat) (simp add: take_bit_nat_eq_self)
  then show ?thesis
    using assms l r s by (simp add: der_encode_signature_def Let_def read_der_def del: of_nat_add)
qed

section \<open>What the signed bytes determine\<close>

definition read_length :: "bytes \<Rightarrow> (nat \<times> bytes) option" where
  "read_length bs = (case bs of
       [] \<Rightarrow> None
     | a # r \<Rightarrow>
         if unat a \<le> 192 then Some (unat a, r)
         else if unat a \<le> 240 then (case r of b # r \<Rightarrow> Some (193 + (unat a - 193) * 256 + unat b, r) | [] \<Rightarrow> None)
         else (case r of b # c # r \<Rightarrow> Some (12481 + (unat a - 241) * 65536 + unat b * 256 + unat c, r) | _ \<Rightarrow> None))"

lemma unat_of_nat_u8: "n < 256 \<Longrightarrow> unat (of_nat n :: u8) = n"
  by (simp add: unat_of_nat take_bit_nat_eq_self)

lemma read_length_append:
  assumes "append_variable_length n = Ok l"
  shows "read_length (l @ r) = Some (n, r)"
proof -
  consider "n \<le> 192" | "192 < n" "n < 12481" | "12481 \<le> n" "n \<le> 918744"
    using assms by (fastforce simp: append_variable_length_def invalid_input_err_def split: if_splits)
  then show ?thesis
  proof cases
    case 1
    then show ?thesis using assms by (auto simp: append_variable_length_def read_length_def unat_of_nat_u8)
  next
    case 2
    define k where "k = n - 193"
    have k: "k div 256 + 193 < 241" "n = 193 + k" using 2 unfolding k_def by (simp_all add: less_mult_imp_div_less)
    have l: "l = [of_nat (k div 256 + 193), of_nat (k mod 256)]" using assms 2 by (simp add: append_variable_length_def Let_def k_def)
    have "unat (of_nat (k div 256 + 193) :: u8) = k div 256 + 193" "unat (of_nat (k mod 256) :: u8) = k mod 256"
      using k(1) by (simp_all only: unat_of_nat_u8 mod_less_divisor)
    then show ?thesis using k unfolding l by (simp add: read_length_def del: of_nat_add)
  next
    case 3
    define k where "k = n - 12481"
    have "k < 14 * 65536" using 3(2) unfolding k_def by linarith
    then have k: "k div 65536 + 241 < 256" "n = 12481 + k" using 3(1) unfolding k_def by (simp_all add: less_mult_imp_div_less)
    have l: "l = [of_nat (k div 65536 + 241), of_nat (k div 256 mod 256), of_nat (k mod 256)]"
      using assms 3 by (simp add: append_variable_length_def Let_def k_def)
    have "unat (of_nat (k div 65536 + 241) :: u8) = k div 65536 + 241" "unat (of_nat (k div 256 mod 256) :: u8) = k div 256 mod 256"
        "unat (of_nat (k mod 256) :: u8) = k mod 256" using k(1) by (simp_all only: unat_of_nat_u8 mod_less_divisor)
    moreover have "k div 65536 * 65536 + k div 256 mod 256 * 256 + k mod 256 = k"
    proof -
      have "k div 65536 = k div 256 div 256" using div_mult2_eq [of k 256 256] by simp
      then show ?thesis using div_mult_mod_eq [of "k div 256" 256] div_mult_mod_eq [of k 256] by linarith
    qed
    ultimately show ?thesis using k unfolding l by (simp add: read_length_def del: of_nat_add)
  qed
qed

lemma blob_inj:
  assumes "append_variable_length (length v) = Ok l" "append_variable_length (length w) = Ok l'" "l @ v @ r = l' @ w @ s"
  shows "v = w \<and> r = s"
proof -
  from arg_cong [OF assms(3), of read_length] have "length v = length w \<and> v @ r = w @ s"
    unfolding read_length_append [OF assms(1)] read_length_append [OF assms(2)] by simp
  then show ?thesis using append_inj by blast
qed

lemma append_blob_inj:
  assumes "append_blob f v = Ok b" "append_blob f w = Ok c" "b @ r = c @ s"
  shows "v = w \<and> r = s"
proof -
  obtain l l' where l: "append_variable_length (length v) = Ok l" "b = append_header TYPE_VL f @ l @ v"
      "append_variable_length (length w) = Ok l'" "c = append_header TYPE_VL f @ l' @ w"
    using assms(1,2) by (auto simp: append_blob_def and_then_Inr_iff)
  show ?thesis using blob_inj [OF l(1,3), of r s] assms(3) by (simp add: l)
qed

lemma append_address_inj:
  assumes "append_address f v = Ok b" "append_address f w = Ok c" "b @ r = c @ s"
  shows "v = w \<and> r = s"
proof -
  obtain l l' where l: "append_variable_length (length (xrp_hash v)) = Ok l" "b = append_header TYPE_ACCOUNT_ID f @ l @ xrp_hash v"
      "append_variable_length (length (xrp_hash w)) = Ok l'" "c = append_header TYPE_ACCOUNT_ID f @ l' @ xrp_hash w"
    using assms(1,2) by (auto simp: append_address_def and_then_Inr_iff)
  show ?thesis using blob_inj [OF l(1,3), of r s] assms(3) by (auto simp: l intro: xrp_address.equality)
qed

text \<open>An amount as the ledger sees it.\<close>

fun amount_view :: "'d xrp_lib \<Rightarrow> 'd xrp_amount \<Rightarrow> u64 + (signer_error + u64) \<times> bytes \<times> xrp_address" where
  "amount_view L (NativeAmount n) = Inl n"
| "amount_view L (IssuedAmount a) = Inr (encoded_value L (ia_value a), ia_currency a, ia_issuer a)"

fun amount_ok :: "'d xrp_amount \<Rightarrow> bool" where
  "amount_ok (NativeAmount n) \<longleftrightarrow> unat n < 2 ^ 62"
| "amount_ok (IssuedAmount a) \<longleftrightarrow> length (ia_currency a) = 20 \<and> length (xrp_hash (ia_issuer a)) = 20"

lemma encoded_value_top_bit: "encoded_value L d = Ok w \<Longrightarrow> bit w 63"
  by (auto simp: encoded_value_def and_then_Inr_iff invalid_input_err_def Let_def bit_or_iff sign_bits
      split: if_splits prod.splits)

lemma native_bits: "unat n < 2 ^ 62 \<Longrightarrow> take_bit 62 (n OR POS_SIGN_BIT_MASK) = n \<and> \<not> bit (n OR POS_SIGN_BIT_MASK) 63"
proof -
  assume "unat n < 2 ^ 62"
  then have t: "take_bit 62 n = n" by (simp add: word_unat_eq_iff unsigned_take_bit_eq take_bit_nat_eq_self)
  then have b: "bit n k \<Longrightarrow> k < 62" for k using bit_take_bit_iff [of 62 n k] by simp
  have "take_bit 62 (n OR POS_SIGN_BIT_MASK) = n"
    by (rule bit_word_eqI) (use b in \<open>auto simp: bit_take_bit_iff bit_or_iff sign_bits\<close>)
  moreover have "\<not> bit (n OR POS_SIGN_BIT_MASK) 63" using b [of 63] by (auto simp: bit_or_iff sign_bits)
  ultimately show ?thesis by blast
qed

lemma amount_encode_inj:
  assumes "xrp_amount_encode L a = Ok b" "xrp_amount_encode L a' = Ok b'" "amount_ok a" "amount_ok a'" "b @ r = b' @ s"
  shows "amount_view L a = amount_view L a' \<and> r = s"
proof (cases a)
  case (NativeAmount n)
  then have b: "b = be_bytes 8 (n OR POS_SIGN_BIT_MASK)" using assms(1) by simp
  show ?thesis
  proof (cases a')
    case n': (NativeAmount n')
    have "n OR POS_SIGN_BIT_MASK = n' OR POS_SIGN_BIT_MASK \<and> r = s"
      by (rule be_u64.enc_inj [OF TrueI TrueI]) (use assms(2,5) b n' in simp)
    moreover from this have "take_bit 62 (n OR POS_SIGN_BIT_MASK) = take_bit 62 (n' OR POS_SIGN_BIT_MASK)" by metis
    then have "n = n'" using native_bits [of n] native_bits [of n'] assms(3,4) NativeAmount n' by (metis amount_ok.simps(1))
    ultimately show ?thesis using NativeAmount n' by simp
  next
    case (IssuedAmount x)
    then obtain w where w: "encoded_value L (ia_value x) = Ok w" "b' = be_bytes 8 w @ ia_currency x @ xrp_hash (ia_issuer x)"
      using assms(2) by (auto simp: issued_encode_def and_then_Inr_iff)
    have "n OR POS_SIGN_BIT_MASK = w \<and> r = (ia_currency x @ xrp_hash (ia_issuer x)) @ s"
      by (rule be_u64.enc_inj [OF TrueI TrueI]) (use assms(5) b w(2) in simp)
    then show ?thesis using native_bits [of n] encoded_value_top_bit [OF w(1)] assms(3) unfolding NativeAmount amount_ok.simps by metis
  qed
next
  case (IssuedAmount x)
  then obtain w where w: "encoded_value L (ia_value x) = Ok w" "b = be_bytes 8 w @ ia_currency x @ xrp_hash (ia_issuer x)"
    using assms(1) by (auto simp: issued_encode_def and_then_Inr_iff)
  show ?thesis
  proof (cases a')
    case n: (NativeAmount n)
    have "w = n OR POS_SIGN_BIT_MASK \<and> (ia_currency x @ xrp_hash (ia_issuer x)) @ r = s"
      by (rule be_u64.enc_inj [OF TrueI TrueI]) (use assms(2,5) n w(2) in simp)
    then show ?thesis using native_bits [of n] encoded_value_top_bit [OF w(1)] assms(4) unfolding n amount_ok.simps by metis
  next
    case x': (IssuedAmount x')
    then obtain w' where w': "encoded_value L (ia_value x') = Ok w'" "b' = be_bytes 8 w' @ ia_currency x' @ xrp_hash (ia_issuer x')"
      using assms(2) by (auto simp: issued_encode_def and_then_Inr_iff)
    have 1: "w = w' \<and> ia_currency x @ xrp_hash (ia_issuer x) @ r = ia_currency x' @ xrp_hash (ia_issuer x') @ s"
      by (rule be_u64.enc_inj [OF TrueI TrueI]) (use assms(5) w(2) w'(2) in simp)
    note 2 = append_inj [OF _ conjunct2 [OF 1]]
    have c: "ia_currency x = ia_currency x' \<and> xrp_hash (ia_issuer x) @ r = xrp_hash (ia_issuer x') @ s"
      using 2 assms(3,4) IssuedAmount x' by simp
    have "xrp_hash (ia_issuer x) = xrp_hash (ia_issuer x') \<and> r = s"
      using append_inj [OF _ conjunct2 [OF c]] assms(3,4) IssuedAmount x' by simp
    then show ?thesis using 1 c w(1) w'(1) IssuedAmount x' by (auto intro: xrp_address.equality)
  qed
qed


lemma append_u16_inj: "append_u16 f v @ r = append_u16 f w @ s \<Longrightarrow> v = w \<and> r = s"
  unfolding append_u16_def append.assoc same_append_eq by (rule be_u16.enc_inj [OF TrueI TrueI])

lemma append_u32_inj: "append_u32 f v @ r = append_u32 f w @ s \<Longrightarrow> v = w \<and> r = s"
  unfolding append_u32_def append.assoc same_append_eq by (rule be_u32.enc_inj [OF TrueI TrueI])

lemma append_amount_inj:
  assumes "append_amount L f a = Ok b" "append_amount L f a' = Ok b'" "amount_ok a" "amount_ok a'" "b @ r = b' @ s"
  shows "amount_view L a = amount_view L a' \<and> r = s"
proof -
  obtain x y where x: "xrp_amount_encode L a = Ok x" "xrp_amount_encode L a' = Ok y"
      "b = append_header TYPE_AMOUNT f @ x" "b' = append_header TYPE_AMOUNT f @ y"
    using assms(1,2) by (auto simp: append_amount_def and_then_Inr_iff)
  show ?thesis by (rule amount_encode_inj [OF x(1,2) assms(3,4)]) (use assms(5) x(3,4) in simp)
qed

fun tag_of :: "'d xrp_operation \<Rightarrow> u32 option" where
  "tag_of (XrpPayment _ _ (DestinationTag tag)) = Some tag"
| "tag_of _ = None"

lemma tag_field_of: "tag_field op = (case tag_of op of None \<Rightarrow> [] | Some tag \<Rightarrow> append_u32 FIELD_DESTINATION_TAG tag)"
  by (cases op rule: tag_of.cases) simp_all

lemma u32_headers: "append_u32 FIELD_DESTINATION_TAG v = 0x2e # be_bytes 4 v" "append_u32 FIELD_LAST_LEDGER_SEQUENCE v = 0x20 # 0x1b # be_bytes 4 v"
  by (simp_all add: append_u32_def append_header_def TYPE_UINT32_def FIELD_DESTINATION_TAG_def FIELD_LAST_LEDGER_SEQUENCE_def)

lemma tag_inj:
  assumes "tag_field op @ append_u32 FIELD_LAST_LEDGER_SEQUENCE l @ r = tag_field op' @ append_u32 FIELD_LAST_LEDGER_SEQUENCE l' @ s"
  shows "tag_of op = tag_of op' \<and> l = l' \<and> r = s"
proof -
  have one: "append_u32 FIELD_LAST_LEDGER_SEQUENCE v @ x \<noteq> append_u32 FIELD_DESTINATION_TAG w @ y" for v w x y
    by (simp add: u32_headers)
  show ?thesis
  proof (cases "tag_of op")
    case None
    with assms one have "tag_of op' = None" by (auto simp: tag_field_of split: option.splits)
    with None assms show ?thesis by (simp add: tag_field_of) (rule append_u32_inj)
  next
    case (Some t)
    with assms one [symmetric] obtain t' where t': "tag_of op' = Some t'" by (auto simp: tag_field_of split: option.splits)
    with Some assms have "append_u32 FIELD_DESTINATION_TAG t @ append_u32 FIELD_LAST_LEDGER_SEQUENCE l @ r
        = append_u32 FIELD_DESTINATION_TAG t' @ append_u32 FIELD_LAST_LEDGER_SEQUENCE l' @ s" by (simp add: tag_field_of)
    note 1 = append_u32_inj [OF this]
    show ?thesis using append_u32_inj [OF conjunct2 [OF 1]] 1 Some t' by simp
  qed
qed

fun operation_view :: "'d xrp_lib \<Rightarrow> 'd xrp_operation \<Rightarrow>
    (u64 + (signer_error + u64) \<times> bytes \<times> xrp_address) \<times> (xrp_address \<times> xrp_payment_memo) option" where
  "operation_view L (XrpPayment a d m) = (amount_view L a, Some (d, m))"
| "operation_view L (TrustSet a) = (amount_view L a, None)"

fun operation_ok :: "'d xrp_operation \<Rightarrow> bool" where
  "operation_ok (XrpPayment a _ _) \<longleftrightarrow> amount_ok a"
| "operation_ok (TrustSet a) \<longleftrightarrow> amount_ok a"

lemma append_memo_inj:
  assumes "append_memo m = Ok b" "append_memo m' = Ok b" "\<And>t. m = DestinationTag t \<longleftrightarrow> m' = DestinationTag t"
  shows "m = m'"
proof -
  have ne: "append_memo (XrpMemo x) = Ok y \<Longrightarrow> y \<noteq> []" for x y by (auto simp: and_then_Inr_iff)
  show ?thesis
  proof (cases m)
    case (XrpMemo x)
    then obtain x' where x': "m' = XrpMemo x'" using assms(1,2) ne by (cases m') auto
    obtain y y' where y: "append_blob FIELD_MEMO_DATA x = Ok y" "append_blob FIELD_MEMO_DATA x' = Ok y'"
        "y @ [OBJECT_END_MARKER, ARRAY_END_MARKER] = y' @ [OBJECT_END_MARKER, ARRAY_END_MARKER]"
      using assms(1,2) XrpMemo x' by (auto simp: and_then_Inr_iff)
    show ?thesis using append_blob_inj [OF y] XrpMemo x' by simp
  next
    case XrpNoMemo
    then show ?thesis using assms ne by (cases m') auto
  next
    case (DestinationTag t)
    then show ?thesis using assms(3) [of t] by simp
  qed
qed

lemma operation_bytes_inj:
  assumes k: "transaction_type op = transaction_type op'" "tag_of op = tag_of op'" and ok: "operation_ok op" "operation_ok op'"
    and a: "operation_amount L op = Ok a" "operation_amount L op' = Ok a'"
    and t: "payment_tail op = Ok t" "payment_tail op' = Ok t'" 
    and e: "a @ r = a' @ s" "t = t'"
  shows "operation_view L op = operation_view L op'"
proof (cases op)
  case (XrpPayment v d m)
  then obtain v' d' m' where op': "op' = XrpPayment v' d' m'"
    using k(1) by (cases op') (simp_all add: TRANSACTION_TYPE_PAYMENT_def TRANSACTION_TYPE_TRUST_SET_def)
  have v: "amount_view L v = amount_view L v'"
    using append_amount_inj [OF _ _ _ _ e(1)] a ok XrpPayment op' by auto
  obtain x y x' y' where x: "append_address FIELD_DESTINATION d = Ok x" "append_memo m = Ok y" "t = x @ y"
      "append_address FIELD_DESTINATION d' = Ok x'" "append_memo m' = Ok y'" "t' = x' @ y'"
    using t XrpPayment op' by (auto simp: and_then_Inr_iff)
  have 1: "d = d' \<and> y = y'" by (rule append_address_inj [OF x(1,4)]) (use x(3,6) e(2) in simp)
  have "m = m'"
    using k(2) x(2,5) 1 XrpPayment op' by (intro append_memo_inj [of m y]) (auto, (cases m; cases m'; auto)+)
  then show ?thesis using v 1 XrpPayment op' by simp
next
  case (TrustSet v)
  then obtain v' where op': "op' = TrustSet v'"
    using k(1) by (cases op') (simp_all add: TRANSACTION_TYPE_PAYMENT_def TRANSACTION_TYPE_TRUST_SET_def)
  show ?thesis using append_amount_inj [OF _ _ _ _ e(1)] a ok TrustSet op' by auto
qed

lemma xrp_encode_bind:
  assumes t: "xrp_encode L t None = Ok b" "xrp_encode L t' None = Ok b"
    and ok: "operation_ok (xt_operation t)" "operation_ok (xt_operation t')" "unat (xt_fee t) < 2 ^ 62" "unat (xt_fee t') < 2 ^ 62"
  shows "xt_sequence t = xt_sequence t' \<and> xt_last_ledger_sequence t = xt_last_ledger_sequence t' \<and> xt_fee t = xt_fee t'
     \<and> xt_signing_pub_key t = xt_signing_pub_key t' \<and> xt_account t = xt_account t'
     \<and> operation_view L (xt_operation t) = operation_view L (xt_operation t')"
proof -
  let ?op = "xt_operation t" and ?op' = "xt_operation t'"
  obtain a f k c r where p: "operation_amount L ?op = Ok a" "append_amount L FIELD_FEE (NativeAmount (xt_fee t)) = Ok f"
      "append_blob FIELD_SIGNING_PUB_KEY (xt_signing_pub_key t) = Ok k" "append_address FIELD_ACCOUNT (xt_account t) = Ok c"
      "payment_tail ?op = Ok r"
      "b = append_u16 FIELD_TRANSACTION_TYPE (transaction_type ?op) @ append_u32 FIELD_FLAGS 0 @ append_u32 FIELD_SEQUENCE (xt_sequence t)
         @ tag_field ?op @ append_u32 FIELD_LAST_LEDGER_SEQUENCE (xt_last_ledger_sequence t) @ a @ f @ k @ c @ r"
    using t(1) by (auto simp: xrp_encode_def Let_def and_then_Inr_iff)
  obtain a' f' k' c' r' where p': "operation_amount L ?op' = Ok a'" "append_amount L FIELD_FEE (NativeAmount (xt_fee t')) = Ok f'"
      "append_blob FIELD_SIGNING_PUB_KEY (xt_signing_pub_key t') = Ok k'" "append_address FIELD_ACCOUNT (xt_account t') = Ok c'"
      "payment_tail ?op' = Ok r'"
      "b = append_u16 FIELD_TRANSACTION_TYPE (transaction_type ?op') @ append_u32 FIELD_FLAGS 0 @ append_u32 FIELD_SEQUENCE (xt_sequence t')
         @ tag_field ?op' @ append_u32 FIELD_LAST_LEDGER_SEQUENCE (xt_last_ledger_sequence t') @ a' @ f' @ k' @ c' @ r'"
    using t(2) by (auto simp: xrp_encode_def Let_def and_then_Inr_iff)
  note 1 = append_u16_inj [OF trans [OF p(6) [symmetric] p'(6)]]
  note 2 = append_u32_inj [OF conjunct2 [OF 1]]
  note 3 = append_u32_inj [OF conjunct2 [OF 2]]
  note 4 = tag_inj [OF conjunct2 [OF 3]]
  have e: "a @ f @ k @ c @ r = a' @ f' @ k' @ c' @ r'" using 4 by blast
  have "\<exists>F x x'. append_amount L F x = Ok a \<and> append_amount L F x' = Ok a' \<and> amount_ok x \<and> amount_ok x'"
    using p(1) p'(1) ok(1,2) conjunct1 [OF 1]
    by (cases ?op; cases ?op') (auto simp: TRANSACTION_TYPE_PAYMENT_def TRANSACTION_TYPE_TRUST_SET_def)
  then obtain F x x' where x: "append_amount L F x = Ok a" "append_amount L F x' = Ok a'" "amount_ok x" "amount_ok x'" by blast
  note 5 = append_amount_inj [OF x e]
  have n: "amount_ok (NativeAmount (xt_fee t) :: 'a xrp_amount)" "amount_ok (NativeAmount (xt_fee t') :: 'a xrp_amount)" using ok(3,4) by simp_all
  note 6 = append_amount_inj [OF p(2) p'(2) n conjunct2 [OF 5]]
  note 7 = append_blob_inj [OF p(3) p'(3) conjunct2 [OF 6]]
  note 8 = append_address_inj [OF p(4) p'(4) conjunct2 [OF 7]]
  have "operation_view L ?op = operation_view L ?op'"
    by (rule operation_bytes_inj [OF conjunct1 [OF 1] conjunct1 [OF 4] ok(1,2) p(1) p'(1) p(5) p'(5) e conjunct2 [OF 8]])
  then show ?thesis using 3 4 6 7 8 by simp
qed

text \<open>What the ledger does with a transaction, and the message that is hashed for its signature.\<close>

definition xrp_content :: "'d xrp_lib \<Rightarrow> 'd xrp_transaction \<Rightarrow>
    u32 \<times> u32 \<times> u64 \<times> bytes \<times> xrp_address \<times> (u64 + (signer_error + u64) \<times> bytes \<times> xrp_address) \<times> (xrp_address \<times> xrp_payment_memo) option" where
  "xrp_content L t = (xt_sequence t, xt_last_ledger_sequence t, xt_fee t, xt_signing_pub_key t, xt_account t, operation_view L (xt_operation t))"

definition xrp_message :: "'d xrp_lib \<Rightarrow> 'd xrp_transaction \<Rightarrow> bytes" where
  "xrp_message L t = SIGNING_PREFIX @ (case xrp_encode L t None of Inr b \<Rightarrow> b | Inl _ \<Rightarrow> [])"

definition xrp_accepted :: "'d xrp_lib \<Rightarrow> 'd xrp_transaction \<Rightarrow> bool" where
  "xrp_accepted L t \<longleftrightarrow> operation_ok (xt_operation t) \<and> unat (xt_fee t) < 2 ^ 62 \<and> (\<exists>b. xrp_encode L t None = Ok b)"

interpretation xrp_signer: binding_signer "xrp_accepted L" "xrp_message L" "xrp_content L" for L
proof
  fix t t' :: "'a xrp_transaction"
  assume ok: "xrp_accepted L t" "xrp_accepted L t'" and e: "xrp_message L t = xrp_message L t'"
  then obtain b where "xrp_encode L t None = Ok b" "xrp_encode L t' None = Ok b" by (auto simp: xrp_accepted_def xrp_message_def)
  from xrp_encode_bind [OF this] ok show "xrp_content L t = xrp_content L t'" by (simp add: xrp_accepted_def xrp_content_def)
qed

text \<open>The transactions the four entry points sign.\<close>

definition xrp_requested :: "'d xrp_lib \<Rightarrow> signer_input \<Rightarrow> bytes \<Rightarrow> 'd xrp_transaction \<Rightarrow> bool" where
  "xrp_requested L i k t \<longleftrightarrow> (\<exists>p a m. xrp_params_of L i k = Ok p \<and>
     (xrp_native (to_decimal (input_value i)) = Ok a \<and> xrp_payment_memo_of (get_memo i) = Ok m
        \<and> xrp_new_payment L p a (destination_address i) m = Ok t
    \<or> xrp_token_amount L i (to_decimal (input_value i)) = Ok a \<and> xrp_token_memo (get_memo i) = Ok m
        \<and> xrp_new_payment L p a (destination_address i) m = Ok t
    \<or> (\<exists>s. get_swap_data (input_type i) = Ok s \<and> xrp_native (to_decimal (swap_data_value (quote_data s))) = Ok a
        \<and> xrp_new_payment L p a (swap_to (quote_data s)) (xrp_swap_memo (quote_data s)) = Ok t)
    \<or> trust_line_limit_amount L i = Ok a \<and> t = xrp_new_trust_set p a))"

lemma xrp_entry_points:
  "xrp_sign_transfer L i k = Ok s \<Longrightarrow> \<exists>t. xrp_requested L i k t \<and> xrp_sign L t k = Ok s"
  "xrp_sign_token_transfer L i k = Ok s \<Longrightarrow> \<exists>t. xrp_requested L i k t \<and> xrp_sign L t k = Ok s"
  "xrp_sign_swap L i k = Ok [s] \<Longrightarrow> \<exists>t. xrp_requested L i k t \<and> xrp_sign L t k = Ok s"
  "xrp_sign_account_action L i k = Ok s \<Longrightarrow> \<exists>t. xrp_requested L i k t \<and> xrp_sign L t k = Ok s"
  unfolding xrp_requested_def
  by (force simp: xrp_sign_transfer_def xrp_sign_token_transfer_def xrp_sign_swap_def xrp_sign_account_action_def xrp_sign_payment_def
      and_then_Inr_iff)+

lemma xrp_parse_length: "xrp_parse L v = Ok a \<Longrightarrow> length (xrp_hash a) = 20"
  by (auto simp: xrp_parse_def xrp_try_parse_def ok_or_Inr_iff CLASSIC_ADDRESS_LENGTH_def CLASSIC_PUBLIC_KEY_HASH_LENGTH_def
      split: option.splits if_splits)

lemma currency_code_length: "currency_code_bytes L v = Ok b \<Longrightarrow> length b = 20"
  by (auto simp: currency_code_bytes_def decode_hex_array_def and_then_Inr_iff invalid_input_err_def CURRENCY_CODE_LENGTH_def
      STANDARD_CURRENCY_CODE_LENGTH_def STANDARD_CURRENCY_CODE_OFFSET_def split: if_splits sum.splits)

lemma xrp_issued_ok: "xrp_issued L v c i = Ok a \<Longrightarrow> amount_ok a"
  by (auto simp: xrp_issued_def new_issued_def and_then_Inr_iff dest: xrp_parse_length currency_code_length)

lemma xrp_native_ok: "xrp_native v = Ok a \<Longrightarrow> amount_ok a"
proof -
  assume "xrp_native v = Ok a"
  then obtain n where n: "a = NativeAmount n" "n \<le> MAX_DROPS"
    by (auto simp: xrp_native_def invalid_input_err_def not_less split: sum.splits if_splits)
  have "unat n \<le> 100000000000000000" using n(2) by (simp add: MAX_DROPS_def word_le_nat_alt)
  then show ?thesis using n(1) by simp
qed

lemma xrp_requested_ok: "xrp_requested L i k t \<Longrightarrow> operation_ok (xt_operation t)"
  by (auto simp: xrp_requested_def xrp_new_payment_def xrp_new_trust_set_def xrp_token_amount_def trust_line_limit_amount_def
      and_then_Inr_iff Let_def dest: xrp_issued_ok xrp_native_ok)

lemma xrp_requested_account: "xrp_requested L i k t \<Longrightarrow> length (xrp_hash (xt_account t)) = 20"
  by (auto simp: xrp_requested_def xrp_new_payment_def xrp_new_trust_set_def xrp_params_of_def and_then_Inr_iff dest: xrp_parse_length)

lemma xrp_sign_accepted:
  assumes "xrp_requested L i k t" "xrp_sign L t k = Ok s" "unat (xt_fee t) < 2 ^ 62"
  shows "xrp_accepted L t"
  using assms xrp_requested_ok [OF assms(1)] by (auto simp: xrp_accepted_def xrp_sign_def and_then_Inr_iff)

text \<open>
  \<open>s\<close> is the transaction \<open>t\<close> in hexadecimal with a signature field that holds, in DER, the signature of the digest \<open>dg\<close> under
  the key \<open>k\<close>.
\<close>

definition xrp_carries_signature :: "'d xrp_lib \<Rightarrow> 'd xrp_transaction \<Rightarrow> bytes \<Rightarrow> bytes \<Rightarrow> string \<Rightarrow> bool" where
  "xrp_carries_signature L t k dg s \<longleftrightarrow> (\<exists>sig der b. signer_sign_digest (xrp_ed L) (xrp_secp L) Secp256k1 dg k = Ok sig
     \<and> 64 \<le> length sig \<and> der_encode_signature (take 64 sig) = Ok der \<and> xrp_encode L t (Some der) = Ok b \<and> s = xrp_hex_encode L b)"

lemma xrp_sign_carries: "xrp_sign L t k = Ok s \<Longrightarrow> xrp_carries_signature L t k (sha512_half L (xrp_message L t)) s"
  by (auto simp: xrp_sign_def xrp_carries_signature_def xrp_message_def and_then_Inr_iff Let_def not_less split: if_splits)

lemma xrp_requested_fee:
  assumes "xrp_requested L i k t" "fee_total (input_fee i) < 2 ^ 62"
  shows "unat (xt_fee t) < 2 ^ 62"
proof -
  have "int_to_u64 (fee_total (input_fee i)) = Some (xt_fee t)" using assms(1)
    by (auto simp: xrp_requested_def xrp_new_payment_def xrp_new_trust_set_def xrp_params_of_def and_then_Inr_iff ok_or_Inr_iff)
  then have "int (unat (xt_fee t)) = fee_total (input_fee i)" by (rule unat_int_to_u64)
  then have "int (unat (xt_fee t)) < int (2 ^ 62)" using assms(2) by simp
  then show ?thesis by (simp only: of_nat_less_iff)
qed

text \<open>What one of the four entry points returned for a request.\<close>

definition xrp_signed :: "'d xrp_lib \<Rightarrow> signer_input \<Rightarrow> bytes \<Rightarrow> string \<Rightarrow> bool" where
  "xrp_signed L i k s \<longleftrightarrow> xrp_sign_transfer L i k = Ok s \<or> xrp_sign_token_transfer L i k = Ok s
     \<or> xrp_sign_swap L i k = Ok [s] \<or> xrp_sign_account_action L i k = Ok s"

lemma xrp_signed_request:
  assumes "xrp_signed L i k s" "fee_total (input_fee i) < 2 ^ 62"
  obtains t where "xrp_requested L i k t" "xrp_carries_signature L t k (sha512_half L (xrp_message L t)) s" "xrp_accepted L t"
proof -
  obtain t where t: "xrp_requested L i k t" "xrp_sign L t k = Ok s"
    using assms(1) xrp_entry_points [of L i k s] by (auto simp: xrp_signed_def)
  show thesis
    using that [OF t(1) xrp_sign_carries [OF t(2)]] xrp_sign_accepted [OF t xrp_requested_fee [OF t(1) assms(2)]] by blast
qed

text \<open>
  C39: The signature of an XRP transaction covers all of it. What any of the four entry points (transfer, token transfer, swap,
  trust line) returns is the requested transaction with a signature field holding the key's signature of the digest of the
  signing prefix and the whole unsigned transaction; and two such transactions whose signed digests are equal are the same for the
  ledger: sequence number, last valid ledger, fee, public key and account are equal, and so are the kind, the amount
  with its currency and issuer, the destination and the tag or memo, where the hash function does not collide on the
  two messages. Native amounts over the total supply are refused before; the fee is only required
  to stay below \<open>2 ^ 62\<close> drops.
\<close>

theorem xrp_signature_binds:
  assumes "xrp_signed L i k s" "xrp_signed L i' k' s'"
    and "fee_total (input_fee i) < 2 ^ 62" "fee_total (input_fee i') < 2 ^ 62"
  shows "\<exists>t t'. xrp_requested L i k t \<and> xrp_requested L i' k' t'
     \<and> xrp_carries_signature L t k (sha512_half L (xrp_message L t)) s
     \<and> xrp_carries_signature L t' k' (sha512_half L (xrp_message L t')) s'
     \<and> (sha512_half L (xrp_message L t) = sha512_half L (xrp_message L t')
          \<and> inj_on (sha512_half L) {xrp_message L t, xrp_message L t'} \<longrightarrow> xrp_content L t = xrp_content L t')"
proof -
  obtain t where t: "xrp_requested L i k t" "xrp_carries_signature L t k (sha512_half L (xrp_message L t)) s" "xrp_accepted L t"
    using xrp_signed_request [OF assms(1,3)] .
  obtain t' where t': "xrp_requested L i' k' t'" "xrp_carries_signature L t' k' (sha512_half L (xrp_message L t')) s'" "xrp_accepted L t'"
    using xrp_signed_request [OF assms(2,4)] .
  show ?thesis using t t' xrp_signer.digest_binds [OF t(3) t'(3)] by blast
qed

section \<open>Witnesses\<close>

text \<open>A library whose decimals are pairs of a mantissa and a scale.\<close>

definition demo_xrp :: "(int \<times> int) xrp_lib" where
  "demo_xrp = \<lparr>xrp_bs58_decode = (\<lambda>s. Some (0 # as_bytes s)), xrp_bs58_encode = from_bytes, xrp_hex_decode = (\<lambda>_. None),
     xrp_hex_encode = from_bytes, sha512_half = (\<lambda>b. b),
     xrp_ed = \<lparr>verifying_key = (\<lambda>k. k), signing_key_sign = (\<lambda>k d. take 64 (k @ d @ replicate 64 0))\<rparr>,
     xrp_secp = \<lparr>sign_prehash_recoverable = (\<lambda>k d. Some (replicate 64 0x90, 1)), sec1_public_key = (\<lambda>k. Some (replicate 33 2))\<rparr>,
     bd_from_str = (\<lambda>s. Some (int (length s), 0)), bd_is_zero = (\<lambda>(m, _). m = 0), bd_normalized = (\<lambda>d. d),
     bd_from_int = (\<lambda>n. (n, 0)), bd_div = (\<lambda>(m, s) _. (m, s)), bd_to_string = (\<lambda>(m, _). to_decimal (nat m))\<rparr>"

definition demo_xrp_input :: "nat \<Rightarrow> signer_input" where
  "demo_xrp_input v = \<lparr>input_type = TransferInput \<lparr>asset_ident = \<lparr>asset_chain = Xrp, token_id = None\<rparr>,
       asset_symbol = ''XRP'', asset_decimals = 6\<rparr>,
     sender_address = replicate 20 (CHR ''a''), destination_address = replicate 20 (CHR ''b''), input_value = v, load_gas_price = Regular 1,
     memo = Some ''7'', is_max_value = False, metadata = XrpMeta 7 100,
     input_fee = \<lparr>fee_total = 10, gas_price_type = Regular 1, fee_gas_limit = 0, fee_options = Map.empty\<rparr>\<rparr>"

definition demo_xrp_tx :: "u64 \<Rightarrow> (int \<times> int) xrp_transaction" where
  "demo_xrp_tx v = \<lparr>xt_sequence = 7, xt_last_ledger_sequence = 112, xt_fee = 10, xt_signing_pub_key = replicate 33 2,
     xt_account = \<lparr>xrp_hash = replicate 20 0x61\<rparr>,
     xt_operation = XrpPayment (NativeAmount v) \<lparr>xrp_hash = replicate 20 0x62\<rparr> (DestinationTag 7)\<rparr>"

lemma demo_xrp_signed: "\<exists>s. xrp_sign demo_xrp (demo_xrp_tx v) k = Ok s"
proof -
  obtain d where d: "der_encode_signature (replicate 64 0x90) = Ok d" "length d \<le> 72"
    using read_der_integer_encode [of "replicate 32 0x90" "[]"] by (auto simp: der_encode_signature_def Let_def)
  show ?thesis using d
    by (simp add: xrp_sign_def xrp_encode_def demo_xrp_tx_def append_amount_def append_blob_def append_address_def append_variable_length_def
        Let_def demo_xrp_def sign_digest_append_recovery_def secp256k1_sign_digest_def)
qed

lemma demo_xrp_transfer:
  fixes v :: u64
  assumes "v = 5 \<or> v = 6"
  shows "\<exists>s. xrp_signed demo_xrp (demo_xrp_input (unat v)) k s"
proof -
  have a: "xrp_native (to_decimal (unat v)) = (Ok (NativeAmount v) :: (int \<times> int) xrp_amount signer_result)"
    using assms by (auto simp: xrp_native_def MAX_DROPS_def word_less_nat_alt)
  have m: "xrp_payment_memo_of (Some ''7'') = Ok (DestinationTag 7)" by code_simp
  have p: "xrp_params_of demo_xrp (demo_xrp_input n) k = Ok \<lparr>xp_account = \<lparr>xrp_hash = replicate 20 0x61\<rparr>, xp_fee = 10, xp_sequence = 7,
      xp_last_ledger_sequence = 112, xp_signing_pub_key = replicate 33 2\<rparr>" for n
    by (simp add: xrp_params_of_def demo_xrp_def demo_xrp_input_def get_block_number_def get_sequence_def checked_add_def LEDGER_SEQUENCE_OFFSET_def
        xrp_parse_def xrp_try_parse_def CLASSIC_ADDRESS_LENGTH_def CLASSIC_PUBLIC_KEY_HASH_LENGTH_def int_to_u64_def u32_try_from_display_def
        u32_try_from_def secp256k1_public_key_def as_bytes_def)
  have d: "xrp_parse demo_xrp (replicate 20 (CHR ''b'')) = Ok \<lparr>xrp_hash = replicate 20 0x62\<rparr>"
    by (simp add: demo_xrp_def xrp_parse_def xrp_try_parse_def CLASSIC_ADDRESS_LENGTH_def CLASSIC_PUBLIC_KEY_HASH_LENGTH_def as_bytes_def)
  have i: "input_value (demo_xrp_input n) = n" "get_memo (demo_xrp_input n) = Some ''7''"
    "destination_address (demo_xrp_input n) = replicate 20 (CHR ''b'')" for n by (simp_all add: demo_xrp_input_def get_memo_def)
  have "xrp_sign_transfer demo_xrp (demo_xrp_input (unat v)) k = xrp_sign demo_xrp (demo_xrp_tx v) k"
    by (simp add: xrp_sign_transfer_def xrp_sign_payment_def i a m p xrp_new_payment_def d demo_xrp_tx_def)
  then show ?thesis using demo_xrp_signed [of v k] by (auto simp: xrp_signed_def)
qed

theorem xrp_signature_binds_witness:
  "\<exists>s s' t t'. xrp_signed demo_xrp (demo_xrp_input 5) [7] s \<and> xrp_signed demo_xrp (demo_xrp_input 6) [7] s'
     \<and> xrp_carries_signature demo_xrp t [7] (xrp_message demo_xrp t) s \<and> xrp_carries_signature demo_xrp t' [7] (xrp_message demo_xrp t') s'"
proof -
  obtain s s' where s: "xrp_signed demo_xrp (demo_xrp_input 5) [7] s" "xrp_signed demo_xrp (demo_xrp_input 6) [7] s'"
    using demo_xrp_transfer [of 5 "[7]"] demo_xrp_transfer [of 6 "[7]"] by auto
  have h: "sha512_half demo_xrp = (\<lambda>b. b)" by (simp add: demo_xrp_def)
  have f: "fee_total (input_fee (demo_xrp_input v)) < 2 ^ 62" for v by (simp add: demo_xrp_input_def)
  from xrp_signature_binds [OF s f f] show ?thesis unfolding h using s by auto
qed

theorem xrp_amount_exact_witness:
  "\<exists>w mant ex. encoded_value demo_xrp (-25, 1) = Ok w \<and> read_issued w = (False, mant, ex) \<and> mant * 10 ^ nat (ex + 96) = 25 * 10 ^ 95"
proof -
  have g: "grow_mantissa 25 (-1) = (2500000000000000, -15)"
    by (simp add: grow_mantissa.simps MIN_MANTISSA_def MIN_IOU_EXPONENT_def)
  have "as_i32 1 = 1" by (simp add: as_i32_def)
  then obtain w where w: "encoded_value demo_xrp (-25, 1) = Ok w"
    by (simp add: encoded_value_def validate_issued_value_def issued_amount_precision_def issued_amount_exponent_def demo_xrp_def g
        shrink_mantissa.simps to_decimal.simps MIN_MANTISSA_def MAX_MANTISSA_def MIN_IOU_EXPONENT_def MAX_IOU_EXPONENT_def MAX_IOU_PRECISION_def)
  from xrp_amount_exact [OF w, of "-25" 1] show ?thesis
    using w by (cases "read_issued w") (simp add: demo_xrp_def)
qed

theorem xrp_der_reads_back_witness:
  "\<exists>d. der_encode_signature (replicate 64 0x90) = Ok d \<and> length d \<le> 72
     \<and> read_der d = Some (nat_from_bytes_be (replicate 32 0x90), nat_from_bytes_be (replicate 32 0x90))"
  using xrp_der_reads_back [of "replicate 64 0x90"] by simp

end
