(* ===== verification/Chain_Config.thy ===== *)
theory Chain_Config
  imports Chains Wallet_Types
begin

text \<open>
  The static configuration of every chain (\<open>crates/primitives/src/chain_config.rs\<close>), one definition per
  entry of \<open>CHAIN_CONFIGS\<close>, the accessors of \<open>Chain\<close> that read it (\<open>chain.rs\<close>), the Cosmos and staking
  sub-enumerations (\<open>chain_cosmos.rs\<close>, \<open>chain_stake.rs\<close>, \<open>gemstone/src/config/stake.rs\<close>) and the
  timeouts computed from the block times (\<open>chain_transaction_timeout.rs\<close>). The code panics where an entry
  is missing; here a lookup is an option and the facts show that it is never \<open>None\<close>.
\<close>

section \<open>Cosmos chains\<close>

datatype cosmos_chain =
    C_Cosmos | C_Osmosis | C_Celestia | C_Thorchain | C_Mayachain | C_Injective | C_Sei | C_Noble

primrec cosmos_hrp :: "cosmos_chain \<Rightarrow> string" where
  "cosmos_hrp C_Cosmos = ''cosmos''"
| "cosmos_hrp C_Osmosis = ''osmo''"
| "cosmos_hrp C_Celestia = ''celestia''"
| "cosmos_hrp C_Thorchain = ''thor''"
| "cosmos_hrp C_Mayachain = ''maya''"
| "cosmos_hrp C_Injective = ''inj''"
| "cosmos_hrp C_Sei = ''sei''"
| "cosmos_hrp C_Noble = ''noble''"

primrec cosmos_denom :: "cosmos_chain \<Rightarrow> string" where
  "cosmos_denom C_Cosmos = ''uatom''"
| "cosmos_denom C_Osmosis = ''uosmo''"
| "cosmos_denom C_Celestia = ''utia''"
| "cosmos_denom C_Thorchain = ''rune''"
| "cosmos_denom C_Mayachain = ''cacao''"
| "cosmos_denom C_Injective = ''inj''"
| "cosmos_denom C_Sei = ''usei''"
| "cosmos_denom C_Noble = ''uusdc''"

section \<open>Configurations\<close>

definition NO_NATIVE_ASSET_RANK :: int where "NO_NATIVE_ASSET_RANK = - 1"

datatype chain_stack = NativeStack | OptimismStack | ZkSyncStack

record evm_chain_config =
  evm_min_priority_fee :: u64
  evm_chain_stack :: chain_stack
  evm_is_ethereum_layer2 :: bool
  evm_weth_contract :: "string option"

record stake_chain_config =
  stk_lock_time :: u64
  stk_min_stake_amount :: u64
  stk_change_amount_on_unstake :: bool
  stk_can_redelegate :: bool
  stk_can_withdraw :: bool
  stk_can_claim_rewards :: bool
  stk_can_claim_all_rewards :: bool
  stk_reserved_for_fees :: u64

text \<open>The signed fields (\<open>slip44\<close>, the activation fees, the rank) are kept as integers.\<close>

record chain_config =
  cfg_chain :: chain
  cfg_network_id :: string
  cfg_denom :: "string option"
  cfg_slip44 :: int
  cfg_chain_type :: chain_type
  cfg_default_asset_type :: "asset_type option"
  cfg_account_activation_fee :: "int option"
  cfg_token_activation_fee :: "int option"
  cfg_minimum_account_balance :: "u64 option"
  cfg_block_time :: u32
  cfg_rank :: int
  cfg_is_swap_supported :: bool
  cfg_is_nft_supported :: bool
  cfg_is_defi_supported :: bool
  cfg_is_utxo :: bool
  cfg_evm :: "evm_chain_config option"
  cfg_stake :: "stake_chain_config option"

definition config_bitcoin :: chain_config where
  "config_bitcoin = \<lparr>cfg_chain = Bitcoin,
     cfg_network_id = ''000000000019d6689c085ae165831e934ff763ae46a2a6c172b3f1b60a8ce26f'', cfg_denom = None,
     cfg_slip44 = 0, cfg_chain_type = BitcoinType, cfg_default_asset_type = None,
     cfg_account_activation_fee = None, cfg_token_activation_fee = None, cfg_minimum_account_balance = None,
     cfg_block_time = 600000, cfg_rank = 100, cfg_is_swap_supported = True, cfg_is_nft_supported = False,
     cfg_is_defi_supported = False, cfg_is_utxo = True, cfg_evm = None, cfg_stake = None\<rparr>"

definition config_bitcoincash :: chain_config where
  "config_bitcoincash = \<lparr>cfg_chain = BitcoinCash,
     cfg_network_id = ''000000000019d6689c085ae165831e934ff763ae46a2a6c172b3f1b60a8ce26f'', cfg_denom = None,
     cfg_slip44 = 145, cfg_chain_type = BitcoinType, cfg_default_asset_type = None,
     cfg_account_activation_fee = None, cfg_token_activation_fee = None, cfg_minimum_account_balance = None,
     cfg_block_time = 600000, cfg_rank = 40, cfg_is_swap_supported = True, cfg_is_nft_supported = False,
     cfg_is_defi_supported = False, cfg_is_utxo = True, cfg_evm = None, cfg_stake = None\<rparr>"

definition config_litecoin :: chain_config where
  "config_litecoin = \<lparr>cfg_chain = Litecoin,
     cfg_network_id = ''12a765e31ffd4059bada1e25190f6e98c99d9714d334efa41a195a7e7e04bfe2'', cfg_denom = None,
     cfg_slip44 = 2, cfg_chain_type = BitcoinType, cfg_default_asset_type = None,
     cfg_account_activation_fee = None, cfg_token_activation_fee = None, cfg_minimum_account_balance = None,
     cfg_block_time = 120000, cfg_rank = 30, cfg_is_swap_supported = True, cfg_is_nft_supported = False,
     cfg_is_defi_supported = False, cfg_is_utxo = True, cfg_evm = None, cfg_stake = None\<rparr>"

definition config_ethereum :: chain_config where
  "config_ethereum = \<lparr>cfg_chain = Ethereum, cfg_network_id = ''1'', cfg_denom = None, cfg_slip44 = 60,
     cfg_chain_type = EthereumType, cfg_default_asset_type = Some ERC20, cfg_account_activation_fee = None,
     cfg_token_activation_fee = None, cfg_minimum_account_balance = None, cfg_block_time = 12000,
     cfg_rank = 85, cfg_is_swap_supported = True, cfg_is_nft_supported = True, cfg_is_defi_supported = True,
     cfg_is_utxo = False,
     cfg_evm = Some \<lparr>evm_min_priority_fee = 100000000, evm_chain_stack = NativeStack, evm_is_ethereum_layer2 = False, evm_weth_contract = Some ''0xC02aaA39b223FE8D0A0e5C4F27eAD9083C756Cc2''\<rparr>,
     cfg_stake = Some \<lparr>stk_lock_time = 259200, stk_min_stake_amount = 10000000000000000, stk_change_amount_on_unstake = True, stk_can_redelegate = False, stk_can_withdraw = True, stk_can_claim_rewards = False, stk_can_claim_all_rewards = False, stk_reserved_for_fees = 5000000000000000\<rparr>\<rparr>"

definition config_smartchain :: chain_config where
  "config_smartchain = \<lparr>cfg_chain = SmartChain, cfg_network_id = ''56'', cfg_denom = None, cfg_slip44 = 9006,
     cfg_chain_type = EthereumType, cfg_default_asset_type = Some BEP20, cfg_account_activation_fee = None,
     cfg_token_activation_fee = None, cfg_minimum_account_balance = None, cfg_block_time = 1000,
     cfg_rank = 80, cfg_is_swap_supported = True, cfg_is_nft_supported = True, cfg_is_defi_supported = True,
     cfg_is_utxo = False,
     cfg_evm = Some \<lparr>evm_min_priority_fee = 50000000, evm_chain_stack = NativeStack, evm_is_ethereum_layer2 = False, evm_weth_contract = Some ''0xbb4CdB9CBd36B01bD1cBaEBF2De08d9173bc095c''\<rparr>,
     cfg_stake = Some \<lparr>stk_lock_time = 604800, stk_min_stake_amount = 1000000000000000000, stk_change_amount_on_unstake = True, stk_can_redelegate = True, stk_can_withdraw = True, stk_can_claim_rewards = False, stk_can_claim_all_rewards = False, stk_reserved_for_fees = 250000000000000\<rparr>\<rparr>"

definition config_solana :: chain_config where
  "config_solana = \<lparr>cfg_chain = Solana, cfg_network_id = ''5eykt4UsFv8P8NJdTREpY1vzqKqZKvdpKuc147dw2N9d'', cfg_denom = None,
     cfg_slip44 = 501, cfg_chain_type = SolanaType, cfg_default_asset_type = Some SPL,
     cfg_account_activation_fee = None, cfg_token_activation_fee = Some 2039280,
     cfg_minimum_account_balance = Some 890880, cfg_block_time = 500, cfg_rank = 80,
     cfg_is_swap_supported = True, cfg_is_nft_supported = True, cfg_is_defi_supported = True,
     cfg_is_utxo = False, cfg_evm = None,
     cfg_stake = Some \<lparr>stk_lock_time = 259200, stk_min_stake_amount = 1000000000, stk_change_amount_on_unstake = False, stk_can_redelegate = False, stk_can_withdraw = True, stk_can_claim_rewards = False, stk_can_claim_all_rewards = False, stk_reserved_for_fees = 5000000\<rparr>\<rparr>"

definition config_polygon :: chain_config where
  "config_polygon = \<lparr>cfg_chain = Polygon, cfg_network_id = ''137'', cfg_denom = None, cfg_slip44 = 60,
     cfg_chain_type = EthereumType, cfg_default_asset_type = Some ERC20, cfg_account_activation_fee = None,
     cfg_token_activation_fee = None, cfg_minimum_account_balance = None, cfg_block_time = 3000,
     cfg_rank = 30, cfg_is_swap_supported = True, cfg_is_nft_supported = True, cfg_is_defi_supported = True,
     cfg_is_utxo = False,
     cfg_evm = Some \<lparr>evm_min_priority_fee = 30000000000, evm_chain_stack = NativeStack, evm_is_ethereum_layer2 = False, evm_weth_contract = Some ''0x0d500B1d8E8eF31E21C99d1Db9A6444d3ADf1270''\<rparr>,
     cfg_stake = None\<rparr>"

definition config_thorchain :: chain_config where
  "config_thorchain = \<lparr>cfg_chain = Thorchain, cfg_network_id = ''thorchain-1'', cfg_denom = Some (cosmos_denom C_Thorchain),
     cfg_slip44 = 931, cfg_chain_type = CosmosType, cfg_default_asset_type = None,
     cfg_account_activation_fee = None, cfg_token_activation_fee = None, cfg_minimum_account_balance = None,
     cfg_block_time = 2000, cfg_rank = 30, cfg_is_swap_supported = True, cfg_is_nft_supported = False,
     cfg_is_defi_supported = False, cfg_is_utxo = False, cfg_evm = None, cfg_stake = None\<rparr>"

definition config_mayachain :: chain_config where
  "config_mayachain = \<lparr>cfg_chain = Mayachain, cfg_network_id = ''mayachain-mainnet-v1'',
     cfg_denom = Some (cosmos_denom C_Mayachain), cfg_slip44 = 931, cfg_chain_type = CosmosType,
     cfg_default_asset_type = None, cfg_account_activation_fee = None, cfg_token_activation_fee = None,
     cfg_minimum_account_balance = None, cfg_block_time = 6000, cfg_rank = 30, cfg_is_swap_supported = False,
     cfg_is_nft_supported = False, cfg_is_defi_supported = False, cfg_is_utxo = False, cfg_evm = None,
     cfg_stake = None\<rparr>"

definition config_cosmos :: chain_config where
  "config_cosmos = \<lparr>cfg_chain = Cosmos, cfg_network_id = ''cosmoshub-4'', cfg_denom = Some (cosmos_denom C_Cosmos),
     cfg_slip44 = 118, cfg_chain_type = CosmosType, cfg_default_asset_type = None,
     cfg_account_activation_fee = None, cfg_token_activation_fee = None, cfg_minimum_account_balance = None,
     cfg_block_time = 6000, cfg_rank = 40, cfg_is_swap_supported = True, cfg_is_nft_supported = False,
     cfg_is_defi_supported = False, cfg_is_utxo = False, cfg_evm = None,
     cfg_stake = Some \<lparr>stk_lock_time = 1814400, stk_min_stake_amount = 0, stk_change_amount_on_unstake = True, stk_can_redelegate = True, stk_can_withdraw = False, stk_can_claim_rewards = True, stk_can_claim_all_rewards = True, stk_reserved_for_fees = 25000\<rparr>\<rparr>"

definition config_osmosis :: chain_config where
  "config_osmosis = \<lparr>cfg_chain = Osmosis, cfg_network_id = ''osmosis-1'', cfg_denom = Some (cosmos_denom C_Osmosis),
     cfg_slip44 = 118, cfg_chain_type = CosmosType, cfg_default_asset_type = None,
     cfg_account_activation_fee = None, cfg_token_activation_fee = None, cfg_minimum_account_balance = None,
     cfg_block_time = 6000, cfg_rank = 50, cfg_is_swap_supported = True, cfg_is_nft_supported = False,
     cfg_is_defi_supported = False, cfg_is_utxo = False, cfg_evm = None,
     cfg_stake = Some \<lparr>stk_lock_time = 1209600, stk_min_stake_amount = 0, stk_change_amount_on_unstake = True, stk_can_redelegate = True, stk_can_withdraw = False, stk_can_claim_rewards = True, stk_can_claim_all_rewards = True, stk_reserved_for_fees = 10000\<rparr>\<rparr>"

definition config_arbitrum :: chain_config where
  "config_arbitrum = \<lparr>cfg_chain = Arbitrum, cfg_network_id = ''42161'', cfg_denom = None, cfg_slip44 = 60,
     cfg_chain_type = EthereumType, cfg_default_asset_type = Some ERC20, cfg_account_activation_fee = None,
     cfg_token_activation_fee = None, cfg_minimum_account_balance = None, cfg_block_time = 1000,
     cfg_rank = 30, cfg_is_swap_supported = True, cfg_is_nft_supported = False, cfg_is_defi_supported = True,
     cfg_is_utxo = False,
     cfg_evm = Some \<lparr>evm_min_priority_fee = 10000000, evm_chain_stack = NativeStack, evm_is_ethereum_layer2 = True, evm_weth_contract = Some ''0x82aF49447D8a07e3bd95BD0d56f35241523fBab1''\<rparr>,
     cfg_stake = None\<rparr>"

definition config_ton :: chain_config where
  "config_ton = \<lparr>cfg_chain = Ton, cfg_network_id = ''F6OpKZKqvqeFp6CQmFomXNMfMj2EnaUSOXN+Mh+wVWk='', cfg_denom = None,
     cfg_slip44 = 607, cfg_chain_type = TonType, cfg_default_asset_type = Some JETTON,
     cfg_account_activation_fee = None, cfg_token_activation_fee = None, cfg_minimum_account_balance = None,
     cfg_block_time = 5000, cfg_rank = 50, cfg_is_swap_supported = True, cfg_is_nft_supported = True,
     cfg_is_defi_supported = False, cfg_is_utxo = False, cfg_evm = None, cfg_stake = None\<rparr>"

definition config_tron :: chain_config where
  "config_tron = \<lparr>cfg_chain = Tron, cfg_network_id = ''0x2b6653dc'', cfg_denom = None, cfg_slip44 = 195,
     cfg_chain_type = TronType, cfg_default_asset_type = Some TRC20, cfg_account_activation_fee = None,
     cfg_token_activation_fee = None, cfg_minimum_account_balance = None, cfg_block_time = 3000,
     cfg_rank = 70, cfg_is_swap_supported = True, cfg_is_nft_supported = False,
     cfg_is_defi_supported = False, cfg_is_utxo = False, cfg_evm = None,
     cfg_stake = Some \<lparr>stk_lock_time = 1209600, stk_min_stake_amount = 1000000, stk_change_amount_on_unstake = True, stk_can_redelegate = True, stk_can_withdraw = True, stk_can_claim_rewards = True, stk_can_claim_all_rewards = True, stk_reserved_for_fees = 10000000\<rparr>\<rparr>"

definition config_doge :: chain_config where
  "config_doge = \<lparr>cfg_chain = Doge, cfg_network_id = ''1a91e3dace36e2be3bf030a65679fe821aa1d6ef92e7c9902eb318182c355691'',
     cfg_denom = None, cfg_slip44 = 3, cfg_chain_type = BitcoinType, cfg_default_asset_type = None,
     cfg_account_activation_fee = None, cfg_token_activation_fee = None, cfg_minimum_account_balance = None,
     cfg_block_time = 60000, cfg_rank = 30, cfg_is_swap_supported = True, cfg_is_nft_supported = False,
     cfg_is_defi_supported = False, cfg_is_utxo = True, cfg_evm = None, cfg_stake = None\<rparr>"

definition config_zcash :: chain_config where
  "config_zcash = \<lparr>cfg_chain = Zcash,
     cfg_network_id = ''00040fe8ec8471911baa1db1266ea15dd06b4a8a5c453883c000b031973dce08'', cfg_denom = None,
     cfg_slip44 = 133, cfg_chain_type = BitcoinType, cfg_default_asset_type = None,
     cfg_account_activation_fee = None, cfg_token_activation_fee = None, cfg_minimum_account_balance = None,
     cfg_block_time = 75000, cfg_rank = 30, cfg_is_swap_supported = True, cfg_is_nft_supported = False,
     cfg_is_defi_supported = False, cfg_is_utxo = True, cfg_evm = None, cfg_stake = None\<rparr>"

definition config_optimism :: chain_config where
  "config_optimism = \<lparr>cfg_chain = Optimism, cfg_network_id = ''10'', cfg_denom = None, cfg_slip44 = 60,
     cfg_chain_type = EthereumType, cfg_default_asset_type = Some ERC20, cfg_account_activation_fee = None,
     cfg_token_activation_fee = None, cfg_minimum_account_balance = None, cfg_block_time = 2000,
     cfg_rank = 30, cfg_is_swap_supported = True, cfg_is_nft_supported = False, cfg_is_defi_supported = True,
     cfg_is_utxo = False,
     cfg_evm = Some \<lparr>evm_min_priority_fee = 1000000, evm_chain_stack = OptimismStack, evm_is_ethereum_layer2 = True, evm_weth_contract = Some ''0x4200000000000000000000000000000000000006''\<rparr>,
     cfg_stake = None\<rparr>"

definition config_aptos :: chain_config where
  "config_aptos = \<lparr>cfg_chain = Aptos, cfg_network_id = ''1'', cfg_denom = Some ''0x1::aptos_coin::AptosCoin'',
     cfg_slip44 = 637, cfg_chain_type = AptosType, cfg_default_asset_type = Some TOKEN,
     cfg_account_activation_fee = None, cfg_token_activation_fee = None, cfg_minimum_account_balance = None,
     cfg_block_time = 500, cfg_rank = 40, cfg_is_swap_supported = True, cfg_is_nft_supported = False,
     cfg_is_defi_supported = False, cfg_is_utxo = False, cfg_evm = None,
     cfg_stake = Some \<lparr>stk_lock_time = 2592000, stk_min_stake_amount = 1100000000, stk_change_amount_on_unstake = False, stk_can_redelegate = False, stk_can_withdraw = True, stk_can_claim_rewards = False, stk_can_claim_all_rewards = False, stk_reserved_for_fees = 1000000\<rparr>\<rparr>"

definition config_base :: chain_config where
  "config_base = \<lparr>cfg_chain = Base, cfg_network_id = ''8453'', cfg_denom = None, cfg_slip44 = 60,
     cfg_chain_type = EthereumType, cfg_default_asset_type = Some ERC20, cfg_account_activation_fee = None,
     cfg_token_activation_fee = None, cfg_minimum_account_balance = None, cfg_block_time = 2000,
     cfg_rank = 30, cfg_is_swap_supported = True, cfg_is_nft_supported = False, cfg_is_defi_supported = True,
     cfg_is_utxo = False,
     cfg_evm = Some \<lparr>evm_min_priority_fee = 5000000, evm_chain_stack = OptimismStack, evm_is_ethereum_layer2 = True, evm_weth_contract = Some ''0x4200000000000000000000000000000000000006''\<rparr>,
     cfg_stake = None\<rparr>"

definition config_avalanchec :: chain_config where
  "config_avalanchec = \<lparr>cfg_chain = AvalancheC, cfg_network_id = ''43114'', cfg_denom = None, cfg_slip44 = 9005,
     cfg_chain_type = EthereumType, cfg_default_asset_type = Some ERC20, cfg_account_activation_fee = None,
     cfg_token_activation_fee = None, cfg_minimum_account_balance = None, cfg_block_time = 2000,
     cfg_rank = 30, cfg_is_swap_supported = True, cfg_is_nft_supported = False, cfg_is_defi_supported = True,
     cfg_is_utxo = False,
     cfg_evm = Some \<lparr>evm_min_priority_fee = 25000000000, evm_chain_stack = NativeStack, evm_is_ethereum_layer2 = False, evm_weth_contract = Some ''0xB31f66AA3C1e785363F0875A1B74E27b85FD66c7''\<rparr>,
     cfg_stake = None\<rparr>"

definition config_sui :: chain_config where
  "config_sui = \<lparr>cfg_chain = Sui, cfg_network_id = ''35834a8a'', cfg_denom = Some ''0x2::sui::SUI'', cfg_slip44 = 784,
     cfg_chain_type = SuiType, cfg_default_asset_type = Some TOKEN, cfg_account_activation_fee = None,
     cfg_token_activation_fee = None, cfg_minimum_account_balance = None, cfg_block_time = 500,
     cfg_rank = 40, cfg_is_swap_supported = True, cfg_is_nft_supported = False,
     cfg_is_defi_supported = False, cfg_is_utxo = False, cfg_evm = None,
     cfg_stake = Some \<lparr>stk_lock_time = 86400, stk_min_stake_amount = 1000000000, stk_change_amount_on_unstake = False, stk_can_redelegate = False, stk_can_withdraw = False, stk_can_claim_rewards = False, stk_can_claim_all_rewards = False, stk_reserved_for_fees = 100000000\<rparr>\<rparr>"

definition config_xrp :: chain_config where
  "config_xrp = \<lparr>cfg_chain = Xrp, cfg_network_id = ''0'', cfg_denom = None, cfg_slip44 = 144, cfg_chain_type = XrpType,
     cfg_default_asset_type = Some TOKEN, cfg_account_activation_fee = Some 1000000,
     cfg_token_activation_fee = Some 200000, cfg_minimum_account_balance = None, cfg_block_time = 4000,
     cfg_rank = 40, cfg_is_swap_supported = True, cfg_is_nft_supported = False,
     cfg_is_defi_supported = False, cfg_is_utxo = False, cfg_evm = None, cfg_stake = None\<rparr>"

definition config_opbnb :: chain_config where
  "config_opbnb = \<lparr>cfg_chain = OpBNB, cfg_network_id = ''204'', cfg_denom = None, cfg_slip44 = 60,
     cfg_chain_type = EthereumType, cfg_default_asset_type = Some BEP20, cfg_account_activation_fee = None,
     cfg_token_activation_fee = None, cfg_minimum_account_balance = None, cfg_block_time = 1000,
     cfg_rank = 30, cfg_is_swap_supported = True, cfg_is_nft_supported = False,
     cfg_is_defi_supported = False, cfg_is_utxo = False,
     cfg_evm = Some \<lparr>evm_min_priority_fee = 1000000, evm_chain_stack = OptimismStack, evm_is_ethereum_layer2 = False, evm_weth_contract = Some ''0x4200000000000000000000000000000000000006''\<rparr>,
     cfg_stake = None\<rparr>"

definition config_fantom :: chain_config where
  "config_fantom = \<lparr>cfg_chain = Fantom, cfg_network_id = ''250'', cfg_denom = None, cfg_slip44 = 60,
     cfg_chain_type = EthereumType, cfg_default_asset_type = Some ERC20, cfg_account_activation_fee = None,
     cfg_token_activation_fee = None, cfg_minimum_account_balance = None, cfg_block_time = 1000,
     cfg_rank = 30, cfg_is_swap_supported = True, cfg_is_nft_supported = False, cfg_is_defi_supported = True,
     cfg_is_utxo = False,
     cfg_evm = Some \<lparr>evm_min_priority_fee = 3500000000, evm_chain_stack = NativeStack, evm_is_ethereum_layer2 = False, evm_weth_contract = Some ''0x21be370D5312f44cB42ce377BC9b8a0cEF1A4C83''\<rparr>,
     cfg_stake = None\<rparr>"

definition config_gnosis :: chain_config where
  "config_gnosis = \<lparr>cfg_chain = Gnosis, cfg_network_id = ''100'', cfg_denom = None, cfg_slip44 = 60,
     cfg_chain_type = EthereumType, cfg_default_asset_type = Some ERC20, cfg_account_activation_fee = None,
     cfg_token_activation_fee = None, cfg_minimum_account_balance = None, cfg_block_time = 5000,
     cfg_rank = 30, cfg_is_swap_supported = True, cfg_is_nft_supported = False, cfg_is_defi_supported = True,
     cfg_is_utxo = False,
     cfg_evm = Some \<lparr>evm_min_priority_fee = 3000000000, evm_chain_stack = NativeStack, evm_is_ethereum_layer2 = False, evm_weth_contract = Some ''0xe91D153E0b41518A2Ce8Dd3D7944Fa863463a97d''\<rparr>,
     cfg_stake = None\<rparr>"

definition config_celestia :: chain_config where
  "config_celestia = \<lparr>cfg_chain = Celestia, cfg_network_id = ''celestia'', cfg_denom = Some (cosmos_denom C_Celestia),
     cfg_slip44 = 118, cfg_chain_type = CosmosType, cfg_default_asset_type = None,
     cfg_account_activation_fee = None, cfg_token_activation_fee = None, cfg_minimum_account_balance = None,
     cfg_block_time = 6000, cfg_rank = 40, cfg_is_swap_supported = False, cfg_is_nft_supported = False,
     cfg_is_defi_supported = False, cfg_is_utxo = False, cfg_evm = None,
     cfg_stake = Some \<lparr>stk_lock_time = 1209600, stk_min_stake_amount = 0, stk_change_amount_on_unstake = True, stk_can_redelegate = True, stk_can_withdraw = False, stk_can_claim_rewards = True, stk_can_claim_all_rewards = True, stk_reserved_for_fees = 100000\<rparr>\<rparr>"

definition config_injective :: chain_config where
  "config_injective = \<lparr>cfg_chain = Injective, cfg_network_id = ''injective-1'', cfg_denom = Some (cosmos_denom C_Injective),
     cfg_slip44 = 60, cfg_chain_type = CosmosType, cfg_default_asset_type = None,
     cfg_account_activation_fee = None, cfg_token_activation_fee = None, cfg_minimum_account_balance = None,
     cfg_block_time = 6000, cfg_rank = 40, cfg_is_swap_supported = False, cfg_is_nft_supported = False,
     cfg_is_defi_supported = False, cfg_is_utxo = False, cfg_evm = None,
     cfg_stake = Some \<lparr>stk_lock_time = 1814400, stk_min_stake_amount = 0, stk_change_amount_on_unstake = True, stk_can_redelegate = True, stk_can_withdraw = False, stk_can_claim_rewards = True, stk_can_claim_all_rewards = True, stk_reserved_for_fees = 10000000000000000\<rparr>\<rparr>"

definition config_sei :: chain_config where
  "config_sei = \<lparr>cfg_chain = Sei, cfg_network_id = ''pacific-1'', cfg_denom = Some (cosmos_denom C_Sei),
     cfg_slip44 = 118, cfg_chain_type = CosmosType, cfg_default_asset_type = None,
     cfg_account_activation_fee = None, cfg_token_activation_fee = None, cfg_minimum_account_balance = None,
     cfg_block_time = 1000, cfg_rank = 30, cfg_is_swap_supported = False, cfg_is_nft_supported = False,
     cfg_is_defi_supported = False, cfg_is_utxo = False, cfg_evm = None,
     cfg_stake = Some \<lparr>stk_lock_time = 1814400, stk_min_stake_amount = 0, stk_change_amount_on_unstake = True, stk_can_redelegate = True, stk_can_withdraw = False, stk_can_claim_rewards = True, stk_can_claim_all_rewards = True, stk_reserved_for_fees = 100000\<rparr>\<rparr>"

definition config_seievm :: chain_config where
  "config_seievm = \<lparr>cfg_chain = SeiEvm, cfg_network_id = ''1329'', cfg_denom = None, cfg_slip44 = 60,
     cfg_chain_type = EthereumType, cfg_default_asset_type = Some ERC20, cfg_account_activation_fee = None,
     cfg_token_activation_fee = None, cfg_minimum_account_balance = None, cfg_block_time = 400,
     cfg_rank = 30, cfg_is_swap_supported = True, cfg_is_nft_supported = False,
     cfg_is_defi_supported = False, cfg_is_utxo = False,
     cfg_evm = Some \<lparr>evm_min_priority_fee = 1000000000, evm_chain_stack = NativeStack, evm_is_ethereum_layer2 = False, evm_weth_contract = Some ''0xE30feDd158A2e3b13e9badaeABaFc5516e95e8C7''\<rparr>,
     cfg_stake = None\<rparr>"

definition config_manta :: chain_config where
  "config_manta = \<lparr>cfg_chain = Manta, cfg_network_id = ''169'', cfg_denom = None, cfg_slip44 = 60,
     cfg_chain_type = EthereumType, cfg_default_asset_type = Some ERC20, cfg_account_activation_fee = None,
     cfg_token_activation_fee = None, cfg_minimum_account_balance = None, cfg_block_time = 2000,
     cfg_rank = 30, cfg_is_swap_supported = True, cfg_is_nft_supported = False,
     cfg_is_defi_supported = False, cfg_is_utxo = False,
     cfg_evm = Some \<lparr>evm_min_priority_fee = 10000000, evm_chain_stack = NativeStack, evm_is_ethereum_layer2 = False, evm_weth_contract = Some ''0x0dc808adce2099a9f62aa87d9670745aba741746''\<rparr>,
     cfg_stake = None\<rparr>"

definition config_blast :: chain_config where
  "config_blast = \<lparr>cfg_chain = Blast, cfg_network_id = ''81457'', cfg_denom = None, cfg_slip44 = 60,
     cfg_chain_type = EthereumType, cfg_default_asset_type = Some ERC20, cfg_account_activation_fee = None,
     cfg_token_activation_fee = None, cfg_minimum_account_balance = None, cfg_block_time = 2000,
     cfg_rank = 30, cfg_is_swap_supported = True, cfg_is_nft_supported = False,
     cfg_is_defi_supported = False, cfg_is_utxo = False,
     cfg_evm = Some \<lparr>evm_min_priority_fee = 200000000, evm_chain_stack = NativeStack, evm_is_ethereum_layer2 = True, evm_weth_contract = Some ''0x4300000000000000000000000000000000000004''\<rparr>,
     cfg_stake = None\<rparr>"

definition config_noble :: chain_config where
  "config_noble = \<lparr>cfg_chain = Noble, cfg_network_id = ''noble-1'', cfg_denom = Some (cosmos_denom C_Noble),
     cfg_slip44 = 118, cfg_chain_type = CosmosType, cfg_default_asset_type = None,
     cfg_account_activation_fee = None, cfg_token_activation_fee = None, cfg_minimum_account_balance = None,
     cfg_block_time = 6000, cfg_rank = 20, cfg_is_swap_supported = False, cfg_is_nft_supported = False,
     cfg_is_defi_supported = False, cfg_is_utxo = False, cfg_evm = None, cfg_stake = None\<rparr>"

definition config_zksync :: chain_config where
  "config_zksync = \<lparr>cfg_chain = ZkSync, cfg_network_id = ''324'', cfg_denom = None, cfg_slip44 = 60,
     cfg_chain_type = EthereumType, cfg_default_asset_type = Some ERC20, cfg_account_activation_fee = None,
     cfg_token_activation_fee = None, cfg_minimum_account_balance = None, cfg_block_time = 1000,
     cfg_rank = 30, cfg_is_swap_supported = True, cfg_is_nft_supported = False, cfg_is_defi_supported = True,
     cfg_is_utxo = False,
     cfg_evm = Some \<lparr>evm_min_priority_fee = 20000000, evm_chain_stack = ZkSyncStack, evm_is_ethereum_layer2 = True, evm_weth_contract = Some ''0x5AEa5775959fBC2557Cc8789bC1bf90A239D9a91''\<rparr>,
     cfg_stake = None\<rparr>"

definition config_linea :: chain_config where
  "config_linea = \<lparr>cfg_chain = Linea, cfg_network_id = ''59144'', cfg_denom = None, cfg_slip44 = 60,
     cfg_chain_type = EthereumType, cfg_default_asset_type = Some ERC20, cfg_account_activation_fee = None,
     cfg_token_activation_fee = None, cfg_minimum_account_balance = None, cfg_block_time = 1000,
     cfg_rank = 30, cfg_is_swap_supported = True, cfg_is_nft_supported = False, cfg_is_defi_supported = True,
     cfg_is_utxo = False,
     cfg_evm = Some \<lparr>evm_min_priority_fee = 50000000, evm_chain_stack = NativeStack, evm_is_ethereum_layer2 = True, evm_weth_contract = Some ''0xe5D7C2a44FfDDf6b295A15c148167daaAf5Cf34f''\<rparr>,
     cfg_stake = None\<rparr>"

definition config_mantle :: chain_config where
  "config_mantle = \<lparr>cfg_chain = Mantle, cfg_network_id = ''5000'', cfg_denom = None, cfg_slip44 = 60,
     cfg_chain_type = EthereumType, cfg_default_asset_type = Some ERC20, cfg_account_activation_fee = None,
     cfg_token_activation_fee = None, cfg_minimum_account_balance = None, cfg_block_time = 1000,
     cfg_rank = 30, cfg_is_swap_supported = True, cfg_is_nft_supported = False,
     cfg_is_defi_supported = False, cfg_is_utxo = False,
     cfg_evm = Some \<lparr>evm_min_priority_fee = 10000000, evm_chain_stack = NativeStack, evm_is_ethereum_layer2 = True, evm_weth_contract = Some ''0x78c1b0C915c4FAA5FffA6CAbf0219DA63d7f4cb8''\<rparr>,
     cfg_stake = None\<rparr>"

definition config_celo :: chain_config where
  "config_celo = \<lparr>cfg_chain = Celo, cfg_network_id = ''42220'', cfg_denom = None, cfg_slip44 = 60,
     cfg_chain_type = EthereumType, cfg_default_asset_type = Some ERC20, cfg_account_activation_fee = None,
     cfg_token_activation_fee = None, cfg_minimum_account_balance = None, cfg_block_time = 1000,
     cfg_rank = 30, cfg_is_swap_supported = True, cfg_is_nft_supported = False, cfg_is_defi_supported = True,
     cfg_is_utxo = False,
     cfg_evm = Some \<lparr>evm_min_priority_fee = 10000000, evm_chain_stack = OptimismStack, evm_is_ethereum_layer2 = True, evm_weth_contract = Some ''0x471EcE3750Da237f93B8E339c536989b8978a438''\<rparr>,
     cfg_stake = None\<rparr>"

definition config_near :: chain_config where
  "config_near = \<lparr>cfg_chain = Near, cfg_network_id = ''mainnet'', cfg_denom = None, cfg_slip44 = 397,
     cfg_chain_type = NearType, cfg_default_asset_type = Some TOKEN, cfg_account_activation_fee = None,
     cfg_token_activation_fee = None, cfg_minimum_account_balance = None, cfg_block_time = 1000,
     cfg_rank = 30, cfg_is_swap_supported = True, cfg_is_nft_supported = False,
     cfg_is_defi_supported = False, cfg_is_utxo = False, cfg_evm = None, cfg_stake = None\<rparr>"

definition config_world :: chain_config where
  "config_world = \<lparr>cfg_chain = World, cfg_network_id = ''480'', cfg_denom = None, cfg_slip44 = 60,
     cfg_chain_type = EthereumType, cfg_default_asset_type = Some ERC20, cfg_account_activation_fee = None,
     cfg_token_activation_fee = None, cfg_minimum_account_balance = None, cfg_block_time = 2000,
     cfg_rank = 30, cfg_is_swap_supported = True, cfg_is_nft_supported = False,
     cfg_is_defi_supported = False, cfg_is_utxo = False,
     cfg_evm = Some \<lparr>evm_min_priority_fee = 1000000, evm_chain_stack = OptimismStack, evm_is_ethereum_layer2 = True, evm_weth_contract = Some ''0x4200000000000000000000000000000000000006''\<rparr>,
     cfg_stake = None\<rparr>"

definition config_stellar :: chain_config where
  "config_stellar = \<lparr>cfg_chain = Stellar, cfg_network_id = ''Public Global Stellar Network ; September 2015'',
     cfg_denom = None, cfg_slip44 = 148, cfg_chain_type = StellarType, cfg_default_asset_type = Some TOKEN,
     cfg_account_activation_fee = Some 10000000, cfg_token_activation_fee = None,
     cfg_minimum_account_balance = None, cfg_block_time = 6000, cfg_rank = 30, cfg_is_swap_supported = True,
     cfg_is_nft_supported = False, cfg_is_defi_supported = False, cfg_is_utxo = False, cfg_evm = None,
     cfg_stake = None\<rparr>"

definition config_sonic :: chain_config where
  "config_sonic = \<lparr>cfg_chain = Sonic, cfg_network_id = ''146'', cfg_denom = None, cfg_slip44 = 60,
     cfg_chain_type = EthereumType, cfg_default_asset_type = Some ERC20, cfg_account_activation_fee = None,
     cfg_token_activation_fee = None, cfg_minimum_account_balance = None, cfg_block_time = 500,
     cfg_rank = 30, cfg_is_swap_supported = True, cfg_is_nft_supported = False,
     cfg_is_defi_supported = False, cfg_is_utxo = False,
     cfg_evm = Some \<lparr>evm_min_priority_fee = 10000000, evm_chain_stack = NativeStack, evm_is_ethereum_layer2 = False, evm_weth_contract = Some ''0x039e2fB66102314Ce7b64Ce5Ce3E5183bc94aD38''\<rparr>,
     cfg_stake = None\<rparr>"

definition config_algorand :: chain_config where
  "config_algorand = \<lparr>cfg_chain = Algorand, cfg_network_id = ''mainnet-v1.0'', cfg_denom = None, cfg_slip44 = 283,
     cfg_chain_type = AlgorandType, cfg_default_asset_type = Some ASA,
     cfg_account_activation_fee = Some 100000, cfg_token_activation_fee = None,
     cfg_minimum_account_balance = None, cfg_block_time = 4000, cfg_rank = 30, cfg_is_swap_supported = True,
     cfg_is_nft_supported = False, cfg_is_defi_supported = False, cfg_is_utxo = False, cfg_evm = None,
     cfg_stake = None\<rparr>"

definition config_polkadot :: chain_config where
  "config_polkadot = \<lparr>cfg_chain = Polkadot, cfg_network_id = ''Polkadot Asset Hub'', cfg_denom = None, cfg_slip44 = 354,
     cfg_chain_type = PolkadotType, cfg_default_asset_type = None, cfg_account_activation_fee = None,
     cfg_token_activation_fee = None, cfg_minimum_account_balance = Some 10000000000, cfg_block_time = 5000,
     cfg_rank = 40, cfg_is_swap_supported = False, cfg_is_nft_supported = False,
     cfg_is_defi_supported = False, cfg_is_utxo = False, cfg_evm = None, cfg_stake = None\<rparr>"

definition config_plasma :: chain_config where
  "config_plasma = \<lparr>cfg_chain = Plasma, cfg_network_id = ''9745'', cfg_denom = None, cfg_slip44 = 60,
     cfg_chain_type = EthereumType, cfg_default_asset_type = Some ERC20, cfg_account_activation_fee = None,
     cfg_token_activation_fee = None, cfg_minimum_account_balance = None, cfg_block_time = 2000,
     cfg_rank = 30, cfg_is_swap_supported = True, cfg_is_nft_supported = False,
     cfg_is_defi_supported = False, cfg_is_utxo = False,
     cfg_evm = Some \<lparr>evm_min_priority_fee = 100000, evm_chain_stack = NativeStack, evm_is_ethereum_layer2 = False, evm_weth_contract = Some ''0x6100E367285b01F48D07953803A2d8dCA5D19873''\<rparr>,
     cfg_stake = None\<rparr>"

definition config_cardano :: chain_config where
  "config_cardano = \<lparr>cfg_chain = Cardano, cfg_network_id = ''764824073'', cfg_denom = None, cfg_slip44 = 1815,
     cfg_chain_type = CardanoType, cfg_default_asset_type = None, cfg_account_activation_fee = None,
     cfg_token_activation_fee = None, cfg_minimum_account_balance = None, cfg_block_time = 20000,
     cfg_rank = 30, cfg_is_swap_supported = True, cfg_is_nft_supported = False,
     cfg_is_defi_supported = False, cfg_is_utxo = True, cfg_evm = None, cfg_stake = None\<rparr>"

definition config_abstract :: chain_config where
  "config_abstract = \<lparr>cfg_chain = Abstract, cfg_network_id = ''2741'', cfg_denom = None, cfg_slip44 = 60,
     cfg_chain_type = EthereumType, cfg_default_asset_type = Some ERC20, cfg_account_activation_fee = None,
     cfg_token_activation_fee = None, cfg_minimum_account_balance = None, cfg_block_time = 1000,
     cfg_rank = 35, cfg_is_swap_supported = True, cfg_is_nft_supported = False,
     cfg_is_defi_supported = False, cfg_is_utxo = False,
     cfg_evm = Some \<lparr>evm_min_priority_fee = 1000000, evm_chain_stack = ZkSyncStack, evm_is_ethereum_layer2 = True, evm_weth_contract = Some ''0x3439153EB7AF838Ad19d56E1571FBD09333C2809''\<rparr>,
     cfg_stake = None\<rparr>"

definition config_berachain :: chain_config where
  "config_berachain = \<lparr>cfg_chain = Berachain, cfg_network_id = ''80094'', cfg_denom = None, cfg_slip44 = 60,
     cfg_chain_type = EthereumType, cfg_default_asset_type = Some ERC20, cfg_account_activation_fee = None,
     cfg_token_activation_fee = None, cfg_minimum_account_balance = None, cfg_block_time = 2000,
     cfg_rank = 35, cfg_is_swap_supported = True, cfg_is_nft_supported = False,
     cfg_is_defi_supported = False, cfg_is_utxo = False,
     cfg_evm = Some \<lparr>evm_min_priority_fee = 1000000000, evm_chain_stack = NativeStack, evm_is_ethereum_layer2 = False, evm_weth_contract = Some ''0x6969696969696969696969696969696969696969''\<rparr>,
     cfg_stake = None\<rparr>"

definition config_ink :: chain_config where
  "config_ink = \<lparr>cfg_chain = Ink, cfg_network_id = ''57073'', cfg_denom = None, cfg_slip44 = 60,
     cfg_chain_type = EthereumType, cfg_default_asset_type = Some ERC20, cfg_account_activation_fee = None,
     cfg_token_activation_fee = None, cfg_minimum_account_balance = None, cfg_block_time = 1000,
     cfg_rank = 35, cfg_is_swap_supported = True, cfg_is_nft_supported = False,
     cfg_is_defi_supported = False, cfg_is_utxo = False,
     cfg_evm = Some \<lparr>evm_min_priority_fee = 1000000, evm_chain_stack = OptimismStack, evm_is_ethereum_layer2 = True, evm_weth_contract = Some ''0x4200000000000000000000000000000000000006''\<rparr>,
     cfg_stake = None\<rparr>"

definition config_unichain :: chain_config where
  "config_unichain = \<lparr>cfg_chain = Unichain, cfg_network_id = ''130'', cfg_denom = None, cfg_slip44 = 60,
     cfg_chain_type = EthereumType, cfg_default_asset_type = Some ERC20, cfg_account_activation_fee = None,
     cfg_token_activation_fee = None, cfg_minimum_account_balance = None, cfg_block_time = 1000,
     cfg_rank = 35, cfg_is_swap_supported = True, cfg_is_nft_supported = False,
     cfg_is_defi_supported = False, cfg_is_utxo = False,
     cfg_evm = Some \<lparr>evm_min_priority_fee = 1000000, evm_chain_stack = OptimismStack, evm_is_ethereum_layer2 = True, evm_weth_contract = Some ''0x4200000000000000000000000000000000000006''\<rparr>,
     cfg_stake = None\<rparr>"

definition config_hyperliquid :: chain_config where
  "config_hyperliquid = \<lparr>cfg_chain = Hyperliquid, cfg_network_id = ''999'', cfg_denom = None, cfg_slip44 = 60,
     cfg_chain_type = EthereumType, cfg_default_asset_type = Some ERC20, cfg_account_activation_fee = None,
     cfg_token_activation_fee = None, cfg_minimum_account_balance = None, cfg_block_time = 2000,
     cfg_rank = 40, cfg_is_swap_supported = True, cfg_is_nft_supported = False,
     cfg_is_defi_supported = False, cfg_is_utxo = False,
     cfg_evm = Some \<lparr>evm_min_priority_fee = 1000000000, evm_chain_stack = NativeStack, evm_is_ethereum_layer2 = False, evm_weth_contract = Some ''0x5555555555555555555555555555555555555555''\<rparr>,
     cfg_stake = None\<rparr>"

definition config_hypercore :: chain_config where
  "config_hypercore = \<lparr>cfg_chain = HyperCore, cfg_network_id = ''1337'', cfg_denom = None, cfg_slip44 = 60,
     cfg_chain_type = HyperCoreType, cfg_default_asset_type = Some TOKEN, cfg_account_activation_fee = None,
     cfg_token_activation_fee = None, cfg_minimum_account_balance = None, cfg_block_time = 2000,
     cfg_rank = 40, cfg_is_swap_supported = True, cfg_is_nft_supported = False,
     cfg_is_defi_supported = False, cfg_is_utxo = False, cfg_evm = None,
     cfg_stake = Some \<lparr>stk_lock_time = 604800, stk_min_stake_amount = 1000000, stk_change_amount_on_unstake = True, stk_can_redelegate = False, stk_can_withdraw = False, stk_can_claim_rewards = False, stk_can_claim_all_rewards = False, stk_reserved_for_fees = 0\<rparr>\<rparr>"

definition config_monad :: chain_config where
  "config_monad = \<lparr>cfg_chain = Monad, cfg_network_id = ''143'', cfg_denom = None, cfg_slip44 = 60,
     cfg_chain_type = EthereumType, cfg_default_asset_type = Some ERC20, cfg_account_activation_fee = None,
     cfg_token_activation_fee = None, cfg_minimum_account_balance = None, cfg_block_time = 500,
     cfg_rank = 40, cfg_is_swap_supported = True, cfg_is_nft_supported = False,
     cfg_is_defi_supported = False, cfg_is_utxo = False,
     cfg_evm = Some \<lparr>evm_min_priority_fee = 1000000000, evm_chain_stack = NativeStack, evm_is_ethereum_layer2 = False, evm_weth_contract = Some ''0x3bd359C1119dA7Da1D913D1C4D2B7c461115433A''\<rparr>,
     cfg_stake = Some \<lparr>stk_lock_time = 86400, stk_min_stake_amount = 100000000000000000, stk_change_amount_on_unstake = True, stk_can_redelegate = False, stk_can_withdraw = True, stk_can_claim_rewards = True, stk_can_claim_all_rewards = False, stk_reserved_for_fees = 50000000000000000\<rparr>\<rparr>"

definition config_xlayer :: chain_config where
  "config_xlayer = \<lparr>cfg_chain = XLayer, cfg_network_id = ''196'', cfg_denom = None, cfg_slip44 = 60,
     cfg_chain_type = EthereumType, cfg_default_asset_type = Some ERC20, cfg_account_activation_fee = None,
     cfg_token_activation_fee = None, cfg_minimum_account_balance = None, cfg_block_time = 2000,
     cfg_rank = 30, cfg_is_swap_supported = True, cfg_is_nft_supported = False,
     cfg_is_defi_supported = False, cfg_is_utxo = False,
     cfg_evm = Some \<lparr>evm_min_priority_fee = 1000000000, evm_chain_stack = NativeStack, evm_is_ethereum_layer2 = True, evm_weth_contract = Some ''0xe538905cf8410324e03a5a23c1c177a474d59b2b''\<rparr>,
     cfg_stake = None\<rparr>"

definition config_robinhood :: chain_config where
  "config_robinhood = \<lparr>cfg_chain = Robinhood, cfg_network_id = ''4663'', cfg_denom = None, cfg_slip44 = 60,
     cfg_chain_type = EthereumType, cfg_default_asset_type = Some ERC20, cfg_account_activation_fee = None,
     cfg_token_activation_fee = None, cfg_minimum_account_balance = None, cfg_block_time = 1000,
     cfg_rank = 30, cfg_is_swap_supported = True, cfg_is_nft_supported = False,
     cfg_is_defi_supported = False, cfg_is_utxo = False,
     cfg_evm = Some \<lparr>evm_min_priority_fee = 1000000, evm_chain_stack = NativeStack, evm_is_ethereum_layer2 = True, evm_weth_contract = Some ''0x0Bd7D308f8E1639FAb988df18A8011f41EAcAD73''\<rparr>,
     cfg_stake = None\<rparr>"

definition config_stable :: chain_config where
  "config_stable = \<lparr>cfg_chain = Stable, cfg_network_id = ''988'', cfg_denom = None, cfg_slip44 = 60,
     cfg_chain_type = EthereumType, cfg_default_asset_type = Some ERC20, cfg_account_activation_fee = None,
     cfg_token_activation_fee = None, cfg_minimum_account_balance = None, cfg_block_time = 1000,
     cfg_rank = 30, cfg_is_swap_supported = False, cfg_is_nft_supported = False,
     cfg_is_defi_supported = False, cfg_is_utxo = False,
     cfg_evm = Some \<lparr>evm_min_priority_fee = 1000000, evm_chain_stack = NativeStack, evm_is_ethereum_layer2 = False, evm_weth_contract = Some ''0x779Ded0c9e1022225f8E0630b35a9b54bE713736''\<rparr>,
     cfg_stake = None\<rparr>"

definition config_tempo :: chain_config where
  "config_tempo = \<lparr>cfg_chain = Tempo, cfg_network_id = ''4217'', cfg_denom = None, cfg_slip44 = 60,
     cfg_chain_type = EthereumType, cfg_default_asset_type = Some TIP20, cfg_account_activation_fee = None,
     cfg_token_activation_fee = None, cfg_minimum_account_balance = None, cfg_block_time = 500,
     cfg_rank = NO_NATIVE_ASSET_RANK, cfg_is_swap_supported = True, cfg_is_nft_supported = False,
     cfg_is_defi_supported = False, cfg_is_utxo = False,
     cfg_evm = Some \<lparr>evm_min_priority_fee = 0, evm_chain_stack = NativeStack, evm_is_ethereum_layer2 = False, evm_weth_contract = None\<rparr>,
     cfg_stake = None\<rparr>"

definition CHAIN_CONFIGS :: "chain_config list" where
  "CHAIN_CONFIGS =
    [config_bitcoin, config_bitcoincash, config_litecoin, config_ethereum, config_smartchain,
      config_solana, config_polygon, config_thorchain, config_mayachain, config_cosmos,
      config_osmosis, config_arbitrum, config_ton, config_tron, config_doge, config_zcash,
      config_optimism, config_aptos, config_base, config_avalanchec, config_sui, config_xrp,
      config_opbnb, config_fantom, config_gnosis, config_celestia, config_injective, config_sei,
      config_seievm, config_manta, config_blast, config_noble, config_zksync, config_linea,
      config_mantle, config_celo, config_near, config_world, config_stellar, config_sonic,
      config_algorand, config_polkadot, config_plasma, config_cardano, config_abstract,
      config_berachain, config_ink, config_unichain, config_hyperliquid, config_hypercore,
      config_monad, config_xlayer, config_robinhood, config_stable, config_tempo]"

lemmas config_defs =
  config_bitcoin_def config_bitcoincash_def config_litecoin_def config_ethereum_def
  config_smartchain_def config_solana_def config_polygon_def config_thorchain_def
  config_mayachain_def config_cosmos_def config_osmosis_def config_arbitrum_def config_ton_def
  config_tron_def config_doge_def config_zcash_def config_optimism_def config_aptos_def
  config_base_def config_avalanchec_def config_sui_def config_xrp_def config_opbnb_def
  config_fantom_def config_gnosis_def config_celestia_def config_injective_def config_sei_def
  config_seievm_def config_manta_def config_blast_def config_noble_def config_zksync_def
  config_linea_def config_mantle_def config_celo_def config_near_def config_world_def
  config_stellar_def config_sonic_def config_algorand_def config_polkadot_def config_plasma_def
  config_cardano_def config_abstract_def config_berachain_def config_ink_def config_unichain_def
  config_hyperliquid_def config_hypercore_def config_monad_def config_xlayer_def
  config_robinhood_def config_stable_def config_tempo_def

definition get_chain_config :: "chain \<Rightarrow> chain_config option" where
  "get_chain_config c = List.find (\<lambda>config. cfg_chain config = c) CHAIN_CONFIGS"

text \<open>\<open>Chain::config\<close>: the panic of the missing entry is \<open>get_chain_config_total\<close>'s business.\<close>

definition config :: "chain \<Rightarrow> chain_config" where
  "config c = the (get_chain_config c)"

section \<open>Accessors\<close>

definition as_denom :: "chain \<Rightarrow> string option" where
  "as_denom c = cfg_denom (config c)"

definition network_id :: "chain \<Rightarrow> string" where
  "network_id c = cfg_network_id (config c)"

text \<open>\<open>u64::from_str_radix(_, 16)\<close> on the digits after an optional plus sign.\<close>

definition hex_digit_val :: "char \<Rightarrow> nat option" where
  "hex_digit_val c =
     (let n = of_char c in
      if 48 \<le> n \<and> n \<le> (57 :: nat) then Some (n - 48)
      else if 97 \<le> n \<and> n \<le> 102 then Some (n - 87)
      else if 65 \<le> n \<and> n \<le> 70 then Some (n - 55) else None)"

fun parse_hex_digits :: "nat \<Rightarrow> string \<Rightarrow> u64 option" where
  "parse_hex_digits acc [] = Some (of_nat acc)"
| "parse_hex_digits acc (c # cs) =
     (case hex_digit_val c of
        None \<Rightarrow> None
      | Some d \<Rightarrow> if acc * 16 + d < 2 ^ 64 then parse_hex_digits (acc * 16 + d) cs else None)"

definition u64_from_hex :: "string \<Rightarrow> u64 option" where
  "u64_from_hex s =
     (if s = [] then None
      else if hd s = CHR ''+'' \<and> tl s \<noteq> [] then parse_hex_digits 0 (tl s)
      else parse_hex_digits 0 s)"

definition parse_network_id :: "string \<Rightarrow> u64 option" where
  "parse_network_id nid = (case ok (parse_u64 nid) of
        Some v \<Rightarrow> Some v
      | None \<Rightarrow> Option.bind (strip_prefix ''0x'' nid) u64_from_hex)"

definition network_id_value :: "chain \<Rightarrow> u64 option" where
  "network_id_value c = parse_network_id (network_id c)"

definition from_chain_id :: "u64 \<Rightarrow> chain option" where
  "from_chain_id chain_id = List.find (\<lambda>c. network_id_value c = Some chain_id) chain_iter"

definition is_utxo :: "chain \<Rightarrow> bool" where
  "is_utxo c = cfg_is_utxo (config c)"

definition as_slip44 :: "chain \<Rightarrow> int" where
  "as_slip44 c = cfg_slip44 (config c)"

definition chain_type_of :: "chain \<Rightarrow> chain_type" where
  "chain_type_of c = cfg_chain_type (config c)"

definition fee_unit_type_of :: "chain \<Rightarrow> fee_unit_type" where
  "fee_unit_type_of c =
     (case chain_type_of c of BitcoinType \<Rightarrow> SatVb | EthereumType \<Rightarrow> Gwei | _ \<Rightarrow> NativeUnit)"

definition default_asset_type :: "chain \<Rightarrow> asset_type option" where
  "default_asset_type c = cfg_default_asset_type (config c)"

definition account_activation_fee :: "chain \<Rightarrow> int option" where
  "account_activation_fee c = cfg_account_activation_fee (config c)"

definition token_activation_fee :: "chain \<Rightarrow> int option" where
  "token_activation_fee c = cfg_token_activation_fee (config c)"

definition minimum_account_balance :: "chain \<Rightarrow> u64 option" where
  "minimum_account_balance c = cfg_minimum_account_balance (config c)"

definition is_swap_supported :: "chain \<Rightarrow> bool" where
  "is_swap_supported c = cfg_is_swap_supported (config c)"

definition is_stake_supported :: "chain \<Rightarrow> bool" where
  "is_stake_supported c \<longleftrightarrow> cfg_stake (config c) \<noteq> None"

definition is_nft_supported :: "chain \<Rightarrow> bool" where
  "is_nft_supported c = cfg_is_nft_supported (config c)"

definition is_defi_supported :: "chain \<Rightarrow> bool" where
  "is_defi_supported c = cfg_is_defi_supported (config c)"

definition block_time :: "chain \<Rightarrow> u32" where
  "block_time c = cfg_block_time (config c)"

definition rank :: "chain \<Rightarrow> int" where
  "rank c = cfg_rank (config c)"

definition has_native_asset :: "chain \<Rightarrow> bool" where
  "has_native_asset c \<longleftrightarrow> rank c \<noteq> NO_NATIVE_ASSET_RANK"

definition stakeable :: "chain list" where
  "stakeable = filter is_stake_supported chain_iter"

section \<open>Staking chains\<close>

datatype stake_chain =
    S_Cosmos | S_Osmosis | S_Injective | S_Sei | S_Celestia | S_Ethereum | S_Solana | S_Sui | S_SmartChain
  | S_Monad | S_Tron | S_Aptos | S_HyperCore

definition stake_chain_iter :: "stake_chain list" where
  "stake_chain_iter =
    [S_Cosmos, S_Osmosis, S_Injective, S_Sei, S_Celestia, S_Ethereum, S_Solana, S_Sui, S_SmartChain,
     S_Monad, S_Tron, S_Aptos, S_HyperCore]"

primrec stake_chain_as_ref :: "stake_chain \<Rightarrow> string" where
  "stake_chain_as_ref S_Cosmos = ''cosmos''"
| "stake_chain_as_ref S_Osmosis = ''osmosis''"
| "stake_chain_as_ref S_Injective = ''injective''"
| "stake_chain_as_ref S_Sei = ''sei''"
| "stake_chain_as_ref S_Celestia = ''celestia''"
| "stake_chain_as_ref S_Ethereum = ''ethereum''"
| "stake_chain_as_ref S_Solana = ''solana''"
| "stake_chain_as_ref S_Sui = ''sui''"
| "stake_chain_as_ref S_SmartChain = ''smartchain''"
| "stake_chain_as_ref S_Monad = ''monad''"
| "stake_chain_as_ref S_Tron = ''tron''"
| "stake_chain_as_ref S_Aptos = ''aptos''"
| "stake_chain_as_ref S_HyperCore = ''hypercore''"

definition stake_chain_from_str :: "string \<Rightarrow> stake_chain option" where
  "stake_chain_from_str s = List.find (\<lambda>c. stake_chain_as_ref c = s) stake_chain_iter"

text \<open>\<open>stake_chain\<close> of \<open>services/amount/rules.rs\<close>, and back; the way back unwraps.\<close>

definition to_stake_chain :: "chain \<Rightarrow> stake_chain option" where
  "to_stake_chain c = stake_chain_from_str (chain_as_ref c)"

definition stake_chain_chain :: "stake_chain \<Rightarrow> chain option" where
  "stake_chain_chain s = chain_from_str (stake_chain_as_ref s)"

definition stake_chain_config_of :: "stake_chain \<Rightarrow> stake_chain_config option" where
  "stake_chain_config_of s = Option.bind (stake_chain_chain s) (\<lambda>c. cfg_stake (config c))"

definition get_uses_freeze :: "stake_chain \<Rightarrow> bool" where
  "get_uses_freeze s = (case s of S_Tron \<Rightarrow> True | _ \<Rightarrow> False)"

definition get_uses_whole_amounts :: "stake_chain \<Rightarrow> bool" where
  "get_uses_whole_amounts s = (case s of S_Tron \<Rightarrow> True | _ \<Rightarrow> False)"

text \<open>\<open>get_stake_config\<close> of the mobile core: the configuration with the two rules added.\<close>

record gem_stake_config =
  gsc_time_lock :: u64
  gsc_min_amount :: u64
  gsc_change_amount_on_unstake :: bool
  gsc_uses_freeze :: bool
  gsc_uses_whole_amounts :: bool
  gsc_can_redelegate :: bool
  gsc_can_withdraw :: bool
  gsc_can_claim_rewards :: bool
  gsc_can_claim_all_rewards :: bool
  gsc_reserved_for_fees :: u64

definition get_stake_config :: "stake_chain \<Rightarrow> gem_stake_config" where
  "get_stake_config s =
     (let c = the (stake_chain_config_of s) in
      \<lparr>gsc_time_lock = stk_lock_time c, gsc_min_amount = stk_min_stake_amount c,
       gsc_change_amount_on_unstake = stk_change_amount_on_unstake c, gsc_uses_freeze = get_uses_freeze s,
       gsc_uses_whole_amounts = get_uses_whole_amounts s, gsc_can_redelegate = stk_can_redelegate c,
       gsc_can_withdraw = stk_can_withdraw c, gsc_can_claim_rewards = stk_can_claim_rewards c,
       gsc_can_claim_all_rewards = stk_can_claim_all_rewards c,
       gsc_reserved_for_fees = stk_reserved_for_fees c\<rparr>)"

section \<open>Timeouts\<close>

text \<open>Milliseconds; the products are of \<open>u32\<close> and of \<open>u64\<close> and would wrap.\<close>

definition chain_transaction_timeout :: "chain \<Rightarrow> u32" where
  "chain_transaction_timeout c = (case chain_type_of c of
       BitcoinType \<Rightarrow> 1209600000
     | SolanaType \<Rightarrow> block_time c * 150
     | EthereumType \<Rightarrow> block_time c * 120
     | _ \<Rightarrow> block_time c * 600)"

definition DAY_millis :: u64 where "DAY_millis = 24 * (60 * 60) * 1000"

definition swap_transaction_timeout :: "chain \<Rightarrow> chain \<Rightarrow> u64" where
  "swap_transaction_timeout source destination =
     (let source_timeout = ucast (chain_transaction_timeout source) in
      if source = destination then source_timeout
      else max ((source_timeout + ucast (chain_transaction_timeout destination)) * 3) DAY_millis)"

text \<open>The number of block times a chain's transaction may stay unconfirmed.\<close>

definition timeout_factor :: "chain \<Rightarrow> int" where
  "timeout_factor c = (case chain_type_of c of SolanaType \<Rightarrow> 150 | EthereumType \<Rightarrow> 120 | _ \<Rightarrow> 600)"

section \<open>Facts\<close>

lemma configs_in_order: "map cfg_chain CHAIN_CONFIGS = chain_iter"
  by (simp add: CHAIN_CONFIGS_def config_defs chain_iter_def)

lemma configs_inj: "inj_on cfg_chain (set CHAIN_CONFIGS)"
  using chain_iter_distinct unfolding configs_in_order [symmetric] by (simp add: distinct_map)

lemma get_chain_config_total: "\<exists>config. get_chain_config c = Some config \<and> cfg_chain config = c"
proof -
  obtain config where "config \<in> set CHAIN_CONFIGS" "cfg_chain config = c"
    using chain_iter_complete [of c] unfolding configs_in_order [symmetric] by auto
  with find_key [OF configs_inj this(1)] show ?thesis
    by (auto simp: get_chain_config_def)
qed

lemma config_cfg_chain: "x \<in> set CHAIN_CONFIGS \<Longrightarrow> config (cfg_chain x) = x"
  using configs_inj by (simp add: config_def get_chain_config_def find_key)

lemma map_config: "map (\<lambda>c. f (config c)) chain_iter = map f CHAIN_CONFIGS"
  unfolding configs_in_order [symmetric] by (simp add: config_cfg_chain)

lemma all_config: "(\<forall>x \<in> set CHAIN_CONFIGS. P (cfg_chain x) x) \<Longrightarrow> P c (config c)"
proof -
  assume all: "\<forall>x \<in> set CHAIN_CONFIGS. P (cfg_chain x) x"
  obtain x where "x \<in> set CHAIN_CONFIGS" "cfg_chain x = c"
    using chain_iter_complete [of c] unfolding configs_in_order [symmetric] by auto
  then show ?thesis using all config_cfg_chain by auto
qed

lemma network_ids: "map network_id_value chain_iter =
     [None, None, None, Some 1, Some 56, None, Some 137, None, None, None, None, Some 42161, None,
      Some 728126428, None, None, Some 10, Some 1, Some 8453, Some 43114, None, Some 0, Some
      204, Some 250, Some 100, None, None, None, Some 1329, Some 169, Some 81457, None, Some
      324, Some 59144, Some 5000, Some 42220, None, Some 480, None, Some 146, None, None, Some
      9745, Some 764824073, Some 2741, Some 80094, Some 57073, Some 130, Some 999, Some 1337,
      Some 143, Some 196, Some 4663, Some 988, Some 4217]"
proof -
  have "map network_id_value chain_iter = map (\<lambda>c. parse_network_id (cfg_network_id (config c))) chain_iter"
    by (simp add: network_id_value_def network_id_def)
  also have "\<dots> = map (\<lambda>x. parse_network_id (cfg_network_id x)) CHAIN_CONFIGS"
    by (rule map_config)
  also have "map (\<lambda>x. parse_network_id (cfg_network_id x)) CHAIN_CONFIGS =
     [None, None, None, Some 1, Some 56, None, Some 137, None, None, None, None, Some 42161, None,
      Some 728126428, None, None, Some 10, Some 1, Some 8453, Some 43114, None, Some 0, Some
      204, Some 250, Some 100, None, None, None, Some 1329, Some 169, Some 81457, None, Some
      324, Some 59144, Some 5000, Some 42220, None, Some 480, None, Some 146, None, None, Some
      9745, Some 764824073, Some 2741, Some 80094, Some 57073, Some 130, Some 999, Some 1337,
      Some 143, Some 196, Some 4663, Some 988, Some 4217]"
    by (simp add: CHAIN_CONFIGS_def config_defs parse_network_id_def parse_u64_def digit_val_def u64_from_hex_def
        hex_digit_val_def strip_prefix_def Let_def)
  finally show ?thesis .
qed

lemma map_chain_type: "map chain_type_of chain_iter = map cfg_chain_type CHAIN_CONFIGS"
  unfolding chain_type_of_def by (rule map_config)

lemma zip_map_self: "zip xs (map f xs) = map (\<lambda>x. (x, f x)) xs"
  by (induction xs) simp_all

lemma numeric_ids_distinct:
  "distinct (map snd (filter (\<lambda>(c, v). c \<noteq> Aptos \<and> v \<noteq> None) (zip chain_iter (map network_id_value chain_iter))))"
  unfolding network_ids by (simp add: chain_iter_def)

lemma numeric_id_inject:
  assumes "network_id_value c = Some v" "network_id_value d = Some v" "c \<noteq> Aptos" "d \<noteq> Aptos"
  shows "c = d"
proof -
  let ?P = "filter (\<lambda>(c, v). c \<noteq> Aptos \<and> v \<noteq> None) (zip chain_iter (map network_id_value chain_iter))"
  have "(c, Some v) \<in> set ?P" "(d, Some v) \<in> set ?P"
    using assms chain_iter_complete by (force simp: zip_map_self)+
  moreover have "inj_on snd (set ?P)"
    using numeric_ids_distinct by (simp only: distinct_map)
  ultimately have "(c, Some v) = (d, Some v)" by (intro inj_onD [of snd "set ?P"]) simp_all
  then show ?thesis by simp
qed

lemma network_id_value_at: "i < 55 \<Longrightarrow> network_id_value (chain_iter ! i) = map network_id_value chain_iter ! i"
  by (subst nth_map) (simp_all add: chain_iter_def)

lemma network_id_Ethereum: "network_id_value Ethereum = Some 1"
  using network_id_value_at [of 3, unfolded network_ids] by (simp add: chain_iter_def)

lemma network_id_Aptos: "network_id_value Aptos = Some 1"
  using network_id_value_at [of 17, unfolded network_ids] by (simp add: chain_iter_def)

lemma from_chain_id_one: "from_chain_id 1 = Some Ethereum"
  using network_id_value_at [of 0, unfolded network_ids] network_id_value_at [of 1, unfolded network_ids]
    network_id_value_at [of 2, unfolded network_ids]
  by (simp add: from_chain_id_def chain_iter_def network_id_Ethereum)

lemma from_chain_id_SomeD: "from_chain_id v = Some c \<Longrightarrow> network_id_value c = Some v"
  unfolding from_chain_id_def by (auto dest: find_SomeD)

lemma from_chain_id_known: "network_id_value c = Some v \<Longrightarrow> \<exists>d. from_chain_id v = Some d"
  unfolding from_chain_id_def using chain_iter_complete [of c]
  by (cases "List.find (\<lambda>c. network_id_value c = Some v) chain_iter") (auto dest: find_NoneD)

lemma evm_numeric: "chain_type_of c = EthereumType \<Longrightarrow> network_id_value c \<noteq> None"
proof -
  have "\<forall>(t, v) \<in> set (zip (map chain_type_of chain_iter) (map network_id_value chain_iter)). t = EthereumType \<longrightarrow> v \<noteq> None"
    unfolding network_ids map_chain_type by (simp add: CHAIN_CONFIGS_def config_defs)
  then show "chain_type_of c = EthereumType \<Longrightarrow> network_id_value c \<noteq> None"
    using chain_iter_complete [of c] by (auto simp: zip_map_map zip_same_conv_map)
qed

lemma block_times: "0 < uint (block_time c) \<and> uint (block_time c) \<le> 600000"
proof -
  have "list_all (\<lambda>t. 0 < uint t \<and> uint t \<le> 600000) (map cfg_block_time CHAIN_CONFIGS)"
    unfolding CHAIN_CONFIGS_def list.map by (simp only: config_defs chain_config.select_convs, simp)
  then have "\<forall>x \<in> set CHAIN_CONFIGS. 0 < uint (cfg_block_time x) \<and> uint (cfg_block_time x) \<le> 600000"
    by (simp only: list_all_iff set_map ball_simps)
  then show ?thesis unfolding block_time_def by (rule all_config)
qed

lemma uint_block_time_mul: "k \<le> 600 \<Longrightarrow> uint (block_time c * word_of_int k) = uint (block_time c) * k" if "0 \<le> k"
proof -
  assume k: "k \<le> 600"
  have "uint (block_time c) * k \<le> 600000 * 600"
    using block_times [of c] that k by (intro mult_mono) auto
  then show ?thesis
    using block_times [of c] that k by (simp add: uint_word_ariths take_bit_int_eq_self uint_word_of_int)
qed

lemma chain_timeout_exact:
  "uint (chain_transaction_timeout c) =
     (if chain_type_of c = BitcoinType then 1209600000 else uint (block_time c) * timeout_factor c)"
  using uint_block_time_mul [of 150 c] uint_block_time_mul [of 120 c] uint_block_time_mul [of 600 c]
  by (simp add: chain_transaction_timeout_def timeout_factor_def split: chain_type.split)

lemma swap_timeout_exact:
  "uint (swap_transaction_timeout c d) =
     (if c = d then uint (chain_transaction_timeout c)
      else max ((uint (chain_transaction_timeout c) + uint (chain_transaction_timeout d)) * 3) 86400000)"
proof -
  have lt: "uint (chain_transaction_timeout x) < 2 ^ 32" for x
    using unsigned_less [of "chain_transaction_timeout x"] by simp
  have uc: "uint (ucast (chain_transaction_timeout x) :: u64) = uint (chain_transaction_timeout x)" for x
    by (rule uint_up_ucast) (simp add: is_up)
  have "uint ((ucast (chain_transaction_timeout c) + ucast (chain_transaction_timeout d)) * 3 :: u64)
      = (uint (chain_transaction_timeout c) + uint (chain_transaction_timeout d)) * 3"
    using lt [of c] lt [of d] by (simp add: uint_word_ariths uc take_bit_int_eq_self)
  then show ?thesis
    by (simp add: swap_transaction_timeout_def Let_def uc max_def word_le_def DAY_millis_def)
qed

lemma stake_supported: "(to_stake_chain c \<noteq> None) = is_stake_supported c"
proof -
  have "map (\<lambda>c. to_stake_chain c \<noteq> None) chain_iter = map (\<lambda>x. cfg_stake x \<noteq> None) CHAIN_CONFIGS"
    by code_simp
  also have "\<dots> = map is_stake_supported chain_iter"
    unfolding is_stake_supported_def by (rule map_config [symmetric])
  finally show ?thesis using chain_iter_complete [of c] by auto
qed

lemma stake_chain_iter_complete: "s \<in> set stake_chain_iter"
  by (cases s) (simp_all add: stake_chain_iter_def)

lemma stake_chain_chain_total:
  "stake_chain_config_of s \<noteq> None \<and> Option.bind (stake_chain_chain s) to_stake_chain = Some s"
proof -
  have "list_all (\<lambda>s. stake_chain_config_of s \<noteq> None \<and> Option.bind (stake_chain_chain s) to_stake_chain = Some s) stake_chain_iter"
    by code_simp
  then show ?thesis using stake_chain_iter_complete [of s] by (simp add: list_all_iff)
qed

section \<open>Properties\<close>

text \<open>
  a chain with a numeric network identifier is found again by it: \<open>Chain::from_chain_id\<close> of the value
  \<open>network_id_value\<close> reads (in decimal or after \<open>0x\<close> in hexadecimal) returns that chain, except that Aptos
  shares the identifier 1 with Ethereum and the lookup returns Ethereum.
\<close>

theorem chain_id_roundtrip:
  assumes "network_id_value c = Some v"
  shows "from_chain_id v = Some (if c = Aptos then Ethereum else c)"
proof (cases "v = 1")
  case True
  then have "c = Ethereum \<or> c = Aptos"
    using numeric_id_inject [of c v Ethereum] assms by (auto simp: network_id_Ethereum)
  then show ?thesis using True by (auto simp: from_chain_id_one)
next
  case False
  obtain d where d: "from_chain_id v = Some d" using from_chain_id_known [OF assms] ..
  have "c \<noteq> Aptos" "d \<noteq> Aptos"
    using assms from_chain_id_SomeD [OF d] False by (auto simp: network_id_Aptos)
  then show ?thesis using numeric_id_inject [OF assms from_chain_id_SomeD [OF d]] d by simp
qed

theorem chain_id_roundtrip_witness:
  "network_id_value Ethereum = Some 1 \<and> from_chain_id 1 = Some Ethereum"
  using chain_id_roundtrip [OF network_id_Ethereum] network_id_Ethereum by simp

text \<open>
  the timeouts are exact. No product wraps at 32 bits for any chain of the configuration and no sum at
  64, so a pending transaction of a chain is given exactly its factor of block times (fourteen days for the
  Bitcoin family), and a swap between two chains three times the sum of both, at least a day.
\<close>

theorem timeouts_exact:
  "uint (chain_transaction_timeout c) =
     (if chain_type_of c = BitcoinType then 1209600000 else uint (block_time c) * timeout_factor c)
   \<and> uint (swap_transaction_timeout c d) =
     (if c = d then uint (chain_transaction_timeout c)
      else max ((uint (chain_transaction_timeout c) + uint (chain_transaction_timeout d)) * 3) 86400000)
   \<and> 0 < uint (block_time c)"
  using chain_timeout_exact swap_timeout_exact block_times by simp

text \<open>
  \<open>StakeChain\<close> lists exactly the chains with a staking configuration: parsing the name of a chain as a
  \<open>StakeChain\<close> succeeds if and only if the chain supports staking, every staking chain leads back to itself,
  and its configuration is there, so none of the unwraps and panics of \<open>chain_stake.rs\<close> and
  \<open>chain_config.rs\<close> is reached.
\<close>

theorem stake_chains_exact:
  "((to_stake_chain c \<noteq> None) = is_stake_supported c)
   \<and> stake_chain_config_of s \<noteq> None \<and> Option.bind (stake_chain_chain s) to_stake_chain = Some s
   \<and> (\<exists>config. get_chain_config c = Some config \<and> cfg_chain config = c)"
  using stake_supported stake_chain_chain_total get_chain_config_total by blast

end
