(* ===== verification/Transfer_Types.thy ===== *)
theory Transfer_Types
  imports Chain_Config
begin

text \<open>
  The values that travel through the wallet's send flow (\<open>gemstone/src/models/transaction.rs\<close>,
  \<open>gemstone/src/services/transfer/model.rs\<close>, \<open>gemstone/src/services/balance/model.rs\<close> and the primitives they
  wrap): assets with their names and types, delegations, the eleven kinds of transaction the wallet builds,
  balances, wallets and stored transactions, with the printed forms of asset and transaction identifiers and
  the lowering of a request to the input of the chain signers. Records of the signers are extended with the
  fields only the wallet reads; \<open>BigInt\<close> is \<open>int\<close>, \<open>BigUint\<close> is \<open>nat\<close>, a time is in milliseconds.
\<close>

section \<open>Integers\<close>

text \<open>\<open>BigInt::to_biguint\<close>.\<close>

definition to_biguint :: "int \<Rightarrow> nat option" where
  "to_biguint v = (if v < 0 then None else Some (nat v))"

section \<open>Assets\<close>

record gem_asset = asset +
  asset_name :: string
  asset_type_of :: asset_type

definition asset_chain_of :: "gem_asset \<Rightarrow> chain" where
  "asset_chain_of a = asset_chain (asset_ident a)"

definition from_chain_id_asset :: "chain \<Rightarrow> asset_id" where
  "from_chain_id_asset c = \<lparr>asset_chain = c, token_id = None\<rparr>"

definition asset_id_from :: "chain \<Rightarrow> string option \<Rightarrow> asset_id" where
  "asset_id_from c t = \<lparr>asset_chain = c, token_id = t\<rparr>"

definition asset_new :: "asset_id \<Rightarrow> string \<Rightarrow> string \<Rightarrow> int \<Rightarrow> asset_type \<Rightarrow> gem_asset" where
  "asset_new ident name symbol decimals ty =
     \<lparr>asset_ident = ident, asset_symbol = symbol, asset_decimals = decimals, asset_name = name, asset_type_of = ty\<rparr>"

record chain_asset =
  ca_asset :: gem_asset
  ca_network_name :: string

definition chain_asset_with_network_name :: "chain \<Rightarrow> string \<Rightarrow> string \<Rightarrow> string \<Rightarrow> int \<Rightarrow> chain_asset" where
  "chain_asset_with_network_name c network_name name symbol decimals =
     \<lparr>ca_asset = asset_new (from_chain_id_asset c) name symbol decimals NATIVE, ca_network_name = network_name\<rparr>"

definition chain_asset_new :: "chain \<Rightarrow> string \<Rightarrow> string \<Rightarrow> int \<Rightarrow> chain_asset" where
  "chain_asset_new c name symbol decimals = chain_asset_with_network_name c name name symbol decimals"

primrec chain_asset_from_chain :: "chain \<Rightarrow> chain_asset" where
  "chain_asset_from_chain Ethereum = chain_asset_new Ethereum ''Ethereum'' ''ETH'' 18"
| "chain_asset_from_chain Bitcoin = chain_asset_new Bitcoin ''Bitcoin'' ''BTC'' 8"
| "chain_asset_from_chain BitcoinCash = chain_asset_new BitcoinCash ''Bitcoin Cash'' ''BCH'' 8"
| "chain_asset_from_chain Litecoin = chain_asset_new Litecoin ''Litecoin'' ''LTC'' 8"
| "chain_asset_from_chain SmartChain = chain_asset_new SmartChain ''BNB Chain'' ''BNB'' 18"
| "chain_asset_from_chain Polygon = chain_asset_new Polygon ''Polygon'' ''POL'' 18"
| "chain_asset_from_chain AvalancheC = chain_asset_new AvalancheC ''Avalanche'' ''AVAX'' 18"
| "chain_asset_from_chain Solana = chain_asset_new Solana ''Solana'' ''SOL'' 9"
| "chain_asset_from_chain Thorchain = chain_asset_new Thorchain ''Thorchain'' ''RUNE'' 8"
| "chain_asset_from_chain Mayachain = chain_asset_new Mayachain ''Maya'' ''CACAO'' 10"
| "chain_asset_from_chain Cosmos = chain_asset_new Cosmos ''Cosmos'' ''ATOM'' 6"
| "chain_asset_from_chain Osmosis = chain_asset_new Osmosis ''Osmosis'' ''OSMO'' 6"
| "chain_asset_from_chain Celestia = chain_asset_new Celestia ''Celestia'' ''TIA'' 6"
| "chain_asset_from_chain Arbitrum = chain_asset_with_network_name Arbitrum ''Arbitrum'' ''Arbitrum ETH'' ''ETH'' 18"
| "chain_asset_from_chain Ton = chain_asset_with_network_name Ton ''TON'' ''Gram'' ''GRAM'' 9"
| "chain_asset_from_chain Tron = chain_asset_new Tron ''TRON'' ''TRX'' 6"
| "chain_asset_from_chain Doge = chain_asset_new Doge ''Dogecoin'' ''DOGE'' 8"
| "chain_asset_from_chain Zcash = chain_asset_new Zcash ''Zcash'' ''ZEC'' 8"
| "chain_asset_from_chain Optimism = chain_asset_with_network_name Optimism ''Optimism'' ''Optimism ETH'' ''ETH'' 18"
| "chain_asset_from_chain Aptos = chain_asset_new Aptos ''Aptos'' ''APT'' 8"
| "chain_asset_from_chain Base = chain_asset_with_network_name Base ''Base'' ''Base ETH'' ''ETH'' 18"
| "chain_asset_from_chain Sui = chain_asset_new Sui ''Sui'' ''SUI'' 9"
| "chain_asset_from_chain Xrp = chain_asset_new Xrp ''XRP'' ''XRP'' 6"
| "chain_asset_from_chain OpBNB = chain_asset_new OpBNB ''opBNB'' ''BNB'' 18"
| "chain_asset_from_chain Fantom = chain_asset_new Fantom ''Fantom'' ''FTM'' 18"
| "chain_asset_from_chain Gnosis = chain_asset_new Gnosis ''Gnosis Chain'' ''xDai'' 18"
| "chain_asset_from_chain Injective = chain_asset_new Injective ''Injective'' ''INJ'' 18"
| "chain_asset_from_chain Sei = chain_asset_new Sei ''Sei'' ''SEI'' 6"
| "chain_asset_from_chain SeiEvm = chain_asset_new SeiEvm ''Sei EVM'' ''SEI'' 18"
| "chain_asset_from_chain Manta = chain_asset_with_network_name Manta ''Manta'' ''Manta ETH'' ''ETH'' 18"
| "chain_asset_from_chain Blast = chain_asset_with_network_name Blast ''Blast'' ''Blast ETH'' ''ETH'' 18"
| "chain_asset_from_chain Noble = chain_asset_new Noble ''Noble'' ''USDC'' 6"
| "chain_asset_from_chain ZkSync = chain_asset_with_network_name ZkSync ''zkSync'' ''zkSync ETH'' ''ETH'' 18"
| "chain_asset_from_chain Linea = chain_asset_with_network_name Linea ''Linea'' ''Linea ETH'' ''ETH'' 18"
| "chain_asset_from_chain Mantle = chain_asset_new Mantle ''Mantle'' ''MNT'' 18"
| "chain_asset_from_chain Celo = chain_asset_new Celo ''Celo'' ''CELO'' 18"
| "chain_asset_from_chain Near = chain_asset_new Near ''Near'' ''NEAR'' 24"
| "chain_asset_from_chain World = chain_asset_with_network_name World ''World'' ''World ETH'' ''ETH'' 18"
| "chain_asset_from_chain Stellar = chain_asset_new Stellar ''Stellar'' ''XLM'' 7"
| "chain_asset_from_chain Sonic = chain_asset_new Sonic ''Sonic'' ''S'' 18"
| "chain_asset_from_chain Algorand = chain_asset_new Algorand ''Algorand'' ''ALGO'' 6"
| "chain_asset_from_chain Polkadot = chain_asset_new Polkadot ''Polkadot'' ''DOT'' 10"
| "chain_asset_from_chain Plasma = chain_asset_new Plasma ''Plasma'' ''XPL'' 18"
| "chain_asset_from_chain Cardano = chain_asset_new Cardano ''Cardano'' ''ADA'' 6"
| "chain_asset_from_chain Abstract = chain_asset_new Abstract ''Abstract'' ''ETH'' 18"
| "chain_asset_from_chain Berachain = chain_asset_new Berachain ''Berachain'' ''BERA'' 18"
| "chain_asset_from_chain Ink = chain_asset_with_network_name Ink ''Ink'' ''Ink ETH'' ''ETH'' 18"
| "chain_asset_from_chain Unichain = chain_asset_with_network_name Unichain ''Unichain'' ''Unichain ETH'' ''ETH'' 18"
| "chain_asset_from_chain Hyperliquid = chain_asset_new Hyperliquid ''HyperEVM'' ''HYPE'' 18"
| "chain_asset_from_chain HyperCore = chain_asset_new HyperCore ''Hyperliquid'' ''HYPE'' 8"
| "chain_asset_from_chain Monad = chain_asset_new Monad ''Monad'' ''MON'' 18"
| "chain_asset_from_chain XLayer = chain_asset_new XLayer ''X Layer'' ''OKB'' 18"
| "chain_asset_from_chain Robinhood = chain_asset_with_network_name Robinhood ''Robinhood'' ''Robinhood ETH'' ''ETH'' 18"
| "chain_asset_from_chain Stable = chain_asset_new Stable ''Stable'' ''USDT0'' 18"
| "chain_asset_from_chain Tempo = chain_asset_new Tempo ''Tempo'' ''USD'' 6"

definition asset_from_chain :: "chain \<Rightarrow> gem_asset" where
  "asset_from_chain c = ca_asset (chain_asset_from_chain c)"

text \<open>
  The printed form of an asset id, \<open>chain\<close> or \<open>chain_token\<close>, and its parser, which splits at the first
  underscore.
\<close>

definition CHAIN_SEPARATOR :: string where "CHAIN_SEPARATOR = ''_''"

definition asset_id_to_string :: "asset_id \<Rightarrow> string" where
  "asset_id_to_string a = (case token_id a of
       Some t \<Rightarrow> chain_as_ref (asset_chain a) @ CHAIN_SEPARATOR @ t
     | None \<Rightarrow> chain_as_ref (asset_chain a))"

definition asset_id_parse :: "string \<Rightarrow> asset_id option" where
  "asset_id_parse s = (case split_once_str CHAIN_SEPARATOR s of
       Some (c, t) \<Rightarrow> map_option (\<lambda>c. \<lparr>asset_chain = c, token_id = Some t\<rparr>) (chain_from_str c)
     | None \<Rightarrow> map_option (\<lambda>c. \<lparr>asset_chain = c, token_id = None\<rparr>) (chain_from_str s))"

section \<open>Default assets of a wallet\<close>

text \<open>The entries of \<open>known_assets.rs\<close> that \<open>WALLET_DEFAULT_ASSETS\<close> lists, in its order.\<close>

definition token_asset :: "chain \<Rightarrow> string \<Rightarrow> string \<Rightarrow> string \<Rightarrow> int \<Rightarrow> asset_type \<Rightarrow> gem_asset" where
  "token_asset c token name symbol decimals ty = asset_new (asset_id_from c (Some token)) name symbol decimals ty"

definition HYPERCORE_PERPETUAL_USDC :: gem_asset where
  "HYPERCORE_PERPETUAL_USDC =
     asset_new (asset_id_from HyperCore (Some ''perpetual::USDC'')) ''USDC'' ''USDC'' 6 PERPETUAL"

definition HYPERCORE_SPOT_USDC :: gem_asset where
  "HYPERCORE_SPOT_USDC =
     asset_new (asset_id_from HyperCore (Some ''USDC::0x6d1e7cde53ba9467b783cb7c530ce054::0'')) ''USDC'' ''USDC'' 8 TOKEN"

definition SOLANA_USDC :: gem_asset where
  "SOLANA_USDC = token_asset Solana ''EPjFWdd5AufqSSqeM2qN1xzybapC8G4wEGGkZwyTDt1v'' ''USDC'' ''USDC'' 6 SPL"

definition SOLANA_USDT :: gem_asset where
  "SOLANA_USDT = token_asset Solana ''Es9vMFrzaCERmJfrF4H2FYD4KCoNkY11McCe8BenwNYB'' ''Tether'' ''USDT'' 6 SPL"

definition TEMPO_BRIDGED_USDC :: gem_asset where
  "TEMPO_BRIDGED_USDC =
     token_asset Tempo ''0x20C000000000000000000000b9537d11c60E8b50'' ''Bridged USDC'' ''USDC.e'' 6 TIP20"

definition TEMPO_PATHUSD :: gem_asset where
  "TEMPO_PATHUSD = token_asset Tempo ''0x20C0000000000000000000000000000000000000'' ''pathUSD'' ''pathUSD'' 6 TIP20"

definition TEMPO_USDT0 :: gem_asset where
  "TEMPO_USDT0 = token_asset Tempo ''0x20C00000000000000000000014f22CA97301EB73'' ''USDT0'' ''USDT0'' 6 TIP20"

definition TRON_USDT :: gem_asset where
  "TRON_USDT = token_asset Tron ''TR7NHqjeKQxGTCi8q8ZY4pL8otSzgjLj6t'' ''Tether'' ''USDT'' 6 TRC20"

text \<open>Of an entry the flow reads the asset; the rank only orders search results.\<close>

definition WALLET_DEFAULT_ASSETS :: "gem_asset list" where
  "WALLET_DEFAULT_ASSETS =
     [HYPERCORE_PERPETUAL_USDC, HYPERCORE_SPOT_USDC, SOLANA_USDC, SOLANA_USDT, TEMPO_BRIDGED_USDC, TEMPO_PATHUSD,
      TEMPO_USDT0, TRON_USDT]"

definition wallet_default_assets :: "chain \<Rightarrow> gem_asset list" where
  "wallet_default_assets c = filter (\<lambda>a. asset_chain_of a = c) WALLET_DEFAULT_ASSETS"

definition default_asset :: "chain \<Rightarrow> asset_type \<Rightarrow> gem_asset option" where
  "default_asset c ty = List.find (\<lambda>a. asset_type_of a = ty) (wallet_default_assets c)"

definition chain_fee_asset_ids :: "chain \<Rightarrow> asset_id list" where
  "chain_fee_asset_ids c = (case c of Tempo \<Rightarrow> map asset_ident (wallet_default_assets c) | _ \<Rightarrow> [])"

section \<open>Delegations\<close>

text \<open>The commission, yield and price of a validator are floating point and read by no rule of the flow.\<close>

datatype stake_provider_type = StakeProvider | EarnProvider

record delegation_validator =
  dv_chain :: chain
  dv_id :: string
  dv_name :: string
  dv_is_active :: bool
  dv_provider_type :: stake_provider_type

datatype delegation_state = Active | PendingDelegation | Inactive | Activating | Deactivating | AwaitingWithdrawal

record delegation_base =
  db_asset_id :: asset_id
  db_state :: delegation_state
  db_balance :: nat
  db_shares :: nat
  db_rewards :: nat
  db_completion_date :: "int option"
  db_delegation_id :: string
  db_validator_id :: string

record delegation =
  dg_base :: delegation_base
  dg_validator :: delegation_validator

record redelegate_data =
  rd_delegation :: delegation
  rd_to_validator :: delegation_validator

datatype gem_stake_type =
    Gem_Delegate delegation_validator
  | Gem_Unstake delegation
  | Gem_Redelegate redelegate_data
  | Gem_Rewards "delegation_validator list"
  | Gem_Withdraw delegation
  | Gem_Freeze resource
  | Gem_Unfreeze resource

primrec resource_as_ref :: "resource \<Rightarrow> string" where
  "resource_as_ref Bandwidth = ''bandwidth''"
| "resource_as_ref Energy = ''energy''"

datatype earn_type = Earn_Deposit delegation_validator | Earn_Withdraw delegation

primrec earn_provider :: "earn_type \<Rightarrow> delegation_validator" where
  "earn_provider (Earn_Deposit provider) = provider"
| "earn_provider (Earn_Withdraw delegation) = dg_validator delegation"

section \<open>Transactions the wallet builds\<close>

datatype transaction_type =
    TxTransfer | TxTransferNFT | TxSwap | TxTokenApproval | TxStakeDelegate | TxStakeUndelegate | TxStakeRewards
  | TxStakeRedelegate | TxStakeWithdraw | TxStakeFreeze | TxStakeUnfreeze | TxAssetActivation | TxSmartContractCall
  | TxPerpetualOpenPosition | TxPerpetualClosePosition | TxPerpetualModifyPosition | TxEarnDeposit | TxEarnWithdraw

datatype swap_provider =
    UniswapV3 | UniswapV4 | PancakeswapV3 | Aerodrome | Panora | ThorchainProvider | Jupiter | Okx | Across | Oku
  | Wagmi | StonfiV2 | Mayan | Chainflip | NearIntents | CetusAggregator | CetusClmm | Relay | HyperliquidProvider
  | Orca | Squid | MayachainProvider | SwapsXyz

text \<open>\<open>AsRef<str>\<close> of a provider: \<open>strum\<close>'s snake case.\<close>

primrec swap_provider_as_ref :: "swap_provider \<Rightarrow> string" where
  "swap_provider_as_ref UniswapV3 = ''uniswap_v3''"
| "swap_provider_as_ref UniswapV4 = ''uniswap_v4''"
| "swap_provider_as_ref PancakeswapV3 = ''pancakeswap_v3''"
| "swap_provider_as_ref Aerodrome = ''aerodrome''"
| "swap_provider_as_ref Panora = ''panora''"
| "swap_provider_as_ref ThorchainProvider = ''thorchain''"
| "swap_provider_as_ref Jupiter = ''jupiter''"
| "swap_provider_as_ref Okx = ''okx''"
| "swap_provider_as_ref Across = ''across''"
| "swap_provider_as_ref Oku = ''oku''"
| "swap_provider_as_ref Wagmi = ''wagmi''"
| "swap_provider_as_ref StonfiV2 = ''stonfi_v2''"
| "swap_provider_as_ref Mayan = ''mayan''"
| "swap_provider_as_ref Chainflip = ''chainflip''"
| "swap_provider_as_ref NearIntents = ''near_intents''"
| "swap_provider_as_ref CetusAggregator = ''cetus_aggregator''"
| "swap_provider_as_ref CetusClmm = ''cetus_clmm''"
| "swap_provider_as_ref Relay = ''relay''"
| "swap_provider_as_ref HyperliquidProvider = ''hyperliquid''"
| "swap_provider_as_ref Orca = ''orca''"
| "swap_provider_as_ref Squid = ''squid''"
| "swap_provider_as_ref MayachainProvider = ''mayachain''"
| "swap_provider_as_ref SwapsXyz = ''swaps_xyz''"

text \<open>A quote as the wallet holds it; the signers read the two fields of the record it extends.\<close>

record gem_swap_quote = swap_quote +
  gq_from_value :: nat
  gq_to_value :: nat
  gq_provider :: swap_provider

record gem_swap_data =
  gs_quote :: gem_swap_quote
  gs_data :: swap_quote_data

datatype transfer_data_output_action = SignAction | SendAction

record gem_transfer_data_extra = transfer_data_extra +
  ge_to :: string
  ge_gas_limit :: "int option"
  ge_gas_price :: "gas_price_type option"
  ge_output_action :: transfer_data_output_action
  ge_transaction_type :: transaction_type
  ge_approval :: "approval_data option"

datatype application_metadata_source = WalletConnect | Payment

record application_metadata =
  am_name :: string
  am_description :: string
  am_url :: string
  am_icon :: string
  am_source :: application_metadata_source

record nft_asset_id =
  ni_chain :: chain
  ni_contract_address :: string
  ni_token_id :: string

record gem_nft_asset = nft_asset +
  na_id :: nft_asset_id
  na_name :: string

datatype perpetual_direction = Short | Long

text \<open>Of the perpetual payloads the flow reads the direction, of a reduced position that of the position.\<close>

datatype perpetual_type =
    Perpetual_Open perpetual_direction
  | Perpetual_Close perpetual_direction
  | Perpetual_Modify
  | Perpetual_Increase perpetual_direction
  | Perpetual_Reduce perpetual_direction perpetual_direction

datatype account_data_type = Activate

datatype gem_transaction_input_type =
    Gem_Transfer gem_asset
  | Gem_Deposit gem_asset
  | Gem_Swap gem_asset gem_asset gem_swap_data
  | Gem_Stake gem_asset gem_stake_type
  | Gem_TokenApprove gem_asset approval_data
  | Gem_Generic gem_asset application_metadata gem_transfer_data_extra
  | Gem_TransferNft gem_asset gem_nft_asset
  | Gem_Account gem_asset account_data_type
  | Gem_Perpetual gem_asset perpetual_type
  | Gem_Earn gem_asset earn_type contract_call_data
  | Gem_Withdrawal gem_asset

primrec gem_asset_of :: "gem_transaction_input_type \<Rightarrow> gem_asset" where
  "gem_asset_of (Gem_Transfer a) = a"
| "gem_asset_of (Gem_Deposit a) = a"
| "gem_asset_of (Gem_Swap from to swap) = from"
| "gem_asset_of (Gem_Stake a st) = a"
| "gem_asset_of (Gem_TokenApprove a appr) = a"
| "gem_asset_of (Gem_Generic a meta extra) = a"
| "gem_asset_of (Gem_TransferNft a nft) = a"
| "gem_asset_of (Gem_Account a ty) = a"
| "gem_asset_of (Gem_Perpetual a ty) = a"
| "gem_asset_of (Gem_Earn a ty call) = a"
| "gem_asset_of (Gem_Withdrawal a) = a"

abbreviation input_chain :: "gem_transaction_input_type \<Rightarrow> chain" where
  "input_chain t \<equiv> asset_chain_of (gem_asset_of t)"

section \<open>Lowering to the signers' input\<close>

text \<open>\<open>From<GemTransactionInputType>\<close>: a withdrawal lowers to a transfer, everything else to itself.\<close>

fun lower_stake_type :: "gem_stake_type \<Rightarrow> stake_type" where
  "lower_stake_type (Gem_Delegate _) = Stake"
| "lower_stake_type (Gem_Unstake _) = Unstake"
| "lower_stake_type (Gem_Redelegate _) = Redelegate"
| "lower_stake_type (Gem_Rewards _) = Rewards"
| "lower_stake_type (Gem_Withdraw _) = Withdraw"
| "lower_stake_type (Gem_Freeze r) = Freeze r"
| "lower_stake_type (Gem_Unfreeze r) = Unfreeze r"

fun lower_input_type :: "gem_transaction_input_type \<Rightarrow> transaction_input_type" where
  "lower_input_type (Gem_Transfer a) = TransferInput (asset.truncate a)"
| "lower_input_type (Gem_Deposit a) = DepositInput (asset.truncate a)"
| "lower_input_type (Gem_Swap from to swap) =
     SwapInput (asset.truncate from) (asset.truncate to)
       \<lparr>quote = swap_quote.truncate (gs_quote swap), quote_data = gs_data swap\<rparr>"
| "lower_input_type (Gem_Stake a st) = StakeInput (asset.truncate a) (lower_stake_type st)"
| "lower_input_type (Gem_TokenApprove a appr) = TokenApproveInput (asset.truncate a) appr"
| "lower_input_type (Gem_Generic a _ extra) = GenericInput (asset.truncate a) (transfer_data_extra.truncate extra)"
| "lower_input_type (Gem_TransferNft a nft) = TransferNftInput (asset.truncate a) (nft_asset.truncate nft)"
| "lower_input_type (Gem_Account a _) = AccountInput (asset.truncate a)"
| "lower_input_type (Gem_Perpetual a _) = PerpetualInput (asset.truncate a)"
| "lower_input_type (Gem_Earn a _ _) = EarnInput (asset.truncate a)"
| "lower_input_type (Gem_Withdrawal a) = TransferInput (asset.truncate a)"

section \<open>Transfers, balances and wallets\<close>

record gem_recipient =
  gr_address :: string
  gr_name :: "string option"
  gr_memo :: "string option"
  gr_references :: "string list"

definition recipient_address :: "string \<Rightarrow> gem_recipient" where
  "recipient_address address = \<lparr>gr_address = address, gr_name = None, gr_memo = None, gr_references = []\<rparr>"

definition recipient_named :: "string \<Rightarrow> string \<Rightarrow> gem_recipient" where
  "recipient_named address name = (recipient_address address)\<lparr>gr_name := Some name\<rparr>"

record gem_transfer_data =
  td_input_type :: gem_transaction_input_type
  td_recipient :: gem_recipient
  td_value :: int
  td_use_max_amount :: bool
  td_minimum_value :: "int option"

record balance_metadata =
  bm_votes :: u32
  bm_energy_available :: u32
  bm_energy_total :: u32
  bm_bandwidth_available :: u32
  bm_bandwidth_total :: u32

record gem_asset_balance =
  gb_asset_id :: asset_id
  gb_available :: nat
  gb_frozen :: nat
  gb_locked :: nat
  gb_staked :: nat
  gb_pending :: nat
  gb_pending_unconfirmed :: nat
  gb_rewards :: nat
  gb_reserved :: nat
  gb_withdrawable :: nat
  gb_earn :: nat
  gb_metadata :: "balance_metadata option"

definition votes :: "gem_asset_balance \<Rightarrow> u32" where
  "votes b = (case gb_metadata b of Some m \<Rightarrow> bm_votes m | None \<Rightarrow> 0)"

record gem_balance_requirement =
  req_required :: int
  req_available :: int
  req_shortfall :: int

definition balance_requirement :: "int \<Rightarrow> int \<Rightarrow> gem_balance_requirement" where
  "balance_requirement required available =
     \<lparr>req_required = required, req_available = available, req_shortfall = max (required - available) 0\<rparr>"

record account =
  acc_chain :: chain
  acc_address :: string
  acc_derivation_path :: string
  acc_extended_public_key :: "string option"

text \<open>A wallet identifier is opaque to the flow; of the wallet it reads the identifier and the accounts.\<close>

record wallet =
  wallet_id :: string
  accounts :: "account list"

definition wallet_account :: "wallet \<Rightarrow> chain \<Rightarrow> account option" where
  "wallet_account w c = List.find (\<lambda>a. acc_chain a = c) (accounts w)"

section \<open>Stored transactions\<close>

record transaction_id =
  ti_chain :: chain
  ti_hash :: string

definition transaction_id_to_string :: "transaction_id \<Rightarrow> string" where
  "transaction_id_to_string t = chain_as_ref (ti_chain t) @ CHAIN_SEPARATOR @ ti_hash t"

definition transaction_id_parse :: "string \<Rightarrow> transaction_id option" where
  "transaction_id_parse s = (case split_once_str CHAIN_SEPARATOR s of
       None \<Rightarrow> None
     | Some (c, h) \<Rightarrow> map_option (\<lambda>c. \<lparr>ti_chain = c, ti_hash = h\<rparr>) (chain_from_str c))"

datatype transaction_state = Pending | Confirmed | InTransit | Failed | Reverted | Refunded

datatype transaction_direction = SelfTransfer | Outgoing | Incoming

record transaction_swap_metadata =
  tsm_from_asset :: asset_id
  tsm_from_value :: nat
  tsm_to_asset :: asset_id
  tsm_to_value :: nat
  tsm_provider :: "string option"

record transaction_asset_transfer =
  tat_asset_id :: asset_id
  tat_from :: string
  tat_to :: string
  tat_value :: nat

text \<open>
  The metadata of a stored transaction is a JSON value. The model keeps the structure it was serialised from;
  the accessors recognise their own structure, as deserialising does. The two prices of a perpetual order are
  written as zero and left out.
\<close>

datatype transaction_metadata =
    SwapMetadata transaction_swap_metadata
  | NftMetadata nft_asset_id "string option"
  | PerpetualMetadata perpetual_direction
  | ResourceMetadata resource
  | WalletConnectMetadata transfer_data_output_action
  | AssetTransfersMetadata "transaction_asset_transfer list"

record transaction =
  tx_id :: transaction_id
  tx_asset_id :: asset_id
  tx_from :: string
  tx_to :: string
  tx_contract :: "string option"
  tx_type :: transaction_type
  tx_state :: transaction_state
  tx_block_number :: "string option"
  tx_sequence :: "string option"
  tx_fee :: nat
  tx_fee_asset_id :: asset_id
  tx_value :: nat
  tx_memo :: "string option"
  tx_direction :: transaction_direction
  tx_metadata :: "transaction_metadata option"
  tx_created_at :: int

definition transaction_new ::
  "string \<Rightarrow> asset_id \<Rightarrow> string \<Rightarrow> string \<Rightarrow> string option \<Rightarrow> transaction_type \<Rightarrow> transaction_state \<Rightarrow> nat \<Rightarrow> asset_id
     \<Rightarrow> nat \<Rightarrow> string option \<Rightarrow> transaction_metadata option \<Rightarrow> int \<Rightarrow> transaction" where
  "transaction_new hash ident from_address to_address contract ty st fee fee_asset v memo_text meta created_at =
     \<lparr>tx_id = \<lparr>ti_chain = asset_chain ident, ti_hash = hash\<rparr>, tx_asset_id = ident, tx_from = from_address,
      tx_to = to_address, tx_contract = contract, tx_type = ty, tx_state = st, tx_block_number = Some [],
      tx_sequence = Some [], tx_fee = fee, tx_fee_asset_id = fee_asset, tx_value = v, tx_memo = memo_text,
      tx_direction = SelfTransfer, tx_metadata = meta, tx_created_at = created_at\<rparr>"

definition swap_metadata :: "transaction \<Rightarrow> transaction_swap_metadata option" where
  "swap_metadata t = (case tx_metadata t of Some (SwapMetadata m) \<Rightarrow> Some m | _ \<Rightarrow> None)"

definition asset_transfers_metadata :: "transaction \<Rightarrow> transaction_asset_transfer list option" where
  "asset_transfers_metadata t = (case tx_metadata t of Some (AssetTransfersMetadata m) \<Rightarrow> Some m | _ \<Rightarrow> None)"

text \<open>
  The assets a transaction touches. The code collects them in a hash set, whose order is unspecified; the
  list here has no duplicates either, and the facts are about its set.
\<close>

definition transaction_asset_ids :: "transaction \<Rightarrow> asset_id list" where
  "transaction_asset_ids t = remdups (
     (case tx_type t of
        TxSwap \<Rightarrow> (case swap_metadata t of Some m \<Rightarrow> [tsm_from_asset m, tsm_to_asset m] | None \<Rightarrow> [])
      | _ \<Rightarrow> [tx_asset_id t])
     @ (case asset_transfers_metadata t of Some m \<Rightarrow> map tat_asset_id m | None \<Rightarrow> []))"

definition associated_asset_ids :: "transaction \<Rightarrow> asset_id list" where
  "associated_asset_ids t = remdups (transaction_asset_ids t @ [tx_asset_id t, tx_fee_asset_id t])"

section \<open>Facts\<close>

lemma strip_prefix_single: "strip_prefix [c] s = (case s of [] \<Rightarrow> None | d # ds \<Rightarrow> if d = c then Some ds else None)"
  by (cases s) (auto simp: strip_prefix_def)

lemma split_once_absent: "c \<notin> set s \<Longrightarrow> split_once_str [c] s = None"
  by (induction s) (auto simp: strip_prefix_single)

lemma split_once_first: "c \<notin> set s \<Longrightarrow> split_once_str [c] (s @ c # t) = Some (s, t)"
  by (induction s) (auto simp: strip_prefix_single)

lemma split_once_SomeD: "split_once_str [c] s = Some (a, b) \<Longrightarrow> s = a @ c # b"
proof (induction s arbitrary: a)
  case (Cons d ds)
  then show ?case by (auto simp: strip_prefix_single split: if_splits)
qed simp

lemma chain_name_no_separator: "CHR ''_'' \<notin> set (chain_as_ref c)"
  by (cases c) simp_all

lemma asset_id_parse_to_string [simp]: "asset_id_parse (asset_id_to_string a) = Some a"
  by (cases a) (auto simp: asset_id_parse_def asset_id_to_string_def CHAIN_SEPARATOR_def chain_name_no_separator
      split_once_first split_once_absent split: option.splits)

lemma asset_id_to_string_parse: "asset_id_parse s = Some a \<Longrightarrow> asset_id_to_string a = s"
  by (auto simp: asset_id_parse_def asset_id_to_string_def CHAIN_SEPARATOR_def
      dest!: chain_from_str_SomeD split_once_SomeD split: option.splits prod.splits)

lemma transaction_id_parse_to_string [simp]: "transaction_id_parse (transaction_id_to_string t) = Some t"
  by (cases t) (simp add: transaction_id_parse_def transaction_id_to_string_def CHAIN_SEPARATOR_def
      chain_name_no_separator split_once_first)

lemma transaction_id_to_string_parse: "transaction_id_parse s = Some t \<Longrightarrow> transaction_id_to_string t = s"
  by (auto simp: transaction_id_parse_def transaction_id_to_string_def CHAIN_SEPARATOR_def
      dest!: chain_from_str_SomeD split_once_SomeD split: option.splits prod.splits)

lemma asset_from_chain_chain [simp]:
  "asset_ident (asset_from_chain c) = from_chain_id_asset c" "asset_type_of (asset_from_chain c) = NATIVE"
  by (cases c; simp add: asset_from_chain_def chain_asset_new_def chain_asset_with_network_name_def asset_new_def)+

lemma lower_asset: "get_asset (lower_input_type t) = asset.truncate (gem_asset_of t)"
  by (cases t) simp_all

lemma to_biguint_Some [simp]: "to_biguint v = Some n \<longleftrightarrow> v = int n"
  by (auto simp: to_biguint_def)

lemma wallet_account_SomeD: "wallet_account w c = Some a \<Longrightarrow> a \<in> set (accounts w) \<and> acc_chain a = c"
  unfolding wallet_account_def by (auto dest: find_SomeD)

section \<open>Properties\<close>

text \<open>
  asset and transaction identifiers and their printed forms determine each other: parsing what
  \<open>Display\<close> prints gives the identifier back, whatever the token id or the hash contains (no chain name has an
  underscore, and the parser splits at the first one), and every string the parser accepts is exactly the
  printed form of its result.
\<close>

theorem identifiers_roundtrip:
  "(asset_id_parse s = Some a \<longleftrightarrow> s = asset_id_to_string a)
   \<and> (transaction_id_parse s = Some t \<longleftrightarrow> s = transaction_id_to_string t)"
  using asset_id_to_string_parse transaction_id_to_string_parse by auto

end
