(* ===== verification/Transfer_Amount.thy ===== *)
theory Transfer_Amount
  imports Transfer_Types
begin

text \<open>
  What a transfer may spend (\<open>crates/primitives/src/transfer_amount.rs\<close>): \<open>calculate\<close> takes the requested
  value, the balance it is paid from, the fee and the balance the fee is paid from, and returns the value to
  send or one of three refusals. The facts compare it with a declarative budget: it accepts exactly the
  requests within the budget, a maximal request is cut to the largest value within it, and every refusal
  reports a real shortfall. \<open>TransactionInputType\<close> is the wallet's input type after the lowering that turns a
  withdrawal into a transfer (\<open>gemstone/src/transfer_amount.rs\<close>).
\<close>

section \<open>Input types\<close>

fun as_primitive :: "gem_transaction_input_type \<Rightarrow> gem_transaction_input_type" where
  "as_primitive (Gem_Withdrawal a) = Gem_Transfer a"
| "as_primitive t = t"

text \<open>The last case does not occur after the lowering.\<close>

fun spends_balance :: "gem_transaction_input_type \<Rightarrow> bool" where
  "spends_balance (Gem_Transfer _) = True"
| "spends_balance (Gem_Deposit _) = True"
| "spends_balance (Gem_Swap _ _ _) = True"
| "spends_balance (Gem_Generic _ _ _) = True"
| "spends_balance (Gem_Stake _ st) = (case st of
     Gem_Delegate _ \<Rightarrow> True | Gem_Freeze _ \<Rightarrow> True
   | Gem_Unstake _ \<Rightarrow> False | Gem_Unfreeze _ \<Rightarrow> False | Gem_Redelegate _ \<Rightarrow> False | Gem_Rewards _ \<Rightarrow> False
   | Gem_Withdraw _ \<Rightarrow> False)"
| "spends_balance (Gem_Earn _ ty _) = (case ty of Earn_Deposit _ \<Rightarrow> True | Earn_Withdraw _ \<Rightarrow> False)"
| "spends_balance (Gem_Perpetual _ _) = False"
| "spends_balance (Gem_TokenApprove _ _) = False"
| "spends_balance (Gem_Account _ _) = False"
| "spends_balance (Gem_TransferNft _ _) = False"
| "spends_balance (Gem_Withdrawal _) = True"

fun transaction_type_of :: "gem_transaction_input_type \<Rightarrow> transaction_type" where
  "transaction_type_of (Gem_Transfer _) = TxTransfer"
| "transaction_type_of (Gem_Deposit _) = TxTransfer"
| "transaction_type_of (Gem_Swap _ _ _) = TxSwap"
| "transaction_type_of (Gem_Stake _ st) = (case st of
     Gem_Delegate _ \<Rightarrow> TxStakeDelegate | Gem_Unstake _ \<Rightarrow> TxStakeUndelegate | Gem_Redelegate _ \<Rightarrow> TxStakeRedelegate
   | Gem_Rewards _ \<Rightarrow> TxStakeRewards | Gem_Withdraw _ \<Rightarrow> TxStakeWithdraw | Gem_Freeze _ \<Rightarrow> TxStakeFreeze
   | Gem_Unfreeze _ \<Rightarrow> TxStakeUnfreeze)"
| "transaction_type_of (Gem_TokenApprove _ _) = TxTokenApproval"
| "transaction_type_of (Gem_Generic _ _ extra) = ge_transaction_type extra"
| "transaction_type_of (Gem_TransferNft _ _) = TxTransferNFT"
| "transaction_type_of (Gem_Account _ _) = TxAssetActivation"
| "transaction_type_of (Gem_Perpetual _ ty) = (case ty of
     Perpetual_Open _ \<Rightarrow> TxPerpetualOpenPosition | Perpetual_Increase _ \<Rightarrow> TxPerpetualOpenPosition
   | Perpetual_Close _ \<Rightarrow> TxPerpetualClosePosition | Perpetual_Reduce _ _ \<Rightarrow> TxPerpetualClosePosition
   | Perpetual_Modify \<Rightarrow> TxPerpetualModifyPosition)"
| "transaction_type_of (Gem_Earn _ ty _) = (case ty of
     Earn_Deposit _ \<Rightarrow> TxEarnDeposit | Earn_Withdraw _ \<Rightarrow> TxEarnWithdraw)"
| "transaction_type_of (Gem_Withdrawal _) = TxTransfer"

fun get_recipient_asset :: "gem_transaction_input_type \<Rightarrow> gem_asset" where
  "get_recipient_asset (Gem_Swap _ to _) = to"
| "get_recipient_asset t = gem_asset_of t"

section \<open>The calculation\<close>

record transfer_amount =
  ta_value :: int
  ta_network_fee :: int
  ta_is_max_amount :: bool

datatype transfer_amount_error =
    TA_InsufficientBalance asset_id int int
  | TA_InsufficientNetworkFee asset_id int int
  | TA_MinimumAccountBalanceTooLow asset_id int int

record transfer_amount_input =
  tai_input_type :: gem_transaction_input_type
  tai_value :: int
  tai_available_value :: int
  tai_fee_asset :: asset_id
  tai_fee_asset_balance :: int
  tai_fee :: int
  tai_is_max_amount :: bool
  tai_minimum_value :: "int option"

definition calculate :: "transfer_amount_input \<Rightarrow> transfer_amount_error + transfer_amount" where
  "calculate i =
     (let a = gem_asset_of (tai_input_type i);
          spends = spends_balance (tai_input_type i);
          should_deduct_fee = (spends \<and> asset_ident a = tai_fee_asset i);
          v = (if tai_is_max_amount i \<and> should_deduct_fee
               then min (tai_value i) (tai_available_value i - tai_fee i) else tai_value i);
          required = (if \<not> spends then 0 else if \<not> should_deduct_fee then v else v + tai_fee i);
          should_skip_fee_check = (asset_chain_of a = HyperCore \<and> \<not> spends);
          minimum_balance = (case minimum_account_balance (asset_chain_of a) of
              Some minimum \<Rightarrow> if asset_type_of a = NATIVE \<and> \<not> tai_is_max_amount i \<and> spends
                then Some (uint minimum) else None
            | None \<Rightarrow> None);
          remaining_balance = tai_available_value i - required
      in if required > tai_available_value i then
           (case minimum_balance of
              Some minimum \<Rightarrow>
                if v \<le> tai_available_value i
                then Err (TA_MinimumAccountBalanceTooLow (asset_ident a) minimum remaining_balance)
                else Err (TA_InsufficientBalance (asset_ident a) required (tai_available_value i))
            | None \<Rightarrow> Err (TA_InsufficientBalance (asset_ident a) required (tai_available_value i)))
         else if tai_fee_asset_balance i < tai_fee i \<and> \<not> should_skip_fee_check
         then Err (TA_InsufficientNetworkFee (tai_fee_asset i) (tai_fee i) (tai_fee_asset_balance i))
         else if (case minimum_balance of Some minimum \<Rightarrow> remaining_balance < minimum | None \<Rightarrow> False)
         then Err (TA_MinimumAccountBalanceTooLow (asset_ident a) (the minimum_balance) remaining_balance)
         else if (case tai_minimum_value i of Some minimum \<Rightarrow> v < minimum | None \<Rightarrow> False)
         then Err (TA_InsufficientBalance (asset_ident a) (the (tai_minimum_value i)) v)
         else Ok \<lparr>ta_value = v, ta_network_fee = tai_fee i, ta_is_max_amount = tai_is_max_amount i\<rparr>)"

text \<open>\<open>GemTransferAmountInput::calculate\<close>: the wallet's input lowered first.\<close>

definition gem_calculate :: "transfer_amount_input \<Rightarrow> transfer_amount_error + transfer_amount" where
  "gem_calculate i = calculate (i\<lparr>tai_input_type := as_primitive (tai_input_type i)\<rparr>)"

section \<open>The budget\<close>

text \<open>
  The specification: the fee counts against the asset's own balance when it is paid in that asset; what is
  left must cover the chain's minimum balance of an account unless everything is sent; the fee balance must
  cover the fee, except for requests on HyperCore that spend nothing.
\<close>

definition pays_own_fee :: "transfer_amount_input \<Rightarrow> bool" where
  "pays_own_fee i \<longleftrightarrow> spends_balance (tai_input_type i) \<and> asset_ident (gem_asset_of (tai_input_type i)) = tai_fee_asset i"

definition spent :: "transfer_amount_input \<Rightarrow> int \<Rightarrow> int" where
  "spent i v = (if spends_balance (tai_input_type i) then v + (if pays_own_fee i then tai_fee i else 0) else 0)"

definition reserve :: "transfer_amount_input \<Rightarrow> int option" where
  "reserve i =
     (let a = gem_asset_of (tai_input_type i) in
      if asset_type_of a = NATIVE \<and> \<not> tai_is_max_amount i \<and> spends_balance (tai_input_type i)
      then map_option uint (minimum_account_balance (asset_chain_of a)) else None)"

definition within_budget :: "transfer_amount_input \<Rightarrow> int \<Rightarrow> bool" where
  "within_budget i v \<longleftrightarrow>
     spent i v + (case reserve i of Some m \<Rightarrow> m | None \<Rightarrow> 0) \<le> tai_available_value i
     \<and> (tai_fee i \<le> tai_fee_asset_balance i
        \<or> input_chain (tai_input_type i) = HyperCore \<and> \<not> spends_balance (tai_input_type i))
     \<and> (case tai_minimum_value i of Some m \<Rightarrow> m \<le> v | None \<Rightarrow> True)"

definition chosen_value :: "transfer_amount_input \<Rightarrow> int" where
  "chosen_value i = (if tai_is_max_amount i \<and> pays_own_fee i
     then min (tai_value i) (tai_available_value i - tai_fee i) else tai_value i)"

section \<open>Facts\<close>

lemmas budget_defs = within_budget_def spent_def reserve_def chosen_value_def pays_own_fee_def

lemma reserve_nonneg: "reserve i = Some m \<Longrightarrow> 0 \<le> m"
  by (auto simp: reserve_def Let_def split: if_splits)

text \<open>The function, folded into the terms of the specification.\<close>

lemma calculate_alt:
  "calculate i =
     (let a = asset_ident (gem_asset_of (tai_input_type i)); v = chosen_value i;
          left = tai_available_value i - spent i v
      in if left < 0 then
           (if reserve i \<noteq> None \<and> v \<le> tai_available_value i
            then Err (TA_MinimumAccountBalanceTooLow a (the (reserve i)) left)
            else Err (TA_InsufficientBalance a (spent i v) (tai_available_value i)))
         else if tai_fee_asset_balance i < tai_fee i
              \<and> \<not> (input_chain (tai_input_type i) = HyperCore \<and> \<not> spends_balance (tai_input_type i))
         then Err (TA_InsufficientNetworkFee (tai_fee_asset i) (tai_fee i) (tai_fee_asset_balance i))
         else if (case reserve i of Some m \<Rightarrow> left < m | None \<Rightarrow> False)
         then Err (TA_MinimumAccountBalanceTooLow a (the (reserve i)) left)
         else if (case tai_minimum_value i of Some m \<Rightarrow> v < m | None \<Rightarrow> False)
         then Err (TA_InsufficientBalance a (the (tai_minimum_value i)) v)
         else Ok \<lparr>ta_value = v, ta_network_fee = tai_fee i, ta_is_max_amount = tai_is_max_amount i\<rparr>)"
  by (cases "minimum_account_balance (input_chain (tai_input_type i))")
     (auto simp: calculate_def spent_def reserve_def chosen_value_def pays_own_fee_def Let_def)

lemma calculate_Ok_iff:
  "calculate i = Ok r \<longleftrightarrow>
     within_budget i (chosen_value i)
     \<and> r = \<lparr>ta_value = chosen_value i, ta_network_fee = tai_fee i, ta_is_max_amount = tai_is_max_amount i\<rparr>"
  using reserve_nonneg [of i]
  by (cases "reserve i"; cases "tai_minimum_value i")
     (auto simp: calculate_alt within_budget_def Let_def)

lemma chosen_value_greatest:
  assumes "v \<le> tai_value i" "within_budget i v"
  shows "v \<le> chosen_value i"
  using assms by (cases "reserve i") (auto simp: chosen_value_def within_budget_def spent_def pays_own_fee_def reserve_def Let_def)

lemma chosen_value_le: "chosen_value i \<le> tai_value i"
  by (simp add: chosen_value_def)

text \<open>A refusal names the balance that does not suffice and by how much.\<close>

fun refusal_true :: "transfer_amount_input \<Rightarrow> transfer_amount_error \<Rightarrow> bool" where
  "refusal_true i (TA_InsufficientBalance a required available) =
     (a = asset_ident (gem_asset_of (tai_input_type i)) \<and> available < required
      \<and> (required = spent i (chosen_value i) \<and> available = tai_available_value i
         \<or> tai_minimum_value i = Some required \<and> available = chosen_value i))"
| "refusal_true i (TA_InsufficientNetworkFee a required available) =
     (a = tai_fee_asset i \<and> required = tai_fee i \<and> available = tai_fee_asset_balance i \<and> available < required)"
| "refusal_true i (TA_MinimumAccountBalanceTooLow a required left) =
     (a = asset_ident (gem_asset_of (tai_input_type i)) \<and> reserve i = Some required
      \<and> left = tai_available_value i - spent i (chosen_value i) \<and> left < required)"

lemma calculate_Err_true: "calculate i = Err e \<Longrightarrow> refusal_true i e"
  using reserve_nonneg [of i]
  by (cases "reserve i"; cases "tai_minimum_value i")
     (auto simp: calculate_alt Let_def split: if_splits)

lemma calculate_Err_outside: "calculate i = Err e \<Longrightarrow> \<not> within_budget i (chosen_value i)"
  using calculate_Ok_iff [of i] by auto

lemma minimum_account_balance_Solana: "minimum_account_balance Solana = Some 890880"
proof -
  have "config Solana = config_solana"
    using config_cfg_chain [of config_solana] by (simp add: CHAIN_CONFIGS_def config_solana_def)
  then show ?thesis by (simp add: minimum_account_balance_def config_solana_def)
qed

section \<open>Properties\<close>

text \<open>
  C4: \<open>TransferAmountInput::calculate\<close> accepts exactly the requests within the budget. It returns an amount if
  and only if the value, with the fee when the fee is paid in the same asset and with the chain's minimum
  account balance when not everything is sent, fits in the available balance, the fee fits in the fee
  asset's balance and the value reaches the requested minimum; it then returns that value and the fee. The
  value never exceeds the requested one, and no smaller-or-equal value within the budget is larger: a maximal
  transfer is cut to the largest value that leaves room for the fee.
\<close>

theorem transfer_amount_exact:
  "(calculate i = Ok r \<longleftrightarrow>
      within_budget i (ta_value r) \<and> ta_value r = chosen_value i \<and> ta_network_fee r = tai_fee i
      \<and> ta_is_max_amount r = tai_is_max_amount i)
   \<and> chosen_value i \<le> tai_value i
   \<and> (v \<le> tai_value i \<and> within_budget i v \<longrightarrow> v \<le> chosen_value i)"
  using chosen_value_greatest [of v i] chosen_value_le [of i] by (cases r) (auto simp: calculate_Ok_iff)

definition demo_amount :: "bool \<Rightarrow> int \<Rightarrow> transfer_amount_input" where
  "demo_amount is_max v =
     \<lparr>tai_input_type = Gem_Transfer (asset_from_chain Solana), tai_value = v, tai_available_value = 100000000,
      tai_fee_asset = from_chain_id_asset Solana, tai_fee_asset_balance = 100000000, tai_fee = 5000,
      tai_is_max_amount = is_max, tai_minimum_value = None\<rparr>"

lemma demo_amount_max: "chosen_value (demo_amount True 100000000) = 99995000"
  "within_budget (demo_amount True 100000000) 99995000"
  by (simp_all add: budget_defs demo_amount_def asset_chain_of_def from_chain_id_asset_def)

theorem transfer_amount_exact_witness:
  "calculate (demo_amount True 100000000)
     = Ok \<lparr>ta_value = 99995000, ta_network_fee = 5000, ta_is_max_amount = True\<rparr>
   \<and> (99990000 :: int) \<le> 99995000"
  using transfer_amount_exact [of "demo_amount True 100000000"
      "\<lparr>ta_value = 99995000, ta_network_fee = 5000, ta_is_max_amount = True\<rparr>" 99990000]
    demo_amount_max by (simp add: demo_amount_def)

text \<open>
  C13: every refusal of \<open>calculate\<close> is true. When it refuses, the request is outside the budget; the error
  names the asset whose balance fails, with a required amount strictly above the available one: the spent
  amount against the available balance or the requested minimum against the value, the fee against the fee
  asset's balance, or the chain's minimum balance against what would be left in the account.
\<close>

theorem transfer_amount_refusals:
  assumes "calculate i = Err e"
  shows "\<not> within_budget i (chosen_value i) \<and> refusal_true i e"
  using calculate_Err_true [OF assms] calculate_Err_outside [OF assms] by blast

lemma demo_amount_refused:
  "calculate (demo_amount False 99999000)
     = Err (TA_MinimumAccountBalanceTooLow (from_chain_id_asset Solana) 890880 (- 4000))"
  by (simp add: calculate_def demo_amount_def asset_chain_of_def from_chain_id_asset_def Let_def
      minimum_account_balance_Solana)

theorem transfer_amount_refusals_witness:
  "refusal_true (demo_amount False 99999000)
     (TA_MinimumAccountBalanceTooLow (from_chain_id_asset Solana) 890880 (- 4000))"
  using transfer_amount_refusals [OF demo_amount_refused] by blast

end
