(* ===== verification/Transfer_Rules.thy ===== *)
theory Transfer_Rules
  imports Transfer_Amount
begin

text \<open>
  The rules of the send flow (\<open>gemstone/src/services/transfer/rules.rs\<close>): what a request outputs, which assets
  it touches and pays its fee in, which approval a signed transaction stands for, which broadcast
  transactions are tracked, how staking and earning requests are built, what balance a request may draw on,
  and the pending transaction that is stored for a broadcast one; with the amount screen's rules
  (\<open>gemstone/src/services/amount/rules.rs\<close>), whose minimum order size of a perpetual, a floating-point
  computation of the \<open>gem_hypercore\<close> crate, is an argument.
\<close>

section \<open>Rules of a request\<close>

fun transaction_asset :: "gem_transaction_input_type \<Rightarrow> gem_asset" where
  "transaction_asset (Gem_TransferNft a _) = asset_from_chain (asset_chain_of a)"
| "transaction_asset t = gem_asset_of t"

definition gem_transaction_type :: "gem_transaction_input_type \<Rightarrow> transaction_type" where
  "gem_transaction_type t = transaction_type_of (as_primitive t)"

datatype transaction_header_kind = AmountHeader bool | AssetImageHeader | NftHeader | SwapHeader | SymbolHeader

fun header_kind :: "gem_transaction_input_type \<Rightarrow> transaction_header_kind" where
  "header_kind (Gem_Account _ _) = AmountHeader False"
| "header_kind (Gem_TokenApprove _ _) = AssetImageHeader"
| "header_kind (Gem_TransferNft _ _) = NftHeader"
| "header_kind (Gem_Swap _ _ _) = SwapHeader"
| "header_kind (Gem_Perpetual _ _) = SymbolHeader"
| "header_kind _ = AmountHeader True"

definition is_memo_supported :: "chain \<Rightarrow> bool" where
  "is_memo_supported c = (case chain_type_of c of
       SolanaType \<Rightarrow> True | CosmosType \<Rightarrow> True | TonType \<Rightarrow> True | XrpType \<Rightarrow> True | StellarType \<Rightarrow> True
     | AlgorandType \<Rightarrow> True | _ \<Rightarrow> False)"

fun shows_memo :: "gem_transaction_input_type \<Rightarrow> bool" where
  "shows_memo (Gem_Transfer a) = is_memo_supported (asset_chain_of a)"
| "shows_memo (Gem_Deposit a) = is_memo_supported (asset_chain_of a)"
| "shows_memo (Gem_Withdrawal a) = is_memo_supported (asset_chain_of a)"
| "shows_memo _ = False"

datatype fee_priority = NormalPriority | FastPriority

fun default_fee_priority :: "gem_transaction_input_type \<Rightarrow> fee_priority" where
  "default_fee_priority (Gem_Swap from _ _) =
     (if asset_chain_of from = Bitcoin then FastPriority else NormalPriority)"
| "default_fee_priority _ = NormalPriority"

record gem_transfer_output =
  out_type :: transfer_data_output_type
  out_action :: transfer_data_output_action

fun transfer_output :: "gem_transaction_input_type \<Rightarrow> gem_transfer_output" where
  "transfer_output (Gem_Generic _ _ extra) = \<lparr>out_type = output_type extra, out_action = ge_output_action extra\<rparr>"
| "transfer_output _ = \<lparr>out_type = EncodedTransaction, out_action = SendAction\<rparr>"

fun input_asset_ids :: "gem_transaction_input_type \<Rightarrow> asset_id list" where
  "input_asset_ids (Gem_Swap from to _) = [asset_ident from, asset_ident to]"
| "input_asset_ids (Gem_TransferNft _ _) = []"
| "input_asset_ids t = [asset_ident (gem_asset_of t)]"

definition is_perpetual :: "gem_transaction_input_type \<Rightarrow> bool" where
  "is_perpetual t = (case t of Gem_Perpetual _ _ \<Rightarrow> True | _ \<Rightarrow> False)"

definition fee_asset :: "gem_transaction_input_type \<Rightarrow> gem_asset" where
  "fee_asset t =
     (let a = transaction_asset t; c = asset_chain_of a in
      if is_perpetual t \<and> c = HyperCore
      then (case default_asset c PERPETUAL of Some d \<Rightarrow> d | None \<Rightarrow> a)
      else if c = Tempo then a
      else if c = HyperCore then (case default_asset c TOKEN of Some d \<Rightarrow> d | None \<Rightarrow> a)
      else if is_token (asset_ident a) then asset_from_chain c
      else a)"

datatype recent_activity_type = RecentTransfer | RecentSwap

record gem_recent_activity =
  ra_type :: recent_activity_type
  ra_asset_id :: asset_id
  ra_to_asset_id :: "asset_id option"

fun recent_activity :: "gem_transaction_input_type \<Rightarrow> gem_recent_activity option" where
  "recent_activity (Gem_Transfer a) =
     Some \<lparr>ra_type = RecentTransfer, ra_asset_id = asset_ident a, ra_to_asset_id = None\<rparr>"
| "recent_activity (Gem_Swap from to _) =
     Some \<lparr>ra_type = RecentSwap, ra_asset_id = asset_ident from, ra_to_asset_id = Some (asset_ident to)\<rparr>"
| "recent_activity _ = None"

text \<open>The approval a signed transaction of the given type carries out.\<close>

fun approval_of :: "gem_transaction_input_type \<Rightarrow> transaction_type \<Rightarrow> string + approval_data option" where
  "approval_of t ty =
     (if ty \<noteq> TxTokenApproval then Ok None
      else case t of
        Gem_Swap _ _ swap \<Rightarrow> ok_or (map_option Some (approval (gs_data swap))) ''Missing swap approval data''
      | Gem_Earn _ _ call \<Rightarrow> ok_or (map_option Some (cc_approval call)) ''Missing earn approval data''
      | Gem_TokenApprove _ appr \<Rightarrow> Ok (Some appr)
      | Gem_Generic _ _ extra \<Rightarrow> Ok (ge_approval extra)
      | _ \<Rightarrow> Err ''Token approval transaction type does not match transfer data'')"

declare approval_of.simps [simp del]

fun input_metadata :: "gem_transaction_input_type \<Rightarrow> transaction_metadata option" where
  "input_metadata (Gem_Swap from to swap) = Some (SwapMetadata
     \<lparr>tsm_from_asset = asset_ident from, tsm_from_value = gq_from_value (gs_quote swap),
      tsm_to_asset = asset_ident to, tsm_to_value = gq_to_value (gs_quote swap),
      tsm_provider = Some (swap_provider_as_ref (gq_provider (gs_quote swap)))\<rparr>)"
| "input_metadata (Gem_TransferNft _ nft) = Some (NftMetadata (na_id nft) (Some (na_name nft)))"
| "input_metadata (Gem_Perpetual _ ty) = (case ty of
     Perpetual_Open d \<Rightarrow> Some (PerpetualMetadata d) | Perpetual_Close d \<Rightarrow> Some (PerpetualMetadata d)
   | Perpetual_Increase d \<Rightarrow> Some (PerpetualMetadata d) | Perpetual_Reduce _ d \<Rightarrow> Some (PerpetualMetadata d)
   | Perpetual_Modify \<Rightarrow> None)"
| "input_metadata (Gem_Stake _ st) = (case st of
     Gem_Freeze r \<Rightarrow> Some (ResourceMetadata r) | Gem_Unfreeze r \<Rightarrow> Some (ResourceMetadata r) | _ \<Rightarrow> None)"
| "input_metadata (Gem_Generic _ meta extra) = (case am_source meta of
     WalletConnect \<Rightarrow> Some (WalletConnectMetadata (ge_output_action extra)) | Payment \<Rightarrow> None)"
| "input_metadata _ = None"

definition HYPERCORE_ORDER_PREFIX :: string where "HYPERCORE_ORDER_PREFIX = ''order:''"

text \<open>The index and the count are \<open>u32\<close>: the sum in the comparison wraps.\<close>

definition is_tracked :: "gem_transaction_input_type \<Rightarrow> transaction_type \<Rightarrow> string \<Rightarrow> u32 \<Rightarrow> u32 \<Rightarrow> bool" where
  "is_tracked t ty hash index count =
     (if ty = TxPerpetualModifyPosition then False
      else if input_chain t \<noteq> HyperCore then True
      else let is_intermediate = index + 1 < count in
        case t of
          Gem_Stake _ _ \<Rightarrow> \<not> is_intermediate
        | Gem_Perpetual _ _ \<Rightarrow> prefix HYPERCORE_ORDER_PREFIX hash
        | Gem_Swap _ to swap \<Rightarrow> \<not> (asset_chain_of to = HyperCore
            \<and> gq_provider (gs_quote swap) = HyperliquidProvider \<and> is_intermediate)
        | _ \<Rightarrow> True)"

section \<open>Balances a request draws on\<close>

text \<open>\<open>BigInt::pow\<close> of ten with the decimals, an \<open>i32\<close> clamped at zero.\<close>

definition tron_stake_available :: "gem_asset \<Rightarrow> gem_asset_balance \<Rightarrow> int" where
  "tron_stake_available a b =
     (let staked = uint (votes b) * 10 ^ nat (max (asset_decimals a) 0)
      in max (int (gb_frozen b + gb_locked b) - staked) 0)"

primrec unfreeze_available :: "resource \<Rightarrow> gem_asset_balance \<Rightarrow> int" where
  "unfreeze_available Bandwidth b = int (gb_frozen b)"
| "unfreeze_available Energy b = int (gb_locked b)"

text \<open>\<open>GemTransferData::available_value\<close>: every branch succeeds.\<close>

definition available_value :: "gem_transfer_data \<Rightarrow> gem_asset_balance \<Rightarrow> int" where
  "available_value td b =
     (let a = gem_asset_of (td_input_type td) in
      case td_input_type td of
        Gem_Withdrawal _ \<Rightarrow> int (gb_withdrawable b)
      | Gem_Stake _ st \<Rightarrow> (case st of
            Gem_Unstake d \<Rightarrow> int (db_balance (dg_base d))
          | Gem_Withdraw d \<Rightarrow> int (db_balance (dg_base d))
          | Gem_Redelegate r \<Rightarrow> int (db_balance (dg_base (rd_delegation r)))
          | Gem_Rewards _ \<Rightarrow> td_value td
          | Gem_Unfreeze r \<Rightarrow> unfreeze_available r b
          | Gem_Delegate _ \<Rightarrow> if asset_chain_of a = Tron then tron_stake_available a b else int (gb_available b)
          | Gem_Freeze _ \<Rightarrow> int (gb_available b))
      | Gem_Earn _ ty _ \<Rightarrow> (case ty of
            Earn_Withdraw d \<Rightarrow> int (db_balance (dg_base d))
          | Earn_Deposit _ \<Rightarrow> int (gb_available b))
      | _ \<Rightarrow> int (gb_available b))"

section \<open>Building requests\<close>

datatype gem_confirm_destination =
    RecipientDestination "string option" string
  | ContractDestination string
  | ValidatorDestination string string
  | ResourceDestination resource
  | ProviderDestination string string

definition recipient_destination :: "gem_transfer_data \<Rightarrow> gem_confirm_destination option" where
  "recipient_destination td =
     (if gr_address (td_recipient td) = [] then None
      else Some (RecipientDestination (gr_name (td_recipient td)) (gr_address (td_recipient td))))"

definition validator_destination :: "delegation_validator \<Rightarrow> gem_confirm_destination" where
  "validator_destination v = ValidatorDestination (dv_name v) (dv_id v)"

definition destination :: "gem_transfer_data \<Rightarrow> gem_confirm_destination option" where
  "destination td = (case td_input_type td of
       Gem_Transfer _ \<Rightarrow> recipient_destination td
     | Gem_TransferNft _ _ \<Rightarrow> recipient_destination td
     | Gem_Deposit _ \<Rightarrow> recipient_destination td
     | Gem_Withdrawal _ \<Rightarrow> recipient_destination td
     | Gem_TokenApprove _ _ \<Rightarrow> Some (ContractDestination (gr_address (td_recipient td)))
     | Gem_Generic _ _ extra \<Rightarrow> (case ge_output_action extra of
           SendAction \<Rightarrow> recipient_destination td | SignAction \<Rightarrow> None)
     | Gem_Stake _ st \<Rightarrow> (case st of
           Gem_Delegate v \<Rightarrow> Some (validator_destination v)
         | Gem_Redelegate r \<Rightarrow> Some (validator_destination (rd_to_validator r))
         | Gem_Unstake d \<Rightarrow> Some (validator_destination (dg_validator d))
         | Gem_Withdraw d \<Rightarrow> Some (validator_destination (dg_validator d))
         | Gem_Rewards vs \<Rightarrow> (case vs of [v] \<Rightarrow> Some (validator_destination v) | _ \<Rightarrow> None)
         | Gem_Freeze r \<Rightarrow> Some (ResourceDestination r)
         | Gem_Unfreeze r \<Rightarrow> Some (ResourceDestination r))
     | Gem_Earn _ ty _ \<Rightarrow> Some (ProviderDestination (dv_name (earn_provider ty)) (dv_id (earn_provider ty)))
     | Gem_Swap _ _ _ \<Rightarrow> None
     | Gem_Account _ _ \<Rightarrow> None
     | Gem_Perpetual _ _ \<Rightarrow> None)"

definition validator_recipient :: "delegation_validator \<Rightarrow> gem_recipient" where
  "validator_recipient v = recipient_named (dv_id v) (dv_name v)"

definition stake_transfer_data :: "gem_asset \<Rightarrow> gem_stake_type \<Rightarrow> int \<Rightarrow> bool \<Rightarrow> gem_transfer_data" where
  "stake_transfer_data a st v use_max =
     (let recipient = (case st of
            Gem_Delegate dv \<Rightarrow> validator_recipient dv
          | Gem_Redelegate r \<Rightarrow> validator_recipient (rd_to_validator r)
          | Gem_Unstake d \<Rightarrow> validator_recipient (dg_validator d)
          | Gem_Withdraw d \<Rightarrow> validator_recipient (dg_validator d)
          | Gem_Rewards vs \<Rightarrow> (case vs of dv # _ \<Rightarrow> validator_recipient dv | [] \<Rightarrow> recipient_address [])
          | Gem_Freeze r \<Rightarrow> recipient_address (resource_as_ref r)
          | Gem_Unfreeze r \<Rightarrow> recipient_address (resource_as_ref r));
          use_max' = (use_max \<and> (case st of Gem_Delegate _ \<Rightarrow> True | Gem_Freeze _ \<Rightarrow> True | _ \<Rightarrow> False))
      in \<lparr>td_input_type = Gem_Stake a st, td_recipient = recipient, td_value = v, td_use_max_amount = use_max',
          td_minimum_value = None\<rparr>)"

definition earn_transfer_data ::
  "gem_asset \<Rightarrow> earn_type \<Rightarrow> contract_call_data \<Rightarrow> int \<Rightarrow> bool \<Rightarrow> gem_transfer_data" where
  "earn_transfer_data a ty call v use_max =
     \<lparr>td_input_type = Gem_Earn a ty call,
      td_recipient = recipient_named (cc_contract_address call) (dv_name (earn_provider ty)),
      td_value = v, td_use_max_amount = use_max, td_minimum_value = None\<rparr>"

section \<open>The pending transaction of a broadcast one\<close>

definition transaction_metadata_block_number :: "transaction_load_metadata \<Rightarrow> string" where
  "transaction_metadata_block_number m = (case m of
       PolkadotMeta _ _ _ n _ _ _ \<Rightarrow> to_decimal (unat n) | TronMeta n _ _ _ _ _ _ \<Rightarrow> to_decimal (unat n)
     | XrpMeta _ n \<Rightarrow> to_decimal (unat n) | CardanoMeta _ n \<Rightarrow> to_decimal (unat n)
     | _ \<Rightarrow> ''0'')"

definition transaction_metadata_sequence :: "transaction_load_metadata \<Rightarrow> string" where
  "transaction_metadata_sequence m = (case m of
       TonMeta _ _ s \<Rightarrow> to_decimal (unat s) | CosmosMeta _ s _ \<Rightarrow> to_decimal (unat s)
     | NearMeta s _ \<Rightarrow> to_decimal (unat s) | StellarMeta s _ \<Rightarrow> to_decimal (unat s)
     | XrpMeta s _ \<Rightarrow> to_decimal (unat s) | AlgorandMeta s _ _ \<Rightarrow> to_decimal (unat s)
     | AptosMeta s _ \<Rightarrow> to_decimal (unat s) | PolkadotMeta s _ _ _ _ _ _ \<Rightarrow> to_decimal (unat s)
     | EvmMeta s _ _ \<Rightarrow> to_decimal (unat s)
     | _ \<Rightarrow> ''0'')"

text \<open>The header of a simulation result, the only part of it a pending transaction reads.\<close>

record simulation_header =
  sh_asset_id :: asset_id
  sh_value :: "nat option"
  sh_is_unlimited :: bool

record simulation_result =
  sim_header :: "simulation_header option"

text \<open>The fee as the wallet holds it: the signers' fee and the asset it is paid in.\<close>

record gem_transaction_load_fee = transaction_fee +
  gf_fee_asset :: asset_id

record gem_pending_transaction_input =
  pt_sender :: string
  pt_transfer :: gem_transfer_data
  pt_value :: int
  pt_transaction_type :: transaction_type
  pt_hash :: string
  pt_fee :: gem_transaction_load_fee
  pt_network_fee :: int
  pt_metadata :: transaction_load_metadata
  pt_simulation :: "simulation_result option"
  pt_transaction_index :: u32
  pt_transaction_count :: u32

definition is_generic :: "gem_transaction_input_type \<Rightarrow> bool" where
  "is_generic t = (case t of Gem_Generic _ _ _ \<Rightarrow> True | _ \<Rightarrow> False)"

definition pending_recipient :: "gem_transfer_data \<Rightarrow> string" where
  "pending_recipient td = (case td_input_type td of
       Gem_Swap _ _ swap \<Rightarrow> swap_to (gs_data swap) | _ \<Rightarrow> gr_address (td_recipient td))"

definition pending_memo :: "gem_transfer_data \<Rightarrow> string" where
  "pending_memo td = (case td_input_type td of
       Gem_Swap _ _ _ \<Rightarrow> [] | _ \<Rightarrow> (case gr_memo (td_recipient td) of Some m \<Rightarrow> m | None \<Rightarrow> []))"

definition pending_transaction :: "int \<Rightarrow> gem_pending_transaction_input \<Rightarrow> string + transaction option" where
  "pending_transaction now p =
     (let td = pt_transfer p; t = td_input_type td; c = input_chain t in
      if \<not> is_tracked t (pt_transaction_type p) (pt_hash p) (pt_transaction_index p) (pt_transaction_count p)
      then Ok None
      else and_then (approval_of t (pt_transaction_type p)) (\<lambda>appr.
        let header = (if is_generic t then Option.bind (pt_simulation p) sim_header else None) in
        and_then (ok_or (to_biguint (pt_value p)) ''negative transfer value'') (\<lambda>transfer_value.
        let recipient = (case appr of Some a \<Rightarrow> approval_spender a | None \<Rightarrow> pending_recipient td);
            v = (case appr of Some a \<Rightarrow> approval_value a
                 | None \<Rightarrow> (case Option.bind header sh_value of Some hv \<Rightarrow> hv | None \<Rightarrow> transfer_value));
            memo_text = (case appr of Some _ \<Rightarrow> [] | None \<Rightarrow> pending_memo td);
            ident = (case header of Some h \<Rightarrow> sh_asset_id h
                 | None \<Rightarrow> (case appr of Some a \<Rightarrow> asset_id_from c (Some (approval_token a))
                           | None \<Rightarrow> asset_ident (transaction_asset t)));
            direction = (if pt_sender p = recipient then SelfTransfer else Outgoing);
            meta = (if appr \<noteq> None \<and> (case t of Gem_Swap _ _ _ \<Rightarrow> True | Gem_Earn _ _ _ \<Rightarrow> True | _ \<Rightarrow> False)
                    then None else input_metadata t)
        in and_then (ok_or (to_biguint (pt_network_fee p)) ''negative network fee'') (\<lambda>network_fee.
          Ok (Some ((transaction_new (pt_hash p) ident (pt_sender p) recipient None (pt_transaction_type p) Pending
                       network_fee (gf_fee_asset (pt_fee p)) v (Some memo_text) meta now)
            \<lparr>tx_block_number := Some (transaction_metadata_block_number (pt_metadata p)),
             tx_sequence := Some (transaction_metadata_sequence (pt_metadata p)),
             tx_direction := direction\<rparr>))))))"
end
