(* ===== verification/Amount.thy ===== *)
theory Amount
  imports Transfer_Rules
begin

text \<open>
  The amount screen (\<open>gemstone/src/services/amount/rules.rs\<close>): the balance an amount is taken from, its
  minimum, the fee kept back when staking everything, and the validation of an entered value. The minimum
  order of a perpetual is a floating-point computation of the \<open>gem_hypercore\<close> crate and an argument here, with
  the price as an opaque value.
\<close>

section \<open>Model\<close>

datatype gem_amount_stake_type =
    Amount_Stake
  | Amount_Unstake delegation
  | Amount_Redelegate delegation
  | Amount_Withdraw delegation
  | Amount_Rewards "delegation list"
  | Amount_Freeze resource
  | Amount_Unfreeze resource

datatype gem_amount_earn_type = Amount_EarnDeposit | Amount_EarnWithdraw delegation

datatype gem_amount_perpetual_position = Amount_Open | Amount_Increase | Amount_Reduce nat

datatype 'price gem_amount_type =
    AmountTransfer
  | AmountDeposit
  | AmountWithdraw
  | AmountStake gem_amount_stake_type
  | AmountEarn gem_amount_earn_type
  | AmountPerpetual gem_amount_perpetual_position 'price u8 int

record gem_amount_input =
  ai_available_value :: int
  ai_max_value :: int
  ai_reserved_fee :: "int option"
  ai_can_change_value :: bool
  ai_shows_asset_balance :: bool

datatype gem_amount_error =
    AE_Zero
  | AE_BelowMinimum int
  | AE_InsufficientBalance gem_balance_requirement

definition MIN_DEPOSIT_AMOUNT :: int where "MIN_DEPOSIT_AMOUNT = 5000000"

definition MIN_WITHDRAW_AMOUNT :: int where "MIN_WITHDRAW_AMOUNT = 2000000"

definition USDC_SYMBOL :: string where "USDC_SYMBOL = ''USDC''"

fun amount_available :: "'p gem_amount_type \<Rightarrow> gem_asset \<Rightarrow> gem_asset_balance \<Rightarrow> int" where
  "amount_available AmountTransfer a b = int (gb_available b)"
| "amount_available AmountDeposit a b = int (gb_available b)"
| "amount_available AmountWithdraw a b = int (gb_withdrawable b)"
| "amount_available (AmountStake st) a b = (case st of
     Amount_Stake \<Rightarrow> if asset_chain_of a = Tron then tron_stake_available a b else int (gb_available b)
   | Amount_Freeze _ \<Rightarrow> int (gb_available b)
   | Amount_Unstake d \<Rightarrow> int (db_balance (dg_base d))
   | Amount_Redelegate d \<Rightarrow> int (db_balance (dg_base d))
   | Amount_Withdraw d \<Rightarrow> int (db_balance (dg_base d))
   | Amount_Rewards ds \<Rightarrow> int (sum_list (map (\<lambda>d. db_rewards (dg_base d)) ds))
   | Amount_Unfreeze r \<Rightarrow> unfreeze_available r b)"
| "amount_available (AmountEarn ty) a b = (case ty of
     Amount_EarnDeposit \<Rightarrow> int (gb_available b) | Amount_EarnWithdraw d \<Rightarrow> int (db_balance (dg_base d)))"
| "amount_available (AmountPerpetual position _ _ _) a b = (case position of
     Amount_Open \<Rightarrow> int (gb_available b) | Amount_Increase \<Rightarrow> int (gb_available b)
   | Amount_Reduce available \<Rightarrow> int available)"

definition amount_validate_value :: "int \<Rightarrow> int \<Rightarrow> int \<Rightarrow> gem_amount_error + unit" where
  "amount_validate_value v available minimum =
     (if v \<le> 0 then Err AE_Zero
      else if v < minimum then Err (AE_BelowMinimum minimum)
      else if v > available then Err (AE_InsufficientBalance (balance_requirement v available))
      else Ok ())"

definition usdc_minimum :: "gem_asset \<Rightarrow> int \<Rightarrow> int" where
  "usdc_minimum a minimum = (if asset_symbol a = USDC_SYMBOL then minimum else 0)"

definition stake_minimum :: "gem_asset \<Rightarrow> int" where
  "stake_minimum a = (case to_stake_chain (asset_chain_of a) of
     Some s \<Rightarrow> uint (gsc_min_amount (get_stake_config s)) | None \<Rightarrow> 0)"

fun amount_minimum :: "('p \<Rightarrow> int \<Rightarrow> u8 \<Rightarrow> nat) \<Rightarrow> 'p gem_amount_type \<Rightarrow> gem_asset \<Rightarrow> int" where
  "amount_minimum min_order AmountTransfer a = 0"
| "amount_minimum min_order (AmountEarn _) a = 0"
| "amount_minimum min_order AmountDeposit a = usdc_minimum a MIN_DEPOSIT_AMOUNT"
| "amount_minimum min_order AmountWithdraw a = usdc_minimum a MIN_WITHDRAW_AMOUNT"
| "amount_minimum min_order (AmountStake st) a = (case st of
     Amount_Stake \<Rightarrow> stake_minimum a
   | Amount_Freeze _ \<Rightarrow> stake_minimum a
   | Amount_Redelegate _ \<Rightarrow> if asset_chain_of a = SmartChain then stake_minimum a else 0
   | _ \<Rightarrow> 0)"
| "amount_minimum min_order (AmountPerpetual _ price leverage size_decimals) a =
     int (min_order price size_decimals leverage)"

fun reserve_for_fee :: "'p gem_amount_type \<Rightarrow> gem_asset \<Rightarrow> int" where
  "reserve_for_fee (AmountStake st) a =
     (let reserved = (case to_stake_chain (asset_chain_of a) of
            Some s \<Rightarrow> uint (gsc_reserved_for_fees (get_stake_config s)) | None \<Rightarrow> 0)
      in case st of
           Amount_Stake \<Rightarrow> if asset_chain_of a \<noteq> Tron then reserved else 0
         | Amount_Freeze _ \<Rightarrow> reserved
         | _ \<Rightarrow> 0)"
| "reserve_for_fee _ a = 0"

fun can_change_value :: "'p gem_amount_type \<Rightarrow> gem_asset \<Rightarrow> bool" where
  "can_change_value (AmountStake st) a = (case st of
     Amount_Unstake _ \<Rightarrow> (case to_stake_chain (asset_chain_of a) of
       Some s \<Rightarrow> gsc_change_amount_on_unstake (get_stake_config s) | None \<Rightarrow> True)
   | Amount_Withdraw _ \<Rightarrow> False
   | Amount_Rewards _ \<Rightarrow> False
   | _ \<Rightarrow> True)"
| "can_change_value _ a = True"

fun shows_asset_balance :: "'p gem_amount_type \<Rightarrow> gem_asset \<Rightarrow> bool" where
  "shows_asset_balance (AmountStake (Amount_Rewards _)) a = True"
| "shows_asset_balance ty a = can_change_value ty a"

fun reserves_fee :: "'p gem_amount_type \<Rightarrow> int \<Rightarrow> int \<Rightarrow> int \<Rightarrow> bool" where
  "reserves_fee (AmountStake st) kept max_after_fee minimum = (case st of
     Amount_Stake \<Rightarrow> kept > 0 \<and> max_after_fee > minimum
   | Amount_Freeze _ \<Rightarrow> kept > 0 \<and> max_after_fee > minimum
   | _ \<Rightarrow> False)"
| "reserves_fee _ kept max_after_fee minimum = False"

definition amount_input ::
  "('p \<Rightarrow> int \<Rightarrow> u8 \<Rightarrow> nat) \<Rightarrow> 'p gem_amount_type \<Rightarrow> gem_asset \<Rightarrow> gem_asset_balance \<Rightarrow> gem_amount_input" where
  "amount_input min_order ty a b =
     (let available = amount_available ty a b;
          kept = reserve_for_fee ty a;
          max_after_fee = max (available - kept) 0;
          reserved_fee = (if reserves_fee ty kept max_after_fee (amount_minimum min_order ty a)
                          then Some kept else None)
      in \<lparr>ai_available_value = available,
          ai_max_value = (if reserved_fee \<noteq> None then max_after_fee else available),
          ai_reserved_fee = reserved_fee,
          ai_can_change_value = can_change_value ty a,
          ai_shows_asset_balance = shows_asset_balance ty a\<rparr>)"

definition amount_validate ::
  "('p \<Rightarrow> int \<Rightarrow> u8 \<Rightarrow> nat) \<Rightarrow> 'p gem_amount_type \<Rightarrow> gem_asset \<Rightarrow> gem_asset_balance \<Rightarrow> int \<Rightarrow> gem_amount_error + unit" where
  "amount_validate min_order ty a b v =
     amount_validate_value v (amount_available ty a b) (amount_minimum min_order ty a)"

section \<open>Facts\<close>

lemma amount_validate_Ok: "amount_validate min_order ty a b v = Ok () \<longleftrightarrow>
    0 < v \<and> amount_minimum min_order ty a \<le> v \<and> v \<le> amount_available ty a b"
  by (auto simp: amount_validate_def amount_validate_value_def)

lemma amount_available_nonneg: "0 \<le> amount_available ty a b"
proof (cases ty)
  case (AmountStake st)
  moreover have "0 \<le> unfreeze_available r b" for r by (cases r) simp_all
  ultimately show ?thesis by (cases st) (auto simp: tron_stake_available_def Let_def)
qed (auto split: gem_amount_earn_type.splits gem_amount_perpetual_position.splits)

lemma amount_minimum_nonneg: "0 \<le> amount_minimum min_order ty a"
  by (cases ty) (auto simp: usdc_minimum_def stake_minimum_def MIN_DEPOSIT_AMOUNT_def MIN_WITHDRAW_AMOUNT_def
      split: option.splits gem_amount_stake_type.splits)

lemma reserves_feeD:
  "reserves_fee ty kept max_after minimum \<Longrightarrow> 0 < kept \<and> minimum < max_after"
  by (cases "(ty, kept, max_after, minimum)" rule: reserves_fee.cases)
     (auto split: gem_amount_stake_type.splits)

lemma amount_max_value_cases:
  obtains (reserved) r where "ai_reserved_fee (amount_input min_order ty a b) = Some r" "0 < r"
      "ai_max_value (amount_input min_order ty a b) = amount_available ty a b - r"
      "amount_minimum min_order ty a < amount_available ty a b - r"
  | (all) "ai_reserved_fee (amount_input min_order ty a b) = None"
      "ai_max_value (amount_input min_order ty a b) = amount_available ty a b"
proof (cases "ai_reserved_fee (amount_input min_order ty a b)")
  case None
  then show ?thesis using all by (simp add: amount_input_def Let_def split: if_splits)
next
  case (Some r)
  then have r: "r = reserve_for_fee ty a"
    and fee: "reserves_fee ty r (max (amount_available ty a b - r) 0) (amount_minimum min_order ty a)"
    by (auto simp: amount_input_def Let_def split: if_splits)
  have "0 < r" "amount_minimum min_order ty a < max (amount_available ty a b - r) 0"
    using reserves_feeD [OF fee] by simp_all
  moreover have "ai_max_value (amount_input min_order ty a b) = max (amount_available ty a b - r) 0"
    using fee r by (simp add: amount_input_def Let_def)
  ultimately show ?thesis
    using reserved [OF Some] amount_minimum_nonneg [of min_order ty a] by simp
qed

lemma amount_max_valid:
  assumes "amount_validate min_order ty a b v = Ok ()"
  shows "amount_validate min_order ty a b (ai_max_value (amount_input min_order ty a b)) = Ok ()"
  using assms amount_minimum_nonneg [of min_order ty a]
  by (cases min_order ty a b rule: amount_max_value_cases) (auto simp: amount_validate_Ok)

lemma amount_max_le: "ai_max_value (amount_input min_order ty a b)
    + (case ai_reserved_fee (amount_input min_order ty a b) of Some r \<Rightarrow> r | None \<Rightarrow> 0) = amount_available ty a b"
  by (cases min_order ty a b rule: amount_max_value_cases) auto

text \<open>
  Which requests an amount of each kind is entered for, for all the kinds of the screen. Rewards are claimed
  from the validators of the delegations shown.
\<close>

fun stake_entered_as :: "gem_amount_stake_type \<Rightarrow> gem_stake_type \<Rightarrow> bool" where
  "stake_entered_as Amount_Stake st = (\<exists>v. st = Gem_Delegate v)"
| "stake_entered_as (Amount_Unstake d) st = (st = Gem_Unstake d)"
| "stake_entered_as (Amount_Redelegate d) st = (\<exists>r. st = Gem_Redelegate r \<and> rd_delegation r = d)"
| "stake_entered_as (Amount_Withdraw d) st = (st = Gem_Withdraw d)"
| "stake_entered_as (Amount_Rewards ds) st = (st = Gem_Rewards (map dg_validator ds))"
| "stake_entered_as (Amount_Freeze r) st = (st = Gem_Freeze r)"
| "stake_entered_as (Amount_Unfreeze r) st = (st = Gem_Unfreeze r)"

fun entered_as :: "'p gem_amount_type \<Rightarrow> gem_transaction_input_type \<Rightarrow> bool" where
  "entered_as AmountTransfer t = (\<exists>a. t = Gem_Transfer a)"
| "entered_as AmountDeposit t = (\<exists>a. t = Gem_Deposit a)"
| "entered_as AmountWithdraw t = (\<exists>a. t = Gem_Withdrawal a)"
| "entered_as (AmountStake ty) t = (\<exists>a st. t = Gem_Stake a st \<and> stake_entered_as ty st)"
| "entered_as (AmountEarn Amount_EarnDeposit) t = (\<exists>a v call. t = Gem_Earn a (Earn_Deposit v) call)"
| "entered_as (AmountEarn (Amount_EarnWithdraw d)) t = (\<exists>a call. t = Gem_Earn a (Earn_Withdraw d) call)"
| "entered_as (AmountPerpetual _ _ _ _) t = (\<exists>a ty. t = Gem_Perpetual a ty)"

definition reduces_position :: "'p gem_amount_type \<Rightarrow> nat option" where
  "reduces_position ty = (case ty of AmountPerpetual (Amount_Reduce n) _ _ _ \<Rightarrow> Some n | _ \<Rightarrow> None)"

lemma available_agrees:
  assumes "entered_as ty (td_input_type td)" and "reduces_position ty = None"
    and "\<not> can_change_value ty (gem_asset_of (td_input_type td)) \<longrightarrow> td_value td = amount_available ty (gem_asset_of (td_input_type td)) b"
  shows "amount_available ty (gem_asset_of (td_input_type td)) b = available_value td b"
proof (cases ty)
  case (AmountStake st)
  then show ?thesis using assms by (cases st) (auto simp: available_value_def)
next
  case (AmountEarn ety)
  then show ?thesis using assms by (cases ety) (auto simp: available_value_def)
next
  case (AmountPerpetual position price leverage decimals)
  then show ?thesis using assms by (cases position) (auto simp: available_value_def reduces_position_def)
qed (use assms in \<open>auto simp: available_value_def\<close>)

lemma fixed_amount_max:
  "\<not> can_change_value ty a \<Longrightarrow> ai_max_value (amount_input min_order ty a b) = amount_available ty a b"
  by (cases "(ty, a)" rule: can_change_value.cases)
     (auto simp: amount_input_def Let_def split: gem_amount_stake_type.splits)

section \<open>Properties\<close>

text \<open>
  C19: the amount screen and the confirmation draw on the same balance. For a request entered with any kind of
  amount of the screen, where an amount that cannot be changed is sent as the screen shows it, the available
  value of the screen is the available value the confirmation computes for the request, two separate case
  analyses in the code. The one exception is reducing a perpetual position, where the screen offers the
  position and the confirmation reads the asset's balance; such a request does not spend the balance.
\<close>

theorem amount_screen_agrees:
  assumes "entered_as ty (td_input_type td)"
    and "shown = amount_input min_order ty (gem_asset_of (td_input_type td)) b"
    and "\<not> ai_can_change_value shown \<longrightarrow> td_value td = ai_max_value shown"
  shows "case reduces_position ty of
      None \<Rightarrow> ai_available_value shown = available_value td b
    | Some n \<Rightarrow> ai_available_value shown = int n \<and> available_value td b = int (gb_available b) \<and> \<not> spends_balance (td_input_type td)"
proof (cases "reduces_position ty")
  case None
  have "\<not> can_change_value ty (gem_asset_of (td_input_type td))
      \<longrightarrow> td_value td = amount_available ty (gem_asset_of (td_input_type td)) b"
    using assms(2,3) fixed_amount_max by (metis amount_input_def gem_amount_input.select_convs(4))
  then show ?thesis
    using available_agrees [OF assms(1) None] None by (simp add: assms(2) amount_input_def Let_def)
next
  case (Some n)
  then obtain price leverage decimals where "ty = AmountPerpetual (Amount_Reduce n) price leverage decimals"
    by (auto simp: reduces_position_def split: gem_amount_type.splits gem_amount_perpetual_position.splits)
  then show ?thesis
    using assms(1) Some by (auto simp: assms(2) amount_input_def Let_def available_value_def)
qed

definition demo_balance :: "nat \<Rightarrow> gem_asset_balance" where
  "demo_balance n = \<lparr>gb_asset_id = from_chain_id_asset Tron, gb_available = n, gb_frozen = 5000000, gb_locked = 3000000,
     gb_staked = 0, gb_pending = 0, gb_pending_unconfirmed = 0, gb_rewards = 0, gb_reserved = 0, gb_withdrawable = 7,
     gb_earn = 0, gb_metadata = Some \<lparr>bm_votes = 2, bm_energy_available = 0, bm_energy_total = 0,
       bm_bandwidth_available = 0, bm_bandwidth_total = 0\<rparr>\<rparr>"

definition demo_validator :: delegation_validator where
  "demo_validator = \<lparr>dv_chain = Tron, dv_id = ''validator'', dv_name = ''Validator'', dv_is_active = True,
     dv_provider_type = StakeProvider\<rparr>"

definition demo_delegation :: delegation where
  "demo_delegation = \<lparr>dg_base = \<lparr>db_asset_id = from_chain_id_asset Tron, db_state = Active, db_balance = 9, db_shares = 9,
     db_rewards = 42, db_completion_date = None, db_delegation_id = ''delegation'', db_validator_id = ''validator''\<rparr>,
     dg_validator = demo_validator\<rparr>"

text \<open>Voting with a Tron balance, and claiming the rewards of a delegation, whose amount is fixed.\<close>

theorem amount_screen_agrees_witness:
  "ai_available_value (amount_input (\<lambda>(_ :: unit) _ _. 0) (AmountStake Amount_Stake) (asset_from_chain Tron) (demo_balance 1))
     = 6000000
   \<and> available_value (stake_transfer_data (asset_from_chain Tron) (Gem_Rewards [demo_validator]) 42 False) (demo_balance 1)
     = ai_available_value (amount_input (\<lambda>(_ :: unit) _ _. 0) (AmountStake (Amount_Rewards [demo_delegation]))
         (asset_from_chain Tron) (demo_balance 1))"
  using amount_screen_agrees [of "AmountStake Amount_Stake :: unit gem_amount_type"
      "stake_transfer_data (asset_from_chain Tron) (Gem_Delegate demo_validator) 1 False" _ "\<lambda>_ _ _. 0" "demo_balance 1", OF _ refl]
    amount_screen_agrees [of "AmountStake (Amount_Rewards [demo_delegation]) :: unit gem_amount_type"
      "stake_transfer_data (asset_from_chain Tron) (Gem_Rewards [demo_validator]) 42 False" _ "\<lambda>_ _ _. 0" "demo_balance 1", OF _ refl]
  by (simp add: stake_transfer_data_def available_value_def asset_chain_of_def from_chain_id_asset_def
      tron_stake_available_def demo_balance_def votes_def asset_from_chain_def chain_asset_new_def demo_delegation_def
      chain_asset_with_network_name_def asset_new_def amount_input_def reduces_position_def Let_def)

text \<open>
  the maximum the amount screen offers is safe. It is the available value, less the fee that is kept
  back when everything is staked or frozen; a fee is kept back only if the rest is above the minimum; and
  whenever any value at all would be accepted, the maximum is accepted.
\<close>

theorem amount_max_safe:
  "(amount_validate min_order ty a b v = Ok () \<longrightarrow>
      amount_validate min_order ty a b (ai_max_value (amount_input min_order ty a b)) = Ok ()
      \<and> v \<le> amount_available ty a b)
   \<and> ai_max_value (amount_input min_order ty a b)
       + (case ai_reserved_fee (amount_input min_order ty a b) of Some r \<Rightarrow> r | None \<Rightarrow> 0) = amount_available ty a b
   \<and> 0 \<le> ai_max_value (amount_input min_order ty a b)"
proof -
  have "0 \<le> ai_max_value (amount_input min_order ty a b)"
    using amount_available_nonneg [of ty a b] amount_minimum_nonneg [of min_order ty a]
    by (cases min_order ty a b rule: amount_max_value_cases) auto
  then show ?thesis using amount_max_valid amount_max_le amount_validate_Ok by blast
qed

lemma demo_amount_valid:
  "amount_validate (\<lambda>(_ :: unit) _ _. 0) AmountTransfer (asset_from_chain Bitcoin) (demo_balance 10) 5 = Ok ()"
  by (simp add: amount_validate_Ok demo_balance_def)

theorem amount_max_safe_witness:
  "amount_validate (\<lambda>(_ :: unit) _ _. 0) AmountTransfer (asset_from_chain Bitcoin) (demo_balance 10)
       (ai_max_value (amount_input (\<lambda>(_ :: unit) _ _. 0) AmountTransfer (asset_from_chain Bitcoin) (demo_balance 10))) = Ok ()"
  using amount_max_safe [of "\<lambda>(_ :: unit) _ _. 0" AmountTransfer "asset_from_chain Bitcoin" "demo_balance 10" 5]
    demo_amount_valid by blast

end
