(* ===== verification/Confirm.thy ===== *)
theory Confirm
  imports Amount "HOL-Library.Multiset"
begin

text \<open>
  The confirmation of a transfer (\<open>gemstone/src/services/confirm\<close>): the input handed to the signer, the amount
  shown before sending, fee rates and fee assets, the malware scan, and the execution that signs, broadcasts
  one transaction after another, and stores what was broadcast. The gateway, the signer, the scanner, the
  stores and the clock are fields of an environment; what they answer may depend on everything done so far.
  The effects of an execution are a trace of events, so that the order of its calls can be stated.
\<close>

section \<open>Errors\<close>

datatype gem_signer_error =
    GSE_InvalidInput string | GSE_SigningError string | GSE_DustThreshold | GSE_InsufficientFunds
  | GSE_SwapValueBelowMinimum

datatype gemstone_error = AnyError string | SignerError gem_signer_error string | GemCancelled

datatype gateway_error =
    Offline | NetworkError string | PlatformError string | NetworkIdMismatch string string

primrec gateway_error_to_string :: "gateway_error \<Rightarrow> string" where
  "gateway_error_to_string Offline = ''Network offline''"
| "gateway_error_to_string (NetworkError msg) = ''Network error: '' @ msg"
| "gateway_error_to_string (PlatformError msg) = ''Platform error: '' @ msg"
| "gateway_error_to_string (NetworkIdMismatch c nid) = ''Node reports network '' @ nid @ '' for '' @ c"

datatype gem_service_error =
    GS_Api string | GS_Gateway string | GS_Store string | GS_Core string | GS_Platform string
  | GS_InvalidInput string | GS_NotFound string | GS_Unsupported string | GS_Cancelled

primrec service_error_to_string :: "gem_service_error \<Rightarrow> string" where
  "service_error_to_string (GS_Api msg) = msg"
| "service_error_to_string (GS_Gateway msg) = msg"
| "service_error_to_string (GS_Store msg) = msg"
| "service_error_to_string (GS_Core msg) = msg"
| "service_error_to_string (GS_Platform msg) = msg"
| "service_error_to_string (GS_InvalidInput msg) = msg"
| "service_error_to_string (GS_NotFound msg) = msg"
| "service_error_to_string (GS_Unsupported msg) = msg"
| "service_error_to_string GS_Cancelled = ''cancelled''"

datatype gem_confirm_error =
    CE_ScanMalicious
  | CE_ScanMemoRequired string
  | CE_FeeRatesMissing
  | CE_Offline
  | CE_Network string
  | CE_Load string
  | CE_Broadcast "string list" string
  | CE_Record string
  | CE_AccountMissing chain
  | CE_BalanceMissing asset_id
  | CE_InsufficientBalance gem_asset gem_balance_requirement
  | CE_InsufficientNetworkFee gem_asset "gem_balance_requirement option"
  | CE_MinimumAccountBalanceTooLow gem_asset gem_balance_requirement
  | CE_SenderMismatch string string
  | CE_Sign gem_signer_error chain string
  | CE_ApprovalInvalid string
  | CE_Cancelled

type_synonym 'a confirm_result = "gem_confirm_error + 'a"

fun sign_error :: "chain \<Rightarrow> gemstone_error \<Rightarrow> gem_confirm_error" where
  "sign_error c GemCancelled = CE_Cancelled"
| "sign_error c (SignerError e msg) = CE_Sign e c msg"
| "sign_error c (AnyError msg) = CE_Sign (GSE_SigningError msg) c msg"

definition service_error :: "gem_service_error \<Rightarrow> gem_confirm_error" where
  "service_error e = CE_Load (service_error_to_string e)"

fun load_error :: "gateway_error \<Rightarrow> gem_confirm_error" where
  "load_error Offline = CE_Offline"
| "load_error (NetworkError msg) = CE_Network msg"
| "load_error e = CE_Load (gateway_error_to_string e)"

fun broadcast_error :: "string list \<Rightarrow> gateway_error \<Rightarrow> gem_confirm_error" where
  "broadcast_error hashes e =
     (case e of
        Offline \<Rightarrow> if hashes = [] then CE_Offline else CE_Broadcast hashes (gateway_error_to_string e)
      | NetworkError msg \<Rightarrow> if hashes = [] then CE_Network msg else CE_Broadcast hashes (gateway_error_to_string e)
      | _ \<Rightarrow> CE_Broadcast hashes (gateway_error_to_string e))"

text \<open>\<open>map_err\<close> with a conversion of errors.\<close>

fun map_err :: "('e \<Rightarrow> 'f) \<Rightarrow> 'e + 'a \<Rightarrow> 'f + 'a" where
  "map_err f (Inl e) = Inl (f e)"
| "map_err f (Inr x) = Inr x"

section \<open>Confirmed requests\<close>

record gem_fee_rate =
  fr_priority :: fee_priority
  fr_gas_price_type :: gas_price_type

record gem_confirm_input =
  ci_from :: account
  ci_transfer :: gem_transfer_data

record gem_confirm_data =
  cd_input :: gem_confirm_input
  cd_fee :: gem_transaction_load_fee
  cd_selected_priority :: fee_priority
  cd_fee_rates :: "gem_fee_rate list"
  cd_metadata :: transaction_load_metadata
  cd_simulation :: "simulation_result option"

record send_input =
  si_wallet :: wallet
  si_confirm :: gem_confirm_data
  si_value :: int
  si_network_fee :: int
  si_simulation :: "simulation_result option"

abbreviation si_transfer :: "send_input \<Rightarrow> gem_transfer_data" where
  "si_transfer i \<equiv> ci_transfer (cd_input (si_confirm i))"

abbreviation si_input_type :: "send_input \<Rightarrow> gem_transaction_input_type" where
  "si_input_type i \<equiv> td_input_type (si_transfer i)"

record gem_transaction_load_input =
  li_input_type :: gem_transaction_input_type
  li_sender_address :: string
  li_destination_address :: string
  li_value :: nat
  li_gas_price :: gas_price_type
  li_memo :: "string option"
  li_is_max_value :: bool
  li_metadata :: transaction_load_metadata

record gem_signer_input =
  gi_input :: gem_transaction_load_input
  gi_fee :: gem_transaction_load_fee

record gem_signed_transaction =
  st_data :: string
  st_transaction_type :: transaction_type

definition signing_address :: "wallet \<Rightarrow> chain \<Rightarrow> string \<Rightarrow> string confirm_result" where
  "signing_address w c from =
     and_then (ok_or (wallet_account w c) (CE_AccountMissing c)) (\<lambda>signer.
       if acc_address signer \<noteq> from then Err (CE_SenderMismatch from (acc_address signer))
       else Ok (acc_address signer))"

definition send_signer_input :: "send_input \<Rightarrow> gem_signer_input confirm_result" where
  "send_signer_input i =
     (let td = si_transfer i; c = input_chain (td_input_type td) in
      and_then (signing_address (si_wallet i) c (acc_address (ci_from (cd_input (si_confirm i))))) (\<lambda>sender.
      and_then (ok_or (to_biguint (si_value i)) (CE_Load ''negative transfer value'')) (\<lambda>v.
        Ok \<lparr>gi_input =
             \<lparr>li_input_type = td_input_type td, li_sender_address = sender,
              li_destination_address = gr_address (td_recipient td), li_value = v,
              li_gas_price = gas_price_type (cd_fee (si_confirm i)), li_memo = gr_memo (td_recipient td),
              li_is_max_value = td_use_max_amount td, li_metadata = cd_metadata (si_confirm i)\<rparr>,
           gi_fee = (cd_fee (si_confirm i))\<lparr>fee_total := si_network_fee i\<rparr>\<rparr>)))"

text \<open>
  \<open>From<GemSignerInput>\<close>: the signers' input. The checksum of an Ethereum address, a hash computation, is an
  argument; it is applied on the EVM chains and HyperCore to the trimmed address.
\<close>

definition checksum_address :: "(string \<Rightarrow> string option) \<Rightarrow> string \<Rightarrow> chain \<Rightarrow> string" where
  "checksum_address checksum address c =
     (let address = trim address in
      if chain_type_of c = EthereumType \<or> chain_type_of c = HyperCoreType
      then (case checksum address of Some a \<Rightarrow> a | None \<Rightarrow> address) else address)"

definition lower_signer_input :: "(string \<Rightarrow> string option) \<Rightarrow> gem_signer_input \<Rightarrow> signer_input" where
  "lower_signer_input checksum g =
     (let l = gi_input g in
      \<lparr>input_type = lower_input_type (li_input_type l), sender_address = li_sender_address l,
       destination_address = checksum_address checksum (li_destination_address l) (input_chain (li_input_type l)),
       input_value = li_value l, load_gas_price = li_gas_price l, memo = li_memo l,
       is_max_value = li_is_max_value l, metadata = li_metadata l, input_fee = transaction_fee.truncate (gi_fee g)\<rparr>)"

section \<open>Metadata and amounts\<close>

definition metadata_asset_ids :: "asset_id \<Rightarrow> asset_id \<Rightarrow> asset_id list \<Rightarrow> asset_id list" where
  "metadata_asset_ids ident fee_ident extra =
     fold (\<lambda>a acc. if a \<in> set acc then acc else acc @ [a]) ([ident, fee_ident] @ extra) []"

text \<open>Prices are floating point and only displayed: a price is an opaque value with its asset.\<close>

record 'p gem_asset_price =
  ap_asset_id :: asset_id
  ap_price :: 'p

record 'p gem_confirm_metadata =
  cm_asset_balance :: gem_asset_balance
  cm_fee_asset_balance :: gem_asset_balance
  cm_prices :: "'p gem_asset_price list"

definition metadata_price :: "'p gem_confirm_metadata \<Rightarrow> asset_id \<Rightarrow> 'p gem_asset_price option" where
  "metadata_price m ident = List.find (\<lambda>p. ap_asset_id p = ident) (cm_prices m)"

definition find_asset_balance :: "gem_asset_balance list \<Rightarrow> asset_id \<Rightarrow> gem_asset_balance confirm_result" where
  "find_asset_balance balances ident =
     ok_or (List.find (\<lambda>b. gb_asset_id b = ident) balances) (CE_BalanceMissing ident)"

definition build_metadata ::
  "asset_id \<Rightarrow> asset_id \<Rightarrow> gem_asset_balance list \<Rightarrow> 'p gem_asset_price list \<Rightarrow> 'p gem_confirm_metadata confirm_result" where
  "build_metadata ident fee_ident balances prices =
     and_then (find_asset_balance balances ident) (\<lambda>b.
     and_then (find_asset_balance balances fee_ident) (\<lambda>f.
       Ok \<lparr>cm_asset_balance = b, cm_fee_asset_balance = f, cm_prices = prices\<rparr>))"

record 'p gem_fee_asset =
  fa_asset :: gem_asset
  fa_balance :: gem_asset_balance
  fa_price :: "'p gem_asset_price option"

definition selectable_fee_assets ::
  "gem_asset list \<Rightarrow> gem_asset_balance list \<Rightarrow> 'p gem_asset_price list \<Rightarrow> 'p gem_fee_asset list" where
  "selectable_fee_assets assets balances prices =
     List.map_filter (\<lambda>b. map_option (\<lambda>a. \<lparr>fa_asset = a, fa_balance = b,
         fa_price = List.find (\<lambda>p. ap_asset_id p = gb_asset_id b) prices\<rparr>)
         (List.find (\<lambda>a. asset_ident a = gb_asset_id b) assets))
       (filter (\<lambda>b. gb_available b > 0) balances)"

fun amount_error :: "transfer_amount_error \<Rightarrow> gem_asset \<Rightarrow> gem_asset \<Rightarrow> gem_confirm_error" where
  "amount_error (TA_InsufficientBalance ident required available) a fee_a =
     CE_InsufficientBalance (if asset_ident a = ident then a else fee_a) (balance_requirement required available)"
| "amount_error (TA_InsufficientNetworkFee ident required available) a fee_a =
     CE_InsufficientNetworkFee (if asset_ident a = ident then a else fee_a)
       (Some (balance_requirement required available))"
| "amount_error (TA_MinimumAccountBalanceTooLow ident required available) a fee_a =
     CE_MinimumAccountBalanceTooLow (if asset_ident a = ident then a else fee_a)
       (balance_requirement required available)"

text \<open>\<open>GemTransferAmountResult\<close> is a result type too: an amount or the error to show.\<close>

definition amount_request :: "gem_confirm_data \<Rightarrow> 'p gem_confirm_metadata \<Rightarrow> gem_asset \<Rightarrow> transfer_amount_input" where
  "amount_request d m fee_a =
     (let td = ci_transfer (cd_input d) in
      \<lparr>tai_input_type = td_input_type td, tai_value = td_value td,
       tai_available_value = available_value td (cm_asset_balance m), tai_fee_asset = asset_ident fee_a,
       tai_fee_asset_balance = int (gb_available (cm_fee_asset_balance m)), tai_fee = fee_total (cd_fee d),
       tai_is_max_amount = td_use_max_amount td, tai_minimum_value = td_minimum_value td\<rparr>)"

definition preload_amount ::
  "gem_confirm_data \<Rightarrow> 'p gem_confirm_metadata \<Rightarrow> gem_asset \<Rightarrow> gem_confirm_error + transfer_amount" where
  "preload_amount d m fee_a =
     map_err (\<lambda>e. amount_error e (gem_asset_of (td_input_type (ci_transfer (cd_input d)))) fee_a)
       (gem_calculate (amount_request d m fee_a))"

datatype GemApprovalValue = ExactApproval nat | UnlimitedApproval

definition gem_approval_value :: "nat \<Rightarrow> bool \<Rightarrow> GemApprovalValue" where
  "gem_approval_value v unlimited = (if unlimited then UnlimitedApproval else ExactApproval v)"

fun input_approval_value :: "gem_transaction_input_type \<Rightarrow> (asset_id \<times> GemApprovalValue) option" where
  "input_approval_value (Gem_TokenApprove a appr) =
     Some (asset_ident a, gem_approval_value (approval_value appr) (is_unlimited appr))"
| "input_approval_value _ = None"

definition approval_value_from :: "nat option \<Rightarrow> bool \<Rightarrow> GemApprovalValue" where
  "approval_value_from v unlimited = (case v of
       Some n \<Rightarrow> if \<not> unlimited then ExactApproval n else UnlimitedApproval | None \<Rightarrow> UnlimitedApproval)"

definition validate_approvals ::
  "gem_transaction_input_type \<Rightarrow> gem_signed_transaction list \<Rightarrow> unit confirm_result" where
  "validate_approvals t signed_txs =
     and_then (traverse (\<lambda>s. map_err CE_ApprovalInvalid (approval_of t (st_transaction_type s))) signed_txs) (\<lambda>_. Ok ())"

section \<open>Fees\<close>

datatype gem_confirm_fee_selection = SelectPriority fee_priority | SelectCustom int

fun selected_priority :: "gem_confirm_fee_selection \<Rightarrow> fee_priority option" where
  "selected_priority (SelectPriority p) = Some p"
| "selected_priority (SelectCustom _) = None"

fun selected_gas_price :: "gem_confirm_fee_selection \<Rightarrow> int option" where
  "selected_gas_price (SelectPriority _) = None"
| "selected_gas_price (SelectCustom g) = Some g"

fun custom_gas_price :: "gas_price_type \<Rightarrow> int \<Rightarrow> gas_price_type" where
  "custom_gas_price (Regular _) g = Regular g"
| "custom_gas_price (Eip1559 _ priority) g = (let tip = min priority g in Eip1559 (g - tip) tip)"
| "custom_gas_price (SolanaGas _ priority unit_price) g = SolanaGas g priority unit_price"

definition displayed_fee_rates :: "gem_fee_rate list \<Rightarrow> gem_fee_rate list" where
  "displayed_fee_rates rates =
     sort_key (\<lambda>r. case fr_priority r of NormalPriority \<Rightarrow> 0 :: nat | FastPriority \<Rightarrow> 1) rates"

definition rate_or_first :: "fee_priority \<Rightarrow> gem_fee_rate list \<Rightarrow> gem_fee_rate option" where
  "rate_or_first p rates = (case List.find (\<lambda>r. fr_priority r = p) rates of
       Some r \<Rightarrow> Some r | None \<Rightarrow> (case rates of r # _ \<Rightarrow> Some r | [] \<Rightarrow> None))"

fun select_fee_rate :: "gem_confirm_fee_selection \<Rightarrow> gem_fee_rate list \<Rightarrow> gem_fee_rate confirm_result" where
  "select_fee_rate (SelectPriority p) rates = ok_or (rate_or_first p rates) CE_FeeRatesMissing"
| "select_fee_rate (SelectCustom g) rates =
     and_then (ok_or (rate_or_first NormalPriority rates) CE_FeeRatesMissing) (\<lambda>base.
       Ok \<lparr>fr_priority = fr_priority base, fr_gas_price_type = custom_gas_price (fr_gas_price_type base) g\<rparr>)"

text \<open>\<open>BigInt\<close> division truncates towards zero.\<close>

definition bigint_div :: "int \<Rightarrow> int \<Rightarrow> int" where
  "bigint_div a b = sgn a * sgn b * (abs a div abs b)"

record gem_fee_rate_row =
  row_priority :: fee_priority
  row_unit_value :: int
  row_fee :: "int option"

record gem_fee_rate_rows =
  frr_rows :: "gem_fee_rate_row list"
  frr_unit_type :: fee_unit_type
  frr_unit_decimals :: u32
  frr_supports_custom_fee :: bool
  frr_selected_total :: "int option"
  frr_normal_total :: "int option"

definition custom_fee_enabled :: "chain \<Rightarrow> bool" where
  "custom_fee_enabled c = (case chain_type_of c of BitcoinType \<Rightarrow> True | _ \<Rightarrow> False)"

primrec fee_unit_decimals :: "fee_unit_type \<Rightarrow> u32" where
  "fee_unit_decimals SatVb = 1"
| "fee_unit_decimals Gwei = 9"
| "fee_unit_decimals NativeUnit = 0"

definition fee_rate_rows ::
  "chain \<Rightarrow> gem_asset \<Rightarrow> gem_fee_rate list \<Rightarrow> gem_confirm_fee_selection \<Rightarrow> int \<Rightarrow> gem_fee_rate_rows" where
  "fee_rate_rows c fee_a rates selection loaded_fee =
     (let unit_value = (\<lambda>r. total_fee (fr_gas_price_type r));
          rate_total = (\<lambda>p. map_option unit_value (List.find (\<lambda>r. fr_priority r = p) rates));
          selected_total = (case selection of SelectPriority p \<Rightarrow> rate_total p | SelectCustom g \<Rightarrow> Some g);
          base = (case selected_total of Some t \<Rightarrow> if t > 0 then Some t else None | None \<Rightarrow> None);
          unit_type = fee_unit_type_of c
      in \<lparr>frr_rows = map (\<lambda>r. \<lparr>row_priority = fr_priority r, row_unit_value = unit_value r,
              row_fee = map_option (\<lambda>b. bigint_div (loaded_fee * unit_value r) b) base\<rparr>) rates,
          frr_unit_type = unit_type,
          frr_unit_decimals = (case unit_type of
              NativeUnit \<Rightarrow> word_of_int (asset_decimals fee_a) | _ \<Rightarrow> fee_unit_decimals unit_type),
          frr_supports_custom_fee = (custom_fee_enabled c \<and> length rates > 1),
          frr_selected_total = selected_total,
          frr_normal_total = (case rate_total NormalPriority of
              Some t \<Rightarrow> Some t | None \<Rightarrow> (case rates of r # _ \<Rightarrow> Some (unit_value r) | [] \<Rightarrow> None))\<rparr>)"

datatype gem_acquire_asset_flow = AcquireOptions | AcquireFiat

definition acquire_asset_flow :: "chain \<Rightarrow> gem_acquire_asset_flow" where
  "acquire_asset_flow c = (case c of Tron \<Rightarrow> AcquireOptions | _ \<Rightarrow> AcquireFiat)"

definition is_insufficient_network_fee :: "asset_id \<Rightarrow> string \<Rightarrow> bool" where
  "is_insufficient_network_fee fee_ident fee_available =
     (if asset_chain fee_ident \<in> {HyperCore, Tron} \<or> \<not> is_native fee_ident then False
      else trim fee_available = [] \<or> list_all (\<lambda>ch. ch = CHR ''0'') (trim fee_available))"

section \<open>Scanning\<close>

record scan_transaction =
  sc_is_malicious :: "bool option"
  sc_is_memo_required :: "bool option"

definition validate_scan :: "scan_transaction option \<Rightarrow> string option \<Rightarrow> string \<Rightarrow> unit confirm_result" where
  "validate_scan scan memo_text symbol = (case scan of
       None \<Rightarrow> Ok ()
     | Some s \<Rightarrow>
         if sc_is_malicious s = Some True then Err CE_ScanMalicious
         else if sc_is_memo_required s = Some True \<and> trim (case memo_text of Some m \<Rightarrow> m | None \<Rightarrow> []) = []
         then Err (CE_ScanMemoRequired symbol)
         else Ok ())"

record gem_preload_input =
  pi_input_type :: gem_transaction_input_type
  pi_sender_address :: string
  pi_destination_address :: string
  pi_references :: "string list"

record scan_transaction_payload =
  sp_origin :: "asset_id \<times> string"
  sp_target :: "asset_id \<times> string"
  sp_website :: "string option"
  sp_transaction_type :: transaction_type

definition get_website :: "gem_transaction_input_type \<Rightarrow> string option" where
  "get_website t = (case t of Gem_Generic _ meta _ \<Rightarrow> Some (am_url meta) | _ \<Rightarrow> None)"

definition scan_payload :: "(string \<Rightarrow> string option) \<Rightarrow> gem_preload_input \<Rightarrow> scan_transaction_payload" where
  "scan_payload checksum p =
     (let t = as_primitive (pi_input_type p) in
      \<lparr>sp_origin = (asset_ident (gem_asset_of t), pi_sender_address p),
       sp_target = (asset_ident (get_recipient_asset t),
         checksum_address checksum (pi_destination_address p) (input_chain t)),
       sp_website = get_website t, sp_transaction_type = transaction_type_of t\<rparr>)"

section \<open>Facts\<close>

lemma map_err_simps [simp]:
  "map_err f r = Inr x \<longleftrightarrow> r = Inr x" "map_err f r = Inl e \<longleftrightarrow> (\<exists>d. r = Inl d \<and> e = f d)"
  by (cases r; auto)+

lemma signing_address_Ok:
  "signing_address w c from = Ok address \<longleftrightarrow>
     (\<exists>signer. wallet_account w c = Some signer \<and> acc_address signer = from \<and> address = from)"
  by (cases "wallet_account w c") (auto simp: signing_address_def)

lemma send_signer_input_Ok:
  "send_signer_input i = Ok g \<longleftrightarrow>
     (\<exists>signer. wallet_account (si_wallet i) (input_chain (si_input_type i)) = Some signer
        \<and> acc_address signer = acc_address (ci_from (cd_input (si_confirm i))))
     \<and> 0 \<le> si_value i
     \<and> g = \<lparr>gi_input =
             \<lparr>li_input_type = si_input_type i,
              li_sender_address = acc_address (ci_from (cd_input (si_confirm i))),
              li_destination_address = gr_address (td_recipient (si_transfer i)), li_value = nat (si_value i),
              li_gas_price = gas_price_type (cd_fee (si_confirm i)), li_memo = gr_memo (td_recipient (si_transfer i)),
              li_is_max_value = td_use_max_amount (si_transfer i), li_metadata = cd_metadata (si_confirm i)\<rparr>,
           gi_fee = (cd_fee (si_confirm i))\<lparr>fee_total := si_network_fee i\<rparr>\<rparr>"
proof (cases "signing_address (si_wallet i) (input_chain (si_input_type i)) (acc_address (ci_from (cd_input (si_confirm i))))")
  case (Inl e)
  then show ?thesis
    using signing_address_Ok [of "si_wallet i" "input_chain (si_input_type i)" "acc_address (ci_from (cd_input (si_confirm i)))"
        "acc_address (ci_from (cd_input (si_confirm i)))"] by (auto simp: send_signer_input_def Let_def)
next
  case (Inr address)
  then have "\<exists>signer. wallet_account (si_wallet i) (input_chain (si_input_type i)) = Some signer
        \<and> acc_address signer = acc_address (ci_from (cd_input (si_confirm i)))"
    "address = acc_address (ci_from (cd_input (si_confirm i)))"
    by (auto simp: signing_address_Ok)
  then show ?thesis using Inr by (auto simp: send_signer_input_def Let_def to_biguint_def)
qed

lemma validate_approvals_Ok:
  "validate_approvals t signed_txs = Ok () \<longleftrightarrow> (\<forall>s \<in> set signed_txs. \<exists>a. approval_of t (st_transaction_type s) = Ok a)"
proof (induction signed_txs)
  case (Cons s ss)
  then show ?case
    by (cases "approval_of t (st_transaction_type s)";
        cases "traverse (\<lambda>s. map_err CE_ApprovalInvalid (approval_of t (st_transaction_type s))) ss")
       (auto simp: validate_approvals_def)
qed (simp add: validate_approvals_def)

lemma metadata_asset_ids_fold:
  "distinct acc \<Longrightarrow> distinct (fold (\<lambda>a acc. if a \<in> set acc then acc else acc @ [a]) xs acc)
     \<and> set (fold (\<lambda>a acc. if a \<in> set acc then acc else acc @ [a]) xs acc) = set acc \<union> set xs"
  by (induction xs arbitrary: acc) auto

lemma metadata_asset_ids_set:
  "distinct (metadata_asset_ids a f extra)" "set (metadata_asset_ids a f extra) = {a, f} \<union> set extra"
  using metadata_asset_ids_fold [of "[]" "[a, f] @ extra"] by (auto simp: metadata_asset_ids_def)

text \<open>The requirement an amount error shows.\<close>

fun shown_requirement :: "gem_confirm_error \<Rightarrow> gem_balance_requirement option" where
  "shown_requirement (CE_InsufficientBalance _ r) = Some r"
| "shown_requirement (CE_InsufficientNetworkFee _ r) = r"
| "shown_requirement (CE_MinimumAccountBalanceTooLow _ r) = Some r"
| "shown_requirement _ = None"

lemma refusal_shortfall:
  "refusal_true i e \<Longrightarrow> \<exists>r. shown_requirement (amount_error e a f) = Some r
     \<and> 0 < req_shortfall r \<and> req_required r = req_available r + req_shortfall r"
  by (cases e) (auto simp: balance_requirement_def)

lemma preload_amount_Err:
  assumes "preload_amount d m fee_a = Err e"
  shows "\<exists>r. shown_requirement e = Some r \<and> 0 < req_shortfall r \<and> req_required r = req_available r + req_shortfall r"
proof -
  obtain e' where "gem_calculate (amount_request d m fee_a) = Err e'"
    "e = amount_error e' (gem_asset_of (td_input_type (ci_transfer (cd_input d)))) fee_a"
    using assms by (auto simp: preload_amount_def)
  then show ?thesis
    using refusal_shortfall [OF calculate_Err_true] by (auto simp: gem_calculate_def)
qed

lemma rate_or_first_cases:
  "rate_or_first p rates = Some r \<Longrightarrow>
     r \<in> set rates \<and> (fr_priority r = p \<or> (\<forall>q \<in> set rates. fr_priority q \<noteq> p) \<and> r = hd rates)"
  by (auto simp: rate_or_first_def find_None_iff dest: find_SomeD split: option.splits list.splits)

lemma rate_or_first_None: "rate_or_first p rates = None \<longleftrightarrow> rates = []"
  by (auto simp: rate_or_first_def find_None_iff split: option.splits list.splits)

lemma custom_total: "\<not> (\<exists>a b c. t = SolanaGas a b c) \<Longrightarrow> total_fee (custom_gas_price t g) = g"
  by (cases t) (auto simp: Let_def)

lemma bigint_div_cancel: "0 < b \<Longrightarrow> bigint_div (a * b) b = a"
  by (simp add: bigint_div_def abs_mult sgn_mult mult_sgn_abs)

lemma tron_no_minimum: "minimum_account_balance Tron = None"
proof -
  have "config Tron = config_tron"
    using config_cfg_chain [of config_tron] by (simp add: CHAIN_CONFIGS_def config_tron_def)
  then show ?thesis by (simp add: minimum_account_balance_def config_tron_def)
qed

section \<open>Properties\<close>

text \<open>
  C10: the signer is handed exactly what was confirmed. If \<open>SendInput::signer_input\<close> succeeds, the wallet has an
  account on the asset's chain whose address is the one the transaction was built for, and the input the
  chain signers read after the lowering carries that sender, the confirmed value (never negative) and network
  fee, the recipient's address and memo, the loaded metadata and the asset of the request.
\<close>

theorem signer_input_confirmed:
  assumes "send_signer_input i = Ok g"
  shows "(\<exists>acc. wallet_account (si_wallet i) (input_chain (si_input_type i)) = Some acc
        \<and> acc_address acc = acc_address (ci_from (cd_input (si_confirm i)))
        \<and> sender_address (lower_signer_input checksum g) = acc_address acc)
    \<and> int (input_value (lower_signer_input checksum g)) = si_value i
    \<and> fee_total (input_fee (lower_signer_input checksum g)) = si_network_fee i
    \<and> destination_address (lower_signer_input checksum g)
        = checksum_address checksum (gr_address (td_recipient (si_transfer i))) (input_chain (si_input_type i))
    \<and> memo (lower_signer_input checksum g) = gr_memo (td_recipient (si_transfer i))
    \<and> metadata (lower_signer_input checksum g) = cd_metadata (si_confirm i)
    \<and> asset_ident (get_asset (input_type (lower_signer_input checksum g))) = asset_ident (gem_asset_of (si_input_type i))"
  using assms unfolding send_signer_input_Ok
  by (auto simp: lower_signer_input_def Let_def lower_asset transaction_fee.truncate_def asset.truncate_def)

definition demo_wallet :: wallet where
  "demo_wallet = \<lparr>wallet_id = ''multicoin'', accounts = [\<lparr>acc_chain = Tron, acc_address = ''sender'',
     acc_derivation_path = ''m/44/195'', acc_extended_public_key = None\<rparr>]\<rparr>"

definition demo_fee :: "int \<Rightarrow> gem_transaction_load_fee" where
  "demo_fee n = \<lparr>fee_total = n, gas_price_type = Regular 1, fee_gas_limit = 0, fee_options = Map.empty,
     gf_fee_asset = from_chain_id_asset Tron\<rparr>"

definition demo_confirm :: "gem_transfer_data \<Rightarrow> int \<Rightarrow> gem_confirm_data" where
  "demo_confirm td fee = \<lparr>cd_input = \<lparr>ci_from = \<lparr>acc_chain = Tron, acc_address = ''sender'',
       acc_derivation_path = ''m/44/195'', acc_extended_public_key = None\<rparr>, ci_transfer = td\<rparr>,
     cd_fee = demo_fee fee, cd_selected_priority = NormalPriority, cd_fee_rates = [], cd_metadata = NoMeta,
     cd_simulation = None\<rparr>"

definition demo_transfer :: gem_transfer_data where
  "demo_transfer = \<lparr>td_input_type = Gem_Transfer (asset_from_chain Tron), td_recipient = recipient_address ''recipient'',
     td_value = 10, td_use_max_amount = False, td_minimum_value = None\<rparr>"

definition demo_send :: send_input where
  "demo_send = \<lparr>si_wallet = demo_wallet, si_confirm = demo_confirm demo_transfer 1, si_value = 9, si_network_fee = 1,
     si_simulation = None\<rparr>"

lemmas demo_confirm_defs = demo_send_def demo_wallet_def demo_confirm_def demo_transfer_def demo_fee_def
  recipient_address_def asset_chain_of_def from_chain_id_asset_def

lemma demo_signer_input: "send_signer_input demo_send =
    Ok \<lparr>gi_input = \<lparr>li_input_type = Gem_Transfer (asset_from_chain Tron), li_sender_address = ''sender'',
          li_destination_address = ''recipient'', li_value = 9, li_gas_price = Regular 1, li_memo = None,
          li_is_max_value = False, li_metadata = NoMeta\<rparr>, gi_fee = demo_fee 1\<rparr>"
  by (simp add: send_signer_input_def signing_address_def wallet_account_def to_biguint_def demo_confirm_defs)

theorem signer_input_confirmed_witness:
  "\<exists>g. send_signer_input demo_send = Ok g \<and> int (input_value (lower_signer_input (\<lambda>_. None) g)) = 9"
  using signer_input_confirmed [OF demo_signer_input, of "\<lambda>_. None"] demo_signer_input
  by (auto simp: demo_send_def)

text \<open>
  an amount error of the confirmation shows a real shortfall: whenever \<open>preload_amount\<close> refuses, the
  requirement it displays has a positive shortfall, which is what the required amount exceeds the available
  one by.
\<close>

theorem preload_refusal_shortfall:
  assumes "preload_amount d m fee_a = Err e"
  shows "\<exists>r. shown_requirement e = Some r \<and> 0 < req_shortfall r \<and> req_required r = req_available r + req_shortfall r"
  using assms by (rule preload_amount_Err)

text \<open>
  C18: on Tron the fee of a vote is charged to the frozen balance. The balance a vote draws on is the frozen
  one and the fee is paid from the liquid one, but \<open>calculate\<close> counts the fee against the balance the vote
  draws on, since both are the same asset. So with a liquid balance that covers the fee, a vote within the
  fee of the whole frozen balance is refused as insufficient balance when its amount was entered, and when it
  is marked as the maximum it is accepted for the frozen balance less the fee: in no case can the whole
  frozen balance be voted.
\<close>

theorem tron_vote_fee_from_frozen:
  assumes "asset_ident a = from_chain_id_asset Tron" "asset_type_of a = NATIVE"
    and "frozen = tron_stake_available a (cm_asset_balance m)" and "fee = fee_total (cd_fee d)"
    and "ci_transfer (cd_input d) = stake_transfer_data a (Gem_Delegate v) amount use_max"
    and "frozen - fee < amount" "amount \<le> frozen"
    and "fee \<le> int (gb_available (cm_fee_asset_balance m))"
  shows "preload_amount d m (asset_from_chain Tron)
     = (if use_max then Ok \<lparr>ta_value = frozen - fee, ta_network_fee = fee, ta_is_max_amount = True\<rparr>
        else Err (CE_InsufficientBalance a (balance_requirement (amount + fee) frozen)))"
  using assms
  by (simp add: preload_amount_def gem_calculate_def amount_request_def stake_transfer_data_def available_value_def
      asset_chain_of_def from_chain_id_asset_def calculate_def Let_def tron_no_minimum)

definition demo_vote :: "bool \<Rightarrow> gem_confirm_data" where
  "demo_vote use_max = demo_confirm (stake_transfer_data (asset_from_chain Tron) (Gem_Delegate demo_validator) 6000000 use_max) 280000"

definition demo_metadata :: "nat \<Rightarrow> unit gem_confirm_metadata" where
  "demo_metadata n = \<lparr>cm_asset_balance = demo_balance n, cm_fee_asset_balance = demo_balance n, cm_prices = []\<rparr>"

lemma demo_vote_available: "tron_stake_available (asset_from_chain Tron) (demo_balance n) = 6000000"
  by (simp add: tron_stake_available_def demo_balance_def votes_def asset_from_chain_def chain_asset_new_def
      chain_asset_with_network_name_def asset_new_def)

lemma demo_balance_available: "gb_available (demo_balance n) = n"
  by (simp add: demo_balance_def)

theorem tron_vote_fee_from_frozen_witness:
  "preload_amount (demo_vote False) (demo_metadata 1000000000) (asset_from_chain Tron)
     = Err (CE_InsufficientBalance (asset_from_chain Tron) (balance_requirement 6280000 6000000))
   \<and> preload_amount (demo_vote True) (demo_metadata 1000000000) (asset_from_chain Tron)
     = Ok \<lparr>ta_value = 5720000, ta_network_fee = 280000, ta_is_max_amount = True\<rparr>"
  using tron_vote_fee_from_frozen [of "asset_from_chain Tron" 6000000 "demo_metadata 1000000000" 280000 "demo_vote False"
      demo_validator 6000000 False]
    tron_vote_fee_from_frozen [of "asset_from_chain Tron" 6000000 "demo_metadata 1000000000" 280000 "demo_vote True"
      demo_validator 6000000 True]
  by (simp add: demo_vote_def demo_confirm_def demo_fee_def demo_metadata_def demo_vote_available demo_balance_available)

lemma demo_vote_refused: "preload_amount (demo_vote False) (demo_metadata 1000000000) (asset_from_chain Tron)
     = Err (CE_InsufficientBalance (asset_from_chain Tron) (balance_requirement 6280000 6000000))"
  by (simp add: preload_amount_def gem_calculate_def amount_request_def stake_transfer_data_def available_value_def
      asset_chain_of_def from_chain_id_asset_def calculate_def Let_def tron_no_minimum demo_vote_def demo_confirm_def
      demo_fee_def demo_metadata_def demo_vote_available)

theorem preload_refusal_shortfall_witness:
  "0 < req_shortfall (balance_requirement 6280000 6000000)"
  using preload_refusal_shortfall [OF demo_vote_refused] by auto

text \<open>
  fee rates. The displayed rates are a stable reordering with the normal rates first. Choosing a priority
  selects a rate of that priority if there is one and the first otherwise, and fails only without rates; a
  custom price is charged as it was entered, for every fee model but Solana's (where the priority fee comes
  on top); and the row of a rate with the selected unit value shows the loaded fee itself.
\<close>

theorem fee_rates_selected:
  "mset (displayed_fee_rates rates) = mset rates
   \<and> sorted (map (\<lambda>r. case fr_priority r of NormalPriority \<Rightarrow> 0 :: nat | FastPriority \<Rightarrow> 1) (displayed_fee_rates rates))
   \<and> filter (\<lambda>r. fr_priority r = p) (displayed_fee_rates rates) = filter (\<lambda>r. fr_priority r = p) rates
   \<and> (select_fee_rate s rates = Err e \<longrightarrow> rates = [])
   \<and> (select_fee_rate (SelectPriority p) rates = Ok r \<longrightarrow>
        r \<in> set rates \<and> (fr_priority r = p \<or> (\<forall>q \<in> set rates. fr_priority q \<noteq> p) \<and> r = hd rates))
   \<and> (select_fee_rate (SelectCustom g) rates = Ok r \<and> (\<forall>a b c. fr_gas_price_type r \<noteq> SolanaGas a b c) \<longrightarrow>
        total_fee (fr_gas_price_type r) = g)
   \<and> (frr_selected_total (fee_rate_rows c fee_a rates s loaded) = Some u \<and> 0 < u
        \<and> row \<in> set (frr_rows (fee_rate_rows c fee_a rates s loaded)) \<and> row_unit_value row = u \<longrightarrow>
        row_fee row = Some loaded)"
proof (intro conjI impI)
  let ?k = "\<lambda>r :: gem_fee_rate. case fr_priority r of NormalPriority \<Rightarrow> 0 :: nat | FastPriority \<Rightarrow> 1"
  show "mset (displayed_fee_rates rates) = mset rates" by (simp add: displayed_fee_rates_def)
  show "sorted (map ?k (displayed_fee_rates rates))" by (simp add: displayed_fee_rates_def)
  have "(fr_priority r = p) = (?k r = (case p of NormalPriority \<Rightarrow> 0 | FastPriority \<Rightarrow> 1))" for r :: gem_fee_rate
    by (cases p; cases "fr_priority r") simp_all
  then show "filter (\<lambda>r. fr_priority r = p) (displayed_fee_rates rates) = filter (\<lambda>r. fr_priority r = p) rates"
    by (simp add: displayed_fee_rates_def sort_key_stable)
next
  assume "select_fee_rate s rates = Err e"
  then show "rates = []"
    by (cases s; cases "rate_or_first (case s of SelectPriority p \<Rightarrow> p | SelectCustom _ \<Rightarrow> NormalPriority) rates")
       (auto simp: rate_or_first_None)
next
  assume "select_fee_rate (SelectPriority p) rates = Ok r"
  then have "rate_or_first p rates = Some r" by (cases "rate_or_first p rates") auto
  then show "r \<in> set rates" "fr_priority r = p \<or> (\<forall>q \<in> set rates. fr_priority q \<noteq> p) \<and> r = hd rates"
    by (auto dest: rate_or_first_cases)
next
  assume "select_fee_rate (SelectCustom g) rates = Ok r \<and> (\<forall>a b c. fr_gas_price_type r \<noteq> SolanaGas a b c)"
  then obtain base where "rate_or_first NormalPriority rates = Some base"
    "fr_gas_price_type r = custom_gas_price (fr_gas_price_type base) g" "\<forall>a b c. fr_gas_price_type r \<noteq> SolanaGas a b c"
    by (cases "rate_or_first NormalPriority rates") auto
  then show "total_fee (fr_gas_price_type r) = g" by (cases "fr_gas_price_type base") (auto simp: Let_def)
next
  assume "frr_selected_total (fee_rate_rows c fee_a rates s loaded) = Some u \<and> 0 < u
        \<and> row \<in> set (frr_rows (fee_rate_rows c fee_a rates s loaded)) \<and> row_unit_value row = u"
  then show "row_fee row = Some loaded"
    by (auto simp: fee_rate_rows_def Let_def bigint_div_cancel)
qed

definition demo_rates :: "gem_fee_rate list" where
  "demo_rates = [\<lparr>fr_priority = FastPriority, fr_gas_price_type = Eip1559 20 5\<rparr>,
     \<lparr>fr_priority = NormalPriority, fr_gas_price_type = Eip1559 10 2\<rparr>]"

theorem fee_rates_selected_witness:
  "select_fee_rate (SelectCustom 30) demo_rates
     = Ok \<lparr>fr_priority = NormalPriority, fr_gas_price_type = Eip1559 28 2\<rparr>
   \<and> total_fee (Eip1559 28 2) = 30
   \<and> row_fee \<lparr>row_priority = FastPriority, row_unit_value = 25, row_fee = Some 7\<rparr> = Some 7"
  using fee_rates_selected [of demo_rates NormalPriority "SelectPriority FastPriority" CE_Cancelled
      "\<lparr>fr_priority = NormalPriority, fr_gas_price_type = Eip1559 28 2\<rparr>" 30 Ethereum "asset_from_chain Ethereum" 7 25
      "\<lparr>row_priority = FastPriority, row_unit_value = 25, row_fee = Some 7\<rparr>"]
  by (simp add: demo_rates_def rate_or_first_def)

end
