(* ===== verification/Confirm_Flow.thy ===== *)
theory Confirm_Flow
  imports Confirm
begin

text \<open>
  Loading and executing a confirmation (\<open>gemstone/src/services/confirm/mod.rs\<close> and \<open>transfer.rs\<close>). The
  services the code awaits are fields of an environment, functions of the trace of events so far, so they may
  answer differently every time. An execution returns its result and the extended trace. Displaying a
  simulation (\<open>simulation\<close>, \<open>simulation_state\<close>, \<open>initial_state\<close>) is left out.
\<close>

section \<open>The environment\<close>

datatype flow_event =
    Broadcast chain string bool
  | Sleep nat
  | StorePending string "transaction list"
  | Track string "transaction list"
  | StoreRecent gem_recent_activity string

type_synonym trace = "flow_event list"

record 'p flow_env =
  env_current_wallet :: "gem_service_error + wallet"
  env_preload :: "chain \<Rightarrow> gem_preload_input \<Rightarrow> gateway_error + transaction_load_metadata"
  env_fee_rates :: "chain \<Rightarrow> gem_transaction_input_type \<Rightarrow> gateway_error + gem_fee_rate list"
  env_scan :: "scan_transaction_payload \<Rightarrow> gem_service_error + scan_transaction"
  env_simulate :: "chain \<Rightarrow> string \<Rightarrow> string option \<Rightarrow> string + simulation_result"
  env_load :: "chain \<Rightarrow> gem_transaction_load_input \<Rightarrow> gateway_error + (gem_transaction_load_fee \<times> transaction_load_metadata)"
  env_checksum :: "string \<Rightarrow> string option"
  env_balances :: "string \<Rightarrow> asset_id list \<Rightarrow> gem_service_error + gem_asset_balance list"
  env_prices :: "asset_id list \<Rightarrow> gem_service_error + 'p gem_asset_price list"
  env_assets :: "asset_id list \<Rightarrow> gem_service_error + gem_asset list"
  env_sign :: "wallet \<Rightarrow> gem_signer_input \<Rightarrow> gemstone_error + gem_signed_transaction list"
  env_broadcast :: "trace \<Rightarrow> chain \<Rightarrow> string \<Rightarrow> bool \<Rightarrow> gateway_error + string"
  env_add_transactions :: "trace \<Rightarrow> string \<Rightarrow> transaction list \<Rightarrow> gem_service_error + unit"
  env_now :: "trace \<Rightarrow> int"

section \<open>Loading\<close>

text \<open>A rate of the list, of the given priority unless the list has none of it.\<close>

definition preferred_rate :: "fee_priority \<Rightarrow> gem_fee_rate list \<Rightarrow> gem_fee_rate \<Rightarrow> bool" where
  "preferred_rate p rates r \<longleftrightarrow> r \<in> set rates \<and> (fr_priority r = p \<or> (\<forall>q \<in> set rates. fr_priority q \<noteq> p))"

lemma rate_or_first_preferred: "rate_or_first p rates = Some r \<Longrightarrow> preferred_rate p rates r"
  by (auto simp: preferred_rate_def dest: rate_or_first_cases)

lemma select_fee_rate_spec:
  assumes "select_fee_rate selection (displayed_fee_rates rates) = Ok selected"
  shows "case selection of
      SelectPriority p \<Rightarrow> preferred_rate p rates selected
    | SelectCustom g \<Rightarrow> (\<exists>base. preferred_rate NormalPriority rates base
        \<and> selected = \<lparr>fr_priority = fr_priority base, fr_gas_price_type = custom_gas_price (fr_gas_price_type base) g\<rparr>)"
proof -
  have "set (displayed_fee_rates rates) = set rates" by (simp add: displayed_fee_rates_def)
  then have shown: "preferred_rate p (displayed_fee_rates rates) r \<longleftrightarrow> preferred_rate p rates r" for p r
    by (simp add: preferred_rate_def)
  show ?thesis using assms
    by (cases selection) (auto simp: result_simps simp flip: shown intro: rate_or_first_preferred)
qed

record gem_confirm_load_options =
  lo_fee_selection :: gem_confirm_fee_selection
  lo_fee_asset_id :: "asset_id option"

definition simulation_payload :: "(bytes \<Rightarrow> string option) \<Rightarrow> gem_transaction_input_type \<Rightarrow> string option" where
  "simulation_payload from_utf8 t = (case t of
       Gem_Generic _ meta extra \<Rightarrow> (case am_source meta of
           Payment \<Rightarrow> Option.bind (extra_data extra) from_utf8 | WalletConnect \<Rightarrow> None)
     | _ \<Rightarrow> None)"

text \<open>The model of strings is bytes: \<open>String::from_utf8\<close> accepts what the UTF-8 automaton accepts.\<close>

definition string_from_utf8 :: "bytes \<Rightarrow> string option" where
  "string_from_utf8 b = (if valid_utf8 b then Some (from_bytes b) else None)"

definition simulate :: "'p flow_env \<Rightarrow> chain \<Rightarrow> gem_confirm_input \<Rightarrow> simulation_result option confirm_result" where
  "simulate env c input = (case simulation_payload string_from_utf8 (td_input_type (ci_transfer input)) of
       None \<Rightarrow> Ok None
     | Some transaction \<Rightarrow> map_err CE_Load (and_then
         (env_simulate env c transaction (Some (acc_address (ci_from input)))) (\<lambda>r. Ok (Some r))))"

text \<open>The four requests are joined: all are made, their errors are read in the order below.\<close>

definition confirm_load ::
  "'p flow_env \<Rightarrow> gem_confirm_input \<Rightarrow> gem_confirm_load_options \<Rightarrow> gem_confirm_data confirm_result" where
  "confirm_load env input options =
     (let td = ci_transfer input; a = gem_asset_of (td_input_type td); c = asset_chain_of a;
          dest = gr_address (td_recipient td);
          preload = \<lparr>pi_input_type = td_input_type td, pi_sender_address = acc_address (ci_from input),
            pi_destination_address = dest, pi_references = gr_references (td_recipient td)\<rparr>;
          scan = ok (env_scan env (scan_payload (env_checksum env) preload))
      in and_then (map_err load_error (env_preload env c preload)) (\<lambda>meta.
         and_then (map_err load_error (env_fee_rates env c (td_input_type td))) (\<lambda>rates.
         let fee_rates = displayed_fee_rates rates in
         and_then (simulate env c input) (\<lambda>simulation.
         and_then (validate_scan scan (gr_memo (td_recipient td)) (asset_symbol a)) (\<lambda>_.
         and_then (select_fee_rate (lo_fee_selection options) fee_rates) (\<lambda>selected.
         and_then (ok_or (to_biguint (td_value td)) (CE_Load ''negative transfer value'')) (\<lambda>v.
         and_then (map_err load_error (env_load env c
             \<lparr>li_input_type = td_input_type td, li_sender_address = acc_address (ci_from input),
              li_destination_address = dest, li_value = v, li_gas_price = fr_gas_price_type selected,
              li_memo = gr_memo (td_recipient td), li_is_max_value = td_use_max_amount td, li_metadata = meta\<rparr>))
           (\<lambda>(fee, loaded_meta).
             let fee' = (case lo_fee_asset_id options of Some f \<Rightarrow> fee\<lparr>gf_fee_asset := f\<rparr> | None \<Rightarrow> fee) in
             Ok \<lparr>cd_input = input, cd_fee = fee', cd_selected_priority = fr_priority selected,
                 cd_fee_rates = fee_rates, cd_metadata = loaded_meta, cd_simulation = simulation\<rparr>))))))))"

definition confirm_metadata ::
  "'p flow_env \<Rightarrow> string \<Rightarrow> asset_id \<Rightarrow> asset_id \<Rightarrow> asset_id list \<Rightarrow> 'p gem_confirm_metadata confirm_result" where
  "confirm_metadata env w ident fee_ident extra =
     (let ids = metadata_asset_ids ident fee_ident extra in
      and_then (map_err service_error (env_balances env w ids)) (\<lambda>balances.
      and_then (map_err service_error (env_prices env ids)) (\<lambda>prices.
        build_metadata ident fee_ident balances prices)))"

definition confirm_input_metadata ::
  "'p flow_env \<Rightarrow> string \<Rightarrow> gem_transaction_input_type \<Rightarrow> asset_id \<Rightarrow> 'p gem_confirm_metadata confirm_result" where
  "confirm_input_metadata env w t fee_ident =
     confirm_metadata env w (asset_ident (transaction_asset t)) fee_ident (input_asset_ids t)"

definition fee_assets :: "'p flow_env \<Rightarrow> string \<Rightarrow> chain \<Rightarrow> 'p gem_fee_asset list confirm_result" where
  "fee_assets env w c =
     (let ids = chain_fee_asset_ids c in
      if ids = [] then Ok []
      else and_then (map_err service_error (env_assets env ids)) (\<lambda>assets.
           and_then (map_err service_error (env_balances env w ids)) (\<lambda>balances.
           and_then (map_err service_error (env_prices env ids)) (\<lambda>prices.
             Ok (selectable_fee_assets assets balances prices)))))"

record 'p gem_confirm_preload =
  cp_confirm_data :: gem_confirm_data
  cp_metadata :: "'p gem_confirm_metadata"
  cp_fee_asset :: gem_asset
  cp_amount :: "gem_confirm_error + transfer_amount"

definition confirm_preload ::
  "'p flow_env \<Rightarrow> string \<Rightarrow> gem_confirm_input \<Rightarrow> gem_confirm_load_options \<Rightarrow> 'p gem_confirm_preload confirm_result" where
  "confirm_preload env w input options =
     and_then (confirm_load env input options) (\<lambda>d.
       let fee_ident = gf_fee_asset (cd_fee d) in
       and_then (confirm_input_metadata env w (td_input_type (ci_transfer (cd_input d))) fee_ident) (\<lambda>m.
       and_then (map_err service_error (env_assets env [fee_ident])) (\<lambda>assets.
       and_then (ok_or (case assets of x # _ \<Rightarrow> Some x | [] \<Rightarrow> None) (CE_BalanceMissing fee_ident)) (\<lambda>fee_a.
         Ok \<lparr>cp_confirm_data = d, cp_metadata = m, cp_fee_asset = fee_a, cp_amount = preload_amount d m fee_a\<rparr>))))"

text \<open>\<open>GemConfirmTransferService\<close>: the sender of a request, and a load error turned into a missing fee.\<close>

definition confirm_input_of :: "'p flow_env \<Rightarrow> gem_transfer_data \<Rightarrow> gem_confirm_input confirm_result" where
  "confirm_input_of env td =
     (let c = input_chain (td_input_type td) in
      and_then (map_err service_error (env_current_wallet env)) (\<lambda>w.
      and_then (ok_or (wallet_account w c) (CE_AccountMissing c)) (\<lambda>from.
        Ok \<lparr>ci_from = from, ci_transfer = td\<rparr>)))"

definition missing_network_fee :: "'p flow_env \<Rightarrow> string \<Rightarrow> gem_transaction_input_type \<Rightarrow> gem_confirm_error option" where
  "missing_network_fee env w t = (case confirm_input_metadata env w t (asset_ident (fee_asset t)) of
       Inl _ \<Rightarrow> None
     | Inr m \<Rightarrow>
         let b = cm_fee_asset_balance m in
         if is_insufficient_network_fee (gb_asset_id b) (to_decimal (gb_available b))
         then Some (CE_InsufficientNetworkFee (asset_from_chain (asset_chain (gb_asset_id b))) None) else None)"

definition service_preload ::
  "'p flow_env \<Rightarrow> string \<Rightarrow> gem_confirm_input \<Rightarrow> gem_confirm_load_options \<Rightarrow> 'p gem_confirm_preload confirm_result" where
  "service_preload env w input options = (case confirm_preload env w input options of
       Inr p \<Rightarrow> Ok p
     | Inl e \<Rightarrow> Err (case missing_network_fee env w (td_input_type (ci_transfer input)) of Some e' \<Rightarrow> e' | None \<Rightarrow> e))"

section \<open>Executing\<close>

definition broadcast_skip_preflight :: "gem_transaction_input_type \<Rightarrow> bool" where
  "broadcast_skip_preflight t =
     (input_chain t = Solana \<and> (case t of Gem_Swap _ _ _ \<Rightarrow> True | Gem_Generic _ _ _ \<Rightarrow> True | _ \<Rightarrow> False))"

definition broadcast_delay_milliseconds :: "chain \<Rightarrow> nat" where
  "broadcast_delay_milliseconds c = (case chain_type_of c of EthereumType \<Rightarrow> 0 | HyperCoreType \<Rightarrow> 0 | _ \<Rightarrow> 500)"

text \<open>The loop over the signed transactions that are left; it sleeps between two of them.\<close>

fun broadcast_loop ::
  "'p flow_env \<Rightarrow> chain \<Rightarrow> bool \<Rightarrow> nat \<Rightarrow> string list \<Rightarrow> trace \<Rightarrow> gem_signed_transaction list
     \<Rightarrow> string list confirm_result \<times> trace" where
  "broadcast_loop env c skip delay hashes tr [] = (Ok hashes, tr)"
| "broadcast_loop env c skip delay hashes tr (s # ss) =
     (case env_broadcast env tr c (st_data s) skip of
        Inr hash \<Rightarrow>
          (let tr' = tr @ [Broadcast c (st_data s) skip]
                       @ (if ss \<noteq> [] \<and> delay > 0 then [Sleep delay] else [])
           in broadcast_loop env c skip delay (hashes @ [hash]) tr' ss)
      | Inl e \<Rightarrow> (Err (broadcast_error hashes e), tr @ [Broadcast c (st_data s) skip]))"

definition broadcast ::
  "'p flow_env \<Rightarrow> trace \<Rightarrow> gem_transaction_input_type \<Rightarrow> gem_signed_transaction list \<Rightarrow> string list confirm_result \<times> trace" where
  "broadcast env tr t signed_txs =
     broadcast_loop env (input_chain t) (broadcast_skip_preflight t) (broadcast_delay_milliseconds (input_chain t)) [] tr signed_txs"

text \<open>
  \<open>SendInput::pending_transactions\<close>: one pending transaction per hash with a signed transaction at its index,
  those that are not tracked left out. \<open>Utc::now\<close> is read for each; the model reads it once.
\<close>

definition pending_input :: "send_input \<Rightarrow> string \<Rightarrow> gem_signed_transaction list \<Rightarrow> nat \<Rightarrow> string \<Rightarrow> gem_pending_transaction_input option" where
  "pending_input i sender signed_txs index hash =
     (if index < length signed_txs then Some
        \<lparr>pt_sender = sender, pt_transfer = si_transfer i, pt_value = si_value i,
         pt_transaction_type = st_transaction_type (signed_txs ! index), pt_hash = hash,
         pt_fee = cd_fee (si_confirm i), pt_network_fee = si_network_fee i,
         pt_metadata = cd_metadata (si_confirm i), pt_simulation = si_simulation i,
         pt_transaction_index = of_nat index, pt_transaction_count = of_nat (length signed_txs)\<rparr>
      else None)"

definition pending_transactions ::
  "int \<Rightarrow> send_input \<Rightarrow> string list \<Rightarrow> gem_signed_transaction list \<Rightarrow> transaction list confirm_result" where
  "pending_transactions now i hashes signed_txs =
     (let c = input_chain (si_input_type i) in
      and_then (ok_or (map_option acc_address (wallet_account (si_wallet i) c))
          (CE_Record (''wallet has no '' @ chain_as_ref c @ '' account''))) (\<lambda>sender.
      and_then (traverse (\<lambda>p. map_err CE_Record (pending_transaction now p))
          (List.map_filter (\<lambda>(index, hash). pending_input i sender signed_txs index hash) (enumerate 0 hashes)))
        (\<lambda>found. Ok (List.map_filter (\<lambda>x. x) found))))"

definition record_pending ::
  "'p flow_env \<Rightarrow> trace \<Rightarrow> send_input \<Rightarrow> string list \<Rightarrow> gem_signed_transaction list \<Rightarrow> transaction list confirm_result \<times> trace" where
  "record_pending env tr i hashes signed_txs = (case pending_transactions (env_now env tr) i hashes signed_txs of
       Inl e \<Rightarrow> (Err e, tr)
     | Inr pending \<Rightarrow>
         if pending = [] then (Ok pending, tr)
         else (let tr' = tr @ [StorePending (wallet_id (si_wallet i)) pending] in
           (case env_add_transactions env tr (wallet_id (si_wallet i)) pending of
              Inl e \<Rightarrow> (Err (CE_Record (service_error_to_string e)), tr')
            | Inr _ \<Rightarrow> (Ok pending, tr'))))"

definition store_pending ::
  "'p flow_env \<Rightarrow> trace \<Rightarrow> send_input \<Rightarrow> string list \<Rightarrow> gem_signed_transaction list \<Rightarrow> transaction list \<times> trace" where
  "store_pending env tr i hashes signed_txs =
     (let (r, tr') = record_pending env tr i hashes signed_txs;
          stored = (case r of Inr txs \<Rightarrow> txs | Inl _ \<Rightarrow> [])
      in (stored, tr' @ [Track (wallet_id (si_wallet i)) stored]))"

definition send ::
  "'p flow_env \<Rightarrow> trace \<Rightarrow> send_input \<Rightarrow> gem_signed_transaction list \<Rightarrow> (string list \<times> transaction list) confirm_result \<times> trace" where
  "send env tr i signed_txs = (case broadcast env tr (si_input_type i) signed_txs of
       (Inr hashes, tr') \<Rightarrow>
         (let (txs, tr'') = store_pending env tr' i hashes signed_txs in (Ok (hashes, txs), tr''))
     | (Inl (CE_Broadcast hashes msg), tr') \<Rightarrow>
         (let (txs, tr'') = store_pending env tr' i hashes signed_txs in (Err (CE_Broadcast hashes msg), tr''))
     | (Inl e, tr') \<Rightarrow> (Err e, tr'))"

datatype gem_execute_result = SignedResult "string list" | SentResult "string list" "transaction list"

text \<open>The part of \<open>execute\<close> before anything is sent: the input, the signatures, the approvals.\<close>

definition sign_and_validate :: "'p flow_env \<Rightarrow> send_input \<Rightarrow> gem_signed_transaction list confirm_result" where
  "sign_and_validate env i =
     (let c = input_chain (si_input_type i) in
      and_then (send_signer_input i) (\<lambda>g.
      and_then (map_err (sign_error c) (env_sign env (si_wallet i) g)) (\<lambda>txs.
        if txs = []
        then Err (CE_Sign (GSE_SigningError ''no signed transactions'') c ''no signed transactions'')
        else and_then (validate_approvals (si_input_type i) txs) (\<lambda>_. Ok txs))))"

definition execute :: "'p flow_env \<Rightarrow> trace \<Rightarrow> send_input \<Rightarrow> gem_execute_result confirm_result \<times> trace" where
  "execute env tr i = (case sign_and_validate env i of
       Inl e \<Rightarrow> (Err e, tr)
     | Inr txs \<Rightarrow>
         (case out_action (transfer_output (si_input_type i)) of
            SignAction \<Rightarrow> (Ok (SignedResult (map st_data txs)), tr)
          | SendAction \<Rightarrow> (case send env tr i txs of
                (Inr (hashes, stored), tr') \<Rightarrow> (Ok (SentResult hashes stored), tr')
              | (Inl e, tr') \<Rightarrow> (Err e, tr'))))"

primrec is_broadcast :: "gem_execute_result \<Rightarrow> bool" where
  "is_broadcast (SentResult _ _) = True"
| "is_broadcast (SignedResult _) = False"

definition add_recent :: "gem_transaction_input_type \<Rightarrow> wallet \<Rightarrow> trace" where
  "add_recent t w = (case recent_activity t of Some a \<Rightarrow> [StoreRecent a (wallet_id w)] | None \<Rightarrow> [])"

text \<open>\<open>GemConfirmTransferService::execute\<close>: for the current wallet, then the recent activity of a send.\<close>

definition service_execute ::
  "'p flow_env \<Rightarrow> trace \<Rightarrow> gem_confirm_data \<Rightarrow> int \<Rightarrow> int \<Rightarrow> simulation_result option
     \<Rightarrow> gem_execute_result confirm_result \<times> trace" where
  "service_execute env tr d v network_fee simulation = (case map_err service_error (env_current_wallet env) of
       Inl e \<Rightarrow> (Err e, tr)
     | Inr w \<Rightarrow>
         (case execute env tr \<lparr>si_wallet = w, si_confirm = d, si_value = v, si_network_fee = network_fee,
               si_simulation = simulation\<rparr> of
            (Inl e, tr') \<Rightarrow> (Err e, tr')
          | (Inr r, tr') \<Rightarrow>
              (Ok r, tr' @ (if is_broadcast r then add_recent (td_input_type (ci_transfer (cd_input d))) w else []))))"

section \<open>What a trace shows\<close>

fun broadcast_of :: "flow_event \<Rightarrow> (chain \<times> string \<times> bool) option" where
  "broadcast_of (Broadcast c d skip) = Some (c, d, skip)"
| "broadcast_of _ = None"

definition broadcasts :: "trace \<Rightarrow> (chain \<times> string \<times> bool) list" where
  "broadcasts tr = List.map_filter broadcast_of tr"

text \<open>Between two traces the gateway answered the given hashes to the first transactions, in order.\<close>

definition accepted ::
  "'p flow_env \<Rightarrow> chain \<Rightarrow> bool \<Rightarrow> trace \<Rightarrow> gem_signed_transaction list \<Rightarrow> string list \<Rightarrow> bool" where
  "accepted env c skip tr txs hashes \<longleftrightarrow>
     length hashes \<le> length txs
     \<and> (\<forall>j < length hashes. \<exists>before. prefix before tr \<and> env_broadcast env before c (st_data (txs ! j)) skip = Inr (hashes ! j))"

text \<open>
  How a broadcast ended that handed the first \<open>k\<close> transactions to the gateway: with the hash of every
  transaction, or with the error of the last one and the hashes of those before it.
\<close>

definition broadcast_outcome ::
  "'p flow_env \<Rightarrow> chain \<Rightarrow> bool \<Rightarrow> trace \<Rightarrow> gem_signed_transaction list \<Rightarrow> nat \<Rightarrow> string list confirm_result \<Rightarrow> bool" where
  "broadcast_outcome env c skip tr txs k r = (case r of
       Inr hs \<Rightarrow> k = length txs \<and> length hs = k \<and> accepted env c skip tr txs hs
     | Inl e \<Rightarrow> \<exists>hs g before. e = broadcast_error hs g \<and> Suc (length hs) = k
         \<and> accepted env c skip tr txs hs \<and> prefix before tr
         \<and> env_broadcast env before c (st_data (txs ! length hs)) skip = Inl g)"

section \<open>Facts\<close>

lemma broadcasts_simps [simp]:
  "broadcasts [] = []" "broadcasts (tr @ tr') = broadcasts tr @ broadcasts tr'"
  "broadcasts (e # tr) = (case broadcast_of e of Some b \<Rightarrow> b # broadcasts tr | None \<Rightarrow> broadcasts tr)"
  by (simp_all add: broadcasts_def map_filter_def split: option.splits)

lemma accepted_prefix: "accepted env c skip tr txs hashes \<Longrightarrow> accepted env c skip (tr @ ext) txs hashes"
  unfolding accepted_def by (meson prefix_order.trans prefixI)

lemma accepted_snoc:
  assumes "accepted env c skip tr txs hashes" "length hashes < length txs"
    and "env_broadcast env tr c (st_data (txs ! length hashes)) skip = Inr h"
  shows "accepted env c skip (tr @ ext) txs (hashes @ [h])"
  unfolding accepted_def
proof (intro conjI allI impI)
  fix j assume "j < length (hashes @ [h])"
  then consider "j < length hashes" | "j = length hashes" by force
  then show "\<exists>before. prefix before (tr @ ext)
      \<and> env_broadcast env before c (st_data (txs ! j)) skip = Inr ((hashes @ [h]) ! j)"
  proof cases
    case 1
    then show ?thesis using accepted_prefix [OF assms(1)] by (auto simp: accepted_def nth_append)
  next
    case 2
    then show ?thesis using assms(3) by (intro exI [of _ tr]) simp
  qed
qed (use assms(2) in simp)

lemma broadcast_loop_spec:
  assumes "broadcast_loop env c skip delay hashes tr rest = (r, tr')"
    and "txs = before @ rest" "length hashes = length before" "accepted env c skip tr txs hashes"
  shows "\<exists>ext k. tr' = tr @ ext \<and> k \<le> length rest
     \<and> broadcasts ext = map (\<lambda>s. (c, st_data s, skip)) (take k rest)
     \<and> broadcast_outcome env c skip tr' txs (length before + k) r"
  using assms
proof (induction rest arbitrary: hashes tr before)
  case Nil
  then show ?case by (intro exI [of _ "[]"] exI [of _ 0]) (auto simp: broadcast_outcome_def)
next
  case (Cons s ss)
  have s: "txs ! length hashes = s" using Cons.prems(2,3) by (simp add: nth_append)
  show ?case
  proof (cases "env_broadcast env tr c (st_data s) skip")
    case (Inl g)
    then have r: "r = Err (broadcast_error hashes g)" "tr' = tr @ [Broadcast c (st_data s) skip]"
      using Cons.prems(1) by auto
    have "broadcast_outcome env c skip tr' txs (length before + 1) r"
      unfolding broadcast_outcome_def r(1) sum.case
      using Cons.prems(3) accepted_prefix [OF Cons.prems(4)] Inl s r(2)
      by (intro exI [of _ hashes] exI [of _ g] exI [of _ tr]) simp
    then show ?thesis using r(2)
      by (intro exI [of _ "[Broadcast c (st_data s) skip]"] exI [of _ 1]) simp
  next
    case (Inr h)
    define ext where "ext = [Broadcast c (st_data s) skip] @ (if ss \<noteq> [] \<and> delay > 0 then [Sleep delay] else [])"
    have loop: "broadcast_loop env c skip delay (hashes @ [h]) (tr @ ext) ss = (r, tr')"
      using Cons.prems(1) Inr by (simp add: ext_def Let_def)
    have acc: "accepted env c skip (tr @ ext) txs (hashes @ [h])"
      using accepted_snoc [OF Cons.prems(4)] Cons.prems(2,3) Inr s by simp
    obtain ext' k where IH: "tr' = (tr @ ext) @ ext'" "k \<le> length ss"
      "broadcasts ext' = map (\<lambda>s. (c, st_data s, skip)) (take k ss)"
      "broadcast_outcome env c skip tr' txs (length (before @ [s]) + k) r"
      using Cons.IH [OF loop _ _ acc, of "before @ [s]"] Cons.prems(2,3) by auto
    have "broadcasts ext = [(c, st_data s, skip)]" by (simp add: ext_def)
    then show ?thesis using IH
      by (intro exI [of _ "ext @ ext'"] exI [of _ "Suc k"]) simp
  qed
qed

lemma broadcast_spec:
  assumes "broadcast env tr t txs = (r, tr')"
  shows "\<exists>ext k. tr' = tr @ ext \<and> k \<le> length txs
     \<and> broadcasts ext = map (\<lambda>s. (input_chain t, st_data s, broadcast_skip_preflight t)) (take k txs)
     \<and> broadcast_outcome env (input_chain t) (broadcast_skip_preflight t) tr' txs k r"
  using broadcast_loop_spec [OF assms [unfolded broadcast_def], of txs "[]"] by (simp add: accepted_def)

lemma broadcast_outcome_append:
  assumes "broadcast_outcome env c skip tr txs k r"
  shows "broadcast_outcome env c skip (tr @ ext) txs k r"
proof (cases r)
  case (Inl e)
  then obtain hs g before where "e = broadcast_error hs g" "Suc (length hs) = k" "accepted env c skip tr txs hs"
    "prefix before tr" "env_broadcast env before c (st_data (txs ! length hs)) skip = Inl g"
    using assms by (auto simp: broadcast_outcome_def simp del: broadcast_error.simps)
  then show ?thesis
    unfolding Inl broadcast_outcome_def sum.case
    by (intro exI [of _ hs] exI [of _ g] exI [of _ before])
       (simp add: accepted_prefix del: broadcast_error.simps)
next
  case (Inr hs)
  then show ?thesis using assms accepted_prefix by (auto simp: broadcast_outcome_def)
qed

lemma broadcast_error_hashes:
  "broadcast_error hs g = CE_Broadcast hs' msg \<Longrightarrow> hs' = hs"
  "\<forall>hs' msg. broadcast_error hs g \<noteq> CE_Broadcast hs' msg \<Longrightarrow> hs = []"
  by (cases g; auto split: if_splits)+

lemma record_pending_trace:
  assumes "record_pending env tr i hs txs = (r, tr')"
  shows "\<exists>ext. tr' = tr @ ext \<and> broadcasts ext = []"
  using assms by (auto simp: record_pending_def Let_def split: sum.splits if_splits)

lemma store_pending_trace:
  assumes "store_pending env tr i hs txs = (stored, tr')"
  shows "\<exists>ext. tr' = tr @ ext \<and> broadcasts ext = []"
proof -
  obtain r tr1 where r: "record_pending env tr i hs txs = (r, tr1)" by force
  then show ?thesis using record_pending_trace [OF r] assms by (auto simp: store_pending_def Let_def)
qed

text \<open>What a send leaves: the hashes of its result are those of the broadcast, whatever storing did.\<close>

lemma send_spec:
  assumes "send env tr i txs = (r, tr')"
  shows "\<exists>ext k rb. tr' = tr @ ext \<and> k \<le> length txs
     \<and> broadcasts ext = map (\<lambda>s. (input_chain (si_input_type i), st_data s, broadcast_skip_preflight (si_input_type i))) (take k txs)
     \<and> broadcast_outcome env (input_chain (si_input_type i)) (broadcast_skip_preflight (si_input_type i)) tr' txs k rb
     \<and> rb = (case r of Inr (hs, stored) \<Rightarrow> Inr hs | Inl e \<Rightarrow> Inl e)"
proof -
  obtain rb tr1 where b: "broadcast env tr (si_input_type i) txs = (rb, tr1)" by force
  obtain ext1 k where ext1: "tr1 = tr @ ext1" "k \<le> length txs"
    "broadcasts ext1 = map (\<lambda>s. (input_chain (si_input_type i), st_data s, broadcast_skip_preflight (si_input_type i))) (take k txs)"
    "broadcast_outcome env (input_chain (si_input_type i)) (broadcast_skip_preflight (si_input_type i)) tr1 txs k rb"
    using broadcast_spec [OF b] by auto
  have "\<exists>ext2. tr' = tr1 @ ext2 \<and> broadcasts ext2 = [] \<and> rb = (case r of Inr (hs, stored) \<Rightarrow> Inr hs | Inl e \<Rightarrow> Inl e)"
    using assms b store_pending_trace
    by (auto simp: send_def split: sum.splits prod.splits gem_confirm_error.splits)
  then obtain ext2 where "tr' = tr1 @ ext2" "broadcasts ext2 = []" "rb = (case r of Inr (hs, stored) \<Rightarrow> Inr hs | Inl e \<Rightarrow> Inl e)"
    by blast
  then show ?thesis
    using ext1 broadcast_outcome_append [OF ext1(4), of ext2]
    by (intro exI [of _ "ext1 @ ext2"] exI [of _ k] exI [of _ rb]) simp
qed

lemma sign_and_validate_Ok:
  assumes "sign_and_validate env i = Ok txs"
  obtains g where "send_signer_input i = Ok g" "env_sign env (si_wallet i) g = Inr txs" "txs \<noteq> []"
    "validate_approvals (si_input_type i) txs = Ok ()"
proof -
  obtain g where g: "send_signer_input i = Ok g"
    using assms by (cases "send_signer_input i") (auto simp: sign_and_validate_def)
  obtain txs' where txs': "env_sign env (si_wallet i) g = Inr txs'"
    using assms g by (cases "env_sign env (si_wallet i) g") (auto simp: sign_and_validate_def)
  have "txs' \<noteq> []" "validate_approvals (si_input_type i) txs' = Ok ()" "txs' = txs"
    using assms g txs'
    by (cases "validate_approvals (si_input_type i) txs'"; simp add: sign_and_validate_def split: if_splits)+
  then show thesis using that g txs' by simp
qed

lemma sign_and_validate_Err: "sign_and_validate env i = Err e \<Longrightarrow> e \<noteq> CE_Broadcast hs msg"
proof -
  have s: "send_signer_input i = Err e \<Longrightarrow> e \<noteq> CE_Broadcast hs msg" for e
    by (cases "wallet_account (si_wallet i) (input_chain (si_input_type i))")
       (auto simp: send_signer_input_def signing_address_def to_biguint_def Let_def split: if_splits)
  have v: "validate_approvals t txs = Err e \<Longrightarrow> e \<noteq> CE_Broadcast hs msg" for t txs e
  proof (induction txs)
    case (Cons x xs)
    then show ?case
      by (cases "approval_of t (st_transaction_type x)";
          cases "traverse (\<lambda>s. map_err CE_ApprovalInvalid (approval_of t (st_transaction_type s))) xs")
         (auto simp: validate_approvals_def)
  qed (simp add: validate_approvals_def)
  have g: "sign_error c ge \<noteq> CE_Broadcast hs msg" for c ge by (cases ge) simp_all
  assume e: "sign_and_validate env i = Err e"
  show ?thesis
  proof (cases "send_signer_input i")
    case (Inl e')
    then show ?thesis using e s by (auto simp: sign_and_validate_def)
  next
    case (Inr gi)
    then show ?thesis
    proof (cases "env_sign env (si_wallet i) gi")
      case (Inr txs)
      then show ?thesis using e v \<open>send_signer_input i = Inr gi\<close>
        by (cases "validate_approvals (si_input_type i) txs") (auto simp: sign_and_validate_def split: if_splits)
    qed (use e g Inr in \<open>auto simp: sign_and_validate_def\<close>)
  qed
qed

text \<open>An execution either leaves no trace or sends what the signer signed.\<close>

lemma execute_cases:
  assumes "execute env tr i = (r, tr')"
  obtains (quiet) "tr' = tr" "\<forall>hs stored. r \<noteq> Ok (SentResult hs stored)" "\<forall>hs msg. r \<noteq> Err (CE_Broadcast hs msg)"
  | (sent) txs rs where "sign_and_validate env i = Ok txs" "out_action (transfer_output (si_input_type i)) = SendAction"
      "send env tr i txs = (rs, tr')"
      "r = (case rs of Inr (hs, stored) \<Rightarrow> Ok (SentResult hs stored) | Inl e \<Rightarrow> Err e)"
proof (cases "sign_and_validate env i")
  case (Inl e)
  then show ?thesis using assms quiet sign_and_validate_Err [OF Inl] by (auto simp: execute_def)
next
  case (Inr txs)
  show ?thesis
  proof (cases "out_action (transfer_output (si_input_type i))")
    case SignAction
    then show ?thesis using assms Inr quiet by (auto simp: execute_def)
  next
    case SendAction
    obtain rs tr1 where s: "send env tr i txs = (rs, tr1)" by force
    then have "tr1 = tr'" "r = (case rs of Inr (hs, stored) \<Rightarrow> Ok (SentResult hs stored) | Inl e \<Rightarrow> Err e)"
      using assms Inr SendAction by (auto simp: execute_def split: sum.splits prod.splits)
    then show ?thesis using sent [OF Inr SendAction] s by simp
  qed
qed

text \<open>Pending transactions: which broadcast transactions they are, and that recording them cannot fail.\<close>

definition tracked_at :: "gem_transaction_input_type \<Rightarrow> gem_signed_transaction list \<Rightarrow> nat \<times> string \<Rightarrow> bool" where
  "tracked_at t txs = (\<lambda>(j, h). is_tracked t (st_transaction_type (txs ! j)) h (of_nat j) (of_nat (length txs)))"

definition stands_for :: "string \<Rightarrow> transaction \<Rightarrow> string \<Rightarrow> bool" where
  "stands_for sender x h \<longleftrightarrow> ti_hash (tx_id x) = h \<and> tx_state x = Pending \<and> tx_from x = sender"

lemma pending_transaction_cases:
  assumes "0 \<le> pt_value p" "0 \<le> pt_network_fee p"
    and "approval_of (td_input_type (pt_transfer p)) (pt_transaction_type p) = Ok a"
  shows "\<exists>found. pending_transaction now p = Ok found \<and>
    (if is_tracked (td_input_type (pt_transfer p)) (pt_transaction_type p) (pt_hash p) (pt_transaction_index p) (pt_transaction_count p)
     then \<exists>x. found = Some x \<and> stands_for (pt_sender p) x (pt_hash p) else found = None)"
  using assms by (auto simp: pending_transaction_def Let_def to_biguint_def transaction_new_def stands_for_def)

lemma pending_list:
  assumes "0 \<le> si_value i" "0 \<le> si_network_fee i" "validate_approvals (si_input_type i) txs = Ok ()"
    and "\<forall>(j, h) \<in> set ps. j < length txs"
  shows "\<exists>found. traverse (\<lambda>p. map_err CE_Record (pending_transaction now p))
        (List.map_filter (\<lambda>(j, h). pending_input i sender txs j h) ps) = Ok found
     \<and> list_all2 (stands_for sender) (List.map_filter (\<lambda>x. x) found) (map snd (filter (tracked_at (si_input_type i) txs) ps))"
  using assms(4)
proof (induction ps)
  case Nil
  then show ?case by (simp add: map_filter_def)
next
  case (Cons jh ps)
  obtain j h where jh: "jh = (j, h)" by force
  have j: "j < length txs" and prems: "\<forall>(j, h) \<in> set ps. j < length txs" using Cons.prems jh by simp_all
  obtain p where p: "pending_input i sender txs j h = Some p" "pt_sender p = sender" "pt_hash p = h"
    "td_input_type (pt_transfer p) = si_input_type i" "pt_transaction_type p = st_transaction_type (txs ! j)"
    "0 \<le> pt_value p" "0 \<le> pt_network_fee p" "pt_transaction_index p = of_nat j" "pt_transaction_count p = of_nat (length txs)"
    using j assms(1,2) by (auto simp: pending_input_def)
  obtain a where "approval_of (td_input_type (pt_transfer p)) (pt_transaction_type p) = Ok a"
    using assms(3) nth_mem [OF j] p(4,5) by (auto simp: validate_approvals_Ok)
  then obtain found1 where f1: "pending_transaction now p = Ok found1"
    "if tracked_at (si_input_type i) txs (j, h) then \<exists>x. found1 = Some x \<and> stands_for sender x h else found1 = None"
    using pending_transaction_cases [OF p(6,7)] p by (auto simp: tracked_at_def)
  obtain found where f: "traverse (\<lambda>p. map_err CE_Record (pending_transaction now p))
        (List.map_filter (\<lambda>(j, h). pending_input i sender txs j h) ps) = Ok found"
    "list_all2 (stands_for sender) (List.map_filter (\<lambda>x. x) found) (map snd (filter (tracked_at (si_input_type i) txs) ps))"
    using Cons.IH [OF prems] by blast
  have "List.map_filter (\<lambda>(j, h). pending_input i sender txs j h) (jh # ps)
      = p # List.map_filter (\<lambda>(j, h). pending_input i sender txs j h) ps"
    by (simp add: map_filter_def jh p(1))
  moreover have "List.map_filter (\<lambda>x. x) (found1 # found) = (case found1 of Some x \<Rightarrow> [x] | None \<Rightarrow> []) @ List.map_filter (\<lambda>x. x) found"
    by (simp add: map_filter_def split: option.splits)
  ultimately show ?case
    using f1 f jh by (intro exI [of _ "found1 # found"]) (auto split: if_splits)
qed

lemma pending_transactions_total:
  assumes "sign_and_validate env i = Ok txs" "0 \<le> si_network_fee i" "length hashes \<le> length txs"
  shows "\<exists>acc pending. wallet_account (si_wallet i) (input_chain (si_input_type i)) = Some acc
     \<and> pending_transactions now i hashes txs = Ok pending
     \<and> list_all2 (stands_for (acc_address acc)) pending
          (map snd (filter (tracked_at (si_input_type i) txs) (enumerate 0 hashes)))"
proof -
  obtain g where g: "send_signer_input i = Ok g" "validate_approvals (si_input_type i) txs = Ok ()"
    using sign_and_validate_Ok [OF assms(1)] by blast
  obtain acc where acc: "wallet_account (si_wallet i) (input_chain (si_input_type i)) = Some acc" and v: "0 \<le> si_value i"
    using g(1) unfolding send_signer_input_Ok by blast
  have "\<forall>(j, h) \<in> set (enumerate 0 hashes). j < length txs"
    using assms(3) by (auto simp: in_set_enumerate_eq)
  from pending_list [OF v assms(2) g(2) this, of now "acc_address acc"] show ?thesis
    using acc by (auto simp: pending_transactions_def Let_def)
qed

lemma store_pending_spec:
  assumes "store_pending env tr i hashes txs = (stored, tr')" "pending_transactions (env_now env tr) i hashes txs = Ok pending"
  shows "(pending = [] \<and> stored = [] \<and> tr' = tr @ [Track (wallet_id (si_wallet i)) []])
    \<or> (pending \<noteq> [] \<and> tr' = tr @ [StorePending (wallet_id (si_wallet i)) pending, Track (wallet_id (si_wallet i)) stored]
       \<and> stored = (case env_add_transactions env tr (wallet_id (si_wallet i)) pending of Inr _ \<Rightarrow> pending | Inl _ \<Rightarrow> []))"
  using assms by (auto simp: store_pending_def record_pending_def Let_def split: sum.splits if_splits)

text \<open>The hashes a result reports.\<close>

fun reported :: "gem_execute_result confirm_result \<Rightarrow> string list option" where
  "reported (Inr (SentResult hs stored)) = Some hs"
| "reported (Inl (CE_Broadcast hs msg)) = Some hs"
| "reported _ = None"

lemma reported_broadcast_error: "reported (Err (broadcast_error hs g)) = Some hs' \<Longrightarrow> hs' = hs"
  by (cases g) (auto split: if_splits)

lemma send_stores:
  assumes "send env tr i txs = (rs, tr')"
    and "reported (case rs of Inr (hs, stored) \<Rightarrow> Ok (SentResult hs stored) | Inl e \<Rightarrow> Err e) = Some hs"
  shows "\<exists>tr1 stored. store_pending env tr1 i hs txs = (stored, tr') \<and> (\<forall>hs' st. rs = Inr (hs', st) \<longrightarrow> st = stored)"
  using assms
  by (auto simp: send_def split: sum.splits prod.splits gem_confirm_error.splits) blast

text \<open>An execution that reports hashes ends with storing and tracking a pending transaction for each tracked one.\<close>

lemma execute_stores:
  assumes "execute env tr i = (r, tr')" "reported r = Some hs" "0 \<le> si_network_fee i"
  obtains txs acc pending tr1 stored where "sign_and_validate env i = Ok txs"
    "wallet_account (si_wallet i) (input_chain (si_input_type i)) = Some acc"
    "list_all2 (stands_for (acc_address acc)) pending (map snd (filter (tracked_at (si_input_type i) txs) (enumerate 0 hs)))"
    "tr' = tr1 @ (if pending = [] then [] else [StorePending (wallet_id (si_wallet i)) pending]) @ [Track (wallet_id (si_wallet i)) stored]"
    "stored = pending \<or> (\<exists>e. env_add_transactions env tr1 (wallet_id (si_wallet i)) pending = Inl e) \<and> stored = []"
    "\<forall>hs' st. r = Ok (SentResult hs' st) \<longrightarrow> st = stored"
  using assms(1)
proof (cases rule: execute_cases)
  case quiet
  then show ?thesis using assms(2) by (cases r rule: reported.cases) auto
next
  case (sent txs rs)
  obtain tr1 stored where st: "store_pending env tr1 i hs txs = (stored, tr')" "\<forall>hs' st. rs = Inr (hs', st) \<longrightarrow> st = stored"
    using send_stores [OF sent(3)] assms(2) sent(4) by auto
  have "accepted env (input_chain (si_input_type i)) (broadcast_skip_preflight (si_input_type i)) tr' txs hs"
    using send_spec [OF sent(3)] assms(2) sent(4)
    by (cases rs) (auto simp: broadcast_outcome_def simp del: broadcast_error.simps dest: reported_broadcast_error)
  then have "length hs \<le> length txs" by (simp add: accepted_def)
  then obtain acc pending where p: "wallet_account (si_wallet i) (input_chain (si_input_type i)) = Some acc"
    "pending_transactions (env_now env tr1) i hs txs = Ok pending"
    "list_all2 (stands_for (acc_address acc)) pending (map snd (filter (tracked_at (si_input_type i) txs) (enumerate 0 hs)))"
    using pending_transactions_total [OF sent(1) assms(3)] by blast
  have "\<forall>hs' st. r = Ok (SentResult hs' st) \<longrightarrow> st = stored"
    using st(2) sent(4) by (auto split: sum.splits prod.splits)
  with store_pending_spec [OF st(1) p(2)] show ?thesis
    by (intro that [OF sent(1) p(1,3), of tr1 stored]) (auto split: sum.splits)
qed

lemma trim_Nil: "trim [] = []"
proof -
  have "strip_all ps [] = []" for ps by (simp add: strip_all.simps strip_one_def)
  then show ?thesis by (simp add: trim_def)
qed

section \<open>Properties\<close>

text \<open>
  C3: nothing is broadcast that was not confirmed and validated. Whatever the services answer, an execution
  only extends the trace; if it hands anything to the gateway, then the signer input was accepted (the
  wallet's own account, a value that is not negative), the signer signed exactly that input, every signed
  transaction's approval is one the request allows, the request asks for sending and not only for signing,
  and what was handed over is a prefix of the signed transactions, in order, on the chain of the request's
  asset.
\<close>

theorem execute_broadcasts_signed:
  assumes "execute env tr i = (r, tr')"
  shows "\<exists>ext. tr' = tr @ ext \<and> (broadcasts ext = [] \<or>
    (\<exists>g txs k. send_signer_input i = Ok g \<and> env_sign env (si_wallet i) g = Inr txs
       \<and> (\<forall>s \<in> set txs. \<exists>a. approval_of (si_input_type i) (st_transaction_type s) = Ok a)
       \<and> out_action (transfer_output (si_input_type i)) = SendAction
       \<and> broadcasts ext = map (\<lambda>s. (input_chain (si_input_type i), st_data s, broadcast_skip_preflight (si_input_type i))) (take k txs)))"
  using assms
proof (cases rule: execute_cases)
  case quiet
  then show ?thesis by simp
next
  case (sent txs rs)
  obtain g where "send_signer_input i = Ok g" "env_sign env (si_wallet i) g = Inr txs"
    "\<forall>s \<in> set txs. \<exists>a. approval_of (si_input_type i) (st_transaction_type s) = Ok a"
    using sign_and_validate_Ok [OF sent(1)] validate_approvals_Ok by metis
  then show ?thesis using send_spec [OF sent(3)] sent(2) by blast
qed

text \<open>
  C8: the result of an execution tells what the gateway accepted. If it reports hashes, they are the gateway's
  answers to the first signed transactions, in order: to all of them when the send succeeded, to those before
  the one that was refused when it broke off, after which nothing more was broadcast. If it reports none,
  the gateway accepted nothing: at most the first transaction was handed over and refused.
\<close>

theorem execute_reports_accepted:
  assumes "execute env tr i = (r, tr')"
  shows "case reported r of
      Some hs \<Rightarrow> \<exists>ext txs. tr' = tr @ ext \<and> sign_and_validate env i = Ok txs
        \<and> accepted env (input_chain (si_input_type i)) (broadcast_skip_preflight (si_input_type i)) tr' txs hs
        \<and> length (broadcasts ext) = (if is_ok r then length hs else Suc (length hs))
        \<and> (is_ok r \<longrightarrow> length hs = length txs)
    | None \<Rightarrow> \<exists>ext. tr' = tr @ ext \<and> (broadcasts ext = [] \<or> (\<exists>txs g before. sign_and_validate env i = Ok txs
        \<and> length (broadcasts ext) = 1 \<and> prefix before tr'
        \<and> env_broadcast env before (input_chain (si_input_type i)) (st_data (txs ! 0)) (broadcast_skip_preflight (si_input_type i)) = Inl g))"
  using assms
proof (cases rule: execute_cases)
  case quiet
  then have "reported r = None" by (cases r rule: reported.cases) auto
  then show ?thesis using quiet(1) by simp
next
  case (sent txs rs)
  obtain ext k rb where spec: "tr' = tr @ ext" "k \<le> length txs" "length (broadcasts ext) = k"
    "broadcast_outcome env (input_chain (si_input_type i)) (broadcast_skip_preflight (si_input_type i)) tr' txs k rb"
    "rb = (case rs of Inr (hs, stored) \<Rightarrow> Inr hs | Inl e \<Rightarrow> Inl e)"
    using send_spec [OF sent(3)] by force
  show ?thesis
  proof (cases rs)
    case (Inr hs_stored)
    then show ?thesis using spec sent(1,4) by (cases hs_stored) (auto simp: broadcast_outcome_def)
  next
    case (Inl e)
    then obtain hs g before where e: "e = broadcast_error hs g" "Suc (length hs) = k"
      "accepted env (input_chain (si_input_type i)) (broadcast_skip_preflight (si_input_type i)) tr' txs hs" "prefix before tr'"
      "env_broadcast env before (input_chain (si_input_type i)) (st_data (txs ! length hs)) (broadcast_skip_preflight (si_input_type i)) = Inl g"
      using spec(4,5) by (auto simp: broadcast_outcome_def simp del: broadcast_error.simps)
    have r: "r = Err e" using sent(4) Inl by simp
    show ?thesis
    proof (cases "\<exists>hs' msg. e = CE_Broadcast hs' msg")
      case True
      then obtain msg where "e = CE_Broadcast hs msg" using e(1) broadcast_error_hashes(1) by metis
      then show ?thesis using r e(2,3) spec(1,3) sent(1) by auto
    next
      case False
      then have "hs = []" using e(1) broadcast_error_hashes(2) by metis
      moreover have "reported r = None" using False r by (cases e) auto
      ultimately show ?thesis using e(2,4,5) spec(1,3) sent(1) by auto
    qed
  qed
qed

text \<open>
  C9: what was broadcast is recorded. When an execution reports hashes and the network fee is not negative,
  recording cannot fail by its own rules: the last effects are storing one pending transaction, from the
  wallet's account, for every reported hash that is to be tracked, in order (no store call if there is none),
  and tracking exactly what was stored; only the store's refusal leaves them untracked.
\<close>

theorem broadcast_recorded:
  assumes "execute env tr i = (r, tr')" "reported r = Some hs" "0 \<le> si_network_fee i"
  shows "\<exists>acc txs pending stored before. sign_and_validate env i = Ok txs
    \<and> wallet_account (si_wallet i) (input_chain (si_input_type i)) = Some acc
    \<and> list_all2 (stands_for (acc_address acc)) pending (map snd (filter (tracked_at (si_input_type i) txs) (enumerate 0 hs)))
    \<and> tr' = before @ (if pending = [] then [] else [StorePending (wallet_id (si_wallet i)) pending])
              @ [Track (wallet_id (si_wallet i)) stored]
    \<and> (stored = pending \<or> (\<exists>e. env_add_transactions env before (wallet_id (si_wallet i)) pending = Inl e) \<and> stored = [])
    \<and> (\<forall>hs' st. r = Ok (SentResult hs' st) \<longrightarrow> st = stored)"
  by (rule execute_stores [OF assms]) blast

text \<open>
  C14: what a loaded confirmation was loaded with. If \<open>load\<close> succeeds, then unless the scanner itself failed
  (the code fails open), its verdict is not malicious and a required memo is there and not blank; the value is
  not negative; the rate is one the gateway gave, of the priority asked for if there is one of it, or the
  custom price put on such a rate; and the fee and the metadata are the gateway's answer for exactly this
  request: the same asset, addresses, value, memo and use of the maximum, the price of the rate selected, and
  the metadata of the preload. Only the fee asset is replaced, when the options name one.
\<close>

theorem load_passed_scan:
  assumes "confirm_load env input options = Ok d"
    and "td = ci_transfer input" and "c = input_chain (td_input_type td)"
    and "request = \<lparr>pi_input_type = td_input_type td, pi_sender_address = acc_address (ci_from input),
             pi_destination_address = gr_address (td_recipient td), pi_references = gr_references (td_recipient td)\<rparr>"
  shows "cd_input d = input \<and> 0 \<le> td_value td
    \<and> (\<exists>rates selected meta fee.
        env_preload env c request = Inr meta
        \<and> env_fee_rates env c (td_input_type td) = Inr rates \<and> cd_fee_rates d = displayed_fee_rates rates
        \<and> (case lo_fee_selection options of
              SelectPriority p \<Rightarrow> preferred_rate p rates selected
            | SelectCustom g \<Rightarrow> (\<exists>base. preferred_rate NormalPriority rates base
                \<and> selected = \<lparr>fr_priority = fr_priority base, fr_gas_price_type = custom_gas_price (fr_gas_price_type base) g\<rparr>))
        \<and> cd_selected_priority d = fr_priority selected
        \<and> env_load env c
             \<lparr>li_input_type = td_input_type td, li_sender_address = acc_address (ci_from input),
              li_destination_address = gr_address (td_recipient td), li_value = nat (td_value td),
              li_gas_price = fr_gas_price_type selected, li_memo = gr_memo (td_recipient td),
              li_is_max_value = td_use_max_amount td, li_metadata = meta\<rparr> = Inr (fee, cd_metadata d)
        \<and> cd_fee d = (case lo_fee_asset_id options of Some f \<Rightarrow> fee\<lparr>gf_fee_asset := f\<rparr> | None \<Rightarrow> fee))
    \<and> (\<forall>scan. env_scan env (scan_payload (env_checksum env) request) = Inr scan \<longrightarrow>
          sc_is_malicious scan \<noteq> Some True
          \<and> (sc_is_memo_required scan = Some True \<longrightarrow> (\<exists>m. gr_memo (td_recipient td) = Some m \<and> trim m \<noteq> [])))"
proof -
  obtain meta rates simulation selected v fee where ok:
      "env_preload env c request = Inr meta" "env_fee_rates env c (td_input_type td) = Inr rates"
      "simulate env c input = Ok simulation"
      "validate_scan (ok (env_scan env (scan_payload (env_checksum env) request))) (gr_memo (td_recipient td))
         (asset_symbol (gem_asset_of (td_input_type td))) = Ok ()"
      and sel: "select_fee_rate (lo_fee_selection options) (displayed_fee_rates rates) = Ok selected"
      and v: "to_biguint (td_value td) = Some v"
      and load: "env_load env c
             \<lparr>li_input_type = td_input_type td, li_sender_address = acc_address (ci_from input),
              li_destination_address = gr_address (td_recipient td), li_value = v,
              li_gas_price = fr_gas_price_type selected, li_memo = gr_memo (td_recipient td),
              li_is_max_value = td_use_max_amount td, li_metadata = meta\<rparr> = Inr (fee, cd_metadata d)"
      and d: "cd_fee d = (case lo_fee_asset_id options of Some f \<Rightarrow> fee\<lparr>gf_fee_asset := f\<rparr> | None \<Rightarrow> fee)"
        "cd_input d = input" "cd_selected_priority d = fr_priority selected" "cd_fee_rates d = displayed_fee_rates rates"
    using assms(1) unfolding confirm_load_def Let_def assms(2-4) by (auto simp: result_simps)
  have "0 \<le> td_value td" "v = nat (td_value td)" using v by (auto simp: to_biguint_def split: if_splits)
  moreover have "sc_is_malicious scan \<noteq> Some True \<and> (sc_is_memo_required scan = Some True
      \<longrightarrow> (\<exists>m. gr_memo (td_recipient td) = Some m \<and> trim m \<noteq> []))"
    if "env_scan env (scan_payload (env_checksum env) request) = Inr scan" for scan
    using ok(4) that by (auto simp: validate_scan_def trim_Nil split: option.splits if_splits)
  ultimately show ?thesis using ok(1,2) select_fee_rate_spec [OF sel] load d by blast
qed

definition demo_signed :: "gem_signed_transaction list" where
  "demo_signed = [\<lparr>st_data = ''tx1'', st_transaction_type = TxTransfer\<rparr>, \<lparr>st_data = ''tx2'', st_transaction_type = TxTransfer\<rparr>]"

definition demo_env :: "unit flow_env" where
  "demo_env = \<lparr>env_current_wallet = Ok demo_wallet, env_preload = (\<lambda>_ _. Ok NoMeta),
     env_fee_rates = (\<lambda>_ _. Ok demo_rates), env_scan = (\<lambda>_. Ok \<lparr>sc_is_malicious = Some False, sc_is_memo_required = None\<rparr>),
     env_simulate = (\<lambda>_ _ _. Err ''offline''), env_load = (\<lambda>_ _. Ok (demo_fee 1, NoMeta)), env_checksum = (\<lambda>_. None),
     env_balances = (\<lambda>_ _. Ok []), env_prices = (\<lambda>_. Ok []), env_assets = (\<lambda>_. Ok []),
     env_sign = (\<lambda>_ _. Ok demo_signed),
     env_broadcast = (\<lambda>tr _ d _. if d = ''tx1'' then Ok ''hash1'' else Err Offline),
     env_add_transactions = (\<lambda>_ _ _. Ok ()), env_now = (\<lambda>_. 0)\<rparr>"

lemma demo_input_type: "si_input_type demo_send = Gem_Transfer (asset_from_chain Tron)"
  by (simp add: demo_confirm_defs)

lemma demo_sign: "sign_and_validate demo_env demo_send = Ok demo_signed"
  unfolding sign_and_validate_def demo_signer_input demo_input_type
  by (simp add: demo_env_def demo_signed_def validate_approvals_def approval_of.simps)

lemma demo_broadcast: "\<exists>msg tr'. broadcast demo_env [] (Gem_Transfer (asset_from_chain Tron)) demo_signed
    = (Err (CE_Broadcast [''hash1''] msg), tr')"
  by (simp add: broadcast_def demo_env_def demo_signed_def Let_def)

lemma demo_execute: "\<exists>msg tr'. execute demo_env [] demo_send = (Err (CE_Broadcast [''hash1''] msg), tr')"
  using demo_broadcast
  by (auto simp: execute_def demo_sign demo_input_type send_def split: prod.splits)

theorem execute_broadcasts_signed_witness:
  "\<exists>r tr' ext k. execute demo_env [] demo_send = (r, tr') \<and> tr' = ext
     \<and> broadcasts ext = map (\<lambda>s. (Tron, st_data s, False)) (take k demo_signed)"
proof -
  obtain r tr' where e: "execute demo_env [] demo_send = (r, tr')" by force
  have c: "input_chain (si_input_type demo_send) = Tron" "\<not> broadcast_skip_preflight (si_input_type demo_send)"
    "env_sign demo_env w g = Inr demo_signed" for w g
    by (simp_all add: demo_input_type broadcast_skip_preflight_def demo_env_def asset_chain_of_def asset_from_chain_def
      chain_asset_new_def chain_asset_with_network_name_def from_chain_id_asset_def asset_new_def)
  from execute_broadcasts_signed [OF e] have "\<exists>k. broadcasts tr' = map (\<lambda>s. (Tron, st_data s, False)) (take k demo_signed)"
    by (auto simp: c intro: exI [of _ 0])
  then show ?thesis using e by blast
qed

theorem execute_reports_accepted_witness:
  "\<exists>msg tr'. execute demo_env [] demo_send = (Err (CE_Broadcast [''hash1''] msg), tr')
     \<and> length (broadcasts tr') = 2"
proof -
  obtain msg tr' where e: "execute demo_env [] demo_send = (Err (CE_Broadcast [''hash1''] msg), tr')"
    using demo_execute by blast
  from execute_reports_accepted [OF e] show ?thesis using e by auto
qed

theorem broadcast_recorded_witness:
  "\<exists>r tr' before pending. execute demo_env [] demo_send = (r, tr')
     \<and> list_all2 (stands_for ''sender'') pending [''hash1''] \<and> tr' = before @ [StorePending ''multicoin'' pending, Track ''multicoin'' pending]"
proof -
  obtain msg tr' where e: "execute demo_env [] demo_send = (Err (CE_Broadcast [''hash1''] msg), tr')"
    using demo_execute by blast
  have w: "wallet_id (si_wallet demo_send) = ''multicoin''" "0 \<le> si_network_fee demo_send"
    "wallet_account (si_wallet demo_send) (input_chain (si_input_type demo_send)) = Some acc \<Longrightarrow> acc_address acc = ''sender''"
    "env_add_transactions demo_env b i p \<noteq> Inl x" for acc b i p x
    by (auto simp: demo_confirm_defs wallet_account_def demo_env_def)
  have t: "tracked_at (si_input_type demo_send) demo_signed (0, ''hash1'')"
    by (simp add: demo_input_type tracked_at_def demo_signed_def is_tracked_def)
  from broadcast_recorded [OF e _ w(2), of "[''hash1'']"] show ?thesis
    using e w t demo_sign by (fastforce split: if_splits)
qed

definition demo_load :: "gem_confirm_data confirm_result" where
  "demo_load = confirm_load demo_env \<lparr>ci_from = \<lparr>acc_chain = Tron, acc_address = ''sender'',
     acc_derivation_path = ''m/44/195'', acc_extended_public_key = None\<rparr>, ci_transfer = demo_transfer\<rparr>
     \<lparr>lo_fee_selection = SelectPriority NormalPriority, lo_fee_asset_id = None\<rparr>"

lemma demo_load_Ok: "\<exists>d. demo_load = Ok d"
  by (simp add: demo_load_def confirm_load_def demo_env_def demo_transfer_def Let_def simulate_def simulation_payload_def
      validate_scan_def to_biguint_def demo_rates_def displayed_fee_rates_def rate_or_first_def)

theorem load_passed_scan_witness:
  "\<exists>d selected. demo_load = Ok d \<and> cd_fee_rates d = displayed_fee_rates demo_rates
     \<and> preferred_rate NormalPriority demo_rates selected \<and> cd_selected_priority d = fr_priority selected"
proof -
  obtain d where d: "demo_load = Ok d" using demo_load_Ok by blast
  from load_passed_scan [OF d [unfolded demo_load_def] refl refl refl] show ?thesis using d by (auto simp: demo_env_def)
qed

end
