(* ===== verification/Transaction_Status.thy ===== *)
theory Transaction_Status
  imports Confirm
begin

text \<open>
  The state of a sent transaction: what a status request makes of the answers of the chain and of the swap
  provider (\<open>gemstone/src/transaction_state/status_provider.rs\<close>), and how an update is applied to the stored
  transaction (\<open>gemstone/src/services/transaction_state/mod.rs\<close> and \<open>rules.rs\<close>). The answers of the network
  are parameters; the store is an interface, a locale with the laws of its operations, interpreted on the
  store the repository keeps in memory. Times are nanoseconds since the epoch.
\<close>

section \<open>States and updates\<close>

primrec is_completed :: "transaction_state \<Rightarrow> bool" where
  "is_completed Confirmed = True"
| "is_completed Failed = True"
| "is_completed Reverted = True"
| "is_completed Refunded = True"
| "is_completed Pending = False"
| "is_completed InTransit = False"

definition merged_with :: "transaction_state \<Rightarrow> transaction_state \<Rightarrow> transaction_state" where
  "merged_with current updated = (if current = Pending \<or> is_completed updated then updated else current)"

datatype perpetual_provider = Hypercore

text \<open>The two floating point numbers of a perpetual's metadata are of a type the model leaves open.\<close>

record 'f transaction_perpetual_metadata =
  tpm_pnl :: 'f
  tpm_price :: 'f
  tpm_direction :: perpetual_direction
  tpm_is_liquidation :: "bool option"
  tpm_provider :: "perpetual_provider option"

datatype 'f update_metadata =
    PerpetualUpdate "'f transaction_perpetual_metadata"
  | SwapUpdate transaction_swap_metadata

datatype 'f transaction_change =
    HashChange (hc_old: string) (hc_new: string)
  | MetadataChange "'f update_metadata"
  | BlockNumber string
  | NetworkFee int
  | ConfirmationEtaSeconds u32

record 'f transaction_update =
  tu_state :: transaction_state
  tu_changes :: "'f transaction_change list"

definition update_new_state :: "transaction_state \<Rightarrow> 'f transaction_update" where
  "update_new_state st = \<lparr>tu_state = st, tu_changes = []\<rparr>"

record transaction_state_request =
  sr_id :: string
  sr_sender_address :: string
  sr_created_at :: int
  sr_block_number :: u64

datatype swap_status = SwapPending | SwapCompleted | SwapFailed | SwapRefunded

primrec swap_status_state :: "swap_status \<Rightarrow> transaction_state option" where
  "swap_status_state SwapCompleted = Some Confirmed"
| "swap_status_state SwapFailed = Some Failed"
| "swap_status_state SwapRefunded = Some Refunded"
| "swap_status_state SwapPending = None"

record swap_result =
  sw_status :: swap_status
  sw_metadata :: "transaction_swap_metadata option"
  sw_eta_in_seconds :: "u32 option"

definition swap_provider_all :: "swap_provider list" where
  "swap_provider_all = [UniswapV3, UniswapV4, PancakeswapV3, Aerodrome, Panora, ThorchainProvider, Jupiter, Okx,
     Across, Oku, Wagmi, StonfiV2, Mayan, Chainflip, NearIntents, CetusAggregator, CetusClmm, Relay,
     HyperliquidProvider, Orca, Squid, MayachainProvider, SwapsXyz]"

definition swap_provider_from_str :: "string \<Rightarrow> swap_provider option" where
  "swap_provider_from_str s = List.find (\<lambda>p. swap_provider_as_ref p = s) swap_provider_all"

definition is_cross_chain :: "swap_provider \<Rightarrow> bool" where
  "is_cross_chain p = (case p of
       ThorchainProvider \<Rightarrow> True | MayachainProvider \<Rightarrow> True | Across \<Rightarrow> True | Mayan \<Rightarrow> True | Chainflip \<Rightarrow> True
     | NearIntents \<Rightarrow> True | Relay \<Rightarrow> True | HyperliquidProvider \<Rightarrow> True | Squid \<Rightarrow> True | SwapsXyz \<Rightarrow> True
     | _ \<Rightarrow> False)"

section \<open>Asking for the status\<close>

datatype transaction_status_error = StatusOffline | StatusNetworkError string | StatusPlatformError string

fun status_error_from :: "gateway_error \<Rightarrow> transaction_status_error" where
  "status_error_from Offline = StatusOffline"
| "status_error_from (NetworkError msg) = StatusNetworkError msg"
| "status_error_from (PlatformError msg) = StatusPlatformError msg"
| "status_error_from (NetworkIdMismatch c nid) = StatusPlatformError (''Node reports network '' @ nid @ '' for '' @ c)"

primrec gateway_error_from :: "transaction_status_error \<Rightarrow> gateway_error" where
  "gateway_error_from StatusOffline = Offline"
| "gateway_error_from (StatusNetworkError msg) = NetworkError msg"
| "gateway_error_from (StatusPlatformError msg) = PlatformError msg"

text \<open>The answers of the network: a chain's client (or the failure to create one) and the swap provider's API.\<close>

record 'f status_env =
  se_chain :: "chain \<Rightarrow> transaction_state_request \<Rightarrow> gateway_error + 'f transaction_update"
  se_swap :: "chain \<Rightarrow> swap_provider \<Rightarrow> string \<Rightarrow> string + swap_result"

record swap_state_request =
  ss_transaction :: transaction_state_request
  ss_state :: transaction_state
  ss_swap_provider :: swap_provider
  ss_destination_chain :: chain

definition num_milliseconds :: "int \<Rightarrow> int" where
  "num_milliseconds d = (if d < 0 then - ((- d) div 1000000) else d div 1000000)"

definition in_transit_swap_update :: "swap_result \<Rightarrow> 'f transaction_update" where
  "in_transit_swap_update r =
     (let st = (case swap_status_state (sw_status r) of Some st \<Rightarrow> st | None \<Rightarrow> InTransit);
          eta = (if is_completed st then 0 else case sw_eta_in_seconds r of Some e \<Rightarrow> e | None \<Rightarrow> 0)
      in \<lparr>tu_state = st, tu_changes =
           (case sw_metadata r of Some m \<Rightarrow> [MetadataChange (SwapUpdate m)] | None \<Rightarrow> []) @ [ConfirmationEtaSeconds eta]\<rparr>)"

fun is_eta :: "'f transaction_change \<Rightarrow> bool" where
  "is_eta (ConfirmationEtaSeconds _) = True"
| "is_eta _ = False"

definition pending_cross_chain_swap_update :: "'f transaction_update \<Rightarrow> 'f transaction_update" where
  "pending_cross_chain_swap_update u =
     (if tu_state u = Confirmed
      then \<lparr>tu_state = InTransit, tu_changes = filter (\<lambda>c. \<not> is_eta c) (tu_changes u) @ [ConfirmationEtaSeconds 0]\<rparr>
      else u)"

definition transaction_timeout :: "chain \<Rightarrow> chain option \<Rightarrow> transaction_state \<Rightarrow> int option" where
  "transaction_timeout c dest st = (case st of
       Pending \<Rightarrow> Some (uint (chain_transaction_timeout c))
     | InTransit \<Rightarrow> Some (sint (swap_transaction_timeout c (case dest of Some d \<Rightarrow> d | None \<Rightarrow> c)))
     | _ \<Rightarrow> None)"

definition get_transaction_update ::
  "int \<Rightarrow> chain \<Rightarrow> chain option \<Rightarrow> int \<Rightarrow> transaction_status_error + 'f transaction_update
     \<Rightarrow> transaction_status_error + 'f transaction_update" where
  "get_transaction_update now c dest created_at result =
     (let elapsed = num_milliseconds (now - created_at);
          pending_expired = (elapsed > uint (chain_transaction_timeout c)) in
      case result of
        Inr u \<Rightarrow> Ok (if (case transaction_timeout c dest (tu_state u) of Some t \<Rightarrow> elapsed > t | None \<Rightarrow> False)
          then \<lparr>tu_state = Failed,
                tu_changes = (if tu_state u = InTransit then [ConfirmationEtaSeconds 0] else [])\<rparr>
          else u)
      | Inl StatusOffline \<Rightarrow> Err StatusOffline
      | Inl (StatusNetworkError msg) \<Rightarrow> Err (StatusNetworkError msg)
      | Inl e \<Rightarrow> if pending_expired then Ok (update_new_state Failed) else Err e)"

definition chain_status ::
  "'f status_env \<Rightarrow> chain \<Rightarrow> transaction_state_request \<Rightarrow> transaction_status_error + 'f transaction_update" where
  "chain_status env c r = map_err status_error_from (se_chain env c r)"

definition swap_provider_status ::
  "'f status_env \<Rightarrow> chain \<Rightarrow> swap_provider \<Rightarrow> string \<Rightarrow> transaction_status_error + 'f transaction_update" where
  "swap_provider_status env c p hash =
     and_then (map_err StatusNetworkError (se_swap env c p hash)) (\<lambda>r. Ok (in_transit_swap_update r))"

definition cross_chain_swap_status ::
  "'f status_env \<Rightarrow> chain \<Rightarrow> swap_state_request \<Rightarrow> transaction_status_error + 'f transaction_update" where
  "cross_chain_swap_status env c r = (case ss_state r of
       Pending \<Rightarrow> and_then (chain_status env c (ss_transaction r)) (\<lambda>u. Ok (pending_cross_chain_swap_update u))
     | InTransit \<Rightarrow> swap_provider_status env c (ss_swap_provider r) (sr_id (ss_transaction r))
     | st \<Rightarrow> Ok (update_new_state st))"

definition swap_transaction_status ::
  "'f status_env \<Rightarrow> chain \<Rightarrow> swap_state_request \<Rightarrow> transaction_status_error + 'f transaction_update" where
  "swap_transaction_status env c r =
     (if \<not> is_cross_chain (ss_swap_provider r) then chain_status env c (ss_transaction r)
      else cross_chain_swap_status env c r)"

definition status_get ::
  "'f status_env \<Rightarrow> int \<Rightarrow> chain \<Rightarrow> transaction_state_request \<Rightarrow> transaction_status_error + 'f transaction_update" where
  "status_get env now c r = get_transaction_update now c None (sr_created_at r) (chain_status env c r)"

definition get_swap_status ::
  "'f status_env \<Rightarrow> int \<Rightarrow> chain \<Rightarrow> swap_state_request \<Rightarrow> transaction_status_error + 'f transaction_update" where
  "get_swap_status env now c r =
     get_transaction_update now c (Some (ss_destination_chain r)) (sr_created_at (ss_transaction r))
       (swap_transaction_status env c r)"

definition swap_route :: "transaction \<Rightarrow> (swap_provider \<times> chain) option" where
  "swap_route t = Option.bind (swap_metadata t) (\<lambda>m.
     Option.bind (tsm_provider m) (\<lambda>s.
     map_option (\<lambda>p. (p, asset_chain (tsm_to_asset m))) (swap_provider_from_str s)))"

definition state_request :: "transaction \<Rightarrow> transaction_state_request" where
  "state_request t = \<lparr>sr_id = ti_hash (tx_id t), sr_sender_address = tx_from t, sr_created_at = tx_created_at t,
     sr_block_number = (case Option.bind (tx_block_number t) (\<lambda>n. ok (parse_u64 n)) of Some n \<Rightarrow> n | None \<Rightarrow> 0)\<rparr>"

definition get_update :: "'f status_env \<Rightarrow> int \<Rightarrow> transaction \<Rightarrow> transaction_status_error + 'f transaction_update" where
  "get_update env now t =
     (let c = asset_chain (tx_asset_id t); r = state_request t; route = swap_route t in
      if route = None \<and> tx_type t = TxSwap \<and> tx_state t = InTransit then Ok (update_new_state (tx_state t))
      else and_then (case route of
             Some (p, d) \<Rightarrow> get_swap_status env now c
               \<lparr>ss_transaction = r, ss_state = tx_state t, ss_swap_provider = p, ss_destination_chain = d\<rparr>
           | None \<Rightarrow> status_get env now c r) (\<lambda>u.
             Ok \<lparr>tu_state = merged_with (tx_state t) (tu_state u), tu_changes = tu_changes u\<rparr>))"

section \<open>Rules\<close>

definition destination_chain :: "transaction \<Rightarrow> chain option" where
  "destination_chain t =
     (if tx_state t = InTransit then map_option (\<lambda>m. asset_chain (tsm_to_asset m)) (swap_metadata t) else None)"

definition has_timed_out :: "transaction \<Rightarrow> int \<Rightarrow> bool" where
  "has_timed_out t now =
     (if is_completed (tx_state t) then False
      else let c = asset_chain (tx_asset_id t);
               timeout_ms = swap_transaction_timeout c (case destination_chain t of Some d \<Rightarrow> d | None \<Rightarrow> c)
           in num_milliseconds (now - tx_created_at t) > sint timeout_ms)"

record transaction_post_processing =
  pp_balance_asset_ids :: "asset_id list"
  pp_stake_chains :: "chain list"
  pp_earn_asset_ids :: "asset_id list"
  pp_sync_nfts :: bool

text \<open>\<open>unique\<close> keeps the first occurrence of each item.\<close>

fun unique_from :: "'a set \<Rightarrow> 'a list \<Rightarrow> 'a list" where
  "unique_from seen [] = []"
| "unique_from seen (x # xs) = (if x \<in> seen then unique_from seen xs else x # unique_from (insert x seen) xs)"

definition unique :: "'a list \<Rightarrow> 'a list" where
  "unique xs = unique_from {} xs"

definition post_processing ::
  "transaction \<Rightarrow> transaction_state \<Rightarrow> transaction_state \<Rightarrow> transaction_post_processing option" where
  "post_processing t previous st =
     (let entered_transit = (previous = Pending \<and> st = InTransit);
          p = \<lparr>pp_balance_asset_ids = associated_asset_ids t, pp_stake_chains = [], pp_earn_asset_ids = [], pp_sync_nfts = False\<rparr>
      in if \<not> is_completed st \<and> \<not> entered_transit then None
      else if \<not> is_completed st then Some p
      else Some (case tx_type t of
          TxStakeDelegate \<Rightarrow> p\<lparr>pp_stake_chains := unique (map asset_chain (transaction_asset_ids t))\<rparr>
        | TxStakeUndelegate \<Rightarrow> p\<lparr>pp_stake_chains := unique (map asset_chain (transaction_asset_ids t))\<rparr>
        | TxStakeRewards \<Rightarrow> p\<lparr>pp_stake_chains := unique (map asset_chain (transaction_asset_ids t))\<rparr>
        | TxStakeRedelegate \<Rightarrow> p\<lparr>pp_stake_chains := unique (map asset_chain (transaction_asset_ids t))\<rparr>
        | TxStakeWithdraw \<Rightarrow> p\<lparr>pp_stake_chains := unique (map asset_chain (transaction_asset_ids t))\<rparr>
        | TxStakeFreeze \<Rightarrow> p\<lparr>pp_stake_chains := unique (map asset_chain (transaction_asset_ids t))\<rparr>
        | TxStakeUnfreeze \<Rightarrow> p\<lparr>pp_stake_chains := unique (map asset_chain (transaction_asset_ids t))\<rparr>
        | TxEarnDeposit \<Rightarrow> p\<lparr>pp_earn_asset_ids := transaction_asset_ids t\<rparr>
        | TxEarnWithdraw \<Rightarrow> p\<lparr>pp_earn_asset_ids := transaction_asset_ids t\<rparr>
        | TxTransferNFT \<Rightarrow> p\<lparr>pp_sync_nfts := True\<rparr>
        | _ \<Rightarrow> p))"

fun new_hash :: "'f transaction_change list \<Rightarrow> string option" where
  "new_hash [] = None"
| "new_hash (HashChange old new # cs) = Some new"
| "new_hash (c # cs) = new_hash cs"

record gem_transaction_state_update =
  su_state :: transaction_state
  su_fee :: "int option"
  su_block_number :: "string option"
  su_metadata :: "string option"
  su_confirmation_eta_seconds :: "u32 option"

definition state_update_new :: "transaction_state \<Rightarrow> gem_transaction_state_update" where
  "state_update_new st = \<lparr>su_state = st, su_fee = None, su_block_number = None, su_metadata = None,
     su_confirmation_eta_seconds = None\<rparr>"

definition has_field_changes :: "gem_transaction_state_update \<Rightarrow> bool" where
  "has_field_changes u \<longleftrightarrow> su_fee u \<noteq> None \<or> su_block_number u \<noteq> None \<or> su_metadata u \<noteq> None
     \<or> su_confirmation_eta_seconds u \<noteq> None"

text \<open>\<open>serde_json::to_string\<close> of a metadata structure is a parameter.\<close>

fun collect_changes ::
  "('f update_metadata \<Rightarrow> string + string) \<Rightarrow> gem_transaction_state_update \<Rightarrow> 'f transaction_change list
     \<Rightarrow> string + gem_transaction_state_update" where
  "collect_changes json u [] = Ok u"
| "collect_changes json u (NetworkFee fee # cs) = collect_changes json (u\<lparr>su_fee := Some fee\<rparr>) cs"
| "collect_changes json u (BlockNumber n # cs) = collect_changes json (u\<lparr>su_block_number := Some n\<rparr>) cs"
| "collect_changes json u (MetadataChange m # cs) =
     and_then (json m) (\<lambda>j. collect_changes json (u\<lparr>su_metadata := Some j\<rparr>) cs)"
| "collect_changes json u (ConfirmationEtaSeconds n # cs) =
     collect_changes json (u\<lparr>su_confirmation_eta_seconds := Some n\<rparr>) cs"
| "collect_changes json u (HashChange _ _ # cs) = collect_changes json u cs"

definition state_update ::
  "('f update_metadata \<Rightarrow> string + string) \<Rightarrow> transaction_state \<Rightarrow> 'f transaction_change list
     \<Rightarrow> string + gem_transaction_state_update" where
  "state_update json st changes = collect_changes json (state_update_new st) changes"

definition assets_to_enable :: "transaction list \<Rightarrow> asset_id list" where
  "assets_to_enable ts = unique (filter (\<lambda>a. asset_chain a \<noteq> HyperCore) (concat (map transaction_asset_ids ts)))"

section \<open>The store and an update\<close>

record 's transaction_state_store =
  ts_get_transaction :: "'s \<Rightarrow> string \<Rightarrow> transaction_id \<Rightarrow> gem_service_error + transaction option"
  ts_get_state :: "'s \<Rightarrow> string \<Rightarrow> transaction_id \<Rightarrow> gem_service_error + transaction_state option"
  ts_rename :: "'s \<Rightarrow> string \<Rightarrow> transaction_id \<Rightarrow> transaction_id \<Rightarrow> (gem_service_error + unit) \<times> 's"
  ts_delete :: "'s \<Rightarrow> string \<Rightarrow> transaction_id \<Rightarrow> (gem_service_error + unit) \<times> 's"
  ts_update :: "'s \<Rightarrow> string \<Rightarrow> transaction_id \<Rightarrow> gem_transaction_state_update \<Rightarrow> (gem_service_error + bool) \<times> 's"

datatype gem_post_processing_step = BalancesStep | StakeStep | EarnStep | NftsStep

record gem_post_processing_failure =
  pf_step :: gem_post_processing_step
  pf_message :: string

record gem_transaction_state_result =
  tr_transaction_id :: transaction_id
  tr_state :: transaction_state
  tr_failures :: "gem_post_processing_failure list"

definition rename ::
  "'s transaction_state_store \<Rightarrow> 's \<Rightarrow> string \<Rightarrow> transaction \<Rightarrow> string
     \<Rightarrow> (gem_service_error + transaction_id \<times> transaction_state) \<times> 's" where
  "rename store s w t hash =
     (let new_id = \<lparr>ti_chain = asset_chain (tx_asset_id t), ti_hash = hash\<rparr> in
      case ts_get_state store s w new_id of
        Inl e \<Rightarrow> (Err e, s)
      | Inr (Some existing) \<Rightarrow> (case ts_delete store s w (tx_id t) of
            (Inl e, s') \<Rightarrow> (Err e, s') | (Inr _, s') \<Rightarrow> (Ok (new_id, existing), s'))
      | Inr None \<Rightarrow> (case ts_rename store s w (tx_id t) new_id of
            (Inl e, s') \<Rightarrow> (Err e, s') | (Inr _, s') \<Rightarrow> (Ok (new_id, tx_state t), s')))"

text \<open>\<open>apply\<close> in three parts: the update that counts, the row it is for, the write.\<close>

definition counted_update ::
  "bool \<Rightarrow> string + 'f transaction_update \<Rightarrow> gem_service_error + 'f transaction_update" where
  "counted_update timed_out update = (case update of
       Inr u \<Rightarrow> Ok u
     | Inl msg \<Rightarrow> if timed_out then Ok (update_new_state Failed) else Err (GS_Gateway msg))"

definition updated_row ::
  "'s transaction_state_store \<Rightarrow> 's \<Rightarrow> string \<Rightarrow> transaction \<Rightarrow> 'f transaction_update
     \<Rightarrow> (gem_service_error + transaction_id \<times> transaction_state) \<times> 's" where
  "updated_row store s w t u = (case new_hash (tu_changes u) of
       Some hash \<Rightarrow> rename store s w t hash
     | None \<Rightarrow> (Ok (tx_id t, tx_state t), s))"

definition next_state :: "bool \<Rightarrow> transaction_state \<Rightarrow> transaction_state \<Rightarrow> transaction_state" where
  "next_state timed_out current updated =
     (let st = merged_with current updated in if timed_out \<and> \<not> is_completed st then Failed else st)"

definition write_state ::
  "'s transaction_state_store \<Rightarrow> 's \<Rightarrow> string \<Rightarrow> transaction_id \<Rightarrow> transaction_state \<Rightarrow> gem_transaction_state_update
     \<Rightarrow> (gem_service_error + gem_transaction_state_result option) \<times> 's" where
  "write_state store s w ident current upd =
     (if su_state upd = current \<and> \<not> has_field_changes upd
      then (case ts_get_state store s w ident of
              Inl e \<Rightarrow> (Err e, s)
            | Inr st \<Rightarrow> (Ok (map_option (\<lambda>st. \<lparr>tr_transaction_id = ident, tr_state = st, tr_failures = []\<rparr>) st), s))
      else (case ts_update store s w ident upd of
              (Inl e, s') \<Rightarrow> (Err e, s')
            | (Inr found, s') \<Rightarrow> (Ok (if found
                then Some \<lparr>tr_transaction_id = ident, tr_state = su_state upd, tr_failures = []\<rparr> else None), s')))"

definition apply_update ::
  "'s transaction_state_store \<Rightarrow> ('f update_metadata \<Rightarrow> string + string) \<Rightarrow> 's \<Rightarrow> string \<Rightarrow> transaction
     \<Rightarrow> string + 'f transaction_update \<Rightarrow> int \<Rightarrow> (gem_service_error + gem_transaction_state_result option) \<times> 's" where
  "apply_update store json s w t update now =
     (let timed_out = has_timed_out t now in
      case counted_update timed_out update of
        Inl e \<Rightarrow> (Err e, s)
      | Inr u \<Rightarrow>
          (case updated_row store s w t u of
             (Inl e, s') \<Rightarrow> (Err e, s')
           | (Inr (ident, current), s') \<Rightarrow>
               (case map_err GS_Core (state_update json (next_state timed_out current (tu_state u)) (tu_changes u)) of
                  Inl e \<Rightarrow> (Err e, s')
                | Inr upd \<Rightarrow> write_state store s' w ident current upd)))"

text \<open>The services a completed transaction refreshes; a failing one is recorded and the others still run.\<close>

record post_services =
  ps_balance :: "string \<Rightarrow> asset_id list \<Rightarrow> gem_service_error + unit"
  ps_stake :: "string \<Rightarrow> chain \<Rightarrow> string \<Rightarrow> gem_service_error + unit"
  ps_earn :: "string \<Rightarrow> asset_id \<Rightarrow> string \<Rightarrow> gem_service_error + unit"
  ps_nft :: "string \<Rightarrow> gem_service_error + unit"

definition record_failure ::
  "gem_post_processing_step \<Rightarrow> gem_service_error + unit \<Rightarrow> gem_post_processing_failure list" where
  "record_failure step r = (case r of
       Inl e \<Rightarrow> [\<lparr>pf_step = step, pf_message = service_error_to_string e\<rparr>] | Inr _ \<Rightarrow> [])"

definition post_process ::
  "post_services \<Rightarrow> string \<Rightarrow> transaction \<Rightarrow> transaction_state \<Rightarrow> transaction_state \<Rightarrow> gem_post_processing_failure list" where
  "post_process ps w t previous st = (case post_processing t previous st of
       None \<Rightarrow> []
     | Some p \<Rightarrow> record_failure BalancesStep (ps_balance ps w (pp_balance_asset_ids p))
         @ concat (map (\<lambda>c. record_failure StakeStep (ps_stake ps w c (tx_from t))) (pp_stake_chains p))
         @ concat (map (\<lambda>a. record_failure EarnStep (ps_earn ps w a (tx_from t))) (pp_earn_asset_ids p))
         @ (if pp_sync_nfts p then record_failure NftsStep (ps_nft ps w) else []))"

definition state_service_update ::
  "'f status_env \<Rightarrow> post_services \<Rightarrow> 's transaction_state_store \<Rightarrow> ('f update_metadata \<Rightarrow> string + string)
     \<Rightarrow> 's \<Rightarrow> string \<Rightarrow> transaction \<Rightarrow> int \<Rightarrow> (gem_service_error + gem_transaction_state_result option) \<times> 's" where
  "state_service_update env ps store json s w t now =
     (let update = map_err (\<lambda>e. gateway_error_to_string (gateway_error_from e)) (get_update env now t) in
      case apply_update store json s w t update now of
        (Inl e, s') \<Rightarrow> (Err e, s')
      | (Inr None, s') \<Rightarrow> (Ok None, s')
      | (Inr (Some r), s') \<Rightarrow> (Ok (Some (r\<lparr>tr_failures := post_process ps w t (tx_state t) (tr_state r)\<rparr>)), s'))"

section \<open>The store in memory\<close>

record memory_store =
  ms_states :: "(transaction_id \<times> transaction_state) list"
  ms_updates :: "(transaction_id \<times> gem_transaction_state_update) list"
  ms_renamed :: "(transaction_id \<times> transaction_id) list"
  ms_deleted :: "transaction_id list"

fun set_first_state :: "(transaction_id \<times> transaction_state) list \<Rightarrow> transaction_id \<Rightarrow> transaction_state
    \<Rightarrow> (transaction_id \<times> transaction_state) list option" where
  "set_first_state [] ident st = None"
| "set_first_state ((i, x) # xs) ident st =
     (if i = ident then Some ((i, st) # xs) else map_option ((#) (i, x)) (set_first_state xs ident st))"

definition memory_get_state :: "memory_store \<Rightarrow> transaction_id \<Rightarrow> transaction_state option" where
  "memory_get_state s ident = map_option snd (List.find (\<lambda>(i, _). i = ident) (ms_states s))"

definition memory_rename :: "memory_store \<Rightarrow> transaction_id \<Rightarrow> transaction_id \<Rightarrow> memory_store" where
  "memory_rename s ident new_id = s\<lparr>
     ms_states := map (\<lambda>(i, st). (if i = ident then new_id else i, st)) (ms_states s),
     ms_renamed := ms_renamed s @ [(ident, new_id)]\<rparr>"

definition memory_delete :: "memory_store \<Rightarrow> transaction_id \<Rightarrow> memory_store" where
  "memory_delete s ident = s\<lparr>
     ms_states := filter (\<lambda>(i, _). i \<noteq> ident) (ms_states s), ms_deleted := ms_deleted s @ [ident]\<rparr>"

definition memory_update :: "memory_store \<Rightarrow> transaction_id \<Rightarrow> gem_transaction_state_update \<Rightarrow> bool \<times> memory_store" where
  "memory_update s ident u = (case set_first_state (ms_states s) ident (su_state u) of
       None \<Rightarrow> (False, s)
     | Some xs \<Rightarrow> (True, s\<lparr>ms_states := xs, ms_updates := ms_updates s @ [(ident, u)]\<rparr>))"

definition memory_store_ops :: "memory_store transaction_state_store" where
  "memory_store_ops = \<lparr>ts_get_transaction = (\<lambda>_ _ _. Ok None),
     ts_get_state = (\<lambda>s _ ident. Ok (memory_get_state s ident)),
     ts_rename = (\<lambda>s _ ident new_id. (Ok (), memory_rename s ident new_id)),
     ts_delete = (\<lambda>s _ ident. (Ok (), memory_delete s ident)),
     ts_update = (\<lambda>s _ ident u. (case memory_update s ident u of (found, s') \<Rightarrow> (Ok found, s')))\<rparr>"

section \<open>Facts\<close>

lemma collect_changes_state: "collect_changes json u cs = Inr upd \<Longrightarrow> su_state upd = su_state u"
  by (induction json u cs rule: collect_changes.induct) (auto simp: result_simps)

lemma state_update_state: "state_update json st cs = Inr upd \<Longrightarrow> su_state upd = st"
  using collect_changes_state by (fastforce simp: state_update_def state_update_new_def)

lemma sint_ucast_timeout: "sint (ucast (chain_transaction_timeout c) :: u64) = uint (chain_transaction_timeout c)"
proof -
  have "uint (chain_transaction_timeout c) < 2 ^ 32" using uint_lt2p [of "chain_transaction_timeout c"] by simp
  moreover have "- (2 ^ 63) \<le> uint (chain_transaction_timeout c)" by (rule order.trans [of _ 0]) simp_all
  ultimately have "signed_take_bit 63 (uint (chain_transaction_timeout c)) = uint (chain_transaction_timeout c)"
    by (intro signed_take_bit_int_eq_self) simp_all
  then show ?thesis by (simp add: signed_ucast_eq)
qed

lemma new_hash_filter_eta:
  "new_hash (filter (\<lambda>c. \<not> is_eta c) cs @ [ConfirmationEtaSeconds n]) = new_hash cs"
  by (induction cs rule: new_hash.induct) simp_all

lemma merged_with_keeps:
  "is_completed st \<Longrightarrow> is_completed (merged_with st updated)" "merged_with InTransit updated \<noteq> Pending"
  by (auto simp: merged_with_def split: if_splits)

lemma next_state_keeps:
  "is_completed st \<Longrightarrow> is_completed (next_state timed_out st updated)"
  "next_state timed_out InTransit updated \<noteq> Pending" "is_completed (next_state True st updated)"
  by (auto simp: next_state_def Let_def merged_with_keeps merged_with_def)

section \<open>The contract of a store\<close>

text \<open>
  The rows of a store are the states of a wallet's transactions by their identifier. An operation that
  succeeds reads or changes the row it is about and no other row of the wallet.
\<close>

locale state_store =
  fixes store :: "'s transaction_state_store"
    and row :: "'s \<Rightarrow> string \<Rightarrow> transaction_id \<Rightarrow> transaction_state option"
  assumes get_state: "ts_get_state store s w i = Inr r \<Longrightarrow> r = row s w i"
    and delete_row: "ts_delete store s w i = (Inr x, s') \<Longrightarrow> row s' w = (row s w)(i := None)"
    and rename_row: "ts_rename store s w i j = (Inr x, s') \<Longrightarrow> row s w j = None
          \<Longrightarrow> row s' w = (row s w)(i := None, j := row s w i)"
    and update_row: "ts_update store s w i u = (Inr found, s')
          \<Longrightarrow> found = (row s w i \<noteq> None) \<and> row s' w = (if found then (row s w)(i \<mapsto> su_state u) else row s w)"
begin

lemma rename_rows:
  assumes "rename store s w t hash = (Inr (ident, current), s')" "row s w (tx_id t) = Some (tx_state t)"
    and "ident \<noteq> tx_id t"
  shows "ident = \<lparr>ti_chain = asset_chain (tx_asset_id t), ti_hash = hash\<rparr>
    \<and> current = (case row s w ident of Some e \<Rightarrow> e | None \<Rightarrow> tx_state t)
    \<and> row s' w = (row s w)(tx_id t := None, ident \<mapsto> current)"
proof -
  define j where "j = \<lparr>ti_chain = asset_chain (tx_asset_id t), ti_hash = hash\<rparr>"
  have ident: "ident = j" using assms(1) by (auto simp: rename_def j_def Let_def split: sum.splits option.splits prod.splits)
  obtain r where "ts_get_state store s w j = Inr r"
    using assms(1) by (auto simp: rename_def j_def Let_def split: sum.splits)
  then have r: "ts_get_state store s w j = Inr (row s w j)" using get_state by simp
  show ?thesis
  proof (cases "row s w j")
    case None
    then have "ts_rename store s w (tx_id t) j = (Inr (), s')" "current = tx_state t"
      using assms(1) r by (auto simp: rename_def j_def Let_def split: sum.splits prod.splits)
    then show ?thesis using rename_row None ident j_def assms(2) by auto
  next
    case (Some e)
    then have "ts_delete store s w (tx_id t) = (Inr (), s')" "current = e"
      using assms(1) r by (auto simp: rename_def j_def Let_def split: sum.splits prod.splits)
    then show ?thesis using delete_row Some ident j_def assms(3) by (auto simp: fun_upd_twist)
  qed
qed

lemma updated_rows:
  assumes "updated_row store s w t u = (Inr (ident, current), s')" "row s w (tx_id t) = Some (tx_state t)"
    and "\<forall>h. new_hash (tu_changes u) = Some h \<longrightarrow> tx_id t \<noteq> \<lparr>ti_chain = asset_chain (tx_asset_id t), ti_hash = h\<rparr>"
  shows "ident = (case new_hash (tu_changes u) of None \<Rightarrow> tx_id t
        | Some h \<Rightarrow> \<lparr>ti_chain = asset_chain (tx_asset_id t), ti_hash = h\<rparr>)
    \<and> current = (case row s w ident of Some e \<Rightarrow> e | None \<Rightarrow> tx_state t)
    \<and> row s' w = (row s w)(tx_id t := None, ident \<mapsto> current)"
proof (cases "new_hash (tu_changes u)")
  case None
  then show ?thesis using assms(1,2) by (auto simp: updated_row_def)
next
  case (Some h)
  then have r: "rename store s w t h = (Inr (ident, current), s')" using assms(1) by (simp add: updated_row_def)
  then have "ident = \<lparr>ti_chain = asset_chain (tx_asset_id t), ti_hash = h\<rparr>"
    by (auto simp: rename_def Let_def split: sum.splits option.splits prod.splits)
  then show ?thesis using rename_rows [OF r assms(2)] assms(3) Some by auto
qed

lemma write_rows:
  assumes "write_state store s w ident current upd = (Inr res, s')" "row s w ident = Some current"
  shows "res = Some \<lparr>tr_transaction_id = ident, tr_state = su_state upd, tr_failures = []\<rparr>
    \<and> row s' w = (row s w)(ident \<mapsto> su_state upd)"
proof (cases "su_state upd = current \<and> \<not> has_field_changes upd")
  case True
  then obtain st where st: "ts_get_state store s w ident = Inr st" "s' = s"
    "res = map_option (\<lambda>st. \<lparr>tr_transaction_id = ident, tr_state = st, tr_failures = []\<rparr>) st"
    using assms(1) by (auto simp: write_state_def split: sum.splits)
  then show ?thesis using get_state [OF st(1)] assms(2) True by (simp add: fun_upd_idem)
next
  case False
  then obtain found where f: "ts_update store s w ident upd = (Inr found, s')"
    "res = (if found then Some \<lparr>tr_transaction_id = ident, tr_state = su_state upd, tr_failures = []\<rparr> else None)"
    using assms(1) by (auto simp: write_state_def split: sum.splits prod.splits)
  then show ?thesis using update_row [OF f(1)] assms(2) by simp
qed

text \<open>What an update does to the rows, when it was computed from the stored state.\<close>

lemma apply_rows:
  assumes "apply_update store json s w t update now = (Inr res, s')" "row s w (tx_id t) = Some (tx_state t)"
    and "\<forall>u h. update = Inr u \<and> new_hash (tu_changes u) = Some h
          \<longrightarrow> tx_id t \<noteq> \<lparr>ti_chain = asset_chain (tx_asset_id t), ti_hash = h\<rparr>"
  obtains u ident where "counted_update (has_timed_out t now) update = Inr u"
    "ident = (case new_hash (tu_changes u) of None \<Rightarrow> tx_id t
        | Some h \<Rightarrow> \<lparr>ti_chain = asset_chain (tx_asset_id t), ti_hash = h\<rparr>)"
    "res = Some \<lparr>tr_transaction_id = ident, tr_state = next_state (has_timed_out t now)
        (case row s w ident of Some e \<Rightarrow> e | None \<Rightarrow> tx_state t) (tu_state u), tr_failures = []\<rparr>"
    "row s' w = (row s w)(tx_id t := None, ident \<mapsto> next_state (has_timed_out t now)
        (case row s w ident of Some e \<Rightarrow> e | None \<Rightarrow> tx_state t) (tu_state u))"
proof -
  obtain u where u: "counted_update (has_timed_out t now) update = Inr u"
    using assms(1) by (auto simp: apply_update_def Let_def split: sum.splits)
  have own: "\<forall>h. new_hash (tu_changes u) = Some h \<longrightarrow> tx_id t \<noteq> \<lparr>ti_chain = asset_chain (tx_asset_id t), ti_hash = h\<rparr>"
    using u assms(3) by (auto simp: counted_update_def update_new_state_def split: sum.splits if_splits)
  obtain ident current s1 where row: "updated_row store s w t u = (Inr (ident, current), s1)"
    using assms(1) u by (auto simp: apply_update_def Let_def split: sum.splits prod.splits)
  note rows = updated_rows [OF row assms(2) own]
  let ?st = "next_state (has_timed_out t now) current (tu_state u)"
  obtain upd where upd: "state_update json ?st (tu_changes u) = Inr upd"
    and w: "write_state store s1 w ident current upd = (Inr res, s')"
    using assms(1) u row by (cases "state_update json ?st (tu_changes u)") (auto simp: apply_update_def Let_def)
  have "row s1 w ident = Some current" using rows by simp
  with write_rows [OF w] state_update_state [OF upd] rows show thesis
    by (intro that [of u ident, OF u]) auto
qed

lemma timed_out_completes:
  assumes "state_service_update env ps store json s w t now = (Ok res, s')" "row s w (tx_id t) = Some (tx_state t)"
    and "has_timed_out t now"
    and "\<forall>u h. get_update env now t = Ok u \<and> new_hash (tu_changes u) = Some h
          \<longrightarrow> tx_id t \<noteq> \<lparr>ti_chain = asset_chain (tx_asset_id t), ti_hash = h\<rparr>"
  shows "\<exists>r. res = Some r \<and> is_completed (tr_state r)"
proof -
  let ?update = "map_err (\<lambda>e. gateway_error_to_string (gateway_error_from e)) (get_update env now t)"
  obtain res0 where a: "apply_update store json s w t ?update now = (Ok res0, s')"
    and r: "map_option tr_state res = map_option tr_state res0"
    using assms(1) by (auto simp: state_service_update_def Let_def split: prod.splits sum.splits option.splits)
  have own: "\<forall>u h. ?update = Ok u \<and> new_hash (tu_changes u) = Some h
      \<longrightarrow> tx_id t \<noteq> \<lparr>ti_chain = asset_chain (tx_asset_id t), ti_hash = h\<rparr>"
    using assms(4) by (cases "get_update env now t") auto
  show ?thesis
    by (rule apply_rows [OF a assms(2) own]) (use r assms(3) next_state_keeps(3) in auto)
qed

lemma service_row:
  assumes "state_service_update env ps store json s w t now = (Ok (Some r), s')" "row s w (tx_id t) = Some (tx_state t)"
    and "\<forall>u h. get_update env now t = Ok u \<and> new_hash (tu_changes u) = Some h
          \<longrightarrow> tx_id t \<noteq> \<lparr>ti_chain = asset_chain (tx_asset_id t), ti_hash = h\<rparr>"
  shows "row s' w (tr_transaction_id r) = Some (tr_state r)"
proof -
  let ?update = "map_err (\<lambda>e. gateway_error_to_string (gateway_error_from e)) (get_update env now t)"
  obtain r0 where a: "apply_update store json s w t ?update now = (Ok (Some r0), s')"
    and r: "tr_transaction_id r = tr_transaction_id r0" "tr_state r = tr_state r0"
    using assms(1) by (auto simp: state_service_update_def Let_def split: prod.splits sum.splits option.splits)
  have own: "\<forall>u h. ?update = Ok u \<and> new_hash (tu_changes u) = Some h
      \<longrightarrow> tx_id t \<noteq> \<lparr>ti_chain = asset_chain (tx_asset_id t), ti_hash = h\<rparr>"
    using assms(3) by (cases "get_update env now t") auto
  show ?thesis by (rule apply_rows [OF a assms(2) own]) (use r in auto)
qed

end

text \<open>A store that also answers: no operation on it fails.\<close>

locale answering_store = state_store +
  assumes get_state_answers: "\<exists>r. ts_get_state store s w i = Inr r"
    and delete_answers: "\<exists>x s'. ts_delete store s w i = (Inr x, s')"
    and rename_answers: "\<exists>x s'. ts_rename store s w i j = (Inr x, s')"
    and update_answers: "\<exists>found s'. ts_update store s w i u = (Inr found, s')"
begin

lemma apply_answers:
  assumes "counted_update (has_timed_out t now) update = Ok u" and "\<forall>m. \<exists>j. json m = Ok j"
  shows "\<exists>res s'. apply_update store json s w t update now = (Ok res, s')"
proof -
  have "\<exists>ident current s1. updated_row store s w t u = (Ok (ident, current), s1)"
  proof (cases "new_hash (tu_changes u)")
    case (Some h)
    let ?i = "\<lparr>ti_chain = asset_chain (tx_asset_id t), ti_hash = h\<rparr>"
    obtain st where "ts_get_state store s w ?i = Inr st" using get_state_answers by blast
    moreover obtain x s1 where "ts_delete store s w (tx_id t) = (Inr x, s1)" using delete_answers by blast
    moreover obtain y s2 where "ts_rename store s w (tx_id t) ?i = (Inr y, s2)" using rename_answers by blast
    ultimately show ?thesis using Some by (cases st) (simp_all add: updated_row_def rename_def Let_def)
  qed (simp add: updated_row_def)
  then obtain ident current s1 where row: "updated_row store s w t u = (Ok (ident, current), s1)" by blast
  have "\<exists>upd. collect_changes json v cs = Ok upd" for v cs
    using assms(2)
  proof (induction json v cs rule: collect_changes.induct)
    case (4 json v m cs)
    obtain j where "json m = Ok j" using 4 by blast
    then show ?case using 4 by simp
  qed simp_all
  then obtain upd where upd: "state_update json (next_state (has_timed_out t now) current (tu_state u)) (tu_changes u) = Ok upd"
    by (auto simp: state_update_def)
  obtain st where "ts_get_state store s1 w ident = Inr st" using get_state_answers by blast
  moreover obtain found s2 where "ts_update store s1 w ident upd = (Inr found, s2)" using update_answers by blast
  ultimately show ?thesis using assms(1) row upd by (simp add: apply_update_def write_state_def Let_def)
qed

text \<open>Past the deadline an update returns a result even if the network does not answer.\<close>

lemma service_answers:
  assumes "has_timed_out t now \<or> (\<exists>u. get_update env now t = Ok u)" and "\<forall>m. \<exists>j. json m = Ok j"
  shows "\<exists>res s'. state_service_update env ps store json s w t now = (Ok res, s')"
proof -
  let ?update = "map_err (\<lambda>e. gateway_error_to_string (gateway_error_from e)) (get_update env now t)"
  obtain u where "counted_update (has_timed_out t now) ?update = Ok u"
    using assms(1) by (cases "get_update env now t") (auto simp: counted_update_def)
  then obtain res s' where "apply_update store json s w t ?update now = (Ok res, s')"
    using apply_answers assms(2) by blast
  then show ?thesis by (cases res) (simp_all add: state_service_update_def Let_def)
qed

end

definition memory_row :: "memory_store \<Rightarrow> string \<Rightarrow> transaction_id \<Rightarrow> transaction_state option" where
  "memory_row s w ident = map_of (ms_states s) ident"

lemma memory_get_state_row: "memory_get_state s ident = memory_row s w ident"
proof -
  have "map_option snd (List.find (\<lambda>(i, _). i = ident) xs) = map_of xs ident" for xs :: "(transaction_id \<times> transaction_state) list"
    by (induction xs) auto
  then show ?thesis by (simp add: memory_get_state_def memory_row_def)
qed

lemma map_of_renamed:
  "map_of xs j = None \<Longrightarrow>
     map_of (map (\<lambda>(i, st). (if i = k then j else i, st)) xs) = (map_of xs)(k := None, j := map_of xs k)"
  by (induction xs) (auto split: if_splits)

lemma map_of_deleted: "map_of (filter (\<lambda>(i, _). i \<noteq> k) xs) = (map_of xs)(k := None)"
  by (induction xs) auto

lemma set_first_state_map_of:
  "case set_first_state xs k st of
     None \<Rightarrow> map_of xs k = None | Some ys \<Rightarrow> map_of xs k \<noteq> None \<and> map_of ys = (map_of xs)(k \<mapsto> st)"
  by (induction xs k st rule: set_first_state.induct) (auto split: option.splits)

interpretation memory: answering_store memory_store_ops memory_row
proof unfold_locales
  fix s w i r
  assume "ts_get_state memory_store_ops s w i = Inr r"
  then show "r = memory_row s w i" by (simp add: memory_store_ops_def memory_get_state_row [of s i w])
next
  fix s w i x s'
  assume "ts_delete memory_store_ops s w i = (Inr x, s')"
  then show "memory_row s' w = (memory_row s w)(i := None)"
    by (auto simp: memory_store_ops_def memory_delete_def memory_row_def map_of_deleted)
next
  fix s w i j x s'
  assume "ts_rename memory_store_ops s w i j = (Inr x, s')" "memory_row s w j = None"
  then show "memory_row s' w = (memory_row s w)(i := None, j := memory_row s w i)"
    by (auto simp: memory_store_ops_def memory_rename_def memory_row_def map_of_renamed)
next
  fix s w i u found s'
  assume "ts_update memory_store_ops s w i u = (Inr found, s')"
  then show "found = (memory_row s w i \<noteq> None)
      \<and> memory_row s' w = (if found then (memory_row s w)(i \<mapsto> su_state u) else memory_row s w)"
    using set_first_state_map_of [of "ms_states s" i "su_state u"]
    by (auto simp: memory_store_ops_def memory_update_def memory_row_def split: option.splits)
qed (simp_all add: memory_store_ops_def split: prod.splits)

section \<open>Properties\<close>

text \<open>
  C6: an update moves exactly one row. For a store that keeps its contract, applying an update to a
  transaction whose stored state is the one it was read with, and whose hash is not changed to the hash it
  has, either fails with an error or returns the transaction's identifier and state: the identifier is the
  one the new hash gives, the state is the row's (of the transaction already stored under the new hash, if
  there is one) merged with the update, failed if the transaction has timed out and is not completed by it,
  and the store then holds that state under that identifier, nothing under the old one, and every other row
  as before. No transaction is lost.
\<close>

theorem apply_update_exact:
  assumes "state_store store row" "row s w (tx_id t) = Some (tx_state t)"
    and "apply_update store json s w t update now = (Ok res, s')"
    and "\<forall>u h. update = Ok u \<and> new_hash (tu_changes u) = Some h
          \<longrightarrow> tx_id t \<noteq> \<lparr>ti_chain = asset_chain (tx_asset_id t), ti_hash = h\<rparr>"
  shows "\<exists>u ident st. counted_update (has_timed_out t now) update = Ok u
    \<and> ident = (case new_hash (tu_changes u) of None \<Rightarrow> tx_id t
        | Some h \<Rightarrow> \<lparr>ti_chain = asset_chain (tx_asset_id t), ti_hash = h\<rparr>)
    \<and> st = next_state (has_timed_out t now) (case row s w ident of Some e \<Rightarrow> e | None \<Rightarrow> tx_state t) (tu_state u)
    \<and> res = Some \<lparr>tr_transaction_id = ident, tr_state = st, tr_failures = []\<rparr>
    \<and> row s' w = (row s w)(tx_id t := None, ident \<mapsto> st)"
  by (rule state_store.apply_rows [OF assms(1,3,2,4)]) blast

text \<open>
  C11: polling a transaction's status never takes a finished transaction back. If the service's update returns
  a result, the store holds the result's state; a completed state (the row's own, or that of the row a new
  hash merges it into) stays completed, a transaction in transit never returns to pending, one past its
  deadline is completed, and a changed state is the one the status request answered or, past the deadline,
  \<open>Failed\<close>.
\<close>

theorem service_update_monotone:
  assumes "state_store store row" "row s w (tx_id t) = Some (tx_state t)"
    and "state_service_update env ps store json s w t now = (Ok (Some r), s')"
    and "\<forall>u h. get_update env now t = Ok u \<and> new_hash (tu_changes u) = Some h
          \<longrightarrow> tx_id t \<noteq> \<lparr>ti_chain = asset_chain (tx_asset_id t), ti_hash = h\<rparr>"
    and "before = (case row s w (tr_transaction_id r) of Some e \<Rightarrow> e | None \<Rightarrow> tx_state t)"
  shows "row s' w (tr_transaction_id r) = Some (tr_state r)
    \<and> (is_completed before \<longrightarrow> is_completed (tr_state r))
    \<and> (before = InTransit \<longrightarrow> tr_state r \<noteq> Pending)
    \<and> (has_timed_out t now \<longrightarrow> is_completed (tr_state r))
    \<and> (tr_state r = before \<or> (\<exists>u. get_update env now t = Ok u \<and> tr_state r = tu_state u)
        \<or> has_timed_out t now \<and> tr_state r = Failed)"
proof -
  let ?update = "map_err (\<lambda>e. gateway_error_to_string (gateway_error_from e)) (get_update env now t)"
  obtain r0 where a: "apply_update store json s w t ?update now = (Ok (Some r0), s')"
    and r: "r = r0\<lparr>tr_failures := post_process ps w t (tx_state t) (tr_state r0)\<rparr>"
    using assms(3) by (auto simp: state_service_update_def Let_def split: prod.splits sum.splits option.splits)
  have own: "\<forall>u h. ?update = Ok u \<and> new_hash (tu_changes u) = Some h
      \<longrightarrow> tx_id t \<noteq> \<lparr>ti_chain = asset_chain (tx_asset_id t), ti_hash = h\<rparr>"
    using assms(4) by (cases "get_update env now t") auto
  show ?thesis
  proof (rule state_store.apply_rows [OF assms(1) a assms(2) own])
    fix u :: "'b transaction_update" and ident
    let ?before = "case row s w ident of Some e \<Rightarrow> e | None \<Rightarrow> tx_state t"
    let ?st = "next_state (has_timed_out t now) ?before (tu_state u)"
    assume u: "counted_update (has_timed_out t now) ?update = Inr u"
      and res: "Some r0 = Some \<lparr>tr_transaction_id = ident, tr_state = ?st, tr_failures = []\<rparr>"
      and row: "row s' w = (row s w)(tx_id t := None, ident \<mapsto> ?st)"
    have r': "tr_transaction_id r = ident" "tr_state r = ?st" "before = ?before" using r res assms(5) by auto
    have "?st = ?before \<or> (\<exists>u. get_update env now t = Ok u \<and> ?st = tu_state u) \<or> has_timed_out t now \<and> ?st = Failed"
      using u by (cases "get_update env now t")
        (auto simp: counted_update_def update_new_state_def next_state_def merged_with_def Let_def split: if_splits)
    then show ?thesis unfolding r' by (intro conjI impI) (simp_all add: row next_state_keeps)
  qed
qed

text \<open>
  C15: a cross-chain swap whose confirmation is seen late is stored as failed. Let the transaction that starts
  the swap be first seen confirmed after the source chain's own deadline, but before the deadline of the swap,
  with any changes in the chain's answer (block number, network fee) except a new hash, and let the store
  answer. Then the status request says \<open>InTransit\<close>, as it should; the service's update returns all the same
  with the state \<open>Failed\<close> and the row holds it, because the deadline it checks is that of the pending
  transaction the row still is. Were the row in transit, the same check would say that nothing has timed out.
\<close>

theorem late_swap_stored_failed:
  assumes "answering_store store row" "\<forall>m. \<exists>j. json m = Ok j" "row s w (tx_id t) = Some Pending" "tx_state t = Pending"
    and "swap_route t = Some (p, d)" "is_cross_chain p"
    and "se_chain env (asset_chain (tx_asset_id t)) (state_request t) = Ok u" "tu_state u = Confirmed"
    and "new_hash (tu_changes u) = None"
    and "uint (chain_transaction_timeout (asset_chain (tx_asset_id t))) < num_milliseconds (now - tx_created_at t)"
    and "num_milliseconds (now - tx_created_at t) \<le> sint (swap_transaction_timeout (asset_chain (tx_asset_id t)) d)"
  shows "get_update env now t
      = Ok \<lparr>tu_state = InTransit, tu_changes = filter (\<lambda>c. \<not> is_eta c) (tu_changes u) @ [ConfirmationEtaSeconds 0]\<rparr>
    \<and> \<not> has_timed_out (t\<lparr>tx_state := InTransit\<rparr>) now
    \<and> (\<exists>r s'. state_service_update env ps store json s w t now = (Ok (Some r), s') \<and> tr_transaction_id r = tx_id t
         \<and> tr_state r = Failed \<and> row s' w = (row s w)(tx_id t \<mapsto> Failed))"
proof -
  let ?u = "\<lparr>tu_state = InTransit, tu_changes = filter (\<lambda>c. \<not> is_eta c) (tu_changes u) @ [ConfirmationEtaSeconds 0]\<rparr>"
  have d: "map_option (\<lambda>m. asset_chain (tsm_to_asset m)) (swap_metadata t) = Some d"
    using assms(5) by (auto simp: swap_route_def bind_eq_Some_conv)
  have g: "get_update env now t = Ok ?u"
    using assms(4-8,10,11) by (simp add: get_update_def get_swap_status_def swap_transaction_status_def
        cross_chain_swap_status_def chain_status_def pending_cross_chain_swap_update_def get_transaction_update_def
        transaction_timeout_def merged_with_def state_request_def Let_def)
  have timed: "has_timed_out t now" "\<not> has_timed_out (t\<lparr>tx_state := InTransit\<rparr>) now"
    using assms(4,10,11) d
    by (auto simp: has_timed_out_def destination_chain_def swap_transaction_timeout_def swap_metadata_def Let_def sint_ucast_timeout)
  have h: "new_hash (tu_changes ?u) = None" using assms(9) by (simp add: new_hash_filter_eta)
  obtain res s' where up: "state_service_update env ps store json s w t now = (Ok res, s')"
    using answering_store.service_answers [OF assms(1) _ assms(2)] timed(1) by blast
  obtain res0 where a: "apply_update store json s w t (Ok ?u) now = (Ok res0, s')"
    and r: "map_option tr_state res = map_option tr_state res0"
      "map_option tr_transaction_id res = map_option tr_transaction_id res0"
    using up g by (auto simp: state_service_update_def Let_def split: prod.splits sum.splits option.splits)
  have "map_option tr_state res = Some Failed \<and> map_option tr_transaction_id res = Some (tx_id t)
      \<and> row s' w = (row s w)(tx_id t \<mapsto> Failed)"
    by (rule state_store.apply_rows [OF answering_store.axioms(1) [OF assms(1)] a])
       (use assms(3,4) h timed r in \<open>auto simp: counted_update_def next_state_def merged_with_def\<close>)
  then show ?thesis using g timed(2) up by auto
qed

section \<open>Instances\<close>

definition demo_swap :: transaction where
  "demo_swap = transaction_new ''hash'' \<lparr>asset_chain = Ethereum, token_id = None\<rparr> ''from'' ''to'' None TxSwap Pending 1
     \<lparr>asset_chain = Ethereum, token_id = None\<rparr> 5 None
     (Some (SwapMetadata \<lparr>tsm_from_asset = \<lparr>asset_chain = Ethereum, token_id = None\<rparr>, tsm_from_value = 5,
        tsm_to_asset = \<lparr>asset_chain = Bitcoin, token_id = None\<rparr>, tsm_to_value = 4, tsm_provider = Some ''thorchain''\<rparr>)) 0"

definition demo_rows :: memory_store where
  "demo_rows = \<lparr>ms_states = [(tx_id demo_swap, Pending)], ms_updates = [], ms_renamed = [], ms_deleted = []\<rparr>"

definition demo_json :: "unit update_metadata \<Rightarrow> string + string" where
  "demo_json m = Ok ''{}''"

text \<open>The answer of an EVM chain's client for a receipt, and a network that cannot be reached.\<close>

definition demo_receipt :: "unit transaction_update" where
  "demo_receipt = \<lparr>tu_state = Confirmed, tu_changes = [BlockNumber ''291'', NetworkFee 420000000000000]\<rparr>"

definition demo_offline :: "unit status_env" where
  "demo_offline = \<lparr>se_chain = (\<lambda>_ _. Err Offline), se_swap = (\<lambda>_ _ _. Err ''unavailable'')\<rparr>"

definition demo_status :: "unit status_env" where
  "demo_status = \<lparr>se_chain = (\<lambda>_ _. Ok demo_receipt), se_swap = (\<lambda>_ _ _. Err ''unavailable'')\<rparr>"

definition demo_services :: post_services where
  "demo_services = \<lparr>ps_balance = (\<lambda>_ _. Ok ()), ps_stake = (\<lambda>_ _ _. Ok ()), ps_earn = (\<lambda>_ _ _. Ok ()), ps_nft = (\<lambda>_. Ok ())\<rparr>"

lemma demo_row: "memory_row demo_rows w (tx_id demo_swap) = Some Pending" "tx_state demo_swap = Pending"
  by (simp_all add: demo_rows_def memory_row_def demo_swap_def transaction_new_def)

lemma demo_timeouts:
  "uint (chain_transaction_timeout Ethereum) = 1440000" "sint (swap_transaction_timeout Ethereum Bitcoin) \<ge> 86400000"
  by code_simp+

lemma demo_json_total: "\<forall>m. \<exists>j. demo_json m = Ok j"
  by (simp add: demo_json_def)

theorem apply_update_exact_witness:
  "\<exists>res s'. apply_update memory_store_ops demo_json demo_rows ''wallet'' demo_swap
       (Ok \<lparr>tu_state = Confirmed, tu_changes = [HashChange ''hash'' ''other'']\<rparr>) 0 = (Ok res, s')
     \<and> memory_row s' ''wallet'' \<lparr>ti_chain = Ethereum, ti_hash = ''other''\<rparr> = Some Confirmed
     \<and> memory_row s' ''wallet'' (tx_id demo_swap) = None"
proof -
  let ?u = "\<lparr>tu_state = Confirmed, tu_changes = [HashChange ''hash'' ''other'']\<rparr> :: unit transaction_update"
  have counted: "counted_update (has_timed_out demo_swap 0) (Ok ?u) = Ok ?u" by (simp add: counted_update_def)
  obtain res s' where a: "apply_update memory_store_ops demo_json demo_rows ''wallet'' demo_swap (Ok ?u) 0 = (Ok res, s')"
    using memory.apply_answers [OF counted demo_json_total] by blast
  have ids: "asset_chain (tx_asset_id demo_swap) = Ethereum" "tx_id demo_swap = \<lparr>ti_chain = Ethereum, ti_hash = ''hash''\<rparr>"
    by (simp_all add: demo_swap_def transaction_new_def)
  have "memory_row s' ''wallet'' \<lparr>ti_chain = Ethereum, ti_hash = ''other''\<rparr> = Some Confirmed
     \<and> memory_row s' ''wallet'' (tx_id demo_swap) = None"
    using apply_update_exact [OF memory.state_store_axioms _ a] demo_row ids
    by (auto simp: counted_update_def next_state_def merged_with_def)
  then show ?thesis using a by blast
qed

lemma demo_swap_facts:
  "swap_route demo_swap = Some (ThorchainProvider, Bitcoin)" "is_cross_chain ThorchainProvider"
  "asset_chain (tx_asset_id demo_swap) = Ethereum" "tx_created_at demo_swap = 0"
  by code_simp+

lemma demo_late: "get_update demo_status 1800000000000 demo_swap
    = Ok \<lparr>tu_state = InTransit, tu_changes = [BlockNumber ''291'', NetworkFee 420000000000000, ConfirmationEtaSeconds 0]\<rparr>"
  using demo_swap_facts demo_timeouts demo_row(2)
  by (simp add: get_update_def get_swap_status_def swap_transaction_status_def cross_chain_swap_status_def chain_status_def
      pending_cross_chain_swap_update_def get_transaction_update_def transaction_timeout_def merged_with_def
      state_request_def demo_status_def demo_receipt_def num_milliseconds_def Let_def)

lemma demo_timed_out: "has_timed_out demo_swap 1800000000000"
  using demo_swap_facts demo_timeouts demo_row(2)
  by (simp add: has_timed_out_def destination_chain_def swap_transaction_timeout_def sint_ucast_timeout num_milliseconds_def Let_def)

theorem service_update_monotone_witness:
  "\<exists>r s'. state_service_update demo_status demo_services memory_store_ops demo_json demo_rows ''wallet'' demo_swap 1800000000000
       = (Ok (Some r), s') \<and> is_completed (tr_state r)"
proof -
  obtain res s' where a: "state_service_update demo_status demo_services memory_store_ops demo_json demo_rows ''wallet''
      demo_swap 1800000000000 = (Ok res, s')"
    using memory.service_answers [OF _ demo_json_total] demo_timed_out by blast
  obtain r where r: "res = Some r" using memory.timed_out_completes [OF a _ demo_timed_out] demo_row demo_late by auto
  show ?thesis
    using service_update_monotone [OF memory.state_store_axioms _ a [unfolded r]] demo_row demo_late demo_timed_out a r by auto
qed

theorem late_swap_stored_failed_witness:
  "\<exists>r s'. state_service_update demo_status demo_services memory_store_ops demo_json demo_rows ''wallet'' demo_swap 1800000000000
       = (Ok (Some r), s') \<and> tr_state r = Failed \<and> memory_row s' ''wallet'' (tx_id demo_swap) = Some Failed"
  using late_swap_stored_failed [OF memory.answering_store_axioms demo_json_total, of demo_rows "''wallet''" demo_swap ThorchainProvider
      Bitcoin demo_status demo_receipt 1800000000000 demo_services]
    demo_row demo_swap_facts demo_timeouts
  by (auto simp: demo_status_def demo_receipt_def num_milliseconds_def)

end
