(* ===== verification/Transaction_Tracking.thy ===== *)
theory Transaction_Tracking
  imports Transaction_Status
begin

text \<open>
  Tracking pending transactions (\<open>gemstone/src/services/transaction_state/tracker.rs\<close>). Every transaction is
  polled by a task of its own; the tasks share the table of who polls what and run interleaved, switching
  where they await: while sleeping, during an update, while reading the store. The parts of \<open>poll\<close> between two
  awaits are the steps of a transition system, whose events are arbitrary answers of the updater and the store.
\<close>

section \<open>Intervals\<close>

text \<open>
  The factor is a binary floating point number, kept as the fraction it is. The product with an interval below
  \<open>2 ^ 29\<close> is exact in double precision; the cast truncates and saturates.
\<close>

record job_configuration =
  jc_initial_interval_ms :: u32
  jc_max_interval_ms :: u32
  jc_step_factor :: "nat \<times> nat"

definition job_configuration_default :: job_configuration where
  "job_configuration_default =
     \<lparr>jc_initial_interval_ms = 5000, jc_max_interval_ms = 60000, jc_step_factor = (9227469, 8388608)\<rparr>"

definition clamp :: "u32 \<Rightarrow> u32 \<Rightarrow> u32 \<Rightarrow> u32" where
  "clamp x lo hi = (if x < lo then lo else if hi < x then hi else x)"

definition transaction_state_configuration :: "chain \<Rightarrow> job_configuration" where
  "transaction_state_configuration c =
     (let cfg = job_configuration_default in
      cfg\<lparr>jc_initial_interval_ms := clamp (block_time c) 1 (jc_initial_interval_ms cfg)\<rparr>)"

definition next_interval_ms :: "job_configuration \<Rightarrow> u32 \<Rightarrow> u32" where
  "next_interval_ms cfg current =
     (let hi = max (jc_max_interval_ms cfg) (jc_initial_interval_ms cfg);
          next = word_of_nat (min (2 ^ 32 - 1) (unat current * fst (jc_step_factor cfg) div snd (jc_step_factor cfg)))
      in clamp next (jc_initial_interval_ms cfg) hi)"

definition max_interval_steps :: "job_configuration \<Rightarrow> u32" where
  "max_interval_steps cfg =
     (let a = max (jc_max_interval_ms cfg) (jc_initial_interval_ms cfg); b = max (jc_initial_interval_ms cfg) 1
      in a div b + (if a mod b = 0 then 0 else 1))"

section \<open>Who polls what\<close>

record tracking_state =
  last_poll :: u64
  polls :: "transaction_id \<rightharpoonup> u64"

definition tracking_default :: tracking_state where
  "tracking_default = \<lparr>last_poll = 0, polls = Map.empty\<rparr>"

definition start_tracking :: "tracking_state \<Rightarrow> transaction_id \<Rightarrow> (u64 \<times> tracking_state) option" where
  "start_tracking st ident =
     (if polls st ident \<noteq> None then None
      else let poll = last_poll st + 1 in Some (poll, \<lparr>last_poll = poll, polls = (polls st)(ident \<mapsto> poll)\<rparr>))"

definition cancel_tracking :: "tracking_state \<Rightarrow> tracking_state" where
  "cancel_tracking st = st\<lparr>polls := Map.empty\<rparr>"

definition is_tracking :: "tracking_state \<Rightarrow> u64 \<Rightarrow> bool" where
  "is_tracking st poll \<longleftrightarrow> poll \<in> ran (polls st)"

definition follow :: "tracking_state \<Rightarrow> u64 \<Rightarrow> transaction_id \<Rightarrow> tracking_state" where
  "follow st poll ident = st\<lparr>polls := (polls st)(ident \<mapsto> poll)\<rparr>"

definition drop_tracked :: "tracking_state \<Rightarrow> u64 \<Rightarrow> tracking_state" where
  "drop_tracked st poll = st\<lparr>polls := (\<lambda>ident. if polls st ident = Some poll then None else polls st ident)\<rparr>"

section \<open>The polling tasks\<close>

text \<open>Where a task awaits: its sleep, its update, the store's answer for an identifier.\<close>

datatype poll_phase = Sleeping | Updating | Fetching transaction_id

record poller =
  po_wallet :: string
  po_config :: job_configuration
  po_current :: transaction
  po_interval :: u32
  po_phase :: poll_phase

record poll_system =
  sys_tracking :: tracking_state
  sys_pollers :: "u64 \<rightharpoonup> poller"

definition poll_system_default :: poll_system where
  "poll_system_default = \<lparr>sys_tracking = tracking_default, sys_pollers = Map.empty\<rparr>"

text \<open>The end of a task, at a \<open>break\<close> or when its future is dropped, drops what it tracks.\<close>

definition end_poll :: "poll_system \<Rightarrow> u64 \<Rightarrow> poll_system" where
  "end_poll sys p = \<lparr>sys_tracking = drop_tracked (sys_tracking sys) p, sys_pollers = (sys_pollers sys)(p := None)\<rparr>"

definition set_poller :: "poll_system \<Rightarrow> u64 \<Rightarrow> poller \<Rightarrow> poll_system" where
  "set_poller sys p po = sys\<lparr>sys_pollers := (sys_pollers sys)(p \<mapsto> po)\<rparr>"

definition poll_begin :: "poll_system \<Rightarrow> string \<Rightarrow> transaction \<Rightarrow> poll_system" where
  "poll_begin sys w t =
     (let cfg = transaction_state_configuration (asset_chain (tx_asset_id t)) in
      case start_tracking (sys_tracking sys) (tx_id t) of
        None \<Rightarrow> sys
      | Some (p, st) \<Rightarrow> set_poller (sys\<lparr>sys_tracking := st\<rparr>) p
          \<lparr>po_wallet = w, po_config = cfg, po_current = t, po_interval = jc_initial_interval_ms cfg, po_phase = Sleeping\<rparr>)"

definition poll_wake :: "poll_system \<Rightarrow> u64 \<Rightarrow> poller \<Rightarrow> poll_system" where
  "poll_wake sys p po =
     (if \<not> is_tracking (sys_tracking sys) p then end_poll sys p
      else set_poller sys p (po\<lparr>po_interval := next_interval_ms (po_config po) (po_interval po), po_phase := Updating\<rparr>))"

definition poll_updated ::
  "poll_system \<Rightarrow> u64 \<Rightarrow> poller \<Rightarrow> gem_service_error + gem_transaction_state_result option \<Rightarrow> poll_system" where
  "poll_updated sys p po result = (case result of
       Inr (Some r) \<Rightarrow>
         (let st = (if tr_transaction_id r \<noteq> tx_id (po_current po)
                    then follow (sys_tracking sys) p (tr_transaction_id r) else sys_tracking sys)
          in set_poller (sys\<lparr>sys_tracking := st\<rparr>) p (po\<lparr>po_phase := Fetching (tr_transaction_id r)\<rparr>))
     | Inr None \<Rightarrow> end_poll sys p
     | Inl _ \<Rightarrow> set_poller sys p (po\<lparr>po_phase := Sleeping\<rparr>))"

definition poll_fetched :: "poll_system \<Rightarrow> u64 \<Rightarrow> poller \<Rightarrow> gem_service_error + transaction option \<Rightarrow> poll_system" where
  "poll_fetched sys p po stored = (case stored of
       Inr (Some t) \<Rightarrow>
         if is_completed (tx_state t) then end_poll sys p
         else set_poller sys p (po\<lparr>po_current := t, po_phase := Sleeping\<rparr>)
     | _ \<Rightarrow> end_poll sys p)"

definition stop_tracking :: "poll_system \<Rightarrow> poll_system" where
  "stop_tracking sys = sys\<lparr>sys_tracking := cancel_tracking (sys_tracking sys)\<rparr>"

datatype track_event =
    StartPoll string transaction
  | StopTracking
  | Wake u64
  | Updated u64 "gem_service_error + gem_transaction_state_result option"
  | Fetched u64 "gem_service_error + transaction option"
  | Abort u64

text \<open>
  \<open>track\<close> starts a poll for each transaction once their assets are enabled, \<open>track_pending\<close> for each pending one
  of the store; a poll begins at once and then waits for its turn.
\<close>

definition enable_transaction_assets ::
  "(string \<Rightarrow> asset_id list \<Rightarrow> gem_service_error + unit) \<Rightarrow> string \<Rightarrow> transaction list \<Rightarrow> gem_service_error + unit" where
  "enable_transaction_assets set_enabled w ts =
     (let ids = assets_to_enable ts in if ids = [] then Ok () else set_enabled w ids)"

definition track ::
  "(string \<Rightarrow> asset_id list \<Rightarrow> gem_service_error + unit) \<Rightarrow> string \<Rightarrow> transaction list \<Rightarrow> gem_service_error + track_event list" where
  "track set_enabled w ts = and_then (enable_transaction_assets set_enabled w ts) (\<lambda>_. Ok (map (StartPoll w) ts))"

definition track_pending ::
  "gem_service_error + (wallet \<times> transaction) list \<Rightarrow> gem_service_error + track_event list" where
  "track_pending pending = and_then pending (\<lambda>ps. Ok (map (\<lambda>(w, t). StartPoll (wallet_id w) t) ps))"

inductive track_step :: "poll_system \<Rightarrow> track_event \<Rightarrow> poll_system \<Rightarrow> bool" where
  start: "track_step sys (StartPoll w t) (poll_begin sys w t)"
| stop: "track_step sys StopTracking (stop_tracking sys)"
| wake: "sys_pollers sys p = Some po \<Longrightarrow> po_phase po = Sleeping \<Longrightarrow> track_step sys (Wake p) (poll_wake sys p po)"
| updated: "sys_pollers sys p = Some po \<Longrightarrow> po_phase po = Updating
    \<Longrightarrow> track_step sys (Updated p result) (poll_updated sys p po result)"
| fetched: "sys_pollers sys p = Some po \<Longrightarrow> po_phase po = Fetching ident
    \<Longrightarrow> track_step sys (Fetched p stored) (poll_fetched sys p po stored)"
| abort: "sys_pollers sys p = Some po \<Longrightarrow> track_step sys (Abort p) (end_poll sys p)"

inductive_cases track_step_cases: "track_step sys e sys'"

inductive track_run :: "track_event list \<Rightarrow> poll_system \<Rightarrow> bool" where
  none: "track_run [] poll_system_default"
| step: "track_run es sys \<Longrightarrow> track_step sys e sys' \<Longrightarrow> track_run (es @ [e]) sys'"

section \<open>The invariant\<close>

text \<open>
  The polls are numbered from one in the order they start; a transaction belongs to a task that is still
  running; a task's next sleep is between the initial and the longest interval, never zero and at most a minute.
\<close>

definition interval_ok :: "poller \<Rightarrow> bool" where
  "interval_ok po \<longleftrightarrow>
     (\<exists>c. po_config po = transaction_state_configuration c)
     \<and> jc_initial_interval_ms (po_config po) \<le> po_interval po \<and> po_interval po \<le> 60000"

definition tracking_inv :: "nat \<Rightarrow> poll_system \<Rightarrow> bool" where
  "tracking_inv n sys \<longleftrightarrow>
     unat (last_poll (sys_tracking sys)) \<le> n
     \<and> (\<forall>p \<in> dom (sys_pollers sys). 0 < p \<and> p \<le> last_poll (sys_tracking sys))
     \<and> ran (polls (sys_tracking sys)) \<subseteq> dom (sys_pollers sys)
     \<and> (\<forall>po \<in> ran (sys_pollers sys). interval_ok po)"

section \<open>Facts\<close>

lemma clamp_bounds: "lo \<le> hi \<Longrightarrow> lo \<le> clamp x lo hi \<and> clamp x lo hi \<le> hi"
  by (auto simp: clamp_def not_less)

lemma transaction_state_configuration_bounds:
  "1 \<le> jc_initial_interval_ms (transaction_state_configuration c)"
  "jc_initial_interval_ms (transaction_state_configuration c) \<le> 5000"
  "jc_max_interval_ms (transaction_state_configuration c) = 60000"
  using clamp_bounds [of 1 5000 "block_time c"]
  by (simp_all add: transaction_state_configuration_def job_configuration_default_def Let_def)

lemma next_interval_ms_bounds:
  "jc_initial_interval_ms cfg \<le> next_interval_ms cfg current"
  "next_interval_ms cfg current \<le> max (jc_max_interval_ms cfg) (jc_initial_interval_ms cfg)"
  using clamp_bounds [of "jc_initial_interval_ms cfg" "max (jc_max_interval_ms cfg) (jc_initial_interval_ms cfg)"]
  by (simp_all add: next_interval_ms_def Let_def)

lemma interval_ok_next:
  assumes "interval_ok po"
  shows "interval_ok (po\<lparr>po_interval := next_interval_ms (po_config po) (po_interval po)\<rparr>)"
proof -
  obtain c where c: "po_config po = transaction_state_configuration c" using assms by (auto simp: interval_ok_def)
  have "jc_initial_interval_ms (transaction_state_configuration c) \<le> 60000"
    by (rule order.trans [OF transaction_state_configuration_bounds(2)]) simp
  then have "max (jc_max_interval_ms (po_config po)) (jc_initial_interval_ms (po_config po)) = 60000"
    by (simp add: c transaction_state_configuration_bounds max_def)
  then show ?thesis using c next_interval_ms_bounds [of "po_config po" "po_interval po"] by (auto simp: interval_ok_def)
qed

lemma interval_ok_simps [simp]:
  "interval_ok (po\<lparr>po_phase := ph\<rparr>) = interval_ok po" "interval_ok (po\<lparr>po_current := t\<rparr>) = interval_ok po"
  by (simp_all add: interval_ok_def)

lemma next_poll_fresh:
  assumes "unat (l :: u64) \<le> n" "Suc n < 2 ^ 64"
  shows "l < l + 1" "unat (l + 1) = Suc (unat l)"
proof -
  have "unat l + 1 < 2 ^ LENGTH(64)" using assms by simp
  then show u: "unat (l + 1) = Suc (unat l)" by (simp add: unat_word_ariths)
  show "l < l + 1" using u by (simp add: word_less_nat_alt)
qed

text \<open>The three ways a step changes the tasks keep the invariant.\<close>

lemma end_poll_inv: "tracking_inv n sys \<Longrightarrow> tracking_inv n (end_poll sys p)"
  by (auto simp: tracking_inv_def end_poll_def drop_tracked_def ran_def split: if_splits)

lemma ran_upd_subset: "ran (m(k \<mapsto> v)) \<subseteq> insert v (ran m)"
  by (auto simp: ran_def split: if_splits)

lemma set_poller_inv:
  assumes "tracking_inv n sys" "p \<in> dom (sys_pollers sys)" "interval_ok po"
    and "ran (polls st) \<subseteq> insert p (ran (polls (sys_tracking sys)))" "last_poll st = last_poll (sys_tracking sys)"
  shows "tracking_inv n (set_poller (sys\<lparr>sys_tracking := st\<rparr>) p po)"
proof -
  have "ran ((sys_pollers sys)(p \<mapsto> po)) \<subseteq> insert po (ran (sys_pollers sys))" by (rule ran_upd_subset)
  moreover have "dom ((sys_pollers sys)(p \<mapsto> po)) = dom (sys_pollers sys)" using assms(2) by auto
  ultimately show ?thesis using assms unfolding tracking_inv_def set_poller_def by auto
qed

lemma keep_poller_inv:
  assumes "tracking_inv n sys" "p \<in> dom (sys_pollers sys)" "interval_ok po"
  shows "tracking_inv n (set_poller sys p po)"
    and "tracking_inv n (set_poller (sys\<lparr>sys_tracking := follow (sys_tracking sys) p i\<rparr>) p po)"
  using set_poller_inv [OF assms, of "sys_tracking sys"] set_poller_inv [OF assms, of "follow (sys_tracking sys) p i"]
  by (simp_all add: subset_insertI follow_def ran_upd_subset)

lemma poll_begin_inv:
  assumes "tracking_inv n sys" "Suc n < 2 ^ 64"
  shows "tracking_inv (Suc n) (poll_begin sys w t)"
proof (cases "start_tracking (sys_tracking sys) (tx_id t)")
  case None
  then show ?thesis using assms(1) by (auto simp: poll_begin_def tracking_inv_def)
next
  case (Some pst)
  let ?l = "last_poll (sys_tracking sys)"
  have l: "unat ?l \<le> n" using assms(1) by (simp add: tracking_inv_def)
  note fresh = next_poll_fresh [OF l assms(2)]
  have "0 < ?l + 1" using fresh(1) by (meson order.strict_trans1 word_zero_le)
  moreover have "p \<le> ?l \<Longrightarrow> p \<le> ?l + 1" for p using fresh(1) by simp
  moreover have "interval_ok \<lparr>po_wallet = w, po_config = transaction_state_configuration c, po_current = t,
      po_interval = jc_initial_interval_ms (transaction_state_configuration c), po_phase = Sleeping\<rparr>" for c
    using order.trans [OF transaction_state_configuration_bounds(2) [of c], of 60000] by (auto simp: interval_ok_def)
  ultimately show ?thesis
    using assms(1) Some fresh(2) l ran_upd_subset [of "polls (sys_tracking sys)" "tx_id t" "?l + 1"]
      ran_upd_subset [of "sys_pollers sys" "?l + 1"]
    unfolding poll_begin_def start_tracking_def set_poller_def tracking_inv_def Let_def
    by (auto split: if_splits) blast+
qed

lemma track_step_inv:
  assumes "track_step sys e sys'" "tracking_inv n sys" "Suc n < 2 ^ 64"
  shows "tracking_inv (Suc n) sys'"
proof -
  have up: "tracking_inv n s \<Longrightarrow> tracking_inv (Suc n) s" for s by (auto simp: tracking_inv_def)
  show ?thesis using assms(1)
  proof (cases rule: track_step.cases)
    case (start w t)
    then show ?thesis using poll_begin_inv assms(2,3) by simp
  next
    case stop
    then show ?thesis using assms(2) by (auto simp: stop_tracking_def cancel_tracking_def tracking_inv_def)
  next
    case (wake p po)
    then have "interval_ok po" "p \<in> dom (sys_pollers sys)" using assms(2) by (auto simp: tracking_inv_def ranI)
    then show ?thesis unfolding wake(2) poll_wake_def
      by (simp add: up end_poll_inv keep_poller_inv interval_ok_next assms(2))
  next
    case (updated p po result)
    then have "interval_ok po" "p \<in> dom (sys_pollers sys)" using assms(2) by (auto simp: tracking_inv_def ranI)
    then show ?thesis unfolding updated(2) poll_updated_def Let_def
      by (simp add: up end_poll_inv keep_poller_inv assms(2) split: sum.split option.split)
  next
    case (fetched p po ident stored)
    then have "interval_ok po" "p \<in> dom (sys_pollers sys)" using assms(2) by (auto simp: tracking_inv_def ranI)
    then show ?thesis unfolding fetched(2) poll_fetched_def
      by (simp add: up end_poll_inv keep_poller_inv assms(2) split: sum.split option.split)
  next
    case (abort p po)
    then show ?thesis using up end_poll_inv assms(2) by simp
  qed
qed

lemma track_run_inv: "track_run es sys \<Longrightarrow> length es < 2 ^ 64 \<Longrightarrow> tracking_inv (length es) sys"
proof (induction rule: track_run.induct)
  case none
  then show ?case by (simp add: tracking_inv_def poll_system_default_def tracking_default_def)
next
  case (step es sys e sys')
  then show ?case using track_step_inv by simp
qed

text \<open>What one step takes from a task other than its own.\<close>

definition event_poll :: "poll_system \<Rightarrow> track_event \<Rightarrow> u64 option" where
  "event_poll sys e = (case e of Wake p \<Rightarrow> Some p | Updated p _ \<Rightarrow> Some p | Fetched p _ \<Rightarrow> Some p | Abort p \<Rightarrow> Some p | _ \<Rightarrow> None)"

lemma step_keeps_others:
  assumes "track_step sys e sys'" "tracking_inv n sys" "Suc n < 2 ^ 64"
    and "polls (sys_tracking sys) ident = Some q" "event_poll sys e \<noteq> Some q"
  shows "polls (sys_tracking sys') ident = Some q \<or> e = StopTracking
     \<or> (\<exists>p r. e = Updated p (Ok (Some r)) \<and> tr_transaction_id r = ident)"
  using assms(1)
proof (cases rule: track_step.cases)
  case (start w t)
  then show ?thesis using assms(4)
    by (auto simp: poll_begin_def start_tracking_def set_poller_def Let_def)
next
  case (updated p po result)
  then show ?thesis using assms(4,5)
    by (auto simp: event_poll_def poll_updated_def end_poll_def drop_tracked_def set_poller_def follow_def Let_def
        split: sum.splits option.splits if_splits)
qed (use assms(4,5) in \<open>auto simp: event_poll_def poll_wake_def poll_fetched_def end_poll_def drop_tracked_def set_poller_def
        split: sum.splits option.splits if_splits\<close>)

lemma step_keeps_poller:
  assumes "track_step sys e sys'" "tracking_inv n sys" "Suc n < 2 ^ 64"
    and "sys_pollers sys q = Some po" "event_poll sys e \<noteq> Some q"
  shows "sys_pollers sys' q = Some po"
proof -
  have "unat (last_poll (sys_tracking sys)) \<le> n" "q \<le> last_poll (sys_tracking sys)"
    using assms(2,4) by (auto simp: tracking_inv_def)
  then have "q \<noteq> last_poll (sys_tracking sys) + 1" using next_poll_fresh(1) [OF _ assms(3)] by fastforce
  with assms(1) show ?thesis
    by (cases rule: track_step.cases)
       (use assms(4,5) in \<open>auto simp: event_poll_def poll_begin_def start_tracking_def stop_tracking_def poll_wake_def
          poll_updated_def poll_fetched_def end_poll_def set_poller_def Let_def split: sum.splits option.splits if_splits\<close>)
qed

text \<open>Starting polls for a list of transactions: each is then polled, by its owner or by a task of its own.\<close>

lemma poll_begin_cases:
  assumes "tracking_inv n sys" "Suc n < 2 ^ 64"
  obtains (owned) p where "polls (sys_tracking sys) (tx_id t) = Some p" "poll_begin sys w t = sys"
  | (fresh) p po where "polls (sys_tracking sys) (tx_id t) = None" "sys_pollers sys p = None"
      "polls (sys_tracking (poll_begin sys w t)) = (polls (sys_tracking sys))(tx_id t \<mapsto> p)"
      "sys_pollers (poll_begin sys w t) = (sys_pollers sys)(p \<mapsto> po)"
      "po_wallet po = w" "po_current po = t" "po_phase po = Sleeping"
proof (cases "polls (sys_tracking sys) (tx_id t)")
  case None
  let ?l = "last_poll (sys_tracking sys)"
  have "?l < ?l + 1" using assms by (intro next_poll_fresh) (auto simp: tracking_inv_def)
  then have "?l + 1 \<notin> dom (sys_pollers sys)" using assms(1) unfolding tracking_inv_def by (meson leD)
  then have "sys_pollers sys (?l + 1) = None" by (simp add: domIff)
  with None show thesis
    by (intro fresh [OF None, of "?l + 1"]) (auto simp: poll_begin_def start_tracking_def set_poller_def Let_def)
qed (use owned in \<open>auto simp: poll_begin_def start_tracking_def\<close>)

lemma track_run_starts:
  assumes "track_run es sys" "length es + length ts < 2 ^ 64 - 1"
  shows "\<exists>sys'. track_run (es @ map (StartPoll w) ts) sys' \<and> sys_pollers sys \<subseteq>\<^sub>m sys_pollers sys'
     \<and> polls (sys_tracking sys) \<subseteq>\<^sub>m polls (sys_tracking sys')
     \<and> (\<forall>t \<in> set ts. \<exists>p po. polls (sys_tracking sys') (tx_id t) = Some p \<and> sys_pollers sys' p = Some po
          \<and> (polls (sys_tracking sys) (tx_id t) = None \<longrightarrow>
               po_wallet po = w \<and> po_phase po = Sleeping \<and> po_current po \<in> set ts \<and> tx_id (po_current po) = tx_id t))"
  using assms
proof (induction ts arbitrary: es sys)
  case (Cons t ts)
  have inv: "tracking_inv (length es) sys" using track_run_inv [OF Cons.prems(1)] Cons.prems(2) by simp
  have run: "track_run (es @ [StartPoll w t]) (poll_begin sys w t)"
    by (rule track_run.step [OF Cons.prems(1) track_step.start])
  obtain sys' where sys': "track_run (es @ StartPoll w t # map (StartPoll w) ts) sys'"
      "sys_pollers (poll_begin sys w t) \<subseteq>\<^sub>m sys_pollers sys'"
      "polls (sys_tracking (poll_begin sys w t)) \<subseteq>\<^sub>m polls (sys_tracking sys')"
      and polled: "\<And>t'. t' \<in> set ts \<Longrightarrow> \<exists>p po. polls (sys_tracking sys') (tx_id t') = Some p \<and> sys_pollers sys' p = Some po
          \<and> (polls (sys_tracking (poll_begin sys w t)) (tx_id t') = None \<longrightarrow>
               po_wallet po = w \<and> po_phase po = Sleeping \<and> po_current po \<in> set ts \<and> tx_id (po_current po) = tx_id t')"
    using Cons.IH [OF run] Cons.prems(2) by auto
  have small: "Suc (length es) < 2 ^ 64" using Cons.prems(2) by simp
  from inv small show ?case
  proof (cases rule: poll_begin_cases [where t = t and w = w])
    case (owned p)
    obtain po where "sys_pollers sys p = Some po" using inv owned(1) by (auto simp: tracking_inv_def ran_def)
    then have "polls (sys_tracking sys') (tx_id t) = Some p" "sys_pollers sys' p = Some po"
      using owned sys'(2,3) by (auto simp: map_le_def dom_def)
    then show ?thesis using sys' polled owned by fastforce
  next
    case (fresh p po)
    have new: "polls (sys_tracking sys') (tx_id t) = Some p" "sys_pollers sys' p = Some po"
      using fresh(3,4) sys'(2,3) by (auto simp: map_le_def dom_def split: if_splits)
    have "sys_pollers sys \<subseteq>\<^sub>m sys_pollers sys'" "polls (sys_tracking sys) \<subseteq>\<^sub>m polls (sys_tracking sys')"
      using fresh(1-4) sys'(2,3) by (auto simp: map_le_def dom_def split: if_splits)
    moreover have "\<exists>q po'. polls (sys_tracking sys') (tx_id t') = Some q \<and> sys_pollers sys' q = Some po'
        \<and> (polls (sys_tracking sys) (tx_id t') = None \<longrightarrow> po_wallet po' = w \<and> po_phase po' = Sleeping
            \<and> po_current po' \<in> set (t # ts) \<and> tx_id (po_current po') = tx_id t')" if t': "t' \<in> set (t # ts)" for t'
    proof (cases "tx_id t' = tx_id t")
      case True
      then show ?thesis using new fresh(5-7) by auto
    next
      case False
      then show ?thesis using t' polled [of t'] fresh(3) by auto
    qed
    ultimately show ?thesis using sys'(1) by auto
  qed
next
  case Nil
  then show ?case by auto
qed

section \<open>Properties\<close>

text \<open>
  C7: the table of polls is sound in every interleaving. After any sequence of fewer than \<open>2 ^ 64 - 1\<close> events
  every transaction in the table belongs to a task that is still running, so no transaction stays blocked by a
  task that ended, was stopped or was dropped; every task sleeps at least a millisecond and at most a minute;
  and starting to track a transaction nobody owns gives it to a new task with a number no running task has,
  while one that is owned is left to its owner.
\<close>

theorem tracking_sound:
  assumes "track_run es sys" "Suc (length es) < 2 ^ 64"
  shows "(\<forall>ident p. polls (sys_tracking sys) ident = Some p \<longrightarrow> sys_pollers sys p \<noteq> None)
    \<and> (\<forall>p po. sys_pollers sys p = Some po \<longrightarrow> 1 \<le> po_interval po \<and> po_interval po \<le> 60000)
    \<and> (case polls (sys_tracking sys) (tx_id t) of
         Some p \<Rightarrow> poll_begin sys w t = sys
       | None \<Rightarrow> (\<exists>p po. sys_pollers sys p = None \<and> (\<forall>ident. polls (sys_tracking sys) ident \<noteq> Some p)
            \<and> sys_pollers (poll_begin sys w t) = (sys_pollers sys)(p \<mapsto> po) \<and> po_current po = t \<and> po_wallet po = w
            \<and> polls (sys_tracking (poll_begin sys w t)) = (polls (sys_tracking sys))(tx_id t \<mapsto> p)))"
proof -
  have inv: "tracking_inv (length es) sys" using track_run_inv [OF assms(1)] assms(2) by simp
  let ?l = "last_poll (sys_tracking sys)"
  have owned: "polls (sys_tracking sys) ident = Some p \<Longrightarrow> sys_pollers sys p \<noteq> None" for ident p
    using inv by (auto simp: tracking_inv_def ran_def)
  have intervals: "1 \<le> po_interval po \<and> po_interval po \<le> 60000" if "sys_pollers sys p = Some po" for p po
  proof -
    have "interval_ok po" using inv ranI [of "sys_pollers sys" p po, OF that] by (auto simp: tracking_inv_def)
    then show ?thesis using order.trans [OF transaction_state_configuration_bounds(1)] by (auto simp: interval_ok_def)
  qed
  have "?l < ?l + 1" using inv assms(2) by (intro next_poll_fresh) (auto simp: tracking_inv_def)
  then have "?l + 1 \<notin> dom (sys_pollers sys)" using inv unfolding tracking_inv_def by (meson leD)
  then have free: "sys_pollers sys (?l + 1) = None" by (simp add: domIff)
  show ?thesis
  proof (cases "polls (sys_tracking sys) (tx_id t)")
    case None
    have "\<forall>ident. polls (sys_tracking sys) ident \<noteq> Some (?l + 1)" using owned free by metis
    then show ?thesis using owned intervals free None
      by (auto simp: poll_begin_def start_tracking_def set_poller_def Let_def intro!: exI [of _ "?l + 1"])
  qed (use owned intervals in \<open>auto simp: poll_begin_def start_tracking_def\<close>)
qed

text \<open>
  C16: the tasks do not disturb each other. A step of one task, or the start of another, leaves every other
  task as it is, and takes a transaction from its owner only if tracking is stopped or the step's update
  brought the transaction's identifier as the new one; in particular the end of a task whose transaction was
  tracked again in the meantime leaves it to the new owner.
\<close>

theorem polls_independent:
  assumes "track_run es sys" "Suc (length es) < 2 ^ 64" "track_step sys e sys'" "event_poll sys e \<noteq> Some q"
  shows "(\<forall>po. sys_pollers sys q = Some po \<longrightarrow> sys_pollers sys' q = Some po)
    \<and> (\<forall>ident. polls (sys_tracking sys) ident = Some q \<longrightarrow> polls (sys_tracking sys') ident = Some q
         \<or> e = StopTracking \<or> (\<exists>p r. e = Updated p (Ok (Some r)) \<and> tr_transaction_id r = ident))"
proof -
  have "tracking_inv (length es) sys" using track_run_inv [OF assms(1)] assms(2) by simp
  then show ?thesis using step_keeps_poller step_keeps_others assms(2,3,4) by meson
qed

text \<open>
  C12: a poll ends once its transaction is past the deadline. Let the poll of a transaction past its deadline
  ask for an update, with the row as the poll last read it and a store that answers. Then whatever the network
  answers (except a new hash that is the transaction's own), a failed request included, the update returns a
  result with a completed state, the row holds that state, and the poll takes the result; and if the store,
  asked for the row, answers with its state, with nothing or with an error, the poll ends and nothing in the
  table belongs to it any more.
\<close>

theorem timed_out_poll_ends:
  assumes "answering_store store row" "\<forall>m. \<exists>j. json m = Ok j" "sys_pollers sys p = Some po" "po_phase po = Updating"
    and "row s (po_wallet po) (tx_id (po_current po)) = Some (tx_state (po_current po))"
    and "has_timed_out (po_current po) now"
    and "\<forall>u h. get_update env now (po_current po) = Ok u \<and> new_hash (tu_changes u) = Some h
          \<longrightarrow> tx_id (po_current po) \<noteq> \<lparr>ti_chain = asset_chain (tx_asset_id (po_current po)), ti_hash = h\<rparr>"
  shows "\<exists>r s' sys1. state_service_update env ps store json s (po_wallet po) (po_current po) now = (Ok (Some r), s')
    \<and> is_completed (tr_state r) \<and> row s' (po_wallet po) (tr_transaction_id r) = Some (tr_state r)
    \<and> track_step sys (Updated p (Ok (Some r))) sys1
    \<and> (\<forall>stored. (\<forall>t'. stored = Ok (Some t') \<longrightarrow> row s' (po_wallet po) (tr_transaction_id r) = Some (tx_state t'))
         \<longrightarrow> (\<exists>sys2. track_step sys1 (Fetched p stored) sys2
               \<and> sys_pollers sys2 p = None \<and> (\<forall>ident. polls (sys_tracking sys2) ident \<noteq> Some p)))"
proof -
  note store = answering_store.axioms(1) [OF assms(1)]
  obtain res s' where up: "state_service_update env ps store json s (po_wallet po) (po_current po) now = (Ok res, s')"
    using answering_store.service_answers [OF assms(1) _ assms(2)] assms(6) by blast
  obtain r where r: "res = Some r" "is_completed (tr_state r)"
    using state_store.timed_out_completes [OF store up assms(5-7)] by blast
  have row: "row s' (po_wallet po) (tr_transaction_id r) = Some (tr_state r)"
    using state_store.service_row [OF store _ assms(5,7)] up r(1) by blast
  let ?sys1 = "poll_updated sys p po (Ok (Some r))" and ?po1 = "po\<lparr>po_phase := Fetching (tr_transaction_id r)\<rparr>"
  have po1: "sys_pollers ?sys1 p = Some ?po1" by (simp add: poll_updated_def set_poller_def Let_def)
  have "\<exists>sys2. track_step ?sys1 (Fetched p stored) sys2
      \<and> sys_pollers sys2 p = None \<and> (\<forall>ident. polls (sys_tracking sys2) ident \<noteq> Some p)"
    if "\<forall>t'. stored = Ok (Some t') \<longrightarrow> row s' (po_wallet po) (tr_transaction_id r) = Some (tx_state t')" for stored
  proof -
    have "poll_fetched ?sys1 p ?po1 stored = end_poll ?sys1 p"
      using r row that by (auto simp: poll_fetched_def split: sum.splits option.splits)
    then have "track_step ?sys1 (Fetched p stored) (end_poll ?sys1 p)"
      using track_step.fetched [OF po1, of "tr_transaction_id r" stored] by simp
    then show ?thesis by (intro exI [of _ "end_poll ?sys1 p"]) (simp add: end_poll_def drop_tracked_def)
  qed
  then show ?thesis using up r row track_step.updated [OF assms(3,4), of "Ok (Some r)"] by blast
qed

text \<open>
  C17: stopping does not stop a poll whose update is under way and brings a new hash. The poll takes the new
  identifier into the table the stop has just cleared, so that it finds itself tracked when it wakes up next,
  and goes on asking for updates.
\<close>

theorem stopped_poll_resumes:
  assumes "sys_pollers sys p = Some po" "po_phase po = Updating" "tr_transaction_id r \<noteq> tx_id (po_current po)"
    and "\<not> is_completed (tx_state t')"
  shows "\<exists>sys1 sys2 sys3 sys4 po'. track_step sys StopTracking sys1 \<and> polls (sys_tracking sys1) = Map.empty
    \<and> track_step sys1 (Updated p (Ok (Some r))) sys2 \<and> track_step sys2 (Fetched p (Ok (Some t'))) sys3
    \<and> track_step sys3 (Wake p) sys4 \<and> sys_pollers sys4 p = Some po' \<and> po_phase po' = Updating \<and> po_current po' = t'"
proof -
  define sys1 where "sys1 = stop_tracking sys"
  define po2 where "po2 = po\<lparr>po_phase := Fetching (tr_transaction_id r)\<rparr>"
  define po3 where "po3 = po\<lparr>po_current := t', po_phase := Sleeping\<rparr>"
  have p1: "sys_pollers sys1 p = Some po" using assms(1) by (simp add: sys1_def stop_tracking_def)
  define sys2 where "sys2 = poll_updated sys1 p po (Ok (Some r))"
  have p2: "sys_pollers sys2 p = Some po2" "polls (sys_tracking sys2) (tr_transaction_id r) = Some p"
    using assms(3) by (simp_all add: sys2_def poll_updated_def set_poller_def follow_def po2_def)
  define sys3 where "sys3 = poll_fetched sys2 p po2 (Ok (Some t'))"
  have p3: "sys_pollers sys3 p = Some po3" "is_tracking (sys_tracking sys3) p"
    using assms(4) p2 by (auto simp: sys3_def poll_fetched_def set_poller_def po2_def po3_def is_tracking_def ranI)
  have "track_step sys StopTracking sys1" "polls (sys_tracking sys1) = Map.empty"
    unfolding sys1_def by (rule track_step.stop) (simp add: stop_tracking_def cancel_tracking_def)
  moreover have "track_step sys1 (Updated p (Ok (Some r))) sys2"
    unfolding sys2_def by (rule track_step.updated [OF p1 assms(2)])
  moreover have "track_step sys2 (Fetched p (Ok (Some t'))) sys3"
    unfolding sys3_def by (rule track_step.fetched [OF p2(1)]) (simp add: po2_def)
  moreover have "track_step sys3 (Wake p) (poll_wake sys3 p po3)"
    by (rule track_step.wake [OF p3(1)]) (simp add: po3_def)
  moreover have "\<exists>po'. sys_pollers (poll_wake sys3 p po3) p = Some po' \<and> po_phase po' = Updating \<and> po_current po' = t'"
    using p3(2) by (simp add: poll_wake_def set_poller_def po3_def)
  ultimately show ?thesis by blast
qed

section \<open>Instances\<close>

definition demo_started :: poll_system where
  "demo_started = poll_begin poll_system_default ''wallet'' demo_swap"

definition demo_poller :: poller where
  "demo_poller = \<lparr>po_wallet = ''wallet'', po_config = transaction_state_configuration Ethereum, po_current = demo_swap,
     po_interval = jc_initial_interval_ms (transaction_state_configuration Ethereum), po_phase = Sleeping\<rparr>"

definition demo_updating :: poll_system where
  "demo_updating = poll_wake demo_started 1 demo_poller"

lemma demo_started_simps:
  "sys_pollers demo_started = [1 \<mapsto> demo_poller]" "polls (sys_tracking demo_started) = [tx_id demo_swap \<mapsto> 1]"
  by (simp_all add: demo_started_def poll_begin_def start_tracking_def set_poller_def poll_system_default_def
      tracking_default_def demo_poller_def demo_swap_def transaction_new_def Let_def)

lemma demo_run: "track_run [StartPoll ''wallet'' demo_swap] demo_started"
  using track_run.step [OF track_run.none track_step.start] by (simp add: demo_started_def)

lemma demo_updating_poller:
  "\<exists>po. sys_pollers demo_updating 1 = Some po \<and> po_phase po = Updating \<and> po_wallet po = ''wallet'' \<and> po_current po = demo_swap"
  by (simp add: demo_updating_def poll_wake_def is_tracking_def demo_started_simps set_poller_def demo_poller_def)

theorem tracking_sound_witness:
  "track_run [StartPoll ''wallet'' demo_swap] demo_started \<and> poll_begin demo_started ''wallet'' demo_swap = demo_started"
  using tracking_sound [OF demo_run, where t = demo_swap and w = "''wallet''"] demo_run by (simp add: demo_started_simps)

theorem polls_independent_witness:
  "\<exists>sys'. track_step demo_started (StartPoll ''other'' (demo_swap\<lparr>tx_id := \<lparr>ti_chain = Ethereum, ti_hash = ''x''\<rparr>\<rparr>)) sys'
     \<and> polls (sys_tracking sys') (tx_id demo_swap) = Some 1"
proof -
  let ?e = "StartPoll ''other'' (demo_swap\<lparr>tx_id := \<lparr>ti_chain = Ethereum, ti_hash = ''x''\<rparr>\<rparr>)"
  obtain sys' where e: "track_step demo_started ?e sys'" using track_step.start by blast
  have "polls (sys_tracking sys') (tx_id demo_swap) = Some 1"
    using polls_independent [OF demo_run _ e, of 1] by (simp add: event_poll_def demo_started_simps)
  then show ?thesis using e by blast
qed

text \<open>The network cannot be reached, and the store then holds the transaction as failed.\<close>

theorem timed_out_poll_ends_witness:
  "\<exists>r sys1 sys2. track_step demo_updating (Updated 1 (Ok (Some r))) sys1
     \<and> track_step sys1 (Fetched 1 (Ok (Some (demo_swap\<lparr>tx_state := Failed\<rparr>)))) sys2 \<and> sys_pollers sys2 1 = None"
proof -
  obtain po where po: "sys_pollers demo_updating 1 = Some po" "po_phase po = Updating" "po_wallet po = ''wallet''"
    "po_current po = demo_swap"
    using demo_updating_poller by blast
  have off: "get_update demo_offline 1800000000000 demo_swap = Err StatusOffline"
    using demo_swap_facts demo_row(2)
    by (simp add: get_update_def get_swap_status_def swap_transaction_status_def cross_chain_swap_status_def chain_status_def
        get_transaction_update_def demo_offline_def)
  have "\<exists>r s' sys1. state_service_update demo_offline demo_services memory_store_ops demo_json demo_rows ''wallet'' demo_swap
        1800000000000 = (Ok (Some r), s')
      \<and> is_completed (tr_state r) \<and> memory_row s' ''wallet'' (tr_transaction_id r) = Some (tr_state r)
      \<and> track_step demo_updating (Updated 1 (Ok (Some r))) sys1
      \<and> (\<forall>stored. (\<forall>t'. stored = Ok (Some t') \<longrightarrow> memory_row s' ''wallet'' (tr_transaction_id r) = Some (tx_state t'))
         \<longrightarrow> (\<exists>sys2. track_step sys1 (Fetched 1 stored) sys2
               \<and> sys_pollers sys2 1 = None \<and> (\<forall>ident. polls (sys_tracking sys2) ident \<noteq> Some 1)))"
    using timed_out_poll_ends [OF memory.answering_store_axioms demo_json_total po(1,2), of demo_rows 1800000000000 demo_offline
        demo_services, unfolded po(3,4)]
    by (simp add: demo_row demo_timed_out off)
  then obtain r s' sys1 where r: "state_service_update demo_offline demo_services memory_store_ops demo_json demo_rows ''wallet''
        demo_swap 1800000000000 = (Ok (Some r), s')"
      "memory_row s' ''wallet'' (tr_transaction_id r) = Some (tr_state r)"
      "track_step demo_updating (Updated 1 (Ok (Some r))) sys1"
      and ends: "\<And>t'. memory_row s' ''wallet'' (tr_transaction_id r) = Some (tx_state t')
        \<Longrightarrow> \<exists>sys2. track_step sys1 (Fetched 1 (Ok (Some t'))) sys2 \<and> sys_pollers sys2 1 = None"
    by (metis Inr_inject option.inject)
  have "tr_state r = Failed" using r(1)
    by (auto simp: state_service_update_def apply_update_def off counted_update_def updated_row_def update_new_state_def
        demo_timed_out next_state_def merged_with_def demo_row state_update_def state_update_new_def write_state_def
        split: if_splits sum.splits prod.splits option.splits)
  then obtain sys2 where "track_step sys1 (Fetched 1 (Ok (Some (demo_swap\<lparr>tx_state := Failed\<rparr>)))) sys2" "sys_pollers sys2 1 = None"
    using ends [of "demo_swap\<lparr>tx_state := Failed\<rparr>"] r(2) by auto
  then show ?thesis using r(3) by blast
qed

theorem stopped_poll_resumes_witness:
  "\<exists>sys1 sys2 sys3 sys4 r t'. track_step demo_updating StopTracking sys1 \<and> track_step sys1 (Updated 1 (Ok (Some r))) sys2
     \<and> track_step sys2 (Fetched 1 (Ok (Some t'))) sys3 \<and> track_step sys3 (Wake 1) sys4 \<and> sys_pollers sys4 1 \<noteq> None"
proof -
  obtain po where po: "sys_pollers demo_updating 1 = Some po" "po_phase po = Updating" "po_current po = demo_swap"
    using demo_updating_poller by blast
  let ?r = "\<lparr>tr_transaction_id = \<lparr>ti_chain = Ethereum, ti_hash = ''x''\<rparr>, tr_state = Pending, tr_failures = []\<rparr>"
  have "tr_transaction_id ?r \<noteq> tx_id (po_current po)" "\<not> is_completed (tx_state demo_swap)"
    by (simp_all add: po demo_swap_def transaction_new_def)
  from stopped_poll_resumes [OF po(1,2) this] show ?thesis by fastforce
qed
end
