(* ===== verification/Spec2Isabelle.thy ===== *)
theory Spec2Isabelle
  imports Protobuf_Codec Tron_Signing Bitcoin_Wallet Cardano_Signing Ton_Signing Near Stellar Algorand Polkadot Xrp
    Confirm_Flow Transaction_Tracking
begin

text \<open>
  Verification library of the core of Gem Wallet (\<open>src/core\<close>): a transaction from the entered amount to its final state.

  \<^bold>\<open>The program.\<close> A transfer, swap or stake is entered on the amount screen (\<open>gemstone/src/services/amount\<close>) and becomes a
  \<open>GemTransferData\<close>. The confirmation service (\<open>services/confirm\<close>) loads fee, metadata and a scan for it, checks the
  amount against the balances (\<open>primitives/src/transfer_amount.rs\<close>), has it signed, broadcasts the signed
  transactions and stores a pending transaction for each. A \<open>SignerInput\<close> (crate \<open>primitives\<close>) names the asset, the
  amount, the addresses, the fee and what was loaded from the chain, and the \<open>ChainSigner\<close> of the chain turns
  it into signed bytes. The state service (\<open>services/transaction_state\<close>) then polls every pending transaction until it
  is completed. The library models these services, the chain configuration they rest on, the signers of ten
  chains and the codecs they are written over.

  \<^bold>\<open>How code becomes definitions.\<close> A struct is a \<open>record\<close>, an enum a \<open>datatype\<close>, a fixed-width integer a \<open>word\<close> of
  that width with \<open>checked_\<close>, \<open>saturating_\<close> and wrapping operations as in Rust, \<open>BigUint\<close> and \<open>BigInt\<close> are \<open>nat\<close> and \<open>int\<close>,
  a \<open>String\<close> is the list of its bytes as characters. \<open>Result\<close> is a sum with the error on the left
  (\<open>signer_result\<close>, \<open>tvm_result\<close>), the \<open>?\<close> operator is \<open>and_then\<close>, so every early return is a branch. A function that
  appends to a buffer is given as the bytes it appends. Loops are recursive functions with a
  termination proof; no definition takes fuel. Services a function awaits are functions in an environment record, which may
  answer anything, also differently each time (\<open>flow_env\<close> is given the trace of events so far); tasks that
  run concurrently are an \<open>inductive\<close> step relation, switching where the code awaits. Code outside the repository (hash functions, curves,
  base58, base32, bech32, base64, hexadecimal, JSON, the script types of the \<open>bitcoin\<close> crate, \<open>bigdecimal\<close>) is
  a field of a record that is the first argument of the definitions; what a theorem
  needs of it is a hypothesis of the theorem, met by a concrete library in its witness.

  \<^bold>\<open>Theories.\<close>
  \<^item> \<open>Prelude\<close>: results, checked arithmetic, little- and big-endian bytes; the locales \<open>prefix_code\<close> (an
    encoding that can be told apart from what follows it) and \<open>codec\<close> (one with a reader), with sequences and
    concatenations of encodings proved once. \<open>Utf8\<close>: \<open>str::from_utf8\<close>.
  \<^item> \<open>Chains\<close>, \<open>Wallet_Types\<close>: the types of \<open>crates/primitives\<close> that signers consume. \<open>Chain_Config\<close>: the table of
    chain configurations, network ids, staking chains, transaction deadlines.
  \<^item> \<open>Transfer_Types\<close>, \<open>Transfer_Amount\<close>, \<open>Transfer_Rules\<close>, \<open>Amount\<close>: assets and their identifiers, the wallet's request types
    and their lowering to the signers', amounts and fees against balances with the budget they are measured
    by, \<open>services/transfer/rules.rs\<close>, the amount screen.
  \<^item> \<open>Confirm\<close>, \<open>Confirm_Flow\<close>: \<open>services/confirm\<close>: signer input, approvals, fee selection and scan as functions; loading
    and executing a confirmation over the environment \<open>flow_env\<close>, with the trace of broadcasts, writes and
    tracking calls.
  \<^item> \<open>Transaction_Status\<close>: \<open>gemstone/src/transaction_state\<close> and the updates of \<open>services/transaction_state\<close>. The locale \<open>state_store\<close> is
    the contract of the store (rows by identifier), \<open>answering_store\<close> extends it by operations that do not fail; both are
    interpreted on the repository's store in memory.
    \<open>Transaction_Tracking\<close>: the polling tasks and their shared table, the relation \<open>track_step\<close> and its invariant \<open>tracking_inv\<close>.
  \<^item> \<open>Protobuf\<close>, \<open>Protobuf_Codec\<close>: \<open>gem_encoding/src/protobuf\<close>, the hand-written codec; the locales \<open>field_codec\<close> and
    \<open>message_codec\<close> are its interface to the messages of a chain.
  \<^item> \<open>Tron\<close>, \<open>Tron_Binding\<close>, \<open>Tron_Signing\<close>: \<open>gem_tron\<close>: addresses, TRC20 call data, contracts and their messages
    (interpretations of \<open>message_codec\<close>), the signer with staking, swaps and dApp requests (locale \<open>payload_builder\<close>).
  \<^item> \<open>Bitcoin_Script\<close>, \<open>Bitcoin_Planner\<close>, \<open>Bitcoin_Plans\<close>, \<open>Bitcoin_Signer\<close>, \<open>Bitcoin_Signing\<close>, \<open>Bitcoin_Wallet\<close>: \<open>gem_bitcoin\<close>:
    scripts, coin selection and fees, plans, signing for Bitcoin, Bitcoin Cash, Litecoin, Dogecoin
    and Zcash, the fee preview, signed messages.
  \<^item> \<open>Cardano\<close>, \<open>Cardano_Signing\<close>: \<open>gem_cardano\<close>: CBOR, addresses, planner, extended keys.
  \<^item> \<open>Ton_Cell\<close>, \<open>Ton_Boc\<close>, \<open>Ton\<close>: \<open>gem_ton\<close>: cells and bit streams, bags of cells, addresses, wallet contract, signer;
    \<open>Ton_Bits\<close>, \<open>Ton_Numbering\<close>, \<open>Ton_Roundtrip\<close>, \<open>Ton_Messages\<close>, \<open>Ton_Signing\<close> are the lemmas about them.
  \<^item> \<open>Ed25519\<close>: the front end of \<open>crates/signer\<close> and the locale \<open>binding_signer\<close>: a message determines what the accepted
    transaction does. \<open>Near\<close>, \<open>Stellar\<close>, \<open>Algorand\<close>, \<open>Polkadot\<close>, \<open>Xrp\<close>: the account-based chains, each from the address
    to the entry points, each an interpretation of \<open>binding_signer\<close>.

  \<^bold>\<open>What is shown.\<close> Requests: an amount is accepted exactly when it fits the balances, refusals are true, the amount screen and
  the confirmation agree on what is available (\<open>transfer_amount_exact\<close>, \<open>transfer_amount_refusals\<close>, \<open>amount_screen_agrees\<close>).
  Execution: what is broadcast is a prefix of what the signer signed for the confirmed input, what is reported is
  what the gateway accepted, and what was accepted is recorded, tracked and then owned by a running poll (\<open>execute_broadcasts_signed\<close>,
  \<open>execute_reports_accepted\<close>, \<open>broadcast_recorded\<close>, \<open>sent_transactions_polled\<close>, \<open>signer_input_confirmed\<close>, \<open>load_passed_scan\<close>). States: an update refines one move
  of a row and never takes a completed transaction back (\<open>apply_update_exact\<close>, \<open>service_update_monotone\<close>); in every
  interleaving the table of polls is sound, tasks do not disturb each other and a poll past its deadline ends, also without a network
  (\<open>tracking_sound\<close>, \<open>polls_independent\<close>, \<open>timed_out_poll_ends\<close>). Behaviours of the code against its intent are theorems as
  well: \<open>late_swap_stored_failed\<close>, \<open>stopped_poll_resumes\<close>, \<open>tron_vote_fee_from_frozen\<close>, \<open>exact_cover_refused\<close>. Money: a plan spends what it pays plus its fee, pays what was asked, and its fee covers the estimate
  (\<open>plan_conserves_value\<close>, \<open>plan_outputs_shape\<close>, \<open>plan_fee_covers_estimate\<close>, \<open>cardano_conserves_value\<close>, \<open>cardano_fee_sufficient\<close>);
  the preview is what is paid (\<open>preview_fee_is_paid\<close>). Signatures: what is signed determines the
  transaction, for every chain (\<open>tron_raw_data_encode_binding\<close>, \<open>zcash_digest_binds_plan\<close>, \<open>bch_digest_binds_plan\<close>,
  \<open>cardano_id_binds_transaction\<close>, \<open>ton_signature_binds\<close>, \<open>near_signature_binds\<close>, \<open>stellar_signature_binds\<close>,
  \<open>algorand_signature_binds\<close>, \<open>polkadot_payload_binds\<close>, \<open>xrp_signature_binds\<close>), only the key's own coins and accounts are
  signed for, and a dApp request only for the bytes that its view encodes to. Encodings are measured against
  readers written from the format, not from the code: bags of cells, MessagePack in shortest forms, compact integers,
  DER, issued amounts, protobuf fields. Termination: the loops are total functions, except the renumbering of the bag of
  cells, a \<open>partial_function\<close> in the option type that is shown to end (\<open>ton_numbering_ends\<close>).

  \<^bold>\<open>Bounds in the statements.\<close> Lengths are bounded where the code stores them in a fixed field (\<open>2 ^ 32\<close> for NEAR strings, 256 and
  65536 bytes for Algorand strings and byte strings, \<open>2 ^ 62\<close> drops for an XRP fee); the code does not check these,
  and \<open>encode_bytes_wraps\<close> shows what it does beyond. The parser of bags of cells refuses more than 4096 cells, so that reading a
  bag back is stated up to there. Polkadot payloads are compared for runtime versions with the same layout of the extrinsic. Hash functions are assumed not to collide on the strings at
  hand, never to be injective. The invariant of the polling tasks is stated for fewer than \<open>2 ^ 64\<close> events, since the number of a
  poll is a \<open>u64\<close> that the code increments unchecked. Update theorems assume that a new hash differs from the hash the
  transaction has: \<open>rename\<close> would delete the row otherwise.

  \<^bold>\<open>Not modelled.\<close> The signers of the EVM chains, Solana, Sui, Aptos, Cosmos and Hyperliquid; TON Connect and BIP-322 envelopes,
  which are JSON; chain clients, providers and swap services, which are remote calls; the view of a simulation and the
  floating point of perpetual orders in the confirmation; the other services of \<open>gemstone\<close>, its generated bindings; storage,
  pricing, rewards and applications, which are databases and processes; the mobile applications, in other languages.
\<close>

section \<open>From the confirmation to the tracker\<close>

text \<open>
  C40: what was sent is polled. Let an execution report hashes, with a network fee that is not negative, a store that takes
  the pending transactions and a service that enables their assets. Then its last effect hands the tracker one pending
  transaction of the wallet's account for every reported hash that is to be tracked, in order; and in any state the tracker
  can be in, once the events this causes have happened, each of them is owned by a running poll: the one that owned it
  already, or a new one for this wallet and this transaction. (The tracker has seen fewer than \<open>2 ^ 64 - 1\<close> events.)
\<close>

theorem sent_transactions_polled:
  assumes "execute env tr i = (r, tr')" "reported r = Some hs" "0 \<le> si_network_fee i"
    and "w = wallet_id (si_wallet i)" "\<And>before ts. env_add_transactions env before w ts = Ok ()"
    and "\<And>ids. set_enabled w ids = Ok ()"
    and "track_run es sys" "length es + length hs < 2 ^ 64 - 1"
  shows "\<exists>txs acc stored events sys'. sign_and_validate env i = Ok txs
    \<and> wallet_account (si_wallet i) (input_chain (si_input_type i)) = Some acc \<and> last tr' = Track w stored
    \<and> list_all2 (stands_for (acc_address acc)) stored (map snd (filter (tracked_at (si_input_type i) txs) (enumerate 0 hs)))
    \<and> track set_enabled w stored = Ok events \<and> track_run (es @ events) sys'
    \<and> (\<forall>t \<in> set stored. \<exists>p po. polls (sys_tracking sys') (tx_id t) = Some p \<and> sys_pollers sys' p = Some po
         \<and> (polls (sys_tracking sys) (tx_id t) = None \<longrightarrow>
              po_wallet po = w \<and> po_phase po = Sleeping \<and> po_current po \<in> set stored \<and> tx_id (po_current po) = tx_id t))"
proof -
  obtain txs acc stored tr1 pending where ex: "sign_and_validate env i = Ok txs"
      "wallet_account (si_wallet i) (input_chain (si_input_type i)) = Some acc"
      and pending: "list_all2 (stands_for (acc_address acc)) pending (map snd (filter (tracked_at (si_input_type i) txs) (enumerate 0 hs)))"
      and tr': "tr' = tr1 @ (if pending = [] then [] else [StorePending w pending]) @ [Track w stored]"
      and "stored = pending \<or> (\<exists>e. env_add_transactions env tr1 w pending = Inl e) \<and> stored = []"
    unfolding assms(4) by (rule execute_stores [OF assms(1-3)])
  then have stored: "stored = pending" using assms(5) by auto
  have "length stored \<le> length (enumerate 0 hs)"
    using list_all2_lengthD [OF pending] unfolding stored by (metis length_filter_le length_map)
  then have "length es + length stored < 2 ^ 64 - 1" using assms(8) by simp
  from track_run_starts [OF assms(7) this, of w] obtain sys' where
      "track_run (es @ map (StartPoll w) stored) sys'"
      "\<forall>t \<in> set stored. \<exists>p po. polls (sys_tracking sys') (tx_id t) = Some p \<and> sys_pollers sys' p = Some po
         \<and> (polls (sys_tracking sys) (tx_id t) = None \<longrightarrow>
              po_wallet po = w \<and> po_phase po = Sleeping \<and> po_current po \<in> set stored \<and> tx_id (po_current po) = tx_id t)"
    by blast
  moreover have "track set_enabled w stored = Ok (map (StartPoll w) stored)"
    using assms(6) by (simp add: track_def enable_transaction_assets_def Let_def)
  moreover have "last tr' = Track w stored" using tr' by simp
  ultimately show ?thesis using ex pending stored by blast
qed

theorem sent_transactions_polled_witness:
  "\<exists>r tr' t sys' p. execute demo_env [] demo_send = (r, tr') \<and> last tr' = Track ''multicoin'' [t] \<and> ti_hash (tx_id t) = ''hash1''
     \<and> track_run [StartPoll ''multicoin'' t] sys' \<and> polls (sys_tracking sys') (tx_id t) = Some p \<and> sys_pollers sys' p \<noteq> None"
proof -
  obtain msg tr' where e: "execute demo_env [] demo_send = (Err (CE_Broadcast [''hash1''] msg), tr')"
    using demo_execute by blast
  have w: "''multicoin'' = wallet_id (si_wallet demo_send)" "0 \<le> si_network_fee demo_send"
    by (auto simp: demo_confirm_defs)
  have add: "env_add_transactions demo_env before v ts = Ok ()" for before v ts by (simp add: demo_env_def)
  have t: "tracked_at (si_input_type demo_send) demo_signed (0, ''hash1'')"
    by (simp add: demo_input_type tracked_at_def demo_signed_def is_tracked_def)
  have "\<exists>txs acc stored events sys'. sign_and_validate demo_env demo_send = Ok txs
    \<and> wallet_account (si_wallet demo_send) (input_chain (si_input_type demo_send)) = Some acc \<and> last tr' = Track ''multicoin'' stored
    \<and> list_all2 (stands_for (acc_address acc)) stored (map snd (filter (tracked_at (si_input_type demo_send) txs) (enumerate 0 [''hash1''])))
    \<and> track (\<lambda>_ _. Ok ()) ''multicoin'' stored = Ok events \<and> track_run ([] @ events) sys'
    \<and> (\<forall>t \<in> set stored. \<exists>p po. polls (sys_tracking sys') (tx_id t) = Some p \<and> sys_pollers sys' p = Some po
         \<and> (polls (sys_tracking poll_system_default) (tx_id t) = None \<longrightarrow>
              po_wallet po = ''multicoin'' \<and> po_phase po = Sleeping \<and> po_current po \<in> set stored \<and> tx_id (po_current po) = tx_id t))"
    by (rule sent_transactions_polled [OF e _ w(2,1) add _ track_run.none]) simp_all
  then obtain txs acc stored events sys' where txs: "sign_and_validate demo_env demo_send = Ok txs"
      "wallet_account (si_wallet demo_send) (input_chain (si_input_type demo_send)) = Some acc"
      and o: "last tr' = Track ''multicoin'' stored"
      "list_all2 (stands_for (acc_address acc)) stored (map snd (filter (tracked_at (si_input_type demo_send) txs) (enumerate 0 [''hash1''])))"
      "track (\<lambda>_ _. Ok ()) ''multicoin'' stored = Ok events" "track_run ([] @ events) sys'"
      and owned: "\<forall>t \<in> set stored. \<exists>p po. polls (sys_tracking sys') (tx_id t) = Some p \<and> sys_pollers sys' p = Some po
         \<and> (polls (sys_tracking poll_system_default) (tx_id t) = None \<longrightarrow>
              po_wallet po = ''multicoin'' \<and> po_phase po = Sleeping \<and> po_current po \<in> set stored \<and> tx_id (po_current po) = tx_id t)"
    by blast
  have "txs = demo_signed" using txs demo_sign by simp
  obtain x where "stored = [x]" "ti_hash (tx_id x) = ''hash1''"
    using o(2) t \<open>txs = demo_signed\<close> by (auto simp: list_all2_Cons2 stands_for_def)
  moreover have "events = map (StartPoll ''multicoin'') stored"
    using o(3) by (simp add: track_def enable_transaction_assets_def Let_def)
  ultimately show ?thesis using e o(1,4) owned by auto
qed

end
